(* ===== verification/Prelude.thy ===== *)
theory Prelude
  imports "HOL-Library.Word" "HOL-Library.Multiset"
begin

text \<open>
  The vocabulary every component shares: results of fallible Go functions, the identifier and
  white-space rules of the Go standard library the sources use, SQL tables as lists of rows,
  and the environment of a database operation (clock, generated identifiers, failures of single
  statements, transactions of other processes that commit in between).
\<close>

section \<open>Automation collections\<close>

named_theorems db_simps \<open>equations that evaluate database statements and transactions\<close>
named_theorems inv_intros \<open>introduction rules for the invariants of the stores\<close>

section \<open>Machine integers\<close>

type_synonym u64 = "64 word"
type_synonym u32 = "32 word"
type_synonym u16 = "16 word"

text \<open>A Go \<open>int64\<close> value is an \<open>int\<close>; every operation that can overflow goes through \<open>i64\<close>.\<close>

definition i64 :: "int \<Rightarrow> int" where
  "i64 x = (x + 2 ^ 63) mod 2 ^ 64 - 2 ^ 63"

text \<open>Go's integer division truncates towards zero.\<close>

definition go_div :: "int \<Rightarrow> int \<Rightarrow> int" where
  "go_div a b = sgn a * sgn b * (\<bar>a\<bar> div \<bar>b\<bar>)"

lemma i64_id: "- (2 ^ 63) \<le> x \<Longrightarrow> x < 2 ^ 63 \<Longrightarrow> i64 x = x"
  by (simp add: i64_def)

lemma i64_bounds: "- (2 ^ 63) \<le> i64 x" "i64 x < 2 ^ 63"
proof -
  have "0 \<le> (x + 2 ^ 63) mod 2 ^ 64" "(x + 2 ^ 63) mod 2 ^ 64 < 2 ^ 64" by simp_all
  then show "- (2 ^ 63) \<le> i64 x" "i64 x < 2 ^ 63" by (simp_all add: i64_def)
qed

lemma i64_mod: "i64 x mod 2 ^ 64 = x mod 2 ^ 64"
proof -
  have "i64 x mod 2 ^ 64 = ((x + 2 ^ 63) mod 2 ^ 64 - 2 ^ 63) mod 2 ^ 64" by (simp add: i64_def)
  also have "\<dots> = (x + 2 ^ 63 - 2 ^ 63) mod 2 ^ 64" by (rule mod_diff_left_eq)
  finally show ?thesis by simp
qed

lemma i64_eq_iff: "i64 x = i64 y \<longleftrightarrow> x mod 2 ^ 64 = y mod 2 ^ 64"
proof
  assume "x mod 2 ^ 64 = y mod 2 ^ 64"
  then have "(x + 2 ^ 63) mod 2 ^ 64 = (y + 2 ^ 63) mod 2 ^ 64" by (rule mod_add_cong) simp
  then show "i64 x = i64 y" by (simp add: i64_def)
qed (metis i64_mod)

lemma i64_add_left: "i64 (i64 x + y) = i64 (x + y)"
  unfolding i64_eq_iff by (metis i64_mod mod_add_left_eq)

lemma i64_diff_right: "i64 (x - i64 y) = i64 (x - y)"
  unfolding i64_eq_iff by (metis i64_mod mod_diff_right_eq)

lemma i64_add_right: "i64 (x + i64 y) = i64 (x + y)"
  by (metis add.commute i64_add_left)

lemma go_div_nonneg: "0 \<le> a \<Longrightarrow> 0 < b \<Longrightarrow> go_div a b = a div b"
  by (cases "a = 0") (simp_all add: go_div_def)

text \<open>\<open>big.Int.IsUint64\<close>, and the conversion of a value that passes it.\<close>

definition is_uint64 :: "int \<Rightarrow> bool" where
  "is_uint64 x \<longleftrightarrow> 0 \<le> x \<and> x < 2 ^ 64"

definition to_u64 :: "int \<Rightarrow> u64" where
  "to_u64 x = word_of_int x"

lemma uint_to_u64: "is_uint64 x \<Longrightarrow> uint (to_u64 x) = x"
  by (simp add: is_uint64_def to_u64_def uint_word_of_int)

lemma is_uint64_uint [simp]: "is_uint64 (uint (w :: u64))"
  using uint_lt2p [of w] by (simp add: is_uint64_def)

lemma to_u64_uint [simp]: "to_u64 (uint w) = w"
  by (simp add: to_u64_def)

lemma uint_pos_iff: "0 < uint (w :: 'a::len word) \<longleftrightarrow> w \<noteq> 0"
  using uint_0_iff [of w] uint_ge_0 [of w] by linarith

lemma u64_quotient_iff:
  "is_uint64 q \<and> q \<noteq> 0 \<and> to_u64 q = w \<longleftrightarrow> uint w = q \<and> w \<noteq> 0"
proof
  assume "is_uint64 q \<and> q \<noteq> 0 \<and> to_u64 q = w"
  then have "uint w = q" "q \<noteq> 0" using uint_to_u64 by blast+
  then show "uint w = q \<and> w \<noteq> 0" by auto
next
  assume "uint w = q \<and> w \<noteq> 0"
  then show "is_uint64 q \<and> q \<noteq> 0 \<and> to_u64 q = w" by (auto simp: uint_0_iff)
qed

section \<open>White space and identifiers\<close>

text \<open>
  Strings are Go strings, sequences of bytes. \<open>strings.TrimSpace\<close> strips every Unicode white
  space; these are the UTF-8 encodings of the code points with the White_Space property.
\<close>

definition space_encodings :: "string list" where
  "space_encodings =
     [[CHR 0x09], [CHR 0x0A], [CHR 0x0B], [CHR 0x0C], [CHR 0x0D], [CHR 0x20],
      [CHR 0xC2, CHR 0x85], [CHR 0xC2, CHR 0xA0], [CHR 0xE1, CHR 0x9A, CHR 0x80],
      [CHR 0xE2, CHR 0x80, CHR 0x80], [CHR 0xE2, CHR 0x80, CHR 0x81],
      [CHR 0xE2, CHR 0x80, CHR 0x82], [CHR 0xE2, CHR 0x80, CHR 0x83],
      [CHR 0xE2, CHR 0x80, CHR 0x84], [CHR 0xE2, CHR 0x80, CHR 0x85],
      [CHR 0xE2, CHR 0x80, CHR 0x86], [CHR 0xE2, CHR 0x80, CHR 0x87],
      [CHR 0xE2, CHR 0x80, CHR 0x88], [CHR 0xE2, CHR 0x80, CHR 0x89],
      [CHR 0xE2, CHR 0x80, CHR 0x8A], [CHR 0xE2, CHR 0x80, CHR 0xA8],
      [CHR 0xE2, CHR 0x80, CHR 0xA9], [CHR 0xE2, CHR 0x80, CHR 0xAF],
      [CHR 0xE2, CHR 0x81, CHR 0x9F], [CHR 0xE3, CHR 0x80, CHR 0x80]]"

fun strip_any :: "string list \<Rightarrow> string \<Rightarrow> string option" where
  "strip_any [] s = None"
| "strip_any (p # ps) s =
     (if p \<noteq> [] \<and> take (length p) s = p then Some (drop (length p) s) else strip_any ps s)"

lemma strip_any_shorter: "strip_any ps s = Some s' \<Longrightarrow> length s' < length s"
  by (induction ps) (auto split: if_splits, metis diff_less length_greater_0_conv take_Nil)

function trim_left :: "string list \<Rightarrow> string \<Rightarrow> string" where
  "trim_left ps s = (case strip_any ps s of None \<Rightarrow> s | Some s' \<Rightarrow> trim_left ps s')"
  by pat_completeness auto
termination
  by (relation "measure (length \<circ> snd)") (auto dest: strip_any_shorter)

declare trim_left.simps [simp del]

definition trim_space :: "string \<Rightarrow> string" where
  "trim_space s =
     rev (trim_left (map rev space_encodings) (rev (trim_left space_encodings s)))"

text \<open>The pattern \<open>^[A-Za-z0-9][A-Za-z0-9._:-]{0,127}$\<close> shared by the packages.\<close>

definition alnum :: "char \<Rightarrow> bool" where
  "alnum c \<longleftrightarrow> (let n = of_char c :: nat in
     65 \<le> n \<and> n \<le> 90 \<or> 97 \<le> n \<and> n \<le> 122 \<or> 48 \<le> n \<and> n \<le> 57)"

definition id_char :: "char \<Rightarrow> bool" where
  "id_char c \<longleftrightarrow> alnum c \<or> c = CHR ''.'' \<or> c = CHR ''_'' \<or> c = CHR '':'' \<or> c = CHR ''-''"

fun id_pattern :: "string \<Rightarrow> bool" where
  "id_pattern [] = False"
| "id_pattern (c # cs) = (alnum c \<and> length cs \<le> 127 \<and> list_all id_char cs)"

definition canonical_id :: "string \<Rightarrow> bool" where
  "canonical_id v \<longleftrightarrow> \<not> (v = [] \<or> trim_space v \<noteq> v \<or> length v > 256 \<or> \<not> id_pattern v)"


text \<open>
  An identifier holds no byte that starts or ends an encoded white space, so the explicit
  \<open>TrimSpace\<close> and length tests of the sources are implied by the pattern.
\<close>

lemma strip_any_None:
  "s = [] \<or> (\<forall>p \<in> set ps. p = [] \<or> hd p \<noteq> hd s) \<Longrightarrow> strip_any ps s = None"
proof (induction ps)
  case (Cons p ps)
  have "\<not> (p \<noteq> [] \<and> take (length p) s = p)"
    using Cons.prems by (cases p; cases s) auto
  then show ?case using Cons by auto
qed simp

lemma trim_left_id: "s = [] \<or> (\<forall>p \<in> set ps. p = [] \<or> hd p \<noteq> hd s) \<Longrightarrow> trim_left ps s = s"
  by (simp add: trim_left.simps [of ps s] strip_any_None)

lemma space_starts: "p \<in> set space_encodings \<Longrightarrow> p = [] \<or> \<not> id_char (hd p)"
  by (auto simp: space_encodings_def id_char_def alnum_def)

lemma space_ends: "p \<in> set (map rev space_encodings) \<Longrightarrow> p = [] \<or> \<not> id_char (hd p)"
  by (auto simp: space_encodings_def id_char_def alnum_def)

lemma id_pattern_chars: "id_pattern v \<Longrightarrow> v \<noteq> [] \<and> list_all id_char v"
  by (cases v) (auto simp: id_char_def)

lemma trim_space_id: "list_all id_char v \<Longrightarrow> trim_space v = v"
proof -
  assume v: "list_all id_char v"
  have "trim_left space_encodings v = v"
  proof (cases "v = []")
    case False
    then have "id_char (hd v)"
      using v by (simp add: list_all_iff)
    then have "\<forall>p \<in> set space_encodings. p = [] \<or> hd p \<noteq> hd v"
      using space_starts by metis
    then show ?thesis by (simp add: trim_left_id del: set_map)
  qed (simp add: trim_left_id)
  moreover have "trim_left (map rev space_encodings) (rev v) = rev v"
  proof (cases "v = []")
    case False
    then have "id_char (hd (rev v))"
      using v by (simp add: hd_rev list_all_iff)
    then have "\<forall>p \<in> set (map rev space_encodings). p = [] \<or> hd p \<noteq> hd (rev v)"
      using space_ends by metis
    then show ?thesis by (simp add: trim_left_id del: set_map)
  qed (simp add: trim_left_id)
  ultimately show ?thesis by (simp add: trim_space_def)
qed

lemma canonical_id_iff: "canonical_id v \<longleftrightarrow> id_pattern v"
proof -
  have "\<not> 256 < length v" if "id_pattern v" using that by (cases v) auto
  then show ?thesis
    using id_pattern_chars [of v] trim_space_id [of v] unfolding canonical_id_def by metis
qed

lemma canonical_id_nonempty: "canonical_id v \<Longrightarrow> v \<noteq> []"
  by (simp add: canonical_id_def)

section \<open>Results\<close>

text \<open>
  A fallible call returns \<open>Inl\<close> the error or \<open>Inr\<close> the value, with the state it leaves;
  \<open>on_ok r k\<close> is the source's \<open>if err != nil { return ..., err }\<close> followed by \<open>k\<close>.
\<close>

definition on_ok ::
  "('e + 'a) \<times> 'w \<Rightarrow> ('a \<Rightarrow> 'w \<Rightarrow> ('e + 'b) \<times> 'w) \<Rightarrow> ('e + 'b) \<times> 'w" where
  "on_ok r k = (case r of (Inl e, w) \<Rightarrow> (Inl e, w) | (Inr a, w) \<Rightarrow> k a w)"

definition map_err :: "('e \<Rightarrow> 'f) \<Rightarrow> ('e + 'a) \<times> 'w \<Rightarrow> ('f + 'a) \<times> 'w" where
  "map_err g r = (case r of (Inl e, w) \<Rightarrow> (Inl (g e), w) | (Inr a, w) \<Rightarrow> (Inr a, w))"

lemma on_ok_simps [simp]:
  "on_ok (Inl e, w) k = (Inl e, w)"
  "on_ok (Inr a, w) k = k a w"
  by (simp_all add: on_ok_def)

lemma map_err_simps [simp]:
  "map_err g (Inl e, w) = (Inl (g e), w)"
  "map_err g (Inr a, w) = (Inr a, w)"
  by (simp_all add: map_err_def)

lemma on_ok_Inr_iff:
  "on_ok r k = (Inr b, w') \<longleftrightarrow> (\<exists>a w. r = (Inr a, w) \<and> k a w = (Inr b, w'))"
  by (cases r; cases "fst r") (auto simp: on_ok_def)

lemma on_ok_Inl_iff:
  "on_ok r k = (Inl e, w') \<longleftrightarrow>
     r = (Inl e, w') \<or> (\<exists>a w. r = (Inr a, w) \<and> k a w = (Inl e, w'))"
  by (cases r; cases "fst r") (auto simp: on_ok_def)

lemma map_err_Inr_iff: "map_err g r = (Inr a, w) \<longleftrightarrow> r = (Inr a, w)"
  by (cases r; cases "fst r") (auto simp: map_err_def)

lemma map_err_Inl_iff: "map_err g r = (Inl f, w) \<longleftrightarrow> (\<exists>e. r = (Inl e, w) \<and> f = g e)"
  by (cases r; cases "fst r") (auto simp: map_err_def)

lemma snd_map_err [simp]: "snd (map_err g r) = snd r"
  by (cases r; cases "fst r") (auto simp: map_err_def)

section \<open>Sorting by a comparison\<close>

text \<open>\<open>ORDER BY\<close> and \<open>sort.Slice\<close> with an explicit comparison, as an insertion sort.\<close>

fun insort_by :: "('a \<Rightarrow> 'a \<Rightarrow> bool) \<Rightarrow> 'a \<Rightarrow> 'a list \<Rightarrow> 'a list" where
  "insort_by le x [] = [x]"
| "insort_by le x (y # ys) = (if le x y then x # y # ys else y # insort_by le x ys)"

fun sort_by :: "('a \<Rightarrow> 'a \<Rightarrow> bool) \<Rightarrow> 'a list \<Rightarrow> 'a list" where
  "sort_by le [] = []"
| "sort_by le (x # xs) = insort_by le x (sort_by le xs)"

lemma mset_insort_by [simp]: "mset (insort_by le x xs) = add_mset x (mset xs)"
  by (induction xs) auto

lemma mset_sort_by [simp]: "mset (sort_by le xs) = mset xs"
  by (induction xs) auto

lemma set_sort_by [simp]: "set (sort_by le xs) = set xs"
  by (metis mset_sort_by set_mset_mset)

lemma length_sort_by [simp]: "length (sort_by le xs) = length xs"
  by (metis mset_sort_by size_mset)

text \<open>Between keys of a linear order a sort by key is determined by the multiset of its input.\<close>

lemma set_insort_by [simp]: "set (insort_by le x xs) = insert x (set xs)"
  by (induction xs) auto

lemma sorted_insort_by:
  "sorted (map k xs) \<Longrightarrow>
   sorted (map k (insort_by (\<lambda>a b. k a \<le> (k b :: 'k::linorder)) x xs))"
  by (induction xs) auto

lemma sorted_sort_by: "sorted (map k (sort_by (\<lambda>a b. k a \<le> (k b :: 'k::linorder)) xs))"
  by (induction xs) (auto intro: sorted_insort_by)

text \<open>Go compares strings bytewise.\<close>

fun text_le :: "string \<Rightarrow> string \<Rightarrow> bool" where
  "text_le [] _ = True"
| "text_le (a # as) [] = False"
| "text_le (a # as) (b # bs) =
     ((of_char a :: nat) < of_char b \<or> a = b \<and> text_le as bs)"

lemma text_le_refl [simp]: "text_le s s"
  by (induction s) auto

lemma text_le_total: "text_le s t \<or> text_le t s"
  by (induction s t rule: text_le.induct) (auto simp: nat_neq_iff)

lemma text_le_trans: "text_le s t \<Longrightarrow> text_le t u \<Longrightarrow> text_le s u"
proof (induction s arbitrary: t u)
  case (Cons a s)
  then show ?case by (cases t; cases u) auto
qed simp

lemma text_le_antisym: "text_le s t \<Longrightarrow> text_le t s \<Longrightarrow> s = t"
  by (induction s t rule: text_le.induct) (auto elim: text_le.elims)

section \<open>Time\<close>

text \<open>
  A \<open>time.Time\<close>: nanoseconds since the Unix epoch, the offset of its location, and whether its
  location is \<open>time.UTC\<close>. The calendar fields the sources read (\<open>Year\<close>, \<open>Month\<close>, \<open>Day\<close>,
  \<open>Hour\<close> and below, \<open>Weekday\<close>) are functions of the wall clock; only the day number and
  the time of day matter here.
\<close>

record gtime =
  gt_inst :: int
  gt_off :: int
  gt_utc :: bool

definition day_ns :: int where
  "day_ns = 24 * 60 * 60 * 1000000000"

definition wall :: "gtime \<Rightarrow> int" where
  "wall t = gt_inst t + gt_off t"

definition day_of :: "gtime \<Rightarrow> int" where
  "day_of t = wall t div day_ns"

definition at_midnight :: "gtime \<Rightarrow> bool" where
  "at_midnight t \<longleftrightarrow> wall t mod day_ns = 0"

text \<open>\<open>time.Date(t.Year(), t.Month(), t.Day(), 0, 0, 0, 0, time.UTC)\<close>, and the zero time.\<close>

definition utc_date :: "int \<Rightarrow> gtime" where
  "utc_date day = \<lparr>gt_inst = day * day_ns, gt_off = 0, gt_utc = True\<rparr>"

definition is_zero_time :: "gtime \<Rightarrow> bool" where
  "is_zero_time t \<longleftrightarrow> gt_inst t = -62135596800 * 1000000000"

lemma utc_date_simps [simp]:
  "day_of (utc_date n) = n" "at_midnight (utc_date n)" "gt_utc (utc_date n)"
  by (simp_all add: utc_date_def day_of_def at_midnight_def wall_def day_ns_def)

end
