(* ===== verification/Intent_Model.thy ===== *)
theory Intent_Model
  imports Prelude
begin

text \<open>
  \<open>internal/intent/model.go\<close>: the financial intent, its lifecycle states and the pure
  operations on it. Plain \<open>errors.New\<close> texts are \<open>ErrText\<close>; the identifier loop of \<open>Validate\<close>
  ranges over a Go map, so which field name an error mentions is not determined and the model
  reports the failure without it.
\<close>

datatype intent_state =
  StateDraft | StateApproved | StateReservationRequested | StateReserved | StatePosted
| StateVoided | StateAmbiguous | StateReconciliationRequired

datatype intent_error =
  ErrNotFound | ErrConflict | ErrInvalidState | ErrMakerChecker | ErrImmutableConflict
| ErrInvalidResolution | ErrResolutionRejected | ErrNotMaker
| ErrText string
| ErrDatabase string

text \<open>A resolution arrives as text; anything but the two approved dispositions is \<open>ResolutionOther\<close>.\<close>

datatype resolution = ResolutionReconcile | ResolutionVoid | ResolutionOther string

record create_request =
  rq_id :: string
  rq_ref :: string
  rq_debit :: string
  rq_credit :: string
  rq_amount :: u64
  rq_ledger :: u32
  rq_code :: u16
  rq_currency :: string
  rq_maker :: string

record intent = create_request +
  it_state :: intent_state
  it_checker :: "string option"
  it_created :: int
  it_updated :: int
  it_version :: int

definition approved_currency :: "string \<Rightarrow> bool" where
  "approved_currency c \<longleftrightarrow> c = ''NGN'' \<or> c = ''USD''"

definition validate :: "'a create_request_scheme \<Rightarrow> intent_error + unit" where
  "validate request =
     (if \<exists>v \<in> set [rq_id request, rq_ref request, rq_debit request, rq_credit request,
                    rq_currency request, rq_maker request].
           v = [] \<or> trim_space v \<noteq> v \<or> length v > 256 \<or> \<not> id_pattern v
      then Inl (ErrText ''not canonical approved identifier text'')
      else if rq_debit request = rq_credit request
      then Inl (ErrText ''debit and credit accounts must differ'')
      else if rq_amount request = 0 then Inl (ErrText ''amount must be non-zero'')
      else if rq_ledger request = 0 \<or> rq_code request = 0
      then Inl (ErrText ''ledger and code must be non-zero'')
      else if rq_currency request \<noteq> ''NGN'' \<and> rq_currency request \<noteq> ''USD''
      then Inl (ErrText ''currency is not an approved ledger currency (NGN, USD)'')
      else Inr ())"

definition matches :: "intent \<Rightarrow> create_request \<Rightarrow> bool" where
  "matches i request \<longleftrightarrow>
     rq_id i = rq_id request \<and> rq_ref i = rq_ref request \<and>
     rq_debit i = rq_debit request \<and> rq_credit i = rq_credit request \<and>
     rq_amount i = rq_amount request \<and> rq_ledger i = rq_ledger request \<and>
     rq_code i = rq_code request \<and> rq_currency i = rq_currency request \<and>
     rq_maker i = rq_maker request"

definition approve :: "intent \<Rightarrow> string \<Rightarrow> intent_error + intent" where
  "approve current checker =
     (if it_state current \<noteq> StateDraft then Inl ErrInvalidState
      else if trim_space checker = [] \<or> checker = rq_maker current then Inl ErrMakerChecker
      else Inr (current\<lparr>it_state := StateApproved, it_checker := Some checker\<rparr>))"

fun valid_operational_transition :: "intent_state \<Rightarrow> intent_state \<Rightarrow> bool" where
  "valid_operational_transition StateDraft next = (next = StateVoided)"
| "valid_operational_transition StateApproved next = (next = StateReservationRequested)"
| "valid_operational_transition StateReservationRequested next =
     (next = StateReserved \<or> next = StateAmbiguous \<or> next = StateReconciliationRequired)"
| "valid_operational_transition StateReserved next =
     (next = StatePosted \<or> next = StateVoided \<or> next = StateAmbiguous
        \<or> next = StateReconciliationRequired)"
| "valid_operational_transition StateReconciliationRequired next =
     (next = StateReserved \<or> next = StatePosted \<or> next = StateVoided \<or> next = StateAmbiguous)"
| "valid_operational_transition StateAmbiguous next =
     (next = StateReconciliationRequired \<or> next = StateVoided)"
| "valid_operational_transition _ next = False"

definition resolve_ambiguous ::
  "intent \<Rightarrow> int \<Rightarrow> string \<Rightarrow> resolution \<Rightarrow> intent_error + intent" where
  "resolve_ambiguous current expected_version officer resolution =
     (if it_state current \<noteq> StateAmbiguous then Inl ErrInvalidState
      else if it_version current \<noteq> expected_version then Inl ErrConflict
      else if \<not> canonical_id officer
      then Inl (ErrText ''officer is not canonical approved identifier text'')
      else case (case resolution of
                   ResolutionReconcile \<Rightarrow> Some StateReconciliationRequired
                 | ResolutionVoid \<Rightarrow> Some StateVoided
                 | ResolutionOther _ \<Rightarrow> None) of
             None \<Rightarrow> Inl ErrInvalidResolution
           | Some next \<Rightarrow>
               if \<not> valid_operational_transition (it_state current) next then Inl ErrInvalidState
               else Inr (current\<lparr>it_state := next\<rparr>))"

definition void_draft :: "intent \<Rightarrow> int \<Rightarrow> string \<Rightarrow> intent_error + intent" where
  "void_draft current expected_version actor =
     (if it_state current \<noteq> StateDraft then Inl ErrInvalidState
      else if it_version current \<noteq> expected_version then Inl ErrConflict
      else if actor = [] \<or> actor \<noteq> rq_maker current then Inl ErrNotMaker
      else Inr (current\<lparr>it_state := StateVoided\<rparr>))"

section \<open>Characteristic facts\<close>

text \<open>What a request that passed \<open>Validate\<close> promises.\<close>

definition valid_request :: "'a create_request_scheme \<Rightarrow> bool" where
  "valid_request request \<longleftrightarrow>
     list_all id_pattern [rq_id request, rq_ref request, rq_debit request, rq_credit request,
                          rq_maker request] \<and>
     rq_debit request \<noteq> rq_credit request \<and> rq_amount request \<noteq> 0 \<and> rq_ledger request \<noteq> 0 \<and>
     rq_code request \<noteq> 0 \<and> approved_currency (rq_currency request)"

lemma approved_currency_id: "approved_currency c \<Longrightarrow> id_pattern c"
  by (auto simp: approved_currency_def alnum_def id_char_def)

lemma not_canonical_iff:
  "(v = [] \<or> trim_space v \<noteq> v \<or> length v > 256 \<or> \<not> id_pattern v) \<longleftrightarrow> \<not> id_pattern v"
  using canonical_id_iff [of v] unfolding canonical_id_def by blast

lemma validate_iff: "validate request = Inr () \<longleftrightarrow> valid_request request"
proof (cases "approved_currency (rq_currency request)")
  case True
  then have "id_pattern (rq_currency request)" by (rule approved_currency_id)
  with True show ?thesis
    unfolding validate_def not_canonical_iff valid_request_def
    by (simp add: approved_currency_def) blast
next
  case False
  then show ?thesis
    unfolding validate_def not_canonical_iff valid_request_def
    by (simp add: approved_currency_def)
qed

lemma approve_Inr_iff:
  "approve i c = Inr i' \<longleftrightarrow>
     it_state i = StateDraft \<and> trim_space c \<noteq> [] \<and> c \<noteq> rq_maker i \<and>
     i' = i\<lparr>it_state := StateApproved, it_checker := Some c\<rparr>"
  by (auto simp: approve_def)

lemma void_draft_Inr_iff:
  "void_draft i v a = Inr i' \<longleftrightarrow>
     it_state i = StateDraft \<and> it_version i = v \<and> a \<noteq> [] \<and> a = rq_maker i \<and>
     i' = i\<lparr>it_state := StateVoided\<rparr>"
  by (auto simp: void_draft_def)

lemma resolve_ambiguous_Inr_iff:
  "resolve_ambiguous i v off r = Inr i' \<longleftrightarrow>
     it_state i = StateAmbiguous \<and> it_version i = v \<and> canonical_id off \<and>
     (r = ResolutionReconcile \<and> i' = i\<lparr>it_state := StateReconciliationRequired\<rparr> \<or>
      r = ResolutionVoid \<and> i' = i\<lparr>it_state := StateVoided\<rparr>)"
  by (auto simp: resolve_ambiguous_def split: resolution.splits)

lemma transition_from_draft:
  "valid_operational_transition StateDraft s \<longleftrightarrow> s = StateVoided"
  by simp

lemma transition_never_draft: "valid_operational_transition s s' \<Longrightarrow> s' \<noteq> StateDraft"
  by (cases s) auto

lemma transition_never_approved: "valid_operational_transition s s' \<Longrightarrow> s' \<noteq> StateApproved"
  by (cases s) auto

lemma posted_voided_terminal:
  "\<not> valid_operational_transition StatePosted s" "\<not> valid_operational_transition StateVoided s"
  by simp_all

end
