(* ===== verification/Database.thy ===== *)
theory Database
  imports Prelude
begin

text \<open>
  PostgreSQL as the stores use it. A table is the list of its rows in insertion order; a
  statement is a function on the database value; \<open>run_tx\<close> is \<open>pool.Begin\<close>, the statements, and
  \<open>tx.Commit\<close> with the deferred rollback. The environment \<open>env\<close> of one store call says what the
  clock shows, which identifiers \<open>uuid.New\<close> yields, which statements fail (named by the error
  text the source wraps them in), and what other transactions commit between the call's own
  read and its transaction. A commit can also fail after it took effect (\<open>Applied_Fault\<close>: the
  acknowledgement is lost), which the source reports as an error like any other.
\<close>

section \<open>The environment of a store call\<close>

datatype fault = No_Fault | Fault | Applied_Fault

record 'db env =
  env_now :: int
  env_uuid :: "nat \<Rightarrow> string"
  env_fault :: "string \<Rightarrow> fault"
  env_other :: "'db \<Rightarrow> 'db"

definition quiet_env :: "int \<Rightarrow> (nat \<Rightarrow> string) \<Rightarrow> 'db env" where
  "quiet_env t u = \<lparr>env_now = t, env_uuid = u, env_fault = (\<lambda>_. No_Fault), env_other = (\<lambda>d. d)\<rparr>"

lemma quiet_env_simps [simp]:
  "env_now (quiet_env t u) = t" "env_uuid (quiet_env t u) = u"
  "env_fault (quiet_env t u) l = No_Fault" "env_other (quiet_env t u) d = d"
  by (simp_all add: quiet_env_def)

text \<open>A statement that fails at the wire, and one that runs.\<close>

definition stmt :: "'db env \<Rightarrow> string \<Rightarrow> (string \<Rightarrow> 'e) \<Rightarrow> ('e + 'a) \<Rightarrow> 'e + 'a" where
  "stmt e label mk r = (if env_fault e label \<noteq> No_Fault then Inl (mk label) else r)"

lemma stmt_Inr_iff [db_simps]: "stmt e l mk r = Inr a \<longleftrightarrow> env_fault e l = No_Fault \<and> r = Inr a"
  by (simp add: stmt_def)

lemma stmt_Inl_iff [db_simps]:
  "stmt e l mk r = Inl x \<longleftrightarrow>
     env_fault e l \<noteq> No_Fault \<and> x = mk l \<or> env_fault e l = No_Fault \<and> r = Inl x"
  by (auto simp: stmt_def)

lemma stmt_no_fault [simp]: "env_fault e l = No_Fault \<Longrightarrow> stmt e l mk r = r"
  by (simp add: stmt_def)

text \<open>Sequencing of statements inside one transaction.\<close>

definition and_then :: "'e + 'a \<Rightarrow> ('a \<Rightarrow> 'e + 'b) \<Rightarrow> 'e + 'b" where
  "and_then r k = (case r of Inl e \<Rightarrow> Inl e | Inr a \<Rightarrow> k a)"

lemma and_then_simps [simp]: "and_then (Inl e) k = Inl e" "and_then (Inr a) k = k a"
  by (simp_all add: and_then_def)

lemma and_then_Inr_iff [db_simps]:
  "and_then r k = Inr b \<longleftrightarrow> (\<exists>a. r = Inr a \<and> k a = Inr b)"
  by (cases r) auto

lemma and_then_Inl_iff:
  "and_then r k = Inl e \<longleftrightarrow> r = Inl e \<or> (\<exists>a. r = Inr a \<and> k a = Inl e)"
  by (cases r) auto

section \<open>Transactions\<close>

definition run_tx ::
  "'db env \<Rightarrow> string \<Rightarrow> string \<Rightarrow> (string \<Rightarrow> 'e) \<Rightarrow> ('db \<Rightarrow> 'e + 'a \<times> 'db) \<Rightarrow> 'db
     \<Rightarrow> ('e + 'a) \<times> 'db" where
  "run_tx e begin_label commit_label mk body d0 =
     (let d = env_other e d0 in
      if env_fault e begin_label \<noteq> No_Fault then (Inl (mk begin_label), d)
      else case body d of
             Inl err \<Rightarrow> (Inl err, d)
           | Inr (a, d') \<Rightarrow>
               (case env_fault e commit_label of
                  No_Fault \<Rightarrow> (Inr a, d')
                | Fault \<Rightarrow> (Inl (mk commit_label), d)
                | Applied_Fault \<Rightarrow> (Inl (mk commit_label), d')))"

lemma run_tx_Inr_iff [db_simps]:
  "run_tx e b c mk body d0 = (Inr a, d') \<longleftrightarrow>
     env_fault e b = No_Fault \<and> env_fault e c = No_Fault \<and> body (env_other e d0) = Inr (a, d')"
  by (auto simp: run_tx_def Let_def split: sum.splits fault.splits)

text \<open>
  Whatever happens, the database afterwards is the one the transaction started on or the one
  its body computed: the deferred rollback leaves no partial effect.
\<close>

lemma run_tx_result:
  "snd (run_tx e b c mk body d0) = env_other e d0 \<or>
   (\<exists>a. body (env_other e d0) = Inr (a, snd (run_tx e b c mk body d0)))"
  by (auto simp: run_tx_def Let_def split: sum.splits fault.splits)

lemma run_tx_inv:
  assumes "P (env_other e d0)"
    and "\<And>a d'. body (env_other e d0) = Inr (a, d') \<Longrightarrow> P d'"
  shows "P (snd (run_tx e b c mk body d0))"
  using run_tx_result [of e b c mk body d0] assms by metis

lemma run_tx_Inl_rollback:
  assumes "run_tx e b c mk body d0 = (Inl x, d')" and "env_fault e c \<noteq> Applied_Fault"
  shows "d' = env_other e d0"
  using assms by (auto simp: run_tx_def Let_def split: sum.splits fault.splits if_splits)

lemma run_tx_quiet [simp]:
  "env_fault e b = No_Fault \<Longrightarrow> env_fault e c = No_Fault \<Longrightarrow>
   run_tx e b c mk body d0 =
     (case body (env_other e d0) of
        Inl err \<Rightarrow> (Inl err, env_other e d0) | Inr (a, d') \<Rightarrow> (Inr a, d'))"
  by (simp add: run_tx_def Let_def split: sum.splits)

section \<open>Other transactions\<close>

text \<open>The other transactions keep the invariant as well.\<close>

definition env_keeps :: "('db \<Rightarrow> bool) \<Rightarrow> 'db env \<Rightarrow> bool" where
  "env_keeps P e \<longleftrightarrow> (\<forall>d. P d \<longrightarrow> P (env_other e d))"

lemma env_keepsD: "env_keeps P e \<Longrightarrow> P d \<Longrightarrow> P (env_other e d)"
  by (simp add: env_keeps_def)

lemma env_keeps_quiet [simp]: "env_keeps P (quiet_env t u)"
  by (simp add: env_keeps_def)

text \<open>The call with no other transaction in between.\<close>

definition alone :: "'db env \<Rightarrow> 'db env" where
  "alone e = e\<lparr>env_other := (\<lambda>d. d)\<rparr>"

lemma alone_simps [simp]:
  "env_other (alone e) d = d" "env_fault (alone e) = env_fault e" "env_now (alone e) = env_now e"
  "env_uuid (alone e) = env_uuid e" "env_keeps P (alone e)"
  by (simp_all add: alone_def env_keeps_def)

section \<open>Sequences of store calls\<close>

text \<open>
  A process that makes several store calls meets a new environment at each. The schedule
  fixes them in advance, so a property that holds for every \<open>world\<close> holds for every behaviour
  of the database and of the other processes.
\<close>

record 'db world =
  w_db :: 'db
  w_tick :: nat
  w_sched :: "nat \<Rightarrow> 'db env"

definition in_world :: "('db env \<Rightarrow> 'db \<Rightarrow> ('e + 'a) \<times> 'db) \<Rightarrow> 'db world \<Rightarrow> ('e + 'a) \<times> 'db world"
  where
  "in_world call w =
     (let (r, d) = call (w_sched w (w_tick w)) (w_db w)
      in (r, w\<lparr>w_db := d, w_tick := Suc (w_tick w)\<rparr>))"

lemma in_world_iff:
  "in_world call w = (r, w') \<longleftrightarrow>
     (\<exists>d. call (w_sched w (w_tick w)) (w_db w) = (r, d) \<and>
          w' = w\<lparr>w_db := d, w_tick := Suc (w_tick w)\<rparr>)"
  by (auto simp: in_world_def split: prod.splits)

lemma snd_in_world_db [simp]:
  "w_db (snd (in_world call w)) = snd (call (w_sched w (w_tick w)) (w_db w))"
  "w_sched (snd (in_world call w)) = w_sched w"
  by (simp_all add: in_world_def split: prod.splits)

section \<open>Tables\<close>

text \<open>
  \<open>UPDATE ... SET f WHERE p\<close>, and \<open>QueryRow\<close>, which scans the first row of the result or
  reports \<open>pgx.ErrNoRows\<close>.
\<close>

definition sql_update :: "('r \<Rightarrow> bool) \<Rightarrow> ('r \<Rightarrow> 'r) \<Rightarrow> 'r list \<Rightarrow> 'r list" where
  "sql_update p f rows = map (\<lambda>r. if p r then f r else r) rows"

definition sql_row :: "('r \<Rightarrow> bool) \<Rightarrow> 'r list \<Rightarrow> 'r option" where
  "sql_row p rows = find p rows"

lemma sql_row_Some: "sql_row p rows = Some r \<Longrightarrow> r \<in> set rows \<and> p r"
  by (auto simp: sql_row_def find_Some_iff)

lemma sql_row_None [db_simps]: "sql_row p rows = None \<longleftrightarrow> (\<forall>r \<in> set rows. \<not> p r)"
  by (auto simp: sql_row_def find_None_iff)

lemma sql_row_append [simp]:
  "sql_row p (xs @ ys) = (case sql_row p xs of Some r \<Rightarrow> Some r | None \<Rightarrow> sql_row p ys)"
  by (induction xs) (auto simp: sql_row_def)

lemma sql_row_Cons [simp]:
  "sql_row p [] = None" "sql_row p (x # xs) = (if p x then Some x else sql_row p xs)"
  by (simp_all add: sql_row_def)

lemma set_sql_update: "set (sql_update p f rows) = f ` {r \<in> set rows. p r} \<union> {r \<in> set rows. \<not> p r}"
  by (auto simp: sql_update_def)

lemma length_sql_update [simp]: "length (sql_update p f rows) = length rows"
  by (simp add: sql_update_def)

lemma map_sql_update [simp]:
  "(\<And>r. r \<in> set rows \<Longrightarrow> p r \<Longrightarrow> g (f r) = g r) \<Longrightarrow> map g (sql_update p f rows) = map g rows"
  by (simp add: sql_update_def)

lemma sql_update_none: "sql_row p rows = None \<Longrightarrow> sql_update p f rows = rows"
  by (induction rows) (auto simp: sql_update_def split: if_splits)

lemma sql_update_inv:
  assumes "\<And>r. r \<in> set rows \<Longrightarrow> P r" and "\<And>r. r \<in> set rows \<Longrightarrow> p r \<Longrightarrow> P (f r)"
    and "r \<in> set (sql_update p f rows)"
  shows "P r"
  using assms by (auto simp: set_sql_update)

lemma distinct_key_unique:
  "distinct (map k rows) \<Longrightarrow> r \<in> set rows \<Longrightarrow> s \<in> set rows \<Longrightarrow> k r = k s \<Longrightarrow> r = s"
  by (auto simp: distinct_map dest: inj_onD)

lemma sql_row_key:
  "distinct (map k rows) \<Longrightarrow> r \<in> set rows \<Longrightarrow> sql_row (\<lambda>s. k s = k r) rows = Some r"
  by (induction rows) (auto simp: sql_row_def)

lemma filter_key_unique:
  "distinct (map k rows) \<Longrightarrow> r \<in> set rows \<Longrightarrow> filter (\<lambda>s. k s = k r) rows = [r]"
  by (induction rows) (auto simp: filter_empty_conv, metis imageI)

lemma distinct_Cons_key: "distinct (map k (x # rows)) \<Longrightarrow> y \<in> set rows \<Longrightarrow> k y \<noteq> k x"
  by (metis distinct.simps(2) imageI list.set_map list.simps(9))

text \<open>An UPDATE whose WHERE clause fixes a unique key changes at most that row.\<close>

lemma sql_update_one:
  assumes "distinct (map k rows)" and "r \<in> set rows" and "\<And>x. p x \<Longrightarrow> k x = k r"
    and "y \<in> set (sql_update p f rows)"
  shows "y = f r \<or> y \<in> set rows"
proof -
  have "x = r" if "x \<in> set rows" "p x" for x
    using that distinct_key_unique [OF assms(1), of x r] assms(2,3) by blast
  then show ?thesis using assms(4) by (auto simp: set_sql_update)
qed

end
