(* ===== verification/Versioned.thy ===== *)
theory Versioned
  imports Database
begin

text \<open>
  Optimistic concurrency control as both lifecycle stores use it: every row carries a version,
  and every update is \<open>UPDATE ... SET ..., version = version + 1 WHERE id = $k AND state = $s AND
  version = $v RETURNING ...\<close>. The locale states what the patches of a table promise; its lemmas
  say what a version token is worth.
\<close>

definition cas ::
  "('r \<Rightarrow> string) \<Rightarrow> ('r \<Rightarrow> 's) \<Rightarrow> ('r \<Rightarrow> int) \<Rightarrow> ('p \<Rightarrow> 'r \<Rightarrow> 'r)
     \<Rightarrow> 'p \<Rightarrow> string \<Rightarrow> 's \<Rightarrow> int \<Rightarrow> 'r list \<Rightarrow> ('r \<times> 'r list) option" where
  "cas key st ver patch p k s v rows =
     (let hit = (\<lambda>r. key r = k \<and> st r = s \<and> ver r = v) in
      case sql_row hit rows of
        None \<Rightarrow> None
      | Some r \<Rightarrow> Some (patch p r, sql_update hit (patch p) rows))"

locale versioned_rows =
  fixes key :: "'r \<Rightarrow> string"
    and st :: "'r \<Rightarrow> 's"
    and ver :: "'r \<Rightarrow> int"
    and patch :: "'p \<Rightarrow> 'r \<Rightarrow> 'r"
  assumes key_patch [simp]: "key (patch p r) = key r"
    and ver_patch [simp]: "ver (patch p r) = ver r + 1"
begin

lemma cas_SomeE:
  assumes "cas key st ver patch p k s v rows = Some (r', rows')"
  obtains r where "r \<in> set rows" "key r = k" "st r = s" "ver r = v" "r' = patch p r"
    "rows' = sql_update (\<lambda>r. key r = k \<and> st r = s \<and> ver r = v) (patch p) rows"
  using assms that
  by (auto simp: cas_def Let_def split: option.splits dest!: sql_row_Some)

lemma cas_keys:
  "cas key st ver patch p k s v rows = Some (r', rows') \<Longrightarrow> map key rows' = map key rows"
  by (erule cas_SomeE) simp

lemma cas_row_in:
  "cas key st ver patch p k s v rows = Some (r', rows') \<Longrightarrow> r' \<in> set rows'"
  by (erule cas_SomeE) (auto simp: set_sql_update)

lemma cas_lookup:
  assumes "cas key st ver patch p k s v rows = Some (r', rows')" and "distinct (map key rows)"
  shows "sql_row (\<lambda>r. key r = k) rows' = Some r'"
proof -
  have "distinct (map key rows')" and "r' \<in> set rows'" and "key r' = k"
    using assms cas_keys [OF assms(1)] cas_row_in [OF assms(1)] by (auto elim: cas_SomeE)
  then show ?thesis using sql_row_key [of key rows' r'] by simp
qed

text \<open>A version token is spent by the first update that uses it, whatever the states asked for.\<close>

lemma cas_stale:
  assumes first: "cas key st ver patch p k s v rows = Some (r', rows')"
    and d: "distinct (map key rows)"
  shows "cas key st ver patch p2 k s2 v rows' = None"
proof -
  have r': "r' \<in> set rows'" "key r' = k" "ver r' = v + 1"
    using first cas_row_in [OF first] by (auto elim: cas_SomeE)
  have "distinct (map key rows')" using d cas_keys [OF first] by simp
  then have "\<not> (key x = k \<and> st x = s2 \<and> ver x = v)" if "x \<in> set rows'" for x
    using distinct_key_unique [of key rows' x r'] that r' by auto
  then have "sql_row (\<lambda>r. key r = k \<and> st r = s2 \<and> ver r = v) rows' = None"
    by (simp add: sql_row_None)
  then show ?thesis by (simp add: cas_def Let_def)
qed

text \<open>Rows of other keys are untouched, and no version ever goes down.\<close>

lemma cas_other_rows:
  assumes "cas key st ver patch p k s v rows = Some (r', rows')" and "x \<in> set rows'"
  shows "x \<in> set rows \<and> key x \<noteq> k \<or> key x = k"
  using assms by (auto elim!: cas_SomeE simp: set_sql_update)

lemma cas_invariant:
  assumes upd: "cas key st ver patch p k s v rows = Some (r', rows')"
    and all: "\<And>r. r \<in> set rows \<Longrightarrow> P r"
    and hit: "\<And>r. r \<in> set rows \<Longrightarrow> key r = k \<Longrightarrow> st r = s \<Longrightarrow> ver r = v \<Longrightarrow> P r \<Longrightarrow> P (patch p r)"
    and x: "x \<in> set rows'"
  shows "P x"
proof -
  obtain r where "rows' = sql_update (\<lambda>r. key r = k \<and> st r = s \<and> ver r = v) (patch p) rows"
    using upd by (rule cas_SomeE)
  then show ?thesis using x all hit by (auto simp: set_sql_update)
qed

end

end
