(* ===== verification/Intent_Inv.thy ===== *)
theory Intent_Inv
  imports Intent_Store
begin

text \<open>
  The invariant of the intent tables and its preservation by every store method, under every
  failure of a statement or commit and every interleaved transaction that keeps it. The history
  of an intent is read off the outbox: the event of each commit carries the row it wrote.
\<close>

interpretation intent_rows: versioned_rows rq_id it_state it_version patch_intent
  by unfold_locales (auto simp: patch_intent_def split: prod.splits)

definition intent_history :: "string \<Rightarrow> intent_db \<Rightarrow> intent list" where
  "intent_history k d =
     map (payload_intent \<circ> ev_payload) (filter (\<lambda>ev. ev_intent ev = k) (intent_outbox d))"

definition lifecycle_step :: "intent_state \<Rightarrow> intent_state \<Rightarrow> bool" where
  "lifecycle_step s s' \<longleftrightarrow>
     s = StateDraft \<and> s' = StateApproved \<or> valid_operational_transition s s'"

text \<open>Maker and checker: only a draft, or a draft its maker voided, has no checker.\<close>

definition segregated :: "intent \<Rightarrow> bool" where
  "segregated r \<longleftrightarrow>
     (case it_checker r of
        None \<Rightarrow> it_state r = StateDraft \<or> it_state r = StateVoided
      | Some c \<Rightarrow> c \<noteq> rq_maker r \<and> it_state r \<noteq> StateDraft)"

definition same_identity :: "intent \<Rightarrow> intent \<Rightarrow> bool" where
  "same_identity a b \<longleftrightarrow>
     create_request.truncate a = create_request.truncate b \<and> it_created a = it_created b"

definition row_ok :: "intent_db \<Rightarrow> intent \<Rightarrow> bool" where
  "row_ok d r \<longleftrightarrow>
     valid_request r \<and> intent_fits (create_request.truncate r) \<and> segregated r \<and>
     (let h = intent_history (rq_id r) d in
        h \<noteq> [] \<and> last h = r \<and> it_version r = int (length h) \<and> it_state (hd h) = StateDraft \<and>
        successively lifecycle_step (map it_state h) \<and> (\<forall>x \<in> set h. same_identity x r))"

definition intent_db_ok :: "intent_db \<Rightarrow> bool" where
  "intent_db_ok d \<longleftrightarrow>
     distinct (map rq_id (intents d)) \<and> distinct (map rq_ref (intents d)) \<and>
     distinct (map ev_id (intent_outbox d)) \<and>
     (\<forall>ev \<in> set (intent_outbox d). ev_intent ev \<in> set (map rq_id (intents d))) \<and>
     (\<forall>r \<in> set (intents d). row_ok d r)"

section \<open>Effects of the statements\<close>

lemma patch_intent_fields [simp]:
  "rq_id (patch_intent p r) = rq_id r" "rq_ref (patch_intent p r) = rq_ref r"
  "rq_maker (patch_intent p r) = rq_maker r"
  "create_request.truncate (patch_intent p r) = create_request.truncate r"
  "it_created (patch_intent p r) = it_created r"
  "it_state (patch_intent (c, s, t) r) = s" "it_version (patch_intent p r) = it_version r + 1"
  "it_checker (patch_intent (c, s, t) r) = (case c of None \<Rightarrow> it_checker r | Some x \<Rightarrow> Some x)"
  "valid_request (patch_intent p r) = valid_request r"
  by (auto simp: patch_intent_def valid_request_def create_request.defs split: prod.splits)

lemma append_event_payload_Inr:
  "append_event_payload e k t v d = Inr d' \<Longrightarrow>
     env_uuid e 0 \<notin> set (map ev_id (intent_outbox d)) \<and> k \<in> set (map rq_id (intents d)) \<and>
     d' = d\<lparr>intent_outbox := intent_outbox d @
        [\<lparr>ev_id = env_uuid e 0, ev_intent = k, ev_type = t, ev_payload = v,
          ev_created = env_now e\<rparr>]\<rparr>"
  by (auto simp: append_event_payload_def stmt_Inr_iff split: if_splits)

text \<open>The net effect of a committed guarded update: one row is patched, one event is added.\<close>

definition committed_update ::
  "intent_db \<Rightarrow> intent_db \<Rightarrow> intent \<Rightarrow> intent_patch \<Rightarrow> intent_event \<Rightarrow> bool" where
  "committed_update d d' r p ev \<longleftrightarrow>
     r \<in> set (intents d) \<and>
     intents d' = sql_update (\<lambda>x. rq_id x = rq_id r \<and> it_state x = it_state r
        \<and> it_version x = it_version r) (patch_intent p) (intents d) \<and>
     intent_checks (patch_intent p r) \<and>
     ev_id ev \<notin> set (map ev_id (intent_outbox d)) \<and> ev_intent ev = rq_id r \<and>
     intent_outbox d' = intent_outbox d @ [ev]"

lemma update_body_effect:
  assumes "and_then (update_intent e label p extra k s v d) (\<lambda>(updated, d1).
       and_then (append_event_payload e (rq_id updated) event_type (payload updated) d1) (\<lambda>d2.
       Inr (updated, d2))) = Inr (a, d')"
  obtains r ev where "committed_update d d' r p ev" "rq_id r = k" "it_state r = s"
    "it_version r = v" "a = patch_intent p r" "extra a" "ev_payload ev = payload a"
    "ev_type ev = event_type"
proof -
  obtain d1 where upd: "update_intent e label p extra k s v d = Inr (a, d1)"
    and app: "append_event_payload e (rq_id a) event_type (payload a) d1 = Inr d'"
    using assms by (auto simp: and_then_Inr_iff)
  obtain rows where c: "cas rq_id it_state it_version patch_intent p k s v (intents d) = Some (a, rows)"
    and x: "extra a" "intent_checks a" and d1: "d1 = d\<lparr>intents := rows\<rparr>"
    using upd by (auto simp: update_intent_def stmt_Inr_iff split: option.splits if_splits)
  from c obtain r where r: "r \<in> set (intents d)" "rq_id r = k" "it_state r = s"
    "it_version r = v" "a = patch_intent p r"
    "rows = sql_update (\<lambda>r. rq_id r = k \<and> it_state r = s \<and> it_version r = v) (patch_intent p)
       (intents d)"
    by (rule intent_rows.cas_SomeE)
  note d' = append_event_payload_Inr [OF app]
  show ?thesis
    by (rule that [of r "last (intent_outbox d')"])
      (use r x d' in \<open>auto simp: committed_update_def d1\<close>)
qed

lemma update_tx_effect:
  assumes "update_tx e b l c p extra k s v t payload d0 = (Inr a, d')"
  obtains r ev where "committed_update (env_other e d0) d' r p ev" "rq_id r = k"
    "it_state r = s" "it_version r = v" "a = patch_intent p r" "extra a"
    "ev_payload ev = payload a" "ev_type ev = t"
  using assms unfolding update_tx_def run_tx_Inr_iff by (blast elim: update_body_effect)

section \<open>Preservation\<close>

lemma history_append:
  assumes "committed_update d d' r p ev"
  shows "intent_history k d' =
    intent_history k d @ (if k = rq_id r then [payload_intent (ev_payload ev)] else [])"
  using assms by (auto simp: intent_history_def committed_update_def)

lemma committed_update_ok [inv_intros]:
  assumes ok: "intent_db_ok d" and upd: "committed_update d d' r p ev"
    and pay: "payload_intent (ev_payload ev) = patch_intent p r"
    and step: "lifecycle_step (it_state r) (it_state (patch_intent p r))"
    and seg: "segregated r \<Longrightarrow> segregated (patch_intent p r)"
  shows "intent_db_ok d'"
proof -
  have keys: "map rq_id (intents d') = map rq_id (intents d)"
    and refs: "map rq_ref (intents d') = map rq_ref (intents d)"
    using upd by (auto simp: committed_update_def)
  have uniq: "x = r" if "x \<in> set (intents d)" "rq_id x = rq_id r" for x
    using ok upd that distinct_key_unique [of rq_id "intents d" x r]
    by (auto simp: intent_db_ok_def committed_update_def)
  have r: "row_ok d r" "r \<in> set (intents d)"
    using ok upd by (auto simp: intent_db_ok_def committed_update_def)
  have "row_ok d' (patch_intent p r)"
    using r seg step unfolding row_ok_def Let_def
    by (auto simp: history_append [OF upd] pay same_identity_def successively_append_iff last_map)
  moreover have "row_ok d' x" if "x \<in> set (intents d)" "rq_id x \<noteq> rq_id r" for x
    using ok that by (auto simp: intent_db_ok_def row_ok_def history_append [OF upd])
  ultimately have "row_ok d' x" if "x \<in> set (intents d')" for x
    using that upd uniq by (auto simp: committed_update_def set_sql_update)
  then show ?thesis
    using ok upd r keys refs by (auto simp: intent_db_ok_def committed_update_def)
qed

lemma update_tx_ok:
  assumes ok: "intent_db_ok d0" and env: "env_keeps intent_db_ok e"
    and pay: "\<And>i. payload_intent (payload i) = i"
    and step: "lifecycle_step s s'"
    and seg: "\<And>r. segregated r \<Longrightarrow> it_state r = s \<Longrightarrow> intent_checks (patch_intent (chk, s', t) r)
                \<Longrightarrow> segregated (patch_intent (chk, s', t) r)"
  shows "intent_db_ok (snd (update_tx e b l c (chk, s', t) extra k s v ty payload d0))"
  unfolding update_tx_def
proof (rule run_tx_inv)
  show "intent_db_ok (env_other e d0)" using env ok by (rule env_keepsD)
  fix a d'
  assume body: "and_then (update_intent e l (chk, s', t) extra k s v (env_other e d0)) (\<lambda>(updated, d1).
       and_then (append_event_payload e (rq_id updated) ty (payload updated) d1) (\<lambda>d2.
       Inr (updated, d2))) = Inr (a, d')"
  then obtain r ev where c: "committed_update (env_other e d0) d' r (chk, s', t) ev"
    and r: "it_state r = s" "a = patch_intent (chk, s', t) r" "ev_payload ev = payload a"
    by (rule update_body_effect)
  show "intent_db_ok d'"
  proof (rule committed_update_ok [OF env_keepsD [OF env ok] c])
    show "payload_intent (ev_payload ev) = patch_intent (chk, s', t) r" using r pay by simp
    show "lifecycle_step (it_state r) (it_state (patch_intent (chk, s', t) r))"
      using r step by simp
    show "segregated (patch_intent (chk, s', t) r)" if "segregated r"
      using seg [OF that r(1)] c by (simp add: committed_update_def)
  qed
qed

lemma segregated_approved:
  "segregated r \<Longrightarrow> intent_checks (patch_intent (Some c, StateApproved, t) r) \<Longrightarrow>
   segregated (patch_intent (Some c, StateApproved, t) r)"
  by (auto simp: segregated_def intent_checks_def)

lemma segregated_moved:
  "segregated r \<Longrightarrow> valid_operational_transition (it_state r) s' \<Longrightarrow>
   segregated (patch_intent (None, s', t) r)"
  by (cases "it_state r") (auto simp: segregated_def split: option.splits)

lemma create_body_ok:
  assumes ok: "intent_db_ok d" and val: "valid_request request"
    and ins: "insert_intent e request d = Inr (Some i, d1)"
    and app: "append_event e i ''financial_intent.created'' d1 = Inr d2"
  shows "intent_db_ok d2"
proof -
  have i: "i = new_intent e request" and fits: "intent_fits request"
    and fresh: "rq_ref request \<notin> set (map rq_ref (intents d))"
      "rq_id request \<notin> set (map rq_id (intents d))"
    and d1: "d1 = d\<lparr>intents := intents d @ [i]\<rparr>"
    using ins by (auto simp: insert_intent_def stmt_Inr_iff split: if_splits)
  have keys: "rq_id i = rq_id request" "rq_ref i = rq_ref request" "it_state i = StateDraft"
    "it_version i = 1" "it_checker i = None" "create_request.truncate i = request"
    "valid_request i"
    using val by (simp_all add: i new_intent_def create_request.defs valid_request_def)
  note d2 = append_event_payload_Inr [OF app [unfolded append_event_def]]
  have none: "filter (\<lambda>ev. ev_intent ev = rq_id request) (intent_outbox d) = []"
  proof -
    have "ev_intent x \<noteq> rq_id request" if "x \<in> set (intent_outbox d)" for x
      using ok fresh(2) that unfolding intent_db_ok_def by metis
    then show ?thesis by (simp add: filter_empty_conv)
  qed
  have "row_ok d2 i"
    using d2 none fits keys
    by (simp add: row_ok_def intent_history_def d1 segregated_def same_identity_def)
  moreover have "row_ok d2 x" if "x \<in> set (intents d)" for x
    using ok that fresh d2 keys
    by (auto simp: intent_db_ok_def row_ok_def intent_history_def d1 Let_def)
  ultimately show ?thesis
    using ok d2 fresh keys by (auto simp: intent_db_ok_def d1)
qed

lemma insert_intent_None:
  "insert_intent e request d = Inr (None, d1) \<Longrightarrow>
     d1 = d \<and> rq_ref request \<in> set (map rq_ref (intents d))"
  by (auto simp: insert_intent_def stmt_Inr_iff split: if_splits)

text \<open>A creation either returns the retained row unchanged or adds one row and one event.\<close>

lemma create_body_cases:
  assumes "create_body e request d = Inr (a, d')"
  obtains (replay) "d' = d" "a \<in> set (intents d)" "matches a request"
  | (fresh) d1 where "insert_intent e request d = Inr (Some a, d1)"
      "append_event e a ''financial_intent.created'' d1 = Inr d'"
proof -
  obtain ins d1 where ins: "insert_intent e request d = Inr (ins, d1)"
    using assms by (auto simp: create_body_def and_then_Inr_iff)
  show ?thesis
  proof (cases ins)
    case None
    then have "d1 = d" using ins insert_intent_None by blast
    then obtain r where "sql_row (\<lambda>r. rq_ref r = rq_ref request) (intents d) = Some r"
      and "matches r request" "a = r" "d' = d"
      using assms ins None
      by (auto simp: create_body_def and_then_Inr_iff stmt_Inr_iff split: option.splits if_splits)
    then show ?thesis using replay by (auto dest: sql_row_Some)
  next
    case (Some r)
    then show ?thesis
      using assms ins fresh by (auto simp: create_body_def and_then_Inr_iff)
  qed
qed

lemma create_body_keeps:
  "intent_db_ok d \<Longrightarrow> valid_request request \<Longrightarrow> create_body e request d = Inr (a, d') \<Longrightarrow>
   intent_db_ok d'"
  by (erule create_body_cases) (auto intro: create_body_ok)

end
