(* ===== verification/Intent_Props.thy ===== *)
theory Intent_Props
  imports Intent_Inv
begin

text \<open>
  The store's methods as one call type, the invariant over every call, what interleaved
  transactions can change, and the properties of the intent component.
\<close>

datatype intent_call =
  Create create_request
| Approve string int string
| Transition string int intent_state
| Void_Draft string int string
| Resolve_Ambiguous string int string resolution

fun run_intent_call ::
  "intent_db env \<Rightarrow> intent_call \<Rightarrow> intent_db \<Rightarrow> (intent_error + intent) \<times> intent_db" where
  "run_intent_call e (Create request) d = store_create e request d"
| "run_intent_call e (Approve k v c) d = store_approve e k v c d"
| "run_intent_call e (Transition k v s) d = store_transition e k v s d"
| "run_intent_call e (Void_Draft k v a) d = store_void_draft e k v a d"
| "run_intent_call e (Resolve_Ambiguous k v f r) d = store_resolve_ambiguous e k v f r d"

text \<open>The version token a call presents; a creation presents none.\<close>

fun call_token :: "intent_call \<Rightarrow> (string \<times> int) option" where
  "call_token (Create _) = None"
| "call_token (Approve k v _) = Some (k, v)"
| "call_token (Transition k v _) = Some (k, v)"
| "call_token (Void_Draft k v _) = Some (k, v)"
| "call_token (Resolve_Ambiguous k v _ _) = Some (k, v)"

section \<open>The invariant over every call\<close>

lemma store_create_ok: "intent_db_ok d \<Longrightarrow> env_keeps intent_db_ok e \<Longrightarrow>
    intent_db_ok (snd (store_create e request d))"
proof (cases "validate request")
  case (Inr u)
  assume ok: "intent_db_ok d" and env: "env_keeps intent_db_ok e"
  have val: "valid_request request" using Inr by (simp add: validate_iff [symmetric])
  have d1: "intent_db_ok (env_other e d)" using env ok by (rule env_keepsD)
  show ?thesis
    unfolding store_create_def Inr sum.case
    by (rule run_tx_inv [where P = intent_db_ok, OF d1 create_body_keeps [OF d1 val]])
qed (auto simp: store_create_def)

lemma store_approve_ok: "intent_db_ok d \<Longrightarrow> env_keeps intent_db_ok e \<Longrightarrow>
    intent_db_ok (snd (store_approve e k v c d))"
  by (auto simp: store_approve_def approve_Inr_iff lifecycle_step_def
      intro!: update_tx_ok segregated_approved split: sum.splits)

lemma store_transition_ok: "intent_db_ok d \<Longrightarrow> env_keeps intent_db_ok e \<Longrightarrow>
    intent_db_ok (snd (store_transition e k v s d))"
  by (auto simp: store_transition_def lifecycle_step_def
      intro!: update_tx_ok intro: segregated_moved split: sum.splits)

lemma store_void_draft_ok: "intent_db_ok d \<Longrightarrow> env_keeps intent_db_ok e \<Longrightarrow>
    intent_db_ok (snd (store_void_draft e k v a d))"
  by (auto simp: store_void_draft_def lifecycle_step_def
      intro!: update_tx_ok intro: segregated_moved split: sum.splits)

lemma store_resolve_ambiguous_ok: "intent_db_ok d \<Longrightarrow> env_keeps intent_db_ok e \<Longrightarrow>
    intent_db_ok (snd (store_resolve_ambiguous e k v f r d))"
  by (auto simp: store_resolve_ambiguous_def lifecycle_step_def resolve_ambiguous_Inr_iff
      intro!: update_tx_ok intro: segregated_moved split: sum.splits)

lemma run_intent_call_ok [inv_intros]:
  "intent_db_ok d \<Longrightarrow> env_keeps intent_db_ok e \<Longrightarrow> intent_db_ok (snd (run_intent_call e c d))"
  by (cases c) (simp_all add: store_create_ok store_approve_ok store_transition_ok
      store_void_draft_ok store_resolve_ambiguous_ok)

lemma empty_intent_db_ok: "intent_db_ok empty_intent_db"
  by (simp add: intent_db_ok_def empty_intent_db_def)

text \<open>The databases the service can reach from the empty one.\<close>

inductive intent_reach :: "intent_db \<Rightarrow> bool" where
  start: "intent_reach empty_intent_db"
| call: "intent_reach d \<Longrightarrow> env_keeps intent_db_ok e \<Longrightarrow> intent_reach (snd (run_intent_call e c d))"

lemma intent_reach_ok: "intent_reach d \<Longrightarrow> intent_db_ok d"
  by (induction rule: intent_reach.induct) (auto intro: empty_intent_db_ok inv_intros)

section \<open>Evolution\<close>

text \<open>\<open>d'\<close> came out of \<open>d\<close> by further commits: every history grew at its end only.\<close>

definition evolves :: "intent_db \<Rightarrow> intent_db \<Rightarrow> bool" where
  "evolves d d' \<longleftrightarrow> intent_db_ok d' \<and>
     (\<forall>k. \<exists>more. intent_history k d' = intent_history k d @ more)"

lemma evolves_refl: "intent_db_ok d \<Longrightarrow> evolves d d"
  by (simp add: evolves_def)

lemma evolves_trans: "evolves a b \<Longrightarrow> evolves b c \<Longrightarrow> evolves a c"
  unfolding evolves_def by (metis append.assoc)

lemma store_get_Inr:
  "store_get e k d = Inr r \<Longrightarrow> env_fault e ''get financial intent'' = No_Fault \<and>
     sql_row (\<lambda>r. rq_id r = k) (intents d) = Some r \<and> r \<in> set (intents d) \<and> rq_id r = k"
  by (auto simp: store_get_def stmt_Inr_iff split: option.splits dest: sql_row_Some)

lemma store_get_row:
  "intent_db_ok d \<Longrightarrow> r \<in> set (intents d) \<Longrightarrow> env_fault e ''get financial intent'' = No_Fault \<Longrightarrow>
   store_get e (rq_id r) d = Inr r"
  using sql_row_key [of rq_id "intents d" r] by (simp add: store_get_def intent_db_ok_def)

lemma row_version: "intent_db_ok d \<Longrightarrow> r \<in> set (intents d) \<Longrightarrow>
    it_version r = int (length (intent_history (rq_id r) d)) \<and> last (intent_history (rq_id r) d) = r
      \<and> intent_history (rq_id r) d \<noteq> []"
  by (auto simp: intent_db_ok_def row_ok_def Let_def)

text \<open>A row whose version has not moved is the same row.\<close>

lemma evolves_same_row:
  assumes "intent_db_ok d" "evolves d d'" "r \<in> set (intents d)" "r' \<in> set (intents d')"
    "rq_id r' = rq_id r" "it_version r' = it_version r"
  shows "r' = r"
proof -
  have ok': "intent_db_ok d'" using assms(2) by (simp add: evolves_def)
  obtain more where more: "intent_history (rq_id r) d' = intent_history (rq_id r) d @ more"
    using assms(2) by (auto simp: evolves_def)
  then have "more = []"
    using row_version [OF assms(1,3)] row_version [OF ok' assms(4)] assms(5,6) by simp
  then show ?thesis
    using more row_version [OF assms(1,3)] row_version [OF ok' assms(4)] assms(5) by simp
qed

lemma evolves_version:
  assumes "intent_db_ok d" "evolves d d'" "r \<in> set (intents d)" "r' \<in> set (intents d')"
    "rq_id r' = rq_id r"
  shows "it_version r \<le> it_version r'"
proof -
  have ok': "intent_db_ok d'" using assms(2) by (simp add: evolves_def)
  obtain more where "intent_history (rq_id r) d' = intent_history (rq_id r) d @ more"
    using assms(2) by (auto simp: evolves_def)
  then show ?thesis
    using row_version [OF assms(1,3)] row_version [OF ok' assms(4)] assms(5) by simp
qed

lemma committed_update_evolves:
  "committed_update d d' r p ev \<Longrightarrow> intent_db_ok d' \<Longrightarrow> evolves d d'"
  by (auto simp: evolves_def history_append)

section \<open>Token calls\<close>

lemma update_statements_alone [simp]:
  "update_intent (alone e) l p x k s v d = update_intent e l p x k s v d"
  "append_event_payload (alone e) k t w d = append_event_payload e k t w d"
  by (simp_all add: update_intent_def append_event_payload_def stmt_def)

lemma update_tx_alone:
  "update_tx (alone e) b l c p x k s v t w (env_other e d) = update_tx e b l c p x k s v t w d"
  by (simp add: update_tx_def run_tx_def Let_def split: sum.splits)

text \<open>Every successful token call is a committed update of the row that carries the token.\<close>

lemma token_call_effect:
  assumes "run_intent_call e c d = (Inr a, d')" and "call_token c = Some (k, v)"
  obtains cur r p ev where "store_get e k d = Inr cur" "it_version cur = v"
    "committed_update (env_other e d) d' r p ev" "rq_id r = k" "it_state r = it_state cur"
    "it_version r = v" "a = patch_intent p r" "payload_intent (ev_payload ev) = a"
    "lifecycle_step (it_state r) (it_state a)"
  using assms that
  by (cases c)
    (auto simp: store_approve_def store_transition_def store_void_draft_def
      store_resolve_ambiguous_def approve_Inr_iff void_draft_Inr_iff resolve_ambiguous_Inr_iff
      lifecycle_step_def split: sum.splits if_splits elim!: update_tx_effect)

lemma update_row_unchanged:
  assumes "committed_update d d' r p ev" "distinct (map rq_id (intents d))" "x \<in> set (intents d)"
    "it_state x \<noteq> it_state r"
  shows "x \<in> set (intents d')"
  using assms by (auto simp: committed_update_def set_sql_update)

lemma create_evolves:
  assumes "intent_db_ok d" "valid_request request" "create_body e request d = Inr (a, d')"
  shows "evolves d d' \<and> set (intents d) \<subseteq> set (intents d')"
  using assms(3)
proof (cases rule: create_body_cases)
  case replay
  then show ?thesis using assms(1) by (simp add: evolves_refl)
next
  case (fresh d1)
  have "d1 = d\<lparr>intents := intents d @ [a]\<rparr>"
    using fresh(1) by (auto simp: insert_intent_def stmt_Inr_iff split: if_splits)
  then show ?thesis
    using append_event_payload_Inr [OF fresh(2) [unfolded append_event_def]]
      create_body_keeps [OF assms]
    by (auto simp: evolves_def intent_history_def)
qed

text \<open>Whatever a call in isolation did to the database, it did by one committed update along the
  lifecycle or by adding a row.\<close>

definition lifecycle_update :: "intent_db \<Rightarrow> intent_db \<Rightarrow> bool" where
  "lifecycle_update d d' \<longleftrightarrow> (\<exists>y p ev. committed_update d d' y p ev
     \<and> lifecycle_step (it_state y) (it_state (patch_intent p y)))"

lemma update_tx_changes:
  assumes "update_tx (alone e) b l c p x k s v t w d = (res, d')" and "d' \<noteq> d"
    and "lifecycle_step s (fst (snd p))"
  shows "lifecycle_update d d'"
proof -
  define body where "body = (\<lambda>d. and_then (update_intent e l p x k s v d) (\<lambda>(updated, d1).
       and_then (append_event_payload e (rq_id updated) t (w updated) d1) (\<lambda>d2.
       Inr (updated, d2))))"
  have "snd (run_tx (alone e) b c ErrDatabase body d) = d'"
    using assms(1) by (simp add: update_tx_def body_def)
  then obtain a where "body d = Inr (a, d')"
    using run_tx_result [of "alone e" b c ErrDatabase body d] assms(2) by auto
  then obtain y ev where y: "committed_update d d' y p ev" "it_state y = s"
    unfolding body_def by (rule update_body_effect)
  then have "lifecycle_step (it_state y) (it_state (patch_intent p y))"
    using assms(3) by (cases p) simp
  then show ?thesis using y(1) unfolding lifecycle_update_def by blast
qed

lemma call_changes:
  assumes "intent_db_ok d" and "run_intent_call (alone e) c d = (res, d')" and "d' \<noteq> d"
  shows "lifecycle_update d d' \<or> set (intents d) \<subseteq> set (intents d')"
proof (cases c)
  case (Create request)
  then have "valid_request request"
    and "snd (run_tx (alone e) ''begin create'' ''commit intent'' ErrDatabase
           (create_body (alone e) request) d) = d'"
    using assms(2,3) by (auto simp: store_create_def validate_iff split: sum.splits)
  moreover from this obtain a where "create_body (alone e) request d = Inr (a, d')"
    using run_tx_result [of "alone e" "''begin create''" "''commit intent''" ErrDatabase
        "create_body (alone e) request" d] assms(3) by auto
  ultimately show ?thesis
    using create_evolves [OF assms(1)] by blast
qed (use assms in \<open>auto simp: store_approve_def store_transition_def store_void_draft_def
      store_resolve_ambiguous_def approve_Inr_iff void_draft_Inr_iff resolve_ambiguous_Inr_iff
      lifecycle_step_def split: sum.splits if_splits dest!: update_tx_changes\<close>)

section \<open>Concrete databases\<close>

definition demo_request :: create_request where
  "demo_request = \<lparr>rq_id = ''fi-1'', rq_ref = ''ref-1'', rq_debit = ''aa'', rq_credit = ''bb'',
     rq_amount = 250, rq_ledger = 1, rq_code = 7, rq_currency = ''NGN'', rq_maker = ''maker''\<rparr>"

definition demo_env :: "nat \<Rightarrow> 'db env" where
  "demo_env n = quiet_env (int n) (\<lambda>i. replicate n CHR ''u'')"

definition demo_created :: intent_db where
  "demo_created = snd (run_intent_call (demo_env 1) (Create demo_request) empty_intent_db)"

definition demo_approved :: intent_db where
  "demo_approved = snd (run_intent_call (demo_env 2) (Approve ''fi-1'' 1 ''checker'') demo_created)"

lemma demo_env_keeps [simp]: "env_keeps P (demo_env n)"
  by (simp add: demo_env_def)

lemma demo_reach: "intent_reach demo_created" "intent_reach demo_approved"
  unfolding demo_approved_def demo_created_def
  by (intro intent_reach.intros demo_env_keeps)+

section \<open>Properties\<close>



text \<open>C10 The outbox determines the table. In every reachable database the events of an intent, in
  order, are the versions of its row: the last one is the row, there are as many as its version
  number, the first is a draft, consecutive ones are related by the lifecycle, and none of them
  changed an immutable field.\<close>

theorem outbox_is_the_history:
  assumes "intent_reach d" and "r \<in> set (intents d)"
  shows "last (intent_history (rq_id r) d) = r \<and>
     it_version r = int (length (intent_history (rq_id r) d)) \<and>
     it_state (hd (intent_history (rq_id r) d)) = StateDraft \<and>
     successively lifecycle_step (map it_state (intent_history (rq_id r) d)) \<and>
     list_all (\<lambda>x. same_identity x r) (intent_history (rq_id r) d)"
  using intent_reach_ok [OF assms(1)] assms(2)
  by (auto simp: intent_db_ok_def row_ok_def Let_def list_all_iff)

theorem outbox_is_the_history_witness:
  "it_version (hd (intents demo_approved)) = 2 \<and>
   length (intent_history ''fi-1'' demo_approved) = 2 \<and>
   last (intent_history ''fi-1'' demo_approved) = hd (intents demo_approved)"
proof -
  have "hd (intents demo_approved) \<in> set (intents demo_approved)"
    "rq_id (hd (intents demo_approved)) = ''fi-1''" "it_version (hd (intents demo_approved)) = 2"
    by code_simp+
  then show ?thesis
    using outbox_is_the_history [OF demo_reach(2), of "hd (intents demo_approved)"] by simp
qed

text \<open>C30 Linearizability of the optimistic updates. A method that reads a row, checks it in memory
  and then commits a guarded UPDATE, with other transactions in between, returns and stores exactly
  what the same method run in isolation at its commit point would have.\<close>

theorem successful_call_linearizes:
  assumes "intent_db_ok d" and "evolves d (env_other e d)"
    and "call_token c = Some (k, v)" and "run_intent_call e c d = (Inr a, d')"
  shows "run_intent_call (alone e) c (env_other e d) = (Inr a, d')"
proof -
  obtain cur r p ev where cur: "store_get e k d = Inr cur" "it_version cur = v"
    and r: "committed_update (env_other e d) d' r p ev" "rq_id r = k" "it_version r = v"
    using token_call_effect [OF assms(4,3)] by metis
  note got = store_get_Inr [OF cur(1)]
  have in1: "r \<in> set (intents (env_other e d))" using r(1) by (simp add: committed_update_def)
  then have "r = cur"
    using evolves_same_row [OF assms(1,2)] got r cur by metis
  then have "store_get (alone e) k (env_other e d) = Inr cur"
    using store_get_row [OF _ in1, of "alone e"] assms(2) got r(2) by (simp add: evolves_def)
  then show ?thesis
    using assms(3,4) cur
    by (cases c) (auto simp: store_approve_def store_transition_def store_void_draft_def
        store_resolve_ambiguous_def update_tx_alone split: if_splits sum.splits)
qed

theorem successful_call_linearizes_witness:
  "fst (run_intent_call (alone (demo_env 2)) (Approve ''fi-1'' 1 ''checker'') demo_created)
     = Inr (hd (intents demo_approved))"
proof -
  have ok: "intent_db_ok demo_created" by (rule intent_reach_ok [OF demo_reach(1)])
  have ev: "evolves demo_created (env_other (demo_env 2) demo_created)"
    using ok by (simp add: demo_env_def evolves_refl)
  have run: "run_intent_call (demo_env 2) (Approve ''fi-1'' 1 ''checker'') demo_created
      = (Inr (hd (intents demo_approved)), demo_approved)"
    by code_simp
  show ?thesis
    using successful_call_linearizes [OF ok ev _ run, of "''fi-1''" 1] by (simp add: demo_env_def)
qed

text \<open>No lost update. Once a call that presents a version of an intent has succeeded, no later
  call that presents the same version of the same intent succeeds, whatever happened to the
  database in between.\<close>

theorem version_token_single_use:
  assumes "env_keeps intent_db_ok e1" and "intent_db_ok d"
    and "call_token c1 = Some (k, v)" and "run_intent_call e1 c1 d = (Inr a, d1)"
    and "evolves d1 d2" and "call_token c2 = Some (k, v)"
  shows "\<not> (\<exists>b d3. run_intent_call e2 c2 d2 = (Inr b, d3))"
proof
  assume "\<exists>b d3. run_intent_call e2 c2 d2 = (Inr b, d3)"
  then obtain b d3 where second: "run_intent_call e2 c2 d2 = (Inr b, d3)" by blast
  obtain r p ev where r: "committed_update (env_other e1 d) d1 r p ev" "rq_id r = k"
    "it_version r = v" and a: "a = patch_intent p r"
    using token_call_effect [OF assms(4,3)] by metis
  have ok1: "intent_db_ok d1"
    using run_intent_call_ok [OF assms(2,1), of c1] assms(4) by simp
  have "a \<in> set (intents d1)" using r a by (auto simp: committed_update_def set_sql_update)
  moreover obtain cur where "cur \<in> set (intents d2)" "rq_id cur = k" "it_version cur = v"
    using token_call_effect [OF second assms(6)] store_get_Inr by metis
  ultimately have "it_version a \<le> v"
    using evolves_version [OF ok1 assms(5), of a cur] a r by simp
  then show False using a r by simp
qed

theorem version_token_single_use_witness:
  "\<not> (\<exists>b d3. run_intent_call (demo_env 5) (Void_Draft ''fi-1'' 1 ''maker'') demo_approved
           = (Inr b, d3))"
proof -
  have ok: "intent_db_ok demo_created" "intent_db_ok demo_approved"
    using demo_reach by (simp_all add: intent_reach_ok)
  have run: "run_intent_call (demo_env 2) (Approve ''fi-1'' 1 ''checker'') demo_created
      = (Inr (hd (intents demo_approved)), demo_approved)"
    by code_simp
  show ?thesis
    by (rule version_token_single_use [OF _ ok(1) _ run evolves_refl [OF ok(2)]])
      (simp_all add: demo_env_def ok)
qed

text \<open>Errors leave no trace. A call that reports an error, other than a commit whose
  acknowledgement was lost, changed nothing: the database is what the other transactions made it.\<close>

theorem failed_call_leaves_no_trace:
  assumes "run_intent_call e c d = (Inl err, d')" and "\<And>l. env_fault e l \<noteq> Applied_Fault"
  shows "d' = d \<or> d' = env_other e d"
  using assms
  by (cases c)
    (auto simp: store_create_def store_approve_def store_transition_def store_void_draft_def
      store_resolve_ambiguous_def update_tx_def split: sum.splits if_splits
      dest!: run_tx_Inl_rollback)

theorem failed_call_leaves_no_trace_witness:
  "snd (run_intent_call (demo_env 5) (Transition ''fi-1'' 2 StatePosted) demo_approved)
     = demo_approved"
proof -
  have run: "run_intent_call (demo_env 5) (Transition ''fi-1'' 2 StatePosted) demo_approved
     = (Inl ErrConflict, snd (run_intent_call (demo_env 5) (Transition ''fi-1'' 2 StatePosted)
          demo_approved))"
    by code_simp
  show ?thesis
    using failed_call_leaves_no_trace [OF run] by (auto simp: demo_env_def)
qed

text \<open>Idempotent creation. Whatever happened to a first attempt to create an intent (success, an
  error, a lost acknowledgement), if a retry of the same request on the database it left succeeds,
  then so does every further retry, with the same row and no change to the database; the intent
  exists once and carries the fields of the request.\<close>

theorem create_retry_is_idempotent:
  assumes "intent_db_ok d" and "env_keeps intent_db_ok e1"
    and "store_create e1 request d = (Inr i, d1)"
  shows "store_create (quiet_env t u) request d1 = (Inr i, d1) \<and> matches i request \<and>
         filter (\<lambda>r. rq_ref r = rq_ref request) (intents d1) = [i]"
proof -
  have val: "valid_request request" and body: "create_body e1 request (env_other e1 d) = Inr (i, d1)"
    using assms(3) by (auto simp: store_create_def run_tx_Inr_iff validate_iff split: sum.splits)
  have ok0: "intent_db_ok (env_other e1 d)" using assms(2,1) by (rule env_keepsD)
  have ok: "intent_db_ok d1" by (rule create_body_keeps [OF ok0 val body])
  have i: "i \<in> set (intents d1)" "matches i request"
    using body
    by (cases rule: create_body_cases; use append_event_payload_Inr in
      \<open>force simp: append_event_def insert_intent_def stmt_Inr_iff new_intent_def matches_def
        create_request.defs split: if_splits\<close>)+
  have ref: "rq_ref i = rq_ref request" using i(2) by (simp add: matches_def)
  have found: "sql_row (\<lambda>r. rq_ref r = rq_ref request) (intents d1) = Some i"
    using ok i(1) sql_row_key [of rq_ref "intents d1" i] ref by (simp add: intent_db_ok_def)
  have "intent_fits request \<and> intent_checks (new_intent (quiet_env t u) request)"
    using ok i val
    by (auto simp: intent_db_ok_def row_ok_def intent_fits_def matches_def create_request.defs
        intent_checks_def new_intent_def valid_request_def)
  moreover have "rq_ref request \<in> rq_ref ` set (intents d1)"
    using i(1) ref by (metis imageI)
  ultimately have "create_body (quiet_env t u) request d1 = Inr (i, d1)"
    using found i ref by (simp add: create_body_def insert_intent_def)
  moreover have "validate request = Inr ()" using val by (simp add: validate_iff)
  moreover have "filter (\<lambda>r. rq_ref r = rq_ref request) (intents d1) = [i]"
    using ok i(1) ref filter_key_unique [of rq_ref "intents d1" i] by (simp add: intent_db_ok_def)
  ultimately show ?thesis using i by (simp add: store_create_def)
qed

theorem create_retry_is_idempotent_witness:
  "store_create (demo_env 9) demo_request demo_created
     = (Inr (hd (intents demo_created)), demo_created)"
proof -
  have ok: "intent_db_ok empty_intent_db" by (rule empty_intent_db_ok)
  have run: "store_create (demo_env 1) demo_request empty_intent_db
      = (Inr (hd (intents demo_created)), demo_created)"
    by code_simp
  show ?thesis
    using create_retry_is_idempotent [OF ok _ run, of "int 9" "\<lambda>i. replicate 9 CHR ''u''"]
    by (simp add: demo_env_def)
qed

text \<open>Settlement is final. No call of the store, by any principal, changes the row of an intent
  that is POSTED or VOIDED.\<close>

theorem settled_rows_are_final:
  assumes "intent_db_ok d" and "r \<in> set (intents d)"
    and "it_state r = StatePosted \<or> it_state r = StateVoided"
  shows "r \<in> set (intents (snd (run_intent_call (alone e) c d)))"
proof (cases "run_intent_call (alone e) c d")
  case (Pair res d')
  have d: "distinct (map rq_id (intents d))" using assms(1) by (simp add: intent_db_ok_def)
  have "r \<in> set (intents d')" if "d' \<noteq> d"
  proof -
    have "it_state y \<noteq> it_state r" if "lifecycle_step (it_state y) a" for y a
      using that assms(3) by (auto simp: lifecycle_step_def)
    then show ?thesis
      using call_changes [OF assms(1) Pair that] update_row_unchanged [OF _ d assms(2)] assms(2)
      unfolding lifecycle_update_def by (metis subsetD)
  qed
  then show ?thesis using Pair assms(2) by (cases "d' = d") auto
qed

theorem settled_rows_are_final_witness:
  "intents (snd (run_intent_call (alone (demo_env 7)) (Approve ''fi-1'' 2 ''checker'')
     (snd (run_intent_call (demo_env 3) (Void_Draft ''fi-1'' 1 ''maker'') demo_created)))) \<noteq> []"
proof -
  let ?d = "snd (run_intent_call (demo_env 3) (Void_Draft ''fi-1'' 1 ''maker'') demo_created)"
  have ok: "intent_db_ok ?d"
    by (intro run_intent_call_ok intent_reach_ok [OF demo_reach(1)] demo_env_keeps)
  have r: "hd (intents ?d) \<in> set (intents ?d)" "it_state (hd (intents ?d)) = StateVoided"
    by code_simp+
  show ?thesis
    using settled_rows_are_final [OF ok r(1), of "demo_env 7" "Approve ''fi-1'' 2 ''checker''"] r(2)
    by auto
qed

end
