(* ===== verification/Fx.thy ===== *)
theory Fx
  imports Database
begin

text \<open>
  \<open>internal/fx\<close>: the CBN reference rate, its dual control, the fixed-point conversions between
  USD and NGN minor units (\<open>fx.go\<close>), and the rate store over \<open>fx_rates\<close> (\<open>store.go\<close>,
  migrations \<open>0003\<close> and \<open>0007\<close>).
\<close>

section \<open>Rates and conversions\<close>

definition micro_scale :: int where "micro_scale = 1000000"

definition max_ngn_per_usd_micro :: int where
  "max_ngn_per_usd_micro = 100000000 * micro_scale"

datatype fx_error =
  ErrRateInvalid | ErrDualControl | ErrRateNotFound | ErrRateConflict | ErrAmountOverflow
| ErrRateExpired | ErrFxText string | ErrFxDatabase string

record rate =
  rate_id :: string
  ngn_per_usd_micro :: u64
  effective_date :: gtime
  rate_maker :: string
  rate_checker :: "string option"
  rate_confirmed :: bool
  rate_created :: int

text \<open>The literal leaves \<open>Checker\<close>, \<open>Confirmed\<close> and \<open>CreatedAt\<close> at their zero values.\<close>

definition new_rate :: "string \<Rightarrow> u64 \<Rightarrow> gtime \<Rightarrow> string \<Rightarrow> fx_error + rate" where
  "new_rate rid micro date maker =
     (if micro = 0 \<or> uint micro > max_ngn_per_usd_micro then Inl ErrRateInvalid
      else if maker = [] then Inl (ErrFxText ''fx rate maker is required'')
      else if \<not> gt_utc date \<or> \<not> at_midnight date
      then Inl (ErrFxText ''fx rate effective date must be a UTC calendar date'')
      else if rid = [] then Inl (ErrFxText ''fx rate ID is required'')
      else Inr \<lparr>rate_id = rid, ngn_per_usd_micro = micro, effective_date = date,
                rate_maker = maker, rate_checker = None, rate_confirmed = False,
                rate_created = -62135596800 * 1000000000\<rparr>)"

definition confirm_rate :: "rate \<Rightarrow> string \<Rightarrow> fx_error + rate" where
  "confirm_rate r checker =
     (if rate_confirmed r then Inl ErrRateConflict
      else if checker = [] \<or> checker = rate_maker r then Inl ErrDualControl
      else Inr (r\<lparr>rate_checker := Some checker, rate_confirmed := True\<rparr>))"

definition usable :: "rate \<Rightarrow> fx_error + unit" where
  "usable r =
     (if \<not> rate_confirmed r then Inl (ErrFxText ''fx rate is not confirmed under dual control'')
      else if ngn_per_usd_micro r = 0 then Inl ErrRateInvalid
      else Inr ())"

definition convert_usd_to_ngn :: "rate \<Rightarrow> u64 \<Rightarrow> fx_error + u64" where
  "convert_usd_to_ngn r usd_minor =
     (case usable r of
        Inl err \<Rightarrow> Inl err
      | Inr _ \<Rightarrow>
          if usd_minor = 0 then Inl (ErrFxText ''usd amount must be non-zero'')
          else let numerator = uint usd_minor * uint (ngn_per_usd_micro r) + micro_scale div 2;
                   quotient = numerator div micro_scale
               in if \<not> is_uint64 quotient \<or> quotient = 0 then Inl ErrAmountOverflow
                  else Inr (to_u64 quotient))"

definition convert_ngn_to_usd :: "rate \<Rightarrow> u64 \<Rightarrow> fx_error + u64" where
  "convert_ngn_to_usd r ngn_minor =
     (case usable r of
        Inl err \<Rightarrow> Inl err
      | Inr _ \<Rightarrow>
          if ngn_minor = 0 then Inl (ErrFxText ''ngn amount must be non-zero'')
          else let numerator = uint ngn_minor * (2 * micro_scale) + uint (ngn_per_usd_micro r);
                   denominator = 2 * uint (ngn_per_usd_micro r);
                   quotient = numerator div denominator
               in if \<not> is_uint64 quotient \<or> quotient = 0 then Inl ErrAmountOverflow
                  else Inr (to_u64 quotient))"

lemma usable_iff: "usable r = Inr () \<longleftrightarrow> rate_confirmed r \<and> ngn_per_usd_micro r \<noteq> 0"
  by (auto simp: usable_def)

text \<open>Half-up rounding: the quotient is the integer nearest to the exact ratio, ties upwards.\<close>

definition half_up :: "int \<Rightarrow> int \<Rightarrow> int \<Rightarrow> bool" where
  "half_up n d q \<longleftrightarrow> 2 * n - d < 2 * (q * d) \<and> 2 * (q * d) \<le> 2 * n + d"

lemma half_up_div: "0 < d \<Longrightarrow> half_up n d ((2 * n + d) div (2 * d))"
proof -
  assume d: "0 < d"
  define q where "q = (2 * n + d) div (2 * d)"
  define m where "m = (2 * n + d) mod (2 * d)"
  have "2 * n + d = 2 * d * q + m" by (simp add: q_def m_def)
  moreover have "0 \<le> m" "m < 2 * d" using d by (simp_all add: m_def)
  ultimately show ?thesis
    unfolding half_up_def q_def [symmetric] by (simp add: algebra_simps)
qed

lemma half_up_unique: "0 < d \<Longrightarrow> half_up n d q \<Longrightarrow> half_up n d q' \<Longrightarrow> q = q'"
proof -
  assume d: "0 < d" and "half_up n d q" "half_up n d q'"
  then have "q * d < (q' + 1) * d" "q' * d < (q + 1) * d"
    by (auto simp: half_up_def algebra_simps)
  then show ?thesis using d by (simp add: mult_less_cancel_right)
qed

lemma usd_to_ngn_quotient: "(n + micro_scale div 2) div micro_scale = (2 * n + micro_scale) div (2 * micro_scale)"
proof -
  have "2 * n + micro_scale = 2 * (n + micro_scale div 2)" by (simp add: micro_scale_def)
  then show ?thesis by (simp only: div_mult_mult1 [of 2] zero_neq_numeral not_False_eq_True)
qed

lemma convert_usd_to_ngn_Inr:
  "convert_usd_to_ngn r usd = Inr ngn \<longleftrightarrow>
     rate_confirmed r \<and> ngn_per_usd_micro r \<noteq> 0 \<and> usd \<noteq> 0 \<and> ngn \<noteq> 0 \<and>
     half_up (uint usd * uint (ngn_per_usd_micro r)) micro_scale (uint ngn)"
proof -
  let ?n = "uint usd * uint (ngn_per_usd_micro r)"
  let ?q = "(?n + micro_scale div 2) div micro_scale"
  have q: "half_up ?n micro_scale ?q"
    unfolding usd_to_ngn_quotient by (rule half_up_div) (simp add: micro_scale_def)
  have "half_up ?n micro_scale (uint ngn) \<longleftrightarrow> uint ngn = ?q"
    using q half_up_unique [of micro_scale ?n] by (auto simp: micro_scale_def)
  moreover have "is_uint64 ?q \<and> ?q \<noteq> 0 \<and> to_u64 ?q = ngn \<longleftrightarrow> uint ngn = ?q \<and> ngn \<noteq> 0"
    by (rule u64_quotient_iff)
  ultimately show ?thesis
    by (auto simp: convert_usd_to_ngn_def usable_def Let_def)
qed

lemma convert_ngn_to_usd_Inr:
  "convert_ngn_to_usd r ngn = Inr usd \<longleftrightarrow>
     rate_confirmed r \<and> ngn_per_usd_micro r \<noteq> 0 \<and> ngn \<noteq> 0 \<and> usd \<noteq> 0 \<and>
     half_up (uint ngn * micro_scale) (uint (ngn_per_usd_micro r)) (uint usd)"
proof (cases "ngn_per_usd_micro r = 0")
  case False
  let ?n = "uint ngn * micro_scale" and ?d = "uint (ngn_per_usd_micro r)"
  let ?q = "(uint ngn * (2 * micro_scale) + ?d) div (2 * ?d)"
  have d: "0 < ?d" using False by (simp add: uint_pos_iff)
  have q: "half_up ?n ?d ?q"
    using half_up_div [OF d, of ?n] by (simp add: algebra_simps)
  have "half_up ?n ?d (uint usd) \<longleftrightarrow> uint usd = ?q"
    using q half_up_unique [OF d, of ?n] by auto
  moreover have "is_uint64 ?q \<and> ?q \<noteq> 0 \<and> to_u64 ?q = usd \<longleftrightarrow> uint usd = ?q \<and> usd \<noteq> 0"
    by (rule u64_quotient_iff)
  ultimately show ?thesis
    using False by (auto simp: convert_ngn_to_usd_def usable_def Let_def)
qed (auto simp: convert_ngn_to_usd_def usable_def)

end
