(* ===== verification/Fx_Store.thy ===== *)
theory Fx_Store
  imports Fx
begin

text \<open>
  \<open>internal/fx/store.go\<close>: entry, dual-control confirmation, rejection and expiry of rates over the
  table \<open>fx_rates\<close>, with its CHECK constraints and the partial unique index that admits one
  confirmed rate per date; then the invariant of the table and the properties of the component.
\<close>

datatype fx_state = Pending_Confirmation | Confirmed | Rejected | Expired

record fx_row =
  fr_id :: string
  fr_micro :: u64
  fr_date :: int
  fr_maker :: string
  fr_checker :: "string option"
  fr_state :: fx_state
  fr_created :: int
  fr_confirmed_at :: "int option"

type_synonym fx_db = "fx_row list"

text \<open>CHECK (ngn_per_usd_micro > 0), CHECK (checker IS NULL OR checker <> maker), and BIGINT.\<close>

definition fx_checks :: "fx_row \<Rightarrow> bool" where
  "fx_checks r \<longleftrightarrow> fr_micro r \<noteq> 0 \<and> uint (fr_micro r) < 2 ^ 63 \<and> fr_checker r \<noteq> Some (fr_maker r)"

text \<open>The DATE column reads back as midnight UTC; rejected and expired rows read as errors.\<close>

definition scan_rate :: "fx_row \<Rightarrow> fx_error + rate" where
  "scan_rate r =
     (case fr_state r of
        Rejected \<Rightarrow> Inl ErrRateNotFound
      | Expired \<Rightarrow> Inl ErrRateExpired
      | s \<Rightarrow> Inr \<lparr>rate_id = fr_id r, ngn_per_usd_micro = fr_micro r,
                 effective_date = utc_date (fr_date r), rate_maker = fr_maker r,
                 rate_checker = fr_checker r, rate_confirmed = (s = Confirmed),
                 rate_created = fr_created r\<rparr>)"

text \<open>A single statement outside a transaction: it can fail, also after it took effect.\<close>

definition exec_stmt ::
  "fx_db env \<Rightarrow> string \<Rightarrow> (fx_db \<Rightarrow> fx_error + 'a \<times> fx_db) \<Rightarrow> fx_db \<Rightarrow> (fx_error + 'a) \<times> fx_db" where
  "exec_stmt e label body d = run_tx e ''acquire'' label ErrFxDatabase body d"

definition expire_pending_confirmation ::
  "fx_db env \<Rightarrow> int \<Rightarrow> int \<Rightarrow> fx_db \<Rightarrow> (fx_error + nat) \<times> fx_db" where
  "expire_pending_confirmation e ttl now d =
     (if ttl \<le> 0 then (Inl (ErrFxText ''fx pending confirmation ttl must be positive''), d)
      else exec_stmt e ''expire pending fx rates'' (\<lambda>d.
        let due = (\<lambda>r. fr_state r = Pending_Confirmation \<and> fr_created r < now - ttl)
        in Inr (length (filter due d), sql_update due (\<lambda>r. r\<lparr>fr_state := Expired\<rparr>) d)) d)"

text \<open>
  \<open>uuid_text\<close> is the database's reading of a text as a UUID: \<open>None\<close> when it is none, otherwise its
  canonical form.
\<close>

definition store_enter ::
  "(string \<Rightarrow> string option) \<Rightarrow> fx_db env \<Rightarrow> rate \<Rightarrow> fx_db \<Rightarrow> (fx_error + rate) \<times> fx_db" where
  "store_enter uuid_text e r d =
     (case new_rate (rate_id r) (ngn_per_usd_micro r) (effective_date r) (rate_maker r) of
        Inl err \<Rightarrow> (Inl err, d)
      | Inr _ \<Rightarrow>
          exec_stmt e ''enter fx rate'' (\<lambda>d.
            case uuid_text (rate_id r) of
              None \<Rightarrow> Inl (ErrFxDatabase ''enter fx rate'')
            | Some rid \<Rightarrow>
                let row = \<lparr>fr_id = rid, fr_micro = ngn_per_usd_micro r,
                           fr_date = day_of (effective_date r), fr_maker = rate_maker r,
                           fr_checker = None, fr_state = Pending_Confirmation,
                           fr_created = env_now e, fr_confirmed_at = None\<rparr>
                in if rid \<in> set (map fr_id d) \<or> \<not> fx_checks row
                   then Inl (ErrFxDatabase ''enter fx rate'')
                   else and_then (scan_rate row) (\<lambda>retained. Inr (retained, d @ [row]))) d)"

definition fx_get :: "fx_db env \<Rightarrow> string \<Rightarrow> fx_db \<Rightarrow> fx_error + rate" where
  "fx_get e rid d =
     stmt e ''get fx rate'' ErrFxDatabase
       (case sql_row (\<lambda>r. fr_id r = rid) d of None \<Rightarrow> Inl ErrRateNotFound | Some r \<Rightarrow> scan_rate r)"

definition store_confirm ::
  "fx_db env \<Rightarrow> string \<Rightarrow> string \<Rightarrow> fx_db \<Rightarrow> (fx_error + rate) \<times> fx_db" where
  "store_confirm e rid checker d =
     (case fx_get e rid d of
        Inl err \<Rightarrow> (Inl err, d)
      | Inr current \<Rightarrow>
          (case confirm_rate current checker of
             Inl err \<Rightarrow> (Inl err, d)
           | Inr _ \<Rightarrow>
               exec_stmt e ''confirm fx rate'' (\<lambda>d.
                 let hit = (\<lambda>r. fr_id r = rid \<and> fr_state r = Pending_Confirmation);
                     upd = (\<lambda>r. r\<lparr>fr_checker := Some checker, fr_state := Confirmed,
                                  fr_confirmed_at := Some (env_now e)\<rparr>)
                 in case sql_row hit d of
                      None \<Rightarrow> Inl ErrRateConflict
                    | Some r \<Rightarrow>
                        if \<not> fx_checks (upd r)
                           \<or> (\<exists>s \<in> set d. fr_state s = Confirmed \<and> fr_date s = fr_date r)
                        then Inl (ErrFxDatabase ''confirm fx rate'')
                        else and_then (scan_rate (upd r)) (\<lambda>retained.
                          Inr (retained, sql_update hit upd d))) d))"

definition store_reject ::
  "fx_db env \<Rightarrow> string \<Rightarrow> string \<Rightarrow> fx_db \<Rightarrow> (fx_error + unit) \<times> fx_db" where
  "store_reject e rid checker d =
     (case fx_get e rid d of
        Inl err \<Rightarrow> (Inl err, d)
      | Inr current \<Rightarrow>
          if checker = [] \<or> checker = rate_maker current then (Inl ErrDualControl, d)
          else exec_stmt e ''reject fx rate'' (\<lambda>d.
            let hit = (\<lambda>r. fr_id r = rid \<and> fr_state r = Pending_Confirmation);
                upd = (\<lambda>r. r\<lparr>fr_checker := Some checker, fr_state := Rejected,
                             fr_confirmed_at := Some (env_now e)\<rparr>)
            in if \<not> list_all fx_checks (map upd (filter hit d))
               then Inl (ErrFxDatabase ''reject fx rate'')
               else if length (filter hit d) \<noteq> 1 then Inl ErrRateConflict
               else Inr ((), sql_update hit upd d)) d)"

definition confirmed_for_date :: "fx_db env \<Rightarrow> gtime \<Rightarrow> fx_db \<Rightarrow> fx_error + rate" where
  "confirmed_for_date e date d =
     stmt e ''lookup confirmed fx rate'' ErrFxDatabase
       (case sql_row (\<lambda>r. fr_date r = day_of date \<and> fr_state r = Confirmed) d of
          None \<Rightarrow> Inl ErrRateNotFound | Some r \<Rightarrow> scan_rate r)"

section \<open>The invariant of the table\<close>

definition fx_row_ok :: "fx_row \<Rightarrow> bool" where
  "fx_row_ok r \<longleftrightarrow>
     fr_micro r \<noteq> 0 \<and> uint (fr_micro r) \<le> max_ngn_per_usd_micro \<and> fr_maker r \<noteq> [] \<and>
     (fr_state r = Confirmed \<longrightarrow>
        (\<exists>c. fr_checker r = Some c \<and> c \<noteq> [] \<and> c \<noteq> fr_maker r \<and> fr_confirmed_at r \<noteq> None))"

definition fx_db_ok :: "fx_db \<Rightarrow> bool" where
  "fx_db_ok d \<longleftrightarrow>
     distinct (map fr_id d) \<and> (\<forall>r \<in> set d. fx_row_ok r) \<and>
     distinct (map fr_date (filter (\<lambda>r. fr_state r = Confirmed) d))"

text \<open>The calls of the store as one type.\<close>

datatype fx_call =
  Enter rate
| Confirm string string
| Reject string string
| Expire_Pending int int

definition run_fx_call :: "(string \<Rightarrow> string option) \<Rightarrow> fx_db env \<Rightarrow> fx_call \<Rightarrow> fx_db \<Rightarrow> fx_db" where
  "run_fx_call uuid_text e c d =
     (case c of
        Enter r \<Rightarrow> snd (store_enter uuid_text e r d)
      | Confirm rid checker \<Rightarrow> snd (store_confirm e rid checker d)
      | Reject rid checker \<Rightarrow> snd (store_reject e rid checker d)
      | Expire_Pending ttl now \<Rightarrow> snd (expire_pending_confirmation e ttl now d))"

text \<open>The shared shape of the three updates: rows that wait for confirmation move on.\<close>

lemma sql_update_leaves_confirmed:
  assumes "\<And>r. p r \<Longrightarrow> fr_state r \<noteq> Confirmed" "\<And>r. fr_state (f r) \<noteq> Confirmed"
  shows "filter (\<lambda>r. fr_state r = Confirmed) (sql_update p f d) = filter (\<lambda>r. fr_state r = Confirmed) d"
  using assms by (induction d) (auto simp: sql_update_def)

lemma close_pending_ok:
  assumes ok: "fx_db_ok d" and hit: "\<And>r. p r \<Longrightarrow> fr_state r = Pending_Confirmation"
    and f: "\<And>r. fr_id (f r) = fr_id r" "\<And>r. fr_micro (f r) = fr_micro r"
      "\<And>r. fr_maker (f r) = fr_maker r" "\<And>r. fr_state (f r) \<noteq> Confirmed"
  shows "fx_db_ok (sql_update p f d)"
proof -
  have "filter (\<lambda>r. fr_state r = Confirmed) (sql_update p f d) = filter (\<lambda>r. fr_state r = Confirmed) d"
    using hit f(4) by (intro sql_update_leaves_confirmed) auto
  moreover have "fx_row_ok r" if "r \<in> set (sql_update p f d)" for r
    using ok that f by (auto simp: set_sql_update fx_db_ok_def fx_row_ok_def)
  ultimately show ?thesis using ok f by (simp add: fx_db_ok_def)
qed

lemma confirm_row_dates:
  assumes "distinct (map fr_id d)" "r \<in> set d" "fr_state r = Pending_Confirmation"
    and "\<And>x. fr_date (f x) = fr_date x" "\<And>x. fr_state (f x) = Confirmed"
    and "distinct (map fr_date (filter (\<lambda>r. fr_state r = Confirmed) d))"
    and "\<forall>s \<in> set d. fr_state s = Confirmed \<longrightarrow> fr_date s \<noteq> fr_date r"
  shows "distinct (map fr_date (filter (\<lambda>r. fr_state r = Confirmed)
           (sql_update (\<lambda>x. fr_id x = fr_id r \<and> fr_state x = Pending_Confirmation) f d)))"
  using assms
proof (induction d)
  case (Cons x d)
  let ?p = "\<lambda>x. fr_id x = fr_id r \<and> fr_state x = Pending_Confirmation"
  show ?case
  proof (cases "x = r")
    case True
    have "sql_update ?p f d = d"
      using distinct_Cons_key [OF Cons.prems(1)] True
      by (intro sql_update_none) (auto simp: sql_row_None)
    then show ?thesis
      using Cons.prems True by (auto simp: sql_update_def)
  next
    case False
    then have IH: "distinct (map fr_date (filter (\<lambda>r. fr_state r = Confirmed) (sql_update ?p f d)))"
      using Cons by (simp split: if_splits)
    have r: "r \<in> set d" using False Cons.prems(2) by simp
    then have "fr_id x \<noteq> fr_id r" using distinct_Cons_key [OF Cons.prems(1)] by metis
    moreover have one: "y = f r \<or> y \<in> set d" if "y \<in> set (sql_update ?p f d)" for y
      using sql_update_one [of fr_id d r ?p y f] that r Cons.prems(1) by simp
    moreover have "fr_date x \<notin> fr_date ` {y \<in> set (sql_update ?p f d). fr_state y = Confirmed}"
      if "fr_state x = Confirmed"
      using that Cons.prems by (auto dest!: one)
    ultimately show ?thesis using IH by (auto simp: sql_update_def)
  qed
qed simp

lemma confirm_row_ok:
  assumes ok: "fx_db_ok d" and r: "r \<in> set d" "fr_state r = Pending_Confirmation"
    and chk: "checker \<noteq> []" "fx_checks (r\<lparr>fr_checker := Some checker, fr_state := Confirmed,
                fr_confirmed_at := Some t\<rparr>)"
    and free: "\<not> (\<exists>s \<in> set d. fr_state s = Confirmed \<and> fr_date s = fr_date r)"
  shows "fx_db_ok (sql_update (\<lambda>x. fr_id x = fr_id r \<and> fr_state x = Pending_Confirmation)
           (\<lambda>x. x\<lparr>fr_checker := Some checker, fr_state := Confirmed, fr_confirmed_at := Some t\<rparr>) d)"
proof -
  have d: "distinct (map fr_id d)" using ok by (simp add: fx_db_ok_def)
  let ?hit = "\<lambda>x. fr_id x = fr_id r \<and> fr_state x = Pending_Confirmation"
  let ?upd = "\<lambda>x. x\<lparr>fr_checker := Some checker, fr_state := Confirmed, fr_confirmed_at := Some t\<rparr>"
  have "fx_row_ok (?upd r)"
    using ok r chk by (auto simp: fx_db_ok_def fx_row_ok_def fx_checks_def)
  then have "fx_row_ok y" if "y \<in> set (sql_update ?hit ?upd d)" for y
    using that ok sql_update_one [OF d r(1), of ?hit y ?upd] by (auto simp: fx_db_ok_def)
  moreover have "distinct (map fr_date (filter (\<lambda>r. fr_state r = Confirmed)
      (sql_update (\<lambda>x. fr_id x = fr_id r \<and> fr_state x = Pending_Confirmation)
        (\<lambda>x. x\<lparr>fr_checker := Some checker, fr_state := Confirmed, fr_confirmed_at := Some t\<rparr>) d)))"
    using ok free by (intro confirm_row_dates [OF d r]) (auto simp: fx_db_ok_def)
  ultimately show ?thesis using d by (simp add: fx_db_ok_def)
qed

lemma new_rate_Inr:
  "new_rate rid micro date maker = Inr r \<Longrightarrow>
     micro \<noteq> 0 \<and> uint micro \<le> max_ngn_per_usd_micro \<and> maker \<noteq> []"
  by (auto simp: new_rate_def split: if_splits)

lemma exec_stmt_ok:
  assumes "fx_db_ok d" "env_keeps fx_db_ok e"
    and "\<And>d0 a d'. fx_db_ok d0 \<Longrightarrow> body d0 = Inr (a, d') \<Longrightarrow> fx_db_ok d'"
  shows "fx_db_ok (snd (exec_stmt e l body d))"
  unfolding exec_stmt_def
  by (rule run_tx_inv [where P = fx_db_ok]) (use env_keepsD [OF assms(2,1)] assms(3) in blast)+

lemma add_pending_ok:
  "fx_db_ok d \<Longrightarrow> fr_id row \<notin> fr_id ` set d \<Longrightarrow> fr_state row = Pending_Confirmation \<Longrightarrow>
   fx_row_ok row \<Longrightarrow> fx_db_ok (d @ [row])"
  by (auto simp: fx_db_ok_def)

lemma enter_ok:
  assumes "fx_db_ok d" "env_keeps fx_db_ok e"
  shows "fx_db_ok (snd (store_enter u e r d))"
  using assms unfolding store_enter_def
  by (auto simp: and_then_Inr_iff Let_def fx_row_ok_def dest!: new_rate_Inr
      intro!: exec_stmt_ok add_pending_ok split: sum.splits option.splits if_splits)

lemma confirm_rate_Inr: "confirm_rate r c = Inr r' \<Longrightarrow> c \<noteq> [] \<and> c \<noteq> rate_maker r"
  by (auto simp: confirm_rate_def split: if_splits)

lemma confirm_ok:
  assumes "fx_db_ok d" "env_keeps fx_db_ok e"
  shows "fx_db_ok (snd (store_confirm e rid c d))"
  using assms unfolding store_confirm_def
  by (auto simp: and_then_Inr_iff Let_def dest!: confirm_rate_Inr sql_row_Some
      intro!: exec_stmt_ok confirm_row_ok
      split: sum.splits option.splits if_splits)

lemma reject_ok:
  assumes "fx_db_ok d" "env_keeps fx_db_ok e"
  shows "fx_db_ok (snd (store_reject e rid c d))"
  using assms unfolding store_reject_def
  by (auto simp: Let_def intro!: exec_stmt_ok close_pending_ok
      split: sum.splits if_splits)

lemma expire_ok:
  assumes "fx_db_ok d" "env_keeps fx_db_ok e"
  shows "fx_db_ok (snd (expire_pending_confirmation e ttl now d))"
  using assms unfolding expire_pending_confirmation_def
  by (auto simp: Let_def intro!: exec_stmt_ok close_pending_ok)

lemma run_fx_call_ok [inv_intros]:
  "fx_db_ok d \<Longrightarrow> env_keeps fx_db_ok e \<Longrightarrow> fx_db_ok (run_fx_call u e c d)"
  by (cases c) (simp_all add: run_fx_call_def enter_ok confirm_ok reject_ok expire_ok)

inductive fx_reach :: "(string \<Rightarrow> string option) \<Rightarrow> fx_db \<Rightarrow> bool" for u where
  start: "fx_reach u []"
| call: "fx_reach u d \<Longrightarrow> env_keeps fx_db_ok e \<Longrightarrow> fx_reach u (run_fx_call u e c d)"

lemma fx_reach_ok: "fx_reach u d \<Longrightarrow> fx_db_ok d"
  by (induction rule: fx_reach.induct) (auto intro: inv_intros simp: fx_db_ok_def [of "[]"])

section \<open>Properties\<close>

lemma scan_confirmed: "fr_state r = Confirmed \<Longrightarrow> scan_rate r = Inr x \<Longrightarrow>
    rate_confirmed x \<and> ngn_per_usd_micro x = fr_micro r \<and> rate_maker x = fr_maker r \<and>
    rate_checker x = fr_checker r \<and> effective_date x = utc_date (fr_date r)"
  by (auto simp: scan_rate_def)

text \<open>Dual control of the reference rate. In every reachable table, under every failure and
  interleaving, the rate a disbursement obtains for its date is usable, lies within the approved
  bound, belongs to that date, was confirmed by a principal other than its maker, and is the only
  confirmed rate of that date.\<close>

theorem disbursement_rate_is_dual_controlled:
  assumes "fx_reach u d" and "confirmed_for_date e date d = Inr r"
  shows "usable r = Inr () \<and> uint (ngn_per_usd_micro r) \<le> max_ngn_per_usd_micro \<and>
     day_of (effective_date r) = day_of date \<and>
     (\<exists>c. rate_checker r = Some c \<and> c \<noteq> [] \<and> c \<noteq> rate_maker r) \<and>
     length (filter (\<lambda>x. fr_state x = Confirmed \<and> fr_date x = day_of date) d) = 1"
proof -
  have ok: "fx_db_ok d" using assms(1) by (rule fx_reach_ok)
  obtain row where row: "row \<in> set d" "fr_date row = day_of date" "fr_state row = Confirmed"
    "scan_rate row = Inr r"
    using assms(2)
    by (auto simp: confirmed_for_date_def stmt_Inr_iff split: option.splits dest!: sql_row_Some)
  let ?cs = "filter (\<lambda>r. fr_state r = Confirmed) d"
  have "filter (\<lambda>x. fr_date x = fr_date row) ?cs = [row]"
    using ok row by (intro filter_key_unique) (auto simp: fx_db_ok_def)
  then have "length (filter (\<lambda>x. fr_state x = Confirmed \<and> fr_date x = day_of date) d) = 1"
    using row(2) by (simp add: conj_commute)
  then show ?thesis
    using ok row scan_confirmed [OF row(3,4)] by (auto simp: fx_db_ok_def fx_row_ok_def usable_iff)
qed

definition demo_rate :: rate where
  "demo_rate = \<lparr>rate_id = ''r1'', ngn_per_usd_micro = 1550250000, effective_date = utc_date 20000,
     rate_maker = ''maker'', rate_checker = None, rate_confirmed = False, rate_created = 0\<rparr>"

definition demo_fx :: fx_db where
  "demo_fx = run_fx_call Some (quiet_env 2 (\<lambda>_. [])) (Confirm ''r1'' ''checker'')
     (run_fx_call Some (quiet_env 1 (\<lambda>_. [])) (Enter demo_rate) [])"

lemma demo_fx_reach: "fx_reach Some demo_fx"
  unfolding demo_fx_def by (intro fx_reach.intros env_keeps_quiet)

definition demo_confirmed :: rate where
  "demo_confirmed = \<lparr>rate_id = ''r1'', ngn_per_usd_micro = 1550250000,
     effective_date = utc_date 20000, rate_maker = ''maker'', rate_checker = Some ''checker'',
     rate_confirmed = True, rate_created = 1\<rparr>"

lemma demo_lookup:
  "confirmed_for_date (quiet_env 3 (\<lambda>_. [])) (utc_date 20000) demo_fx = Inr demo_confirmed"
  by code_simp

theorem disbursement_rate_is_dual_controlled_witness:
  "usable demo_confirmed = Inr () \<and>
   length (filter (\<lambda>x. fr_state x = Confirmed \<and> fr_date x = 20000) demo_fx) = 1"
  using disbursement_rate_is_dual_controlled [OF demo_fx_reach demo_lookup] by simp

text \<open>Decided rates are final. No call of the rate store changes a row that is confirmed,
  rejected or expired; in particular an expired rate can never become usable.\<close>

theorem decided_rates_are_final:
  assumes "r \<in> set d" and "fr_state r \<noteq> Pending_Confirmation"
  shows "r \<in> set (run_fx_call u (alone e) c d)"
proof -
  have keep: "r \<in> set (sql_update p f d)" if "\<And>x. p x \<Longrightarrow> fr_state x = Pending_Confirmation" for p f
    using assms that by (auto simp: set_sql_update)
  have body: "r \<in> set (snd (exec_stmt (alone e) l b d))"
    if "\<And>a d'. b d = Inr (a, d') \<Longrightarrow> r \<in> set d'" for l and b :: "fx_db \<Rightarrow> fx_error + 'x \<times> fx_db"
    using run_tx_result [of "alone e" "''acquire''" l ErrFxDatabase b d] that assms(1)
    unfolding exec_stmt_def by (metis alone_simps(1))
  show ?thesis
    using assms(1)
    by (cases c)
      (auto simp: run_fx_call_def store_enter_def store_confirm_def store_reject_def
        expire_pending_confirmation_def and_then_Inr_iff Let_def intro!: body keep
        split: sum.splits option.splits if_splits)
qed

theorem decided_rates_are_final_witness:
  "hd demo_fx \<in> set (run_fx_call Some (alone (quiet_env 9 (\<lambda>_. []))) (Expire_Pending 1 100000) demo_fx)"
  by (rule decided_rates_are_final) code_simp+

text \<open>The USD to NGN conversion is exact half-up rounding. It yields an amount exactly when the
  rate is confirmed and non-zero and the amounts are non-zero, and the amount is the integer
  nearest to usd * rate / 10^6, ties upwards; every other case, overflow included, is an error.\<close>

theorem usd_to_ngn_is_half_up:
  "convert_usd_to_ngn r usd = Inr ngn \<longleftrightarrow>
     usable r = Inr () \<and> usd \<noteq> 0 \<and> ngn \<noteq> 0 \<and>
     2 * (uint usd * uint (ngn_per_usd_micro r)) - 1000000 < 2 * (uint ngn * 1000000) \<and>
     2 * (uint ngn * 1000000) \<le> 2 * (uint usd * uint (ngn_per_usd_micro r)) + 1000000"
  by (auto simp: convert_usd_to_ngn_Inr half_up_def micro_scale_def usable_iff)

text \<open>The NGN to USD conversion is exact half-up rounding of ngn * 10^6 / rate, with the same
  error cases.\<close>

theorem ngn_to_usd_is_half_up:
  "convert_ngn_to_usd r ngn = Inr usd \<longleftrightarrow>
     usable r = Inr () \<and> ngn \<noteq> 0 \<and> usd \<noteq> 0 \<and>
     2 * (uint ngn * 1000000) - uint (ngn_per_usd_micro r)
        < 2 * (uint usd * uint (ngn_per_usd_micro r)) \<and>
     2 * (uint usd * uint (ngn_per_usd_micro r))
        \<le> 2 * (uint ngn * 1000000) + uint (ngn_per_usd_micro r)"
  by (auto simp: convert_ngn_to_usd_Inr half_up_def micro_scale_def usable_iff)

text \<open>Converting NGN to USD and back loses at most half a cent's worth of kobo plus half a kobo:
  the two conversions are consistent with each other to the last rounding.\<close>

theorem conversion_round_trip:
  assumes "convert_ngn_to_usd r ngn = Inr usd" and "convert_usd_to_ngn r usd = Inr back"
  shows "2 * 1000000 * \<bar>uint back - uint ngn\<bar> \<le> uint (ngn_per_usd_micro r) + 1000000"
  using assms
  by (auto simp: convert_ngn_to_usd_Inr convert_usd_to_ngn_Inr half_up_def micro_scale_def abs_if)

theorem conversion_round_trip_witness:
  "2 * 1000000 * \<bar>uint (999911 :: u64) - uint (1000000 :: u64)\<bar>
     \<le> uint (ngn_per_usd_micro demo_confirmed) + 1000000"
  by (rule conversion_round_trip [of demo_confirmed 1000000 645 999911]) code_simp+

end
