(* ===== verification/Ledger.thy ===== *)
theory Ledger
  imports Fx
begin

text \<open>
  \<open>internal/ledger\<close>: the TigerBeetle boundary (\<open>ledger.go\<close>) and the FX pass-through pair
  (\<open>fx.go\<close>). The client library and the cluster behind it are parameters: \<open>'tb\<close> is the state of
  the cluster, \<open>tb_client\<close> the three calls the service makes. \<open>tb_contract\<close> states what the
  TigerBeetle documentation promises of them. The traced variants of \<open>tracing.go\<close> run the same
  operations inside a telemetry span and are not distinguished.
\<close>

section \<open>The client\<close>

type_synonym u128 = "128 word"

record transfer_flags =
  fl_pending :: bool
  fl_post :: bool
  fl_void :: bool

definition no_flags :: transfer_flags where
  "no_flags = \<lparr>fl_pending = False, fl_post = False, fl_void = False\<rparr>"

record transfer =
  tr_id :: u128
  tr_debit :: u128
  tr_credit :: u128
  tr_amount :: u128
  tr_pending :: u128
  tr_timeout :: u32
  tr_ledger :: u32
  tr_code :: u16
  tr_flags :: transfer_flags
  tr_timestamp :: u64

text \<open>A Go struct literal leaves the fields it does not mention at zero.\<close>

definition zero_transfer :: transfer where
  "zero_transfer = \<lparr>tr_id = 0, tr_debit = 0, tr_credit = 0, tr_amount = 0, tr_pending = 0,
     tr_timeout = 0, tr_ledger = 0, tr_code = 0, tr_flags = no_flags, tr_timestamp = 0\<rparr>"

record account =
  ac_id :: u128
  ac_ledger :: u32
  ac_code :: u16
  ac_history :: bool

datatype tb_status = Status_Created | Status_Exists | Status_Other nat

record 'tb tb_client =
  cl_create_accounts :: "account list \<Rightarrow> 'tb \<Rightarrow> (string + tb_status list) \<times> 'tb"
  cl_create_transfers :: "transfer list \<Rightarrow> 'tb \<Rightarrow> (string + tb_status list) \<times> 'tb"
  cl_lookup_transfers :: "u128 list \<Rightarrow> 'tb \<Rightarrow> (string + transfer list) \<times> 'tb"

datatype ledger_error = ErrTransferConflict | ErrLedger string | Ledger_Panic string

section \<open>The service\<close>

record 'tb service =
  sv_client :: "'tb tb_client"
  sv_ledger :: u32
  sv_code :: u16

definition new_service :: "'tb tb_client option \<Rightarrow> u32 \<Rightarrow> u16 \<Rightarrow> ledger_error + 'tb service" where
  "new_service client ledger code =
     (case client of
        None \<Rightarrow> Inl (ErrLedger ''TigerBeetle client is required'')
      | Some c \<Rightarrow>
          if ledger = 0 then Inl (ErrLedger ''ledger must be non-zero'')
          else if code = 0 then Inl (ErrLedger ''transfer/account code must be non-zero'')
          else Inr \<lparr>sv_client = c, sv_ledger = ledger, sv_code = code\<rparr>)"

definition create_account ::
  "'tb service \<Rightarrow> u128 \<Rightarrow> bool \<Rightarrow> 'tb \<Rightarrow> (ledger_error + unit) \<times> 'tb" where
  "create_account sv i history tb =
     (if i = 0 then (Inl (ErrLedger ''account ID must be non-zero''), tb)
      else case cl_create_accounts (sv_client sv)
                  [\<lparr>ac_id = i, ac_ledger = sv_ledger sv, ac_code = sv_code sv,
                    ac_history = history\<rparr>] tb of
             (Inl err, tb') \<Rightarrow> (Inl (ErrLedger ''create TigerBeetle account''), tb')
           | (Inr results, tb') \<Rightarrow>
               (case results of
                  [s] \<Rightarrow>
                    if s \<noteq> Status_Created \<and> s \<noteq> Status_Exists
                    then (Inl (ErrLedger ''create TigerBeetle account returned status''), tb')
                    else (Inr (), tb')
                | _ \<Rightarrow> (Inl (ErrLedger ''create TigerBeetle account returned results, want 1''), tb')))"

definition validate_transfer :: "u128 \<Rightarrow> u128 \<Rightarrow> u128 \<Rightarrow> u64 \<Rightarrow> ledger_error + unit" where
  "validate_transfer i debit credit amount =
     (if i = 0 \<or> debit = 0 \<or> credit = 0
      then Inl (ErrLedger ''transfer and account IDs must be non-zero'')
      else if debit = credit then Inl (ErrLedger ''debit and credit accounts must differ'')
      else if amount = 0 then Inl (ErrLedger ''transfer amount must be non-zero'')
      else Inr ())"

definition lookup_transfer ::
  "'tb service \<Rightarrow> u128 \<Rightarrow> 'tb \<Rightarrow> (ledger_error + transfer option) \<times> 'tb" where
  "lookup_transfer sv i tb =
     (if i = 0 then (Inl (ErrLedger ''transfer ID must be non-zero''), tb)
      else case cl_lookup_transfers (sv_client sv) [i] tb of
             (Inl err, tb') \<Rightarrow> (Inl (ErrLedger ''lookup TigerBeetle transfer''), tb')
           | (Inr ts, tb') \<Rightarrow>
               (case ts of
                  [] \<Rightarrow> (Inr None, tb')
                | [t] \<Rightarrow> (Inr (Some t), tb')
                | _ \<Rightarrow> (Inl (ErrLedger ''lookup TigerBeetle transfer returned records, want at most 1''), tb')))"

text \<open>The immutable fields a stored transfer must share with the attempted one.\<close>

definition same_content :: "transfer \<Rightarrow> transfer \<Rightarrow> bool" where
  "same_content existing t \<longleftrightarrow>
     tr_debit existing = tr_debit t \<and> tr_credit existing = tr_credit t \<and>
     tr_amount existing = tr_amount t \<and> tr_pending existing = tr_pending t \<and>
     tr_ledger existing = tr_ledger t \<and> tr_code existing = tr_code t"

definition verify_existing_transfer ::
  "'tb service \<Rightarrow> transfer \<Rightarrow> 'tb \<Rightarrow> (ledger_error + unit) \<times> 'tb" where
  "verify_existing_transfer sv t tb =
     on_ok (lookup_transfer sv (tr_id t) tb) (\<lambda>found tb'.
       case found of
         None \<Rightarrow> (Inl ErrTransferConflict, tb')
       | Some existing \<Rightarrow>
           if \<not> same_content existing t then (Inl ErrTransferConflict, tb') else (Inr (), tb'))"

definition create_transfer ::
  "'tb service \<Rightarrow> transfer \<Rightarrow> 'tb \<Rightarrow> (ledger_error + unit) \<times> 'tb" where
  "create_transfer sv t tb =
     (case cl_create_transfers (sv_client sv) [t] tb of
        (Inl err, tb') \<Rightarrow> (Inl (ErrLedger ''create TigerBeetle transfer''), tb')
      | (Inr results, tb') \<Rightarrow>
          (case results of
             [Status_Created] \<Rightarrow> (Inr (), tb')
           | [Status_Exists] \<Rightarrow> verify_existing_transfer sv t tb'
           | [Status_Other _] \<Rightarrow> (Inl (ErrLedger ''create TigerBeetle transfer returned status''), tb')
           | _ \<Rightarrow> (Inl (ErrLedger ''create TigerBeetle transfer returned results, want 1''), tb')))"

definition reserve_request ::
  "'tb service \<Rightarrow> u128 \<Rightarrow> u128 \<Rightarrow> u128 \<Rightarrow> u64 \<Rightarrow> u32 \<Rightarrow> transfer" where
  "reserve_request sv i debit credit amount timeout =
     zero_transfer\<lparr>tr_id := i, tr_debit := debit, tr_credit := credit, tr_amount := ucast amount,
       tr_timeout := timeout, tr_ledger := sv_ledger sv, tr_code := sv_code sv,
       tr_flags := no_flags\<lparr>fl_pending := True\<rparr>\<rparr>"

definition service_reserve ::
  "'tb service \<Rightarrow> u128 \<Rightarrow> u128 \<Rightarrow> u128 \<Rightarrow> u64 \<Rightarrow> u32 \<Rightarrow> 'tb \<Rightarrow> (ledger_error + unit) \<times> 'tb" where
  "service_reserve sv i debit credit amount timeout tb =
     (case validate_transfer i debit credit amount of
        Inl err \<Rightarrow> (Inl err, tb)
      | Inr _ \<Rightarrow>
          if timeout = 0 then (Inl (ErrLedger ''pending transfer timeout must be non-zero''), tb)
          else create_transfer sv (reserve_request sv i debit credit amount timeout) tb)"

definition post_request :: "'tb service \<Rightarrow> u128 \<Rightarrow> u128 \<Rightarrow> transfer" where
  "post_request sv post_id pending_id =
     zero_transfer\<lparr>tr_id := post_id, tr_pending := pending_id, tr_ledger := sv_ledger sv,
       tr_code := sv_code sv, tr_flags := no_flags\<lparr>fl_post := True\<rparr>\<rparr>"

definition service_post ::
  "'tb service \<Rightarrow> u128 \<Rightarrow> u128 \<Rightarrow> 'tb \<Rightarrow> (ledger_error + unit) \<times> 'tb" where
  "service_post sv post_id pending_id tb =
     (if post_id = 0 \<or> pending_id = 0
      then (Inl (ErrLedger ''post and pending transfer IDs must be non-zero''), tb)
      else create_transfer sv (post_request sv post_id pending_id) tb)"

definition void_request :: "'tb service \<Rightarrow> u128 \<Rightarrow> u128 \<Rightarrow> transfer" where
  "void_request sv void_id pending_id =
     zero_transfer\<lparr>tr_id := void_id, tr_pending := pending_id, tr_ledger := sv_ledger sv,
       tr_code := sv_code sv, tr_flags := no_flags\<lparr>fl_void := True\<rparr>\<rparr>"

definition service_void ::
  "'tb service \<Rightarrow> u128 \<Rightarrow> u128 \<Rightarrow> 'tb \<Rightarrow> (ledger_error + unit) \<times> 'tb" where
  "service_void sv void_id pending_id tb =
     (if void_id = 0 \<or> pending_id = 0
      then (Inl (ErrLedger ''void and pending transfer IDs must be non-zero''), tb)
      else create_transfer sv (void_request sv void_id pending_id) tb)"

section \<open>The disbursement pair\<close>

text \<open>
  \<open>crypto/sha256\<close> and the client library's \<open>HexStringToUint128\<close> are parameters; the identifier
  functions panic when the latter rejects the digest.
\<close>

record hashing =
  sha256 :: "string \<Rightarrow> string"
  hex_to_u128 :: "string \<Rightarrow> u128 option"

definition hex_digit :: "nat \<Rightarrow> char" where
  "hex_digit n = ''0123456789abcdef'' ! (n mod 16)"

definition hex_encode :: "string \<Rightarrow> string" where
  "hex_encode s = concat (map (\<lambda>c. [hex_digit (of_char c div 16), hex_digit (of_char c)]) s)"

definition disbursement_transfer_id :: "hashing \<Rightarrow> string \<Rightarrow> string \<Rightarrow> ledger_error + u128" where
  "disbursement_transfer_id h namespace application_id =
     (case hex_to_u128 h (hex_encode (take 16 (sha256 h (namespace @ '':'' @ application_id)))) of
        None \<Rightarrow> Inl (Ledger_Panic ''deterministic TigerBeetle ID encoding failed'')
      | Some i \<Rightarrow> Inr i)"

record pair_input =
  pi_application :: string
  pi_fee_ngn :: u64
  pi_cost_usd :: u64
  pi_cost_ngn :: u64
  pi_rate :: rate
  pi_ngn_debit :: u128
  pi_ngn_credit :: u128
  pi_usd_debit :: u128
  pi_usd_credit :: u128
  pi_ngn_ledger :: u32
  pi_usd_ledger :: u32
  pi_fee_code :: u16
  pi_cost_code :: u16

record pair_legs =
  pl_application :: string
  pl_rate_id :: string
  pl_micro :: u64
  pl_date :: gtime
  pl_fee_id :: u128
  pl_cost_id :: u128
  pl_fee_ngn :: u64
  pl_cost_usd :: u64
  pl_cost_ngn :: u64

definition fee_transfer :: "pair_input \<Rightarrow> u128 \<Rightarrow> transfer" where
  "fee_transfer inp i =
     zero_transfer\<lparr>tr_id := i, tr_debit := pi_ngn_debit inp, tr_credit := pi_ngn_credit inp,
       tr_amount := ucast (pi_fee_ngn inp), tr_ledger := pi_ngn_ledger inp,
       tr_code := pi_fee_code inp\<rparr>"

definition cost_transfer :: "pair_input \<Rightarrow> u128 \<Rightarrow> transfer" where
  "cost_transfer inp i =
     zero_transfer\<lparr>tr_id := i, tr_debit := pi_usd_debit inp, tr_credit := pi_usd_credit inp,
       tr_amount := ucast (pi_cost_usd inp), tr_ledger := pi_usd_ledger inp,
       tr_code := pi_cost_code inp\<rparr>"

definition build_disbursement_pair ::
  "hashing \<Rightarrow> pair_input \<Rightarrow> ledger_error + transfer list \<times> pair_legs" where
  "build_disbursement_pair h inp =
     (if pi_application inp = [] then Inl (ErrLedger ''application ID is required'')
      else if pi_ngn_ledger inp = 0 \<or> pi_usd_ledger inp = 0 \<or> pi_fee_code inp = 0 \<or> pi_cost_code inp = 0
      then Inl (ErrLedger ''disbursement ledgers and codes must be non-zero'')
      else if \<not> rate_confirmed (pi_rate inp)
      then Inl (ErrLedger ''fx rate is not confirmed under dual control'')
      else if pi_fee_ngn inp = 0 then Inl (ErrLedger ''NGN custodial fee must be non-zero'')
      else if pi_cost_ngn inp = 0
      then Inl (ErrLedger ''NGN equivalent of the USD cost must be non-zero'')
      else and_then (disbursement_transfer_id h ''cvff-fee-ngn'' (pi_application inp)) (\<lambda>fee_id.
           and_then (disbursement_transfer_id h ''cvff-cost-usd'' (pi_application inp)) (\<lambda>cost_id.
           and_then (validate_transfer fee_id (pi_ngn_debit inp) (pi_ngn_credit inp) (pi_fee_ngn inp)) (\<lambda>_.
           and_then (validate_transfer cost_id (pi_usd_debit inp) (pi_usd_credit inp) (pi_cost_usd inp)) (\<lambda>_.
           Inr ([fee_transfer inp fee_id, cost_transfer inp cost_id],
                \<lparr>pl_application = pi_application inp, pl_rate_id = rate_id (pi_rate inp),
                  pl_micro = ngn_per_usd_micro (pi_rate inp),
                  pl_date = effective_date (pi_rate inp), pl_fee_id = fee_id, pl_cost_id = cost_id,
                  pl_fee_ngn = pi_fee_ngn inp, pl_cost_usd = pi_cost_usd inp,
                  pl_cost_ngn = pi_cost_ngn inp\<rparr>))))))"

fun check_pair_results ::
  "'tb service \<Rightarrow> transfer list \<Rightarrow> tb_status list \<Rightarrow> 'tb \<Rightarrow> (ledger_error + unit) \<times> 'tb" where
  "check_pair_results sv (t # ts) (s # ss) tb =
     (case s of
        Status_Created \<Rightarrow> check_pair_results sv ts ss tb
      | Status_Exists \<Rightarrow>
          on_ok (verify_existing_transfer sv t tb) (\<lambda>_ tb'. check_pair_results sv ts ss tb')
      | Status_Other _ \<Rightarrow>
          (Inl (ErrLedger ''create TigerBeetle disbursement transfer returned status''), tb))"
| "check_pair_results sv _ _ tb = (Inr (), tb)"

definition create_disbursement_pair ::
  "hashing \<Rightarrow> 'tb service \<Rightarrow> pair_input \<Rightarrow> 'tb \<Rightarrow> (ledger_error + pair_legs) \<times> 'tb" where
  "create_disbursement_pair h sv inp tb =
     (case build_disbursement_pair h inp of
        Inl err \<Rightarrow> (Inl err, tb)
      | Inr (transfers, legs) \<Rightarrow>
          (case cl_create_transfers (sv_client sv) transfers tb of
             (Inl err, tb') \<Rightarrow> (Inl (ErrLedger ''create TigerBeetle disbursement pair''), tb')
           | (Inr results, tb') \<Rightarrow>
               if length results \<noteq> length transfers
               then (Inl (ErrLedger ''create TigerBeetle disbursement pair returned results''), tb')
               else on_ok (check_pair_results sv transfers results tb') (\<lambda>_ tb''. (Inr legs, tb''))))"

end
