(* ===== verification/Ledger_Props.thy ===== *)
theory Ledger_Props
  imports Ledger Fx_Store
begin

text \<open>
  What the TigerBeetle service guarantees on top of the documented behaviour of the cluster.
  \<open>tb_contract\<close> states that behaviour; it is a hypothesis of the theorems, and \<open>sim_client\<close> is a
  small cluster that meets it, for the witnesses.
\<close>

section \<open>The documented behaviour of the cluster\<close>

text \<open>Transfers are immutable and never deleted: the records a state shows stay for good.\<close>

definition tb_extends :: "('tb \<Rightarrow> u128 \<Rightarrow> transfer option) \<Rightarrow> 'tb \<Rightarrow> 'tb \<Rightarrow> bool" where
  "tb_extends view tb tb' \<longleftrightarrow> (\<forall>i t. view tb i = Some t \<longrightarrow> view tb' i = Some t)"

text \<open>
  The record a created transfer leaves. A plain or pending transfer is stored as requested. A
  transfer that posts or voids a pending one stores the accounts of the pending transfer; the
  amount it posts is the requested one, unless that is the reserved maximum, which stands for
  the whole pending amount.
\<close>

definition records :: "transfer \<Rightarrow> transfer \<Rightarrow> bool" where
  "records t s \<longleftrightarrow>
     tr_id s = tr_id t \<and> tr_flags s = tr_flags t \<and> tr_pending s = tr_pending t \<and>
     (if fl_post (tr_flags t) \<or> fl_void (tr_flags t)
      then tr_debit s \<noteq> 0 \<and> tr_credit s \<noteq> 0 \<and>
           (fl_post (tr_flags t) \<and> tr_amount t \<noteq> - 1 \<longrightarrow> tr_amount s = tr_amount t)
      else tr_debit s = tr_debit t \<and> tr_credit s = tr_credit t \<and> tr_amount s = tr_amount t \<and>
           tr_ledger s = tr_ledger t \<and> tr_code s = tr_code t \<and> tr_timeout s = tr_timeout t)"

text \<open>
  The calls may fail at any time, also after they took effect, and other clients may write at
  any time. What a reply says is nevertheless true.
\<close>

definition status_true ::
  "('tb \<Rightarrow> u128 \<Rightarrow> transfer option) \<Rightarrow> 'tb \<Rightarrow> 'tb \<Rightarrow> transfer \<Rightarrow> tb_status \<Rightarrow> bool" where
  "status_true view tb tb' t s \<longleftrightarrow>
     (case s of
        Status_Created \<Rightarrow>
          view tb (tr_id t) = None \<and> (\<exists>r. view tb' (tr_id t) = Some r \<and> records t r)
      | Status_Exists \<Rightarrow> view tb' (tr_id t) \<noteq> None
      | Status_Other _ \<Rightarrow> True)"

definition tb_contract :: "'tb tb_client \<Rightarrow> ('tb \<Rightarrow> u128 \<Rightarrow> transfer option) \<Rightarrow> bool" where
  "tb_contract client view \<longleftrightarrow>
     (\<forall>ts tb r tb'. cl_create_transfers client ts tb = (r, tb') \<longrightarrow>
        tb_extends view tb tb' \<and>
        (\<forall>ss. r = Inr ss \<longrightarrow> list_all2 (status_true view tb tb') ts ss)) \<and>
     (\<forall>is tb r tb'. cl_lookup_transfers client is tb = (r, tb') \<longrightarrow>
        tb_extends view tb tb' \<and>
        (\<forall>found. r = Inr found \<longrightarrow> found = List.map_filter (view tb') is)) \<and>
     (\<forall>i tb t. view tb i = Some t \<longrightarrow> tr_id t = i)"

lemma tb_extends_refl [simp]: "tb_extends view tb tb"
  by (simp add: tb_extends_def)

lemma tb_extends_trans: "tb_extends view a b \<Longrightarrow> tb_extends view b c \<Longrightarrow> tb_extends view a c"
  by (auto simp: tb_extends_def)

lemma tb_extendsD: "tb_extends view tb tb' \<Longrightarrow> view tb i = Some t \<Longrightarrow> view tb' i = Some t"
  by (auto simp: tb_extends_def)

lemma tb_create:
  "tb_contract client view \<Longrightarrow> cl_create_transfers client ts tb = (r, tb') \<Longrightarrow>
   tb_extends view tb tb' \<and> (\<forall>ss. r = Inr ss \<longrightarrow> list_all2 (status_true view tb tb') ts ss)"
  by (simp add: tb_contract_def)

lemma tb_lookup:
  "tb_contract client view \<Longrightarrow> cl_lookup_transfers client is tb = (r, tb') \<Longrightarrow>
   tb_extends view tb tb' \<and> (\<forall>found. r = Inr found \<longrightarrow> found = List.map_filter (view tb') is)"
  by (simp add: tb_contract_def)

section \<open>The service over such a cluster\<close>

lemma lookup_transfer_result:
  assumes "tb_contract (sv_client sv) view" and "lookup_transfer sv i tb = (r, tb')"
  shows "tb_extends view tb tb' \<and> (\<forall>found. r = Inr found \<longrightarrow> found = view tb' i)"
proof (cases "i = 0")
  case False
  obtain lr tb1 where l: "cl_lookup_transfers (sv_client sv) [i] tb = (lr, tb1)" by fastforce
  have c: "tb_extends view tb tb1" "\<And>found. lr = Inr found \<Longrightarrow> found = List.map_filter (view tb1) [i]"
    using tb_lookup [OF assms(1) l] by auto
  have "tb' = tb1"
    using assms(2) False l by (auto simp: lookup_transfer_def split: sum.splits list.splits)
  moreover have "found = view tb1 i" if "r = Inr found" for found
    using assms(2) False l c(2) that
    by (cases "view tb1 i"; cases lr) (auto simp: lookup_transfer_def List.map_filter_def)
  ultimately show ?thesis using c(1) by blast
qed (use assms in \<open>auto simp: lookup_transfer_def\<close>)

lemma verify_existing_result:
  assumes c: "tb_contract (sv_client sv) view" and "verify_existing_transfer sv t tb = (r, tb')"
  shows "tb_extends view tb tb' \<and>
    (r = Inr () \<longrightarrow> (\<exists>s. view tb' (tr_id t) = Some s \<and> same_content s t))"
proof -
  obtain lr tb1 where l: "lookup_transfer sv (tr_id t) tb = (lr, tb1)" by fastforce
  show ?thesis
    using assms(2) lookup_transfer_result [OF c l] l
    by (cases lr) (auto simp: verify_existing_transfer_def split: option.splits if_splits)
qed

text \<open>What a successful creation leaves: the record of the request, or an older one with its fields.\<close>

lemma create_transfer_result:
  assumes c: "tb_contract (sv_client sv) view" and "create_transfer sv t tb = (r, tb')"
  shows "tb_extends view tb tb' \<and>
    (r = Inr () \<longrightarrow> (\<exists>s. view tb' (tr_id t) = Some s \<and>
       (view tb (tr_id t) = None \<and> records t s \<or> same_content s t)))"
proof -
  obtain cr tb1 where k: "cl_create_transfers (sv_client sv) [t] tb = (cr, tb1)" by fastforce
  note k1 = tb_create [OF c k]
  show ?thesis
  proof (cases "\<exists>s. cr = Inr [s]")
    case True
    then obtain s where s: "cr = Inr [s]" by blast
    then have st: "status_true view tb tb1 t s" and e1: "tb_extends view tb tb1" using k1 by auto
    show ?thesis
    proof (cases s)
      case Status_Exists
      then have "verify_existing_transfer sv t tb1 = (r, tb')"
        using assms(2) k s by (simp add: create_transfer_def)
      then show ?thesis
        using verify_existing_result [OF c, of t tb1 r tb'] tb_extends_trans [OF e1, of tb'] by blast
    next
      case Status_Created
      then have "r = Inr ()" "tb' = tb1" using assms(2) k s by (simp_all add: create_transfer_def)
      then show ?thesis using st e1 Status_Created by (auto simp: status_true_def)
    next
      case (Status_Other n)
      then have "r \<noteq> Inr ()" "tb' = tb1" using assms(2) k s by (auto simp: create_transfer_def)
      then show ?thesis using e1 by simp
    qed
  next
    case False
    then have "tb' = tb1" "r \<noteq> Inr ()"
      using assms(2) k by (auto simp: create_transfer_def split: sum.splits list.splits tb_status.splits)
    then show ?thesis using k1 by blast
  qed
qed

section \<open>The disbursement pair\<close>

lemma plain_record: "records t s \<Longrightarrow> tr_flags t = no_flags \<Longrightarrow> same_content s t \<and> tr_id s = tr_id t"
  by (simp add: records_def same_content_def no_flags_def)

lemma check_pair_results_stored:
  assumes c: "tb_contract (sv_client sv) view"
    and "list_all2 (\<lambda>t s. s = Status_Created \<longrightarrow>
           (\<exists>r. view tb (tr_id t) = Some r \<and> same_content r t)) ts ss"
    and "check_pair_results sv ts ss tb = (Inr (), tb')"
  shows "tb_extends view tb tb' \<and>
    (\<forall>t \<in> set ts. \<exists>r. view tb' (tr_id t) = Some r \<and> same_content r t)"
  using assms(2,3)
proof (induction ts arbitrary: ss tb)
  case (Cons t ts)
  obtain s ss1 where ss: "ss = s # ss1" using Cons.prems(1) by (cases ss) auto
  have tail: "list_all2 (\<lambda>t s. s = Status_Created \<longrightarrow>
      (\<exists>r. view x (tr_id t) = Some r \<and> same_content r t)) ts ss1"
    if "tb_extends view tb x" for x
  proof (rule list_all2_mono)
    show "list_all2 (\<lambda>t s. s = Status_Created \<longrightarrow>
      (\<exists>r. view tb (tr_id t) = Some r \<and> same_content r t)) ts ss1"
      using Cons.prems(1) ss by simp
  qed (metis tb_extendsD [OF that])
  obtain x where x: "check_pair_results sv ts ss1 x = (Inr (), tb')" "tb_extends view tb x"
    "\<exists>r. view x (tr_id t) = Some r \<and> same_content r t"
  proof (cases s)
    case Status_Created
    then show ?thesis using that [of tb] Cons.prems ss by simp
  next
    case Status_Exists
    then obtain x where v: "verify_existing_transfer sv t tb = (Inr (), x)"
      and "check_pair_results sv ts ss1 x = (Inr (), tb')"
      using Cons.prems(2) ss by (auto simp: on_ok_Inr_iff)
    then show ?thesis using that [of x] verify_existing_result [OF c v] by blast
  qed (use Cons.prems ss in auto)
  have rest: "tb_extends view x tb'"
    "\<forall>t \<in> set ts. \<exists>r. view tb' (tr_id t) = Some r \<and> same_content r t"
    using Cons.IH [OF tail [OF x(2)] x(1)] by simp_all
  have "\<exists>r. view tb' (tr_id t) = Some r \<and> same_content r t"
    using x(3) tb_extendsD [OF rest(1)] by metis
  then show ?case using rest(2) tb_extends_trans [OF x(2) rest(1)] by simp
next
  case Nil
  then have "tb' = tb" by (cases ss) simp_all
  then show ?case by simp
qed

text \<open>The two legs of an input, as the cluster stores them.\<close>

definition legs_stored ::
  "('tb \<Rightarrow> u128 \<Rightarrow> transfer option) \<Rightarrow> 'tb \<Rightarrow> pair_input \<Rightarrow> pair_legs \<Rightarrow> bool" where
  "legs_stored view tb inp legs \<longleftrightarrow>
     (\<exists>fee cost. view tb (pl_fee_id legs) = Some fee \<and> view tb (pl_cost_id legs) = Some cost \<and>
        same_content fee (fee_transfer inp (pl_fee_id legs)) \<and>
        same_content cost (cost_transfer inp (pl_cost_id legs)))"

lemma build_pair_Inr:
  assumes "build_disbursement_pair h inp = Inr (ts, legs)"
  shows "ts = [fee_transfer inp (pl_fee_id legs), cost_transfer inp (pl_cost_id legs)]"
    and "disbursement_transfer_id h ''cvff-fee-ngn'' (pi_application inp) = Inr (pl_fee_id legs)"
    and "disbursement_transfer_id h ''cvff-cost-usd'' (pi_application inp) = Inr (pl_cost_id legs)"
    and "rate_confirmed (pi_rate inp)" "pl_fee_ngn legs = pi_fee_ngn inp"
    and "pl_cost_usd legs = pi_cost_usd inp" "pl_application legs = pi_application inp"
    and "pl_cost_ngn legs = pi_cost_ngn inp" "pl_micro legs = ngn_per_usd_micro (pi_rate inp)"
    and "pi_fee_ngn inp \<noteq> 0 \<and> pi_cost_usd inp \<noteq> 0 \<and> pi_cost_ngn inp \<noteq> 0"
  using assms
  by (auto simp: build_disbursement_pair_def and_then_Inr_iff validate_transfer_def
      split: if_splits)

lemma pair_flags [simp]:
  "tr_flags (fee_transfer inp i) = no_flags" "tr_flags (cost_transfer inp i) = no_flags"
  "tr_id (fee_transfer inp i) = i" "tr_id (cost_transfer inp i) = i"
  by (simp_all add: fee_transfer_def cost_transfer_def zero_transfer_def)

lemma create_pair_stored:
  assumes c: "tb_contract (sv_client sv) view"
    and ok: "create_disbursement_pair h sv inp tb = (Inr legs, tb')"
  shows "legs_stored view tb' inp legs \<and> (\<exists>ts. build_disbursement_pair h inp = Inr (ts, legs))"
proof -
  obtain ts where b: "build_disbursement_pair h inp = Inr (ts, legs)"
    and "\<exists>ss tb1. cl_create_transfers (sv_client sv) ts tb = (Inr ss, tb1) \<and>
      check_pair_results sv ts ss tb1 = (Inr (), tb')"
    using ok by (auto simp: create_disbursement_pair_def on_ok_Inr_iff
        split: sum.splits prod.splits if_splits)
  then obtain ss tb1 where k: "cl_create_transfers (sv_client sv) ts tb = (Inr ss, tb1)"
    and chk: "check_pair_results sv ts ss tb1 = (Inr (), tb')" by blast
  note ts = build_pair_Inr(1) [OF b]
  have "list_all2 (status_true view tb tb1) ts ss" using tb_create [OF c k] by simp
  then have "list_all2 (\<lambda>t s. s = Status_Created \<longrightarrow>
      (\<exists>r. view tb1 (tr_id t) = Some r \<and> same_content r t)) ts ss"
    unfolding ts by (auto simp: list_all2_Cons1 status_true_def dest!: plain_record)
  then have "\<forall>t \<in> set ts. \<exists>r. view tb' (tr_id t) = Some r \<and> same_content r t"
    using check_pair_results_stored [OF c _ chk] by blast
  then show ?thesis using b unfolding ts legs_stored_def by auto
qed

lemma check_pair_results_extends:
  "tb_contract (sv_client sv) view \<Longrightarrow> check_pair_results sv ts ss tb = (r, tb') \<Longrightarrow>
   tb_extends view tb tb'"
proof (induction ts arbitrary: ss tb)
  case (Cons t ts)
  show ?case
  proof (cases ss)
    case (Cons s ss1)
    obtain v x where v: "verify_existing_transfer sv t tb = (v, x)" by fastforce
    have "tb_extends view tb x" using verify_existing_result [OF Cons.prems(1) v] by simp
    then have "check_pair_results sv ts ss1 x = (r, tb') \<Longrightarrow> tb_extends view tb tb'"
      using tb_extends_trans [of view tb x tb'] Cons.IH [OF Cons.prems(1), of ss1 x] by blast
    then show ?thesis
      using Cons.prems(2) Cons v Cons.IH [OF Cons.prems(1), of ss1 tb] \<open>tb_extends view tb x\<close>
      by (cases s; cases v) auto
  qed (use Cons.prems in simp)
qed simp

lemma create_pair_extends:
  assumes c: "tb_contract (sv_client sv) view"
    and run: "create_disbursement_pair h sv inp tb = (r, tb')"
  shows "tb_extends view tb tb'"
proof (cases "build_disbursement_pair h inp")
  case (Inr b)
  obtain ts legs where b: "b = (ts, legs)" by fastforce
  obtain cr tb1 where k: "cl_create_transfers (sv_client sv) ts tb = (cr, tb1)" by fastforce
  note e1 = tb_create [OF c k, THEN conjunct1]
  show ?thesis
  proof (cases cr)
    case (Inr ss)
    obtain v x where v: "check_pair_results sv ts ss tb1 = (v, x)" by fastforce
    have "tb_extends view tb1 x" using check_pair_results_extends [OF c v] .
    then have "tb_extends view tb x" using e1 tb_extends_trans by metis
    then show ?thesis
      using run \<open>build_disbursement_pair h inp = Inr b\<close> b k Inr v e1
      by (cases v) (auto simp: create_disbursement_pair_def split: if_splits)
  qed (use run Inr b k e1 in \<open>auto simp: create_disbursement_pair_def\<close>)
qed (use run in \<open>auto simp: create_disbursement_pair_def\<close>)

section \<open>A cluster that meets the contract\<close>

type_synonym sim = "transfer list"

definition sim_view :: "sim \<Rightarrow> u128 \<Rightarrow> transfer option" where
  "sim_view tb i = find (\<lambda>t. tr_id t = i) tb"

text \<open>The record of a request, when the cluster accepts it.\<close>

definition sim_record :: "transfer \<Rightarrow> sim \<Rightarrow> transfer option" where
  "sim_record t tb =
     (if fl_post (tr_flags t) \<or> fl_void (tr_flags t) then
        (case sim_view tb (tr_pending t) of
           None \<Rightarrow> None
         | Some p \<Rightarrow>
             if fl_pending (tr_flags p) \<and> tr_debit p \<noteq> 0 \<and> tr_credit p \<noteq> 0 \<and>
                \<not> list_ex (\<lambda>x. tr_pending x = tr_id p) tb
             then Some (t\<lparr>tr_debit := tr_debit p, tr_credit := tr_credit p,
                    tr_amount := (if fl_post (tr_flags t) \<and> tr_amount t \<noteq> - 1
                                  then tr_amount t else tr_amount p)\<rparr>)
             else None)
      else if tr_debit t = 0 \<or> tr_credit t = 0 \<or> tr_debit t = tr_credit t then None
      else Some t)"

definition sim_step :: "transfer \<Rightarrow> sim \<Rightarrow> tb_status \<times> sim" where
  "sim_step t tb =
     (case sim_view tb (tr_id t) of
        Some s \<Rightarrow> (if tr_flags s = tr_flags t \<and> tr_pending s = tr_pending t
                   then Status_Exists else Status_Other 1, tb)
      | None \<Rightarrow> (case sim_record t tb of
                   None \<Rightarrow> (Status_Other 2, tb) | Some r \<Rightarrow> (Status_Created, tb @ [r])))"

fun sim_steps :: "transfer list \<Rightarrow> sim \<Rightarrow> tb_status list \<times> sim" where
  "sim_steps [] tb = ([], tb)"
| "sim_steps (t # ts) tb =
     (let (s, tb1) = sim_step t tb; (ss, tb2) = sim_steps ts tb1 in (s # ss, tb2))"

definition sim_client :: "sim tb_client" where
  "sim_client = \<lparr>
     cl_create_accounts = (\<lambda>as tb. (Inr (map (\<lambda>_. Status_Created) as), tb)),
     cl_create_transfers = (\<lambda>ts tb. let (ss, tb') = sim_steps ts tb in (Inr ss, tb')),
     cl_lookup_transfers = (\<lambda>is tb. (Inr (List.map_filter (sim_view tb) is), tb))\<rparr>"

lemma sim_record_ok: "sim_record t tb = Some r \<Longrightarrow> records t r"
  by (auto simp: sim_record_def records_def split: if_splits option.splits)

lemma sim_view_append:
  "sim_view (tb @ [r]) i =
     (case sim_view tb i of Some t \<Rightarrow> Some t | None \<Rightarrow> if tr_id r = i then Some r else None)"
  by (induction tb) (auto simp: sim_view_def)

lemma sim_step_ok:
  "sim_step t tb = (s, tb') \<Longrightarrow> tb_extends sim_view tb tb' \<and> status_true sim_view tb tb' t s"
  using sim_record_ok [of t tb]
  by (auto simp: sim_step_def tb_extends_def status_true_def sim_view_append records_def
      split: option.splits if_splits)

lemma status_true_wider:
  "status_true view b c t s \<Longrightarrow> tb_extends view a b \<Longrightarrow> tb_extends view c d \<Longrightarrow>
   status_true view a d t s"
  by (cases s; cases "view a (tr_id t)") (auto simp: status_true_def tb_extends_def)

lemma sim_steps_ok:
  "sim_steps ts tb = (ss, tb') \<Longrightarrow>
   tb_extends sim_view tb tb' \<and> list_all2 (status_true sim_view tb tb') ts ss"
proof (induction ts arbitrary: tb ss)
  case (Cons t ts)
  obtain s tb1 where one: "sim_step t tb = (s, tb1)" by fastforce
  obtain ss1 where rest: "sim_steps ts tb1 = (ss1, tb')" and ss: "ss = s # ss1"
    using Cons.prems one by (auto split: prod.splits)
  note r = Cons.IH [OF rest] and o = sim_step_ok [OF one]
  have "list_all2 (status_true sim_view tb tb') ts ss1"
    using r o status_true_wider [where view = sim_view] list_all2_mono
    by (metis (mono_tags, lifting) tb_extends_refl)
  moreover have "status_true sim_view tb tb' t s"
    using status_true_wider [of sim_view tb tb1 t s tb tb'] o r by simp
  ultimately show ?case using ss o r tb_extends_trans by auto
qed simp

lemma sim_contract: "tb_contract sim_client sim_view"
  by (auto simp: tb_contract_def sim_client_def sim_view_def find_Some_iff Let_def
      split: prod.splits dest!: sim_steps_ok)

definition sim_service :: "sim service" where
  "sim_service = \<lparr>sv_client = sim_client, sv_ledger = 1, sv_code = 1\<rparr>"

text \<open>A hash and a parser for the witnesses: the identifier adds up the codes of the hexadecimal digits.\<close>

definition demo_hashing :: hashing where
  "demo_hashing = \<lparr>sha256 = (\<lambda>s. s), hex_to_u128 = (\<lambda>s. Some (of_nat (sum_list (map of_char s))))\<rparr>"

definition demo_pair :: pair_input where
  "demo_pair = \<lparr>pi_application = ''app-1'', pi_fee_ngn = 500, pi_cost_usd = 100,
     pi_cost_ngn = 155025, pi_rate = demo_confirmed, pi_ngn_debit = 1, pi_ngn_credit = 2,
     pi_usd_debit = 3, pi_usd_credit = 4, pi_ngn_ledger = 1, pi_usd_ledger = 2, pi_fee_code = 10,
     pi_cost_code = 11\<rparr>"

definition demo_legs :: pair_legs where
  "demo_legs = (case create_disbursement_pair demo_hashing sim_service demo_pair [] of
     (Inr legs, _) \<Rightarrow> legs)"

definition demo_settled :: sim where
  "demo_settled = snd (create_disbursement_pair demo_hashing sim_service demo_pair [])"

lemma demo_pair_created:
  "create_disbursement_pair demo_hashing sim_service demo_pair [] = (Inr demo_legs, demo_settled)"
  "create_disbursement_pair demo_hashing sim_service demo_pair demo_settled
     = (Inr demo_legs, demo_settled)"
  by code_simp+

lemma sim_service_contract: "tb_contract (sv_client sim_service) sim_view"
  by (simp add: sim_service_def sim_contract)

section \<open>Properties\<close>

text \<open>C6 A reported disbursement is on the ledger. When \<open>CreateDisbursementPair\<close> returns legs, on a
  first attempt or on a replay, the cluster holds the NGN fee transfer and the USD cost transfer of
  that application with exactly the accounts, amounts, ledgers and codes of the input, under the
  identifiers the legs report, and the rate was confirmed under dual control.\<close>

theorem disbursement_pair_is_settled:
  assumes "tb_contract (sv_client sv) view"
    and "create_disbursement_pair h sv inp tb = (Inr legs, tb')"
  shows "\<exists>fee cost. view tb' (pl_fee_id legs) = Some fee \<and> view tb' (pl_cost_id legs) = Some cost \<and>
    tr_debit fee = pi_ngn_debit inp \<and> tr_credit fee = pi_ngn_credit inp \<and>
    tr_amount fee = ucast (pi_fee_ngn inp) \<and> tr_ledger fee = pi_ngn_ledger inp \<and>
    tr_code fee = pi_fee_code inp \<and>
    tr_debit cost = pi_usd_debit inp \<and> tr_credit cost = pi_usd_credit inp \<and>
    tr_amount cost = ucast (pi_cost_usd inp) \<and> tr_ledger cost = pi_usd_ledger inp \<and>
    tr_code cost = pi_cost_code inp \<and>
    pi_fee_ngn inp \<noteq> 0 \<and> pi_cost_usd inp \<noteq> 0 \<and> rate_confirmed (pi_rate inp)"
proof -
  obtain ts where b: "build_disbursement_pair h inp = Inr (ts, legs)"
    and l: "legs_stored view tb' inp legs"
    using create_pair_stored [OF assms] by blast
  then show ?thesis
    using build_pair_Inr(4,10) [OF b]
    by (auto simp: legs_stored_def same_content_def fee_transfer_def cost_transfer_def
        zero_transfer_def)
qed

theorem disbursement_pair_is_settled_witness:
  "\<exists>fee cost. sim_view demo_settled (pl_fee_id demo_legs) = Some fee \<and>
     sim_view demo_settled (pl_cost_id demo_legs) = Some cost \<and>
     tr_amount fee = 500 \<and> tr_amount cost = 100"
  using disbursement_pair_is_settled [OF sim_service_contract demo_pair_created(1)]
  by (auto simp: demo_pair_def)

text \<open>An application is disbursed once. If two calls for the same application both succeed, whatever
  happened on the cluster in between and whatever each asked for, they report the same two
  transfers and they asked for the same accounts, amounts, ledgers and codes: the second moved no
  money.\<close>

theorem application_is_disbursed_once:
  assumes c: "tb_contract (sv_client sv) view"
    and one: "create_disbursement_pair h sv inp tb = (Inr legs, tb1)"
    and between: "tb_extends view tb1 tb2"
    and two: "create_disbursement_pair h sv inp' tb2 = (Inr legs', tb3)"
    and same: "pi_application inp' = pi_application inp"
  shows "pl_fee_id legs' = pl_fee_id legs \<and> pl_cost_id legs' = pl_cost_id legs \<and>
    view tb3 (pl_fee_id legs) = view tb1 (pl_fee_id legs) \<and>
    view tb3 (pl_cost_id legs) = view tb1 (pl_cost_id legs) \<and>
    fee_transfer inp' (pl_fee_id legs) = fee_transfer inp (pl_fee_id legs) \<and>
    cost_transfer inp' (pl_cost_id legs) = cost_transfer inp (pl_cost_id legs)"
proof -
  obtain ts ts' where b: "build_disbursement_pair h inp = Inr (ts, legs)"
    and b': "build_disbursement_pair h inp' = Inr (ts', legs')"
    and l: "legs_stored view tb1 inp legs" and l': "legs_stored view tb3 inp' legs'"
    using create_pair_stored [OF c one] create_pair_stored [OF c two] by blast
  have ids: "pl_fee_id legs' = pl_fee_id legs" "pl_cost_id legs' = pl_cost_id legs"
    using build_pair_Inr(2,3) [OF b] build_pair_Inr(2,3) [OF b'] same by simp_all
  have "tb_extends view tb2 tb3" using create_pair_extends [OF c two] .
  then have ext: "tb_extends view tb1 tb3" by (rule tb_extends_trans [OF between])
  obtain fee cost where v: "view tb1 (pl_fee_id legs) = Some fee"
    "view tb1 (pl_cost_id legs) = Some cost"
    "same_content fee (fee_transfer inp (pl_fee_id legs))"
    "same_content cost (cost_transfer inp (pl_cost_id legs))"
    using l unfolding legs_stored_def by blast
  have v': "view tb3 (pl_fee_id legs) = Some fee" "view tb3 (pl_cost_id legs) = Some cost"
    using tb_extendsD [OF ext] v(1,2) by simp_all
  then have "same_content fee (fee_transfer inp' (pl_fee_id legs))"
    "same_content cost (cost_transfer inp' (pl_cost_id legs))"
    using l' unfolding legs_stored_def ids by auto
  then show ?thesis
    using v v' ids by (simp add: same_content_def fee_transfer_def cost_transfer_def zero_transfer_def)
qed

theorem application_is_disbursed_once_witness:
  "fee_transfer demo_pair (pl_fee_id demo_legs) = fee_transfer demo_pair (pl_fee_id demo_legs) \<and>
   sim_view demo_settled (pl_fee_id demo_legs) \<noteq> None"
  using application_is_disbursed_once [OF sim_service_contract demo_pair_created(1) tb_extends_refl
      demo_pair_created(2) refl]
    create_pair_stored [OF sim_service_contract demo_pair_created(1)]
  by (auto simp: legs_stored_def)

text \<open>C35 A post settles nothing. Whenever \<open>Post\<close> reports success, the posting transfer on the cluster
  carries the amount zero: the request leaves \<open>Amount\<close> at zero, and the cluster takes the amount of
  a post literally.\<close>

theorem successful_post_settles_zero:
  assumes "tb_contract (sv_client sv) view"
    and "service_post sv post_id pending_id tb = (Inr (), tb')"
  shows "\<exists>s. view tb' post_id = Some s \<and> tr_pending s = pending_id \<and> tr_amount s = 0"
proof -
  let ?t = "post_request sv post_id pending_id"
  have "create_transfer sv ?t tb = (Inr (), tb')"
    using assms(2) by (simp add: service_post_def split: if_splits)
  moreover have t: "tr_id ?t = post_id" "tr_pending ?t = pending_id" "tr_amount ?t = 0"
    "fl_post (tr_flags ?t)"
    by (simp_all add: post_request_def zero_transfer_def)
  ultimately obtain s where s: "view tb' post_id = Some s" "records ?t s \<or> same_content s ?t"
    using create_transfer_result [OF assms(1)] by metis
  then have "tr_pending s = pending_id \<and> tr_amount s = 0"
    using t by (auto simp: records_def same_content_def)
  then show ?thesis using s(1) by blast
qed

text \<open>The cluster of the witnesses with one reservation of 900.\<close>

definition demo_reserved :: sim where
  "demo_reserved = snd (service_reserve sim_service 7 1 2 900 60 [])"

theorem successful_post_settles_zero_witness:
  "\<exists>s. sim_view (snd (service_post sim_service 8 7 demo_reserved)) 8 = Some s \<and>
     tr_pending s = 7 \<and> tr_amount s = 0"
proof (rule successful_post_settles_zero [OF sim_service_contract])
  show "service_post sim_service 8 7 demo_reserved =
    (Inr (), snd (service_post sim_service 8 7 demo_reserved))" by code_simp
qed

text \<open>C31 A post cannot be replayed. Once the posting transfer is on the cluster, no further \<open>Post\<close> of
  the same pair succeeds: the stored record carries the accounts of the reservation, the retry
  carries none, and the comparison of the two reports a conflict although nothing diverges.\<close>

theorem post_replay_is_a_conflict:
  assumes c: "tb_contract (sv_client sv) view"
    and stored: "view tb post_id = Some s" "tr_debit s \<noteq> 0"
  shows "fst (service_post sv post_id pending_id tb) \<noteq> Inr ()"
proof
  let ?t = "post_request sv post_id pending_id"
  assume "fst (service_post sv post_id pending_id tb) = Inr ()"
  then obtain tb' where "create_transfer sv ?t tb = (Inr (), tb')"
    by (cases "service_post sv post_id pending_id tb") (auto simp: service_post_def split: if_splits)
  moreover have t: "tr_id ?t = post_id" "tr_debit ?t = 0"
    by (simp_all add: post_request_def zero_transfer_def)
  ultimately obtain r where e: "tb_extends view tb tb'" and r: "view tb' post_id = Some r"
    "view tb post_id = None \<or> same_content r ?t"
    using create_transfer_result [OF c] by metis
  then have "r = s" using stored(1) tb_extendsD [OF e] by fastforce
  then show False using r(2) stored t(2) by (simp add: same_content_def)
qed

theorem post_replay_is_a_conflict_witness:
  "fst (service_post sim_service 8 7 (snd (service_post sim_service 8 7 demo_reserved))) \<noteq> Inr ()"
proof (rule post_replay_is_a_conflict [OF sim_service_contract])
  show "sim_view (snd (service_post sim_service 8 7 demo_reserved)) 8 =
    Some (the (sim_view (snd (service_post sim_service 8 7 demo_reserved)) 8))" by code_simp
  show "tr_debit (the (sim_view (snd (service_post sim_service 8 7 demo_reserved)) 8)) \<noteq> 0"
    by code_simp
qed

end
