(* ===== verification/Intent_Port.thy ===== *)
theory Intent_Port
  imports Intent_Props
begin

text \<open>
  The persistence boundary of \<open>internal/orchestration\<close>: \<open>IntentStore\<close> and \<open>ResolutionStore\<close> as
  locales, and their implementation by the PostgreSQL store. A law speaks of a world that is
  \<open>steady\<close> for a predicate on intents: every stored row has it and the transactions of other
  processes keep it.
\<close>

record 'w intent_store =
  is_get :: "string \<Rightarrow> 'w \<Rightarrow> (intent_error + intent) \<times> 'w"
  is_transition :: "string \<Rightarrow> int \<Rightarrow> intent_state \<Rightarrow> 'w \<Rightarrow> (intent_error + intent) \<times> 'w"

record 'w resolution_store =
  rs_get :: "string \<Rightarrow> 'w \<Rightarrow> (intent_error + intent) \<times> 'w"
  rs_resolve :: "string \<Rightarrow> int \<Rightarrow> string \<Rightarrow> resolution \<Rightarrow> 'w \<Rightarrow> (intent_error + intent) \<times> 'w"

locale intent_store_port =
  fixes store :: "'w intent_store"
    and row :: "'w \<Rightarrow> string \<Rightarrow> intent option"
    and steady :: "(intent \<Rightarrow> bool) \<Rightarrow> 'w \<Rightarrow> bool"
  assumes get_row: "steady Q w \<Longrightarrow> is_get store k w = (Inr x, w') \<Longrightarrow> row w k = Some x \<and> rq_id x = k \<and> Q x"
    and get_steady: "steady Q w \<Longrightarrow> is_get store k w = (r, w') \<Longrightarrow> steady Q w'"
    and transition_row: "steady Q w \<Longrightarrow> is_transition store k v s w = (Inr x, w') \<Longrightarrow>
      row w' k = Some x \<and> rq_id x = k \<and> it_state x = s \<and> it_version x = v + 1"
    and transition_steady: "steady Q w \<Longrightarrow>
      (\<And>x. rq_id x = k \<Longrightarrow> it_state x = s \<Longrightarrow> Q x) \<Longrightarrow>
      is_transition store k v s w = (r, w') \<Longrightarrow> steady Q w'"

locale resolution_store_port =
  fixes resolver_store :: "'w resolution_store"
    and row :: "'w \<Rightarrow> string \<Rightarrow> intent option"
    and steady :: "(intent \<Rightarrow> bool) \<Rightarrow> 'w \<Rightarrow> bool"
  assumes r_get_row: "steady Q w \<Longrightarrow> rs_get resolver_store k w = (Inr x, w') \<Longrightarrow>
      row w k = Some x \<and> rq_id x = k \<and> Q x"
    and r_get_steady: "steady Q w \<Longrightarrow> rs_get resolver_store k w = (r, w') \<Longrightarrow> steady Q w'"
    and resolve_row: "steady Q w \<Longrightarrow> rs_resolve resolver_store k v off res w = (Inr x, w') \<Longrightarrow>
      row w' k = Some x \<and> rq_id x = k \<and> it_version x = v + 1 \<and>
      (res = ResolutionReconcile \<and> it_state x = StateReconciliationRequired \<or>
       res = ResolutionVoid \<and> it_state x = StateVoided)"
    and resolve_steady: "steady Q w \<Longrightarrow>
      (\<And>x. rq_id x = k \<Longrightarrow> it_state x = StateReconciliationRequired \<or> it_state x = StateVoided \<Longrightarrow> Q x) \<Longrightarrow>
      rs_resolve resolver_store k v off res w = (r, w') \<Longrightarrow> steady Q w'"

section \<open>The PostgreSQL store as the port\<close>

definition rows_satisfy :: "(intent \<Rightarrow> bool) \<Rightarrow> intent_db \<Rightarrow> bool" where
  "rows_satisfy Q d \<longleftrightarrow> intent_db_ok d \<and> (\<forall>r \<in> set (intents d). Q r)"

definition steady_world :: "(intent \<Rightarrow> bool) \<Rightarrow> intent_db world \<Rightarrow> bool" where
  "steady_world Q w \<longleftrightarrow> rows_satisfy Q (w_db w) \<and>
     (\<forall>n. env_keeps intent_db_ok (w_sched w n) \<and> env_keeps (rows_satisfy Q) (w_sched w n))"

definition world_row :: "intent_db world \<Rightarrow> string \<Rightarrow> intent option" where
  "world_row w k = sql_row (\<lambda>r. rq_id r = k) (intents (w_db w))"

definition world_get :: "string \<Rightarrow> intent_db world \<Rightarrow> (intent_error + intent) \<times> intent_db world" where
  "world_get k = in_world (\<lambda>e d. (store_get e k d, d))"

definition pg_intent_store :: "intent_db world intent_store" where
  "pg_intent_store = \<lparr>is_get = world_get,
     is_transition = (\<lambda>k v s. in_world (\<lambda>e. store_transition e k v s))\<rparr>"

definition pg_resolution_store :: "intent_db world resolution_store" where
  "pg_resolution_store = \<lparr>rs_get = world_get,
     rs_resolve = (\<lambda>k v off res. in_world (\<lambda>e. store_resolve_ambiguous e k v off res))\<rparr>"

lemma rows_satisfy_update:
  assumes ok: "rows_satisfy Q d" and keeps: "env_keeps (rows_satisfy Q) e"
    and inv: "intent_db_ok (snd (update_tx e b l c p extra k s v t payload d))"
    and Q: "\<And>x. rq_id x = k \<Longrightarrow> it_state x = fst (snd p) \<Longrightarrow> Q x"
  shows "rows_satisfy Q (snd (update_tx e b l c p extra k s v t payload d))"
proof -
  have o: "rows_satisfy Q (env_other e d)" using keeps ok by (rule env_keepsD)
  have "\<forall>r \<in> set (intents (snd (update_tx e b l c p extra k s v t payload d))). Q r"
    unfolding update_tx_def
  proof (rule run_tx_inv [where P = "\<lambda>d. \<forall>r \<in> set (intents d). Q r"])
    fix a d'
    assume "and_then (update_intent e l p extra k s v (env_other e d)) (\<lambda>(updated, d1).
       and_then (append_event_payload e (rq_id updated) t (payload updated) d1) (\<lambda>d2.
       Inr (updated, d2))) = Inr (a, d')"
    then obtain r ev where u: "committed_update (env_other e d) d' r p ev" "rq_id r = k"
      by (rule update_body_effect)
    then show "\<forall>r \<in> set (intents d'). Q r"
      using o Q by (cases p) (auto simp: committed_update_def set_sql_update rows_satisfy_def)
  qed (use o in \<open>simp add: rows_satisfy_def\<close>)
  then show ?thesis using inv by (simp add: rows_satisfy_def)
qed

lemma steady_after:
  "steady_world Q w \<Longrightarrow> in_world call w = (r, w') \<Longrightarrow>
   rows_satisfy Q (snd (call (w_sched w (w_tick w)) (w_db w))) \<Longrightarrow> steady_world Q w'"
  by (auto simp: steady_world_def in_world_iff)

lemma world_get_Inr:
  assumes "steady_world Q w" and "world_get k w = (Inr x, w')"
  shows "world_row w k = Some x \<and> rq_id x = k \<and> Q x"
  using assms
  by (auto simp: world_get_def in_world_iff world_row_def steady_world_def rows_satisfy_def
      store_get_def stmt_Inr_iff dest!: sql_row_Some split: option.splits)

lemma world_get_steady: "steady_world Q w \<Longrightarrow> world_get k w = (r, w') \<Longrightarrow> steady_world Q w'"
  unfolding world_get_def
  using steady_after [of Q w "\<lambda>e d. (store_get e k d, d)" r w'] by (simp add: steady_world_def)

lemma transition_call_row:
  assumes w: "steady_world Q w" and run: "in_world (\<lambda>e. store_transition e k v s) w = (Inr x, w')"
  shows "world_row w' k = Some x \<and> rq_id x = k \<and> it_state x = s \<and> it_version x = v + 1"
proof -
  let ?e = "w_sched w (w_tick w)"
  have st: "store_transition ?e k v s (w_db w) = (Inr x, w_db w')"
    using run by (auto simp: in_world_iff)
  then obtain from_state where "update_tx ?e ''begin transition'' ''transition financial intent''
      ''commit state change'' (None, s, env_now ?e) (\<lambda>_. True) k from_state v
      ''financial_intent.state_changed'' Intent_Event (w_db w) = (Inr x, w_db w')"
    using that by (auto simp: store_transition_def split: sum.splits if_splits)
  then obtain r ev where u: "committed_update (env_other ?e (w_db w)) (w_db w') r (None, s, env_now ?e) ev"
    and r: "rq_id r = k" "it_version r = v" "x = patch_intent (None, s, env_now ?e) r"
    by (rule update_tx_effect)
  have "intent_db_ok (w_db w')"
    using w store_transition_ok [of "w_db w" ?e k v s] st
    by (simp add: steady_world_def rows_satisfy_def)
  then have "sql_row (\<lambda>y. rq_id y = rq_id x) (intents (w_db w')) = Some x"
    using u r by (intro sql_row_key) (auto simp: intent_db_ok_def committed_update_def set_sql_update)
  then show ?thesis using r by (simp add: world_row_def)
qed

lemma transition_call_steady:
  assumes w: "steady_world Q w" and Q: "\<And>x. rq_id x = k \<Longrightarrow> it_state x = s \<Longrightarrow> Q x"
    and run: "in_world (\<lambda>e. store_transition e k v s) w = (r, w')"
  shows "steady_world Q w'"
proof (rule steady_after [OF w run])
  let ?e = "w_sched w (w_tick w)" and ?d = "w_db w"
  have ok: "rows_satisfy Q ?d" "env_keeps (rows_satisfy Q) ?e"
    and inv: "intent_db_ok (snd (store_transition ?e k v s ?d))"
    using w store_transition_ok by (auto simp: steady_world_def rows_satisfy_def)
  show "rows_satisfy Q (snd (store_transition ?e k v s ?d))"
    using inv unfolding store_transition_def
    by (auto simp: ok intro!: rows_satisfy_update [OF ok] split: sum.splits if_splits) (rule Q; simp)
qed

lemma resolve_call_row:
  assumes w: "steady_world Q w"
    and run: "in_world (\<lambda>e. store_resolve_ambiguous e k v off res) w = (Inr x, w')"
  shows "world_row w' k = Some x \<and> rq_id x = k \<and> it_version x = v + 1 \<and>
    (res = ResolutionReconcile \<and> it_state x = StateReconciliationRequired \<or>
     res = ResolutionVoid \<and> it_state x = StateVoided)"
proof -
  let ?e = "w_sched w (w_tick w)"
  have st: "store_resolve_ambiguous ?e k v off res (w_db w) = (Inr x, w_db w')"
    using run by (auto simp: in_world_iff)
  then obtain s where "update_tx ?e ''begin officer resolution'' ''resolve ambiguous financial intent''
      ''commit officer resolution'' (None, s, env_now ?e) (\<lambda>_. True) k StateAmbiguous v
      ''financial_intent.officer_resolved'' (\<lambda>u. Officer_Resolution_Event u off res) (w_db w)
      = (Inr x, w_db w')"
    and s: "res = ResolutionReconcile \<and> s = StateReconciliationRequired \<or>
       res = ResolutionVoid \<and> s = StateVoided"
    by (auto simp: store_resolve_ambiguous_def resolve_ambiguous_Inr_iff split: sum.splits)
  then obtain r ev where u: "committed_update (env_other ?e (w_db w)) (w_db w') r (None, s, env_now ?e) ev"
    and r: "rq_id r = k" "it_version r = v" "x = patch_intent (None, s, env_now ?e) r"
    by (auto elim: update_tx_effect)
  have "intent_db_ok (w_db w')"
    using w store_resolve_ambiguous_ok [of "w_db w" ?e k v off res] st
    by (simp add: steady_world_def rows_satisfy_def)
  then have "sql_row (\<lambda>y. rq_id y = rq_id x) (intents (w_db w')) = Some x"
    using u r by (intro sql_row_key) (auto simp: intent_db_ok_def committed_update_def set_sql_update)
  then show ?thesis using r s by (auto simp: world_row_def)
qed

lemma resolve_call_steady:
  assumes w: "steady_world Q w"
    and Q: "\<And>x. rq_id x = k \<Longrightarrow> it_state x = StateReconciliationRequired \<or> it_state x = StateVoided \<Longrightarrow> Q x"
    and run: "in_world (\<lambda>e. store_resolve_ambiguous e k v off res) w = (r, w')"
  shows "steady_world Q w'"
proof (rule steady_after [OF w run])
  let ?e = "w_sched w (w_tick w)" and ?d = "w_db w"
  have ok: "rows_satisfy Q ?d" "env_keeps (rows_satisfy Q) ?e"
    and inv: "intent_db_ok (snd (store_resolve_ambiguous ?e k v off res ?d))"
    using w store_resolve_ambiguous_ok by (auto simp: steady_world_def rows_satisfy_def)
  show "rows_satisfy Q (snd (store_resolve_ambiguous ?e k v off res ?d))"
  proof (cases "store_get ?e k ?d")
    case (Inr cur)
    show ?thesis
    proof (cases "resolve_ambiguous cur v off res")
      case (Inr i)
      then have "it_state i = StateReconciliationRequired \<or> it_state i = StateVoided"
        by (auto simp: resolve_ambiguous_Inr_iff)
      then show ?thesis
        using inv \<open>store_get ?e k ?d = Inr cur\<close> Inr
        by (auto simp: store_resolve_ambiguous_def intro!: rows_satisfy_update [OF ok] Q)
    qed (simp add: store_resolve_ambiguous_def \<open>store_get ?e k ?d = Inr cur\<close> ok)
  qed (simp add: store_resolve_ambiguous_def ok)
qed

interpretation pg_intents: intent_store_port pg_intent_store world_row steady_world
  by unfold_locales
    (auto simp: pg_intent_store_def dest: world_get_Inr transition_call_row
      intro: world_get_steady transition_call_steady)

interpretation pg_resolutions: resolution_store_port pg_resolution_store world_row steady_world
  by unfold_locales
    (auto simp: pg_resolution_store_def dest: world_get_Inr resolve_call_row
      intro: world_get_steady resolve_call_steady)

end
