(* ===== verification/Orchestrator.thy ===== *)
theory Orchestrator
  imports Intent_Port Ledger_Props
begin

text \<open>
  \<open>internal/orchestration\<close>: the orchestrator, which moves an intent and its two-phase transfer
  together, and the resolver of officer dispositions. The state is the pair of the intent store's
  world and the cluster. Go's \<open>reconcile\<close> returns the updated intent together with an error; here
  the error \<open>Parked\<close> carries it.
\<close>

datatype orch_error =
  ErrIntentNotReady
| Store_Failed intent_error
| Parked string intent
| Park_Failed string intent_error
| Ledger_Failed string ledger_error
| Orch_Panic ledger_error

record ('w, 'tb) orchestrator =
  oc_store :: "'w intent_store"
  oc_hash :: hashing
  oc_ledger :: "'tb service"
  oc_timeout :: u32

record ('w, 'tb) resolver =
  re_store :: "'w resolution_store"
  re_hash :: hashing
  re_ledger :: "'tb service"

definition new_orchestrator ::
  "hashing \<Rightarrow> 'w intent_store option \<Rightarrow> 'tb service option \<Rightarrow> u32 \<Rightarrow> string + ('w, 'tb) orchestrator"
  where
  "new_orchestrator h store ledger timeout =
     (case store of
        None \<Rightarrow> Inl ''intent store is required''
      | Some st \<Rightarrow>
          (case ledger of
             None \<Rightarrow> Inl ''TigerBeetle ledger service is required''
           | Some sv \<Rightarrow>
               if timeout = 0 then Inl ''pending timeout must be non-zero''
               else Inr \<lparr>oc_store = st, oc_hash = h, oc_ledger = sv, oc_timeout = timeout\<rparr>))"

definition new_resolver ::
  "hashing \<Rightarrow> 'w resolution_store option \<Rightarrow> 'tb service option \<Rightarrow> string + ('w, 'tb) resolver" where
  "new_resolver h store ledger =
     (case store of
        None \<Rightarrow> Inl ''intent store is required''
      | Some st \<Rightarrow>
          (case ledger of
             None \<Rightarrow> Inl ''TigerBeetle ledger service is required''
           | Some sv \<Rightarrow> Inr \<lparr>re_store = st, re_hash = h, re_ledger = sv\<rparr>))"

section \<open>Calls on the two halves of the state\<close>

type_synonym ('w, 'tb) both = "'w \<times> 'tb"

definition at_store ::
  "('w \<Rightarrow> (intent_error + 'a) \<times> 'w) \<Rightarrow> ('w, 'tb) both \<Rightarrow> (orch_error + 'a) \<times> ('w, 'tb) both" where
  "at_store f s = (case f (fst s) of
     (Inl e, w) \<Rightarrow> (Inl (Store_Failed e), (w, snd s)) | (Inr a, w) \<Rightarrow> (Inr a, (w, snd s)))"

definition at_ledger ::
  "('tb \<Rightarrow> ('e + 'a) \<times> 'tb) \<Rightarrow> ('w, 'tb) both \<Rightarrow> ('e + 'a) \<times> ('w, 'tb) both" where
  "at_ledger f s = (let (r, tb) = f (snd s) in (r, (fst s, tb)))"

lemma at_store_Inr: "at_store f s = (Inr a, s') \<longleftrightarrow> f (fst s) = (Inr a, fst s') \<and> snd s' = snd s"
  by (cases s') (auto simp: at_store_def split: prod.splits sum.splits)

lemma at_store_Inl:
  "at_store f s = (Inl x, s') \<longleftrightarrow>
     (\<exists>e. f (fst s) = (Inl e, fst s') \<and> x = Store_Failed e) \<and> snd s' = snd s"
  by (cases s') (auto simp: at_store_def split: prod.splits sum.splits)

lemma at_ledger_iff: "at_ledger f s = (r, s') \<longleftrightarrow> f (snd s) = (r, snd s') \<and> fst s' = fst s"
  by (cases s') (auto simp: at_ledger_def split: prod.splits)

section \<open>Identifiers\<close>

definition parse_id :: "hashing \<Rightarrow> string \<Rightarrow> u128 option" where
  "parse_id h v = (case hex_to_u128 h v of
     None \<Rightarrow> None | Some i \<Rightarrow> if i = 0 then None else Some i)"

definition deterministic_id :: "hashing \<Rightarrow> string \<Rightarrow> string \<Rightarrow> ledger_error + u128" where
  "deterministic_id h namespace intent_id =
     (case hex_to_u128 h (hex_encode (take 16 (sha256 h (namespace @ '':'' @ intent_id)))) of
        None \<Rightarrow> Inl (Ledger_Panic ''deterministic TigerBeetle ID encoding failed'')
      | Some i \<Rightarrow> Inr i)"

definition pending_transfer_id :: "hashing \<Rightarrow> string \<Rightarrow> ledger_error + u128" where
  "pending_transfer_id h k = deterministic_id h ''pending'' k"

definition post_transfer_id :: "hashing \<Rightarrow> string \<Rightarrow> ledger_error + u128" where
  "post_transfer_id h k = deterministic_id h ''post'' k"

definition void_transfer_id :: "hashing \<Rightarrow> string \<Rightarrow> ledger_error + u128" where
  "void_transfer_id h k = deterministic_id h ''void'' k"

text \<open>A panic of the encoding ends the call.\<close>

definition with_id ::
  "(ledger_error + u128) \<Rightarrow> (u128 \<Rightarrow> 's \<Rightarrow> (orch_error + 'a) \<times> 's) \<Rightarrow> 's \<Rightarrow> (orch_error + 'a) \<times> 's"
  where
  "with_id r k s = (case r of Inl e \<Rightarrow> (Inl (Orch_Panic e), s) | Inr i \<Rightarrow> k i s)"

lemma with_id_simps [simp]:
  "with_id (Inl e) k s = (Inl (Orch_Panic e), s)" "with_id (Inr i) k s = k i s"
  by (simp_all add: with_id_def)

section \<open>The orchestrator\<close>

definition orch_reconcile ::
  "('w, 'tb) orchestrator \<Rightarrow> intent \<Rightarrow> string \<Rightarrow> ('w, 'tb) both \<Rightarrow> (orch_error + intent) \<times> ('w, 'tb) both"
  where
  "orch_reconcile oc current cause s =
     (case is_transition (oc_store oc) (rq_id current) (it_version current)
             StateReconciliationRequired (fst s) of
        (Inl e, w) \<Rightarrow> (Inl (Park_Failed cause e), (w, snd s))
      | (Inr updated, w) \<Rightarrow> (Inl (Parked cause updated), (w, snd s)))"

text \<open>A step that failed with a cause parks the intent; otherwise the call goes on.\<close>

definition or_reconcile ::
  "('w, 'tb) orchestrator \<Rightarrow> intent \<Rightarrow> (string + unit) \<times> ('w, 'tb) both
     \<Rightarrow> (('w, 'tb) both \<Rightarrow> (orch_error + intent) \<times> ('w, 'tb) both)
     \<Rightarrow> (orch_error + intent) \<times> ('w, 'tb) both" where
  "or_reconcile oc current r k =
     (case r of (Inl cause, s) \<Rightarrow> orch_reconcile oc current cause s | (Inr _, s) \<Rightarrow> k s)"

text \<open>Look a transfer up and refuse when the lookup fails or finds it.\<close>

definition require_absent ::
  "'tb service \<Rightarrow> u128 \<Rightarrow> string \<Rightarrow> string \<Rightarrow> ('w, 'tb) both \<Rightarrow> (string + unit) \<times> ('w, 'tb) both" where
  "require_absent sv i lookup_cause found_cause s =
     (case at_ledger (lookup_transfer sv i) s of
        (Inl _, s') \<Rightarrow> (Inl lookup_cause, s')
      | (Inr None, s') \<Rightarrow> (Inr (), s')
      | (Inr (Some _), s') \<Rightarrow> (Inl found_cause, s'))"

text \<open>Look a transfer up and create it when it is not there.\<close>

definition ensure_transfer ::
  "'tb service \<Rightarrow> u128 \<Rightarrow> string \<Rightarrow> ('tb \<Rightarrow> (ledger_error + unit) \<times> 'tb) \<Rightarrow> string
     \<Rightarrow> ('w, 'tb) both \<Rightarrow> (string + unit) \<times> ('w, 'tb) both" where
  "ensure_transfer sv i lookup_cause op op_cause s =
     (case at_ledger (lookup_transfer sv i) s of
        (Inl _, s') \<Rightarrow> (Inl lookup_cause, s')
      | (Inr (Some _), s') \<Rightarrow> (Inr (), s')
      | (Inr None, s') \<Rightarrow>
          (case at_ledger op s' of
             (Inl _, s'') \<Rightarrow> (Inl op_cause, s'') | (Inr _, s'') \<Rightarrow> (Inr (), s'')))"

text \<open>The last step of the three operations: record the new state, or park the intent.\<close>

definition record_state ::
  "('w, 'tb) orchestrator \<Rightarrow> intent \<Rightarrow> intent_state \<Rightarrow> string \<Rightarrow> ('w, 'tb) both
     \<Rightarrow> (orch_error + intent) \<times> ('w, 'tb) both" where
  "record_state oc current next cause s =
     (case at_store (is_transition (oc_store oc) (rq_id current) (it_version current) next) s of
        (Inl _, s') \<Rightarrow> orch_reconcile oc current cause s'
      | (Inr updated, s') \<Rightarrow> (Inr updated, s'))"

definition reserve_requested ::
  "('w, 'tb) orchestrator \<Rightarrow> intent \<Rightarrow> ('w, 'tb) both \<Rightarrow> (orch_error + intent) \<times> ('w, 'tb) both" where
  "reserve_requested oc requested s =
     (case parse_id (oc_hash oc) (rq_debit requested) of
        None \<Rightarrow> orch_reconcile oc requested ''debit account ID'' s
      | Some debit \<Rightarrow>
          (case parse_id (oc_hash oc) (rq_credit requested) of
             None \<Rightarrow> orch_reconcile oc requested ''credit account ID'' s
           | Some credit \<Rightarrow>
               with_id (deterministic_id (oc_hash oc) ''pending'' (rq_id requested)) (\<lambda>i s1.
                 or_reconcile oc requested
                   (ensure_transfer (oc_ledger oc) i ''lookup pending transfer''
                      (service_reserve (oc_ledger oc) i debit credit (rq_amount requested)
                         (oc_timeout oc))
                      ''reserve pending transfer'' s1)
                   (record_state oc requested StateReserved ''record reserved state'')) s))"

definition reserve_approved ::
  "('w, 'tb) orchestrator \<Rightarrow> string \<Rightarrow> ('w, 'tb) both \<Rightarrow> (orch_error + intent) \<times> ('w, 'tb) both" where
  "reserve_approved oc intent_id s =
     on_ok (at_store (is_get (oc_store oc) intent_id) s) (\<lambda>current s1.
       if it_state current = StateReserved \<or> it_state current = StatePosted then (Inr current, s1)
       else if it_state current \<noteq> StateApproved then (Inl ErrIntentNotReady, s1)
       else on_ok (at_store (is_transition (oc_store oc) (rq_id current) (it_version current)
                     StateReservationRequested) s1) (reserve_requested oc))"

definition post_reserved ::
  "('w, 'tb) orchestrator \<Rightarrow> string \<Rightarrow> ('w, 'tb) both \<Rightarrow> (orch_error + intent) \<times> ('w, 'tb) both" where
  "post_reserved oc intent_id s =
     on_ok (at_store (is_get (oc_store oc) intent_id) s) (\<lambda>current s1.
       if it_state current = StatePosted then (Inr current, s1)
       else if it_state current \<noteq> StateReserved then (Inl ErrIntentNotReady, s1)
       else with_id (pending_transfer_id (oc_hash oc) (rq_id current)) (\<lambda>pending_id.
            with_id (post_transfer_id (oc_hash oc) (rq_id current)) (\<lambda>post_id.
            with_id (void_transfer_id (oc_hash oc) (rq_id current)) (\<lambda>void_id s2.
              or_reconcile oc current
                (require_absent (oc_ledger oc) void_id ''lookup void transfer''
                   ''pending transfer is already voided'' s2) (\<lambda>s3.
              or_reconcile oc current
                (ensure_transfer (oc_ledger oc) post_id ''lookup post transfer''
                   (service_post (oc_ledger oc) post_id pending_id) ''post pending transfer'' s3)
                (record_state oc current StatePosted ''record posted state''))))) s1)"

definition void_reserved ::
  "('w, 'tb) orchestrator \<Rightarrow> string \<Rightarrow> ('w, 'tb) both \<Rightarrow> (orch_error + intent) \<times> ('w, 'tb) both" where
  "void_reserved oc intent_id s =
     on_ok (at_store (is_get (oc_store oc) intent_id) s) (\<lambda>current s1.
       if it_state current = StateVoided then (Inr current, s1)
       else if it_state current \<noteq> StateReserved then (Inl ErrIntentNotReady, s1)
       else with_id (pending_transfer_id (oc_hash oc) (rq_id current)) (\<lambda>pending_id.
            with_id (post_transfer_id (oc_hash oc) (rq_id current)) (\<lambda>post_id.
            with_id (void_transfer_id (oc_hash oc) (rq_id current)) (\<lambda>void_id s2.
              or_reconcile oc current
                (require_absent (oc_ledger oc) post_id ''lookup post transfer''
                   ''pending transfer is already posted'' s2) (\<lambda>s3.
              or_reconcile oc current
                (ensure_transfer (oc_ledger oc) void_id ''lookup void transfer''
                   (service_void (oc_ledger oc) void_id pending_id) ''void pending transfer'' s3)
                (record_state oc current StateVoided ''record voided state''))))) s1)"

definition lookup_observed ::
  "('w, 'tb) orchestrator \<Rightarrow> u128 \<Rightarrow> ('w, 'tb) both \<Rightarrow> (orch_error + bool) \<times> ('w, 'tb) both" where
  "lookup_observed oc i s =
     (case at_ledger (lookup_transfer (oc_ledger oc) i) s of
        (Inl e, s') \<Rightarrow> (Inl (Ledger_Failed ''lookup observed TigerBeetle transfer'' e), s')
      | (Inr found, s') \<Rightarrow> (Inr (found \<noteq> None), s'))"

definition observed_state :: "bool \<Rightarrow> bool \<Rightarrow> bool \<Rightarrow> intent_state" where
  "observed_state pending_found post_found void_found =
     (if post_found \<and> \<not> void_found then StatePosted
      else if void_found \<and> \<not> post_found then StateVoided
      else if pending_found \<and> \<not> post_found \<and> \<not> void_found then StateReserved
      else StateAmbiguous)"

definition reconcile_observed ::
  "('w, 'tb) orchestrator \<Rightarrow> string \<Rightarrow> ('w, 'tb) both \<Rightarrow> (orch_error + intent) \<times> ('w, 'tb) both" where
  "reconcile_observed oc intent_id s =
     on_ok (at_store (is_get (oc_store oc) intent_id) s) (\<lambda>current s1.
       if it_state current \<noteq> StateReconciliationRequired then (Inl ErrIntentNotReady, s1)
       else with_id (pending_transfer_id (oc_hash oc) (rq_id current)) (\<lambda>pending_id s2.
            on_ok (lookup_observed oc pending_id s2) (\<lambda>pending_found.
            with_id (post_transfer_id (oc_hash oc) (rq_id current)) (\<lambda>post_id s3.
            on_ok (lookup_observed oc post_id s3) (\<lambda>post_found.
            with_id (void_transfer_id (oc_hash oc) (rq_id current)) (\<lambda>void_id s4.
            on_ok (lookup_observed oc void_id s4) (\<lambda>void_found s5.
              at_store (is_transition (oc_store oc) (rq_id current) (it_version current)
                (observed_state pending_found post_found void_found)) s5)))))) s1)"

section \<open>The resolver\<close>

definition resolver_lookup ::
  "('w, 'tb) resolver \<Rightarrow> u128 \<Rightarrow> string \<Rightarrow> ('w, 'tb) both
     \<Rightarrow> (orch_error + transfer option) \<times> ('w, 'tb) both" where
  "resolver_lookup re i cause s = map_err (Ledger_Failed cause) (at_ledger (lookup_transfer (re_ledger re) i) s)"

definition release_reservation ::
  "('w, 'tb) resolver \<Rightarrow> u128 \<Rightarrow> u128 \<Rightarrow> ('w, 'tb) both \<Rightarrow> (orch_error + unit) \<times> ('w, 'tb) both" where
  "release_reservation re void_id pending_id s =
     on_ok (resolver_lookup re pending_id ''lookup pending transfer'' s) (\<lambda>pending_found s1.
     on_ok (resolver_lookup re void_id ''lookup void transfer'' s1) (\<lambda>void_found s2.
       if pending_found \<noteq> None \<and> void_found = None
       then map_err (Ledger_Failed ''void pending reservation'')
              (at_ledger (service_void (re_ledger re) void_id pending_id) s2)
       else (Inr (), s2)))"

definition resolver_resolve_ambiguous ::
  "('w, 'tb) resolver \<Rightarrow> string \<Rightarrow> int \<Rightarrow> string \<Rightarrow> resolution \<Rightarrow> ('w, 'tb) both
     \<Rightarrow> (orch_error + intent) \<times> ('w, 'tb) both" where
  "resolver_resolve_ambiguous re intent_id expected officer res s =
     (if res \<noteq> ResolutionReconcile \<and> res \<noteq> ResolutionVoid
      then (Inl (Store_Failed ErrInvalidResolution), s)
      else on_ok (at_store (rs_get (re_store re) intent_id) s) (\<lambda>current s1.
        if it_state current \<noteq> StateAmbiguous then (Inl (Store_Failed ErrInvalidState), s1)
        else if res = ResolutionReconcile
        then at_store (rs_resolve (re_store re) intent_id expected officer res) s1
        else with_id (deterministic_id (re_hash re) ''post'' intent_id) (\<lambda>post_id s2.
             on_ok (resolver_lookup re post_id ''lookup post transfer'' s2) (\<lambda>post_found s3.
               if post_found \<noteq> None then (Inl (Store_Failed ErrResolutionRejected), s3)
               else with_id (deterministic_id (re_hash re) ''pending'' intent_id) (\<lambda>pending_id.
                    with_id (deterministic_id (re_hash re) ''void'' intent_id) (\<lambda>void_id s4.
                      on_ok (release_reservation re void_id pending_id s4) (\<lambda>_.
                        at_store (rs_resolve (re_store re) intent_id expected officer res)))) s3)) s1))"

end
