(* ===== verification/Orchestrator_Inv.thy ===== *)
theory Orchestrator_Inv
  imports Orchestrator
begin

text \<open>
  What the orchestrator and the resolver guarantee: proved once over the store port, for every
  implementation of it, and instantiated with the PostgreSQL store. \<open>S\<close> stands for the transfers
  that are ever on the cluster; it covers what other processes create while a call runs.
\<close>

section \<open>Steps on the ledger\<close>

definition transfer_op :: "('tb \<Rightarrow> u128 \<Rightarrow> transfer option) \<Rightarrow> u128 \<Rightarrow> ('tb \<Rightarrow> (ledger_error + unit) \<times> 'tb) \<Rightarrow> bool"
  where
  "transfer_op view i op \<longleftrightarrow> (\<forall>tb r tb'. op tb = (r, tb') \<longrightarrow>
     tb_extends view tb tb' \<and> (r = Inr () \<longrightarrow> view tb' i \<noteq> None))"

lemma create_transfer_op:
  assumes c: "tb_contract (sv_client sv) view" and run: "create_transfer sv t tb = (r, tb')"
  shows "tb_extends view tb tb' \<and> (r = Inr () \<longrightarrow> view tb' (tr_id t) \<noteq> None)"
  using create_transfer_result [OF c run] by blast

lemma service_ops:
  assumes c: "tb_contract (sv_client sv) view"
  shows "transfer_op view i (service_reserve sv i d cr a n)"
    and "transfer_op view i (service_post sv i p)"
    and "transfer_op view i (service_void sv i p)"
proof -
  have ids: "tr_id (reserve_request sv i d cr a n) = i" "tr_id (post_request sv i p) = i"
    "tr_id (void_request sv i p) = i"
    by (simp_all add: reserve_request_def post_request_def void_request_def zero_transfer_def)
  note op = create_transfer_op [OF c]
  show "transfer_op view i (service_reserve sv i d cr a n)"
    using op [of "reserve_request sv i d cr a n", unfolded ids]
    by (auto simp: transfer_op_def service_reserve_def split: sum.splits if_splits)
  show "transfer_op view i (service_post sv i p)"
    using op [of "post_request sv i p", unfolded ids]
    by (auto simp: transfer_op_def service_post_def split: if_splits)
  show "transfer_op view i (service_void sv i p)"
    using op [of "void_request sv i p", unfolded ids]
    by (auto simp: transfer_op_def service_void_def split: if_splits)
qed

lemma at_lookup_result:
  assumes c: "tb_contract (sv_client sv) view" and run: "at_ledger (lookup_transfer sv i) s = (r, s')"
  shows "fst s' = fst s \<and> tb_extends view (snd s) (snd s') \<and> (\<forall>f. r = Inr f \<longrightarrow> f = view (snd s') i)"
  using run lookup_transfer_result [OF c, of i "snd s" r "snd s'"] by (simp add: at_ledger_iff)

lemma require_absent_result:
  assumes c: "tb_contract (sv_client sv) view" and run: "require_absent sv i a b s = (r, s')"
  shows "fst s' = fst s \<and> tb_extends view (snd s) (snd s') \<and> (r = Inr () \<longrightarrow> view (snd s') i = None)"
proof -
  obtain f t where l: "at_ledger (lookup_transfer sv i) s = (f, t)" by (rule prod.exhaust)
  show ?thesis using run at_lookup_result [OF c l]
    by (auto simp: require_absent_def l split: sum.splits option.splits)
qed

lemma ensure_transfer_result:
  assumes c: "tb_contract (sv_client sv) view" and op: "transfer_op view i op"
    and run: "ensure_transfer sv i a op b s = (r, s')"
  shows "fst s' = fst s \<and> tb_extends view (snd s) (snd s') \<and> (r = Inr () \<longrightarrow> view (snd s') i \<noteq> None)"
proof -
  obtain f t where l: "at_ledger (lookup_transfer sv i) s = (f, t)" by (rule prod.exhaust)
  obtain o' u where o: "at_ledger op t = (o', u)" by (rule prod.exhaust)
  note lr = at_lookup_result [OF c l]
  have or: "fst u = fst t" "tb_extends view (snd t) (snd u)" "o' = Inr () \<Longrightarrow> view (snd u) i \<noteq> None"
    using o op by (auto simp: at_ledger_iff transfer_op_def)
  have "tb_extends view (snd s) (snd u)"
    by (rule tb_extends_trans [of view _ "snd t"]) (use lr or in auto)
  then show ?thesis using run lr or
    by (auto simp: ensure_transfer_def l o split: sum.splits option.splits)
qed

section \<open>Evidence\<close>

definition backed :: "hashing \<Rightarrow> u128 set \<Rightarrow> intent \<Rightarrow> bool" where
  "backed h S x \<longleftrightarrow>
     (it_state x = StatePosted \<longrightarrow> (\<exists>i \<in> S. post_transfer_id h (rq_id x) = Inr i)) \<and>
     (it_state x = StateReserved \<longrightarrow> (\<exists>i \<in> S. pending_transfer_id h (rq_id x) = Inr i))"

definition on_cluster :: "('tb \<Rightarrow> u128 \<Rightarrow> transfer option) \<Rightarrow> 'tb \<Rightarrow> u128 set" where
  "on_cluster view tb = {i. view tb i \<noteq> None}"

lemma on_cluster_grows: "tb_extends view tb tb' \<Longrightarrow> on_cluster view tb \<subseteq> on_cluster view tb'"
  by (auto simp: on_cluster_def tb_extends_def)

datatype orch_call =
  Reserve_Approved string
| Post_Reserved string
| Void_Reserved string
| Reconcile_Observed string
| Officer_Resolve string int string resolution

fun run_orch_call ::
  "('w, 'tb) orchestrator \<Rightarrow> ('w, 'tb) resolver \<Rightarrow> orch_call \<Rightarrow> ('w, 'tb) both
     \<Rightarrow> (orch_error + intent) \<times> ('w, 'tb) both" where
  "run_orch_call oc re (Reserve_Approved k) = reserve_approved oc k"
| "run_orch_call oc re (Post_Reserved k) = post_reserved oc k"
| "run_orch_call oc re (Void_Reserved k) = void_reserved oc k"
| "run_orch_call oc re (Reconcile_Observed k) = reconcile_observed oc k"
| "run_orch_call oc re (Officer_Resolve k v off res) = resolver_resolve_ambiguous re k v off res"

text \<open>
  The promise of a step: the store stays steady, the cluster grows, and a parked intent is the
  stored row, in \<open>RECONCILIATION_REQUIRED\<close>.
\<close>

definition sound_step ::
  "('w \<Rightarrow> string \<Rightarrow> intent option) \<Rightarrow> ((intent \<Rightarrow> bool) \<Rightarrow> 'w \<Rightarrow> bool) \<Rightarrow> ('tb \<Rightarrow> u128 \<Rightarrow> transfer option)
     \<Rightarrow> hashing \<Rightarrow> ('w, 'tb) both \<Rightarrow> (orch_error + intent) \<times> ('w, 'tb) both \<Rightarrow> bool" where
  "sound_step row steady view h s out \<longleftrightarrow>
     tb_extends view (snd s) (snd (snd out)) \<and>
     (\<forall>S. on_cluster view (snd (snd out)) \<subseteq> S \<longrightarrow> steady (backed h S) (fst s) \<longrightarrow>
        steady (backed h S) (fst (snd out)) \<and>
        (\<forall>cause x. fst out = Inl (Parked cause x) \<longrightarrow>
           it_state x = StateReconciliationRequired \<and> row (fst (snd out)) (rq_id x) = Some x))"

lemma sound_step_seq:
  assumes "fst s1 = fst s" and e: "tb_extends view (snd s) (snd s1)"
    and o: "sound_step row steady view h s1 out"
  shows "sound_step row steady view h s out"
  using o tb_extends_trans [OF e, of "snd (snd out)"] assms(1) by (simp add: sound_step_def)

lemma sound_step_chain:
  assumes e: "tb_extends view (snd s) (snd s1)"
    and keep: "\<And>S. steady (backed h S) (fst s) \<Longrightarrow> steady (backed h S) (fst s1)"
    and o: "sound_step row steady view h s1 out"
  shows "sound_step row steady view h s out"
  using o tb_extends_trans [OF e, of "snd (snd out)"] keep by (simp add: sound_step_def)

context intent_store_port
begin

lemma reconcile_sound:
  assumes "oc_store oc = store"
  shows "sound_step row steady view h s (orch_reconcile oc cur cause s)"
proof -
  obtain r w where t: "is_transition store (rq_id cur) (it_version cur) StateReconciliationRequired (fst s) = (r, w)"
    by fastforce
  have keep: "steady (backed h S) w" if "steady (backed h S) (fst s)" for S
    by (rule transition_steady [OF that _ t]) (simp add: backed_def)
  have parked: "row w (rq_id cur) = Some x \<and> rq_id x = rq_id cur \<and> it_state x = StateReconciliationRequired"
    if "steady (backed h S) (fst s)" "r = Inr x" for S x
    using transition_row [OF that(1)] t that(2) by blast
  show ?thesis
  proof (cases r)
    case (Inl e)
    then show ?thesis using keep by (simp add: orch_reconcile_def assms t sound_step_def)
  next
    case (Inr x)
    then show ?thesis using keep parked [of _ x] by (simp add: orch_reconcile_def assms t sound_step_def)
  qed
qed

lemma record_state_sound:
  assumes st: "oc_store oc = store"
    and Q: "\<And>S x. on_cluster view (snd s) \<subseteq> S \<Longrightarrow> rq_id x = rq_id cur \<Longrightarrow> it_state x = next \<Longrightarrow> backed h S x"
  shows "sound_step row steady view h s (record_state oc cur next cause s)"
proof -
  obtain r w where t: "is_transition store (rq_id cur) (it_version cur) next (fst s) = (r, w)"
    by fastforce
  have keep: "steady (backed h S) w" if "steady (backed h S) (fst s)" "on_cluster view (snd s) \<subseteq> S" for S
    by (rule transition_steady [OF that(1) _ t]) (rule Q [OF that(2)])
  show ?thesis
  proof (cases r)
    case (Inr x)
    then show ?thesis using keep by (simp add: record_state_def at_store_def st t sound_step_def)
  next
    case (Inl e)
    then have o: "record_state oc cur next cause s = orch_reconcile oc cur cause (w, snd s)"
      by (simp add: record_state_def at_store_def st t)
    have snd_o: "snd (snd (orch_reconcile oc cur cause (w, snd s))) = snd s"
      by (simp add: orch_reconcile_def split: prod.splits sum.splits)
    show ?thesis
      using reconcile_sound [OF st, of view h "(w, snd s)" cur cause] keep
      unfolding o sound_step_def snd_o by simp
  qed
qed

lemma or_reconcile_sound:
  assumes st: "oc_store oc = store"
    and step: "fst t = fst s" "tb_extends view (snd s) (snd t)"
    and k: "r = Inr () \<Longrightarrow> sound_step row steady view h t (k t)"
  shows "sound_step row steady view h s (or_reconcile oc cur (r, t) k)"
  by (rule sound_step_seq [where s = s, OF step])
    (use k reconcile_sound [OF st] in \<open>auto simp: or_reconcile_def split: sum.splits\<close>)

lemma still_sound: "(\<And>c x. r \<noteq> Inl (Parked c x)) \<Longrightarrow> sound_step row steady view h s (r, s)"
  by (simp add: sound_step_def)

lemma get_then_sound:
  assumes st: "oc_store oc = store"
    and k: "\<And>cur s1. snd s1 = snd s \<Longrightarrow> at_store (is_get store i) s = (Inr cur, s1) \<Longrightarrow>
      sound_step row steady view h s1 (k cur s1)"
  shows "sound_step row steady view h s (on_ok (at_store (is_get (oc_store oc) i) s) k)"
proof -
  obtain r w where g: "is_get store i (fst s) = (r, w)" by fastforce
  have keep: "steady (backed h S) w" if "steady (backed h S) (fst s)" for S
    by (rule get_steady [OF that g])
  show ?thesis
  proof (rule sound_step_chain [of view s "(w, snd s)"])
    show "sound_step row steady view h (w, snd s) (on_ok (at_store (is_get (oc_store oc) i) s) k)"
      using k [of "(w, snd s)"]
      by (cases r) (auto simp: at_store_def g st intro!: still_sound)
  qed (use keep in simp_all)
qed

lemma transition_then_sound:
  assumes st: "oc_store oc = store"
    and Q: "\<And>S x. on_cluster view (snd s) \<subseteq> S \<Longrightarrow> rq_id x = i \<Longrightarrow> it_state x = next \<Longrightarrow> backed h S x"
  shows "sound_step row steady view h s (at_store (is_transition (oc_store oc) i v next) s)"
proof -
  obtain r w where t: "is_transition store i v next (fst s) = (r, w)" by fastforce
  have keep: "steady (backed h S) w" if "steady (backed h S) (fst s)" "on_cluster view (snd s) \<subseteq> S" for S
    by (rule transition_steady [OF that(1) _ t]) (rule Q [OF that(2)])
  then show ?thesis by (cases r) (simp_all add: at_store_def st t sound_step_def)
qed

lemma reserve_requested_sound:
  assumes st: "oc_store oc = store" and c: "tb_contract (sv_client (oc_ledger oc)) view"
    and h: "oc_hash oc = h"
  shows "sound_step row steady view h s (reserve_requested oc cur s)"
proof -
  note rec = reconcile_sound [OF st]
  show ?thesis
  proof (cases "parse_id h (rq_debit cur)")
    case (Some d)
    note d = Some
    show ?thesis
    proof (cases "parse_id h (rq_credit cur)")
      case (Some cr)
      show ?thesis
      proof (cases "deterministic_id h ''pending'' (rq_id cur)")
        case (Inr i)
        let ?op = "service_reserve (oc_ledger oc) i d cr (rq_amount cur) (oc_timeout oc)"
        obtain r t where e: "ensure_transfer (oc_ledger oc) i ''lookup pending transfer'' ?op
          ''reserve pending transfer'' s = (r, t)" by (rule prod.exhaust)
        note er = ensure_transfer_result [OF c service_ops(1) [OF c] e]
        have "sound_step row steady view h s (or_reconcile oc cur (r, t)
            (record_state oc cur StateReserved ''record reserved state''))"
          using er Inr
          by (intro or_reconcile_sound [OF st] record_state_sound [OF st])
            (auto simp: backed_def pending_transfer_id_def on_cluster_def)
        then show ?thesis using d Some Inr e by (simp add: reserve_requested_def h)
      qed (use d Some in \<open>simp add: reserve_requested_def h still_sound\<close>)
    qed (use d rec in \<open>simp add: reserve_requested_def h\<close>)
  qed (use rec in \<open>simp add: reserve_requested_def h\<close>)
qed

lemma reserve_approved_sound:
  fixes s :: "('w, 'tb) both"
  assumes st: "oc_store oc = store" and c: "tb_contract (sv_client (oc_ledger oc)) view"
    and h: "oc_hash oc = h"
  shows "sound_step row steady view h s (reserve_approved oc i s)"
  unfolding reserve_approved_def
proof (rule get_then_sound [OF st])
  fix cur :: intent and s1 :: "('w, 'tb) both"
  obtain r t where a: "at_store (is_transition (oc_store oc) (rq_id cur) (it_version cur)
      StateReservationRequested) s1 = (r, t)" by (rule prod.exhaust)
  have one: "sound_step row steady view h s1 (r, t)"
    using transition_then_sound [OF st, of view s1 "rq_id cur" StateReservationRequested h "it_version cur"]
    by (simp add: a backed_def)
  have keep: "steady (backed h S) (fst t)" if "steady (backed h S) (fst s1)" for S
    using a that transition_steady [OF that, of "rq_id cur" StateReservationRequested "it_version cur"]
    by (cases r) (auto simp: at_store_Inr at_store_Inl st backed_def)
  have e: "tb_extends view (snd s1) (snd t)" using one by (simp add: sound_step_def)
  have "sound_step row steady view h s1 (on_ok (r, t) (reserve_requested oc))"
    using one sound_step_chain [OF e keep reserve_requested_sound [OF st c h]] by (cases r) auto
  then show "sound_step row steady view h s1
     (if it_state cur = StateReserved \<or> it_state cur = StatePosted then (Inr cur, s1)
      else if it_state cur \<noteq> StateApproved then (Inl ErrIntentNotReady, s1)
      else on_ok (at_store (is_transition (oc_store oc) (rq_id cur) (it_version cur)
                    StateReservationRequested) s1) (reserve_requested oc))"
    by (simp add: a still_sound)
qed

lemma settle_sound:
  assumes st: "oc_store oc = store" and c: "tb_contract (sv_client (oc_ledger oc)) view"
    and op: "transfer_op view i op"
    and Q: "\<And>S x. i \<in> S \<Longrightarrow> rq_id x = rq_id cur \<Longrightarrow> it_state x = next \<Longrightarrow> backed h S x"
  shows "sound_step row steady view h s
    (or_reconcile oc cur (require_absent (oc_ledger oc) other a b s) (\<lambda>s3.
       or_reconcile oc cur (ensure_transfer (oc_ledger oc) i a' op b' s3)
         (record_state oc cur next cause)))"
proof -
  obtain r t where ra: "require_absent (oc_ledger oc) other a b s = (r, t)" by (rule prod.exhaust)
  obtain r' u where et: "ensure_transfer (oc_ledger oc) i a' op b' t = (r', u)" by (rule prod.exhaust)
  note rr = require_absent_result [OF c ra] and er = ensure_transfer_result [OF c op et]
  have "sound_step row steady view h t (or_reconcile oc cur (r', u) (record_state oc cur next cause))"
    using er by (intro or_reconcile_sound [OF st] record_state_sound [OF st])
      (auto simp: on_cluster_def intro!: Q)
  then show ?thesis
    unfolding ra using rr by (intro or_reconcile_sound [OF st]) (simp_all add: et)
qed

lemma post_reserved_sound:
  assumes st: "oc_store oc = store" and c: "tb_contract (sv_client (oc_ledger oc)) view"
    and h: "oc_hash oc = h"
  shows "sound_step row steady view h s (post_reserved oc i s)"
  unfolding post_reserved_def
  by (rule get_then_sound [OF st])
    (auto simp: with_id_def h backed_def still_sound split: sum.splits
      intro!: settle_sound [OF st c] service_ops(2) [OF c])

lemma void_reserved_sound:
  assumes st: "oc_store oc = store" and c: "tb_contract (sv_client (oc_ledger oc)) view"
    and h: "oc_hash oc = h"
  shows "sound_step row steady view h s (void_reserved oc i s)"
  unfolding void_reserved_def
  by (rule get_then_sound [OF st])
    (auto simp: with_id_def h backed_def still_sound split: sum.splits
      intro!: settle_sound [OF st c] service_ops(3) [OF c])

lemma look_then_sound:
  fixes s :: "('w, 'tb) both"
  assumes c: "tb_contract (sv_client (oc_ledger oc)) view"
    and k: "\<And>f t. fst t = fst s \<Longrightarrow> tb_extends view (snd s) (snd t) \<Longrightarrow>
      f = (view (snd t) i \<noteq> None) \<Longrightarrow> sound_step row steady view h t (k f t)"
  shows "sound_step row steady view h s (on_ok (lookup_observed oc i s) k)"
proof -
  obtain f t where l: "at_ledger (lookup_transfer (oc_ledger oc) i) s = (f, t)" by (rule prod.exhaust)
  note r = at_lookup_result [OF c l]
  show ?thesis
    by (rule sound_step_seq [of t])
      (use r k [of t] in \<open>auto simp: lookup_observed_def l still_sound split: sum.splits\<close>)
qed

lemma reconcile_observed_sound:
  fixes s :: "('w, 'tb) both"
  assumes st: "oc_store oc = store" and c: "tb_contract (sv_client (oc_ledger oc)) view"
    and h: "oc_hash oc = h"
  shows "sound_step row steady view h s (reconcile_observed oc k s)"
  unfolding reconcile_observed_def
proof (rule get_then_sound [OF st])
  fix cur :: intent and s1 :: "('w, 'tb) both"
  let ?k = "rq_id cur"
  have last: "sound_step row steady view h t (at_store (is_transition (oc_store oc) ?k
      (it_version cur) (observed_state pf qf vf)) t)"
    if "pf \<Longrightarrow> view (snd t) p \<noteq> None" "qf \<Longrightarrow> view (snd t) q \<noteq> None"
      "pending_transfer_id h ?k = Inr p" "post_transfer_id h ?k = Inr q" for t pf qf vf p q
    using that
    by (intro transition_then_sound [OF st])
      (auto simp: backed_def observed_state_def on_cluster_def split: if_splits)
  have three: "sound_step row steady view h t (on_ok (lookup_observed oc v t) (\<lambda>vf t2.
      at_store (is_transition (oc_store oc) ?k (it_version cur) (observed_state pf qf vf)) t2))"
    if pq: "pf \<Longrightarrow> view (snd t) p \<noteq> None" "qf \<Longrightarrow> view (snd t) q \<noteq> None"
      "pending_transfer_id h ?k = Inr p" "post_transfer_id h ?k = Inr q" for t pf qf p q v
  proof (rule look_then_sound [OF c])
    fix vf t2
    assume "fst t2 = fst t" and e: "tb_extends view (snd t) (snd t2)"
    show "sound_step row steady view h t2 (at_store (is_transition (oc_store oc) ?k
      (it_version cur) (observed_state pf qf vf)) t2)"
      by (rule last [of pf t2 p qf q])
        (use pq tb_extendsD [OF e] in fastforce)+
  qed
  have two: "sound_step row steady view h t (on_ok (lookup_observed oc q t) (\<lambda>qf.
      with_id (void_transfer_id h ?k) (\<lambda>v t1. on_ok (lookup_observed oc v t1) (\<lambda>vf t2.
      at_store (is_transition (oc_store oc) ?k (it_version cur) (observed_state pf qf vf)) t2))))"
    if pq: "pf \<Longrightarrow> view (snd t) p \<noteq> None"
      "pending_transfer_id h ?k = Inr p" "post_transfer_id h ?k = Inr q" for t pf p q
  proof (rule look_then_sound [OF c])
    fix qf t2
    assume "fst t2 = fst t" and e: "tb_extends view (snd t) (snd t2)"
      and f: "qf = (view (snd t2) q \<noteq> None)"
    have pf: "pf \<Longrightarrow> view (snd t2) p \<noteq> None" using pq tb_extendsD [OF e] by fastforce
    have qf: "qf \<Longrightarrow> view (snd t2) q \<noteq> None" using f by simp
    show "sound_step row steady view h t2 (with_id (void_transfer_id h ?k) (\<lambda>v t1.
      on_ok (lookup_observed oc v t1) (\<lambda>vf t2. at_store (is_transition (oc_store oc) ?k
        (it_version cur) (observed_state pf qf vf)) t2)) t2)"
      using three [OF pf qf pq(2,3)] by (cases "void_transfer_id h ?k") (simp_all add: still_sound)
  qed
  show "sound_step row steady view h s1
     (if it_state cur \<noteq> StateReconciliationRequired then (Inl ErrIntentNotReady, s1)
      else with_id (pending_transfer_id (oc_hash oc) ?k) (\<lambda>p s2.
           on_ok (lookup_observed oc p s2) (\<lambda>pf.
           with_id (post_transfer_id (oc_hash oc) ?k) (\<lambda>q s3.
           on_ok (lookup_observed oc q s3) (\<lambda>qf.
           with_id (void_transfer_id (oc_hash oc) ?k) (\<lambda>v s4.
           on_ok (lookup_observed oc v s4) (\<lambda>vf s5.
             at_store (is_transition (oc_store oc) ?k (it_version cur)
               (observed_state pf qf vf)) s5)))))) s1)"
  proof (cases "pending_transfer_id h ?k")
    case (Inr p)
    have "sound_step row steady view h s1 (on_ok (lookup_observed oc p s1) (\<lambda>pf.
           with_id (post_transfer_id h ?k) (\<lambda>q s3.
           on_ok (lookup_observed oc q s3) (\<lambda>qf.
           with_id (void_transfer_id h ?k) (\<lambda>v s4.
           on_ok (lookup_observed oc v s4) (\<lambda>vf s5.
             at_store (is_transition (oc_store oc) ?k (it_version cur)
               (observed_state pf qf vf)) s5))))))"
    proof (rule look_then_sound [OF c])
      fix pf and t2 :: "('w, 'tb) both"
      assume "pf = (view (snd t2) p \<noteq> None)"
      then have pf: "pf \<Longrightarrow> view (snd t2) p \<noteq> None" by simp
      show "sound_step row steady view h t2 (with_id (post_transfer_id h ?k) (\<lambda>q s3.
           on_ok (lookup_observed oc q s3) (\<lambda>qf.
           with_id (void_transfer_id h ?k) (\<lambda>v s4.
           on_ok (lookup_observed oc v s4) (\<lambda>vf s5.
             at_store (is_transition (oc_store oc) ?k (it_version cur)
               (observed_state pf qf vf)) s5)))) t2)"
        using two [OF pf Inr] by (cases "post_transfer_id h ?k") (simp_all add: still_sound)
    qed
    then show ?thesis by (simp add: h Inr still_sound)
  qed (simp add: h still_sound)
qed

end

lemma sound_resolver_lookup:
  assumes c: "tb_contract (sv_client (re_ledger re)) view"
    and k: "\<And>f t. fst t = fst s \<Longrightarrow> tb_extends view (snd s) (snd t) \<Longrightarrow> f = view (snd t) i \<Longrightarrow>
      sound_step row steady view h t (k f t)"
  shows "sound_step row steady view h s (on_ok (resolver_lookup re i cause s) k)"
proof -
  obtain f t where l: "at_ledger (lookup_transfer (re_ledger re) i) s = (f, t)" by (rule prod.exhaust)
  note r = at_lookup_result [OF c l]
  show ?thesis
  proof (rule sound_step_seq [of t])
    show "sound_step row steady view h t (on_ok (resolver_lookup re i cause s) k)"
    proof (cases f)
      case (Inr x)
      then show ?thesis using k [of t x] r by (simp add: resolver_lookup_def l)
    qed (simp add: resolver_lookup_def l sound_step_def)
  qed (use r in simp_all)
qed

context resolution_store_port
begin

lemma release_sound:
  fixes s :: "('w, 'tb) both"
  assumes c: "tb_contract (sv_client (re_ledger re)) view"
    and k: "\<And>t. sound_step row steady view h t (k () t)"
  shows "sound_step row steady view h s (on_ok (release_reservation re v p s) k)"
proof -
  let ?rel = "\<lambda>pf vf (s2 :: ('w, 'tb) both). if pf \<noteq> None \<and> vf = None
     then map_err (Ledger_Failed ''void pending reservation'')
            (at_ledger (service_void (re_ledger re) v p) s2)
     else (Inr (), s2)"
  have inner: "sound_step row steady view h s2 (on_ok (?rel pf vf s2) k)" for pf vf s2
  proof -
    obtain r t where o: "at_ledger (service_void (re_ledger re) v p) s2 = (r, t)" by (rule prod.exhaust)
    then have e: "fst t = fst s2" "tb_extends view (snd s2) (snd t)"
      using service_ops(3) [OF c, of v p] by (auto simp: at_ledger_iff transfer_op_def)
    have "sound_step row steady view h s2 (on_ok (map_err (Ledger_Failed x) (r, t)) k)" for x
      by (rule sound_step_seq [OF e]) (cases r; simp add: k; simp add: sound_step_def)
    then show ?thesis using k by (simp add: o)
  qed
  have assoc: "on_ok (release_reservation re v p s) k =
    on_ok (resolver_lookup re p ''lookup pending transfer'' s) (\<lambda>pf s1.
    on_ok (resolver_lookup re v ''lookup void transfer'' s1) (\<lambda>vf s2. on_ok (?rel pf vf s2) k))"
    unfolding release_reservation_def on_ok_def by (auto split: prod.splits sum.splits)
  show ?thesis unfolding assoc
    by (intro sound_resolver_lookup [OF c] inner)
qed

lemma resolve_sound:
  assumes "re_store re = resolver_store"
  shows "sound_step row steady view h s (at_store (rs_resolve (re_store re) k v off res) s)"
proof -
  obtain r w where t: "rs_resolve resolver_store k v off res (fst s) = (r, w)" by fastforce
  have keep: "steady (backed h S) w" if "steady (backed h S) (fst s)" for S
    by (rule resolve_steady [OF that _ t]) (auto simp: backed_def)
  then show ?thesis by (cases r) (simp_all add: at_store_def assms t sound_step_def)
qed

lemma resolver_sound:
  fixes s :: "('w, 'tb) both"
  assumes st: "re_store re = resolver_store" and c: "tb_contract (sv_client (re_ledger re)) view"
  shows "sound_step row steady view h s (resolver_resolve_ambiguous re k v off res s)"
proof -
  have still: "sound_step row steady view h t (x, t)" if "\<And>c y. x \<noteq> Inl (Parked c y)"
    for x and t :: "('w, 'tb) both"
    using that by (simp add: sound_step_def)
  have release: "sound_step row steady view h t
      (with_id (deterministic_id (re_hash re) ''pending'' k) (\<lambda>pending_id.
       with_id (deterministic_id (re_hash re) ''void'' k) (\<lambda>void_id s4.
         on_ok (release_reservation re void_id pending_id s4) (\<lambda>_.
           at_store (rs_resolve (re_store re) k v off res)))) t)" for t :: "('w, 'tb) both"
    using release_sound [OF c, where s = t] resolve_sound [OF st, where view = view and h = h]
    by (auto simp: with_id_def still split: sum.splits)
  have void: "sound_step row steady view h t
     (with_id (deterministic_id (re_hash re) ''post'' k) (\<lambda>post_id s2.
        on_ok (resolver_lookup re post_id ''lookup post transfer'' s2) (\<lambda>post_found s3.
          if post_found \<noteq> None then (Inl (Store_Failed ErrResolutionRejected), s3)
          else with_id (deterministic_id (re_hash re) ''pending'' k) (\<lambda>pending_id.
               with_id (deterministic_id (re_hash re) ''void'' k) (\<lambda>void_id s4.
                 on_ok (release_reservation re void_id pending_id s4) (\<lambda>_.
                   at_store (rs_resolve (re_store re) k v off res)))) s3)) t)"
    for t :: "('w, 'tb) both"
  proof (cases "deterministic_id (re_hash re) ''post'' k")
    case (Inr q)
    show ?thesis
      unfolding Inr with_id_simps
      by (rule sound_resolver_lookup [OF c]) (simp add: still release)
  qed (simp add: still)
  obtain r w where g: "rs_get resolver_store k (fst s) = (r, w)" by fastforce
  have keep: "steady (backed h S) w" if "steady (backed h S) (fst s)" for S
    by (rule r_get_steady [OF that g])
  have "sound_step row steady view h (w, snd s) (resolver_resolve_ambiguous re k v off res s)"
    if "\<not> (res \<noteq> ResolutionReconcile \<and> res \<noteq> ResolutionVoid)"
  proof (cases r)
    case (Inr cur)
    then show ?thesis
      using that void [of "(w, snd s)"]
        resolve_sound [OF st, where view = view and h = h and s = "(w, snd s)"]
      by (cases "res = ResolutionReconcile")
        (auto simp: resolver_resolve_ambiguous_def at_store_def [of "rs_get _ _"] st g still)
  qed (use that in \<open>auto simp: resolver_resolve_ambiguous_def at_store_def st g still\<close>)
  then show ?thesis
    using sound_step_chain [of view s "(w, snd s)" steady h] keep
    by (cases "res \<noteq> ResolutionReconcile \<and> res \<noteq> ResolutionVoid")
      (simp_all add: resolver_resolve_ambiguous_def still)
qed

end

section \<open>The whole service on the PostgreSQL store\<close>

text \<open>An orchestrator and a resolver wired the way the commands wire them.\<close>

definition wired ::
  "(intent_db world, 'tb) orchestrator \<Rightarrow> (intent_db world, 'tb) resolver \<Rightarrow>
   ('tb \<Rightarrow> u128 \<Rightarrow> transfer option) \<Rightarrow> bool" where
  "wired oc re view \<longleftrightarrow>
     oc_store oc = pg_intent_store \<and> re_store re = pg_resolution_store \<and>
     oc_hash oc = re_hash re \<and> oc_ledger oc = re_ledger re \<and>
     tb_contract (sv_client (oc_ledger oc)) view"

lemma run_orch_call_sound:
  assumes "wired oc re view"
  shows "sound_step world_row steady_world view (oc_hash oc) s (run_orch_call oc re c s)"
proof -
  have w: "oc_store oc = pg_intent_store" "re_store re = pg_resolution_store"
    "tb_contract (sv_client (oc_ledger oc)) view" "tb_contract (sv_client (re_ledger re)) view"
    using assms by (auto simp: wired_def)
  show ?thesis
    by (cases c)
      (simp_all add: pg_intents.reserve_approved_sound [OF w(1,3) refl]
        pg_intents.post_reserved_sound [OF w(1,3) refl]
        pg_intents.void_reserved_sound [OF w(1,3) refl]
        pg_intents.reconcile_observed_sound [OF w(1,3) refl]
        pg_resolutions.resolver_sound [OF w(2,4)])
qed

definition demo_orchestrator :: "(intent_db world, sim) orchestrator" where
  "demo_orchestrator = \<lparr>oc_store = pg_intent_store, oc_hash = demo_hashing,
     oc_ledger = sim_service, oc_timeout = 60\<rparr>"

definition demo_resolver :: "(intent_db world, sim) resolver" where
  "demo_resolver = \<lparr>re_store = pg_resolution_store, re_hash = demo_hashing, re_ledger = sim_service\<rparr>"

definition demo_world :: "intent_db \<Rightarrow> intent_db world" where
  "demo_world d = \<lparr>w_db = d, w_tick = 0, w_sched = (\<lambda>n. demo_env (10 + n))\<rparr>"

lemma demo_wired: "wired demo_orchestrator demo_resolver sim_view"
  by (simp add: wired_def demo_orchestrator_def demo_resolver_def sim_service_contract)

text \<open>The approved intent of the demo, after its reservation.\<close>

definition demo_both :: "(intent_db world, sim) both" where
  "demo_both = snd (reserve_approved demo_orchestrator ''fi-1'' (demo_world demo_approved, []))"

definition demo_posted :: "(intent_db world, sim) both" where
  "demo_posted = snd (post_reserved demo_orchestrator ''fi-1'' demo_both)"

lemma demo_results:
  "fst (reserve_approved demo_orchestrator ''fi-1'' (demo_world demo_approved, [])) =
     Inr (the (world_row (fst demo_both) ''fi-1''))"
  "fst (post_reserved demo_orchestrator ''fi-1'' demo_both) =
     Inr (the (world_row (fst demo_posted) ''fi-1''))"
  by code_simp+

lemma demo_runs:
  "reserve_approved demo_orchestrator ''fi-1'' (demo_world demo_approved, []) =
     (Inr (the (world_row (fst demo_both) ''fi-1'')), demo_both)"
  "post_reserved demo_orchestrator ''fi-1'' demo_both =
     (Inr (the (world_row (fst demo_posted) ''fi-1'')), demo_posted)"
  by (rule prod_eqI, simp add: demo_results, simp add: demo_both_def demo_posted_def)+

text \<open>Lookups that only read, for statements about what a call does not do to the cluster.\<close>

definition lookups_pure :: "'tb tb_client \<Rightarrow> bool" where
  "lookups_pure client \<longleftrightarrow> (\<forall>is tb. snd (cl_lookup_transfers client is tb) = tb)"

lemma sim_lookups_pure: "lookups_pure (sv_client sim_service)"
  by (simp add: lookups_pure_def sim_service_def sim_client_def)

lemma at_lookup_pure:
  assumes "lookups_pure (sv_client sv)" and "at_ledger (lookup_transfer sv i) s = (r, s')"
  shows "s' = s"
proof -
  have "snd (lookup_transfer sv i (snd s)) = snd s"
    using assms(1) surjective_pairing [of "cl_lookup_transfers (sv_client sv) [i] (snd s)"]
    by (auto simp: lookup_transfer_def lookups_pure_def split: prod.splits sum.splits list.splits)
  then show ?thesis using assms(2) by (cases s; cases s') (auto simp: at_ledger_iff)
qed

lemma require_absent_found:
  assumes c: "tb_contract (sv_client sv) view" and pure: "lookups_pure (sv_client sv)"
    and f: "view (snd s) i \<noteq> None"
  obtains x where "require_absent sv i a b s = (Inl x, s)"
proof -
  obtain r t where l: "at_ledger (lookup_transfer sv i) s = (r, t)" by (rule prod.exhaust)
  have "t = s" using at_lookup_pure [OF pure l] .
  then show ?thesis
    using at_lookup_result [OF c l] f l that
    by (cases r) (auto simp: require_absent_def split: option.splits)
qed

lemma orch_reconcile_result:
  "fst (orch_reconcile oc cur cause s) \<noteq> Inr x \<and> snd (snd (orch_reconcile oc cur cause s)) = snd s"
  by (simp add: orch_reconcile_def split: prod.splits sum.splits)

lemma get_world:
  "at_store (world_get k) s = (Inr x, s1) \<Longrightarrow>
     w_db (fst s1) = w_db (fst s) \<and> snd s1 = snd s \<and> world_row (fst s) k = Some x \<and> rq_id x = k"
  "at_store (world_get k) s = (Inl y, s1) \<Longrightarrow> w_db (fst s1) = w_db (fst s) \<and> snd s1 = snd s"
  by (auto simp: at_store_Inr at_store_Inl world_get_def in_world_iff world_row_def store_get_def
      stmt_Inr_iff dest: sql_row_Some split: option.splits)

end
