(* ===== verification/Orchestrator_Props.thy ===== *)
theory Orchestrator_Props
  imports Orchestrator_Inv
begin

text \<open>The properties of the orchestrator and the resolver on the PostgreSQL store.\<close>

lemma demo_steady: "steady_world (backed demo_hashing S) (demo_world demo_approved)"
proof -
  have "intent_db_ok demo_approved" using demo_reach(2) by (rule intent_reach_ok)
  moreover have "map it_state (intents demo_approved) = [StateApproved]" by code_simp
  ultimately show ?thesis
    by (auto simp: steady_world_def demo_world_def rows_satisfy_def backed_def)
qed

lemma run_orch_evidence:
  assumes w: "wired oc re view" and st: "steady_world (backed (oc_hash oc) S) (fst s)"
    and run: "run_orch_call oc re c s = (r, s')" and S: "on_cluster view (snd s') \<subseteq> S"
  shows "tb_extends view (snd s) (snd s') \<and> steady_world (backed (oc_hash oc) S) (fst s') \<and>
    (\<forall>cause x. r = Inl (Parked cause x) \<longrightarrow>
       it_state x = StateReconciliationRequired \<and> world_row (fst s') (rq_id x) = Some x)"
  using run_orch_call_sound [OF w, of s c] st S by (simp add: run sound_step_def)

text \<open>C2 No settlement without evidence. Whatever call of the orchestrator or the resolver runs, with
  any failures on either side and any transactions of other processes that keep the rule, afterwards
  every POSTED intent has its posting transfer and every RESERVED intent its pending transfer among
  the transfers of the cluster, and no transfer was lost.\<close>

theorem settlement_needs_evidence:
  assumes "wired oc re view" and "steady_world (backed (oc_hash oc) S) (fst s)"
    and "run_orch_call oc re c s = (r, s')" and "on_cluster view (snd s') \<subseteq> S"
  shows "tb_extends view (snd s) (snd s') \<and>
    (\<forall>x \<in> set (intents (w_db (fst s'))).
       (it_state x = StatePosted \<longrightarrow> (\<exists>i \<in> S. post_transfer_id (oc_hash oc) (rq_id x) = Inr i)) \<and>
       (it_state x = StateReserved \<longrightarrow> (\<exists>i \<in> S. pending_transfer_id (oc_hash oc) (rq_id x) = Inr i)))"
proof -
  have e: "tb_extends view (snd s) (snd s')" and w: "steady_world (backed (oc_hash oc) S) (fst s')"
    using run_orch_evidence [OF assms] by blast+
  have "backed (oc_hash oc) S x" if "x \<in> set (intents (w_db (fst s')))" for x
    using w that by (simp add: steady_world_def rows_satisfy_def)
  then show ?thesis using e unfolding backed_def by blast
qed

lemma demo_step:
  "run_orch_call demo_orchestrator demo_resolver (Reserve_Approved ''fi-1'')
     (demo_world demo_approved, []) =
   (Inr (the (world_row (fst demo_both) ''fi-1'')), demo_both)"
  by (simp add: demo_runs)

theorem settlement_needs_evidence_witness:
  "\<exists>i \<in> on_cluster sim_view (snd demo_both). pending_transfer_id demo_hashing ''fi-1'' = Inr i"
proof -
  have "steady_world (backed (oc_hash demo_orchestrator) (on_cluster sim_view (snd demo_both)))
      (fst (demo_world demo_approved, [] :: sim))"
    by (simp add: demo_orchestrator_def demo_steady)
  note * = settlement_needs_evidence [OF demo_wired this demo_step subset_refl]
  have "map it_state (intents (w_db (fst demo_both))) = [StateReserved]"
    "map rq_id (intents (w_db (fst demo_both))) = [''fi-1'']"
    by code_simp+
  then obtain x where "intents (w_db (fst demo_both)) = [x]" "it_state x = StateReserved" "rq_id x = ''fi-1''"
    by (auto simp: map_eq_Cons_conv)
  then show ?thesis using * by (simp add: demo_orchestrator_def)
qed

text \<open>A failed step parks the intent. When a call reports that it moved an intent to reconciliation,
  the intent it returns is the stored row and is RECONCILIATION_REQUIRED, whatever failed.\<close>

theorem parked_intent_is_stored:
  assumes "wired oc re view" and "steady_world (backed (oc_hash oc) S) (fst s)"
    and "run_orch_call oc re c s = (Inl (Parked cause x), s')" and "on_cluster view (snd s') \<subseteq> S"
  shows "it_state x = StateReconciliationRequired \<and> world_row (fst s') (rq_id x) = Some x"
  using run_orch_evidence [OF assms] by blast

text \<open>A cluster that is down.\<close>

definition down_service :: "sim service" where
  "down_service = sim_service\<lparr>sv_client := \<lparr>cl_create_accounts = (\<lambda>_ tb. (Inl ''down'', tb)),
     cl_create_transfers = (\<lambda>_ tb. (Inl ''down'', tb)),
     cl_lookup_transfers = (\<lambda>_ tb. (Inl ''down'', tb))\<rparr>\<rparr>"

definition down_orchestrator :: "(intent_db world, sim) orchestrator" where
  "down_orchestrator = demo_orchestrator\<lparr>oc_ledger := down_service\<rparr>"

definition down_run :: "(orch_error + intent) \<times> (intent_db world, sim) both" where
  "down_run = reserve_approved down_orchestrator ''fi-1'' (demo_world demo_approved, [])"

lemma down_wired: "wired down_orchestrator (demo_resolver\<lparr>re_ledger := down_service\<rparr>) sim_view"
  by (auto simp: wired_def down_orchestrator_def demo_orchestrator_def demo_resolver_def
      down_service_def sim_service_def tb_contract_def sim_view_def find_Some_iff)

theorem parked_intent_is_stored_witness:
  "\<exists>x. fst down_run = Inl (Parked ''lookup pending transfer'' x) \<and>
     it_state x = StateReconciliationRequired \<and>
     world_row (fst (snd down_run)) (rq_id x) = Some x"
proof -
  have w: "wired down_orchestrator (demo_resolver\<lparr>re_ledger := down_service\<rparr>) sim_view"
    by (rule down_wired)
  have st: "steady_world (backed (oc_hash down_orchestrator) UNIV) (fst (demo_world demo_approved, [] :: sim))"
    by (simp add: down_orchestrator_def demo_orchestrator_def demo_steady)
  obtain x where x: "fst down_run = Inl (Parked ''lookup pending transfer'' x)"
  proof (cases "fst down_run")
    case (Inl e)
    have "(case fst down_run of Inl (Parked c x) \<Rightarrow> c = ''lookup pending transfer'' | _ \<Rightarrow> False)"
      by code_simp
    then show ?thesis using that Inl by (cases e) auto
  next
    case (Inr i)
    moreover have "\<not> isl (fst down_run) \<Longrightarrow> False" by code_simp
    ultimately show ?thesis by simp
  qed
  then have "run_orch_call down_orchestrator (demo_resolver\<lparr>re_ledger := down_service\<rparr>)
      (Reserve_Approved ''fi-1'') (demo_world demo_approved, []) =
      (Inl (Parked ''lookup pending transfer'' x), snd down_run)"
    by (simp add: down_run_def prod_eq_iff)
  from parked_intent_is_stored [OF w st this] x show ?thesis by simp
qed

section \<open>Contradicting evidence\<close>

lemma settle_blocked:
  assumes "tb_contract (sv_client (oc_ledger oc)) view" "lookups_pure (sv_client (oc_ledger oc))"
    and "view (snd s) i \<noteq> None"
  shows "isl (fst (or_reconcile oc cur (require_absent (oc_ledger oc) i a b s) k)) \<and>
    snd (snd (or_reconcile oc cur (require_absent (oc_ledger oc) i a b s) k)) = snd s"
proof -
  obtain y where "require_absent (oc_ledger oc) i a b s = (Inl y, s)"
    using require_absent_found [OF assms] by blast
  then show ?thesis
    using orch_reconcile_result [of oc cur y s]
    by (cases "fst (orch_reconcile oc cur y s)") (auto simp: or_reconcile_def)
qed

lemma get_reserved:
  assumes "world_row (fst s) k = Some x" and "oc_store oc = pg_intent_store"
  shows "(\<exists>e s1. at_store (is_get (oc_store oc) k) s = (Inl e, s1) \<and> snd s1 = snd s) \<or>
         (\<exists>s1. at_store (is_get (oc_store oc) k) s = (Inr x, s1) \<and> snd s1 = snd s \<and> rq_id x = k)"
proof -
  have g: "is_get (oc_store oc) k = world_get k" using assms(2) by (simp add: pg_intent_store_def)
  obtain r s1 where r: "at_store (world_get k) s = (r, s1)" by (rule prod.exhaust)
  show ?thesis
  proof (cases r)
    case (Inr y)
    then show ?thesis using get_world(1) [of k s y s1] r assms(1) by (simp add: g)
  qed (use get_world(2) [of k s _ s1] r in \<open>auto simp: g\<close>)
qed

lemma resolver_void_blocked:
  assumes w: "wired oc re view" and pure: "lookups_pure (sv_client (oc_ledger oc))"
    and i: "post_transfer_id (oc_hash oc) k = Inr i" and f: "view (snd s) i \<noteq> None"
  shows "isl (fst (resolver_resolve_ambiguous re k v off ResolutionVoid s)) \<and>
    snd (snd (resolver_resolve_ambiguous re k v off ResolutionVoid s)) = snd s \<and>
    w_db (fst (snd (resolver_resolve_ambiguous re k v off ResolutionVoid s))) = w_db (fst s)"
proof -
  have re: "rs_get (re_store re) k = world_get k" "re_hash re = oc_hash oc" "re_ledger re = oc_ledger oc"
    and c: "tb_contract (sv_client (oc_ledger oc)) view"
    using w by (auto simp: wired_def pg_resolution_store_def)
  obtain r s1 where r: "at_store (world_get k) s = (r, s1)" by (rule prod.exhaust)
  have s1: "snd s1 = snd s \<and> w_db (fst s1) = w_db (fst s)"
    using r get_world [of k s _ s1] by (cases r) auto
  obtain l t where l: "at_ledger (lookup_transfer (oc_ledger oc) i) s1 = (l, t)" by (rule prod.exhaust)
  have "t = s1" using at_lookup_pure [OF pure l] .
  then have look: "\<exists>e. resolver_lookup re i cause s1 = (Inl e, s1) \<or>
      (\<exists>y. resolver_lookup re i cause s1 = (Inr (Some y), s1))" for cause
    using at_lookup_result [OF c l] f s1
    by (cases l) (auto simp: resolver_lookup_def re l)
  then show ?thesis
  proof (cases r)
    case (Inr cur)
    then show ?thesis
      using s1 i look [of "''lookup post transfer''"]
      by (auto simp: resolver_resolve_ambiguous_def re r post_transfer_id_def)
  qed (use s1 in \<open>simp add: resolver_resolve_ambiguous_def re r\<close>)
qed

text \<open>C28 Contradicting evidence stops the money. An orchestrator that finds a reservation already voided
  does not post it, one that finds it already posted does not void it, and an officer's VOID is
  refused when the posting transfer is on the ledger: each call reports an error and leaves the
  cluster as it was; the refused VOID leaves the database as it was, too.\<close>

theorem contradicting_evidence_moves_no_money:
  assumes w: "wired oc re view" and pure: "lookups_pure (sv_client (oc_ledger oc))"
    and row: "world_row (fst s) k = Some x" and f: "view (snd s) i \<noteq> None"
    and c: "c = Post_Reserved k \<and> it_state x = StateReserved \<and> void_transfer_id (oc_hash oc) k = Inr i
      \<or> c = Void_Reserved k \<and> it_state x = StateReserved \<and> post_transfer_id (oc_hash oc) k = Inr i
      \<or> c = Officer_Resolve k v off ResolutionVoid \<and> post_transfer_id (oc_hash oc) k = Inr i"
  shows "isl (fst (run_orch_call oc re c s)) \<and> snd (snd (run_orch_call oc re c s)) = snd s \<and>
    (c = Officer_Resolve k v off ResolutionVoid \<longrightarrow>
       w_db (fst (snd (run_orch_call oc re c s))) = w_db (fst s))"
proof -
  have tb: "tb_contract (sv_client (oc_ledger oc)) view" and st: "oc_store oc = pg_intent_store"
    using w by (auto simp: wired_def)
  note g = get_reserved [OF row st]
  note blocked = settle_blocked [OF tb pure]
  have post: "isl (fst (post_reserved oc k s)) \<and> snd (snd (post_reserved oc k s)) = snd s"
    if "it_state x = StateReserved" "void_transfer_id (oc_hash oc) k = Inr i"
    using g
  proof (elim disjE exE conjE)
    fix s1 assume s1: "at_store (is_get (oc_store oc) k) s = (Inr x, s1)" "snd s1 = snd s" "rq_id x = k"
    show ?thesis
      using blocked [of s1 i] that f s1
      by (auto simp: post_reserved_def with_id_def split: sum.splits)
  qed (auto simp: post_reserved_def)
  have void: "isl (fst (void_reserved oc k s)) \<and> snd (snd (void_reserved oc k s)) = snd s"
    if "it_state x = StateReserved" "post_transfer_id (oc_hash oc) k = Inr i"
    using g
  proof (elim disjE exE conjE)
    fix s1 assume s1: "at_store (is_get (oc_store oc) k) s = (Inr x, s1)" "snd s1 = snd s" "rq_id x = k"
    show ?thesis
      using blocked [of s1 i] that f s1
      by (auto simp: void_reserved_def with_id_def split: sum.splits)
  qed (auto simp: void_reserved_def)
  show ?thesis
    using c post void resolver_void_blocked [OF w pure _ f] by auto
qed

text \<open>A cluster that already holds the void of the demo reservation.\<close>

definition demo_voided_tb :: sim where
  "demo_voided_tb = snd (snd (void_reserved demo_orchestrator ''fi-1'' demo_both))"

theorem contradicting_evidence_moves_no_money_witness:
  "isl (fst (post_reserved demo_orchestrator ''fi-1'' (fst demo_both, demo_voided_tb))) \<and>
   snd (snd (post_reserved demo_orchestrator ''fi-1'' (fst demo_both, demo_voided_tb))) = demo_voided_tb"
proof -
  have pure: "lookups_pure (sv_client (oc_ledger demo_orchestrator))"
    by (simp add: demo_orchestrator_def sim_lookups_pure)
  have row: "world_row (fst (fst demo_both, demo_voided_tb)) ''fi-1''
      = Some (the (world_row (fst demo_both) ''fi-1''))" by code_simp
  have i: "void_transfer_id (oc_hash demo_orchestrator) ''fi-1''
      = Inr (projr (void_transfer_id (oc_hash demo_orchestrator) ''fi-1''))" by code_simp
  have f: "sim_view (snd (fst demo_both, demo_voided_tb))
      (projr (void_transfer_id (oc_hash demo_orchestrator) ''fi-1'')) \<noteq> None" by code_simp
  have r: "it_state (the (world_row (fst demo_both) ''fi-1'')) = StateReserved" by code_simp
  show ?thesis
    using contradicting_evidence_moves_no_money [OF demo_wired pure row f, of "Post_Reserved ''fi-1''"] r i
    by simp
qed

section \<open>Progress\<close>

text \<open>An environment in which nothing fails, nothing interleaves and identifiers are fresh.\<close>

definition calm :: "intent_db env \<Rightarrow> intent_db \<Rightarrow> bool" where
  "calm e d \<longleftrightarrow> (\<forall>l. env_fault e l = No_Fault) \<and> (\<forall>x. env_other e x = x) \<and>
     env_uuid e 0 \<notin> set (map ev_id (intent_outbox d))"

lemma row_checks:
  assumes ok: "intent_db_ok d" and r: "r \<in> set (intents d)" and nd: "s \<noteq> StateDraft"
  shows "intent_checks (patch_intent (None, s, t) r)"
proof -
  have "row_ok d r" using ok r by (simp add: intent_db_ok_def)
  then have v: "valid_request r" "segregated r" "0 \<le> it_version r"
    by (simp_all add: row_ok_def Let_def)
  then show ?thesis
    by (auto simp: intent_checks_def patch_intent_def valid_request_def segregated_def split: option.splits)
qed

lemma transition_progress:
  assumes ok: "intent_db_ok d" and calm: "calm e d"
    and row: "sql_row (\<lambda>r. rq_id r = k) (intents d) = Some r"
    and valid: "valid_operational_transition (it_state r) s"
  shows "\<exists>d'. store_transition e k (it_version r) s d = (Inr (patch_intent (None, s, env_now e) r), d') \<and>
    intent_db_ok d' \<and>
    sql_row (\<lambda>r. rq_id r = k) (intents d') = Some (patch_intent (None, s, env_now e) r) \<and>
    map ev_id (intent_outbox d') = map ev_id (intent_outbox d) @ [env_uuid e 0]"
proof -
  have r: "r \<in> set (intents d)" "rq_id r = k" using row by (auto dest: sql_row_Some)
  have hit: "sql_row (\<lambda>x. rq_id x = k \<and> it_state x = it_state r \<and> it_version x = it_version r)
      (intents d) = Some r"
  proof -
    have "(\<lambda>x. rq_id x = k \<and> it_state x = it_state r \<and> it_version x = it_version r) x
        = (rq_id x = k)" if "x \<in> set (intents d)" for x
      using that r ok distinct_key_unique [of rq_id "intents d" x r] by (auto simp: intent_db_ok_def)
    then show ?thesis using row unfolding sql_row_def by (subst find_cong [OF refl]) auto
  qed
  define x where "x = patch_intent (None, s, env_now e) r"
  define rows where "rows = sql_update (\<lambda>y. rq_id y = k \<and> it_state y = it_state r \<and>
    it_version y = it_version r) (patch_intent (None, s, env_now e)) (intents d)"
  have cas: "cas rq_id it_state it_version patch_intent (None, s, env_now e) k (it_state r)
      (it_version r) (intents d) = Some (x, rows)"
    by (simp add: cas_def Let_def hit x_def rows_def)
  have "intent_checks x"
    using row_checks [OF ok r(1)] transition_never_draft [OF valid] by (simp add: x_def)
  then have upd: "update_intent e l (None, s, env_now e) (\<lambda>_. True) k (it_state r) (it_version r) d
      = Inr (x, d\<lparr>intents := rows\<rparr>)" for l
    using calm by (simp add: update_intent_def cas calm_def)
  have "rq_id x \<in> set (map rq_id (intents d))" using r by (auto simp: x_def)
  then have "\<exists>d2. append_event_payload e (rq_id x) ''financial_intent.state_changed''
      (Intent_Event x) (d\<lparr>intents := rows\<rparr>) = Inr d2"
    using calm intent_rows.cas_keys [OF cas]
    by (simp add: append_event_payload_def calm_def intent_event_types_def del: set_map)
  then obtain d2 where app: "append_event_payload e (rq_id x) ''financial_intent.state_changed''
      (Intent_Event x) (d\<lparr>intents := rows\<rparr>) = Inr d2" ..
  have "update_tx e b l c (None, s, env_now e) (\<lambda>_. True) k (it_state r) (it_version r)
      ''financial_intent.state_changed'' Intent_Event d = (Inr x, d2)" for b l c
    using calm by (simp add: update_tx_def calm_def upd app)
  then have run: "store_transition e k (it_version r) s d = (Inr x, d2)"
    using calm row valid by (simp add: store_transition_def store_get_def calm_def)
  moreover have "intent_db_ok d2"
    using store_transition_ok [OF ok, of e k "it_version r" s] run calm
    by (simp add: env_keeps_def calm_def)
  moreover have "intents d2 = rows" "map ev_id (intent_outbox d2) = map ev_id (intent_outbox d) @ [env_uuid e 0]"
    using append_event_payload_Inr [OF app] by simp_all
  ultimately show ?thesis
    using intent_rows.cas_lookup [OF cas] ok by (simp add: intent_db_ok_def x_def)
qed

text \<open>A cluster whose lookups answer.\<close>

definition lookups_serve :: "'tb tb_client \<Rightarrow> ('tb \<Rightarrow> u128 \<Rightarrow> transfer option) \<Rightarrow> bool" where
  "lookups_serve client view \<longleftrightarrow>
     (\<forall>ids tb. cl_lookup_transfers client ids tb = (Inr (List.map_filter (view tb) ids), tb))"

lemma sim_lookups_serve: "lookups_serve (sv_client sim_service) sim_view"
  by (simp add: lookups_serve_def sim_service_def sim_client_def)

lemma lookup_served:
  assumes "lookups_serve (sv_client sv) view" and "i \<noteq> 0"
  shows "at_ledger (lookup_transfer sv i) s = (Inr (view (snd s) i), s)"
  using assms
  by (cases "view (snd s) i")
    (simp_all add: at_ledger_def lookup_transfer_def lookups_serve_def List.map_filter_def)

text \<open>C30 The reconciler decides from the evidence. On a store without failures and a cluster that
  answers lookups, \<open>ReconcileObserved\<close> returns for every intent that waits for reconciliation, and
  moves it to POSTED when only the post is on the ledger, to VOIDED when only the void is, to
  RESERVED when only the reservation is, and to AMBIGUOUS otherwise; it writes nothing to the
  ledger.\<close>

theorem reconcile_observed_decides:
  assumes st: "oc_store oc = pg_intent_store" and serve: "lookups_serve (sv_client (oc_ledger oc)) view"
    and ok: "intent_db_ok (w_db (fst s))" and calm: "\<And>n. calm (w_sched (fst s) n) (w_db (fst s))"
    and row: "world_row (fst s) k = Some x" "it_state x = StateReconciliationRequired"
    and p: "pending_transfer_id (oc_hash oc) k = Inr p" "p \<noteq> 0"
    and q: "post_transfer_id (oc_hash oc) k = Inr q" "q \<noteq> 0"
    and v: "void_transfer_id (oc_hash oc) k = Inr v" "v \<noteq> 0"
  shows "\<exists>y w. reconcile_observed oc k s = (Inr y, (w, snd s)) \<and> rq_id y = k \<and>
    it_version y = it_version x + 1 \<and>
    it_state y = observed_state (view (snd s) p \<noteq> None) (view (snd s) q \<noteq> None) (view (snd s) v \<noteq> None)"
proof -
  let ?w = "fst s" and ?w1 = "(fst s)\<lparr>w_tick := Suc (w_tick (fst s))\<rparr>"
  let ?next = "observed_state (view (snd s) p \<noteq> None) (view (snd s) q \<noteq> None) (view (snd s) v \<noteq> None)"
  have x: "sql_row (\<lambda>r. rq_id r = k) (intents (w_db ?w)) = Some x" "rq_id x = k"
    using row(1) by (auto simp: world_row_def dest: sql_row_Some)
  have get: "at_store (is_get (oc_store oc) k) s = (Inr x, (?w1, snd s))"
    using calm x by (simp add: st pg_intent_store_def at_store_def world_get_def in_world_def
        store_get_def calm_def)
  have look: "lookup_observed oc i t = (Inr (view (snd t) i \<noteq> None), t)" if "i \<noteq> 0" for i t
    using lookup_served [OF serve that, of t] by (simp add: lookup_observed_def)
  have "valid_operational_transition (it_state x) ?next"
    by (simp add: row(2) observed_state_def)
  then obtain d' where "store_transition (w_sched ?w (w_tick ?w1)) k (it_version x) ?next (w_db ?w) =
      (Inr (patch_intent (None, ?next, env_now (w_sched ?w (w_tick ?w1))) x), d')"
    using transition_progress [OF ok calm x(1)] by blast
  then have "at_store (is_transition (oc_store oc) k (it_version x) ?next) (?w1, snd s) =
      (Inr (patch_intent (None, ?next, env_now (w_sched ?w (w_tick ?w1))) x),
       (?w1\<lparr>w_db := d', w_tick := Suc (w_tick ?w1)\<rparr>, snd s))"
    by (simp add: st pg_intent_store_def at_store_def in_world_def)
  then have "reconcile_observed oc k s =
      (Inr (patch_intent (None, ?next, env_now (w_sched ?w (w_tick ?w1))) x),
       (?w1\<lparr>w_db := d', w_tick := Suc (w_tick ?w1)\<rparr>, snd s))"
    by (simp add: reconcile_observed_def get x(2) row(2) p q v look del: not_None_eq)
  then show ?thesis by (simp add: x(2))
qed

text \<open>The parked intent of the run on the cluster that was down, after the cluster is back.\<close>

definition demo_parked :: "intent_db" where
  "demo_parked = w_db (fst (snd down_run))"

definition back_world :: "intent_db world" where
  "back_world = \<lparr>w_db = demo_parked, w_tick = 0, w_sched = (\<lambda>n. demo_env (30 + n))\<rparr>"

lemma demo_parked_ok: "intent_db_ok demo_parked"
proof -
  have w: "wired down_orchestrator (demo_resolver\<lparr>re_ledger := down_service\<rparr>) sim_view"
    by (rule down_wired)
  have st: "steady_world (backed (oc_hash down_orchestrator) UNIV) (fst (demo_world demo_approved, [] :: sim))"
    by (simp add: down_orchestrator_def demo_orchestrator_def demo_steady)
  have "run_orch_call down_orchestrator (demo_resolver\<lparr>re_ledger := down_service\<rparr>)
      (Reserve_Approved ''fi-1'') (demo_world demo_approved, []) = (fst down_run, snd down_run)"
    by (simp add: down_run_def)
  from run_orch_evidence [OF w st this] show ?thesis
    by (simp add: demo_parked_def steady_world_def rows_satisfy_def)
qed

lemma fresh_by_length:
  "list_all (\<lambda>e. length (ev_id e) < m) es \<Longrightarrow> m \<le> n \<Longrightarrow> replicate n c \<notin> ev_id ` set es"
  by (metis (mono_tags, lifting) imageE leD length_replicate list_all_iff)

theorem reconcile_observed_decides_witness:
  "\<exists>y w. reconcile_observed demo_orchestrator ''fi-1'' (back_world, []) = (Inr y, (w, [])) \<and>
     it_state y = StateAmbiguous"
proof -
  let ?s = "(back_world, [] :: sim)" and ?h = "oc_hash demo_orchestrator"
  have st: "oc_store demo_orchestrator = pg_intent_store"
    and serve: "lookups_serve (sv_client (oc_ledger demo_orchestrator)) sim_view"
    by (simp_all add: demo_orchestrator_def sim_lookups_serve)
  have "list_all (\<lambda>e. length (ev_id e) < 30) (intent_outbox demo_parked)" by code_simp
  then have calm: "calm (w_sched (fst ?s) n) (w_db (fst ?s))" for n
    using fresh_by_length [of 30 _ "30 + n" "CHR ''u''"]
    by (simp add: calm_def back_world_def demo_env_def)
  have ok: "intent_db_ok (w_db (fst ?s))" by (simp add: back_world_def demo_parked_ok)
  have row: "world_row (fst ?s) ''fi-1'' = Some (the (world_row (fst ?s) ''fi-1''))"
    "it_state (the (world_row (fst ?s) ''fi-1'')) = StateReconciliationRequired"
    by code_simp+
  have ids: "pending_transfer_id ?h ''fi-1'' = Inr (projr (pending_transfer_id ?h ''fi-1''))"
    "projr (pending_transfer_id ?h ''fi-1'') \<noteq> 0"
    "post_transfer_id ?h ''fi-1'' = Inr (projr (post_transfer_id ?h ''fi-1''))"
    "projr (post_transfer_id ?h ''fi-1'') \<noteq> 0"
    "void_transfer_id ?h ''fi-1'' = Inr (projr (void_transfer_id ?h ''fi-1''))"
    "projr (void_transfer_id ?h ''fi-1'') \<noteq> 0" by code_simp+
  show ?thesis
    using reconcile_observed_decides [OF st serve ok calm row ids]
    by (auto simp: sim_view_def observed_state_def)
qed

fun call_intent :: "orch_call \<Rightarrow> string" where
  "call_intent (Reserve_Approved k) = k"
| "call_intent (Post_Reserved k) = k"
| "call_intent (Void_Reserved k) = k"
| "call_intent (Reconcile_Observed k) = k"
| "call_intent (Officer_Resolve k v off res) = k"

lemma get_row_world:
  assumes "world_row (fst s) k = Some x"
  shows "(\<exists>e s1. at_store (world_get k) s = (Inl e, s1) \<and> snd s1 = snd s \<and> w_db (fst s1) = w_db (fst s)) \<or>
         (\<exists>s1. at_store (world_get k) s = (Inr x, s1) \<and> snd s1 = snd s \<and> w_db (fst s1) = w_db (fst s))"
proof -
  obtain r s1 where r: "at_store (world_get k) s = (r, s1)" by (rule prod.exhaust)
  show ?thesis
    using get_world(1) [of k s _ s1] get_world(2) [of k s _ s1] r assms by (cases r) auto
qed

text \<open>A requested reservation is stranded. No operation of the orchestrator or the resolver moves an
  intent out of RESERVATION_REQUESTED: a process that stops between recording that state and
  recording the outcome of the reservation leaves the intent there, whatever is on the ledger. Every
  later call reports an error and writes nothing.\<close>

theorem requested_reservation_is_stranded:
  assumes w: "wired oc re view" and row: "world_row (fst s) (call_intent c) = Some x"
    and state: "it_state x = StateReservationRequested"
  shows "isl (fst (run_orch_call oc re c s)) \<and> snd (snd (run_orch_call oc re c s)) = snd s \<and>
    w_db (fst (snd (run_orch_call oc re c s))) = w_db (fst s)"
proof -
  have g: "is_get (oc_store oc) k = world_get k" "rs_get (re_store re) k = world_get k" for k
    using w by (auto simp: wired_def pg_intent_store_def pg_resolution_store_def)
  show ?thesis
    using get_row_world [OF row] state
    by (cases c) (auto simp: reserve_approved_def post_reserved_def void_reserved_def
        reconcile_observed_def resolver_resolve_ambiguous_def g)
qed

text \<open>The database after a crash right behind the first transition of \<open>ReserveApproved\<close>.\<close>

definition demo_crashed :: intent_db where
  "demo_crashed =
     snd (run_intent_call (demo_env 3) (Transition ''fi-1'' 2 StateReservationRequested) demo_approved)"

theorem requested_reservation_is_stranded_witness:
  "isl (fst (run_orch_call demo_orchestrator demo_resolver (Reserve_Approved ''fi-1'')
      (demo_world demo_crashed, demo_voided_tb))) \<and>
   isl (fst (run_orch_call demo_orchestrator demo_resolver (Reconcile_Observed ''fi-1'')
      (demo_world demo_crashed, demo_voided_tb)))"
proof -
  have "world_row (demo_world demo_crashed) ''fi-1'' = Some (the (world_row (demo_world demo_crashed) ''fi-1''))"
    "it_state (the (world_row (demo_world demo_crashed) ''fi-1'')) = StateReservationRequested"
    by code_simp+
  then show ?thesis
    using requested_reservation_is_stranded [OF demo_wired,
        of "(demo_world demo_crashed, demo_voided_tb)" "Reserve_Approved ''fi-1''"]
      requested_reservation_is_stranded [OF demo_wired,
        of "(demo_world demo_crashed, demo_voided_tb)" "Reconcile_Observed ''fi-1''"]
    by simp
qed

section \<open>What is reserved\<close>

text \<open>C21 The reservation is the intent. On a calm store, when no transfer has the reservation's identifier
  and the cluster accepts it, \<open>ReserveApproved\<close> turns an APPROVED intent into a RESERVED one and
  asks the cluster for exactly one pending transfer: the intent's amount from its debit to its
  credit account, with the configured timeout.\<close>

theorem reservation_is_the_intent:
  assumes st: "oc_store oc = pg_intent_store" and serve: "lookups_serve (sv_client (oc_ledger oc)) view"
    and ok: "intent_db_ok (w_db (fst s))" and calm: "\<And>n. calm (w_sched (fst s) n) (w_db (fst s))"
    and fresh: "inj (\<lambda>n. env_uuid (w_sched (fst s) n) 0)"
    and row: "world_row (fst s) k = Some x" "it_state x = StateApproved"
    and ids: "parse_id (oc_hash oc) (rq_debit x) = Some d" "parse_id (oc_hash oc) (rq_credit x) = Some cr"
      "d \<noteq> cr" "oc_timeout oc \<noteq> 0"
    and p: "pending_transfer_id (oc_hash oc) k = Inr p" "p \<noteq> 0" "view (snd s) p = None"
    and accepted: "cl_create_transfers (sv_client (oc_ledger oc))
       [reserve_request (oc_ledger oc) p d cr (rq_amount x) (oc_timeout oc)] (snd s)
       = (Inr [Status_Created], tb')"
  shows "\<exists>y w. reserve_approved oc k s = (Inr y, (w, tb')) \<and> it_state y = StateReserved \<and>
    create_request.truncate y = create_request.truncate x \<and> it_version y = it_version x + 2 \<and>
    world_row w k = Some y"
proof -
  let ?w = "fst s"
  define n where "n = w_tick ?w"
  have x: "sql_row (\<lambda>r. rq_id r = k) (intents (w_db ?w)) = Some x" "rq_id x = k" "x \<in> set (intents (w_db ?w))"
    using row(1) by (auto simp: world_row_def dest: sql_row_Some)
  have "rq_amount x \<noteq> 0"
    using ok x(3) by (auto simp: intent_db_ok_def row_ok_def valid_request_def)
  have nz: "d \<noteq> 0" "cr \<noteq> 0"
    using ids by (auto simp: parse_id_def split: option.splits if_splits)
  define x1 where "x1 = patch_intent (None, StateReservationRequested, env_now (w_sched ?w (Suc n))) x"
  obtain d1 where d1: "store_transition (w_sched ?w (Suc n)) k (it_version x) StateReservationRequested
      (w_db ?w) = (Inr x1, d1)" "intent_db_ok d1" "sql_row (\<lambda>r. rq_id r = k) (intents d1) = Some x1"
    "map ev_id (intent_outbox d1) = map ev_id (intent_outbox (w_db ?w)) @ [env_uuid (w_sched ?w (Suc n)) 0]"
    using transition_progress [OF ok calm x(1), of StateReservationRequested "Suc n"] row(2)
    unfolding x1_def by auto
  have "env_uuid (w_sched ?w (Suc (Suc n))) 0 \<noteq> env_uuid (w_sched ?w (Suc n)) 0"
    using injD [OF fresh, of "Suc (Suc n)" "Suc n"] by auto
  then have calm1: "calm (w_sched ?w (Suc (Suc n))) d1"
    using calm [of "Suc (Suc n)"] d1(4) by (simp add: calm_def del: set_map)
  define x2 where "x2 = patch_intent (None, StateReserved, env_now (w_sched ?w (Suc (Suc n)))) x1"
  obtain d2 where d2: "store_transition (w_sched ?w (Suc (Suc n))) k (it_version x1) StateReserved d1
      = (Inr x2, d2)" "sql_row (\<lambda>r. rq_id r = k) (intents d2) = Some x2"
    using transition_progress [OF d1(2) calm1 d1(3), of StateReserved] unfolding x2_def
    by (auto simp: x1_def)
  have get: "at_store (is_get (oc_store oc) k) s = (Inr x, (?w\<lparr>w_tick := Suc n\<rparr>, snd s))"
    using calm x by (simp add: st pg_intent_store_def at_store_def world_get_def in_world_def
        store_get_def calm_def n_def)
  have one: "at_store (is_transition (oc_store oc) k (it_version x) StateReservationRequested)
      (?w\<lparr>w_tick := Suc n\<rparr>, snd s) = (Inr x1, (?w\<lparr>w_db := d1, w_tick := Suc (Suc n)\<rparr>, snd s))"
    by (simp add: st pg_intent_store_def at_store_def in_world_def d1(1))
  have two: "at_store (is_transition (oc_store oc) k (it_version x1) StateReserved)
      (?w\<lparr>w_db := d1, w_tick := Suc (Suc n)\<rparr>, tb') =
      (Inr x2, (?w\<lparr>w_db := d2, w_tick := Suc (Suc (Suc n))\<rparr>, tb'))"
    by (simp add: st pg_intent_store_def at_store_def in_world_def d2(1))
  have res: "service_reserve (oc_ledger oc) p d cr (rq_amount x) (oc_timeout oc) (snd s) = (Inr (), tb')"
    using accepted nz p(2) ids(3,4) \<open>rq_amount x \<noteq> 0\<close>
    by (simp add: service_reserve_def validate_transfer_def create_transfer_def)
  have "at_ledger (lookup_transfer (oc_ledger oc) p) (w, snd s) = (Inr None, (w, snd s))"
    "at_ledger (service_reserve (oc_ledger oc) p d cr (rq_amount x) (oc_timeout oc)) (w, snd s)
      = (Inr (), (w, tb'))" for w :: "intent_db world"
    using p(3) lookup_served [OF serve p(2), of "(w, snd s)"] by (simp_all add: at_ledger_def res)
  then have "ensure_transfer (oc_ledger oc) p a (service_reserve (oc_ledger oc) p d cr (rq_amount x)
      (oc_timeout oc)) b (w, snd s) = (Inr (), (w, tb'))" for a b and w :: "intent_db world"
    by (simp add: ensure_transfer_def)
  moreover have "rq_debit x1 = rq_debit x" "rq_credit x1 = rq_credit x" "rq_amount x1 = rq_amount x"
    "rq_id x1 = k" using x(2) by (simp_all add: x1_def patch_intent_def)
  ultimately have "reserve_approved oc k s = (Inr x2, (?w\<lparr>w_db := d2, w_tick := Suc (Suc (Suc n))\<rparr>, tb'))"
    using p(1) by (simp add: reserve_approved_def get x(2) row(2) one reserve_requested_def ids
        pending_transfer_id_def or_reconcile_def record_state_def two)
  then show ?thesis
    using d2(2) by (simp add: x2_def x1_def world_row_def)
qed

theorem reservation_is_the_intent_witness:
  "\<exists>y w. reserve_approved demo_orchestrator ''fi-1'' (demo_world demo_approved, []) =
     (Inr y, (w, snd demo_both)) \<and> it_state y = StateReserved \<and>
     map tr_amount (snd demo_both) = [250]"
proof -
  let ?s = "(demo_world demo_approved, [] :: sim)" and ?h = "oc_hash demo_orchestrator"
  define x where "x = the (world_row (fst ?s) ''fi-1'')"
  have st: "oc_store demo_orchestrator = pg_intent_store"
    and serve: "lookups_serve (sv_client (oc_ledger demo_orchestrator)) sim_view"
    by (simp_all add: demo_orchestrator_def sim_lookups_serve)
  have ok: "intent_db_ok (w_db (fst ?s))"
    using demo_steady [of UNIV] by (simp add: steady_world_def rows_satisfy_def)
  have "list_all (\<lambda>e. length (ev_id e) < 10) (intent_outbox demo_approved)" by code_simp
  then have calm: "calm (w_sched (fst ?s) n) (w_db (fst ?s))" for n
    using fresh_by_length [of 10 _ "10 + n" "CHR ''u''"]
    by (simp add: calm_def demo_world_def demo_env_def)
  have fresh: "inj (\<lambda>n. env_uuid (w_sched (fst ?s) n) 0)"
    by (rule injI) (simp add: demo_world_def demo_env_def replicate_eq_replicate)
  have row: "world_row (fst ?s) ''fi-1'' = Some x" "it_state x = StateApproved"
    unfolding x_def by code_simp+
  have ids: "parse_id ?h (rq_debit x) = Some (the (parse_id ?h (rq_debit x)))"
    "parse_id ?h (rq_credit x) = Some (the (parse_id ?h (rq_credit x)))"
    "the (parse_id ?h (rq_debit x)) \<noteq> the (parse_id ?h (rq_credit x))" "oc_timeout demo_orchestrator \<noteq> 0"
    unfolding x_def by code_simp+
  have p: "pending_transfer_id ?h ''fi-1'' = Inr (projr (pending_transfer_id ?h ''fi-1''))"
    "projr (pending_transfer_id ?h ''fi-1'') \<noteq> 0"
    "sim_view (snd ?s) (projr (pending_transfer_id ?h ''fi-1'')) = None" by code_simp+
  have acc: "cl_create_transfers (sv_client (oc_ledger demo_orchestrator))
       [reserve_request (oc_ledger demo_orchestrator) (projr (pending_transfer_id ?h ''fi-1''))
          (the (parse_id ?h (rq_debit x))) (the (parse_id ?h (rq_credit x))) (rq_amount x)
          (oc_timeout demo_orchestrator)] (snd ?s) = (Inr [Status_Created], snd demo_both)"
    and amounts: "map tr_amount (snd demo_both) = [250]"
    unfolding x_def by code_simp+
  from reservation_is_the_intent [OF st serve ok calm fresh row ids p acc]
  obtain y w where "reserve_approved demo_orchestrator ''fi-1'' ?s = (Inr y, (w, snd demo_both))"
    "it_state y = StateReserved" by (elim exE conjE)
  then show ?thesis using amounts by (intro exI conjI)
qed

end
