(* ===== verification/Reconciliation.thy ===== *)
theory Reconciliation
  imports Intent_Model Ledger "HOL-Library.List_Lexorder" "HOL-Library.Char_ord"
    "HOL-Library.Product_Lexorder"
begin

text \<open>
  \<open>internal/reconciliation\<close>: the comparison of the settled intents with an external statement. Go
  maps are lists of the values in insertion order; the order in which \<open>range\<close> visits a map, and
  what the unstable \<open>sort.Slice\<close> does with equal keys, are the \<open>go_runtime\<close>, an argument. The
  formatted \<open>Detail\<close> texts are kept as their arguments.
\<close>

section \<open>Data\<close>

record statement_entry =
  se_ref :: string
  se_provider :: string
  se_amount :: u64
  se_currency :: string
  se_status :: string
  se_value_date :: int

datatype finding_kind =
  FindingMissingStatement | FindingUnexpectedEntry | FindingDuplicateEntry
| FindingStatusMismatch | FindingAmountMismatch | FindingCurrencyMismatch

fun kind_text :: "finding_kind \<Rightarrow> string" where
  "kind_text FindingMissingStatement = ''MISSING_STATEMENT''"
| "kind_text FindingUnexpectedEntry = ''UNEXPECTED_ENTRY''"
| "kind_text FindingDuplicateEntry = ''DUPLICATE_STATEMENT''"
| "kind_text FindingStatusMismatch = ''STATUS_MISMATCH''"
| "kind_text FindingAmountMismatch = ''AMOUNT_MISMATCH''"
| "kind_text FindingCurrencyMismatch = ''CURRENCY_MISMATCH''"

lemma kind_text_inj: "kind_text a = kind_text b \<Longrightarrow> a = b"
  by (cases a; cases b) simp_all

text \<open>Kinds compare by their text.\<close>

instantiation finding_kind :: linorder
begin

definition less_eq_finding_kind :: "finding_kind \<Rightarrow> finding_kind \<Rightarrow> bool" where
  "less_eq_finding_kind a b \<longleftrightarrow> kind_text a \<le> kind_text b"

definition less_finding_kind :: "finding_kind \<Rightarrow> finding_kind \<Rightarrow> bool" where
  "less_finding_kind a b \<longleftrightarrow> kind_text a < kind_text b"

instance
  by standard (auto simp: less_eq_finding_kind_def less_finding_kind_def intro: kind_text_inj)

end

datatype detail =
  Detail_Text string
| Detail_Not_Reconcilable intent_state
| Detail_Text_Mismatch string string
| Detail_Amount_Mismatch u64 u64

record finding =
  fd_kind :: finding_kind
  fd_ref :: string
  fd_intent :: string
  fd_provider :: string
  fd_detail :: detail

record report =
  rp_generated :: int
  rp_sha :: string
  rp_examined :: nat
  rp_seen :: nat
  rp_matched :: nat
  rp_findings :: "finding list"
  rp_ok :: bool

datatype reconcile_error =
  Rec_Empty
| Rec_Invalid_Intent string intent_error
| Rec_Duplicate_Ref string
| Rec_Missing_Field
| Rec_Unsupported_Status string string

record go_runtime =
  range_intents :: "intent list \<Rightarrow> intent list"
  range_statements :: "statement_entry list \<Rightarrow> statement_entry list"
  range_matched :: "intent list \<Rightarrow> intent list"
  sort_slice :: "finding list \<Rightarrow> finding list"

section \<open>The maps\<close>

fun index_intents :: "intent list \<Rightarrow> intent list \<Rightarrow> reconcile_error + intent list" where
  "index_intents [] acc = Inr acc"
| "index_intents (i # items) acc =
     (case validate i of
        Inl e \<Rightarrow> Inl (Rec_Invalid_Intent (rq_id i) e)
      | Inr _ \<Rightarrow>
          if \<exists>x \<in> set acc. rq_ref x = rq_ref i then Inl (Rec_Duplicate_Ref (rq_ref i))
          else index_intents items (acc @ [i]))"

definition duplicate_finding :: "string \<Rightarrow> finding" where
  "duplicate_finding ref =
     \<lparr>fd_kind = FindingDuplicateEntry, fd_ref = ref, fd_intent = [], fd_provider = [],
       fd_detail = Detail_Text ''external statement contains duplicate external_ref''\<rparr>"

fun index_statements ::
  "statement_entry list \<Rightarrow> statement_entry list \<Rightarrow> finding list
     \<Rightarrow> reconcile_error + statement_entry list \<times> finding list" where
  "index_statements [] acc fs = Inr (acc, fs)"
| "index_statements (s # ss) acc fs =
     (if se_ref s = [] \<or> se_provider s = [] \<or> se_amount s = 0 \<or> se_currency s = []
      then Inl Rec_Missing_Field
      else if se_status s \<noteq> ''SETTLED'' \<and> se_status s \<noteq> ''VOIDED''
      then Inl (Rec_Unsupported_Status (se_ref s) (se_status s))
      else if \<exists>x \<in> set acc. se_ref x = se_ref s
      then index_statements ss acc (fs @ [duplicate_finding (se_ref s)])
      else index_statements ss (acc @ [s]) fs)"

definition statement_of :: "statement_entry list \<Rightarrow> string \<Rightarrow> statement_entry option" where
  "statement_of ss ref = find (\<lambda>s. se_ref s = ref) ss"

section \<open>Findings\<close>

definition expected_status :: "intent \<Rightarrow> string" where
  "expected_status i = (if it_state i = StateVoided then ''VOIDED'' else ''SETTLED'')"

definition reconcilable :: "intent \<Rightarrow> bool" where
  "reconcilable i \<longleftrightarrow> it_state i = StatePosted \<or> it_state i = StateVoided"

definition intent_findings :: "statement_entry list \<Rightarrow> intent \<Rightarrow> finding list" where
  "intent_findings ss i =
     (case statement_of ss (rq_ref i) of
        None \<Rightarrow>
          [\<lparr>fd_kind = FindingMissingStatement, fd_ref = rq_ref i, fd_intent = rq_id i, fd_provider = [],
            fd_detail = Detail_Text ''approved internal intent has no external statement entry''\<rparr>]
      | Some s \<Rightarrow>
          (let mk = (\<lambda>k d. \<lparr>fd_kind = k, fd_ref = rq_ref i, fd_intent = rq_id i,
                             fd_provider = se_provider s, fd_detail = d\<rparr>) in
           (if \<not> reconcilable i
            then [mk FindingStatusMismatch (Detail_Not_Reconcilable (it_state i))]
            else if se_status s \<noteq> expected_status i
            then [mk FindingStatusMismatch (Detail_Text_Mismatch (expected_status i) (se_status s))]
            else []) @
           (if se_amount s \<noteq> rq_amount i
            then [mk FindingAmountMismatch (Detail_Amount_Mismatch (rq_amount i) (se_amount s))]
            else []) @
           (if se_currency s \<noteq> rq_currency i
            then [mk FindingCurrencyMismatch (Detail_Text_Mismatch (rq_currency i) (se_currency s))]
            else [])))"

definition statement_findings :: "intent list \<Rightarrow> statement_entry \<Rightarrow> finding list" where
  "statement_findings items s =
     (if \<exists>i \<in> set items. rq_ref i = se_ref s then []
      else [\<lparr>fd_kind = FindingUnexpectedEntry, fd_ref = se_ref s, fd_intent = [],
             fd_provider = se_provider s,
             fd_detail = Detail_Text ''external statement entry has no internal intent''\<rparr>])"

definition finding_before :: "finding \<Rightarrow> finding \<Rightarrow> bool" where
  "finding_before a b \<longleftrightarrow>
     (if fd_ref a = fd_ref b then fd_kind a < fd_kind b else fd_ref a < fd_ref b)"

definition is_match :: "statement_entry list \<Rightarrow> intent \<Rightarrow> bool" where
  "is_match ss i \<longleftrightarrow>
     (case statement_of ss (rq_ref i) of
        None \<Rightarrow> False
      | Some s \<Rightarrow> reconcilable i \<and> se_amount s = rq_amount i \<and> se_currency s = rq_currency i \<and>
          se_status s = expected_status i)"

definition reconcile ::
  "go_runtime \<Rightarrow> hashing \<Rightarrow> int \<Rightarrow> intent list \<Rightarrow> statement_entry list \<Rightarrow> string
     \<Rightarrow> reconcile_error + report" where
  "reconcile g h now intents statements input =
     (if intents = [] \<and> statements = [] then Inl Rec_Empty
      else case index_intents intents [] of
             Inl e \<Rightarrow> Inl e
           | Inr items \<Rightarrow>
               (case index_statements statements [] [] of
                  Inl e \<Rightarrow> Inl e
                | Inr (ss, dups) \<Rightarrow>
                    (let findings = sort_slice g
                           (dups @ concat (map (intent_findings ss) (range_intents g items))
                              @ concat (map (statement_findings items) (range_statements g ss)));
                         matched = length (filter (is_match ss) (range_matched g items))
                     in Inr \<lparr>rp_generated = now, rp_sha = hex_encode (sha256 h input),
                              rp_examined = length intents, rp_seen = length statements,
                              rp_matched = matched, rp_findings = findings,
                              rp_ok = (findings = [] \<and> matched = length intents)\<rparr>)))"

section \<open>What the runtime may do\<close>

definition runtime_ok :: "go_runtime \<Rightarrow> bool" where
  "runtime_ok g \<longleftrightarrow>
     (\<forall>xs. mset (range_intents g xs) = mset xs) \<and> (\<forall>xs. mset (range_statements g xs) = mset xs) \<and>
     (\<forall>xs. mset (range_matched g xs) = mset xs) \<and>
     (\<forall>xs. mset (sort_slice g xs) = mset xs \<and>
        sorted_wrt (\<lambda>a b. \<not> finding_before b a) (sort_slice g xs))"

definition finding_key :: "finding \<Rightarrow> string \<times> finding_kind" where
  "finding_key f = (fd_ref f, fd_kind f)"

lemma finding_before_key: "\<not> finding_before b a \<longleftrightarrow> finding_key a \<le> finding_key b"
  by (auto simp: finding_before_def finding_key_def less_eq_prod_def)

text \<open>Findings with the same key are the same finding, so there is one sorted order.\<close>

lemma sorted_by_key_unique:
  assumes "mset xs = mset ys" and "inj_on f (set xs)"
    and "sorted (map f xs)" and "sorted (map f ys)"
  shows "xs = ys"
proof -
  have "map f xs = map f ys"
    using assms by (metis mset_map properties_for_sort)
  moreover have "set xs = set ys" using assms(1) by (rule mset_eq_setD)
  ultimately show ?thesis using assms(2) by (metis inj_on_map_eq_map sup.idem)
qed

end
