(* ===== verification/Reconciliation_Props.thy ===== *)
theory Reconciliation_Props
  imports Reconciliation Ledger_Props Intent_Props Database
begin

text \<open>The report does not depend on Go's map order, and it is clean exactly on matching books.\<close>

lemma index_intents_Inr:
  "index_intents items acc = Inr r \<Longrightarrow> r = acc @ items \<and> (\<forall>i \<in> set items. valid_request i) \<and>
     (distinct (map rq_ref acc) \<longrightarrow> distinct (map rq_ref (acc @ items)))"
proof (induction items arbitrary: acc)
  case (Cons i items)
  have v: "validate i = Inr ()" and n: "rq_ref i \<notin> rq_ref ` set acc"
    and rest: "index_intents items (acc @ [i]) = Inr r"
    using Cons.prems by (auto split: sum.splits if_splits)
  show ?case using Cons.IH [OF rest] v n by (auto simp: validate_iff)
qed simp

text \<open>The statement map keeps the first entry of each reference and reports the others.\<close>

lemma index_statements_Inr:
  "index_statements ss acc fs = Inr (r, d) \<Longrightarrow>
     (distinct (map se_ref acc) \<longrightarrow> distinct (map se_ref r)) \<and>
     (\<exists>more. d = fs @ map duplicate_finding more) \<and> length r + length d = length acc + length fs + length ss \<and>
     (d = fs \<longrightarrow> r = acc @ ss) \<and> set r \<subseteq> set acc \<union> set ss"
proof (induction ss arbitrary: acc fs)
  case (Cons s ss)
  show ?case
  proof (cases "\<exists>x \<in> set acc. se_ref x = se_ref s")
    case True
    then have rest: "index_statements ss acc (fs @ [duplicate_finding (se_ref s)]) = Inr (r, d)"
      using Cons.prems by (simp split: if_splits)
    obtain extra where x: "d = fs @ duplicate_finding (se_ref s) # map duplicate_finding extra"
      using Cons.IH [OF rest] by auto
    then have "d = fs @ map duplicate_finding (se_ref s # extra)" by simp
    then have "\<exists>more. d = fs @ map duplicate_finding more" by blast
    then show ?thesis using Cons.IH [OF rest] x by auto
  next
    case False
    then have rest: "index_statements ss (acc @ [s]) fs = Inr (r, d)"
      using Cons.prems by (simp split: if_splits)
    show ?thesis using Cons.IH [OF rest] False by auto
  qed
qed auto

lemma statement_of_distinct:
  "distinct (map se_ref ss) \<Longrightarrow> statement_of ss ref = Some s \<longleftrightarrow> s \<in> set ss \<and> se_ref s = ref"
  by (induction ss) (auto simp: statement_of_def)

lemma statement_of_None: "statement_of ss ref = None \<longleftrightarrow> (\<forall>s \<in> set ss. se_ref s \<noteq> ref)"
  by (auto simp: statement_of_def find_None_iff)

lemma intent_findings_ref: "f \<in> set (intent_findings ss i) \<Longrightarrow> fd_ref f = rq_ref i"
  by (auto simp: intent_findings_def Let_def split: option.splits if_splits)

lemma intent_findings_kind:
  "f \<in> set (intent_findings ss i) \<Longrightarrow> fd_kind f \<noteq> FindingDuplicateEntry \<and> fd_kind f \<noteq> FindingUnexpectedEntry"
  by (auto simp: intent_findings_def Let_def split: option.splits if_splits)

lemma intent_findings_one_of_a_kind:
  "f \<in> set (intent_findings ss i) \<Longrightarrow> f' \<in> set (intent_findings ss i) \<Longrightarrow> fd_kind f = fd_kind f' \<Longrightarrow> f = f'"
  by (auto simp: intent_findings_def Let_def split: option.splits if_splits)

lemma intent_findings_Nil: "intent_findings ss i = [] \<longleftrightarrow> is_match ss i"
  by (auto simp: intent_findings_def is_match_def Let_def split: option.splits)

lemma statement_findings_mem:
  "f \<in> set (statement_findings items s) \<longleftrightarrow> (\<forall>i \<in> set items. rq_ref i \<noteq> se_ref s) \<and>
     f = \<lparr>fd_kind = FindingUnexpectedEntry, fd_ref = se_ref s, fd_intent = [],
          fd_provider = se_provider s,
          fd_detail = Detail_Text ''external statement entry has no internal intent''\<rparr>"
  by (auto simp: statement_findings_def)

text \<open>All findings of a run, before the sort.\<close>

definition all_findings :: "finding list \<Rightarrow> statement_entry list \<Rightarrow> intent list \<Rightarrow> finding multiset" where
  "all_findings dups ss items =
     mset dups + mset (concat (map (intent_findings ss) items))
       + mset (concat (map (statement_findings items) ss))"

lemma mset_concat_perm:
  "mset xs = mset ys \<Longrightarrow> mset (concat (map f xs)) = mset (concat (map f ys))"
proof -
  have "mset (concat (map f zs)) = sum_mset (image_mset (\<lambda>x. mset (f x)) (mset zs))" for zs
    by (induction zs) simp_all
  moreover assume "mset xs = mset ys"
  ultimately show ?thesis by simp
qed

lemma findings_key_inj:
  assumes i: "distinct (map rq_ref items)" and s: "distinct (map se_ref ss)"
    and d: "dups = map duplicate_finding extra"
  shows "inj_on finding_key (set_mset (all_findings dups ss items))"
proof (rule inj_onI)
  fix f f'
  assume f: "f \<in># all_findings dups ss items" and f': "f' \<in># all_findings dups ss items"
    and "finding_key f = finding_key f'"
  then have k: "fd_ref f = fd_ref f'" "fd_kind f = fd_kind f'" by (auto simp: finding_key_def)
  have cases: "(\<exists>m. x = duplicate_finding m) \<or> (\<exists>i \<in> set items. x \<in> set (intent_findings ss i)) \<or>
      (\<exists>s \<in> set ss. x \<in> set (statement_findings items s))"
    if "x \<in># all_findings dups ss items" for x
    using that d by (auto simp: all_findings_def)
  have ui: "a = b" if "a \<in> set items" "b \<in> set items" "rq_ref a = rq_ref b" for a b
    using i that by (auto simp: distinct_map dest: inj_onD)
  have us: "a = b" if "a \<in> set ss" "b \<in> set ss" "se_ref a = se_ref b" for a b
    using s that by (auto simp: distinct_map dest: inj_onD)
  have from_intent: "\<exists>i \<in> set items. x \<in> set (intent_findings ss i)"
    if "x \<in># all_findings dups ss items" "fd_kind x \<noteq> FindingDuplicateEntry"
      "fd_kind x \<noteq> FindingUnexpectedEntry" for x
    using cases [OF that(1)] that(2,3) by (auto simp: duplicate_finding_def statement_findings_mem)
  show "f = f'"
  proof (cases "fd_kind f = FindingDuplicateEntry \<or> fd_kind f = FindingUnexpectedEntry")
    case True
    then have "\<not> (\<exists>i \<in> set items. x \<in> set (intent_findings ss i))" if "fd_kind x = fd_kind f" for x
      using that intent_findings_kind by metis
    then have "(\<exists>m. x = duplicate_finding m) \<or> (\<exists>s \<in> set ss. x \<in> set (statement_findings items s))"
      if "x = f \<or> x = f'" for x
      using that cases [OF f] cases [OF f'] k by metis
    from this [of f] this [of f'] show ?thesis
      using k by (auto simp: duplicate_finding_def statement_findings_mem) (metis us)
  next
    case False
    then obtain a b where "a \<in> set items" "f \<in> set (intent_findings ss a)"
      "b \<in> set items" "f' \<in> set (intent_findings ss b)"
      using from_intent [OF f] from_intent [OF f'] k by auto
    moreover from this have "a = b" using ui k intent_findings_ref by metis
    ultimately show ?thesis using intent_findings_one_of_a_kind k by metis
  qed
qed

text \<open>A successful run in terms of the indexed inputs.\<close>

lemma reconcile_Inr:
  assumes g: "runtime_ok g" and run: "reconcile g h now ints statements input = Inr rep"
  obtains ss dups extra where "index_statements statements [] [] = Inr (ss, dups)"
    "dups = map duplicate_finding extra" "distinct (map se_ref ss)" "distinct (map rq_ref ints)"
    "mset (rp_findings rep) = all_findings dups ss ints"
    "sorted (map finding_key (rp_findings rep))"
    "rp_matched rep = length (filter (is_match ss) ints)"
    "rp_ok rep \<longleftrightarrow> rp_findings rep = [] \<and> rp_matched rep = length ints"
    "rep = \<lparr>rp_generated = now, rp_sha = hex_encode (sha256 h input), rp_examined = length ints,
       rp_seen = length statements, rp_matched = rp_matched rep, rp_findings = rp_findings rep,
       rp_ok = (rp_findings rep = [] \<and> rp_matched rep = length ints)\<rparr>"
proof -
  obtain items where ii: "index_intents ints [] = Inr items"
    using run by (auto simp: reconcile_def split: if_splits sum.splits)
  then have items: "items = ints" "distinct (map rq_ref ints)"
    using index_intents_Inr by fastforce+
  obtain ss dups where si: "index_statements statements [] [] = Inr (ss, dups)"
    using run ii by (auto simp: reconcile_def split: if_splits sum.splits)
  obtain extra where s: "distinct (map se_ref ss)" "dups = map duplicate_finding extra"
    using index_statements_Inr [OF si] by auto
  define fs where "fs = dups @ concat (map (intent_findings ss) (range_intents g ints))
    @ concat (map (statement_findings ints) (range_statements g ss))"
  have rep: "rep = \<lparr>rp_generated = now, rp_sha = hex_encode (sha256 h input), rp_examined = length ints,
       rp_seen = length statements, rp_matched = length (filter (is_match ss) (range_matched g ints)),
       rp_findings = sort_slice g fs,
       rp_ok = (sort_slice g fs = [] \<and> length (filter (is_match ss) (range_matched g ints)) = length ints)\<rparr>"
    using run ii si items(1) by (simp add: reconcile_def Let_def fs_def split: if_splits)
  have r: "mset (range_intents g ints) = mset ints" "mset (range_statements g ss) = mset ss"
    "mset (range_matched g ints) = mset ints" "mset (sort_slice g fs) = mset fs"
    "sorted_wrt (\<lambda>a b. \<not> finding_before b a) (sort_slice g fs)"
    using g by (simp_all add: runtime_ok_def)
  have "length (filter (is_match ss) (range_matched g ints)) = length (filter (is_match ss) ints)"
    using r(3) by (metis mset_filter size_mset)
  moreover have "mset fs = all_findings dups ss ints"
    using mset_concat_perm [OF r(1), of "intent_findings ss"]
      mset_concat_perm [OF r(2), of "statement_findings ints"]
    by (simp add: fs_def all_findings_def)
  moreover have "sorted (map finding_key (sort_slice g fs))"
    using r(5) by (simp add: finding_before_key sorted_map)
  ultimately show ?thesis
    using that [OF si s(2,1) items(2)] r(4) rep by simp
qed

lemma reconcile_Inl:
  "(\<exists>e. reconcile g h now ints statements input = Inl e \<and>
      reconcile g' h now ints statements input = Inl e) \<or>
   (\<exists>r r'. reconcile g h now ints statements input = Inr r \<and>
      reconcile g' h now ints statements input = Inr r')"
  by (auto simp: reconcile_def Let_def split: sum.splits)

section \<open>Properties\<close>

text \<open>C31 The report is deterministic. Go's random map order and the unstable sort do not show: two runs
  on the same input at the same time, whatever order the runtime chooses, yield the same error or
  the same report, with the findings in the same order.\<close>

theorem report_is_deterministic:
  assumes g: "runtime_ok g" and g': "runtime_ok g'"
  shows "reconcile g h now ints statements input = reconcile g' h now ints statements input"
proof (cases "reconcile g h now ints statements input")
  case (Inl e)
  then show ?thesis using reconcile_Inl [of g h now ints statements input g'] by auto
next
  case (Inr r)
  then obtain r' where r': "reconcile g' h now ints statements input = Inr r'"
    using reconcile_Inl [of g h now ints statements input g'] by auto
  obtain ss dups extra where a: "index_statements statements [] [] = Inr (ss, dups)"
    "dups = map duplicate_finding extra" "distinct (map se_ref ss)" "distinct (map rq_ref ints)"
    "mset (rp_findings r) = all_findings dups ss ints" "sorted (map finding_key (rp_findings r))"
    "rp_matched r = length (filter (is_match ss) ints)"
    "r = \<lparr>rp_generated = now, rp_sha = hex_encode (sha256 h input), rp_examined = length ints,
       rp_seen = length statements, rp_matched = rp_matched r, rp_findings = rp_findings r,
       rp_ok = (rp_findings r = [] \<and> rp_matched r = length ints)\<rparr>"
    by (rule reconcile_Inr [OF g Inr])
  obtain ss' dups' extra' where b: "index_statements statements [] [] = Inr (ss', dups')"
    "mset (rp_findings r') = all_findings dups' ss' ints" "sorted (map finding_key (rp_findings r'))"
    "rp_matched r' = length (filter (is_match ss') ints)"
    "r' = \<lparr>rp_generated = now, rp_sha = hex_encode (sha256 h input), rp_examined = length ints,
       rp_seen = length statements, rp_matched = rp_matched r', rp_findings = rp_findings r',
       rp_ok = (rp_findings r' = [] \<and> rp_matched r' = length ints)\<rparr>"
    by (rule reconcile_Inr [OF g' r'])
  have same: "ss' = ss" "dups' = dups" using a(1) b(1) by simp_all
  have "rp_findings r = rp_findings r'"
  proof (rule sorted_by_key_unique [where f = finding_key])
    show "mset (rp_findings r) = mset (rp_findings r')" using a(5) b(2) same by simp
    have "set (rp_findings r) = set_mset (all_findings dups ss ints)"
      using a(5) by (metis set_mset_mset)
    then show "inj_on finding_key (set (rp_findings r))"
      using findings_key_inj [OF a(4,3,2)] by simp
  qed (use a(6) b(3) in simp_all)
  then have "r = r'" using a(7,8) b(4,5) same by metis
  then show ?thesis using Inr r' by simp
qed

definition runtime_a :: go_runtime where
  "runtime_a = \<lparr>range_intents = (\<lambda>x. x), range_statements = (\<lambda>x. x), range_matched = (\<lambda>x. x),
     sort_slice = sort_by (\<lambda>a b. finding_key a \<le> finding_key b)\<rparr>"

definition runtime_b :: go_runtime where
  "runtime_b = \<lparr>range_intents = rev, range_statements = rev, range_matched = rev,
     sort_slice = sort_by (\<lambda>a b. finding_key a \<le> finding_key b) \<circ> rev\<rparr>"

lemma runtimes_ok: "runtime_ok runtime_a" "runtime_ok runtime_b"
  by (auto simp: runtime_ok_def runtime_a_def runtime_b_def finding_before_key
      sorted_sort_by [unfolded sorted_map])

definition demo_posted_intent :: intent where
  "demo_posted_intent = (hd (intents demo_approved))\<lparr>it_state := StatePosted\<rparr>"

definition demo_statement :: statement_entry where
  "demo_statement = \<lparr>se_ref = ''ref-1'', se_provider = ''bank-9'', se_amount = 250,
     se_currency = ''NGN'', se_status = ''SETTLED'', se_value_date = 5\<rparr>"

definition demo_strays :: "statement_entry list" where
  "demo_strays = [demo_statement\<lparr>se_ref := ''ref-9''\<rparr>, demo_statement\<lparr>se_amount := 1\<rparr>, demo_statement]"

theorem report_is_deterministic_witness:
  "reconcile runtime_a demo_hashing 7 [demo_posted_intent] demo_strays ''in'' =
   reconcile runtime_b demo_hashing 7 [demo_posted_intent] demo_strays ''in''"
  by (rule report_is_deterministic [OF runtimes_ok])

text \<open>One line of the books.\<close>

definition intent_line :: "intent \<Rightarrow> string \<times> u64 \<times> string \<times> string" where
  "intent_line i = (rq_ref i, rq_amount i, rq_currency i, expected_status i)"

definition statement_line :: "statement_entry \<Rightarrow> string \<times> u64 \<times> string \<times> string" where
  "statement_line s = (se_ref s, se_amount s, se_currency s, se_status s)"

lemma index_statements_distinct:
  "index_statements ss acc fs = Inr (r, d) \<Longrightarrow> distinct (map se_ref (acc @ ss)) \<Longrightarrow> d = fs"
  by (induction ss arbitrary: acc fs) (auto split: if_splits, (metis imageI)+)

lemma is_match_iff:
  assumes d: "distinct (map se_ref ss)"
  shows "is_match ss i \<longleftrightarrow> reconcilable i \<and> (\<exists>s \<in> set ss. intent_line i = statement_line s)"
proof (cases "statement_of ss (rq_ref i)")
  case None
  then have "\<forall>s \<in> set ss. intent_line i \<noteq> statement_line s"
    by (auto simp: statement_of_None intent_line_def statement_line_def)
  then show ?thesis using None by (simp add: is_match_def)
next
  case (Some t)
  then have t: "t \<in> set ss" "se_ref t = rq_ref i" using statement_of_distinct [OF d] by blast+
  have "s = t" if s: "s \<in> set ss" "intent_line i = statement_line s" for s
  proof (rule distinct_key_unique [OF d s(1) t(1)])
    show "se_ref s = se_ref t" using s(2) t(2) by (simp add: intent_line_def statement_line_def)
  qed
  then have "(\<exists>s \<in> set ss. intent_line i = statement_line s) \<longleftrightarrow> intent_line i = statement_line t"
    using t(1) by blast
  moreover have "intent_line i = statement_line t \<longleftrightarrow> se_amount t = rq_amount i \<and>
      se_currency t = rq_currency i \<and> se_status t = expected_status i"
    using t by (auto simp: intent_line_def statement_line_def)
  ultimately show ?thesis using Some by (simp add: is_match_def)
qed

lemma lines_set_eq:
  assumes d: "distinct (map se_ref ss)"
  shows "(\<forall>i \<in> set items. \<exists>s \<in> set ss. intent_line i = statement_line s) \<and>
    (\<forall>s \<in> set ss. \<exists>i \<in> set items. rq_ref i = se_ref s) \<longleftrightarrow>
    set (map intent_line items) = set (map statement_line ss)" (is "?l \<longleftrightarrow> ?r")
proof
  assume l: ?l
  have "statement_line s \<in> intent_line ` set items" if s: "s \<in> set ss" for s
  proof -
    obtain i where i: "i \<in> set items" "rq_ref i = se_ref s" using l s by blast
    then obtain s' where s': "s' \<in> set ss" "intent_line i = statement_line s'" using l by blast
    then have "se_ref s' = se_ref s" using i by (simp add: intent_line_def statement_line_def)
    then have "s' = s" using d s s'(1) by (auto simp: distinct_map dest: inj_onD)
    then show ?thesis using i s' by (metis imageI)
  qed
  then show ?r using l by auto
next
  assume ?r
  then have r: "intent_line ` set items = statement_line ` set ss" by simp
  have "\<exists>s \<in> set ss. intent_line i = statement_line s" if "i \<in> set items" for i
    using that r by blast
  moreover have "\<exists>i \<in> set items. rq_ref i = se_ref s" if "s \<in> set ss" for s
  proof -
    have "statement_line s \<in> intent_line ` set items" using that r by blast
    then obtain i where "i \<in> set items" "intent_line i = statement_line s" by (auto simp: image_iff)
    then show ?thesis by (auto simp: intent_line_def statement_line_def)
  qed
  ultimately show ?l by blast
qed

text \<open>C29 Clean means equal books. A report says that the reconciliation is OK exactly when every intent is
  posted or voided and the intents and the statement hold the same lines, with the same
  multiplicities, of reference, amount, currency and status.\<close>

theorem clean_report_iff_books_agree:
  assumes g: "runtime_ok g" and run: "reconcile g h now ints statements input = Inr rep"
  shows "rp_ok rep \<longleftrightarrow> (\<forall>i \<in> set ints. reconcilable i) \<and>
    mset (map intent_line ints) = mset (map statement_line statements)"
proof -
  obtain ss dups extra where a: "index_statements statements [] [] = Inr (ss, dups)"
    "dups = map duplicate_finding extra" "distinct (map se_ref ss)" "distinct (map rq_ref ints)"
    "mset (rp_findings rep) = all_findings dups ss ints"
    "rp_matched rep = length (filter (is_match ss) ints)"
    "rp_ok rep \<longleftrightarrow> rp_findings rep = [] \<and> rp_matched rep = length ints"
    by (rule reconcile_Inr [OF g run])
  note si = index_statements_Inr [OF a(1)]
  have "rp_findings rep = [] \<longleftrightarrow> all_findings dups ss ints = {#}" using a(5) by auto
  also have "\<dots> \<longleftrightarrow> dups = [] \<and> (\<forall>i \<in> set ints. is_match ss i) \<and>
      (\<forall>s \<in> set ss. statement_findings ints s = [])"
    by (auto simp: all_findings_def intent_findings_Nil)
  also have "\<dots> \<longleftrightarrow> dups = [] \<and> (\<forall>i \<in> set ints. is_match ss i) \<and>
      (\<forall>s \<in> set ss. \<exists>i \<in> set ints. rq_ref i = se_ref s)"
    by (simp add: statement_findings_def)
  finally have nil: "rp_findings rep = [] \<longleftrightarrow> dups = [] \<and> (\<forall>i \<in> set ints. is_match ss i) \<and>
      (\<forall>s \<in> set ss. \<exists>i \<in> set ints. rq_ref i = se_ref s)" .
  have "rp_matched rep = length ints" if "\<forall>i \<in> set ints. is_match ss i"
    using that a(6) by (simp add: filter_True)
  then have none: "rp_ok rep \<longleftrightarrow> dups = [] \<and> (\<forall>i \<in> set ints. is_match ss i) \<and>
      (\<forall>s \<in> set ss. \<exists>i \<in> set ints. rq_ref i = se_ref s)"
    using a(7) nil by blast
  note m = is_match_iff [OF a(3)]
  have di: "distinct (map intent_line ints)"
    using a(4) by (auto simp: distinct_map intent_line_def inj_on_def)
  show ?thesis
  proof (cases "dups = []")
    case True
    then have ss: "ss = statements" using si by simp
    have ds: "distinct (map statement_line statements)"
      using a(3) ss by (auto simp: distinct_map statement_line_def inj_on_def)
    have "(\<forall>i \<in> set ints. \<exists>s \<in> set statements. intent_line i = statement_line s) \<and>
        (\<forall>s \<in> set statements. \<exists>i \<in> set ints. rq_ref i = se_ref s) \<longleftrightarrow>
        set (map intent_line ints) = set (map statement_line statements)"
      using lines_set_eq [of statements ints] a(3) ss by simp
    then show ?thesis
      using none m True ss set_eq_iff_mset_eq_distinct [OF di ds] by blast
  next
    case False
    have "\<not> distinct (map se_ref statements)"
      using False index_statements_distinct [OF a(1)] by auto
    moreover have "map rq_ref ints = map fst (map intent_line ints)"
      "map se_ref statements = map fst (map statement_line statements)"
      by (simp_all add: intent_line_def statement_line_def)
    ultimately have "mset (map intent_line ints) \<noteq> mset (map statement_line statements)"
      using a(4) by (metis mset_eq_imp_distinct_iff mset_map)
    then show ?thesis using none False by simp
  qed
qed

definition demo_report :: report where
  "demo_report = projr (reconcile runtime_b demo_hashing 7 [demo_posted_intent] [demo_statement] ''in'')"

theorem clean_report_iff_books_agree_witness:
  "rp_ok demo_report"
proof -
  have "reconcile runtime_b demo_hashing 7 [demo_posted_intent] [demo_statement] ''in'' = Inr demo_report"
    by code_simp
  moreover have "reconcilable demo_posted_intent" "intent_line demo_posted_intent = statement_line demo_statement"
    by code_simp+
  ultimately show ?thesis
    using clean_report_iff_books_agree [OF runtimes_ok(2)] by simp
qed

end
