(* ===== verification/Cvff_Model.thy ===== *)
theory Cvff_Model
  imports Prelude
begin

text \<open>
  \<open>internal/cvff/application.go\<close>: the states, roles and decisions of a CVFF application, the
  operations of its state machine, and the service levels of the underwriting tiers. A role, a
  decision and a resolution are Go strings: values outside the declared constants are the \<open>Other\<close>
  constructors. A role map is an association list with distinct keys.
\<close>

section \<open>Data\<close>

datatype app_state =
  StateSubmitted | StateUnderwritingPrimary | StateUnderwritingSecondary | StateUnderwritingTertiary
| StateNIMASAApproval | StateBankConfirmation | StateDisbursementPending | StateDisbursed
| StateAudited | StateRejected | StateReconciliationRequired

datatype role =
  RoleUnderwriterPrimary | RoleUnderwriterSecondary | RoleUnderwriterTertiary
| RoleNIMASAApprover | RoleReceivingBank | RoleBeneficiary | RoleReconciliationOfficer
| RoleOther string

datatype decision = DecisionApprove | DecisionReject | DecisionOther string

datatype recon_resolution = ResumeDisbursement | ResolveReject | UnknownResolution string

datatype cvff_error =
  ErrNotFound | ErrConflict | ErrInvalidState | ErrRoleSeparation | ErrRoleNotAssigned
| ErrSequenceViolation | ErrTerminalState | ErrRoleAssignmentInvalid | ErrResolutionInvalid
| ErrCvffText string
| ErrCvffDatabase string

record application =
  ap_id :: string
  ap_ref :: string
  ap_beneficiary :: string
  ap_amount :: u64
  ap_currency :: string
  ap_state :: app_state
  ap_created :: int
  ap_updated :: int
  ap_version :: int

record approval =
  av_id :: string
  av_app :: string
  av_role :: role
  av_principal :: string
  av_decision :: decision
  av_from :: app_state
  av_to :: app_state
  av_created :: int

type_synonym assignments = "(role \<times> string) list"

section \<open>Validation\<close>

definition validate_identifier :: "string \<Rightarrow> cvff_error + unit" where
  "validate_identifier v =
     (if v = [] \<or> trim_space v \<noteq> v \<or> length v > 256 \<or> \<not> id_pattern v
      then Inl (ErrCvffText ''not canonical approved identifier text'') else Inr ())"

definition validate_currency :: "string \<Rightarrow> cvff_error + unit" where
  "validate_currency c =
     (if c = ''NGN'' \<or> c = ''USD'' then Inr ()
      else Inl (ErrCvffText ''currency is not an approved ledger currency (NGN, USD)''))"

definition validate_application :: "application \<Rightarrow> cvff_error + unit" where
  "validate_application a =
     (if \<exists>v \<in> set [ap_id a, ap_ref a, ap_beneficiary a]. validate_identifier v \<noteq> Inr ()
      then Inl (ErrCvffText ''not canonical approved identifier text'')
      else if ap_amount a = 0 then Inl (ErrCvffText ''amount must be non-zero'')
      else validate_currency (ap_currency a))"

definition chain_roles :: "role list" where
  "chain_roles = [RoleUnderwriterPrimary, RoleUnderwriterSecondary, RoleUnderwriterTertiary,
     RoleNIMASAApprover, RoleReceivingBank, RoleBeneficiary]"

fun check_chain_roles :: "role list \<Rightarrow> assignments \<Rightarrow> cvff_error + unit" where
  "check_chain_roles [] m = Inr ()"
| "check_chain_roles (r # rs) m =
     (case map_of m r of
        None \<Rightarrow> Inl ErrRoleAssignmentInvalid
      | Some p \<Rightarrow>
          (case validate_identifier p of Inl e \<Rightarrow> Inl e | Inr _ \<Rightarrow> check_chain_roles rs m))"

definition validate_role_assignments :: "assignments \<Rightarrow> cvff_error + unit" where
  "validate_role_assignments m =
     (case check_chain_roles chain_roles m of
        Inl e \<Rightarrow> Inl e
      | Inr _ \<Rightarrow> if distinct (map snd m) then Inr () else Inl ErrRoleSeparation)"

section \<open>The state machine\<close>

fun required_role :: "app_state \<Rightarrow> role option" where
  "required_role StateUnderwritingPrimary = Some RoleUnderwriterPrimary"
| "required_role StateUnderwritingSecondary = Some RoleUnderwriterSecondary"
| "required_role StateUnderwritingTertiary = Some RoleUnderwriterTertiary"
| "required_role StateNIMASAApproval = Some RoleNIMASAApprover"
| "required_role StateBankConfirmation = Some RoleReceivingBank"
| "required_role StateDisbursementPending = Some RoleBeneficiary"
| "required_role _ = None"

fun approved_successor :: "app_state \<Rightarrow> app_state option" where
  "approved_successor StateSubmitted = Some StateUnderwritingPrimary"
| "approved_successor StateUnderwritingPrimary = Some StateUnderwritingSecondary"
| "approved_successor StateUnderwritingSecondary = Some StateUnderwritingTertiary"
| "approved_successor StateUnderwritingTertiary = Some StateNIMASAApproval"
| "approved_successor StateNIMASAApproval = Some StateBankConfirmation"
| "approved_successor StateBankConfirmation = Some StateDisbursementPending"
| "approved_successor StateDisbursementPending = Some StateDisbursed"
| "approved_successor StateDisbursed = Some StateAudited"
| "approved_successor _ = None"

definition terminal :: "app_state \<Rightarrow> bool" where
  "terminal s \<longleftrightarrow> s = StateRejected \<or> s = StateAudited"

type_synonym move = "application \<Rightarrow> cvff_error + application"

definition begin_underwriting :: move where
  "begin_underwriting current =
     (if terminal (ap_state current) then Inl ErrTerminalState
      else if ap_state current \<noteq> StateSubmitted then Inl ErrSequenceViolation
      else Inr (current\<lparr>ap_state := the (approved_successor StateSubmitted)\<rparr>))"

definition apply_decision ::
  "application \<Rightarrow> assignments \<Rightarrow> string \<Rightarrow> decision \<Rightarrow> cvff_error + application \<times> approval" where
  "apply_decision current m who d =
     (if terminal (ap_state current) then Inl ErrTerminalState
      else if d \<noteq> DecisionApprove \<and> d \<noteq> DecisionReject then Inl ErrInvalidState
      else case required_role (ap_state current) of
             None \<Rightarrow> Inl ErrSequenceViolation
           | Some required \<Rightarrow>
               (case validate_identifier who of
                  Inl e \<Rightarrow> Inl e
                | Inr _ \<Rightarrow>
                    if map_of m required \<noteq> Some who then Inl ErrRoleNotAssigned
                    else if \<exists>(r, holder) \<in> set m. holder = who \<and> r \<noteq> required
                    then Inl ErrRoleSeparation
                    else
                      (let entry = (\<lambda>next. \<lparr>av_id = [], av_app = ap_id current, av_role = required,
                             av_principal = who, av_decision = d, av_from = ap_state current,
                             av_to = next, av_created = 0\<rparr>)
                       in if d = DecisionReject
                          then Inr (current\<lparr>ap_state := StateRejected\<rparr>, entry StateRejected)
                          else case approved_successor (ap_state current) of
                                 None \<Rightarrow> Inl ErrInvalidState
                               | Some next \<Rightarrow> Inr (current\<lparr>ap_state := next\<rparr>, entry next))))"

definition mark_audited :: move where
  "mark_audited current =
     (if terminal (ap_state current) then Inl ErrTerminalState
      else if ap_state current \<noteq> StateDisbursed then Inl ErrSequenceViolation
      else Inr (current\<lparr>ap_state := StateAudited\<rparr>))"

definition require_reconciliation :: move where
  "require_reconciliation current =
     (if terminal (ap_state current) then Inl ErrTerminalState
      else Inr (current\<lparr>ap_state := StateReconciliationRequired\<rparr>))"

definition resumable :: "app_state \<Rightarrow> bool" where
  "resumable s \<longleftrightarrow> s \<in> {StateUnderwritingPrimary, StateUnderwritingSecondary,
     StateUnderwritingTertiary, StateNIMASAApproval, StateBankConfirmation, StateDisbursementPending}"

definition resolve_reconciliation_to :: "recon_resolution \<Rightarrow> app_state \<Rightarrow> move" where
  "resolve_reconciliation_to res target current =
     (if ap_state current \<noteq> StateReconciliationRequired then Inl ErrSequenceViolation
      else case res of
             ResumeDisbursement \<Rightarrow>
               if \<not> resumable target then Inl ErrResolutionInvalid
               else Inr (current\<lparr>ap_state := target\<rparr>)
           | ResolveReject \<Rightarrow> Inr (current\<lparr>ap_state := StateRejected\<rparr>)
           | UnknownResolution _ \<Rightarrow> Inl ErrResolutionInvalid)"

definition resolve_reconciliation :: "recon_resolution \<Rightarrow> move" where
  "resolve_reconciliation res = resolve_reconciliation_to res StateDisbursementPending"

section \<open>Service levels\<close>

datatype tier = TierPrimary | TierSecondary | TierTertiary | TierOther string

fun sla_business_days :: "tier \<Rightarrow> cvff_error + nat" where
  "sla_business_days TierPrimary = Inr 5"
| "sla_business_days TierSecondary = Inr 3"
| "sla_business_days TierTertiary = Inr 2"
| "sla_business_days (TierOther _) = Inl (ErrCvffText ''unknown underwriting tier'')"

fun tier_for_state :: "app_state \<Rightarrow> tier option" where
  "tier_for_state StateUnderwritingPrimary = Some TierPrimary"
| "tier_for_state StateUnderwritingSecondary = Some TierSecondary"
| "tier_for_state StateUnderwritingTertiary = Some TierTertiary"
| "tier_for_state _ = None"

text \<open>Day 0 of the epoch is a Thursday; \<open>time.Saturday\<close> is 6 and \<open>time.Sunday\<close> is 0.\<close>

definition weekday :: "gtime \<Rightarrow> int" where
  "weekday t = (day_of t + 4) mod 7"

definition add_ns :: "gtime \<Rightarrow> int \<Rightarrow> gtime" where
  "add_ns t n = t\<lparr>gt_inst := gt_inst t + n\<rparr>"

definition weekend :: "gtime \<Rightarrow> bool" where
  "weekend t \<longleftrightarrow> weekday t = 6 \<or> weekday t = 0"

text \<open>
  The loop of \<open>SLADeadline\<close>, which ends because among any three consecutive days one is a
  business day: the distance to the next Monday bounds the days it skips.
\<close>

definition skip_bound :: "gtime \<Rightarrow> nat" where
  "skip_bound t = (if weekday t = 5 then 3 else if weekday t = 6 then 2 else 1)"

lemma weekday_add_day: "weekday (add_ns t day_ns) = (weekday t + 1) mod 7"
proof -
  have "day_of (add_ns t day_ns) = day_of t + 1"
    by (simp add: day_of_def wall_def add_ns_def day_ns_def add.commute add.left_commute)
  then show ?thesis unfolding weekday_def by presburger
qed

lemma weekday_range: "0 \<le> weekday t" "weekday t < 7"
  by (simp_all add: weekday_def)

lemma skip_bound_decreases:
  assumes "weekend (add_ns t day_ns)"
  shows "skip_bound (add_ns t day_ns) < skip_bound t"
proof -
  have "weekday t = 5 \<or> weekday t = 6"
    using assms weekday_range [of t] unfolding weekend_def weekday_add_day by presburger
  then show ?thesis unfolding skip_bound_def weekday_add_day by auto
qed

function sla_loop :: "nat \<Rightarrow> nat \<Rightarrow> gtime \<Rightarrow> gtime" where
  "sla_loop added days deadline =
     (if added < days
      then let d = add_ns deadline day_ns
           in sla_loop (if weekend d then added else Suc added) days d
      else deadline)"
  by pat_completeness auto
termination
  by (relation "measures [\<lambda>(added, days, _). days - added, \<lambda>(_, _, t). skip_bound t]")
    (auto simp: skip_bound_decreases)

declare sla_loop.simps [simp del]

definition sla_deadline :: "tier \<Rightarrow> gtime \<Rightarrow> cvff_error + gtime" where
  "sla_deadline tr entered =
     (case sla_business_days tr of Inl e \<Rightarrow> Inl e | Inr days \<Rightarrow> Inr (sla_loop 0 days entered))"

definition sla_expired :: "tier \<Rightarrow> gtime \<Rightarrow> gtime \<Rightarrow> cvff_error + bool" where
  "sla_expired tr entered now =
     (case sla_deadline tr entered of Inl e \<Rightarrow> Inl e | Inr d \<Rightarrow> Inr (gt_inst d < gt_inst now))"

section \<open>Facts about the moves\<close>

lemma validate_identifier_iff: "validate_identifier v = Inr () \<longleftrightarrow> canonical_id v"
  by (simp add: validate_identifier_def canonical_id_def)

lemma apply_decision_Inr:
  assumes "apply_decision a m p d = Inr (a', v)"
  shows "\<exists>r next. required_role (ap_state a) = Some r \<and> map_of m r = Some p \<and>
    (\<forall>r'. (r', p) \<in> set m \<longrightarrow> r' = r) \<and> canonical_id p \<and> a' = a\<lparr>ap_state := next\<rparr> \<and>
    (d = DecisionReject \<and> next = StateRejected \<or>
     d = DecisionApprove \<and> approved_successor (ap_state a) = Some next) \<and>
    v = \<lparr>av_id = [], av_app = ap_id a, av_role = r, av_principal = p, av_decision = d,
         av_from = ap_state a, av_to = next, av_created = 0\<rparr>"
  using assms
  by (auto simp: apply_decision_def Let_def validate_identifier_iff [symmetric]
      split: if_splits option.splits sum.splits)

lemma begin_underwriting_Inr:
  "begin_underwriting a = Inr a' \<longleftrightarrow>
     ap_state a = StateSubmitted \<and> a' = a\<lparr>ap_state := StateUnderwritingPrimary\<rparr>"
  by (auto simp: begin_underwriting_def terminal_def)

lemma mark_audited_Inr:
  "mark_audited a = Inr a' \<longleftrightarrow> ap_state a = StateDisbursed \<and> a' = a\<lparr>ap_state := StateAudited\<rparr>"
  by (auto simp: mark_audited_def terminal_def)

lemma require_reconciliation_Inr:
  "require_reconciliation a = Inr a' \<longleftrightarrow>
     \<not> terminal (ap_state a) \<and> a' = a\<lparr>ap_state := StateReconciliationRequired\<rparr>"
  by (auto simp: require_reconciliation_def)

lemma resolve_to_Inr:
  "resolve_reconciliation_to res t a = Inr a' \<longleftrightarrow>
     ap_state a = StateReconciliationRequired \<and>
     (res = ResumeDisbursement \<and> resumable t \<and> a' = a\<lparr>ap_state := t\<rparr> \<or>
      res = ResolveReject \<and> a' = a\<lparr>ap_state := StateRejected\<rparr>)"
  by (auto simp: resolve_reconciliation_to_def split: recon_resolution.splits)

section \<open>The deadline\<close>

text \<open>The business days among the \<open>k\<close> days after an instant.\<close>

fun business_days :: "nat \<Rightarrow> gtime \<Rightarrow> nat" where
  "business_days 0 t = 0"
| "business_days (Suc k) t =
     (if weekend (add_ns t day_ns) then 0 else 1) + business_days k (add_ns t day_ns)"

lemma add_ns_add [simp]: "add_ns (add_ns t a) b = add_ns t (a + b)"
  by (simp add: add_ns_def)

lemma add_ns_zero [simp]: "add_ns t 0 = t"
  by (simp add: add_ns_def)

lemma sla_loop_done: "\<not> added < days \<Longrightarrow> sla_loop added days t = t"
  by (subst sla_loop.simps) simp

lemma sla_loop_step:
  "added < days \<Longrightarrow> sla_loop added days t =
     sla_loop (if weekend (add_ns t day_ns) then added else Suc added) days (add_ns t day_ns)"
  by (subst sla_loop.simps) (simp add: Let_def)

lemma sla_loop_spec:
  "added \<le> days \<Longrightarrow> \<exists>k. sla_loop added days t = add_ns t (int k * day_ns) \<and>
     added + business_days k t = days \<and> (added < days \<longrightarrow> \<not> weekend (sla_loop added days t))"
proof (induction added days t rule: sla_loop.induct)
  case (1 added days t)
  show ?case
  proof (cases "added < days")
    case True
    define d where "d = add_ns t day_ns"
    define a where "a = (if weekend d then added else Suc added)"
    have step: "sla_loop added days t = sla_loop a days d"
      using True by (simp add: sla_loop_step [of added] d_def a_def)
    have "a \<le> days" using True by (simp add: a_def)
    then obtain k where k: "sla_loop a days d = add_ns d (int k * day_ns)"
      "a + business_days k d = days" "a < days \<longrightarrow> \<not> weekend (sla_loop a days d)"
      using "1.IH" True unfolding a_def d_def by blast
    have "\<not> weekend (sla_loop a days d)" if "\<not> a < days"
    proof -
      have "a = days" "\<not> weekend d" using that \<open>a \<le> days\<close> True by (auto simp: a_def split: if_splits)
      then show ?thesis by (simp add: sla_loop_done)
    qed
    then have "\<not> weekend (sla_loop a days d)" using k(3) by blast
    then show ?thesis
      using k(1,2) step
      by (intro exI [of _ "Suc k"]) (auto simp: d_def a_def algebra_simps)
  next
    case False
    then have "sla_loop added days t = t" by (rule sla_loop_done)
    then have "sla_loop added days t = add_ns t (int 0 * day_ns) \<and>
        added + business_days 0 t = days \<and> (added < days \<longrightarrow> \<not> weekend (sla_loop added days t))"
      using "1.prems" False by auto
    then show ?thesis by blast
  qed
qed

end
