(* ===== verification/Cvff_Store.thy ===== *)
theory Cvff_Store
  imports Cvff_Model Versioned
begin

text \<open>
  \<open>internal/cvff/store.go\<close> and \<open>disbursement.go\<close> over the tables of the migrations 0003 to 0005.
  Reads of a call see the database as it was before its transaction; the transactions of others
  commit in between. The stored moves are the ones the worker and the officers use.
\<close>

section \<open>Tables\<close>

record role_row =
  rr_app :: string
  rr_role :: role
  rr_principal :: string
  rr_created :: int

record transition_row =
  tn_id :: string
  tn_app :: string
  tn_from :: app_state
  tn_to :: app_state
  tn_role :: role
  tn_principal :: string
  tn_event :: string
  tn_created :: int

record disbursement_legs =
  lg_app :: string
  lg_rate :: string
  lg_micro :: u64
  lg_date :: gtime
  lg_fee_id :: string
  lg_cost_id :: string
  lg_fee_ngn :: u64
  lg_cost_usd :: u64
  lg_cost_ngn :: u64
  lg_created :: int

datatype cvff_payload =
  App_Payload application
| Approval_Payload approval
| Roles_Payload string string assignments
| Escalation_Payload string tier gtime
| Legs_Payload disbursement_legs

record cvff_event =
  ce_id :: string
  ce_app :: string
  ce_type :: string
  ce_payload :: cvff_payload
  ce_created :: int

record cvff_db =
  apps :: "application list"
  role_rows :: "role_row list"
  approvals :: "approval list"
  transitions :: "transition_row list"
  cvff_outbox :: "cvff_event list"
  leg_rows :: "disbursement_legs list"
  fx_rate_ids :: "string list"

definition empty_cvff_db :: "string list \<Rightarrow> cvff_db" where
  "empty_cvff_db rates = \<lparr>apps = [], role_rows = [], approvals = [], transitions = [],
     cvff_outbox = [], leg_rows = [], fx_rate_ids = rates\<rparr>"

definition cvff_event_types :: "string list" where
  "cvff_event_types =
     [''cvff.application.submitted'', ''cvff.underwriting_started'', ''cvff.decision.recorded'',
      ''cvff.sla_escalated'', ''cvff.disbursed'', ''cvff.audited'', ''cvff.reconciliation_required'',
      ''cvff.roles_assigned'', ''cvff.reconciliation_resolved'']"

definition app_ids :: "cvff_db \<Rightarrow> string list" where
  "app_ids d = map ap_id (apps d)"

section \<open>Statements\<close>

definition append_transition ::
  "cvff_db env \<Rightarrow> nat \<Rightarrow> string \<Rightarrow> app_state \<Rightarrow> app_state \<Rightarrow> role \<Rightarrow> string \<Rightarrow> string \<Rightarrow> int
     \<Rightarrow> cvff_db \<Rightarrow> cvff_error + cvff_db" where
  "append_transition e n app from_state to_state actor_role actor event_type created d =
     stmt e ''write cvff transition'' ErrCvffDatabase
       (if env_uuid e n \<in> set (map tn_id (transitions d)) \<or> app \<notin> set (app_ids d)
        then Inl (ErrCvffDatabase ''write cvff transition'')
        else Inr (d\<lparr>transitions := transitions d @
               [\<lparr>tn_id = env_uuid e n, tn_app = app, tn_from = from_state, tn_to = to_state,
                 tn_role = actor_role, tn_principal = actor, tn_event = event_type,
                 tn_created = created\<rparr>]\<rparr>))"

definition append_cvff_event ::
  "cvff_db env \<Rightarrow> nat \<Rightarrow> string \<Rightarrow> string \<Rightarrow> cvff_payload \<Rightarrow> int \<Rightarrow> cvff_db \<Rightarrow> cvff_error + cvff_db" where
  "append_cvff_event e n app event_type v created d =
     stmt e ''write cvff event'' ErrCvffDatabase
       (if env_uuid e n \<in> set (map ce_id (cvff_outbox d)) \<or> app \<notin> set (app_ids d)
           \<or> event_type \<notin> set cvff_event_types
        then Inl (ErrCvffDatabase ''write cvff event'')
        else Inr (d\<lparr>cvff_outbox := cvff_outbox d @
               [\<lparr>ce_id = env_uuid e n, ce_app = app, ce_type = event_type, ce_payload = v,
                 ce_created = created\<rparr>]\<rparr>))"

type_synonym app_patch = "app_state \<times> int"

definition patch_app :: "app_patch \<Rightarrow> application \<Rightarrow> application" where
  "patch_app p r = r\<lparr>ap_state := fst p, ap_updated := snd p, ap_version := ap_version r + 1\<rparr>"

definition update_app ::
  "cvff_db env \<Rightarrow> string \<Rightarrow> app_patch \<Rightarrow> string \<Rightarrow> app_state \<Rightarrow> int \<Rightarrow> cvff_db
     \<Rightarrow> cvff_error + application \<times> cvff_db" where
  "update_app e label p app s v d =
     stmt e label ErrCvffDatabase
       (case cas ap_id ap_state ap_version patch_app p app s v (apps d) of
          None \<Rightarrow> Inl ErrConflict
        | Some (r, rows) \<Rightarrow> Inr (r, d\<lparr>apps := rows\<rparr>))"

section \<open>Reads\<close>

definition cvff_get :: "cvff_db env \<Rightarrow> string \<Rightarrow> cvff_db \<Rightarrow> cvff_error + application" where
  "cvff_get e app d =
     stmt e ''get cvff application'' ErrCvffDatabase
       (case sql_row (\<lambda>r. ap_id r = app) (apps d) of None \<Rightarrow> Inl ErrNotFound | Some r \<Rightarrow> Inr r)"

definition assignments_of :: "string \<Rightarrow> cvff_db \<Rightarrow> assignments" where
  "assignments_of app d =
     map (\<lambda>r. (rr_role r, rr_principal r)) (filter (\<lambda>r. rr_app r = app) (role_rows d))"

definition role_assignments :: "cvff_db env \<Rightarrow> string \<Rightarrow> cvff_db \<Rightarrow> cvff_error + assignments" where
  "role_assignments e app d =
     stmt e ''list cvff role assignments'' ErrCvffDatabase
       (if assignments_of app d = [] then Inl ErrNotFound else Inr (assignments_of app d))"

text \<open>\<open>ORDER BY created_at, approval_id\<close>; UUIDs compare as their texts.\<close>

definition list_approvals :: "cvff_db env \<Rightarrow> string \<Rightarrow> cvff_db \<Rightarrow> cvff_error + approval list" where
  "list_approvals e app d =
     stmt e ''list cvff approvals'' ErrCvffDatabase
       (Inr (sort_by (\<lambda>a b. av_created a < av_created b
            \<or> av_created a = av_created b \<and> text_le (av_id a) (av_id b))
          (filter (\<lambda>v. av_app v = app) (approvals d))))"

section \<open>Submission and role assignment\<close>

definition insert_app ::
  "cvff_db env \<Rightarrow> application \<Rightarrow> cvff_db \<Rightarrow> cvff_error + application \<times> cvff_db" where
  "insert_app e a d =
     stmt e ''insert cvff application'' ErrCvffDatabase
       (let row = a\<lparr>ap_state := StateSubmitted, ap_created := env_now e, ap_updated := env_now e,
                    ap_version := 1\<rparr>
        in if ap_id a \<in> set (app_ids d) \<or> ap_ref a \<in> set (map ap_ref (apps d))
              \<or> ap_amount a = 0 \<or> 2 ^ 63 \<le> uint (ap_amount a)
              \<or> \<not> (ap_currency a = ''NGN'' \<or> ap_currency a = ''USD'')
           then Inl (ErrCvffDatabase ''insert cvff application'')
           else Inr (row, d\<lparr>apps := apps d @ [row]\<rparr>))"

definition assign_role ::
  "cvff_db env \<Rightarrow> string \<Rightarrow> assignments \<Rightarrow> role \<Rightarrow> cvff_db \<Rightarrow> cvff_error + cvff_db" where
  "assign_role e app m r d =
     stmt e ''assign cvff role'' ErrCvffDatabase
       (let who = (case map_of m r of None \<Rightarrow> [] | Some p \<Rightarrow> p)
        in if app \<notin> set (app_ids d) \<or> r \<notin> set chain_roles
              \<or> (\<exists>x \<in> set (role_rows d). rr_app x = app \<and> (rr_role x = r \<or> rr_principal x = who))
           then Inl (ErrCvffDatabase ''assign cvff role'')
           else Inr (d\<lparr>role_rows := role_rows d @
                  [\<lparr>rr_app = app, rr_role = r, rr_principal = who, rr_created = env_now e\<rparr>]\<rparr>))"

fun assign_all ::
  "cvff_db env \<Rightarrow> string \<Rightarrow> assignments \<Rightarrow> role list \<Rightarrow> cvff_db \<Rightarrow> cvff_error + cvff_db" where
  "assign_all e app m [] d = Inr d"
| "assign_all e app m (r # rs) d = and_then (assign_role e app m r d) (assign_all e app m rs)"

definition submit_body ::
  "cvff_db env \<Rightarrow> application \<Rightarrow> assignments \<Rightarrow> cvff_db \<Rightarrow> cvff_error + application \<times> cvff_db" where
  "submit_body e a m d =
     and_then (insert_app e a d) (\<lambda>(retained, d1).
     and_then (assign_all e (ap_id retained) m chain_roles d1) (\<lambda>d2.
     and_then (append_transition e 0 (ap_id retained) StateSubmitted StateSubmitted RoleBeneficiary
                 (ap_beneficiary a) ''cvff.application.submitted'' (env_now e) d2) (\<lambda>d3.
     and_then (append_cvff_event e 1 (ap_id retained) ''cvff.application.submitted''
                 (App_Payload retained) (env_now e) d3) (\<lambda>d4.
     Inr (retained, d4)))))"

definition cvff_submit ::
  "cvff_db env \<Rightarrow> application \<Rightarrow> assignments \<Rightarrow> cvff_db \<Rightarrow> (cvff_error + application) \<times> cvff_db" where
  "cvff_submit e a m d =
     (case validate_application a of
        Inl err \<Rightarrow> (Inl err, d)
      | Inr _ \<Rightarrow>
          (case validate_role_assignments m of
             Inl err \<Rightarrow> (Inl err, d)
           | Inr _ \<Rightarrow> run_tx e ''begin submit'' ''commit submit'' ErrCvffDatabase (submit_body e a m) d))"

definition role_assignments_equal :: "assignments \<Rightarrow> assignments \<Rightarrow> bool" where
  "role_assignments_equal left right \<longleftrightarrow>
     length left = length right \<and> (\<forall>(r, p) \<in> set left. map_of right r = Some p)"

definition assign_body ::
  "cvff_db env \<Rightarrow> application \<Rightarrow> string \<Rightarrow> string \<Rightarrow> assignments \<Rightarrow> cvff_db
     \<Rightarrow> cvff_error + assignments \<times> cvff_db" where
  "assign_body e current app officer m d =
     and_then (stmt e ''lock cvff role assignments'' ErrCvffDatabase (Inr (assignments_of app d)))
       (\<lambda>existing.
         if existing \<noteq> []
         then if role_assignments_equal existing m then Inr (existing, d) else Inl ErrConflict
         else and_then (assign_all e app m chain_roles d) (\<lambda>d1.
              and_then (append_transition e 0 app (ap_state current) (ap_state current)
                          (RoleOther ''CVFF_OFFICER'') officer ''cvff.roles_assigned'' (env_now e) d1) (\<lambda>d2.
              and_then (append_cvff_event e 1 app ''cvff.roles_assigned''
                          (Roles_Payload app officer m) (env_now e) d2) (\<lambda>d3.
              Inr (m, d3)))))"

definition assign_roles ::
  "cvff_db env \<Rightarrow> string \<Rightarrow> string \<Rightarrow> assignments \<Rightarrow> cvff_db \<Rightarrow> (cvff_error + assignments) \<times> cvff_db"
  where
  "assign_roles e app officer m d =
     (case validate_identifier app of
        Inl err \<Rightarrow> (Inl err, d)
      | Inr _ \<Rightarrow>
     (case validate_identifier officer of
        Inl err \<Rightarrow> (Inl err, d)
      | Inr _ \<Rightarrow>
     (case validate_role_assignments m of
        Inl err \<Rightarrow> (Inl err, d)
      | Inr _ \<Rightarrow>
          if officer \<in> set (map snd m) then (Inl ErrRoleSeparation, d)
          else case cvff_get e app d of
                 Inl err \<Rightarrow> (Inl err, d)
               | Inr current \<Rightarrow>
                   if terminal (ap_state current) then (Inl ErrTerminalState, d)
                   else run_tx e ''begin role assignment'' ''commit role assignment'' ErrCvffDatabase
                          (assign_body e current app officer m) d)))"

section \<open>Decisions and transitions\<close>

definition insert_approval ::
  "cvff_db env \<Rightarrow> approval \<Rightarrow> cvff_db \<Rightarrow> cvff_error + approval \<times> cvff_db" where
  "insert_approval e v d =
     stmt e ''insert cvff approval'' ErrCvffDatabase
       (let row = v\<lparr>av_id := env_uuid e 0, av_created := env_now e\<rparr>
        in if env_uuid e 0 \<in> set (map av_id (approvals d)) \<or> av_app v \<notin> set (app_ids d)
              \<or> av_role v \<notin> set chain_roles
              \<or> \<not> (av_decision v = DecisionApprove \<or> av_decision v = DecisionReject)
           then Inl (ErrCvffDatabase ''insert cvff approval'')
           else Inr (row, d\<lparr>approvals := approvals d @ [row]\<rparr>))"

definition decision_body ::
  "cvff_db env \<Rightarrow> application \<Rightarrow> application \<Rightarrow> approval \<Rightarrow> int \<Rightarrow> cvff_db
     \<Rightarrow> cvff_error + (application \<times> approval) \<times> cvff_db" where
  "decision_body e current updated v expected d =
     and_then (insert_approval e v d) (\<lambda>(persisted, d1).
     and_then (update_app e ''advance cvff application'' (ap_state updated, env_now e)
                 (ap_id current) (ap_state current) expected d1) (\<lambda>(retained, d2).
     and_then (append_transition e 1 (av_app persisted) (av_from persisted) (av_to persisted)
                 (av_role persisted) (av_principal persisted) ''cvff.decision.recorded''
                 (av_created persisted) d2) (\<lambda>d3.
     and_then (append_cvff_event e 2 (ap_id retained) ''cvff.decision.recorded''
                 (Approval_Payload persisted) (env_now e) d3) (\<lambda>d4.
     Inr ((retained, persisted), d4)))))"

definition commit_decision ::
  "cvff_db env \<Rightarrow> application \<Rightarrow> application \<Rightarrow> approval \<Rightarrow> int \<Rightarrow> cvff_db
     \<Rightarrow> (cvff_error + application \<times> approval) \<times> cvff_db" where
  "commit_decision e current updated v expected d =
     run_tx e ''begin decision'' ''commit decision'' ErrCvffDatabase
       (decision_body e current updated v expected) d"

definition record_decision ::
  "cvff_db env \<Rightarrow> string \<Rightarrow> int \<Rightarrow> string \<Rightarrow> decision \<Rightarrow> cvff_db
     \<Rightarrow> (cvff_error + application \<times> approval) \<times> cvff_db" where
  "record_decision e app expected who dec d =
     (case cvff_get e app d of
        Inl err \<Rightarrow> (Inl err, d)
      | Inr current \<Rightarrow>
          if ap_version current \<noteq> expected then (Inl ErrConflict, d)
          else case role_assignments e app d of
                 Inl err \<Rightarrow> (Inl err, d)
               | Inr m \<Rightarrow>
                   (case apply_decision current m who dec of
                      Inl err \<Rightarrow> (Inl err, d)
                    | Inr (updated, v) \<Rightarrow> commit_decision e current updated v expected d))"

definition transition_body ::
  "cvff_db env \<Rightarrow> application \<Rightarrow> application \<Rightarrow> int \<Rightarrow> string \<Rightarrow> role \<Rightarrow> string \<Rightarrow> cvff_db
     \<Rightarrow> cvff_error + application \<times> cvff_db" where
  "transition_body e current updated expected event_type actor_role actor d =
     and_then (update_app e ''transition cvff application'' (ap_state updated, env_now e)
                 (ap_id current) (ap_state current) expected d) (\<lambda>(retained, d1).
     and_then (append_transition e 0 (ap_id retained) (ap_state current) (ap_state retained)
                 actor_role actor event_type (env_now e) d1) (\<lambda>d2.
     and_then (append_cvff_event e 1 (ap_id retained) event_type (App_Payload retained)
                 (env_now e) d2) (\<lambda>d3.
     Inr (retained, d3))))"

definition transition_as ::
  "cvff_db env \<Rightarrow> string \<Rightarrow> int \<Rightarrow> move \<Rightarrow> string \<Rightarrow> role \<Rightarrow> string \<Rightarrow> cvff_db
     \<Rightarrow> (cvff_error + application) \<times> cvff_db" where
  "transition_as e app expected mv event_type actor_role actor d =
     (case cvff_get e app d of
        Inl err \<Rightarrow> (Inl err, d)
      | Inr current \<Rightarrow>
          if ap_version current \<noteq> expected then (Inl ErrConflict, d)
          else case mv current of
                 Inl err \<Rightarrow> (Inl err, d)
               | Inr updated \<Rightarrow>
                   run_tx e ''begin transition'' ''commit transition'' ErrCvffDatabase
                     (transition_body e current updated expected event_type actor_role actor) d)"

definition cvff_transition ::
  "cvff_db env \<Rightarrow> string \<Rightarrow> int \<Rightarrow> move \<Rightarrow> string \<Rightarrow> cvff_db \<Rightarrow> (cvff_error + application) \<times> cvff_db"
  where
  "cvff_transition e app expected mv event_type d =
     transition_as e app expected mv event_type (RoleOther ''CVFF_WORKFLOW'') ''cvff-worker'' d"

definition resolve_as ::
  "cvff_db env \<Rightarrow> string \<Rightarrow> int \<Rightarrow> string \<Rightarrow> move \<Rightarrow> cvff_db \<Rightarrow> (cvff_error + application) \<times> cvff_db" where
  "resolve_as e app expected officer mv d =
     (case validate_identifier officer of
        Inl err \<Rightarrow> (Inl err, d)
      | Inr _ \<Rightarrow>
          (let continue = (\<lambda>m. if officer \<in> set (map snd m) then (Inl ErrRoleSeparation, d)
                 else transition_as e app expected mv ''cvff.reconciliation_resolved''
                        RoleReconciliationOfficer officer d)
           in case role_assignments e app d of
                Inl err \<Rightarrow> if err \<noteq> ErrNotFound then (Inl err, d) else continue []
              | Inr m \<Rightarrow> continue m))"

definition store_resolve_reconciliation ::
  "cvff_db env \<Rightarrow> string \<Rightarrow> int \<Rightarrow> string \<Rightarrow> recon_resolution \<Rightarrow> cvff_db
     \<Rightarrow> (cvff_error + application) \<times> cvff_db" where
  "store_resolve_reconciliation e app expected officer res d =
     resolve_as e app expected officer (resolve_reconciliation res) d"

definition store_resolve_reconciliation_to ::
  "cvff_db env \<Rightarrow> string \<Rightarrow> int \<Rightarrow> string \<Rightarrow> recon_resolution \<Rightarrow> app_state \<Rightarrow> cvff_db
     \<Rightarrow> (cvff_error + application) \<times> cvff_db" where
  "store_resolve_reconciliation_to e app expected officer res target d =
     resolve_as e app expected officer (resolve_reconciliation_to res target) d"

definition record_escalation ::
  "cvff_db env \<Rightarrow> string \<Rightarrow> tier \<Rightarrow> gtime \<Rightarrow> cvff_db \<Rightarrow> (cvff_error + unit) \<times> cvff_db" where
  "record_escalation e app tr deadline d =
     (case sla_business_days tr of
        Inl err \<Rightarrow> (Inl err, d)
      | Inr _ \<Rightarrow>
          (case cvff_get e app d of
             Inl err \<Rightarrow> (Inl err, d)
           | Inr _ \<Rightarrow>
               run_tx e ''begin escalation'' ''commit escalation'' ErrCvffDatabase (\<lambda>d.
                 and_then (append_cvff_event e 0 app ''cvff.sla_escalated''
                             (Escalation_Payload app tr deadline) (env_now e) d) (\<lambda>d1.
                 Inr ((), d1))) d))"

section \<open>Disbursement legs\<close>

definition insert_legs ::
  "cvff_db env \<Rightarrow> disbursement_legs \<Rightarrow> cvff_db \<Rightarrow> cvff_error + cvff_db" where
  "insert_legs e legs d =
     stmt e ''insert disbursement legs'' ErrCvffDatabase
       (if 2 ^ 63 \<le> uint (lg_micro legs) \<or> 2 ^ 63 \<le> uint (lg_fee_ngn legs)
           \<or> 2 ^ 63 \<le> uint (lg_cost_usd legs) \<or> 2 ^ 63 \<le> uint (lg_cost_ngn legs)
        then Inl (ErrCvffDatabase ''insert disbursement legs'')
        else if lg_app legs \<in> set (map lg_app (leg_rows d)) then Inr d
        else if lg_app legs \<notin> set (app_ids d) \<or> lg_rate legs \<notin> set (fx_rate_ids d)
        then Inl (ErrCvffDatabase ''insert disbursement legs'')
        else Inr (d\<lparr>leg_rows := leg_rows d @ [legs\<lparr>lg_created := env_now e\<rparr>]\<rparr>))"

definition record_disbursement_legs ::
  "cvff_db env \<Rightarrow> disbursement_legs \<Rightarrow> cvff_db \<Rightarrow> (cvff_error + unit) \<times> cvff_db" where
  "record_disbursement_legs e legs d =
     (if lg_app legs = [] \<or> lg_rate legs = [] \<or> lg_fee_id legs = [] \<or> lg_cost_id legs = []
      then (Inl (ErrCvffText ''disbursement legs identifiers are required''), d)
      else if lg_micro legs = 0 \<or> lg_fee_ngn legs = 0 \<or> lg_cost_usd legs = 0 \<or> lg_cost_ngn legs = 0
      then (Inl (ErrCvffText ''disbursement legs amounts must be non-zero''), d)
      else if is_zero_time (lg_date legs) \<or> \<not> gt_utc (lg_date legs) \<or> \<not> at_midnight (lg_date legs)
      then (Inl (ErrCvffText ''disbursement legs rate effective date must be a UTC calendar date''), d)
      else run_tx e ''begin disbursement legs'' ''commit disbursement legs'' ErrCvffDatabase (\<lambda>d.
        and_then (insert_legs e legs d) (\<lambda>d1.
        and_then (append_cvff_event e 0 (lg_app legs) ''cvff.disbursed'' (Legs_Payload legs)
                    (env_now e) d1) (\<lambda>d2.
        Inr ((), d2)))) d)"

definition get_disbursement_legs ::
  "cvff_db env \<Rightarrow> string \<Rightarrow> cvff_db \<Rightarrow> cvff_error + disbursement_legs" where
  "get_disbursement_legs e app d =
     stmt e ''get disbursement legs'' ErrCvffDatabase
       (case sql_row (\<lambda>l. lg_app l = app) (leg_rows d) of None \<Rightarrow> Inl ErrNotFound | Some l \<Rightarrow> Inr l)"

text \<open>The join of the report, with the half-open window on the time of the legs.\<close>

definition dual_ledger_report ::
  "cvff_db env \<Rightarrow> gtime \<Rightarrow> gtime \<Rightarrow> cvff_db \<Rightarrow> cvff_error + (application \<times> disbursement_legs) list" where
  "dual_ledger_report e start finish d =
     (if is_zero_time start \<or> is_zero_time finish \<or> \<not> gt_inst start < gt_inst finish
      then Inl (ErrCvffText ''dual-ledger report window must be a non-empty [from, to) range'')
      else stmt e ''dual-ledger report'' ErrCvffDatabase
        (Inr (sort_by (\<lambda>x y. lg_created (snd x) \<le> lg_created (snd y))
          [(a, l). l \<leftarrow> leg_rows d, gt_inst start \<le> lg_created l \<and> lg_created l < gt_inst finish,
                   a \<leftarrow> apps d, ap_id a = lg_app l])))"

end
