(* ===== verification/Cvff_Inv.thy ===== *)
theory Cvff_Inv
  imports Cvff_Store
begin

text \<open>
  The invariant of the CVFF tables: the transition log of an application (without the entries of
  role assignments, which move nothing) is a chain of legal moves that ends in the stored state and
  has as many entries as the row has versions, and every recorded decision was made by the holder
  of the role its state requires.
\<close>

interpretation app_rows: versioned_rows ap_id ap_state ap_version patch_app
  by unfold_locales (auto simp: patch_app_def)

lemma patch_app_fields [simp]:
  "ap_id (patch_app p r) = ap_id r" "ap_ref (patch_app p r) = ap_ref r"
  "ap_state (patch_app p r) = fst p" "ap_version (patch_app p r) = ap_version r + 1"
  "ap_amount (patch_app p r) = ap_amount r"
  by (simp_all add: patch_app_def)

definition lifecycle_log :: "string \<Rightarrow> cvff_db \<Rightarrow> transition_row list" where
  "lifecycle_log app d =
     filter (\<lambda>t. tn_app t = app \<and> tn_event t \<noteq> ''cvff.roles_assigned'') (transitions d)"

text \<open>The entries that leaves out: an assignment of roles to an application submitted without them is logged with the
  state its officer read, which may be an earlier one than the stored state.\<close>

definition assignment_log :: "string \<Rightarrow> cvff_db \<Rightarrow> transition_row list" where
  "assignment_log app d =
     filter (\<lambda>t. tn_app t = app \<and> tn_event t = ''cvff.roles_assigned'') (transitions d)"

definition has_roles :: "string \<Rightarrow> cvff_db \<Rightarrow> bool" where
  "has_roles app d \<longleftrightarrow> (\<exists>x \<in> set (role_rows d). rr_app x = app)"

definition assignments_logged :: "cvff_db \<Rightarrow> bool" where
  "assignments_logged d \<longleftrightarrow>
     (\<forall>app. length (assignment_log app d) \<le> 1 \<and> (assignment_log app d \<noteq> [] \<longrightarrow> has_roles app d) \<and>
        (\<forall>t \<in> set (assignment_log app d). tn_from t = tn_to t))"

lemma assignments_logged_mono:
  assumes "assignments_logged d" and "\<And>app. assignment_log app d' = assignment_log app d"
    and "set (role_rows d) \<subseteq> set (role_rows d')"
  shows "assignments_logged d'"
  using assms(1,3) unfolding assignments_logged_def assms(2) has_roles_def by blast

definition holds_role :: "cvff_db \<Rightarrow> string \<Rightarrow> role \<Rightarrow> string \<Rightarrow> bool" where
  "holds_role d app r p \<longleftrightarrow>
     (\<exists>x \<in> set (role_rows d). rr_app x = app \<and> rr_role x = r \<and> rr_principal x = p)"

definition approval_ok :: "cvff_db \<Rightarrow> approval \<Rightarrow> bool" where
  "approval_ok d v \<longleftrightarrow>
     required_role (av_from v) = Some (av_role v) \<and> holds_role d (av_app v) (av_role v) (av_principal v) \<and>
     (av_decision v = DecisionReject \<and> av_to v = StateRejected \<or>
      av_decision v = DecisionApprove \<and> approved_successor (av_from v) = Some (av_to v))"

definition decided :: "cvff_db \<Rightarrow> transition_row \<Rightarrow> bool" where
  "decided d t \<longleftrightarrow>
     (\<exists>v \<in> set (approvals d). av_app v = tn_app t \<and> av_from v = tn_from t \<and> av_to v = tn_to t \<and>
        av_role v = tn_role t \<and> av_principal v = tn_principal t)"

definition plain_move :: "app_state \<Rightarrow> app_state \<Rightarrow> bool" where
  "plain_move s s' \<longleftrightarrow>
     s = StateSubmitted \<and> s' = StateUnderwritingPrimary \<or> s = StateDisbursed \<and> s' = StateAudited \<or>
     \<not> terminal s \<and> s' = StateReconciliationRequired \<or>
     s = StateReconciliationRequired \<and> (resumable s' \<or> s' = StateRejected)"

definition entry_ok :: "cvff_db \<Rightarrow> transition_row \<Rightarrow> bool" where
  "entry_ok d t \<longleftrightarrow>
     (if tn_event t = ''cvff.application.submitted''
      then tn_from t = StateSubmitted \<and> tn_to t = StateSubmitted
      else if tn_event t = ''cvff.decision.recorded'' then decided d t
      else plain_move (tn_from t) (tn_to t))"

definition app_ok :: "cvff_db \<Rightarrow> application \<Rightarrow> bool" where
  "app_ok d r \<longleftrightarrow>
     (let log = lifecycle_log (ap_id r) d in
        log \<noteq> [] \<and> tn_to (last log) = ap_state r \<and> ap_version r = int (length log) \<and>
        tn_from (hd log) = StateSubmitted \<and> successively (\<lambda>a b. tn_from b = tn_to a) log \<and>
        (\<forall>t \<in> set log. entry_ok d t))"

definition roles_ok :: "cvff_db \<Rightarrow> bool" where
  "roles_ok d \<longleftrightarrow>
     distinct (map (\<lambda>x. (rr_app x, rr_role x)) (role_rows d)) \<and>
     distinct (map (\<lambda>x. (rr_app x, rr_principal x)) (role_rows d)) \<and>
     (\<forall>x \<in> set (role_rows d). rr_role x \<in> set chain_roles \<and> rr_app x \<in> set (app_ids d))"

definition cvff_db_ok :: "cvff_db \<Rightarrow> bool" where
  "cvff_db_ok d \<longleftrightarrow>
     distinct (app_ids d) \<and> roles_ok d \<and> (\<forall>v \<in> set (approvals d). approval_ok d v) \<and>
     (\<forall>t \<in> set (transitions d). tn_app t \<in> set (app_ids d)) \<and> assignments_logged d \<and>
     (\<forall>r \<in> set (apps d). app_ok d r)"

text \<open>Other transactions keep the invariant, and no code deletes a role assignment.\<close>

definition keeps_roles :: "cvff_db \<Rightarrow> cvff_db \<Rightarrow> bool" where
  "keeps_roles d d' \<longleftrightarrow> set (role_rows d) \<subseteq> set (role_rows d')"

definition cvff_env :: "cvff_db env \<Rightarrow> bool" where
  "cvff_env e \<longleftrightarrow> env_keeps cvff_db_ok e \<and> (\<forall>d. keeps_roles d (env_other e d))"

lemma cvff_env_quiet [simp]: "cvff_env (quiet_env t u)"
  by (simp add: cvff_env_def keeps_roles_def)

section \<open>Effects\<close>

lemma append_transition_Inr:
  "append_transition e n app s s' r p ty c d = Inr d' \<Longrightarrow>
     app \<in> set (app_ids d) \<and>
     d' = d\<lparr>transitions := transitions d @ [\<lparr>tn_id = env_uuid e n, tn_app = app, tn_from = s, tn_to = s',
        tn_role = r, tn_principal = p, tn_event = ty, tn_created = c\<rparr>]\<rparr>"
  by (auto simp: append_transition_def stmt_Inr_iff split: if_splits)

lemma append_cvff_event_Inr:
  "append_cvff_event e n app ty v c d = Inr d' \<Longrightarrow>
     \<exists>ev. d' = d\<lparr>cvff_outbox := cvff_outbox d @ [ev]\<rparr> \<and> ce_app ev = app \<and> ce_type ev = ty \<and> ce_payload ev = v"
  by (auto simp: append_cvff_event_def stmt_Inr_iff split: if_splits)

lemma update_app_Inr:
  assumes "update_app e l p app s v d = Inr (a, d')"
  obtains r where "r \<in> set (apps d)" "ap_id r = app" "ap_state r = s" "ap_version r = v"
    "a = patch_app p r"
    "d' = d\<lparr>apps := sql_update (\<lambda>x. ap_id x = app \<and> ap_state x = s \<and> ap_version x = v) (patch_app p) (apps d)\<rparr>"
  using assms
  by (auto simp: update_app_def stmt_Inr_iff split: option.splits elim: app_rows.cas_SomeE)

text \<open>The net effect of a committed move.\<close>

definition moved :: "cvff_db \<Rightarrow> cvff_db \<Rightarrow> application \<Rightarrow> app_patch \<Rightarrow> transition_row \<Rightarrow> approval list \<Rightarrow> bool" where
  "moved d d' r p t vs \<longleftrightarrow>
     r \<in> set (apps d) \<and>
     apps d' = sql_update (\<lambda>x. ap_id x = ap_id r \<and> ap_state x = ap_state r \<and> ap_version x = ap_version r)
       (patch_app p) (apps d) \<and>
     transitions d' = transitions d @ [t] \<and> tn_app t = ap_id r \<and> tn_from t = ap_state r \<and>
     tn_to t = fst p \<and> tn_event t \<noteq> ''cvff.roles_assigned'' \<and>
     role_rows d' = role_rows d \<and> approvals d' = approvals d @ vs"

lemma transition_body_effect:
  assumes body: "transition_body e cur upd v ty r p d = Inr (a, d')"
    and ty: "ty \<noteq> ''cvff.roles_assigned''"
  obtains x t where "moved d d' x (ap_state upd, env_now e) t []" "ap_id x = ap_id cur"
    "ap_state x = ap_state cur" "ap_version x = v" "a = patch_app (ap_state upd, env_now e) x"
    "tn_event t = ty" "tn_role t = r" "tn_principal t = p"
proof -
  obtain d1 d2 where u: "update_app e ''transition cvff application'' (ap_state upd, env_now e)
      (ap_id cur) (ap_state cur) v d = Inr (a, d1)"
    and t: "append_transition e 0 (ap_id a) (ap_state cur) (ap_state a) r p ty (env_now e) d1 = Inr d2"
    and ev: "append_cvff_event e 1 (ap_id a) ty (App_Payload a) (env_now e) d2 = Inr d'"
    using body by (auto simp: transition_body_def and_then_Inr_iff)
  from u obtain x where x: "x \<in> set (apps d)" "ap_id x = ap_id cur" "ap_state x = ap_state cur"
    "ap_version x = v" "a = patch_app (ap_state upd, env_now e) x"
    "d1 = d\<lparr>apps := sql_update (\<lambda>y. ap_id y = ap_id cur \<and> ap_state y = ap_state cur \<and> ap_version y = v)
       (patch_app (ap_state upd, env_now e)) (apps d)\<rparr>"
    by (rule update_app_Inr)
  note d2 = append_transition_Inr [OF t] and d3 = append_cvff_event_Inr [OF ev]
  show ?thesis
    by (rule that [of x "last (transitions d')"]) (use x d2 d3 ty in \<open>auto simp: moved_def\<close>)
qed

lemma decision_body_effect:
  assumes body: "decision_body e cur upd v n d = Inr ((a, w), d')"
    and v: "av_app v = ap_id cur" "av_from v = ap_state cur" "av_to v = ap_state upd"
  obtains x t where "moved d d' x (ap_state upd, env_now e) t [w]" "ap_id x = ap_id cur"
    "ap_state x = ap_state cur" "ap_version x = n" "a = patch_app (ap_state upd, env_now e) x"
    "tn_event t = ''cvff.decision.recorded''" "tn_role t = av_role v" "tn_principal t = av_principal v"
    "w = v\<lparr>av_id := env_uuid e 0, av_created := env_now e\<rparr>"
proof -
  obtain d1 d2 d3 where i: "insert_approval e v d = Inr (w, d1)"
    and u: "update_app e ''advance cvff application'' (ap_state upd, env_now e)
      (ap_id cur) (ap_state cur) n d1 = Inr (a, d2)"
    and t: "append_transition e 1 (av_app w) (av_from w) (av_to w) (av_role w) (av_principal w)
      ''cvff.decision.recorded'' (av_created w) d2 = Inr d3"
    and ev: "append_cvff_event e 2 (ap_id a) ''cvff.decision.recorded'' (Approval_Payload w) (env_now e) d3 = Inr d'"
    using body by (auto simp: decision_body_def and_then_Inr_iff)
  have w: "w = v\<lparr>av_id := env_uuid e 0, av_created := env_now e\<rparr>"
    "d1 = d\<lparr>approvals := approvals d @ [w]\<rparr>"
    using i by (auto simp: insert_approval_def stmt_Inr_iff Let_def split: if_splits)
  from u obtain x where x: "x \<in> set (apps d1)" "ap_id x = ap_id cur" "ap_state x = ap_state cur"
    "ap_version x = n" "a = patch_app (ap_state upd, env_now e) x"
    "d2 = d1\<lparr>apps := sql_update (\<lambda>y. ap_id y = ap_id cur \<and> ap_state y = ap_state cur \<and> ap_version y = n)
       (patch_app (ap_state upd, env_now e)) (apps d1)\<rparr>"
    by (rule update_app_Inr)
  note d2 = append_transition_Inr [OF t] and d3 = append_cvff_event_Inr [OF ev]
  show ?thesis
    by (rule that [of x "last (transitions d')"]) (use x w v d2 d3 in \<open>auto simp: moved_def\<close>)
qed

section \<open>Preservation\<close>

text \<open>What a fact about a decision rests on only grows.\<close>

lemma holds_role_mono: "keeps_roles d d' \<Longrightarrow> holds_role d a r p \<Longrightarrow> holds_role d' a r p"
  by (auto simp: keeps_roles_def holds_role_def)

lemma approval_ok_mono: "keeps_roles d d' \<Longrightarrow> approval_ok d v \<Longrightarrow> approval_ok d' v"
  by (auto simp: approval_ok_def holds_role_mono)

lemma entry_ok_mono: "set (approvals d) \<subseteq> set (approvals d') \<Longrightarrow> entry_ok d t \<Longrightarrow> entry_ok d' t"
  by (auto simp: entry_ok_def decided_def split: if_splits)

lemma app_ok_mono:
  assumes "set (approvals d) \<subseteq> set (approvals d')"
    and "lifecycle_log (ap_id r) d' = lifecycle_log (ap_id r) d" and "app_ok d r"
  shows "app_ok d' r"
  using assms(3) entry_ok_mono [OF assms(1)] by (simp add: app_ok_def assms(2) Let_def)

lemma moved_ok:
  assumes ok: "cvff_db_ok d" and m: "moved d d' r p t vs"
    and t: "entry_ok d' t" and vs: "\<And>v. v \<in> set vs \<Longrightarrow> approval_ok d v"
  shows "cvff_db_ok d'"
proof -
  have ids: "app_ids d' = app_ids d" using m by (simp add: moved_def app_ids_def)
  have sub: "set (approvals d) \<subseteq> set (approvals d')" "keeps_roles d d'"
    using m by (auto simp: moved_def keeps_roles_def)
  have uniq: "x = r" if "x \<in> set (apps d)" "ap_id x = ap_id r" for x
    using ok m that distinct_key_unique [of ap_id "apps d" x r]
    by (auto simp: cvff_db_ok_def moved_def app_ids_def)
  have log: "lifecycle_log k d' = lifecycle_log k d @ (if k = ap_id r then [t] else [])" for k
    using m by (auto simp: lifecycle_log_def moved_def)
  have "assignment_log k d' = assignment_log k d" for k
    using m by (auto simp: assignment_log_def moved_def)
  then have logged: "assignments_logged d'"
    using assignments_logged_mono [of d d'] ok m by (simp add: cvff_db_ok_def moved_def)
  have r: "app_ok d r" "r \<in> set (apps d)" using ok m by (auto simp: cvff_db_ok_def moved_def)
  have "app_ok d' (patch_app p r)"
    using r(1) m t entry_ok_mono [OF sub(1)]
    by (auto simp: app_ok_def Let_def log moved_def successively_append_iff)
  moreover have "app_ok d' x" if "x \<in> set (apps d)" "ap_id x \<noteq> ap_id r" for x
    using ok that app_ok_mono [OF sub(1)] by (auto simp: cvff_db_ok_def log)
  ultimately have apps: "app_ok d' x" if "x \<in> set (apps d')" for x
    using that m uniq by (auto simp: moved_def set_sql_update)
  have "roles_ok d'" using ok m ids by (auto simp: cvff_db_ok_def roles_ok_def moved_def)
  moreover have "approval_ok d' v" if "v \<in> set (approvals d')" for v
    using that m ok vs approval_ok_mono [OF sub(2)] by (auto simp: moved_def cvff_db_ok_def)
  ultimately show ?thesis
    using ok m r ids apps logged by (auto simp: cvff_db_ok_def moved_def app_ids_def)
qed

text \<open>Changes that leave the applications, the roles and the decisions alone.\<close>

lemma same_core_ok:
  assumes "cvff_db_ok d" and "apps d' = apps d" "role_rows d' = role_rows d"
    "approvals d' = approvals d" "transitions d' = transitions d"
  shows "cvff_db_ok d'"
proof -
  have "app_ok d' r" if "app_ok d r" for r
    using app_ok_mono [OF _ _ that, of d'] assms(4,5) by (simp add: lifecycle_log_def)
  moreover have "approval_ok d' v" if "approval_ok d v" for v
    using approval_ok_mono [OF _ that, of d'] assms(3) by (simp add: keeps_roles_def)
  moreover have "assignments_logged d'"
    using assignments_logged_mono [of d d'] assms by (simp add: cvff_db_ok_def assignment_log_def)
  ultimately show ?thesis using assms by (simp add: cvff_db_ok_def app_ids_def roles_ok_def)
qed

text \<open>Assigning the chain roles.\<close>

lemma assign_all_has_roles:
  "assign_all e app m rs d = Inr d' \<Longrightarrow> has_roles app d \<or> rs \<noteq> [] \<Longrightarrow> has_roles app d'"
proof (induction rs arbitrary: d)
  case (Cons r rs)
  obtain d1 where one: "assign_role e app m r d = Inr d1" and rest: "assign_all e app m rs d1 = Inr d'"
    using Cons.prems(1) by (auto simp: and_then_Inr_iff)
  have "has_roles app d1" using one by (auto simp: assign_role_def stmt_Inr_iff Let_def has_roles_def split: if_splits)
  then show ?case using Cons.IH [OF rest] by blast
qed simp

lemma assign_all_effect:
  "assign_all e app m rs d = Inr d' \<Longrightarrow> roles_ok d \<Longrightarrow>
     roles_ok d' \<and> keeps_roles d d' \<and> d' = d\<lparr>role_rows := role_rows d'\<rparr>"
proof (induction rs arbitrary: d)
  case (Cons r rs)
  obtain d1 where one: "assign_role e app m r d = Inr d1" and rest: "assign_all e app m rs d1 = Inr d'"
    using Cons.prems(1) by (auto simp: and_then_Inr_iff)
  obtain x where x: "d1 = d\<lparr>role_rows := role_rows d @ [x]\<rparr>" "rr_app x = app"
    "rr_role x \<in> set chain_roles" "app \<in> set (app_ids d)"
    and new: "\<And>y. y \<in> set (role_rows d) \<Longrightarrow> rr_app y = app \<Longrightarrow>
      rr_role y \<noteq> rr_role x \<and> rr_principal y \<noteq> rr_principal x"
    using one by (auto simp: assign_role_def stmt_Inr_iff Let_def split: if_splits)
  have "(rr_app x, rr_role x) \<notin> (\<lambda>y. (rr_app y, rr_role y)) ` set (role_rows d)"
    "(rr_app x, rr_principal x) \<notin> (\<lambda>y. (rr_app y, rr_principal y)) ` set (role_rows d)"
    using new x(2) by (metis (no_types, lifting) Pair_inject imageE)+
  then have d1: "roles_ok d1" "keeps_roles d d1"
    using Cons.prems(2) x by (auto simp: roles_ok_def keeps_roles_def app_ids_def)
  have "d' = d\<lparr>role_rows := role_rows d'\<rparr>"
    using Cons.IH [OF rest d1(1)] x(1) by (metis cvff_db.select_convs(2) cvff_db.surjective cvff_db.update_convs(2))
  then show ?case
    using Cons.IH [OF rest d1(1)] d1(2) by (auto simp: keeps_roles_def)
qed (simp add: keeps_roles_def)

end
