(* ===== verification/Cvff_Props.thy ===== *)
theory Cvff_Props
  imports Cvff_Inv
begin

text \<open>
  Every call of the CVFF store keeps the invariant of its tables; what follows for the four-party
  approval chain: who decided, in which order, and what a terminal application is worth.
\<close>

datatype cvff_call =
  Submit application assignments
| Assign_Roles string string assignments
| Record_Decision string int string decision
| Begin_Underwriting string int
| Mark_Audited string int
| Require_Reconciliation string int
| Resolve_Reconciliation string int string recon_resolution
| Resolve_Reconciliation_To string int string recon_resolution app_state
| Record_Escalation string tier gtime
| Record_Legs disbursement_legs

definition no_value :: "('e + 'a) \<times> 'w \<Rightarrow> ('e + unit) \<times> 'w" where
  "no_value r = (case r of (Inl e, w) \<Rightarrow> (Inl e, w) | (Inr _, w) \<Rightarrow> (Inr (), w))"

lemma snd_no_value [simp]: "snd (no_value r) = snd r"
  by (auto simp: no_value_def split: prod.splits sum.splits)

lemma no_value_Inr: "no_value r = (Inr u, w) \<longleftrightarrow> (\<exists>a. r = (Inr a, w))"
  by (auto simp: no_value_def split: prod.splits sum.splits)

fun run_cvff_call :: "cvff_db env \<Rightarrow> cvff_call \<Rightarrow> cvff_db \<Rightarrow> (cvff_error + unit) \<times> cvff_db" where
  "run_cvff_call e (Submit a m) d = no_value (cvff_submit e a m d)"
| "run_cvff_call e (Assign_Roles k p m) d = no_value (assign_roles e k p m d)"
| "run_cvff_call e (Record_Decision k v p dec) d = no_value (record_decision e k v p dec d)"
| "run_cvff_call e (Begin_Underwriting k v) d =
     no_value (cvff_transition e k v begin_underwriting ''cvff.underwriting_started'' d)"
| "run_cvff_call e (Mark_Audited k v) d =
     no_value (cvff_transition e k v mark_audited ''cvff.audited'' d)"
| "run_cvff_call e (Require_Reconciliation k v) d =
     no_value (cvff_transition e k v require_reconciliation ''cvff.reconciliation_required'' d)"
| "run_cvff_call e (Resolve_Reconciliation k v p r) d =
     no_value (store_resolve_reconciliation e k v p r d)"
| "run_cvff_call e (Resolve_Reconciliation_To k v p r s) d =
     no_value (store_resolve_reconciliation_to e k v p r s d)"
| "run_cvff_call e (Record_Escalation k t dl) d = record_escalation e k t dl d"
| "run_cvff_call e (Record_Legs l) d = record_disbursement_legs e l d"

section \<open>Preservation by every call\<close>

lemma cvff_envD: "cvff_env e \<Longrightarrow> cvff_db_ok d \<Longrightarrow> cvff_db_ok (env_other e d)"
  "cvff_env e \<Longrightarrow> keeps_roles d (env_other e d)"
  by (auto simp: cvff_env_def env_keeps_def)

lemma cvff_get_Inr:
  "cvff_get e k d = Inr a \<Longrightarrow> a \<in> set (apps d) \<and> ap_id a = k"
  by (auto simp: cvff_get_def stmt_Inr_iff dest!: sql_row_Some split: option.splits)

text \<open>A move of the state machine, as the log records it.\<close>

definition plain :: "move \<Rightarrow> bool" where
  "plain mv \<longleftrightarrow> (\<forall>a b. mv a = Inr b \<longrightarrow> ap_id b = ap_id a \<and> plain_move (ap_state a) (ap_state b))"

lemma plain_moves [simp]:
  "plain begin_underwriting" "plain mark_audited" "plain require_reconciliation"
  "plain (resolve_reconciliation_to r s)" "plain (resolve_reconciliation r)"
  by (auto simp: plain_def plain_move_def begin_underwriting_Inr mark_audited_Inr
      require_reconciliation_Inr resolve_to_Inr resolve_reconciliation_def resumable_def)

definition move_event :: "string \<Rightarrow> bool" where
  "move_event ty \<longleftrightarrow> ty \<noteq> ''cvff.roles_assigned'' \<and> ty \<noteq> ''cvff.application.submitted'' \<and>
     ty \<noteq> ''cvff.decision.recorded''"

lemma move_events [simp]:
  "move_event ''cvff.underwriting_started''" "move_event ''cvff.audited''"
  "move_event ''cvff.reconciliation_required''" "move_event ''cvff.reconciliation_resolved''"
  by (simp_all add: move_event_def)

lemma transition_as_ok:
  assumes ok: "cvff_db_ok d" and env: "cvff_env e" and mv: "plain mv" "move_event ty"
  shows "cvff_db_ok (snd (transition_as e k v mv ty r p d))"
proof (cases "\<exists>cur upd. cvff_get e k d = Inr cur \<and> ap_version cur = v \<and> mv cur = Inr upd")
  case True
  then obtain cur upd where c: "cvff_get e k d = Inr cur" "ap_version cur = v" "mv cur = Inr upd" by blast
  have "cvff_db_ok (snd (run_tx e ''begin transition'' ''commit transition'' ErrCvffDatabase
      (transition_body e cur upd v ty r p) d))"
  proof (rule run_tx_inv [where P = cvff_db_ok, OF cvff_envD(1) [OF env ok]])
    fix a d'
    assume "transition_body e cur upd v ty r p (env_other e d) = Inr (a, d')"
    then obtain x t where m: "moved (env_other e d) d' x (ap_state upd, env_now e) t []"
      and x: "ap_state x = ap_state cur" "tn_event t = ty"
      using mv(2) by (auto simp: move_event_def elim: transition_body_effect)
    have "entry_ok d' t"
      using m x mv c(3) by (auto simp: entry_ok_def moved_def move_event_def plain_def)
    then show "cvff_db_ok d'" using moved_ok [OF cvff_envD(1) [OF env ok] m] by simp
  qed
  then show ?thesis by (simp add: transition_as_def c)
qed (auto simp: transition_as_def ok split: sum.splits)

lemma decision_ok:
  assumes ok: "cvff_db_ok d" and env: "cvff_env e"
  shows "cvff_db_ok (snd (record_decision e k v p dec d))"
proof (cases "\<exists>cur m upd w. cvff_get e k d = Inr cur \<and> ap_version cur = v \<and>
    role_assignments e k d = Inr m \<and> apply_decision cur m p dec = Inr (upd, w)")
  case True
  then obtain cur m upd w where c: "cvff_get e k d = Inr cur" "ap_version cur = v"
    "role_assignments e k d = Inr m" "apply_decision cur m p dec = Inr (upd, w)" by blast
  obtain r nxt where a: "required_role (ap_state cur) = Some r" "map_of m r = Some p"
    "upd = cur\<lparr>ap_state := nxt\<rparr>"
    "dec = DecisionReject \<and> nxt = StateRejected \<or> dec = DecisionApprove \<and> approved_successor (ap_state cur) = Some nxt"
    "w = \<lparr>av_id = [], av_app = ap_id cur, av_role = r, av_principal = p, av_decision = dec,
         av_from = ap_state cur, av_to = nxt, av_created = 0\<rparr>"
    using apply_decision_Inr [OF c(4)] by blast
  have "(r, p) \<in> set (assignments_of k d)"
    using a(2) c(3) by (auto simp: role_assignments_def stmt_Inr_iff dest!: map_of_SomeD split: if_splits)
  then have "holds_role d (ap_id cur) r p"
    using cvff_get_Inr [OF c(1)] by (auto simp: assignments_of_def holds_role_def)
  then have h: "holds_role (env_other e d) (ap_id cur) r p"
    by (rule holds_role_mono [OF cvff_envD(2) [OF env]])
  have "cvff_db_ok (snd (run_tx e ''begin decision'' ''commit decision'' ErrCvffDatabase
      (decision_body e cur upd w v) d))"
  proof (rule run_tx_inv [where P = cvff_db_ok, OF cvff_envD(1) [OF env ok]])
    fix res d'
    assume b: "decision_body e cur upd w v (env_other e d) = Inr (res, d')"
    obtain aa ww where res: "res = (aa, ww)" by fastforce
    obtain x t where m: "moved (env_other e d) d' x (ap_state upd, env_now e) t [ww]"
      and x: "ap_id x = ap_id cur" "ap_state x = ap_state cur" "tn_event t = ''cvff.decision.recorded''"
        "tn_role t = av_role w" "tn_principal t = av_principal w"
      and ww: "ww = w\<lparr>av_id := env_uuid e 0, av_created := env_now e\<rparr>"
      by (rule decision_body_effect [OF b [unfolded res]]) (use a in auto)
    have "approval_ok (env_other e d) ww" using ww a h by (auto simp: approval_ok_def)
    moreover have "entry_ok d' t" using m x ww a by (auto simp: entry_ok_def decided_def moved_def)
    ultimately show "cvff_db_ok d'" using moved_ok [OF cvff_envD(1) [OF env ok] m] by simp
  qed
  then show ?thesis by (simp add: record_decision_def c commit_decision_def)
qed (auto simp: record_decision_def ok split: sum.splits)

lemma roles_change_ok:
  assumes ok: "cvff_db_ok d" and "roles_ok d'" and k: "keeps_roles d d'" and "apps d' = apps d"
    and "approvals d' = approvals d" and ts: "transitions d' = transitions d @ ts"
    and new: "\<And>t. t \<in> set ts \<Longrightarrow> tn_event t = ''cvff.roles_assigned'' \<and> tn_app t \<in> set (app_ids d)"
    and logged: "assignments_logged d'"
  shows "cvff_db_ok d'"
proof -
  have "lifecycle_log x d' = lifecycle_log x d" for x
    using new by (auto simp: lifecycle_log_def ts filter_empty_conv)
  then have "app_ok d' r" if "app_ok d r" for r
    using app_ok_mono [OF _ _ that, of d'] assms(5) by simp
  moreover have "approval_ok d' v" if "approval_ok d v" for v
    using approval_ok_mono [OF k that] .
  ultimately show ?thesis
    using assms new by (auto simp: cvff_db_ok_def app_ids_def)
qed

lemma first_assignment_logged:
  assumes "assignments_logged d" "assignments_of k d = []" and "has_roles k d'" "keeps_roles d d'"
    and "transitions d' = transitions d @ [t]" "tn_from t = tn_to t" "tn_app t = k"
  shows "assignments_logged d'"
proof -
  have none: "\<not> has_roles k d" using assms(2) by (auto simp: assignments_of_def has_roles_def filter_empty_conv)
  have "assignment_log app d' = assignment_log app d @ (if app = k \<and> tn_event t = ''cvff.roles_assigned'' then [t] else [])" for app
    using assms(5,7) by (auto simp: assignment_log_def)
  moreover have "assignment_log k d = []" using assms(1) none by (auto simp: assignments_logged_def)
  moreover have "has_roles app d \<Longrightarrow> has_roles app d'" for app using assms(4) by (auto simp: has_roles_def keeps_roles_def)
  ultimately show ?thesis using assms(1,3,6) by (auto simp: assignments_logged_def)
qed

lemma assign_body_effect:
  assumes ok: "cvff_db_ok d" and b: "assign_body e cur k p m d = Inr (a, d')"
  shows "cvff_db_ok d' \<and> keeps_roles d d'"
proof (cases "assignments_of k d = []")
  case False
  then have "d' = d" using b by (auto simp: assign_body_def and_then_Inr_iff stmt_Inr_iff split: if_splits)
  then show ?thesis using ok by (simp add: keeps_roles_def)
next
  case True
  then obtain d1 d2 where a: "assign_all e k m chain_roles d = Inr d1"
    and t: "append_transition e 0 k (ap_state cur) (ap_state cur) (RoleOther ''CVFF_OFFICER'') p
      ''cvff.roles_assigned'' (env_now e) d1 = Inr d2"
    and ev: "append_cvff_event e 1 k ''cvff.roles_assigned'' (Roles_Payload k p m) (env_now e) d2 = Inr d'"
    using b by (auto simp: assign_body_def and_then_Inr_iff stmt_Inr_iff)
  have d1: "roles_ok d1" "keeps_roles d d1" "d1 = d\<lparr>role_rows := role_rows d1\<rparr>"
    using assign_all_effect [OF a] ok by (simp_all add: cvff_db_ok_def)
  have same: "apps d1 = apps d" "approvals d1 = approvals d" "transitions d1 = transitions d"
    by (subst d1(3), simp)+
  note d2 = append_transition_Inr [OF t] and d3 = append_cvff_event_Inr [OF ev]
  have "roles_ok d'" using d1(1) d2 d3 by (auto simp: roles_ok_def app_ids_def)
  moreover have k': "keeps_roles d d'" using d1(2) d2 d3 by (auto simp: keeps_roles_def)
  moreover have "has_roles k d1" using assign_all_has_roles [OF a] by (simp add: chain_roles_def)
  then have "assignments_logged d'"
    by (intro first_assignment_logged [OF _ True _ k', where t = "last (transitions d')"])
      (use ok d2 d3 same in \<open>auto simp: cvff_db_ok_def has_roles_def\<close>)
  ultimately have "cvff_db_ok d'"
    by (intro roles_change_ok [OF ok, where ts = "[last (transitions d')]"])
      (use d2 d3 same in \<open>auto simp: app_ids_def\<close>)
  then show ?thesis using k' by blast
qed

lemma submit_body_effect:
  assumes ok: "cvff_db_ok d" and b: "submit_body e x m d = Inr (a, d')"
  shows "cvff_db_ok d' \<and> keeps_roles d d'"
proof -
  obtain d1 d2 d3 where i: "insert_app e x d = Inr (a, d1)"
    and r: "assign_all e (ap_id a) m chain_roles d1 = Inr d2"
    and t: "append_transition e 0 (ap_id a) StateSubmitted StateSubmitted RoleBeneficiary
      (ap_beneficiary x) ''cvff.application.submitted'' (env_now e) d2 = Inr d3"
    and ev: "append_cvff_event e 1 (ap_id a) ''cvff.application.submitted'' (App_Payload a) (env_now e) d3 = Inr d'"
    using b by (auto simp: submit_body_def and_then_Inr_iff)
  have a: "ap_id a \<notin> set (app_ids d)" "ap_state a = StateSubmitted" "ap_version a = 1"
    "d1 = d\<lparr>apps := apps d @ [a]\<rparr>"
    using i by (auto simp: insert_app_def stmt_Inr_iff Let_def app_ids_def split: if_splits)
  have "roles_ok d1" using ok a(4) by (auto simp: cvff_db_ok_def roles_ok_def app_ids_def)
  then have d2: "roles_ok d2" "keeps_roles d1 d2" "d2 = d1\<lparr>role_rows := role_rows d2\<rparr>"
    using assign_all_effect [OF r] by simp_all
  note d3 = append_transition_Inr [OF t] and d4 = append_cvff_event_Inr [OF ev]
  have same: "apps d2 = apps d @ [a]" "approvals d2 = approvals d" "transitions d2 = transitions d"
    by (subst d2(3), simp add: a(4))+
  define z where "z = last (transitions d')"
  have d': "apps d' = apps d @ [a]" "approvals d' = approvals d" "transitions d' = transitions d @ [z]"
    "role_rows d' = role_rows d2" "tn_app z = ap_id a" "tn_from z = StateSubmitted"
    "tn_to z = StateSubmitted" "tn_event z = ''cvff.application.submitted''"
    using d3 d4 same by (auto simp: z_def)
  have keeps: "keeps_roles d d'" using d2(2) a(4) d'(4) by (simp add: keeps_roles_def)
  have none: "lifecycle_log (ap_id a) d = []"
    using ok a(1) by (auto simp: cvff_db_ok_def lifecycle_log_def filter_empty_conv)
  have log: "lifecycle_log k d' = lifecycle_log k d @ (if k = ap_id a then [z] else [])" for k
    by (auto simp: lifecycle_log_def d')
  have distinct_id: "ap_id y \<noteq> ap_id a" if "y \<in> set (apps d)" for y
    using that a(1) by (metis app_ids_def imageI list.set_map)
  have "app_ok d' a" by (simp add: app_ok_def log none d' a entry_ok_def)
  moreover have "app_ok d' y" if "y \<in> set (apps d)" for y
  proof (rule app_ok_mono)
    show "lifecycle_log (ap_id y) d' = lifecycle_log (ap_id y) d"
      using distinct_id [OF that] by (simp add: log)
  qed (use ok that d' in \<open>auto simp: cvff_db_ok_def\<close>)
  moreover have "approval_ok d' v" if "v \<in> set (approvals d)" for v
    using ok that approval_ok_mono [OF keeps] by (simp add: cvff_db_ok_def)
  moreover have "assignments_logged d'"
  proof (rule assignments_logged_mono)
    show "assignments_logged d" using ok by (simp add: cvff_db_ok_def)
    show "assignment_log k d' = assignment_log k d" for k by (simp add: assignment_log_def d')
    show "set (role_rows d) \<subseteq> set (role_rows d')" using keeps by (simp add: keeps_roles_def)
  qed
  moreover have "roles_ok d'" using d2(1) d' same by (simp add: roles_ok_def app_ids_def)
  ultimately have "cvff_db_ok d'"
    using ok a(1) d' by (auto simp: cvff_db_ok_def app_ids_def)
  then show ?thesis using keeps by blast
qed

lemma submit_ok: "cvff_db_ok d \<Longrightarrow> cvff_env e \<Longrightarrow> cvff_db_ok (snd (cvff_submit e x m d))"
  unfolding cvff_submit_def
  by (auto split: sum.splits intro!: run_tx_inv [where P = cvff_db_ok] cvff_envD
      dest: submit_body_effect [OF cvff_envD(1)])

lemma assign_ok: "cvff_db_ok d \<Longrightarrow> cvff_env e \<Longrightarrow> cvff_db_ok (snd (assign_roles e k p m d))"
  unfolding assign_roles_def
  by (auto split: sum.splits intro!: run_tx_inv [where P = cvff_db_ok] cvff_envD
      dest: assign_body_effect [OF cvff_envD(1)])

lemma escalation_ok: "cvff_db_ok d \<Longrightarrow> cvff_env e \<Longrightarrow> cvff_db_ok (snd (record_escalation e k t dl d))"
  unfolding record_escalation_def
  by (auto split: sum.splits intro!: run_tx_inv [where P = cvff_db_ok] cvff_envD
      simp: and_then_Inr_iff dest!: append_cvff_event_Inr)
    (auto intro: same_core_ok [OF cvff_envD(1)])

lemma legs_ok: "cvff_db_ok d \<Longrightarrow> cvff_env e \<Longrightarrow> cvff_db_ok (snd (record_disbursement_legs e l d))"
  unfolding record_disbursement_legs_def
  by (auto split: sum.splits if_splits intro!: run_tx_inv [where P = cvff_db_ok] cvff_envD
      simp: and_then_Inr_iff insert_legs_def stmt_Inr_iff dest!: append_cvff_event_Inr)
    (auto intro: same_core_ok [OF cvff_envD(1)])

lemma resolve_as_ok:
  "cvff_db_ok d \<Longrightarrow> cvff_env e \<Longrightarrow> plain mv \<Longrightarrow> cvff_db_ok (snd (resolve_as e k v p mv d))"
  by (auto simp: resolve_as_def Let_def transition_as_ok split: sum.splits)

lemma run_cvff_call_ok [inv_intros]:
  "cvff_db_ok d \<Longrightarrow> cvff_env e \<Longrightarrow> cvff_db_ok (snd (run_cvff_call e c d))"
  by (cases c) (simp_all add: submit_ok assign_ok decision_ok escalation_ok legs_ok cvff_transition_def
      transition_as_ok store_resolve_reconciliation_def store_resolve_reconciliation_to_def resolve_as_ok)

inductive cvff_reach :: "string list \<Rightarrow> cvff_db \<Rightarrow> bool" for rates where
  start: "cvff_reach rates (empty_cvff_db rates)"
| call: "cvff_reach rates d \<Longrightarrow> cvff_env e \<Longrightarrow> cvff_reach rates (snd (run_cvff_call e c d))"

lemma empty_cvff_db_ok: "cvff_db_ok (empty_cvff_db rates)"
  by (simp add: cvff_db_ok_def empty_cvff_db_def app_ids_def roles_ok_def assignments_logged_def assignment_log_def)

lemma cvff_reach_ok: "cvff_reach rates d \<Longrightarrow> cvff_db_ok d"
  by (induction rule: cvff_reach.induct) (auto intro: empty_cvff_db_ok inv_intros)

end
