(* ===== verification/Cvff_Chain.thy ===== *)
theory Cvff_Chain
  imports Cvff_Props
begin

text \<open>
  What the CVFF store guarantees of the four-party approval chain, in every database its calls can
  reach under any clock, failure and interleaving: who decided, that the log is the history, that
  a disbursed application has the beneficiary's confirmation, and what is final.
\<close>

section \<open>A run of the chain\<close>

definition cvff_demo_env :: "nat \<Rightarrow> cvff_db env" where
  "cvff_demo_env n = quiet_env (int n) (\<lambda>i. replicate n CHR ''u'')"

lemma cvff_demo_env_ok [simp]: "cvff_env (cvff_demo_env n)"
  by (simp add: cvff_demo_env_def)

definition demo_application :: application where
  "demo_application = \<lparr>ap_id = ''app-1'', ap_ref = ''ref-1'', ap_beneficiary = ''yard-7'',
     ap_amount = 5000, ap_currency = ''USD'', ap_state = StateSubmitted, ap_created = 0,
     ap_updated = 0, ap_version = 0\<rparr>"

definition demo_parties :: assignments where
  "demo_parties = [(RoleUnderwriterPrimary, ''ins-a''), (RoleUnderwriterSecondary, ''ins-b''),
     (RoleUnderwriterTertiary, ''ins-c''), (RoleNIMASAApprover, ''nimasa-1''),
     (RoleReceivingBank, ''bank-1''), (RoleBeneficiary, ''owner-1'')]"

fun run_cvff_calls :: "nat \<Rightarrow> cvff_call list \<Rightarrow> cvff_db \<Rightarrow> cvff_db" where
  "run_cvff_calls n [] d = d"
| "run_cvff_calls n (c # cs) d =
     run_cvff_calls (Suc n) cs (snd (run_cvff_call (cvff_demo_env n) c d))"

definition demo_approvals :: "cvff_call list" where
  "demo_approvals =
     [Submit demo_application demo_parties, Begin_Underwriting ''app-1'' 1,
      Record_Decision ''app-1'' 2 ''ins-a'' DecisionApprove,
      Record_Decision ''app-1'' 3 ''ins-b'' DecisionApprove,
      Record_Decision ''app-1'' 4 ''ins-c'' DecisionApprove,
      Record_Decision ''app-1'' 5 ''nimasa-1'' DecisionApprove,
      Record_Decision ''app-1'' 6 ''bank-1'' DecisionApprove]"

definition demo_closed :: cvff_db where
  "demo_closed = run_cvff_calls 1
     (demo_approvals @ [Record_Decision ''app-1'' 7 ''owner-1'' DecisionApprove, Mark_Audited ''app-1'' 8])
     (empty_cvff_db [])"

lemma run_cvff_calls_reach: "cvff_reach rates d \<Longrightarrow> cvff_reach rates (run_cvff_calls n cs d)"
proof (induction cs arbitrary: n d)
  case (Cons c cs)
  show ?case using Cons.IH [OF cvff_reach.call [OF Cons.prems cvff_demo_env_ok]] by simp
qed simp

lemma demo_closed_reach: "cvff_reach [] demo_closed"
  unfolding demo_closed_def by (intro run_cvff_calls_reach cvff_reach.start)

lemma demo_closed_rows:
  "map ap_state (apps demo_closed) = [StateAudited]" "map ap_version (apps demo_closed) = [9]"
  "map (\<lambda>v. (av_role v, av_principal v)) (approvals demo_closed) = demo_parties"
  by code_simp+

section \<open>Separation of roles\<close>

lemma reach_approval:
  "cvff_reach rates d \<Longrightarrow> v \<in> set (approvals d) \<Longrightarrow> approval_ok d v"
  using cvff_reach_ok by (auto simp: cvff_db_ok_def)

lemma reach_app: "cvff_reach rates d \<Longrightarrow> r \<in> set (apps d) \<Longrightarrow> app_ok d r"
  using cvff_reach_ok by (auto simp: cvff_db_ok_def)

text \<open>The assignment table is a partial injection for each application.\<close>

lemma holds_role_inj:
  assumes ok: "roles_ok d" and "holds_role d a r p" "holds_role d a r' p'"
  shows "r = r' \<longleftrightarrow> p = p'"
proof -
  obtain x y where x: "x \<in> set (role_rows d)" "rr_app x = a" "rr_role x = r" "rr_principal x = p"
    and y: "y \<in> set (role_rows d)" "rr_app y = a" "rr_role y = r'" "rr_principal y = p'"
    using assms(2,3) by (auto simp: holds_role_def)
  have "x = y" if "r = r'"
    using ok distinct_key_unique [of "\<lambda>x. (rr_app x, rr_role x)" "role_rows d" x y] x y that
    by (simp add: roles_ok_def)
  moreover have "x = y" if "p = p'"
    using ok distinct_key_unique [of "\<lambda>x. (rr_app x, rr_principal x)" "role_rows d" x y] x y that
    by (simp add: roles_ok_def)
  ultimately show ?thesis using x y by auto
qed

text \<open>C3 Separation of duties on the chain. In every reachable database each recorded decision was
  made in the state that requires its role, by the principal assigned to that role, and two
  decisions on one application come from one principal exactly when they were made in one role:
  nobody approves twice under different hats.\<close>

theorem decisions_are_role_separated:
  assumes "cvff_reach rates d" and "v \<in> set (approvals d)" and "w \<in> set (approvals d)"
    and "av_app v = av_app w"
  shows "required_role (av_from v) = Some (av_role v) \<and>
         holds_role d (av_app v) (av_role v) (av_principal v) \<and>
         (av_principal v = av_principal w \<longleftrightarrow> av_role v = av_role w)"
proof -
  have "roles_ok d" using cvff_reach_ok [OF assms(1)] by (simp add: cvff_db_ok_def)
  then show ?thesis
    using reach_approval [OF assms(1,2)] reach_approval [OF assms(1,3)] assms(4)
      holds_role_inj [of d "av_app w" "av_role v" "av_principal v" "av_role w" "av_principal w"]
    by (auto simp: approval_ok_def)
qed

theorem decisions_are_role_separated_witness:
  "av_role (approvals demo_closed ! 0) \<noteq> av_role (approvals demo_closed ! 4)"
proof -
  have "av_principal (approvals demo_closed ! 0) \<noteq> av_principal (approvals demo_closed ! 4)"
    "av_app (approvals demo_closed ! 0) = av_app (approvals demo_closed ! 4)"
    "approvals demo_closed ! 0 \<in> set (approvals demo_closed)"
    "approvals demo_closed ! 4 \<in> set (approvals demo_closed)"
    by code_simp+
  then show ?thesis using decisions_are_role_separated [OF demo_closed_reach] by blast
qed

section \<open>The log is the history\<close>

text \<open>C9 The transition log is the history. In every reachable database the rows of the transition log of an
  application, the entries of late role assignments left out, start at SUBMITTED, are a chain (each entry leaves
  the state the one before reached), end in the stored state, and are exactly as many as
  the stored row has versions; every one of them is the submission, a recorded decision, or one of the
  moves of the worker and the reconciliation officer. What is left out is one row at most, named
  \<open>cvff.roles_assigned\<close>, which moves the application nowhere: it repeats the state its officer read, possibly
  an earlier one than the stored state, and advances no version.\<close>

theorem transition_log_is_the_history:
  assumes "cvff_reach rates d" and "r \<in> set (apps d)"
  shows "let rows = filter (\<lambda>t. tn_app t = ap_id r) (transitions d);
             moves = filter (\<lambda>t. tn_event t \<noteq> ''cvff.roles_assigned'') rows
         in
         moves \<noteq> [] \<and> tn_from (hd moves) = StateSubmitted \<and>
         successively (\<lambda>a b. tn_from b = tn_to a) moves \<and>
         tn_to (last moves) = ap_state r \<and> ap_version r = int (length moves) \<and>
         list_all (entry_ok d) moves \<and>
         length rows \<le> Suc (length moves) \<and> (\<forall>t \<in> set rows. t \<in> set moves \<or> tn_from t = tn_to t)"
proof -
  define rows where "rows = filter (\<lambda>t. tn_app t = ap_id r) (transitions d)"
  define moves where "moves = filter (\<lambda>t. tn_event t \<noteq> ''cvff.roles_assigned'') rows"
  have m: "moves = lifecycle_log (ap_id r) d"
    by (simp add: moves_def rows_def lifecycle_log_def conj_commute)
  have logged: "assignments_logged d" using cvff_reach_ok [OF assms(1)] by (simp add: cvff_db_ok_def)
  have "filter (\<lambda>t. \<not> tn_event t \<noteq> ''cvff.roles_assigned'') rows = assignment_log (ap_id r) d"
    by (simp add: rows_def assignment_log_def conj_commute)
  then have "length rows = length moves + length (assignment_log (ap_id r) d)"
    unfolding moves_def using sum_length_filter_compl [of "\<lambda>t. tn_event t \<noteq> ''cvff.roles_assigned''" rows] by simp
  then have "length rows \<le> Suc (length moves)" using logged by (simp add: assignments_logged_def)
  moreover have "t \<in> set moves \<or> tn_from t = tn_to t" if "t \<in> set rows" for t
    using that logged unfolding assignments_logged_def by (auto simp: moves_def rows_def assignment_log_def)
  moreover have "lifecycle_log (ap_id r) d \<noteq> [] \<and> tn_from (hd (lifecycle_log (ap_id r) d)) = StateSubmitted \<and>
      successively (\<lambda>a b. tn_from b = tn_to a) (lifecycle_log (ap_id r) d) \<and>
      tn_to (last (lifecycle_log (ap_id r) d)) = ap_state r \<and>
      ap_version r = int (length (lifecycle_log (ap_id r) d)) \<and> list_all (entry_ok d) (lifecycle_log (ap_id r) d)"
    using reach_app [OF assms] by (simp add: app_ok_def Let_def list_all_iff)
  ultimately show ?thesis unfolding Let_def rows_def [symmetric] moves_def [symmetric] m [symmetric] by blast
qed

theorem transition_log_is_the_history_witness:
  "length (filter (\<lambda>t. tn_event t \<noteq> ''cvff.roles_assigned'')
     (filter (\<lambda>t. tn_app t = ''app-1'') (transitions demo_closed))) = 9"
proof -
  obtain r where r: "apps demo_closed = [r]" "ap_id r = ''app-1''" "ap_version r = 9"
  proof -
    have "map ap_id (apps demo_closed) = [''app-1'']" by code_simp
    then show ?thesis using demo_closed_rows(2) that by (auto simp: map_eq_Cons_conv)
  qed
  then show ?thesis
    using transition_log_is_the_history [OF demo_closed_reach, of r] by (simp add: Let_def)
qed

section \<open>Disbursement needs the beneficiary\<close>

lemma successor_iff:
  "approved_successor s = Some StateDisbursed \<longleftrightarrow> s = StateDisbursementPending"
  "approved_successor s = Some StateAudited \<longleftrightarrow> s = StateDisbursed"
  by (cases s; simp)+

lemma entry_to_disbursed:
  assumes "entry_ok d t" "tn_to t = StateDisbursed"
  shows "decided d t"
  using assms by (auto simp: entry_ok_def plain_move_def resumable_def split: if_splits)

lemma entry_to_audited:
  assumes "entry_ok d t" "tn_to t = StateAudited" and "\<And>v. v \<in> set (approvals d) \<Longrightarrow> approval_ok d v"
  shows "tn_from t = StateDisbursed"
proof -
  have "\<not> decided d t"
  proof
    assume "decided d t"
    then obtain v where "approval_ok d v" "av_to v = StateAudited"
      using assms(2,3) by (auto simp: decided_def)
    then show False by (auto simp: approval_ok_def successor_iff)
  qed
  then show ?thesis
    using assms(1,2) by (auto simp: entry_ok_def plain_move_def resumable_def split: if_splits)
qed

lemma disbursed_entry:
  assumes "app_ok d r" "ap_state r = StateDisbursed \<or> ap_state r = StateAudited"
    and ok: "\<And>v. v \<in> set (approvals d) \<Longrightarrow> approval_ok d v"
  shows "\<exists>t \<in> set (lifecycle_log (ap_id r) d). tn_to t = StateDisbursed \<and> entry_ok d t"
proof -
  let ?log = "lifecycle_log (ap_id r) d"
  have log: "?log \<noteq> []" "tn_to (last ?log) = ap_state r" "tn_from (hd ?log) = StateSubmitted"
    "successively (\<lambda>a b. tn_from b = tn_to a) ?log" "\<And>t. t \<in> set ?log \<Longrightarrow> entry_ok d t"
    using assms(1) by (simp_all add: app_ok_def Let_def)
  show ?thesis
  proof (cases "ap_state r = StateDisbursed")
    case True
    then show ?thesis using log(2) log(5) last_in_set [OF log(1)] by (intro bexI [of _ "last ?log"]) auto
  next
    case False
    then have "tn_to (last ?log) = StateAudited" using assms(2) log(2) by simp
    then have aud: "tn_from (last ?log) = StateDisbursed"
      by (rule entry_to_audited [OF log(5) [OF last_in_set [OF log(1)]] _ ok])
    have ne: "butlast ?log \<noteq> []"
    proof
      assume "butlast ?log = []"
      then have "hd ?log = last ?log" using log(1) by (cases ?log) (auto split: if_splits)
      then show False using aud log(3) by simp
    qed
    have "?log = butlast ?log @ [last ?log]" using log(1) by simp
    then have "tn_from (last ?log) = tn_to (last (butlast ?log))"
      using log(4) ne successively_append_iff [of _ "butlast ?log" "[last ?log]"] by simp
    moreover have "last (butlast ?log) \<in> set ?log"
      using in_set_butlastD [OF last_in_set [OF ne]] .
    ultimately show ?thesis
      using aud log(5) by (intro bexI [of _ "last (butlast ?log)"]) simp_all
  qed
qed

text \<open>No disbursement without the beneficiary. In every reachable database an application that is
  DISBURSED or AUDITED carries the approval of the principal assigned as its beneficiary, made while
  the application was DISBURSEMENT_PENDING.\<close>

theorem disbursed_has_beneficiary_confirmation:
  assumes "cvff_reach rates d" and "r \<in> set (apps d)"
    and "ap_state r = StateDisbursed \<or> ap_state r = StateAudited"
  shows "\<exists>v \<in> set (approvals d). av_app v = ap_id r \<and> av_role v = RoleBeneficiary \<and>
     av_decision v = DecisionApprove \<and> av_from v = StateDisbursementPending \<and>
     holds_role d (ap_id r) RoleBeneficiary (av_principal v)"
proof -
  obtain t where t: "t \<in> set (lifecycle_log (ap_id r) d)" "tn_to t = StateDisbursed" "entry_ok d t"
    using disbursed_entry [OF reach_app [OF assms(1,2)] assms(3) reach_approval [OF assms(1)]] by blast
  then obtain v where v: "v \<in> set (approvals d)" "av_app v = ap_id r" "av_to v = StateDisbursed"
    using entry_to_disbursed [OF t(3,2)] by (auto simp: decided_def lifecycle_log_def)
  have ok: "approval_ok d v" using reach_approval [OF assms(1) v(1)] .
  then have "av_decision v = DecisionApprove \<and> approved_successor (av_from v) = Some StateDisbursed"
    using v(3) by (auto simp: approval_ok_def)
  then have "av_decision v = DecisionApprove \<and> av_from v = StateDisbursementPending"
    by (simp add: successor_iff)
  then show ?thesis using ok v(1,2) by (auto simp: approval_ok_def intro!: bexI [of _ v])
qed

theorem disbursed_has_beneficiary_confirmation_witness:
  "\<exists>v \<in> set (approvals demo_closed). av_app v = ''app-1'' \<and> av_role v = RoleBeneficiary"
proof -
  have "hd (apps demo_closed) \<in> set (apps demo_closed)"
    "ap_state (hd (apps demo_closed)) = StateAudited" "ap_id (hd (apps demo_closed)) = ''app-1''"
    by code_simp+
  then show ?thesis
    using disbursed_has_beneficiary_confirmation [OF demo_closed_reach, of "hd (apps demo_closed)"]
    by auto
qed

section \<open>Closed applications\<close>

text \<open>What one call does to the applications: nothing, a submission, or a move of one that is open.\<close>

inductive app_step :: "cvff_db \<Rightarrow> cvff_db \<Rightarrow> bool" for d where
  same: "apps d' = apps d \<Longrightarrow> app_step d d'"
| submitted: "apps d' = apps d @ [a] \<Longrightarrow> app_step d d'"
| stepped: "moved d d' x p t vs \<Longrightarrow> \<not> terminal (ap_state x) \<Longrightarrow> app_step d d'"

lemma app_step_keeps_closed:
  "app_step d d' \<Longrightarrow> r \<in> set (apps d) \<Longrightarrow> terminal (ap_state r) \<Longrightarrow> r \<in> set (apps d')"
  by (induction rule: app_step.induct) (auto simp: moved_def set_sql_update)

lemma app_step_tx:
  assumes "\<And>a d'. body d = Inr (a, d') \<Longrightarrow> app_step d d'"
  shows "app_step d (snd (run_tx (alone e) b c mk body d))"
  by (rule run_tx_inv [where P = "app_step d"]) (auto intro: app_step.same assms)

lemma plain_open: "plain mv \<Longrightarrow> mv a = Inr b \<Longrightarrow> \<not> terminal (ap_state a)"
  unfolding plain_def by (drule spec, drule spec, drule mp, assumption) (auto simp: plain_move_def terminal_def)

lemma transition_as_step:
  assumes mv: "plain mv" "move_event ty"
  shows "app_step d (snd (transition_as (alone e) k v mv ty r p d))"
proof -
  have "app_step d d'" if "cvff_get (alone e) k d = Inr cur" "mv cur = Inr upd"
    "transition_body (alone e) cur upd v ty r p d = Inr (a, d')" for cur upd a d'
    using mv(2) plain_open [OF mv(1) that(2)]
    by (auto simp: move_event_def elim!: transition_body_effect [OF that(3)] intro: app_step.stepped)
  then show ?thesis
    by (auto simp: transition_as_def split: sum.splits intro: app_step.same app_step_tx)
qed

lemma record_decision_step: "app_step d (snd (record_decision (alone e) k v p dec d))"
proof -
  have "app_step d d'" if "apply_decision cur m p dec = Inr (upd, w)"
    "decision_body (alone e) cur upd w v d = Inr (a, d')" for cur m upd w a d'
  proof -
    obtain b y where a: "a = (b, y)" by fastforce
    have w: "av_app w = ap_id cur" "av_from w = ap_state cur" "av_to w = ap_state upd"
      "required_role (ap_state cur) \<noteq> None"
      using apply_decision_Inr [OF that(1)] by auto
    then have "\<not> terminal (ap_state cur)" by (auto simp: terminal_def)
    then show ?thesis
      using decision_body_effect [OF that(2) [unfolded a] w(1-3)] app_step.stepped by metis
  qed
  then show ?thesis
    by (auto simp: record_decision_def commit_decision_def split: sum.splits
        intro: app_step.same app_step_tx)
qed

lemma assign_all_apps: "assign_all e k m rs d = Inr d' \<Longrightarrow> apps d' = apps d"
  by (induction rs arbitrary: d)
    (auto simp: and_then_Inr_iff assign_role_def stmt_Inr_iff Let_def split: if_splits)

lemma submit_step: "app_step d (snd (cvff_submit (alone e) a m d))"
proof -
  have "app_step d d'" if "submit_body (alone e) a m d = Inr (b, d')" for b d'
    by (rule app_step.submitted [of d' d b])
      (use that in \<open>auto simp: submit_body_def and_then_Inr_iff insert_app_def stmt_Inr_iff Let_def
        dest!: append_cvff_event_Inr append_transition_Inr assign_all_apps split: if_splits\<close>)
  then show ?thesis
    by (auto simp: cvff_submit_def split: sum.splits intro: app_step.same app_step_tx)
qed

lemma assign_step: "app_step d (snd (assign_roles (alone e) k p m d))"
proof -
  have "app_step d d'" if "assign_body (alone e) cur k p m d = Inr (b, d')" for cur b d'
    by (rule app_step.same)
      (use that in \<open>auto simp: assign_body_def and_then_Inr_iff stmt_Inr_iff
        dest!: append_cvff_event_Inr append_transition_Inr assign_all_apps split: if_splits\<close>)
  then show ?thesis
    by (auto simp: assign_roles_def split: sum.splits intro: app_step.same app_step_tx)
qed

lemma escalation_step: "app_step d (snd (record_escalation (alone e) k t dl d))"
  unfolding record_escalation_def
  by (auto split: sum.splits intro!: app_step.same app_step_tx simp: and_then_Inr_iff
      dest!: append_cvff_event_Inr)

lemma legs_step: "app_step d (snd (record_disbursement_legs (alone e) l d))"
  unfolding record_disbursement_legs_def
  by (auto split: sum.splits if_splits intro!: app_step.same app_step_tx simp: and_then_Inr_iff
      insert_legs_def stmt_Inr_iff dest!: append_cvff_event_Inr)

lemma run_cvff_call_step: "app_step d (snd (run_cvff_call (alone e) c d))"
proof (cases c)
  case (Resolve_Reconciliation k v p r)
  then show ?thesis
    by (auto simp: store_resolve_reconciliation_def resolve_as_def Let_def
        intro: app_step.same transition_as_step split: sum.splits)
next
  case (Resolve_Reconciliation_To k v p r s)
  then show ?thesis
    by (auto simp: store_resolve_reconciliation_to_def resolve_as_def Let_def
        intro: app_step.same transition_as_step split: sum.splits)
qed (simp_all add: submit_step assign_step record_decision_step cvff_transition_def
  transition_as_step escalation_step legs_step)

text \<open>Closed is closed. No call of the store, by any principal and with any version, changes the
  row of an application that is REJECTED or AUDITED.\<close>

theorem closed_applications_are_final:
  assumes "r \<in> set (apps d)" and "terminal (ap_state r)"
  shows "r \<in> set (apps (snd (run_cvff_call (alone e) c d)))"
  using app_step_keeps_closed [OF run_cvff_call_step assms] .

theorem closed_applications_are_final_witness:
  "apps (snd (run_cvff_call (alone (cvff_demo_env 20)) (Require_Reconciliation ''app-1'' 9) demo_closed)) \<noteq> []"
proof -
  have "hd (apps demo_closed) \<in> set (apps demo_closed)" "terminal (ap_state (hd (apps demo_closed)))"
    by code_simp+
  then show ?thesis
    using closed_applications_are_final
      [of "hd (apps demo_closed)" demo_closed "cvff_demo_env 20" "Require_Reconciliation ''app-1'' 9"]
    by auto
qed

section \<open>Service levels\<close>

text \<open>Any seven consecutive days hold five business days.\<close>

fun days_from :: "int \<Rightarrow> nat \<Rightarrow> nat" where
  "days_from w 0 = 0"
| "days_from w (Suc k) = (let v = (w + 1) mod 7 in (if v = 0 \<or> v = 6 then 0 else 1) + days_from v k)"

lemma business_days_from: "business_days k t = days_from (weekday t) k"
proof (induction k arbitrary: t)
  case (Suc k)
  have "weekday (add_ns t day_ns) = (weekday t + 1) mod 7" by (rule weekday_add_day)
  then show ?case using Suc.IH [of "add_ns t day_ns"] by (simp add: weekend_def Let_def conj_commute)
qed simp

lemma business_days_mono: "business_days k t \<le> business_days (k + m) t"
  by (induction k arbitrary: t) auto

lemma business_days_week: "7 \<le> k \<Longrightarrow> 5 \<le> business_days k t"
proof -
  assume "7 \<le> k"
  have "\<forall>w \<in> set [0, 1, 2, 3, 4, 5, 6]. 5 \<le> days_from w 7" by code_simp
  moreover have "weekday t \<in> set [0, 1, 2, 3, 4, 5, 6]" using weekday_range [of t] by auto
  ultimately have "5 \<le> business_days 7 t" by (auto simp: business_days_from)
  then show ?thesis using business_days_mono [of 7 t "k - 7"] \<open>7 \<le> k\<close> by simp
qed

lemma business_days_snoc:
  "business_days (Suc k) t =
     business_days k t + (if weekend (add_ns t (int (Suc k) * day_ns)) then 0 else 1)"
proof (induction k arbitrary: t)
  case (Suc k)
  have "add_ns (add_ns t day_ns) (int (Suc k) * day_ns) = add_ns t (int (Suc (Suc k)) * day_ns)"
    by (simp add: algebra_simps)
  then show ?case using Suc.IH [of "add_ns t day_ns"] by simp
qed simp

text \<open>C37 The deadline counts business days. For a known tier the loop of \<open>SLADeadline\<close> returns, and
  the deadline lies a whole number of days after the entry, at most seven, is itself no weekend day,
  and exactly the tier's number of the days passed are business days.\<close>

theorem sla_deadline_is_business_days:
  assumes "sla_business_days tr = Inr n"
  shows "\<exists>k. sla_deadline tr entered = Inr (add_ns entered (int k * day_ns)) \<and> k \<le> 7 \<and>
     business_days k entered = n \<and> \<not> weekend (add_ns entered (int k * day_ns))"
proof -
  obtain k where k: "sla_loop 0 n entered = add_ns entered (int k * day_ns)" "business_days k entered = n"
    "\<not> weekend (sla_loop 0 n entered)"
    using sla_loop_spec [of 0 n entered] assms by (cases tr) auto
  have "n \<le> 5" using assms by (cases tr) auto
  have "k \<le> 7"
  proof (rule ccontr)
    assume "\<not> k \<le> 7"
    then obtain j where j: "k = Suc j" "7 \<le> j" by (cases k) auto
    have "business_days k entered = business_days j entered + 1"
      using k(1,3) unfolding j(1) business_days_snoc by simp
    then show False using k(2) \<open>n \<le> 5\<close> business_days_week [OF j(2), of entered] by linarith
  qed
  then show ?thesis using k assms by (intro exI [of _ k]) (simp add: sla_deadline_def)
qed

theorem sla_deadline_is_business_days_witness:
  "\<exists>k. sla_deadline TierPrimary (utc_date 20454) = Inr (add_ns (utc_date 20454) (int k * day_ns)) \<and> k \<le> 7"
  using sla_deadline_is_business_days [of TierPrimary 5 "utc_date 20454"] by auto

section \<open>Disbursement legs\<close>

text \<open>C30 Recording the legs twice. Once the legs of an application are recorded, recording any legs
  for it again (the same or others, with representable amounts and no failure) reports success, keeps
  the recorded legs, and still appends one more \<open>cvff.disbursed\<close> event to the outbox.\<close>

theorem repeated_legs_repeat_the_event:
  assumes "record_disbursement_legs (quiet_env t u) legs d = (Inr (), d1)"
    and "get_disbursement_legs (quiet_env t u) (lg_app legs) d = Inr old"
  shows "leg_rows d1 = leg_rows d \<and>
     get_disbursement_legs (quiet_env t u) (lg_app legs) d1 = Inr old \<and>
     (\<exists>ev. cvff_outbox d1 = cvff_outbox d @ [ev] \<and> ce_app ev = lg_app legs \<and>
        ce_type ev = ''cvff.disbursed'' \<and> ce_payload ev = Legs_Payload legs)"
proof -
  have there: "lg_app legs \<in> set (map lg_app (leg_rows d))"
  proof -
    have "old \<in> set (leg_rows d) \<and> lg_app old = lg_app legs"
      using assms(2) by (auto simp: get_disbursement_legs_def dest!: sql_row_Some split: option.splits)
    then show ?thesis by (metis imageI list.set_map)
  qed
  then obtain d0 where "insert_legs (quiet_env t u) legs d = Inr d0" "d0 = d"
    "append_cvff_event (quiet_env t u) 0 (lg_app legs) ''cvff.disbursed'' (Legs_Payload legs) t d0 = Inr d1"
    using assms(1)
    by (auto simp: record_disbursement_legs_def and_then_Inr_iff insert_legs_def
        split: if_splits sum.splits)
  then show ?thesis
    using assms(2) by (auto dest!: append_cvff_event_Inr simp: get_disbursement_legs_def)
qed

definition demo_disbursement_legs :: disbursement_legs where
  "demo_disbursement_legs = \<lparr>lg_app = ''app-1'', lg_rate = ''rate-1'', lg_micro = 1500000000,
     lg_date = utc_date 20454, lg_fee_id = ''fee'', lg_cost_id = ''cost'', lg_fee_ngn = 75000,
     lg_cost_usd = 5000, lg_cost_ngn = 7500000, lg_created = 0\<rparr>"

definition demo_pending :: cvff_db where
  "demo_pending = run_cvff_calls 1 (demo_approvals @ [Record_Legs demo_disbursement_legs])
     (empty_cvff_db [''rate-1''])"

theorem repeated_legs_repeat_the_event_witness:
  "length (cvff_outbox (snd (record_disbursement_legs (cvff_demo_env 30) demo_disbursement_legs demo_pending)))
     = Suc (length (cvff_outbox demo_pending))"
proof -
  let ?out = "record_disbursement_legs (cvff_demo_env 30) demo_disbursement_legs demo_pending"
  let ?get = "get_disbursement_legs (cvff_demo_env 30) (lg_app demo_disbursement_legs) demo_pending"
  have e: "quiet_env 30 (\<lambda>i. replicate 30 CHR ''u'') = cvff_demo_env 30"
    by (simp add: cvff_demo_env_def)
  have "fst ?out = Inr ()" by code_simp
  then have run: "?out = (Inr (), snd ?out)" by (simp add: prod_eq_iff)
  have "\<not> isl ?get" by code_simp
  then have get: "?get = Inr (projr ?get)" by simp
  have "\<exists>ev. cvff_outbox (snd ?out) = cvff_outbox demo_pending @ [ev]"
    using repeated_legs_repeat_the_event
      [of 30 "\<lambda>i. replicate 30 CHR ''u''", unfolded e, OF run get] by blast
  then show ?thesis by auto
qed

end
