(* ===== verification/Calendar.thy ===== *)
theory Calendar
  imports Prelude
begin

text \<open>
  The civil calendar behind \<open>time.Time.Year\<close>, \<open>Month\<close>, \<open>Day\<close> and \<open>time.Date\<close>: days since the epoch
  and proleptic Gregorian dates, counted in eras of 400 years that start on a first of March.
\<close>

definition day_of_civil :: "int \<Rightarrow> int \<Rightarrow> int \<Rightarrow> int" where
  "day_of_civil year month day =
     (let y = (if month \<le> 2 then year - 1 else year); yoe = y mod 400;
          mp = (month + 9) mod 12; doy = (153 * mp + 2) div 5 + day - 1
      in y div 400 * 146097 + yoe * 365 + yoe div 4 - yoe div 100 + doy - 719468)"

definition civil_of_day :: "int \<Rightarrow> int \<times> int \<times> int" where
  "civil_of_day n =
     (let z = n + 719468; doe = z mod 146097;
          yoe = (doe - doe div 1460 + doe div 36524 - doe div 146096) div 365;
          doy = doe - (365 * yoe + yoe div 4 - yoe div 100);
          mp = (5 * doy + 2) div 153; day = doy - (153 * mp + 2) div 5 + 1;
          month = (if mp < 10 then mp + 3 else mp - 9); year = yoe + z div 146097 * 400
      in (if month \<le> 2 then year + 1 else year, month, day))"

definition year_of :: "gtime \<Rightarrow> int" where "year_of t = fst (civil_of_day (day_of t))"
definition month_of :: "gtime \<Rightarrow> int" where "month_of t = fst (snd (civil_of_day (day_of t)))"
definition month_day_of :: "gtime \<Rightarrow> int" where "month_day_of t = snd (snd (civil_of_day (day_of t)))"

text \<open>\<open>time.Date(y, m, d, 0, 0, 0, 0, time.UTC)\<close> for a month and a day of the calendar.\<close>

definition civil_date :: "int \<Rightarrow> int \<Rightarrow> int \<Rightarrow> gtime" where
  "civil_date y m d = utc_date (day_of_civil y m d)"

lemma civil_examples:
  "civil_of_day 0 = (1970, 1, 1)" "civil_of_day 11016 = (2000, 2, 29)"
  "civil_of_day 20453 = (2025, 12, 31)" "day_of_civil 2025 12 31 = 20453"
  by code_simp+

end
