(* ===== verification/Rail.thy ===== *)
theory Rail
  imports Cvff_Chain Ledger_Props Calendar
begin

text \<open>
  \<open>internal/workflow/disburse.go\<close>: the disbursement rail. It reads the application, captures the
  confirmed reference rate of the day, posts the pair of transfers and records the legs; any failure
  after the replay check parks the application. The store, the rate source and the ledger are
  interfaces over one state \<open>'w\<close>; the clock is read three times, once for each part of the date.
\<close>

section \<open>The interfaces\<close>

record 'w disbursement_store =
  ds_get :: "string \<Rightarrow> 'w \<Rightarrow> (cvff_error + application) \<times> 'w"
  ds_legs :: "string \<Rightarrow> 'w \<Rightarrow> (cvff_error + disbursement_legs) \<times> 'w"
  ds_record_legs :: "disbursement_legs \<Rightarrow> 'w \<Rightarrow> (cvff_error + unit) \<times> 'w"
  ds_transition :: "string \<Rightarrow> int \<Rightarrow> move \<Rightarrow> string \<Rightarrow> 'w \<Rightarrow> (cvff_error + application) \<times> 'w"

type_synonym 'w rate_source = "gtime \<Rightarrow> 'w \<Rightarrow> (fx_error + rate) \<times> 'w"
type_synonym 'w pair_creator = "pair_input \<Rightarrow> 'w \<Rightarrow> (ledger_error + pair_legs) \<times> 'w"

record rail_config =
  rc_ngn_debit :: u128
  rc_ngn_credit :: u128
  rc_usd_debit :: u128
  rc_usd_credit :: u128
  rc_ngn_ledger :: u32
  rc_usd_ledger :: u32
  rc_fee_code :: u16
  rc_cost_code :: u16
  rc_fee_basis_points :: u64

text \<open>\<open>Uint128.String\<close> of the client library is the argument \<open>rl_text\<close>.\<close>

record 'w rail =
  rl_store :: "'w disbursement_store"
  rl_rates :: "'w rate_source"
  rl_pairs :: "'w pair_creator"
  rl_config :: rail_config
  rl_now :: "'w \<Rightarrow> gtime \<times> 'w"
  rl_text :: "u128 \<Rightarrow> string"

datatype rail_cause =
  Cause_Rate fx_error
| Cause_Fee string
| Cause_Convert fx_error
| Cause_Currency string
| Cause_Pair ledger_error
| Cause_Record cvff_error

datatype rail_error =
  Rail_Load cvff_error
| Rail_Not_Pending
| Rail_Legs_Check cvff_error
| Rail_Failed_Closed rail_cause
| Rail_Park_Failed rail_cause cvff_error

definition config_error :: "rail_config \<Rightarrow> string option" where
  "config_error c =
     (if rc_ngn_debit c = 0 \<or> rc_ngn_credit c = 0 \<or> rc_usd_debit c = 0 \<or> rc_usd_credit c = 0
      then Some ''disbursement rail account IDs must be non-zero''
      else if rc_ngn_debit c = rc_ngn_credit c \<or> rc_usd_debit c = rc_usd_credit c
      then Some ''disbursement rail debit and credit accounts must differ''
      else if rc_ngn_ledger c = 0 \<or> rc_usd_ledger c = 0 \<or> rc_fee_code c = 0 \<or> rc_cost_code c = 0
      then Some ''disbursement rail ledgers and codes must be non-zero''
      else if rc_fee_basis_points c = 0 \<or> rc_fee_basis_points c > 10000
      then Some ''custodial fee basis points must be within (0, 10000]''
      else None)"

definition new_disbursement_rail ::
  "'w disbursement_store option \<Rightarrow> 'w rate_source option \<Rightarrow> 'w pair_creator option \<Rightarrow> rail_config
     \<Rightarrow> ('w \<Rightarrow> gtime \<times> 'w) \<Rightarrow> (u128 \<Rightarrow> string) \<Rightarrow> string + 'w rail" where
  "new_disbursement_rail store rates pairs c now txt =
     (case (store, rates, pairs) of
        (Some s, Some r, Some p) \<Rightarrow>
          (case config_error c of
             Some err \<Rightarrow> Inl err
           | None \<Rightarrow> Inr \<lparr>rl_store = s, rl_rates = r, rl_pairs = p, rl_config = c, rl_now = now,
                          rl_text = txt\<rparr>)
      | _ \<Rightarrow> Inl ''disbursement rail requires application store, fx rate source and pair creator'')"

section \<open>The fee\<close>

definition custodial_fee :: "u64 \<Rightarrow> u64 \<Rightarrow> string + u64" where
  "custodial_fee base basis_points =
     (if base = 0 then Inl ''fee base must be non-zero''
      else let quotient = uint base * uint basis_points div 10000
           in if \<not> is_uint64 quotient then Inl ''custodial fee overflows ledger amount width''
              else if quotient = 0 then Inl ''custodial fee rounds to zero''
              else Inr (to_u64 quotient))"

text \<open>The currency switch: the fee, the USD cost and its NGN equivalent.\<close>

definition leg_amounts :: "rail_config \<Rightarrow> rate \<Rightarrow> application \<Rightarrow> rail_cause + u64 \<times> u64 \<times> u64" where
  "leg_amounts c r a =
     (if ap_currency a = ''NGN''
      then case custodial_fee (ap_amount a) (rc_fee_basis_points c) of
             Inl e \<Rightarrow> Inl (Cause_Fee e)
           | Inr fee \<Rightarrow>
               (case convert_ngn_to_usd r (ap_amount a) of
                  Inl e \<Rightarrow> Inl (Cause_Convert e)
                | Inr usd \<Rightarrow> Inr (fee, usd, ap_amount a))
      else if ap_currency a = ''USD''
      then case convert_usd_to_ngn r (ap_amount a) of
             Inl e \<Rightarrow> Inl (Cause_Convert e)
           | Inr ngn \<Rightarrow>
               (case custodial_fee ngn (rc_fee_basis_points c) of
                  Inl e \<Rightarrow> Inl (Cause_Fee e)
                | Inr fee \<Rightarrow> Inr (fee, ap_amount a, ngn))
      else Inl (Cause_Currency (ap_currency a)))"

section \<open>The rail\<close>

definition fail_closed ::
  "'w rail \<Rightarrow> application \<Rightarrow> rail_cause \<Rightarrow> 'w \<Rightarrow> (rail_error + unit) \<times> 'w" where
  "fail_closed rl a cause w =
     (case ds_transition (rl_store rl) (ap_id a) (ap_version a) require_reconciliation
             ''cvff.reconciliation_required'' w of
        (Inl e, w') \<Rightarrow> (Inl (Rail_Park_Failed cause e), w')
      | (Inr _, w') \<Rightarrow> (Inl (Rail_Failed_Closed cause), w'))"

definition rail_date :: "'w rail \<Rightarrow> 'w \<Rightarrow> gtime \<times> 'w" where
  "rail_date rl w =
     (let (t1, w1) = rl_now rl w; (t2, w2) = rl_now rl w1; (t3, w3) = rl_now rl w2
      in (civil_date (year_of t1) (month_of t2) (month_day_of t3), w3))"

definition rail_pair_input :: "rail_config \<Rightarrow> string \<Rightarrow> rate \<Rightarrow> u64 \<times> u64 \<times> u64 \<Rightarrow> pair_input" where
  "rail_pair_input c app r = (\<lambda>(fee, usd, ngn).
     \<lparr>pi_application = app, pi_fee_ngn = fee, pi_cost_usd = usd, pi_cost_ngn = ngn, pi_rate = r,
       pi_ngn_debit = rc_ngn_debit c, pi_ngn_credit = rc_ngn_credit c,
       pi_usd_debit = rc_usd_debit c, pi_usd_credit = rc_usd_credit c,
       pi_ngn_ledger = rc_ngn_ledger c, pi_usd_ledger = rc_usd_ledger c,
       pi_fee_code = rc_fee_code c, pi_cost_code = rc_cost_code c\<rparr>)"

text \<open>The literal leaves \<open>CreatedAt\<close> at the zero time; the store sets it.\<close>

definition legs_row :: "(u128 \<Rightarrow> string) \<Rightarrow> pair_legs \<Rightarrow> disbursement_legs" where
  "legs_row txt l =
     \<lparr>lg_app = pl_application l, lg_rate = pl_rate_id l, lg_micro = pl_micro l, lg_date = pl_date l,
       lg_fee_id = txt (pl_fee_id l), lg_cost_id = txt (pl_cost_id l), lg_fee_ngn = pl_fee_ngn l,
       lg_cost_usd = pl_cost_usd l, lg_cost_ngn = pl_cost_ngn l,
       lg_created = -62135596800 * 1000000000\<rparr>"

definition rail_post ::
  "'w rail \<Rightarrow> application \<Rightarrow> pair_input \<Rightarrow> 'w \<Rightarrow> (rail_error + unit) \<times> 'w" where
  "rail_post rl a inp w =
     (case rl_pairs rl inp w of
        (Inl e, w1) \<Rightarrow> fail_closed rl a (Cause_Pair e) w1
      | (Inr legs, w1) \<Rightarrow>
          (case ds_record_legs (rl_store rl) (legs_row (rl_text rl) legs) w1 of
             (Inl e, w2) \<Rightarrow> fail_closed rl a (Cause_Record e) w2
           | (Inr _, w2) \<Rightarrow> (Inr (), w2)))"

definition rail_execute :: "'w rail \<Rightarrow> string \<Rightarrow> application \<Rightarrow> 'w \<Rightarrow> (rail_error + unit) \<times> 'w" where
  "rail_execute rl app a w =
     (case rail_date rl w of (date, w1) \<Rightarrow>
      (case rl_rates rl date w1 of
         (Inl e, w2) \<Rightarrow> fail_closed rl a (Cause_Rate e) w2
       | (Inr r, w2) \<Rightarrow>
           (case leg_amounts (rl_config rl) r a of
              Inl cause \<Rightarrow> fail_closed rl a cause w2
            | Inr amounts \<Rightarrow> rail_post rl a (rail_pair_input (rl_config rl) app r amounts) w2)))"

definition rail_disburse :: "'w rail \<Rightarrow> string \<Rightarrow> 'w \<Rightarrow> (rail_error + unit) \<times> 'w" where
  "rail_disburse rl app w =
     (case ds_get (rl_store rl) app w of
        (Inl e, w1) \<Rightarrow> (Inl (Rail_Load e), w1)
      | (Inr a, w1) \<Rightarrow>
          if ap_state a \<noteq> StateDisbursementPending then (Inl Rail_Not_Pending, w1)
          else case ds_legs (rl_store rl) app w1 of
                 (Inr _, w2) \<Rightarrow> (Inr (), w2)
               | (Inl e, w2) \<Rightarrow>
                   if e \<noteq> cvff_error.ErrNotFound then (Inl (Rail_Legs_Check e), w2)
                   else rail_execute rl app a w2)"

end
