(* ===== verification/Rail_Port.thy ===== *)
theory Rail_Port
  imports Rail
begin

text \<open>
  What the disbursement rail may rely on, as a locale, and the production wiring that provides it:
  the PostgreSQL stores and the TigerBeetle service over one \<open>plant\<close>. \<open>safe\<close> says that every
  recorded pair of legs is on the ledger.
\<close>

lemma legs_row_app [simp]: "lg_app (legs_row txt l) = pl_application l"
  by (simp add: legs_row_def)

section \<open>The port\<close>

locale rail_port =
  fixes rl :: "'w rail"
    and safe :: "'w \<Rightarrow> bool"
    and leg :: "'w \<Rightarrow> disbursement_legs \<Rightarrow> bool"
    and settled :: "'w \<Rightarrow> disbursement_legs \<Rightarrow> bool"
    and stored :: "'w \<Rightarrow> string \<Rightarrow> application option"
  assumes get_safe: "safe w \<Longrightarrow> ds_get (rl_store rl) k w = (gr, w') \<Longrightarrow> safe w'"
    and get_id: "ds_get (rl_store rl) k w = (Inr a, w') \<Longrightarrow> ap_id a = k"
    and legs_safe: "safe w \<Longrightarrow> ds_legs (rl_store rl) k w = (lr, w') \<Longrightarrow> safe w'"
    and legs_there: "ds_legs (rl_store rl) k w = (Inr l, w') \<Longrightarrow> leg w' l \<and> lg_app l = k"
    and leg_settled: "safe w \<Longrightarrow> leg w l \<Longrightarrow> settled w l"
    and now_safe: "safe w \<Longrightarrow> rl_now rl w = (t, w') \<Longrightarrow> safe w'"
    and rates_safe: "safe w \<Longrightarrow> rl_rates rl date w = (rr, w') \<Longrightarrow> safe w'"
    and pairs_safe: "safe w \<Longrightarrow> rl_pairs rl inp w = (pr, w') \<Longrightarrow> safe w'"
    and pairs_settled: "rl_pairs rl (rail_pair_input (rl_config rl) k rt am) w = (Inr legs, w') \<Longrightarrow>
      settled w' (legs_row (rl_text rl) legs) \<and> pl_application legs = k"
    and record_safe: "safe w \<Longrightarrow> settled w l \<Longrightarrow> ds_record_legs (rl_store rl) l w = (u, w') \<Longrightarrow> safe w'"
    and record_there: "ds_record_legs (rl_store rl) l w = (Inr (), w') \<Longrightarrow> \<exists>l'. leg w' l' \<and> lg_app l' = lg_app l"
    and transition_safe: "safe w \<Longrightarrow> ds_transition (rl_store rl) k v require_reconciliation ty w = (gr, w') \<Longrightarrow>
      ty = ''cvff.reconciliation_required'' \<Longrightarrow> safe w'"
    and transition_stored: "safe w \<Longrightarrow>
      ds_transition (rl_store rl) k v require_reconciliation ty w = (Inr a, w') \<Longrightarrow>
      \<exists>s. stored w' k = Some s \<and> ap_state s = StateReconciliationRequired"
begin

lemma fail_closed_result:
  assumes "safe w" and "fail_closed rl a cause w = (r, w')"
  shows "safe w' \<and> r \<noteq> Inr () \<and>
    (\<forall>c. r = Inl (Rail_Failed_Closed c) \<longrightarrow>
       (\<exists>s. stored w' (ap_id a) = Some s \<and> ap_state s = StateReconciliationRequired))"
proof -
  obtain tr w1 where t: "ds_transition (rl_store rl) (ap_id a) (ap_version a) require_reconciliation
      ''cvff.reconciliation_required'' w = (tr, w1)" by fastforce
  show ?thesis
  proof (cases tr)
    case (Inl e)
    then show ?thesis using assms(2) t transition_safe [OF assms(1) t] by (auto simp: fail_closed_def)
  next
    case (Inr b)
    then show ?thesis
      using assms t transition_safe [OF assms(1) t] transition_stored [OF assms(1), of _ _ _ b w1]
      by (auto simp: fail_closed_def)
  qed
qed

lemma rail_date_safe: "safe w \<Longrightarrow> rail_date rl w = (d, w') \<Longrightarrow> safe w'"
proof -
  assume "safe w" "rail_date rl w = (d, w')"
  then obtain t1 w1 t2 w2 t3 where "rl_now rl w = (t1, w1)" "rl_now rl w1 = (t2, w2)"
    "rl_now rl w2 = (t3, w')"
    by (auto simp: rail_date_def Let_def split: prod.splits)
  then show "safe w'" using now_safe \<open>safe w\<close> by metis
qed

text \<open>The three things an outcome of the rail tells.\<close>

definition outcome :: "string \<Rightarrow> (rail_error + unit) \<times> 'w \<Rightarrow> bool" where
  "outcome k out \<longleftrightarrow> safe (snd out) \<and>
     (fst out = Inr () \<longrightarrow> (\<exists>l. leg (snd out) l \<and> lg_app l = k \<and> settled (snd out) l)) \<and>
     (\<forall>c. fst out = Inl (Rail_Failed_Closed c) \<longrightarrow>
        (\<exists>s. stored (snd out) k = Some s \<and> ap_state s = StateReconciliationRequired))"

lemma fail_closed_outcome: "safe w \<Longrightarrow> ap_id a = k \<Longrightarrow> outcome k (fail_closed rl a cause w)"
  using fail_closed_result [of w a cause "fst (fail_closed rl a cause w)" "snd (fail_closed rl a cause w)"]
  by (auto simp: outcome_def)

lemma rail_post_outcome:
  assumes "safe w" and k: "ap_id a = k"
  shows "outcome k (rail_post rl a (rail_pair_input (rl_config rl) k rt am) w)"
proof -
  let ?inp = "rail_pair_input (rl_config rl) k rt am"
  obtain pr w1 where p: "rl_pairs rl ?inp w = (pr, w1)" by fastforce
  note s1 = pairs_safe [OF assms(1) p]
  show ?thesis
  proof (cases pr)
    case (Inl e)
    then show ?thesis using p fail_closed_outcome [OF s1 k] by (simp add: rail_post_def)
  next
    case (Inr legs)
    let ?row = "legs_row (rl_text rl) legs"
    have set1: "settled w1 ?row" "lg_app ?row = k"
      using pairs_settled [OF p [unfolded Inr]] by simp_all
    obtain u w2 where q: "ds_record_legs (rl_store rl) ?row w1 = (u, w2)" by fastforce
    note s2 = record_safe [OF s1 set1(1) q]
    show ?thesis
    proof (cases u)
      case (Inl e)
      then show ?thesis using p Inr q fail_closed_outcome [OF s2 k] by (simp add: rail_post_def)
    next
      case u: (Inr x)
      then obtain l where "leg w2 l" "lg_app l = k"
        using record_there [of ?row w1 w2] q set1(2) by auto
      then show ?thesis
        using p Inr q u s2 leg_settled [OF s2] by (auto simp: rail_post_def outcome_def)
    qed
  qed
qed

lemma rail_disburse_outcome:
  assumes "safe w"
  shows "outcome k (rail_disburse rl k w)"
proof -
  obtain gr w1 where g: "ds_get (rl_store rl) k w = (gr, w1)" by fastforce
  note s1 = get_safe [OF assms g]
  obtain lr w2 where l: "ds_legs (rl_store rl) k w1 = (lr, w2)" by fastforce
  note s2 = legs_safe [OF s1 l]
  obtain date w3 where d: "rail_date rl w2 = (date, w3)" by fastforce
  note s3 = rail_date_safe [OF s2 d]
  obtain rr w4 where r: "rl_rates rl date w3 = (rr, w4)" by fastforce
  note s4 = rates_safe [OF s3 r]
  have run: "outcome k (rail_execute rl k a w2)" if "ap_id a = k" for a
    using that d r fail_closed_outcome [OF s4 that] rail_post_outcome [OF s4 that]
    by (simp add: rail_execute_def split: sum.splits)
  show ?thesis
  proof (cases gr)
    case (Inl e)
    then show ?thesis using g s1 by (simp add: rail_disburse_def outcome_def)
  next
    case (Inr a)
    have "ap_id a = k" using get_id g Inr by blast
    then show ?thesis
      using g Inr l s1 s2 run [of a] legs_there [of k w1 _ w2] leg_settled [OF s2]
      by (auto simp: rail_disburse_def outcome_def split: sum.splits)
  qed
qed

lemma rail_disburse_results:
  assumes "safe w" and "rail_disburse rl k w = (r, w')"
  shows "safe w' \<and> (r = Inr () \<longrightarrow> (\<exists>l. leg w' l \<and> lg_app l = k \<and> settled w' l)) \<and>
    (\<forall>c. r = Inl (Rail_Failed_Closed c) \<longrightarrow>
       (\<exists>s. stored w' k = Some s \<and> ap_state s = StateReconciliationRequired))"
  using rail_disburse_outcome [OF assms(1), of k] assms(2) by (simp add: outcome_def)

end

section \<open>The production wiring\<close>

record 'tb plant =
  pt_cvff :: "cvff_db world"
  pt_fx :: "fx_db world"
  pt_tb :: 'tb
  pt_clock :: "nat \<Rightarrow> gtime"
  pt_reads :: nat

definition on_cvff ::
  "(cvff_db env \<Rightarrow> cvff_db \<Rightarrow> ('e + 'a) \<times> cvff_db) \<Rightarrow> 'tb plant \<Rightarrow> ('e + 'a) \<times> 'tb plant" where
  "on_cvff call p = (let (r, w) = in_world call (pt_cvff p) in (r, p\<lparr>pt_cvff := w\<rparr>))"

definition pg_disbursement_store :: "'tb plant disbursement_store" where
  "pg_disbursement_store =
     \<lparr>ds_get = (\<lambda>k. on_cvff (\<lambda>e d. (cvff_get e k d, d))),
      ds_legs = (\<lambda>k. on_cvff (\<lambda>e d. (get_disbursement_legs e k d, d))),
      ds_record_legs = (\<lambda>l. on_cvff (\<lambda>e. record_disbursement_legs e l)),
      ds_transition = (\<lambda>k v mv ty. on_cvff (\<lambda>e. cvff_transition e k v mv ty))\<rparr>"

definition pg_rates :: "'tb plant rate_source" where
  "pg_rates date p =
     (let (r, w) = in_world (\<lambda>e d. (confirmed_for_date e date d, d)) (pt_fx p)
      in (r, p\<lparr>pt_fx := w\<rparr>))"

definition tb_pairs :: "hashing \<Rightarrow> 'tb service \<Rightarrow> 'tb plant pair_creator" where
  "tb_pairs h sv inp p =
     (let (r, tb) = create_disbursement_pair h sv inp (pt_tb p) in (r, p\<lparr>pt_tb := tb\<rparr>))"

definition plant_now :: "'tb plant \<Rightarrow> gtime \<times> 'tb plant" where
  "plant_now p = (pt_clock p (pt_reads p), p\<lparr>pt_reads := Suc (pt_reads p)\<rparr>)"

definition plant_rail :: "hashing \<Rightarrow> 'tb service \<Rightarrow> (u128 \<Rightarrow> string) \<Rightarrow> rail_config \<Rightarrow> 'tb plant rail" where
  "plant_rail h sv txt c =
     \<lparr>rl_store = pg_disbursement_store, rl_rates = pg_rates, rl_pairs = tb_pairs h sv, rl_config = c,
      rl_now = plant_now, rl_text = txt\<rparr>"

definition plant_row :: "'tb plant \<Rightarrow> string \<Rightarrow> application option" where
  "plant_row p k = sql_row (\<lambda>r. ap_id r = k) (apps (w_db (pt_cvff p)))"

definition plant_leg :: "'tb plant \<Rightarrow> disbursement_legs \<Rightarrow> bool" where
  "plant_leg p l \<longleftrightarrow> l \<in> set (leg_rows (w_db (pt_cvff p)))"

text \<open>The transfers behind a recorded pair of legs.\<close>

definition legs_on_ledger ::
  "(u128 \<Rightarrow> transfer option) \<Rightarrow> (u128 \<Rightarrow> string) \<Rightarrow> rail_config \<Rightarrow> disbursement_legs \<Rightarrow> bool" where
  "legs_on_ledger view txt c l \<longleftrightarrow>
     (\<exists>fee cost. view (tr_id fee) = Some fee \<and> view (tr_id cost) = Some cost \<and>
        lg_fee_id l = txt (tr_id fee) \<and> lg_cost_id l = txt (tr_id cost) \<and>
        tr_debit fee = rc_ngn_debit c \<and> tr_credit fee = rc_ngn_credit c \<and>
        tr_debit cost = rc_usd_debit c \<and> tr_credit cost = rc_usd_credit c \<and>
        tr_amount fee = ucast (lg_fee_ngn l) \<and> tr_amount cost = ucast (lg_cost_usd l))"

text \<open>Other processes keep the CVFF invariant and record no legs; the worker is the only one.\<close>

definition worker_env :: "cvff_db env \<Rightarrow> bool" where
  "worker_env e \<longleftrightarrow> cvff_env e \<and> (\<forall>d. leg_rows (env_other e d) = leg_rows d)"

definition plant_safe ::
  "('tb \<Rightarrow> u128 \<Rightarrow> transfer option) \<Rightarrow> (u128 \<Rightarrow> string) \<Rightarrow> rail_config \<Rightarrow> 'tb plant \<Rightarrow> bool" where
  "plant_safe view txt c p \<longleftrightarrow>
     cvff_db_ok (w_db (pt_cvff p)) \<and> (\<forall>n. worker_env (w_sched (pt_cvff p) n)) \<and>
     (\<forall>l. plant_leg p l \<longrightarrow> legs_on_ledger (view (pt_tb p)) txt c l)"

section \<open>The stores keep the port's promises\<close>

lemma on_cvff_result:
  assumes "on_cvff call p = (r, p')"
  obtains d where "call (w_sched (pt_cvff p) (w_tick (pt_cvff p))) (w_db (pt_cvff p)) = (r, d)"
    "w_db (pt_cvff p') = d" "w_sched (pt_cvff p') = w_sched (pt_cvff p)" "pt_tb p' = pt_tb p"
  using assms by (auto simp: on_cvff_def in_world_def split: prod.splits)

lemma transition_as_legs:
  assumes "\<And>d. leg_rows (env_other e d) = leg_rows d"
  shows "leg_rows (snd (transition_as e k v mv ty r p d)) = leg_rows d"
proof -
  have "leg_rows d' = leg_rows d0" if "transition_body e cur upd v ty r p d0 = Inr (a, d')" for cur upd d0 a d'
    using that
    by (auto simp: transition_body_def and_then_Inr_iff elim!: update_app_Inr
        dest!: append_transition_Inr append_cvff_event_Inr)
  then show ?thesis
    using assms
    by (auto simp: transition_as_def split: sum.splits
        intro!: run_tx_inv [where P = "\<lambda>d'. leg_rows d' = leg_rows d"])
qed

lemma transition_as_stored:
  assumes ok: "cvff_db_ok d" and env: "cvff_env e"
    and run: "transition_as e k v mv ty r p d = (Inr a, d')"
  shows "sql_row (\<lambda>r. ap_id r = k) (apps d') = Some a \<and> ap_id a = k \<and>
    (\<exists>cur upd. ap_id cur = k \<and> mv cur = Inr upd \<and> ap_state a = ap_state upd \<and>
       cvff_get e k d = Inr cur)"
proof -
  obtain cur upd where c: "cvff_get e k d = Inr cur" "mv cur = Inr upd"
    and b: "transition_body e cur upd v ty r p (env_other e d) = Inr (a, d')"
    using run by (auto simp: transition_as_def run_tx_Inr_iff split: sum.splits if_splits)
  then have k: "ap_id cur = k" using cvff_get_Inr by blast
  obtain d1 where u: "update_app e ''transition cvff application'' (ap_state upd, env_now e)
      (ap_id cur) (ap_state cur) v (env_other e d) = Inr (a, d1)" and "apps d' = apps d1"
    using b by (auto simp: transition_body_def and_then_Inr_iff dest!: append_transition_Inr append_cvff_event_Inr)
  moreover have "distinct (map ap_id (apps (env_other e d)))"
    using cvff_envD(1) [OF env ok] by (simp add: cvff_db_ok_def app_ids_def)
  ultimately have "sql_row (\<lambda>r. ap_id r = k) (apps d') = Some a"
    using app_rows.cas_lookup [of _ k] k
    by (auto simp: update_app_def stmt_Inr_iff split: option.splits)
  moreover have "ap_id a = k \<and> ap_state a = ap_state upd"
    using u k by (auto elim!: update_app_Inr)
  ultimately show ?thesis using c k by blast
qed

lemma record_legs_effect:
  assumes "record_disbursement_legs e l d = (r, d')"
    and env: "\<And>d. leg_rows (env_other e d) = leg_rows d"
  shows "(\<forall>x \<in> set (leg_rows d'). x \<in> set (leg_rows d) \<or> x = l\<lparr>lg_created := env_now e\<rparr>) \<and>
    (r = Inr () \<longrightarrow> lg_app l \<in> lg_app ` set (leg_rows d'))"
proof -
  let ?body = "\<lambda>d. and_then (insert_legs e l d) (\<lambda>d1.
        and_then (append_cvff_event e 0 (lg_app l) ''cvff.disbursed'' (Legs_Payload l) (env_now e) d1)
          (\<lambda>d2. Inr ((), d2)))"
  have body: "(\<forall>x \<in> set (leg_rows d2). x \<in> set (leg_rows d0) \<or> x = l\<lparr>lg_created := env_now e\<rparr>) \<and>
     lg_app l \<in> lg_app ` set (leg_rows d2)" if "?body d0 = Inr (a, d2)" for d0 a d2
    using that
    by (auto simp: and_then_Inr_iff insert_legs_def stmt_Inr_iff dest!: append_cvff_event_Inr split: if_splits)
  have "d' = d \<and> r \<noteq> Inr () \<or> (r, d') = run_tx e ''begin disbursement legs''
      ''commit disbursement legs'' ErrCvffDatabase ?body d"
    using assms(1) by (auto simp: record_disbursement_legs_def split: if_splits)
  then show ?thesis
  proof
    assume eq: "(r, d') = run_tx e ''begin disbursement legs'' ''commit disbursement legs'' ErrCvffDatabase ?body d"
    then have "d' = env_other e d \<or> (\<exists>a. ?body (env_other e d) = Inr (a, d'))"
      using run_tx_result [of e "''begin disbursement legs''" "''commit disbursement legs''"
          ErrCvffDatabase ?body d] by (metis snd_conv)
    moreover have "r = Inr () \<longrightarrow> ?body (env_other e d) = Inr ((), d')"
      using eq [symmetric] by (auto simp: run_tx_Inr_iff)
    ultimately show ?thesis using body [of "env_other e d"] env by auto
  qed auto
qed

lemma on_tb_settled:
  assumes "tb_contract (sv_client sv) view"
    and "create_disbursement_pair h sv (rail_pair_input c k r am) tb = (Inr legs, tb')"
  shows "legs_on_ledger (view tb') txt c (legs_row txt legs) \<and> pl_application legs = k"
proof -
  obtain ts where b: "build_disbursement_pair h (rail_pair_input c k r am) = Inr (ts, legs)"
    and l: "legs_stored view tb' (rail_pair_input c k r am) legs"
    using create_pair_stored [OF assms] by blast
  obtain fee cost where v: "view tb' (pl_fee_id legs) = Some fee" "view tb' (pl_cost_id legs) = Some cost"
    "same_content fee (fee_transfer (rail_pair_input c k r am) (pl_fee_id legs))"
    "same_content cost (cost_transfer (rail_pair_input c k r am) (pl_cost_id legs))"
    using l unfolding legs_stored_def by blast
  have id: "tr_id fee = pl_fee_id legs" "tr_id cost = pl_cost_id legs"
    using assms(1) v(1,2) by (auto simp: tb_contract_def)
  have am: "pl_fee_ngn legs = pi_fee_ngn (rail_pair_input c k r am)"
    "pl_cost_usd legs = pi_cost_usd (rail_pair_input c k r am)"
    "pl_application legs = pi_application (rail_pair_input c k r am)"
    using b by (auto simp: build_disbursement_pair_def and_then_Inr_iff split: if_splits)
  have "tr_debit fee = rc_ngn_debit c \<and> tr_credit fee = rc_ngn_credit c \<and>
      tr_debit cost = rc_usd_debit c \<and> tr_credit cost = rc_usd_credit c \<and>
      tr_amount fee = ucast (pl_fee_ngn legs) \<and> tr_amount cost = ucast (pl_cost_usd legs)"
    using v(3,4) am
    by (auto simp: same_content_def fee_transfer_def cost_transfer_def zero_transfer_def
        rail_pair_input_def split: prod.splits)
  then have "legs_on_ledger (view tb') txt c (legs_row txt legs)"
    unfolding legs_on_ledger_def by (intro exI [of _ fee] exI [of _ cost]) (simp add: v id legs_row_def)
  then show ?thesis using am by (simp add: rail_pair_input_def split: prod.splits)
qed

lemma legs_on_ledger_mono:
  assumes "tb_extends view tb tb'" and "legs_on_ledger (view tb) txt c l"
  shows "legs_on_ledger (view tb') txt c l"
proof -
  obtain fee cost where "view tb (tr_id fee) = Some fee" "view tb (tr_id cost) = Some cost"
    "lg_fee_id l = txt (tr_id fee) \<and> lg_cost_id l = txt (tr_id cost) \<and>
        tr_debit fee = rc_ngn_debit c \<and> tr_credit fee = rc_ngn_credit c \<and>
        tr_debit cost = rc_usd_debit c \<and> tr_credit cost = rc_usd_credit c \<and>
        tr_amount fee = ucast (lg_fee_ngn l) \<and> tr_amount cost = ucast (lg_cost_usd l)"
    using assms(2) unfolding legs_on_ledger_def by blast
  then show ?thesis
    unfolding legs_on_ledger_def using tb_extendsD [OF assms(1)] by blast
qed

lemma legs_on_ledger_created [simp]:
  "legs_on_ledger view txt c (l\<lparr>lg_created := t\<rparr>) = legs_on_ledger view txt c l"
  by (simp add: legs_on_ledger_def)

text \<open>A store call keeps the plant safe when it keeps the tables.\<close>

lemma plant_safe_call:
  assumes "plant_safe view txt c p" and "on_cvff call p = (r, p')"
    and "\<And>e d. worker_env e \<Longrightarrow> cvff_db_ok d \<Longrightarrow> cvff_db_ok (snd (call e d)) \<and>
      (\<forall>l \<in> set (leg_rows (snd (call e d))). l \<in> set (leg_rows d) \<or>
         legs_on_ledger (view (pt_tb p)) txt c l)"
  shows "plant_safe view txt c p'"
proof -
  obtain d where d: "call (w_sched (pt_cvff p) (w_tick (pt_cvff p))) (w_db (pt_cvff p)) = (r, d)"
    "w_db (pt_cvff p') = d" "w_sched (pt_cvff p') = w_sched (pt_cvff p)" "pt_tb p' = pt_tb p"
    using on_cvff_result [OF assms(2)] by blast
  have "worker_env (w_sched (pt_cvff p) (w_tick (pt_cvff p)))" "cvff_db_ok (w_db (pt_cvff p))"
    using assms(1) by (auto simp: plant_safe_def)
  note k = assms(3) [OF this]
  show ?thesis using assms(1) k d by (auto simp: plant_safe_def plant_leg_def)
qed

lemma worker_transition_ok:
  assumes "worker_env e" "cvff_db_ok d" "plain mv" "move_event ty"
  shows "cvff_db_ok (snd (cvff_transition e k v mv ty d)) \<and>
    leg_rows (snd (cvff_transition e k v mv ty d)) = leg_rows d"
  using transition_as_ok transition_as_legs assms by (auto simp: cvff_transition_def worker_env_def)

lemma pairs_extend:
  assumes "tb_contract (sv_client sv) view" and "tb_pairs h sv inp p = (pr, p')"
  shows "tb_extends view (pt_tb p) (pt_tb p') \<and> pt_cvff p' = pt_cvff p"
  using create_pair_extends [OF assms(1)] assms(2) by (auto simp: tb_pairs_def split: prod.splits)

lemma pairs_safe_plant:
  assumes "plant_safe view txt c p" and "tb_contract (sv_client sv) view" and "tb_pairs h sv inp p = (pr, p')"
  shows "plant_safe view txt c p'"
proof -
  note e = pairs_extend [OF assms(2,3)]
  have "legs_on_ledger (view (pt_tb p')) txt c l" if "plant_leg p' l" for l
    using legs_on_ledger_mono [OF conjunct1 [OF e]] assms(1) that e
    by (simp add: plant_safe_def plant_leg_def)
  then show ?thesis using assms(1) e by (simp add: plant_safe_def)
qed

lemma record_safe_plant:
  assumes "plant_safe view txt c p" and "legs_on_ledger (view (pt_tb p)) txt c l"
    and "on_cvff (\<lambda>e. record_disbursement_legs e l) p = (u, p')"
  shows "plant_safe view txt c p'"
proof (rule plant_safe_call [OF assms(1,3)])
  fix e d assume e: "worker_env e" "cvff_db_ok d"
  have "(\<forall>x \<in> set (leg_rows (snd (record_disbursement_legs e l d))).
      x \<in> set (leg_rows d) \<or> x = l\<lparr>lg_created := env_now e\<rparr>)"
    using record_legs_effect [of e l d "fst (record_disbursement_legs e l d)"
        "snd (record_disbursement_legs e l d)"] e(1) by (simp add: worker_env_def)
  moreover have "legs_on_ledger (view (pt_tb p)) txt c (l\<lparr>lg_created := env_now e\<rparr>)"
    using assms(2) by simp
  ultimately show "cvff_db_ok (snd (record_disbursement_legs e l d)) \<and>
      (\<forall>x \<in> set (leg_rows (snd (record_disbursement_legs e l d))). x \<in> set (leg_rows d) \<or>
         legs_on_ledger (view (pt_tb p)) txt c x)"
    using legs_ok [OF e(2)] e(1) unfolding worker_env_def by blast
qed

lemma rates_safe_plant: "plant_safe view txt c p \<Longrightarrow> pg_rates date p = (rr, p') \<Longrightarrow> plant_safe view txt c p'"
  by (auto simp: pg_rates_def plant_safe_def plant_leg_def split: prod.splits)

lemma now_safe_plant: "plant_safe view txt c p \<Longrightarrow> plant_now p = (t, p') \<Longrightarrow> plant_safe view txt c p'"
  by (auto simp: plant_now_def plant_safe_def plant_leg_def)

lemma transition_stored_plant:
  assumes "plant_safe view txt c p"
    and "on_cvff (\<lambda>e. cvff_transition e k v mv ty) p = (Inr a, p')"
  shows "plant_row p' k = Some a \<and> ap_id a = k \<and>
    (\<exists>cur upd. plant_row p k = Some cur \<and> mv cur = Inr upd \<and> ap_state a = ap_state upd)"
proof -
  let ?e = "w_sched (pt_cvff p) (w_tick (pt_cvff p))"
  obtain d where d: "cvff_transition ?e k v mv ty (w_db (pt_cvff p)) = (Inr a, d)" "w_db (pt_cvff p') = d"
    using on_cvff_result [OF assms(2)] by metis
  have "cvff_db_ok (w_db (pt_cvff p))" "cvff_env ?e"
    using assms(1) by (auto simp: plant_safe_def worker_env_def)
  from transition_as_stored [OF this d(1) [unfolded cvff_transition_def]]
  show ?thesis
    by (auto simp: plant_row_def d(2) cvff_get_def stmt_Inr_iff split: option.splits)
qed

end
