(* ===== verification/Rail_Props.thy ===== *)
theory Rail_Props
  imports Rail_Port
begin

text \<open>
  The production rail provides the port for every cluster that meets the TigerBeetle contract, and
  what follows: recorded legs are settled, a closed failure is a parked application, the amounts are
  the rounded ones, and the date is the day of the clock.
\<close>

lemma plant_rail_simps [simp]:
  "rl_store (plant_rail h sv txt c) = pg_disbursement_store" "rl_rates (plant_rail h sv txt c) = pg_rates"
  "rl_pairs (plant_rail h sv txt c) = tb_pairs h sv" "rl_config (plant_rail h sv txt c) = c"
  "rl_now (plant_rail h sv txt c) = plant_now" "rl_text (plant_rail h sv txt c) = txt"
  by (simp_all add: plant_rail_def)

lemma pg_disbursement_store_simps [simp]:
  "ds_get pg_disbursement_store k = on_cvff (\<lambda>e d. (cvff_get e k d, d))"
  "ds_legs pg_disbursement_store k = on_cvff (\<lambda>e d. (get_disbursement_legs e k d, d))"
  "ds_record_legs pg_disbursement_store l = on_cvff (\<lambda>e. record_disbursement_legs e l)"
  "ds_transition pg_disbursement_store k v mv ty = on_cvff (\<lambda>e. cvff_transition e k v mv ty)"
  by (simp_all add: pg_disbursement_store_def)

lemma read_safe_plant:
  "plant_safe view txt c p \<Longrightarrow> on_cvff (\<lambda>e d. (q e d, d)) p = (r, p') \<Longrightarrow> plant_safe view txt c p'"
  by (erule plant_safe_call) auto

lemma get_legs_there:
  assumes "on_cvff (\<lambda>e d. (get_disbursement_legs e k d, d)) p = (Inr l, p')"
  shows "plant_leg p' l \<and> lg_app l = k"
proof -
  obtain e d where "get_disbursement_legs e k d = Inr l" "w_db (pt_cvff p') = d"
    using on_cvff_result [OF assms] by (metis prod.inject)
  then show ?thesis
    by (auto simp: get_disbursement_legs_def stmt_Inr_iff plant_leg_def dest!: sql_row_Some split: option.splits)
qed

lemma get_app_id:
  assumes "on_cvff (\<lambda>e d. (cvff_get e k d, d)) p = (Inr a, p')"
  shows "ap_id a = k"
proof -
  obtain e d where "cvff_get e k d = Inr a" using on_cvff_result [OF assms] by (metis prod.inject)
  then show ?thesis using cvff_get_Inr by blast
qed

lemma record_there_plant:
  assumes "on_cvff (\<lambda>e. record_disbursement_legs e l) p = (Inr (), p')"
  shows "\<exists>l'. plant_leg p' l' \<and> lg_app l' = lg_app l"
proof -
  obtain e d where run: "record_disbursement_legs e l d = (Inr (), w_db (pt_cvff p'))"
    using on_cvff_result [OF assms] by metis
  then obtain d0 d1 where "insert_legs e l d0 = Inr d1"
    "append_cvff_event e 0 (lg_app l) ''cvff.disbursed'' (Legs_Payload l) (env_now e) d1
       = Inr (w_db (pt_cvff p'))"
    by (auto simp: record_disbursement_legs_def run_tx_Inr_iff and_then_Inr_iff split: if_splits)
  then have "lg_app l \<in> lg_app ` set (leg_rows (w_db (pt_cvff p')))"
    by (auto simp: insert_legs_def stmt_Inr_iff dest!: append_cvff_event_Inr split: if_splits)
  then show ?thesis by (auto simp: plant_leg_def)
qed

lemma park_safe:
  assumes "plant_safe view txt c p"
    and "on_cvff (\<lambda>e. cvff_transition e k v mv ty) p = (gr, p')" and "plain mv" "move_event ty"
  shows "plant_safe view txt c p'"
  by (rule plant_safe_call [OF assms(1,2)]) (simp add: worker_transition_ok [OF _ _ assms(3,4)])

lemma leg_settled_plant:
  "plant_safe view txt c p \<Longrightarrow> plant_leg p l \<Longrightarrow> legs_on_ledger (view (pt_tb p)) txt c l"
  by (simp add: plant_safe_def)

lemma park_stored:
  assumes "plant_safe view txt c p"
    and "on_cvff (\<lambda>e. cvff_transition e k v require_reconciliation ty) p = (Inr a, p')"
  shows "\<exists>s. plant_row p' k = Some s \<and> ap_state s = StateReconciliationRequired"
  using transition_stored_plant [OF assms] by (auto simp: require_reconciliation_Inr)

text \<open>Every cluster under the documented contract.\<close>

locale tb_cluster =
  fixes h :: hashing and sv :: "'tb service" and fmt :: "u128 \<Rightarrow> string" and cfg :: rail_config
    and view :: "'tb \<Rightarrow> u128 \<Rightarrow> transfer option"
  assumes contract: "tb_contract (sv_client sv) view"

sublocale tb_cluster \<subseteq> rail_port "plant_rail h sv fmt cfg" "plant_safe view fmt cfg" plant_leg
  "\<lambda>p. legs_on_ledger (view (pt_tb p)) fmt cfg" plant_row
proof unfold_locales
  fix w w' :: "'tb plant" and k rt am legs
  assume "rl_pairs (plant_rail h sv fmt cfg)
    (rail_pair_input (rl_config (plant_rail h sv fmt cfg)) k rt am) w = (Inr legs, w')"
  then obtain tb where tb: "create_disbursement_pair h sv (rail_pair_input cfg k rt am) (pt_tb w) = (Inr legs, tb)"
    "pt_tb w' = tb"
    by (auto simp: tb_pairs_def split: prod.splits)
  then show "legs_on_ledger (view (pt_tb w')) fmt cfg (legs_row (rl_text (plant_rail h sv fmt cfg)) legs) \<and>
      pl_application legs = k"
    using on_tb_settled [OF contract tb(1)] by simp
next
  show "plant_safe view fmt cfg w'" if "plant_safe view fmt cfg w"
    "rl_pairs (plant_rail h sv fmt cfg) inp w = (pr, w')" for w inp pr w'
    using pairs_safe_plant [OF that(1) contract] that(2) by simp
next
  show "plant_safe view fmt cfg w'" if "plant_safe view fmt cfg w"
    "ds_transition (rl_store (plant_rail h sv fmt cfg)) k v require_reconciliation ty w = (gr, w')"
    "ty = ''cvff.reconciliation_required''" for w k v ty gr w'
    using park_safe [OF that(1) _ plain_moves(3)] that(2,3) by simp
qed ((simp only: plant_rail_simps pg_disbursement_store_simps
    | erule get_app_id get_legs_there record_there_plant
    | erule (1) read_safe_plant now_safe_plant rates_safe_plant leg_settled_plant park_stored
    | erule (2) record_safe_plant)+)

context tb_cluster
begin

lemmas rail_results = rail_disburse_results

end

text \<open>The cluster of the witnesses, with one transfer pair's worth of configuration.\<close>

definition demo_config :: rail_config where
  "demo_config = \<lparr>rc_ngn_debit = 1, rc_ngn_credit = 2, rc_usd_debit = 3, rc_usd_credit = 4,
     rc_ngn_ledger = 1, rc_usd_ledger = 2, rc_fee_code = 10, rc_cost_code = 11,
     rc_fee_basis_points = 100\<rparr>"

definition demo_text :: "u128 \<Rightarrow> string" where
  "demo_text i = [char_of (unat i div 256), char_of (unat i mod 256)]"

interpretation sim_cluster: tb_cluster demo_hashing sim_service demo_text demo_config sim_view
  by unfold_locales (rule sim_service_contract)

definition demo_rail :: "sim plant rail" where
  "demo_rail = plant_rail demo_hashing sim_service demo_text demo_config"

definition demo_plant :: "cvff_db \<Rightarrow> fx_db \<Rightarrow> sim plant" where
  "demo_plant d f = \<lparr>pt_cvff = \<lparr>w_db = d, w_tick = 0, w_sched = (\<lambda>n. cvff_demo_env (40 + n))\<rparr>,
     pt_fx = \<lparr>w_db = f, w_tick = 0, w_sched = (\<lambda>n. quiet_env 3 (\<lambda>_. []))\<rparr>, pt_tb = [],
     pt_clock = (\<lambda>_. add_ns (utc_date 20000) 1), pt_reads = 0\<rparr>"

definition demo_ready :: cvff_db where
  "demo_ready = run_cvff_calls 1 demo_approvals (empty_cvff_db [''r1''])"

lemma demo_plant_safe: "plant_safe view txt c (demo_plant demo_ready f)"
proof -
  have "leg_rows demo_ready = []" by code_simp
  moreover have "cvff_db_ok demo_ready"
    unfolding demo_ready_def by (rule cvff_reach_ok [OF run_cvff_calls_reach [OF cvff_reach.start]])
  ultimately show ?thesis
    by (simp add: plant_safe_def plant_leg_def demo_plant_def worker_env_def) (simp add: cvff_demo_env_def)
qed

section \<open>Properties\<close>

text \<open>C32 A reported disbursement is recorded and settled. Under any failures of the stores and of the
  cluster, and with any other processes that keep the CVFF invariant, the rail leaves every recorded
  pair of legs backed by its two transfers on the cluster (accounts of the topology, amounts of the
  legs, identifiers the legs carry); and when it reports success for an application, on a first run
  or on a replay, such a pair of legs is recorded for that application.\<close>

theorem reported_disbursement_is_settled:
  assumes "tb_contract (sv_client sv) view" and "plant_safe view txt c p"
    and "rail_disburse (plant_rail h sv txt c) app p = (r, p')"
  shows "plant_safe view txt c p' \<and>
    (r = Inr () \<longrightarrow> (\<exists>l. plant_leg p' l \<and> lg_app l = app \<and> legs_on_ledger (view (pt_tb p')) txt c l))"
  using tb_cluster.rail_results [OF tb_cluster.intro [OF assms(1)] assms(2,3)] by blast

theorem reported_disbursement_is_settled_witness:
  "\<exists>l. plant_leg (snd (rail_disburse demo_rail ''app-1'' (demo_plant demo_ready demo_fx))) l \<and>
     lg_app l = ''app-1''"
proof -
  have "fst (rail_disburse demo_rail ''app-1'' (demo_plant demo_ready demo_fx)) = Inr ()"
    by code_simp
  then show ?thesis
    using reported_disbursement_is_settled
      [OF sim_service_contract demo_plant_safe, of demo_hashing demo_text demo_config "''app-1''" demo_fx]
    by (metis demo_rail_def prod.collapse)
qed

text \<open>C33 A closed failure is a parked application. When the rail reports that it failed closed (no
  rate, no fee, an overflow, an unknown currency, a ledger failure, a failure to record the legs),
  the stored application is in RECONCILIATION_REQUIRED.\<close>

theorem closed_failure_is_parked:
  assumes "tb_contract (sv_client sv) view" and "plant_safe view txt c p"
    and "rail_disburse (plant_rail h sv txt c) app p = (Inl (Rail_Failed_Closed cause), p')"
  shows "\<exists>s. plant_row p' app = Some s \<and> ap_state s = StateReconciliationRequired"
  using tb_cluster.rail_results [OF tb_cluster.intro [OF assms(1)] assms(2,3)] by blast

theorem closed_failure_is_parked_witness:
  "\<exists>s. plant_row (snd (rail_disburse demo_rail ''app-1'' (demo_plant demo_ready []))) ''app-1'' = Some s \<and>
     ap_state s = StateReconciliationRequired"
proof -
  have "fst (rail_disburse demo_rail ''app-1'' (demo_plant demo_ready []))
      = Inl (Rail_Failed_Closed (Cause_Rate ErrRateNotFound))"
    by code_simp
  then have "rail_disburse demo_rail ''app-1'' (demo_plant demo_ready [])
      = (Inl (Rail_Failed_Closed (Cause_Rate ErrRateNotFound)),
         snd (rail_disburse demo_rail ''app-1'' (demo_plant demo_ready [])))"
    by (simp add: prod_eq_iff)
  from closed_failure_is_parked [OF sim_service_contract demo_plant_safe this [unfolded demo_rail_def]]
  show ?thesis by (simp add: demo_rail_def)
qed

lemma custodial_fee_Inr:
  "custodial_fee base bp = Inr fee \<longleftrightarrow> fee \<noteq> 0 \<and> uint fee = uint base * uint bp div 10000"
proof -
  let ?q = "uint base * uint bp div 10000"
  have "custodial_fee base bp = Inr fee \<longleftrightarrow> base \<noteq> 0 \<and> is_uint64 ?q \<and> ?q \<noteq> 0 \<and> to_u64 ?q = fee"
    by (auto simp: custodial_fee_def Let_def)
  also have "\<dots> \<longleftrightarrow> base \<noteq> 0 \<and> uint fee = ?q \<and> fee \<noteq> 0"
    using u64_quotient_iff [of ?q fee] by simp
  also have "\<dots> \<longleftrightarrow> fee \<noteq> 0 \<and> uint fee = ?q"
    by (cases "base = 0") (auto simp: uint_0_iff)
  finally show ?thesis .
qed

text \<open>C38 The custodial fee is exact and bounded. Under a topology the constructor accepts, the fee of
  a base is the floor of base * basis points / 10000, it is charged exactly when that floor is not
  zero, it never exceeds the base, and the overflow branch is unreachable.\<close>

theorem custodial_fee_bounds:
  assumes "config_error c = None"
  shows "(custodial_fee base (rc_fee_basis_points c) = Inr fee \<longleftrightarrow>
       fee \<noteq> 0 \<and> uint fee = uint base * uint (rc_fee_basis_points c) div 10000) \<and>
     uint base * uint (rc_fee_basis_points c) div 10000 \<le> uint base \<and>
     custodial_fee base (rc_fee_basis_points c) \<noteq> Inl ''custodial fee overflows ledger amount width''"
proof -
  let ?bp = "uint (rc_fee_basis_points c)"
  have "rc_fee_basis_points c \<le> 10000" using assms by (auto simp: config_error_def split: if_splits)
  then have bp: "0 \<le> ?bp" "?bp \<le> 10000" by (simp_all add: word_le_def)
  then have "uint base * ?bp \<le> uint base * 10000" by (intro mult_left_mono) simp_all
  then have le: "uint base * ?bp div 10000 \<le> uint base"
    using zdiv_mono1 [of "uint base * ?bp" "uint base * 10000" 10000] by simp
  moreover have "0 \<le> uint base * ?bp div 10000" using bp(1) by (simp add: pos_imp_zdiv_nonneg_iff)
  ultimately have "is_uint64 (uint base * ?bp div 10000)"
    using is_uint64_uint [of base] by (simp add: is_uint64_def)
  then show ?thesis using le by (simp add: custodial_fee_Inr) (simp add: custodial_fee_def Let_def)
qed

theorem custodial_fee_bounds_witness:
  "custodial_fee 7751250 (rc_fee_basis_points demo_config) = Inr 77512"
proof -
  have "config_error demo_config = None" by code_simp
  from custodial_fee_bounds [OF this, of 7751250 77512]
  show ?thesis by (simp add: demo_config_def)
qed

text \<open>Both legs carry the same money. When the amounts of an application are computed, its currency
  is NGN or USD, its own side of the pair is the approved amount, the other side is the half-up
  rounded conversion at the captured rate, and the fee is taken on the NGN side; a rate that was not
  confirmed yields no amounts.\<close>

theorem leg_amounts_are_converted:
  assumes "leg_amounts c r a = Inr (fee, usd, ngn)"
  shows "custodial_fee ngn (rc_fee_basis_points c) = Inr fee \<and> rate_confirmed r \<and>
    (ap_currency a = ''NGN'' \<and> ngn = ap_amount a \<and>
       half_up (uint ngn * micro_scale) (uint (ngn_per_usd_micro r)) (uint usd) \<or>
     ap_currency a = ''USD'' \<and> usd = ap_amount a \<and>
       half_up (uint usd * uint (ngn_per_usd_micro r)) micro_scale (uint ngn))"
  using assms
  by (auto simp: leg_amounts_def convert_usd_to_ngn_Inr convert_ngn_to_usd_Inr split: if_splits sum.splits)

theorem leg_amounts_are_converted_witness:
  "half_up (uint (5000 :: u64) * uint (ngn_per_usd_micro demo_confirmed)) micro_scale (uint (7751250 :: u64))"
proof -
  have "leg_amounts demo_config demo_confirmed demo_application = Inr (77512, 5000, 7751250)"
    by code_simp
  from leg_amounts_are_converted [OF this] show ?thesis by (simp add: demo_application_def)
qed

text \<open>
  The date of the rate is put together from three readings of the clock. When they fall on both
  sides of a new year, the date is neither day.
\<close>

lemma torn_clock_date:
  "fst (rail_date demo_rail (demo_plant demo_ready [] \<lparr>pt_clock := (\<lambda>n. if n = 0
      then add_ns (utc_date 20454) (- 1) else utc_date 20454)\<rparr>)) = utc_date 20089"
  by code_simp

end
