(* ===== verification/Workflow.thy ===== *)
theory Workflow
  imports Rail
begin

text \<open>
  \<open>internal/workflow/activities.go\<close> and \<open>cvff.go\<close>: the activities over the application store and the
  rail, and the workflow as a state machine over the signals and timers it consumes. The workflow
  blocks at a control point; an event that is not awaited there stays in its channel. Temporal
  itself is a parameter: \<open>delivered\<close> runs the attempts of an activity, any of which may fail or lose
  its completion.
\<close>

section \<open>Activities\<close>

datatype activity_error =
  Attempt_Failed cvff_error
| Control_Rejection cvff_error
| Disbursement_Failed_Closed rail_error
| Audit_Ended app_state

record 'w application_store =
  as_get :: "string \<Rightarrow> 'w \<Rightarrow> (cvff_error + application) \<times> 'w"
  as_record_decision :: "string \<Rightarrow> int \<Rightarrow> string \<Rightarrow> decision \<Rightarrow> 'w \<Rightarrow> (cvff_error + application \<times> approval) \<times> 'w"
  as_transition :: "string \<Rightarrow> int \<Rightarrow> move \<Rightarrow> string \<Rightarrow> 'w \<Rightarrow> (cvff_error + application) \<times> 'w"
  as_record_escalation :: "string \<Rightarrow> tier \<Rightarrow> gtime \<Rightarrow> 'w \<Rightarrow> (cvff_error + unit) \<times> 'w"
  as_resolve_to :: "string \<Rightarrow> int \<Rightarrow> string \<Rightarrow> recon_resolution \<Rightarrow> app_state \<Rightarrow> 'w \<Rightarrow> (cvff_error + application) \<times> 'w"

type_synonym 'w disburser = "string \<Rightarrow> 'w \<Rightarrow> (rail_error + unit) \<times> 'w"

record 'w activities =
  act_begin :: "string \<Rightarrow> 'w \<Rightarrow> (activity_error + app_state) \<times> 'w"
  act_record :: "string \<Rightarrow> string \<Rightarrow> decision \<Rightarrow> 'w \<Rightarrow> (activity_error + app_state) \<times> 'w"
  act_escalate :: "string \<Rightarrow> tier \<Rightarrow> gtime \<Rightarrow> 'w \<Rightarrow> (activity_error + unit) \<times> 'w"
  act_require :: "string \<Rightarrow> 'w \<Rightarrow> (activity_error + app_state) \<times> 'w"
  act_disburse :: "string \<Rightarrow> 'w \<Rightarrow> (activity_error + unit) \<times> 'w"
  act_resolve :: "string \<Rightarrow> string \<Rightarrow> recon_resolution \<Rightarrow> app_state \<Rightarrow> 'w \<Rightarrow> (activity_error + app_state) \<times> 'w"
  act_audit :: "string \<Rightarrow> 'w \<Rightarrow> (activity_error + unit) \<times> 'w"

definition activity_error :: "cvff_error \<Rightarrow> activity_error" where
  "activity_error e =
     (if e \<in> {ErrRoleNotAssigned, ErrRoleSeparation, ErrSequenceViolation, ErrTerminalState,
              cvff_error.ErrInvalidState, cvff_error.ErrNotFound, ErrResolutionInvalid}
      then Control_Rejection e else Attempt_Failed e)"

text \<open>The read every activity starts with; its error is returned as it is.\<close>

definition with_current ::
  "'w application_store \<Rightarrow> string \<Rightarrow> (application \<Rightarrow> 'w \<Rightarrow> (activity_error + 'a) \<times> 'w) \<Rightarrow> 'w
     \<Rightarrow> (activity_error + 'a) \<times> 'w" where
  "with_current st app k w = on_ok (map_err Attempt_Failed (as_get st app w)) k"

definition state_of :: "(cvff_error + application) \<times> 'w \<Rightarrow> (activity_error + app_state) \<times> 'w" where
  "state_of r = on_ok (map_err activity_error r) (\<lambda>a w. (Inr (ap_state a), w))"

definition begin_activity :: "'w application_store \<Rightarrow> string \<Rightarrow> 'w \<Rightarrow> (activity_error + app_state) \<times> 'w" where
  "begin_activity st app w =
     with_current st app (\<lambda>a w. state_of (as_transition st app (ap_version a) begin_underwriting
       ''cvff.underwriting_started'' w)) w"

definition record_activity ::
  "'w application_store \<Rightarrow> string \<Rightarrow> string \<Rightarrow> decision \<Rightarrow> 'w \<Rightarrow> (activity_error + app_state) \<times> 'w" where
  "record_activity st app p d w =
     with_current st app (\<lambda>a w. on_ok (map_err activity_error (as_record_decision st app (ap_version a) p d w))
       (\<lambda>(u, _) w. (Inr (ap_state u), w))) w"

definition require_activity :: "'w application_store \<Rightarrow> string \<Rightarrow> 'w \<Rightarrow> (activity_error + app_state) \<times> 'w" where
  "require_activity st app w =
     with_current st app (\<lambda>a w. state_of (as_transition st app (ap_version a) require_reconciliation
       ''cvff.reconciliation_required'' w)) w"

definition resolve_activity ::
  "'w application_store \<Rightarrow> string \<Rightarrow> string \<Rightarrow> recon_resolution \<Rightarrow> app_state \<Rightarrow> 'w
     \<Rightarrow> (activity_error + app_state) \<times> 'w" where
  "resolve_activity st app p r target w =
     with_current st app (\<lambda>a w. state_of (as_resolve_to st app (ap_version a) p r target w)) w"

definition audit_activity :: "'w application_store \<Rightarrow> string \<Rightarrow> 'w \<Rightarrow> (activity_error + unit) \<times> 'w" where
  "audit_activity st app w =
     with_current st app (\<lambda>a w. on_ok (state_of (as_transition st app (ap_version a) mark_audited
         ''cvff.audited'' w))
       (\<lambda>s w. if s \<noteq> StateAudited then (Inl (Audit_Ended s), w) else (Inr (), w))) w"

definition new_activities ::
  "'w application_store option \<Rightarrow> 'w disburser option \<Rightarrow> string + 'w activities" where
  "new_activities store disburser =
     (case store of
        None \<Rightarrow> Inl ''cvff application store is required''
      | Some st \<Rightarrow>
          (case disburser of
             None \<Rightarrow> Inl ''cvff disburser is required''
           | Some dis \<Rightarrow> Inr
               \<lparr>act_begin = begin_activity st, act_record = record_activity st,
                act_escalate = (\<lambda>app tr dl w. map_err Attempt_Failed (as_record_escalation st app tr dl w)),
                act_require = require_activity st,
                act_disburse = (\<lambda>app w. map_err Disbursement_Failed_Closed (dis app w)),
                act_resolve = resolve_activity st, act_audit = audit_activity st\<rparr>))"

section \<open>The attempts of an activity\<close>

definition retryable :: "activity_error + 'a \<Rightarrow> bool" where
  "retryable r \<longleftrightarrow>
     (case r of Inl (Attempt_Failed _) \<Rightarrow> True | Inl (Audit_Ended _) \<Rightarrow> True | _ \<Rightarrow> False)"

text \<open>
  One flag for each attempt but the last: its completion is lost. A lost or retryable attempt is
  followed by the next one.
\<close>

fun execute :: "bool list \<Rightarrow> ('w \<Rightarrow> (activity_error + 'a) \<times> 'w) \<Rightarrow> 'w \<Rightarrow> (activity_error + 'a) \<times> 'w" where
  "execute [] act w = act w"
| "execute (lost # ls) act w =
     (case act w of (r, w') \<Rightarrow> if lost \<or> retryable r then execute ls act w' else (r, w'))"

definition delivered :: "('w \<Rightarrow> bool list) \<Rightarrow> 'w activities \<Rightarrow> 'w activities" where
  "delivered fate acts =
     \<lparr>act_begin = (\<lambda>app w. execute (fate w) (act_begin acts app) w),
      act_record = (\<lambda>app p d w. execute (fate w) (act_record acts app p d) w),
      act_escalate = (\<lambda>app tr dl w. execute (fate w) (act_escalate acts app tr dl) w),
      act_require = (\<lambda>app w. execute (fate w) (act_require acts app) w),
      act_disburse = (\<lambda>app w. execute (fate w) (act_disburse acts app) w),
      act_resolve = (\<lambda>app p r t w. execute (fate w) (act_resolve acts app p r t) w),
      act_audit = (\<lambda>app w. execute (fate w) (act_audit acts app) w)\<rparr>"

section \<open>The workflow's state\<close>

datatype resume_point = Resume_Tier nat | Resume_Party nat | Resume_Beneficiary

datatype wf_error =
  Wf_Application_Required
| Wf_Begin activity_error
| Wf_Park activity_error
| Wf_Chain_Ended "app_state option"
| Wf_Resolve activity_error
| Wf_Resolution_Ended app_state
| Wf_Beneficiary_Ended app_state
| Wf_Audit activity_error

datatype control =
  Await_Tier nat nat gtime
| Await_Party nat
| Await_Beneficiary
| Parked_At app_state resume_point
| Parked_Disbursement
| Finished "wf_error option"

text \<open>
  The approvals in the workflow's history leave \<open>ApprovalID\<close>, \<open>FromState\<close> and \<open>CreatedAt\<close> at zero; the
  role is set for the underwriting tiers only.
\<close>

record wf_entry =
  we_role :: "role option"
  we_principal :: string
  we_decision :: decision
  we_to :: app_state

text \<open>The empty state of a failed activity is \<open>None\<close>.\<close>

record wf =
  wf_control :: control
  wf_state :: "app_state option"
  wf_escalations :: nat
  wf_history :: "wf_entry list"

datatype wf_event =
  Decision_Signal string string decision
| Resolution_Signal string recon_resolution
| Timer_Fired

definition underwriting_stages :: "(tier \<times> string) list" where
  "underwriting_stages =
     [(TierPrimary, ''cvff.underwriting-decision.primary''),
      (TierSecondary, ''cvff.underwriting-decision.secondary''),
      (TierTertiary, ''cvff.underwriting-decision.tertiary'')]"

definition party_stages :: "(string \<times> app_state) list" where
  "party_stages = [(''cvff.nimasa-decision'', StateNIMASAApproval),
     (''cvff.bank-confirmation'', StateBankConfirmation)]"

definition beneficiary_signal :: string where
  "beneficiary_signal = ''cvff.beneficiary-confirmation''"

definition state_for_tier :: "tier \<Rightarrow> app_state" where
  "state_for_tier tr = (case tr of TierPrimary \<Rightarrow> StateUnderwritingPrimary
     | TierSecondary \<Rightarrow> StateUnderwritingSecondary | _ \<Rightarrow> StateUnderwritingTertiary)"

definition role_for_tier :: "tier \<Rightarrow> role" where
  "role_for_tier tr = (case tr of TierPrimary \<Rightarrow> RoleUnderwriterPrimary
     | TierSecondary \<Rightarrow> RoleUnderwriterSecondary | _ \<Rightarrow> RoleUnderwriterTertiary)"

definition stage_tier :: "nat \<Rightarrow> tier" where "stage_tier i = fst (underwriting_stages ! i)"
definition tier_signal :: "nat \<Rightarrow> string" where "tier_signal i = snd (underwriting_stages ! i)"

section \<open>Steps\<close>

definition finish :: "wf_error option \<Rightarrow> wf \<times> 'w \<Rightarrow> wf \<times> 'w" where
  "finish e = (\<lambda>(f, w). (f\<lparr>wf_control := Finished e\<rparr>, w))"

definition add_entry :: "role option \<Rightarrow> string \<Rightarrow> decision \<Rightarrow> app_state \<Rightarrow> wf \<Rightarrow> wf" where
  "add_entry r p d s f =
     f\<lparr>wf_history := wf_history f @ [\<lparr>we_role = r, we_principal = p, we_decision = d, we_to = s\<rparr>]\<rparr>"

text \<open>\<open>parkForReconciliation\<close> up to its wait; \<open>on_fail\<close> is the state the caller reports with the error.\<close>

definition park ::
  "'w activities \<Rightarrow> string \<Rightarrow> app_state \<Rightarrow> resume_point \<Rightarrow> app_state option \<Rightarrow> wf \<times> 'w \<Rightarrow> wf \<times> 'w" where
  "park acts app target at on_fail = (\<lambda>(f, w).
     case act_require acts app w of
       (Inl e, w') \<Rightarrow> (f\<lparr>wf_state := on_fail, wf_control := Finished (Some (Wf_Park e))\<rparr>, w')
     | (Inr _, w') \<Rightarrow> (f\<lparr>wf_control := Parked_At target at\<rparr>, w'))"

definition tier_failed :: "'w activities \<Rightarrow> string \<Rightarrow> nat \<Rightarrow> nat \<Rightarrow> wf \<times> 'w \<Rightarrow> wf \<times> 'w" where
  "tier_failed acts app i esc = (\<lambda>(f, w).
     park acts app (state_for_tier (stage_tier i)) (Resume_Tier i) None
       (f\<lparr>wf_escalations := wf_escalations f + esc\<rparr>, w))"

text \<open>The head of the loop of \<open>awaitTierDecision\<close>.\<close>

definition enter_tier ::
  "'w activities \<Rightarrow> string \<Rightarrow> nat \<Rightarrow> nat \<Rightarrow> gtime \<Rightarrow> wf \<times> 'w \<Rightarrow> wf \<times> 'w" where
  "enter_tier acts app i esc now s =
     (case sla_deadline (stage_tier i) now of
        Inl _ \<Rightarrow> tier_failed acts app i esc s
      | Inr _ \<Rightarrow> (case s of (f, w) \<Rightarrow> (f\<lparr>wf_control := Await_Tier i esc now\<rparr>, w)))"

definition next_stage :: "'w activities \<Rightarrow> string \<Rightarrow> nat \<Rightarrow> gtime \<Rightarrow> wf \<times> 'w \<Rightarrow> wf \<times> 'w" where
  "next_stage acts app i now s =
     (if i < length underwriting_stages then enter_tier acts app i 0 now s
      else case s of (f, w) \<Rightarrow> (f\<lparr>wf_control := Await_Party 0\<rparr>, w))"

definition tier_decision ::
  "'w activities \<Rightarrow> string \<Rightarrow> nat \<Rightarrow> nat \<Rightarrow> gtime \<Rightarrow> string \<Rightarrow> decision \<Rightarrow> wf \<times> 'w \<Rightarrow> wf \<times> 'w" where
  "tier_decision acts app i esc now p d = (\<lambda>(f, w).
     case act_record acts app p d w of
       (Inl e, w') \<Rightarrow> tier_failed acts app i esc (f, w')
     | (Inr s, w') \<Rightarrow>
         (let f' = add_entry (Some (role_for_tier (stage_tier i))) p d s
                     (f\<lparr>wf_state := Some s, wf_escalations := wf_escalations f + esc\<rparr>)
          in if s = StateRejected then finish None (f', w')
             else next_stage acts app (Suc i) now (f', w')))"

definition tier_expired ::
  "'w activities \<Rightarrow> string \<Rightarrow> nat \<Rightarrow> nat \<Rightarrow> gtime \<Rightarrow> gtime \<Rightarrow> wf \<times> 'w \<Rightarrow> wf \<times> 'w" where
  "tier_expired acts app i esc deadline now = (\<lambda>(f, w).
     case act_escalate acts app (stage_tier i) deadline w of
       (Inl e, w') \<Rightarrow> tier_failed acts app i esc (f, w')
     | (Inr _, w') \<Rightarrow> enter_tier acts app i (Suc esc) now (f, w'))"

definition try_disburse :: "'w activities \<Rightarrow> string \<Rightarrow> wf \<times> 'w \<Rightarrow> wf \<times> 'w" where
  "try_disburse acts app = (\<lambda>(f, w).
     case act_disburse acts app w of
       (Inr _, w') \<Rightarrow> (f\<lparr>wf_control := Await_Beneficiary\<rparr>, w')
     | (Inl _, w') \<Rightarrow>
         (f\<lparr>wf_state := Some StateReconciliationRequired, wf_control := Parked_Disbursement\<rparr>, w'))"

definition after_parties :: "'w activities \<Rightarrow> string \<Rightarrow> wf \<times> 'w \<Rightarrow> wf \<times> 'w" where
  "after_parties acts app s =
     (if wf_state (fst s) \<noteq> Some StateDisbursementPending
      then finish (Some (Wf_Chain_Ended (wf_state (fst s)))) s
      else try_disburse acts app s)"

definition party_decision ::
  "'w activities \<Rightarrow> string \<Rightarrow> nat \<Rightarrow> string \<Rightarrow> decision \<Rightarrow> wf \<times> 'w \<Rightarrow> wf \<times> 'w" where
  "party_decision acts app j p d = (\<lambda>(f, w).
     case act_record acts app p d w of
       (Inl e, w') \<Rightarrow> park acts app (snd (party_stages ! j)) (Resume_Party j) (wf_state f) (f, w')
     | (Inr s, w') \<Rightarrow>
         (let f' = add_entry None p d s f
          in if d = DecisionReject then finish None (f'\<lparr>wf_state := Some StateRejected\<rparr>, w')
             else let f'' = f'\<lparr>wf_state := Some s\<rparr>
                  in if Suc j < length party_stages then (f''\<lparr>wf_control := Await_Party (Suc j)\<rparr>, w')
                     else after_parties acts app (f'', w')))"

definition beneficiary_decision ::
  "'w activities \<Rightarrow> string \<Rightarrow> string \<Rightarrow> decision \<Rightarrow> wf \<times> 'w \<Rightarrow> wf \<times> 'w" where
  "beneficiary_decision acts app p d = (\<lambda>(f, w).
     case act_record acts app p d w of
       (Inl e, w') \<Rightarrow> park acts app StateDisbursementPending Resume_Beneficiary (wf_state f) (f, w')
     | (Inr s, w') \<Rightarrow>
         (let f' = add_entry None p d s f
          in if d = DecisionReject then finish None (f'\<lparr>wf_state := Some StateRejected\<rparr>, w')
             else let f'' = f'\<lparr>wf_state := Some s\<rparr>
                  in if s \<noteq> StateDisbursed then finish (Some (Wf_Beneficiary_Ended s)) (f'', w')
                     else case act_audit acts app w' of
                            (Inl e, w'') \<Rightarrow> finish (Some (Wf_Audit e)) (f'', w'')
                          | (Inr _, w'') \<Rightarrow> finish None (f''\<lparr>wf_state := Some StateAudited\<rparr>, w'')))"

definition resume :: "'w activities \<Rightarrow> string \<Rightarrow> resume_point \<Rightarrow> gtime \<Rightarrow> wf \<times> 'w \<Rightarrow> wf \<times> 'w" where
  "resume acts app at now s =
     (case at of
        Resume_Tier i \<Rightarrow> enter_tier acts app i 0 now s
      | Resume_Party j \<Rightarrow> (case s of (f, w) \<Rightarrow> (f\<lparr>wf_control := Await_Party j\<rparr>, w))
      | Resume_Beneficiary \<Rightarrow> (case s of (f, w) \<Rightarrow> (f\<lparr>wf_control := Await_Beneficiary\<rparr>, w)))"

definition resolve_parked ::
  "'w activities \<Rightarrow> string \<Rightarrow> app_state \<Rightarrow> resume_point \<Rightarrow> gtime \<Rightarrow> string \<Rightarrow> recon_resolution
     \<Rightarrow> wf \<times> 'w \<Rightarrow> wf \<times> 'w" where
  "resolve_parked acts app target at now p r = (\<lambda>(f, w).
     case act_resolve acts app p r target w of
       (Inl e, w') \<Rightarrow> (f, w')
     | (Inr s, w') \<Rightarrow>
         if s = StateRejected then finish None (f\<lparr>wf_state := Some s\<rparr>, w')
         else resume acts app at now (f\<lparr>wf_state := Some s\<rparr>, w'))"

definition resolve_disbursement ::
  "'w activities \<Rightarrow> string \<Rightarrow> string \<Rightarrow> recon_resolution \<Rightarrow> wf \<times> 'w \<Rightarrow> wf \<times> 'w" where
  "resolve_disbursement acts app p r = (\<lambda>(f, w).
     case act_resolve acts app p r StateDisbursementPending w of
       (Inl e, w') \<Rightarrow> finish (Some (Wf_Resolve e)) (f, w')
     | (Inr s, w') \<Rightarrow>
         (let f' = f\<lparr>wf_state := Some s\<rparr>
          in if s = StateRejected then finish None (f', w')
             else if s \<noteq> StateDisbursementPending then finish (Some (Wf_Resolution_Ended s)) (f', w')
             else try_disburse acts app (f', w')))"

definition wf_start :: "'w activities \<Rightarrow> string \<Rightarrow> gtime \<Rightarrow> 'w \<Rightarrow> wf \<times> 'w" where
  "wf_start acts app now w =
     (let f = \<lparr>wf_control = Finished (Some Wf_Application_Required), wf_state = None,
               wf_escalations = 0, wf_history = []\<rparr>
      in if app = [] then (f, w)
         else case act_begin acts app w of
                (Inl e, w') \<Rightarrow> finish (Some (Wf_Begin e)) (f\<lparr>wf_state := Some StateSubmitted\<rparr>, w')
              | (Inr s, w') \<Rightarrow> next_stage acts app 0 now (f\<lparr>wf_state := Some s\<rparr>, w'))"

text \<open>One consumed event at a time \<open>now\<close>; \<open>None\<close> when the workflow does not wait for it.\<close>

fun wf_step :: "'w activities \<Rightarrow> string \<Rightarrow> gtime \<Rightarrow> wf_event \<Rightarrow> wf \<times> 'w \<Rightarrow> (wf \<times> 'w) option" where
  "wf_step acts app now ev (f, w) =
     (case (wf_control f, ev) of
        (Await_Tier i esc entered, Decision_Signal ch p d) \<Rightarrow>
          if ch = tier_signal i then Some (tier_decision acts app i esc now p d (f, w)) else None
      | (Await_Tier i esc entered, Timer_Fired) \<Rightarrow>
          (case sla_deadline (stage_tier i) entered of
             Inl _ \<Rightarrow> None
           | Inr deadline \<Rightarrow>
               if gt_inst deadline \<le> gt_inst now
               then Some (tier_expired acts app i esc deadline now (f, w)) else None)
      | (Await_Party j, Decision_Signal ch p d) \<Rightarrow>
          if ch = fst (party_stages ! j) then Some (party_decision acts app j p d (f, w)) else None
      | (Await_Beneficiary, Decision_Signal ch p d) \<Rightarrow>
          if ch = beneficiary_signal then Some (beneficiary_decision acts app p d (f, w)) else None
      | (Parked_At target at, Resolution_Signal p r) \<Rightarrow>
          Some (resolve_parked acts app target at now p r (f, w))
      | (Parked_Disbursement, Resolution_Signal p r) \<Rightarrow>
          Some (resolve_disbursement acts app p r (f, w))
      | _ \<Rightarrow> None)"

text \<open>The states a run of the workflow can reach.\<close>

inductive wf_reach :: "'w activities \<Rightarrow> string \<Rightarrow> 'w \<Rightarrow> wf \<times> 'w \<Rightarrow> bool" for acts app w0 where
  start: "wf_reach acts app w0 (wf_start acts app now w0)"
| event: "wf_reach acts app w0 s \<Longrightarrow> wf_step acts app now ev s = Some s' \<Longrightarrow> wf_reach acts app w0 s'"

fun wf_events :: "'w activities \<Rightarrow> string \<Rightarrow> (gtime \<times> wf_event) list \<Rightarrow> wf \<times> 'w \<Rightarrow> (wf \<times> 'w) option" where
  "wf_events acts app [] s = Some s"
| "wf_events acts app ((now, ev) # evs) s =
     (case wf_step acts app now ev s of None \<Rightarrow> None | Some s' \<Rightarrow> wf_events acts app evs s')"

lemma wf_events_reach:
  "wf_reach acts app w0 s \<Longrightarrow> wf_events acts app evs s = Some s' \<Longrightarrow> wf_reach acts app w0 s'"
  by (induction acts app evs s rule: wf_events.induct) (auto split: option.splits intro: wf_reach.event)

end
