(* ===== verification/Workflow_Port.thy ===== *)
theory Workflow_Port
  imports Workflow
begin

text \<open>
  What the workflow may rely on, as a locale: what the success of an activity says about the stored
  state of its application, and that evidence (recorded approvals, a settled disbursement) is never
  lost. The invariant of the workflow ties its control point to the stored state and to the
  approvals of the stages it has passed.
\<close>

definition keeps_evidence ::
  "('w \<Rightarrow> role \<Rightarrow> bool) \<Rightarrow> ('w \<Rightarrow> bool) \<Rightarrow> 'w \<Rightarrow> 'w \<Rightarrow> bool" where
  "keeps_evidence approved paid w w' \<longleftrightarrow>
     (\<forall>r. approved w r \<longrightarrow> approved w' r) \<and> (paid w \<longrightarrow> paid w')"

lemma keeps_evidence_refl [simp]: "keeps_evidence approved paid w w"
  by (simp add: keeps_evidence_def)

lemma keeps_evidence_trans:
  "keeps_evidence approved paid a b \<Longrightarrow> keeps_evidence approved paid b c \<Longrightarrow> keeps_evidence approved paid a c"
  by (auto simp: keeps_evidence_def)

locale workflow_port =
  fixes acts :: "'w activities"
    and app :: string
    and safe :: "'w \<Rightarrow> bool"
    and stage :: "'w \<Rightarrow> app_state option"
    and approved :: "'w \<Rightarrow> role \<Rightarrow> bool"
    and paid :: "'w \<Rightarrow> bool"
  assumes begin_law: "safe w \<Longrightarrow> act_begin acts app w = (sr, w') \<Longrightarrow>
      safe w' \<and> keeps_evidence approved paid w w' \<and>
      (\<forall>s. sr = Inr s \<longrightarrow> s = StateUnderwritingPrimary \<and> stage w' = Some s)"
    and record_law: "safe w \<Longrightarrow> act_record acts app p d w = (sr, w') \<Longrightarrow>
      safe w' \<and> keeps_evidence approved paid w w' \<and>
      (\<forall>s s0 role. sr = Inr s \<longrightarrow> stage w = Some s0 \<longrightarrow> required_role s0 = Some role \<longrightarrow>
         stage w' = Some s \<and>
         (d = DecisionReject \<and> s = StateRejected \<or>
          d = DecisionApprove \<and> approved_successor s0 = Some s \<and> approved w' role))"
    and escalate_law: "safe w \<Longrightarrow> act_escalate acts app tr dl w = (ur, w') \<Longrightarrow>
      safe w' \<and> keeps_evidence approved paid w w' \<and> stage w' = stage w"
    and require_law: "safe w \<Longrightarrow> act_require acts app w = (sr, w') \<Longrightarrow>
      safe w' \<and> keeps_evidence approved paid w w'"
    and disburse_law: "safe w \<Longrightarrow> act_disburse acts app w = (ur, w') \<Longrightarrow>
      safe w' \<and> keeps_evidence approved paid w w' \<and>
      (ur = Inr () \<longrightarrow> stage w' = Some StateDisbursementPending \<and> paid w')"
    and resolve_law: "safe w \<Longrightarrow> act_resolve acts app p rs target w = (sr, w') \<Longrightarrow>
      safe w' \<and> keeps_evidence approved paid w w' \<and>
      (\<forall>s. sr = Inr s \<longrightarrow> stage w' = Some s \<and> (s = target \<or> s = StateRejected))"
    and audit_law: "safe w \<Longrightarrow> act_audit acts app w = (ur, w') \<Longrightarrow>
      safe w' \<and> keeps_evidence approved paid w w' \<and> (ur = Inr () \<longrightarrow> stage w' = Some StateAudited)"
begin

definition stage_state :: "nat \<Rightarrow> app_state" where
  "stage_state i = [StateUnderwritingPrimary, StateUnderwritingSecondary, StateUnderwritingTertiary,
     StateNIMASAApproval, StateBankConfirmation, StateDisbursementPending] ! i"

definition passed :: "nat \<Rightarrow> 'w \<Rightarrow> bool" where
  "passed n w \<longleftrightarrow> (\<forall>r \<in> set (take n chain_roles). approved w r)"

fun resume_index :: "resume_point \<Rightarrow> nat" where
  "resume_index (Resume_Tier i) = i"
| "resume_index (Resume_Party j) = 3 + j"
| "resume_index Resume_Beneficiary = 5"

definition valid_point :: "resume_point \<Rightarrow> bool" where
  "valid_point at \<longleftrightarrow> (case at of Resume_Tier i \<Rightarrow> i < 3 | Resume_Party j \<Rightarrow> j < 2 | _ \<Rightarrow> True)"

text \<open>Waiting for the decision of stage \<open>n\<close>.\<close>

definition waits :: "nat \<Rightarrow> 'w \<Rightarrow> bool" where
  "waits n w \<longleftrightarrow> stage w = Some (stage_state n) \<and> passed n w \<and> (n = 5 \<longrightarrow> paid w)"

definition holds :: "nat \<Rightarrow> 'w \<Rightarrow> bool" where
  "holds n w \<longleftrightarrow> passed n w \<and> (n = 5 \<longrightarrow> paid w)"

definition control_ok :: "wf \<Rightarrow> 'w \<Rightarrow> bool" where
  "control_ok f w \<longleftrightarrow>
     (case wf_control f of
        Await_Tier i esc entered \<Rightarrow> i < 3 \<and> waits i w
      | Await_Party j \<Rightarrow> j < 2 \<and> waits (3 + j) w
      | Await_Beneficiary \<Rightarrow> waits 5 w
      | Parked_At target at \<Rightarrow> valid_point at \<and> target = stage_state (resume_index at) \<and> holds (resume_index at) w
      | Parked_Disbursement \<Rightarrow> passed 5 w
      | Finished e \<Rightarrow> wf_state f = Some StateAudited \<longrightarrow> stage w = Some StateAudited \<and> passed 6 w \<and> paid w)"

definition wf_inv :: "wf \<times> 'w \<Rightarrow> bool" where
  "wf_inv s \<longleftrightarrow> safe (snd s) \<and> control_ok (fst s) (snd s) \<and>
     (wf_state (fst s) = Some StateAudited \<longrightarrow> (\<exists>e. wf_control (fst s) = Finished e))"

lemma passed_mono: "keeps_evidence approved paid w w' \<Longrightarrow> passed n w \<Longrightarrow> passed n w'"
  by (auto simp: passed_def keeps_evidence_def)

lemma holds_mono: "keeps_evidence approved paid w w' \<Longrightarrow> holds n w \<Longrightarrow> holds n w'"
  using passed_mono by (auto simp: holds_def keeps_evidence_def)

lemma waits_holds: "waits n w \<Longrightarrow> holds n w"
  by (simp add: waits_def holds_def)

lemma less_six: "n < 6 \<Longrightarrow> n \<in> {0, 1, 2, 3, 4, 5 :: nat}"
  by auto

lemma stage_table:
  assumes "n < 6"
  shows "required_role (stage_state n) = Some (chain_roles ! n)"
    and "n < 5 \<Longrightarrow> approved_successor (stage_state n) = Some (stage_state (Suc n))"
    and "set (take (Suc n) chain_roles) = insert (chain_roles ! n) (set (take n chain_roles))"
  using less_six [OF assms] by (auto simp: stage_state_def chain_roles_def)

lemma stage_not_audited: "n < 6 \<Longrightarrow> stage_state n \<noteq> StateAudited"
  using less_six [of n] by (auto simp: stage_state_def)

lemma stage_last: "approved_successor (stage_state 5) = Some StateDisbursed"
  by (simp add: stage_state_def)

lemma tier_state: "i < 3 \<Longrightarrow> state_for_tier (stage_tier i) = stage_state i"
  using less_six [of i]
  by (auto simp: stage_tier_def underwriting_stages_def state_for_tier_def stage_state_def)

lemma party_state: "j < 2 \<Longrightarrow> snd (party_stages ! j) = stage_state (3 + j)"
  using less_six [of j] by (auto simp: party_stages_def stage_state_def)

lemma tier_known: "i < 3 \<Longrightarrow> \<exists>n. sla_business_days (stage_tier i) = Inr n"
  using less_six [of i] by (auto simp: stage_tier_def underwriting_stages_def)

text \<open>A decision recorded while stage \<open>n\<close> is awaited.\<close>

lemma record_at_stage:
  assumes "safe w" "waits n w" "n < 6" and run: "act_record acts app p d w = (Inr s, w')"
  shows "safe w' \<and> holds n w' \<and> stage w' = Some s \<and>
    (d = DecisionReject \<and> s = StateRejected \<or>
     d = DecisionApprove \<and> approved_successor (stage_state n) = Some s \<and> passed (Suc n) w')"
proof -
  note law = record_law [OF assms(1) run]
  have h: "holds n w'" using holds_mono law waits_holds [OF assms(2)] by blast
  have st: "stage w = Some (stage_state n)" using assms(2) by (simp add: waits_def)
  have "stage w' = Some s \<and> (d = DecisionReject \<and> s = StateRejected \<or>
      d = DecisionApprove \<and> approved_successor (stage_state n) = Some s \<and> approved w' (chain_roles ! n))"
    using law st stage_table(1) [OF assms(3)] by blast
  moreover have "passed (Suc n) w'" if "approved w' (chain_roles ! n)"
    using h that stage_table(3) [OF assms(3)] by (simp add: passed_def holds_def)
  ultimately show ?thesis using law h by blast
qed

text \<open>The steps.\<close>

lemma park_inv:
  assumes "safe w" "valid_point at" "target = stage_state (resume_index at)" "holds (resume_index at) w"
    and "st \<noteq> Some StateAudited" "wf_state f \<noteq> Some StateAudited"
  shows "wf_inv (park acts app target at st (f, w))"
proof -
  obtain r w' where q: "act_require acts app w = (r, w')" by fastforce
  note law = require_law [OF assms(1) q]
  have "holds (resume_index at) w'" using holds_mono law assms(4) by blast
  then show ?thesis
    using q law assms by (auto simp: park_def wf_inv_def control_ok_def split: sum.splits)
qed

lemma tier_failed_inv:
  assumes "safe w" "i < 3" "holds i w" "wf_state f \<noteq> Some StateAudited"
  shows "wf_inv (tier_failed acts app i esc (f, w))"
  unfolding tier_failed_def
  using park_inv [of w "Resume_Tier i" "state_for_tier (stage_tier i)" None
      "f\<lparr>wf_escalations := wf_escalations f + esc\<rparr>"] assms tier_state [of i]
  by (simp add: valid_point_def)

lemma enter_tier_inv:
  assumes "safe w" "i < 3" "waits i w" "wf_state f \<noteq> Some StateAudited"
  shows "wf_inv (enter_tier acts app i esc now (f, w))"
  using assms tier_failed_inv [OF assms(1,2) waits_holds [OF assms(3)] assms(4)]
  by (auto simp: enter_tier_def wf_inv_def control_ok_def split: sum.splits)

lemma next_stage_inv:
  assumes "safe w" "i \<le> 3" "waits i w" "wf_state f \<noteq> Some StateAudited"
  shows "wf_inv (next_stage acts app i now (f, w))"
proof (cases "i < 3")
  case True
  then show ?thesis
    using enter_tier_inv [OF assms(1) True assms(3,4)] by (simp add: next_stage_def underwriting_stages_def)
next
  case False
  then have "i = 3" using assms(2) by simp
  then show ?thesis
    using assms by (simp add: next_stage_def underwriting_stages_def wf_inv_def control_ok_def)
qed

lemma tier_decision_inv:
  assumes "safe w" "i < 3" "waits i w" "wf_state f \<noteq> Some StateAudited"
  shows "wf_inv (tier_decision acts app i esc now p d (f, w))"
proof -
  obtain r w' where q: "act_record acts app p d w = (r, w')" by fastforce
  note law = record_law [OF assms(1) q]
  have h: "holds i w'" using holds_mono law waits_holds [OF assms(3)] by blast
  show ?thesis
  proof (cases r)
    case (Inl e)
    then show ?thesis using q tier_failed_inv law assms(2,4) h by (simp add: tier_decision_def)
  next
    case (Inr s)
    have rec: "safe w'" "stage w' = Some s" "s = StateRejected \<or> s = stage_state (Suc i) \<and> passed (Suc i) w'"
      using record_at_stage [OF assms(1,3) _ q [unfolded Inr]] stage_table(2) [of i] assms(2) by auto
    have "s \<noteq> StateAudited"
      using rec(3) stage_not_audited [of "Suc i"] assms(2) by auto
    then have "wf_inv (next_stage acts app (Suc i) now (f', w'))"
      if "s \<noteq> StateRejected" "wf_state f' = Some s" for f'
      using next_stage_inv [of w' "Suc i" f'] rec that assms(2) by (simp add: waits_def)
    then show ?thesis
      using q Inr rec
      by (auto simp: tier_decision_def Let_def finish_def wf_inv_def control_ok_def add_entry_def)
  qed
qed

lemma tier_expired_inv:
  assumes "safe w" "i < 3" "waits i w" "wf_state f \<noteq> Some StateAudited"
  shows "wf_inv (tier_expired acts app i esc deadline now (f, w))"
proof -
  obtain r w' where q: "act_escalate acts app (stage_tier i) deadline w = (r, w')" by fastforce
  note law = escalate_law [OF assms(1) q]
  have "holds i w'" using holds_mono law waits_holds [OF assms(3)] by blast
  moreover have "waits i w'"
    using law assms(3) passed_mono assms(2) by (auto simp: waits_def)
  ultimately show ?thesis
    using q tier_failed_inv enter_tier_inv law assms(2,4) by (simp add: tier_expired_def split: sum.splits)
qed

lemma try_disburse_inv:
  assumes "safe w" "passed 5 w" "wf_state f \<noteq> Some StateAudited"
  shows "wf_inv (try_disburse acts app (f, w))"
proof -
  obtain r w' where q: "act_disburse acts app w = (r, w')" by fastforce
  note law = disburse_law [OF assms(1) q]
  have "passed 5 w'" using passed_mono law assms(2) by blast
  then show ?thesis
    using q law
    using assms(3)
    by (auto simp: try_disburse_def wf_inv_def control_ok_def waits_def stage_state_def split: sum.splits)
qed

lemma party_decision_inv:
  assumes "safe w" "j < 2" "waits (3 + j) w" "wf_state f \<noteq> Some StateAudited"
  shows "wf_inv (party_decision acts app j p d (f, w))"
proof -
  obtain r w' where q: "act_record acts app p d w = (r, w')" by fastforce
  note law = record_law [OF assms(1) q]
  have h: "holds (3 + j) w'" using holds_mono law waits_holds [OF assms(3)] by blast
  show ?thesis
  proof (cases r)
    case (Inl e)
    then show ?thesis
      using q park_inv [of w' "Resume_Party j"] law assms(2,4) h party_state [OF assms(2)]
      by (simp add: party_decision_def valid_point_def)
  next
    case (Inr s)
    have rec: "safe w'" "stage w' = Some s"
      "d = DecisionReject \<or> d = DecisionApprove \<and> s = stage_state (4 + j) \<and> passed (4 + j) w'"
      using record_at_stage [OF assms(1,3) _ q [unfolded Inr]] stage_table(2) [of "3 + j"] assms(2) by auto
    show ?thesis
    proof (cases "d = DecisionReject")
      case True
      then show ?thesis
        using q Inr rec by (simp add: party_decision_def Let_def finish_def wf_inv_def control_ok_def add_entry_def)
    next
      case False
      then have s: "s = stage_state (4 + j)" "passed (4 + j) w'" using rec by auto
      show ?thesis
      proof (cases "j = 0")
        case True
        then show ?thesis
          using q Inr False rec s stage_not_audited [of 4]
          by (simp add: party_decision_def Let_def party_stages_def wf_inv_def control_ok_def waits_def add_entry_def)
      next
        case last: False
        then have j: "j = 1" using assms(2) by simp
        have "s = StateDisbursementPending" "passed 5 w'" using s j by (simp_all add: stage_state_def)
        then show ?thesis
          using q Inr False rec j try_disburse_inv [of w']
          by (simp add: party_decision_def Let_def party_stages_def after_parties_def)
      qed
    qed
  qed
qed

lemma beneficiary_decision_inv:
  assumes "safe w" "waits 5 w" "wf_state f \<noteq> Some StateAudited"
  shows "wf_inv (beneficiary_decision acts app p d (f, w))"
proof -
  obtain r w' where q: "act_record acts app p d w = (r, w')" by fastforce
  note law = record_law [OF assms(1) q]
  have h: "holds 5 w'" using holds_mono law waits_holds [OF assms(2)] by blast
  show ?thesis
  proof (cases r)
    case (Inl e)
    then show ?thesis
      using q park_inv [of w' Resume_Beneficiary] law assms(3) h
      by (simp add: beneficiary_decision_def valid_point_def stage_state_def)
  next
    case (Inr s)
    have rec: "safe w'" "d = DecisionReject \<or> d = DecisionApprove \<and> s = StateDisbursed \<and> passed 6 w'"
      using record_at_stage [OF assms(1,2) _ q [unfolded Inr]] stage_last by auto
    obtain ar w2 where a: "act_audit acts app w' = (ar, w2)" by fastforce
    note alaw = audit_law [OF rec(1) a]
    have e: "holds 5 w2" "passed 6 w' \<Longrightarrow> passed 6 w2"
      using holds_mono passed_mono alaw h by blast+
    then show ?thesis
      using q Inr rec a alaw
      by (auto simp: beneficiary_decision_def Let_def finish_def wf_inv_def control_ok_def add_entry_def
          holds_def split: sum.splits)
  qed
qed

lemma resume_inv:
  assumes "safe w" "valid_point at" "waits (resume_index at) w" "wf_state f \<noteq> Some StateAudited"
  shows "wf_inv (resume acts app at now (f, w))"
  using assms enter_tier_inv
  by (cases at) (auto simp: resume_def valid_point_def wf_inv_def [of "(_, _)"] control_ok_def)

lemma resolve_parked_inv:
  assumes "safe w" "valid_point at" "target = stage_state (resume_index at)" "holds (resume_index at) w"
    and "wf_control f = Parked_At target at" "wf_state f \<noteq> Some StateAudited"
  shows "wf_inv (resolve_parked acts app target at now p rs (f, w))"
proof -
  obtain r w' where q: "act_resolve acts app p rs target w = (r, w')" by fastforce
  note law = resolve_law [OF assms(1) q]
  have h: "holds (resume_index at) w'" using holds_mono law assms(4) by blast
  show ?thesis
  proof (cases r)
    case (Inl e)
    then show ?thesis
      using q law h assms by (simp add: resolve_parked_def wf_inv_def control_ok_def)
  next
    case (Inr s)
    have "target \<noteq> StateAudited"
      using assms(2,3) stage_not_audited [of "resume_index at"]
      by (auto simp: valid_point_def split: resume_point.splits)
    then have "wf_inv (resume acts app at now (f', w'))"
      if "s \<noteq> StateRejected" "wf_state f' = Some s" for f'
      using resume_inv [of w' at f'] law Inr that assms(2,3) h by (simp add: waits_def holds_def)
    then show ?thesis
      using q Inr law by (auto simp: resolve_parked_def finish_def wf_inv_def control_ok_def)
  qed
qed

lemma resolve_disbursement_inv:
  assumes "safe w" "passed 5 w" "wf_state f \<noteq> Some StateAudited"
  shows "wf_inv (resolve_disbursement acts app p rs (f, w))"
proof -
  obtain r w' where q: "act_resolve acts app p rs StateDisbursementPending w = (r, w')" by fastforce
  note law = resolve_law [OF assms(1) q]
  have p5: "passed 5 w'" using passed_mono law assms(2) by blast
  show ?thesis
  proof (cases "r = Inr StateDisbursementPending")
    case True
    then show ?thesis
      using q law p5 try_disburse_inv [of w'] by (simp add: resolve_disbursement_def)
  next
    case False
    then show ?thesis
      using q law assms(3)
      by (auto simp: resolve_disbursement_def Let_def finish_def wf_inv_def control_ok_def split: sum.splits)
  qed
qed

lemma start_inv:
  assumes "safe w"
  shows "wf_inv (wf_start acts app now w)"
proof -
  obtain r w' where q: "act_begin acts app w = (r, w')" by fastforce
  note law = begin_law [OF assms q]
  show ?thesis
  proof (cases r)
    case (Inr s)
    then have "wf_inv (next_stage acts app 0 now (f, w'))" if "wf_state f = Some s" for f
      using next_stage_inv [of w' 0 f] law that by (simp add: waits_def stage_state_def passed_def)
    then show ?thesis
      using q Inr assms
      by (cases "app = []") (simp_all add: wf_start_def Let_def wf_inv_def [of "(_, w)"] control_ok_def)
  qed (use q law assms in \<open>auto simp: wf_start_def Let_def finish_def wf_inv_def control_ok_def\<close>)
qed

lemma step_inv:
  assumes inv: "wf_inv s" and run: "wf_step acts app now ev s = Some s'"
  shows "wf_inv s'"
proof -
  obtain f w where s: "s = (f, w)" by (rule prod.exhaust)
  have w: "safe w" "control_ok f w" using inv by (simp_all add: s wf_inv_def)
  show ?thesis
  proof (cases "wf_control f")
    case (Finished e)
    then show ?thesis using run by (simp add: s split: wf_event.splits)
  next
    case (Await_Tier i esc entered)
    then show ?thesis
      using run w inv tier_decision_inv [of w i f] tier_expired_inv [of w i f]
      by (auto simp: s control_ok_def wf_inv_def [of "(f, w)"] split: wf_event.splits if_splits sum.splits)
  next
    case (Await_Party j)
    then show ?thesis
      using run w inv party_decision_inv [of w j f]
      by (auto simp: s control_ok_def wf_inv_def [of "(f, w)"] split: wf_event.splits if_splits)
  next
    case Await_Beneficiary
    then show ?thesis
      using run w inv beneficiary_decision_inv [of w f]
      by (auto simp: s control_ok_def wf_inv_def [of "(f, w)"] split: wf_event.splits if_splits)
  next
    case (Parked_At target at)
    then show ?thesis
      using run w inv resolve_parked_inv [of w at target f]
      by (auto simp: s control_ok_def wf_inv_def [of "(f, w)"] split: wf_event.splits)
  next
    case Parked_Disbursement
    then show ?thesis
      using run w inv resolve_disbursement_inv [of w f]
      by (auto simp: s control_ok_def wf_inv_def [of "(f, w)"] split: wf_event.splits)
  qed
qed

lemma reach_inv: "wf_reach acts app w0 s \<Longrightarrow> safe w0 \<Longrightarrow> wf_inv s"
  by (induction rule: wf_reach.induct) (auto intro: start_inv step_inv)

text \<open>What the invariant says of an application whose money has moved.\<close>

lemma reach_disbursing:
  assumes "wf_reach acts app w0 (f, w)" and "safe w0"
    and "wf_control f = Await_Beneficiary \<or> wf_control f = Parked_Disbursement \<or> wf_state f = Some StateAudited"
  shows "safe w \<and> (\<forall>r \<in> set (take 5 chain_roles). approved w r) \<and>
    (wf_control f \<noteq> Parked_Disbursement \<longrightarrow> paid w) \<and>
    (wf_state f = Some StateAudited \<longrightarrow> approved w RoleBeneficiary \<and> stage w = Some StateAudited \<and> paid w)"
proof -
  have inv: "wf_inv (f, w)" using reach_inv assms(1,2) by blast
  have six: "set (take 6 chain_roles) = insert RoleBeneficiary (set (take 5 chain_roles))"
    by (auto simp: chain_roles_def)
  then show ?thesis
    using inv assms(3) by (auto simp: wf_inv_def control_ok_def waits_def passed_def)
qed

end

end
