(* ===== verification/Workflow_Plant.thy ===== *)
theory Workflow_Plant
  imports Workflow_Port Rail_Props
begin

text \<open>
  The production wiring of the workflow: the activities over the PostgreSQL store and the rail, under
  any delivery of their attempts, provide the workflow's port. The stored application of the
  workflow is moved by nobody else; everything else may happen in between.
\<close>

definition pg_application_store :: "'tb plant application_store" where
  "pg_application_store =
     \<lparr>as_get = (\<lambda>k. on_cvff (\<lambda>e d. (cvff_get e k d, d))),
      as_record_decision = (\<lambda>k v p dec. on_cvff (\<lambda>e. record_decision e k v p dec)),
      as_transition = (\<lambda>k v mv ty. on_cvff (\<lambda>e. cvff_transition e k v mv ty)),
      as_record_escalation = (\<lambda>k tr dl. on_cvff (\<lambda>e. record_escalation e k tr dl)),
      as_resolve_to = (\<lambda>k v p r t. on_cvff (\<lambda>e. store_resolve_reconciliation_to e k v p r t))\<rparr>"

definition plant_activities ::
  "hashing \<Rightarrow> 'tb service \<Rightarrow> (u128 \<Rightarrow> string) \<Rightarrow> rail_config \<Rightarrow> ('tb plant \<Rightarrow> bool list) \<Rightarrow> 'tb plant activities"
  where
  "plant_activities h sv txt c fate =
     delivered fate (projr (new_activities (Some pg_application_store)
       (Some (rail_disburse (plant_rail h sv txt c)))))"

section \<open>The environment\<close>

definition row_state :: "string \<Rightarrow> cvff_db \<Rightarrow> app_state option" where
  "row_state k d = map_option ap_state (sql_row (\<lambda>r. ap_id r = k) (apps d))"

definition wf_env :: "string \<Rightarrow> cvff_db env \<Rightarrow> bool" where
  "wf_env k e \<longleftrightarrow> worker_env e \<and>
     (\<forall>d. sql_row (\<lambda>r. ap_id r = k) (apps (env_other e d)) = sql_row (\<lambda>r. ap_id r = k) (apps d)) \<and>
     (\<forall>d. set (approvals d) \<subseteq> set (approvals (env_other e d)))"

lemma wf_envD:
  assumes "wf_env k e"
  shows "worker_env e" "cvff_env e" "leg_rows (env_other e d) = leg_rows d"
    "row_state k (env_other e d) = row_state k d"
    "sql_row (\<lambda>r. ap_id r = k) (apps (env_other e d)) = sql_row (\<lambda>r. ap_id r = k) (apps d)"
    "set (approvals d) \<subseteq> set (approvals (env_other e d))"
    "keeps_roles d (env_other e d)"
  using assms by (auto simp: wf_env_def worker_env_def row_state_def cvff_env_def)

text \<open>Evidence only grows.\<close>

definition db_grows :: "cvff_db \<Rightarrow> cvff_db \<Rightarrow> bool" where
  "db_grows d d' \<longleftrightarrow> set (approvals d) \<subseteq> set (approvals d') \<and> set (leg_rows d) \<subseteq> set (leg_rows d') \<and>
     keeps_roles d d'"

lemma db_grows_refl [simp]: "db_grows d d"
  by (simp add: db_grows_def keeps_roles_def)

lemma db_grows_trans: "db_grows a b \<Longrightarrow> db_grows b c \<Longrightarrow> db_grows a c"
  by (auto simp: db_grows_def keeps_roles_def)

lemma env_grows: "wf_env k e \<Longrightarrow> db_grows d (env_other e d)"
  using wf_envD [of k e] by (simp add: db_grows_def)

lemma tx_grows:
  assumes "wf_env k e" and "\<And>d a d'. body d = Inr (a, d') \<Longrightarrow> db_grows d d'"
  shows "db_grows d (snd (run_tx e b c mk body d))"
  by (rule run_tx_inv [where P = "db_grows d"])
    (auto intro: env_grows [OF assms(1)] db_grows_trans [OF env_grows [OF assms(1)]] assms(2))

lemma moved_grows: "moved d d' x p t vs \<Longrightarrow> leg_rows d' = leg_rows d \<Longrightarrow> db_grows d d'"
  by (auto simp: moved_def db_grows_def keeps_roles_def)

lemma transition_body_grows: "transition_body e cur upd v ty r p d = Inr (a, d') \<Longrightarrow> db_grows d d'"
  by (auto simp: transition_body_def and_then_Inr_iff db_grows_def keeps_roles_def elim!: update_app_Inr
      dest!: append_transition_Inr append_cvff_event_Inr)

lemma decision_body_grows: "decision_body e cur upd w v d = Inr (a, d') \<Longrightarrow> db_grows d d'"
  by (cases a) (auto simp: decision_body_def and_then_Inr_iff db_grows_def keeps_roles_def insert_approval_def
      stmt_Inr_iff Let_def elim!: update_app_Inr dest!: append_transition_Inr append_cvff_event_Inr
      split: if_splits)

lemma event_grows: "append_cvff_event e n app ty v c d = Inr d' \<Longrightarrow> db_grows d d'"
  by (auto simp: db_grows_def keeps_roles_def dest!: append_cvff_event_Inr)

lemma legs_event_grows:
  "insert_legs e l d = Inr d1 \<Longrightarrow> append_cvff_event e n app ty v c d1 = Inr d' \<Longrightarrow> db_grows d d'"
  by (auto simp: db_grows_def keeps_roles_def insert_legs_def stmt_Inr_iff dest!: append_cvff_event_Inr
      split: if_splits)

lemma transition_as_grows: "wf_env k' e \<Longrightarrow> db_grows d (snd (transition_as e k v mv ty r p d))"
  by (auto simp: transition_as_def split: sum.splits intro!: tx_grows dest: transition_body_grows)

lemma record_decision_grows: "wf_env k' e \<Longrightarrow> db_grows d (snd (record_decision e k v p dec d))"
  by (auto simp: record_decision_def commit_decision_def split: sum.splits
      intro!: tx_grows dest: decision_body_grows)

lemma resolve_grows: "wf_env k' e \<Longrightarrow> db_grows d (snd (store_resolve_reconciliation_to e k v p r t d))"
  by (auto simp: store_resolve_reconciliation_to_def resolve_as_def Let_def transition_as_grows split: sum.splits)

lemma escalation_grows: "wf_env k' e \<Longrightarrow> db_grows d (snd (record_escalation e k tr dl d))"
  by (auto simp: record_escalation_def and_then_Inr_iff split: sum.splits intro!: tx_grows dest: event_grows)

lemma legs_grows: "wf_env k' e \<Longrightarrow> db_grows d (snd (record_disbursement_legs e l d))"
  by (auto simp: record_disbursement_legs_def and_then_Inr_iff intro!: tx_grows dest: legs_event_grows)

section \<open>What the calls do to the row of the application\<close>

lemma row_state_get: "cvff_get e k d = Inr a \<Longrightarrow> row_state k d = Some (ap_state a)"
  by (auto simp: cvff_get_def stmt_Inr_iff row_state_def split: option.splits)

lemma moved_row_state:
  assumes ok: "cvff_db_ok d" and m: "moved d d' x p t vs"
  shows "row_state (ap_id x) d' = Some (fst p)"
proof -
  have dist: "distinct (map ap_id (apps d))" using ok by (simp add: cvff_db_ok_def app_ids_def)
  have a: "apps d' = sql_update (\<lambda>y. ap_id y = ap_id x \<and> ap_state y = ap_state x \<and> ap_version y = ap_version x)
      (patch_app p) (apps d)" and x: "x \<in> set (apps d)"
    using m by (simp_all add: moved_def)
  have "patch_app p x \<in> set (apps d')" using a x by (auto simp: set_sql_update)
  moreover have "distinct (map ap_id (apps d'))" using dist by (simp add: a)
  ultimately have "sql_row (\<lambda>r. ap_id r = ap_id (patch_app p x)) (apps d') = Some (patch_app p x)"
    by (rule sql_row_key [rotated])
  then show ?thesis by (simp add: row_state_def)
qed

definition decision_took ::
  "string \<Rightarrow> string \<Rightarrow> decision \<Rightarrow> app_state \<Rightarrow> app_state \<Rightarrow> role \<Rightarrow> cvff_db \<Rightarrow> bool" where
  "decision_took k p dec s0 s role d' \<longleftrightarrow>
     required_role s0 = Some role \<and> holds_role d' k role p \<and> row_state k d' = Some s \<and>
     (dec = DecisionReject \<and> s = StateRejected \<or>
      dec = DecisionApprove \<and> approved_successor s0 = Some s \<and>
        (\<exists>v \<in> set (approvals d'). av_app v = k \<and> av_role v = role \<and> av_decision v = DecisionApprove))"

lemma record_decision_effect:
  assumes ok: "cvff_db_ok d" and env: "wf_env k e" and run: "record_decision e k v p dec d = (r, d')"
  shows "(row_state k d' = row_state k d \<and> isl r) \<or>
    (\<exists>s0 s role. row_state k d = Some s0 \<and> decision_took k p dec s0 s role d' \<and>
       (\<forall>a w. r = Inr (a, w) \<longrightarrow> ap_state a = s))"
proof (cases "\<exists>cur m upd w. cvff_get e k d = Inr cur \<and> ap_version cur = v \<and>
    role_assignments e k d = Inr m \<and> apply_decision cur m p dec = Inr (upd, w)")
  case False
  then have "d' = d \<and> isl r"
    using run by (auto simp: record_decision_def split: sum.splits if_splits) (metis sum.disc(1))
  then show ?thesis by simp
next
  case True
  then obtain cur m upd w where c: "cvff_get e k d = Inr cur" "ap_version cur = v"
    "role_assignments e k d = Inr m" "apply_decision cur m p dec = Inr (upd, w)" by blast
  let ?body = "decision_body e cur upd w v"
  have eq: "run_tx e ''begin decision'' ''commit decision'' ErrCvffDatabase ?body d = (r, d')"
    using run c by (simp add: record_decision_def commit_decision_def)
  obtain role nxt where a: "required_role (ap_state cur) = Some role" "map_of m role = Some p"
    "upd = cur\<lparr>ap_state := nxt\<rparr>"
    "dec = DecisionReject \<and> nxt = StateRejected \<or> dec = DecisionApprove \<and> approved_successor (ap_state cur) = Some nxt"
    "w = \<lparr>av_id = [], av_app = ap_id cur, av_role = role, av_principal = p, av_decision = dec,
         av_from = ap_state cur, av_to = nxt, av_created = 0\<rparr>"
    using apply_decision_Inr [OF c(4)] by blast
  have id: "ap_id cur = k" using cvff_get_Inr [OF c(1)] by simp
  have "(role, p) \<in> set (assignments_of k d)"
    using a(2) c(3) by (auto simp: role_assignments_def stmt_Inr_iff dest!: map_of_SomeD split: if_splits)
  then have "holds_role d k role p" by (auto simp: assignments_of_def holds_role_def)
  then have h: "holds_role d' k role p"
    using holds_role_mono record_decision_grows [OF env, of d k v p dec] run
    by (auto simp: db_grows_def)
  have took: "decision_took k p dec (ap_state cur) nxt role d2 \<and> ap_state (fst b) = nxt"
    if b: "?body (env_other e d) = Inr (b, d2)" and h2: "holds_role d2 k role p" for b d2
  proof -
    obtain aa ww where bb: "b = (aa, ww)" by (rule prod.exhaust)
    obtain x t where m: "moved (env_other e d) d2 x (ap_state upd, env_now e) t [ww]"
      and x: "ap_id x = ap_id cur" "aa = patch_app (ap_state upd, env_now e) x"
      and ww: "ww = w\<lparr>av_id := env_uuid e 0, av_created := env_now e\<rparr>"
      by (rule decision_body_effect [OF b [unfolded bb]]) (use a in auto)
    have "row_state k d2 = Some nxt"
      using moved_row_state [OF cvff_envD(1) [OF wf_envD(2) [OF env] ok] m] x(1) id a(3) by simp
    moreover have "ww \<in> set (approvals d2)" using m by (simp add: moved_def)
    ultimately show ?thesis
      using a h2 ww x(2) id bb by (auto simp: decision_took_def intro!: bexI [of _ ww])
  qed
  consider "d' = env_other e d" "isl r" | b where "?body (env_other e d) = Inr (b, d')" "\<forall>x. r = Inr x \<longrightarrow> x = b"
    using eq by (auto simp: run_tx_def Let_def split: sum.splits if_splits fault.splits)
  then show ?thesis
  proof cases
    case 1
    then show ?thesis using wf_envD(4) [OF env] by simp
  next
    case 2
    then show ?thesis
      by (intro disjI2 exI [of _ "ap_state cur"] exI [of _ nxt] exI [of _ role])
        (use took [OF 2(1) h] row_state_get [OF c(1)] in force)
  qed
qed

text \<open>A principal whose role is not the one required can decide nothing.\<close>

lemma record_decision_refused:
  assumes ok: "cvff_db_ok d" and "holds_role d k role p" and "row_state k d = Some s"
    and "required_role s \<noteq> Some role"
  shows "isl (fst (record_decision e k v p dec d)) \<and> snd (record_decision e k v p dec d) = d"
proof -
  have "\<exists>err. apply_decision cur m p dec = Inl err"
    if c: "cvff_get e k d = Inr cur" "role_assignments e k d = Inr m" for cur m
  proof (rule ccontr)
    assume "\<nexists>err. apply_decision cur m p dec = Inl err"
    then obtain u w where "apply_decision cur m p dec = Inr (u, w)"
      by (cases "apply_decision cur m p dec") auto
    then obtain r' where r': "required_role (ap_state cur) = Some r'" "map_of m r' = Some p"
      using apply_decision_Inr by blast
    have "holds_role d k r' p"
      using r'(2) c(2)
      by (auto simp: role_assignments_def stmt_Inr_iff assignments_of_def holds_role_def
          dest!: map_of_SomeD split: if_splits)
    moreover have "roles_ok d" using ok by (simp add: cvff_db_ok_def)
    ultimately have "r' = role" using holds_role_inj assms(2) by blast
    moreover have "ap_state cur = s" using row_state_get [OF c(1)] assms(3) by simp
    ultimately show False using r'(1) assms(4) by simp
  qed
  then show ?thesis by (fastforce simp: record_decision_def split: sum.splits)
qed

lemma row_state_same: "apps d' = apps d \<Longrightarrow> row_state k d' = row_state k d"
  by (simp add: row_state_def)

lemma escalation_row:
  assumes env: "wf_env k e"
  shows "row_state k (snd (record_escalation e k' tr dl d)) = row_state k d"
proof -
  have "row_state k d' = row_state k d0" if "append_cvff_event e n a ty v c d0 = Inr d'" for n a ty v c d0 d'
    using append_cvff_event_Inr [OF that] by (auto simp: row_state_def)
  then show ?thesis
    by (auto simp: record_escalation_def and_then_Inr_iff wf_envD(4) [OF env] split: sum.splits
        intro!: run_tx_inv [where P = "\<lambda>d'. row_state k d' = row_state k d"])
qed

lemma legs_row_state:
  assumes env: "wf_env k e"
  shows "row_state k (snd (record_disbursement_legs e l d)) = row_state k d"
proof -
  have "row_state k d' = row_state k d0"
    if "insert_legs e l d0 = Inr d1" "append_cvff_event e n a ty v c d1 = Inr d'" for n a ty v c d0 d1 d'
    using that(1) append_cvff_event_Inr [OF that(2)]
    by (auto simp: row_state_def insert_legs_def stmt_Inr_iff split: if_splits)
  then show ?thesis
    by (auto simp: record_disbursement_legs_def and_then_Inr_iff wf_envD(4) [OF env]
        intro!: run_tx_inv [where P = "\<lambda>d'. row_state k d' = row_state k d"])
qed

section \<open>The plant\<close>

definition wf_safe ::
  "('tb \<Rightarrow> u128 \<Rightarrow> transfer option) \<Rightarrow> (u128 \<Rightarrow> string) \<Rightarrow> rail_config \<Rightarrow> string \<Rightarrow> 'tb plant \<Rightarrow> bool" where
  "wf_safe view txt c k p \<longleftrightarrow> plant_safe view txt c p \<and> (\<forall>n. wf_env k (w_sched (pt_cvff p) n))"

definition plant_stage :: "string \<Rightarrow> 'tb plant \<Rightarrow> app_state option" where
  "plant_stage k p = row_state k (w_db (pt_cvff p))"

definition plant_approved :: "string \<Rightarrow> 'tb plant \<Rightarrow> role \<Rightarrow> bool" where
  "plant_approved k p r \<longleftrightarrow>
     (\<exists>v \<in> set (approvals (w_db (pt_cvff p))). av_app v = k \<and> av_role v = r \<and> av_decision v = DecisionApprove)"

definition plant_paid :: "string \<Rightarrow> 'tb plant \<Rightarrow> bool" where
  "plant_paid k p \<longleftrightarrow> (\<exists>l. plant_leg p l \<and> lg_app l = k)"

abbreviation plant_keeps :: "string \<Rightarrow> 'tb plant \<Rightarrow> 'tb plant \<Rightarrow> bool" where
  "plant_keeps k \<equiv> keeps_evidence (plant_approved k) (plant_paid k)"

lemma grows_keeps: "db_grows (w_db (pt_cvff p)) (w_db (pt_cvff p')) \<Longrightarrow> plant_keeps k p p'"
  by (auto simp: db_grows_def keeps_evidence_def plant_approved_def plant_paid_def plant_leg_def)

text \<open>One store call on a safe plant.\<close>

lemma wf_call:
  assumes s: "wf_safe view txt c k p" and run: "on_cvff call p = (r, p')"
    and ok: "\<And>e d. wf_env k e \<Longrightarrow> cvff_db_ok d \<Longrightarrow> cvff_db_ok (snd (call e d)) \<and>
      leg_rows (snd (call e d)) = leg_rows d \<and> db_grows d (snd (call e d))"
  shows "wf_safe view txt c k p' \<and> plant_keeps k p p' \<and>
    (\<exists>e. wf_env k e \<and> cvff_db_ok (w_db (pt_cvff p)) \<and> call e (w_db (pt_cvff p)) = (r, w_db (pt_cvff p')))"
proof -
  let ?e = "w_sched (pt_cvff p) (w_tick (pt_cvff p))"
  obtain d where d: "call ?e (w_db (pt_cvff p)) = (r, d)" "w_db (pt_cvff p') = d"
    "w_sched (pt_cvff p') = w_sched (pt_cvff p)" "pt_tb p' = pt_tb p"
    using on_cvff_result [OF run] by blast
  have e: "wf_env k ?e" "cvff_db_ok (w_db (pt_cvff p))"
    using s by (auto simp: wf_safe_def plant_safe_def)
  note k = ok [OF e]
  have "wf_safe view txt c k p'"
    using s k d by (auto simp: wf_safe_def plant_safe_def plant_leg_def)
  moreover have "plant_keeps k p p'" by (rule grows_keeps) (use k d in simp)
  ultimately show ?thesis using e d by blast
qed

lemma read_wf: "wf_safe view txt c k p \<Longrightarrow> on_cvff (\<lambda>e d. (q e d, d)) p = (r, p') \<Longrightarrow>
    wf_safe view txt c k p' \<and> plant_keeps k p p' \<and> plant_stage k' p' = plant_stage k' p"
  using wf_call [of view "txt" c k p "\<lambda>e d. (q e d, d)" r p'] by (auto simp: plant_stage_def)

lemma transition_wf:
  assumes "wf_safe view txt c k p" and "on_cvff (\<lambda>e. cvff_transition e k v mv ty) p = (r, p')"
    and "plain mv" "move_event ty"
  shows "wf_safe view txt c k p' \<and> plant_keeps k p p' \<and>
    (\<forall>a. r = Inr a \<longrightarrow> plant_stage k p' = Some (ap_state a) \<and> (\<exists>cur. \<exists>upd. mv cur = Inr upd \<and> ap_state a = ap_state upd))"
proof -
  have "plant_safe view txt c p" using assms(1) by (simp add: wf_safe_def)
  from transition_stored_plant [OF this, of k v mv ty _ p'] assms(2)
  have "plant_stage k p' = Some (ap_state a) \<and> (\<exists>cur. \<exists>upd. mv cur = Inr upd \<and> ap_state a = ap_state upd)"
    if "r = Inr a" for a
    using that by (auto simp: plant_stage_def row_state_def plant_row_def)
  moreover have "cvff_db_ok (snd (cvff_transition e k v mv ty d)) \<and>
      leg_rows (snd (cvff_transition e k v mv ty d)) = leg_rows d \<and>
      db_grows d (snd (cvff_transition e k v mv ty d))" if "wf_env k e" "cvff_db_ok d" for e d
    using worker_transition_ok [OF wf_envD(1) [OF that(1)] that(2) assms(3,4)]
      transition_as_grows [OF that(1)] by (simp add: cvff_transition_def)
  ultimately show ?thesis using wf_call [OF assms(1,2)] by blast
qed

lemma decision_legs:
  assumes "wf_env k e"
  shows "leg_rows (snd (record_decision e k' v p dec d)) = leg_rows d"
proof -
  have "leg_rows d' = leg_rows d0" if "decision_body e cur upd w v d0 = Inr (a, d')" for cur upd w a d0 d'
    using that
    by (cases a) (auto simp: decision_body_def and_then_Inr_iff insert_approval_def stmt_Inr_iff Let_def
        elim!: update_app_Inr dest!: append_transition_Inr append_cvff_event_Inr split: if_splits)
  then show ?thesis
    using wf_envD(3) [OF assms]
    by (auto simp: record_decision_def commit_decision_def split: sum.splits
        intro!: run_tx_inv [where P = "\<lambda>d'. leg_rows d' = leg_rows d"])
qed

lemma decision_wf:
  assumes "wf_safe view txt c k p" and "on_cvff (\<lambda>e. record_decision e k v who dec) p = (r, p')"
  shows "wf_safe view txt c k p' \<and> plant_keeps k p p' \<and>
    (\<exists>e. wf_env k e \<and> cvff_db_ok (w_db (pt_cvff p)) \<and>
       record_decision e k v who dec (w_db (pt_cvff p)) = (r, w_db (pt_cvff p')))"
  by (rule wf_call [OF assms])
    (simp add: decision_ok wf_envD(2) decision_legs record_decision_grows)

lemma resolve_wf:
  assumes "wf_safe view txt c k p"
    and "on_cvff (\<lambda>e. store_resolve_reconciliation_to e k v who res t) p = (r, p')"
  shows "wf_safe view txt c k p' \<and> plant_keeps k p p' \<and>
    (\<forall>a. r = Inr a \<longrightarrow> plant_stage k p' = Some (ap_state a) \<and> (ap_state a = t \<or> ap_state a = StateRejected))"
proof -
  let ?call = "\<lambda>e. store_resolve_reconciliation_to e k v who res t"
  have "cvff_db_ok (snd (?call e d)) \<and> leg_rows (snd (?call e d)) = leg_rows d \<and> db_grows d (snd (?call e d))"
    if "wf_env k e" "cvff_db_ok d" for e d
    using that resolve_as_ok [of d e] resolve_grows [OF that(1)] wf_envD(2,3) [OF that(1)]
      transition_as_legs [of e]
    by (auto simp: store_resolve_reconciliation_to_def resolve_as_def Let_def split: sum.splits)
  from wf_call [OF assms this] obtain e where w: "wf_safe view txt c k p'" "plant_keeps k p p'"
    and e: "wf_env k e" "cvff_db_ok (w_db (pt_cvff p))" "?call e (w_db (pt_cvff p)) = (r, w_db (pt_cvff p'))"
    by blast
  have "plant_stage k p' = Some (ap_state a) \<and> (ap_state a = t \<or> ap_state a = StateRejected)"
    if "r = Inr a" for a
  proof -
    have "transition_as e k v (resolve_reconciliation_to res t) ''cvff.reconciliation_resolved''
        RoleReconciliationOfficer who (w_db (pt_cvff p)) = (Inr a, w_db (pt_cvff p'))"
      using e(3) that
      by (auto simp: store_resolve_reconciliation_to_def resolve_as_def Let_def split: sum.splits if_splits)
    from transition_as_stored [OF e(2) wf_envD(2) [OF e(1)] this]
    show ?thesis by (auto simp: plant_stage_def row_state_def resolve_to_Inr)
  qed
  then show ?thesis using w by blast
qed

lemma escalation_wf:
  assumes "wf_safe view txt c k p" and "on_cvff (\<lambda>e. record_escalation e k tr dl) p = (r, p')"
  shows "wf_safe view txt c k p' \<and> plant_keeps k p p' \<and> plant_stage k p' = plant_stage k p"
proof -
  have "leg_rows (snd (record_escalation e k tr dl d)) = leg_rows d" if "wf_env k e" for e d
    using wf_envD(3) [OF that]
    by (auto simp: record_escalation_def and_then_Inr_iff split: sum.splits dest!: append_cvff_event_Inr
        intro!: run_tx_inv [where P = "\<lambda>d'. leg_rows d' = leg_rows d"])
  then have "cvff_db_ok (snd (record_escalation e k tr dl d)) \<and>
      leg_rows (snd (record_escalation e k tr dl d)) = leg_rows d \<and>
      db_grows d (snd (record_escalation e k tr dl d))" if "wf_env k e" "cvff_db_ok d" for e d
    using that escalation_ok escalation_grows wf_envD(2) by blast
  from wf_call [OF assms this] show ?thesis
    using escalation_row by (metis plant_stage_def snd_conv)
qed

end
