(* ===== verification/Workflow_Runs.thy ===== *)
theory Workflow_Runs
  imports Workflow_Plant
begin

text \<open>
  The activities with all their attempts on the production plant meet the laws of the workflow's
  port, for every cluster under the TigerBeetle contract and every delivery of the attempts.
\<close>

section \<open>Attempts\<close>

lemma execute_rel:
  assumes step: "\<And>w r w'. S w \<Longrightarrow> act w = (r, w') \<Longrightarrow> S w' \<and> R w w' \<and> (\<forall>x. r = Inr x \<longrightarrow> G x w')"
    and trans: "\<And>a b c. R a b \<Longrightarrow> R b c \<Longrightarrow> R a c"
    and "S w" and "execute ls act w = (r, w')"
  shows "S w' \<and> R w w' \<and> (\<forall>x. r = Inr x \<longrightarrow> G x w')"
  using assms(3,4)
proof (induction ls arbitrary: w)
  case Nil
  then show ?case using step by simp
next
  case (Cons l ls)
  obtain r1 w1 where a: "act w = (r1, w1)" by (rule prod.exhaust)
  note one = step [OF Cons.prems(1) a]
  show ?case
  proof (cases "l \<or> retryable r1")
    case True
    then have "execute ls act w1 = (r, w')" using Cons.prems(2) a by simp
    then show ?thesis using Cons.IH [of w1] one trans by blast
  next
    case False
    then show ?thesis using Cons.prems(2) a one by simp
  qed
qed

lemma with_current_cases:
  assumes "with_current st app f w = (r, w')"
  obtains e where "as_get st app w = (Inl e, w')" "r = Inl (Attempt_Failed e)"
  | a w1 where "as_get st app w = (Inr a, w1)" "f a w1 = (r, w')"
proof -
  obtain g w1 where g: "as_get st app w = (g, w1)" by (rule prod.exhaust)
  show ?thesis using assms g that by (cases g) (auto simp: with_current_def)
qed

lemma state_of_iff:
  "state_of q = (Inr s, w') \<longleftrightarrow> (\<exists>a. q = (Inr a, w') \<and> s = ap_state a)"
  "snd (state_of q) = snd q"
  by (cases q; cases "fst q"; auto simp: state_of_def)+

lemma pg_application_store_simps [simp]:
  "as_get pg_application_store k = on_cvff (\<lambda>e d. (cvff_get e k d, d))"
  "as_record_decision pg_application_store k v who dec = on_cvff (\<lambda>e. record_decision e k v who dec)"
  "as_transition pg_application_store k v mv ty = on_cvff (\<lambda>e. cvff_transition e k v mv ty)"
  "as_record_escalation pg_application_store k tr dl = on_cvff (\<lambda>e. record_escalation e k tr dl)"
  "as_resolve_to pg_application_store k v who res t = on_cvff (\<lambda>e. store_resolve_reconciliation_to e k v who res t)"
  by (simp_all add: pg_application_store_def)

text \<open>A read followed by a transition.\<close>

lemma transition_attempt:
  assumes "wf_safe view txt c k p" and "plain mv" "move_event ty"
    and "with_current pg_application_store k (\<lambda>a w. state_of (as_transition pg_application_store k (ap_version a) mv ty w)) p
      = (r, p')"
  shows "wf_safe view txt c k p' \<and> plant_keeps k p p' \<and>
    (\<forall>s. r = Inr s \<longrightarrow> plant_stage k p' = Some s \<and> (\<exists>cur. \<exists>upd. mv cur = Inr upd \<and> s = ap_state upd))"
  using assms(4)
proof (cases rule: with_current_cases)
  case (1 e)
  then show ?thesis using read_wf [OF assms(1), of _ r p'] by (simp add: read_wf [OF assms(1)])
next
  case (2 a p1)
  have one: "wf_safe view txt c k p1" "plant_keeps k p p1"
    using read_wf [OF assms(1) 2(1) [simplified]] by simp_all
  obtain q where q: "on_cvff (\<lambda>e. cvff_transition e k (ap_version a) mv ty) p1 = (q, p')"
    using 2(2) state_of_iff(2) by (metis pg_application_store_simps(3) prod.collapse snd_conv)
  note two = transition_wf [OF one(1) q assms(2,3)]
  have "\<forall>s. r = Inr s \<longrightarrow> (\<exists>b. q = Inr b \<and> s = ap_state b)"
    using 2(2) q by (auto simp: state_of_iff(1))
  moreover have "plant_keeps k p p'"
    by (rule keeps_evidence_trans [OF one(2)]) (use two in blast)
  ultimately show ?thesis using two by metis
qed

lemma record_attempt:
  assumes "wf_safe view txt c k p" and "record_activity pg_application_store k who dec p = (r, p')"
  shows "wf_safe view txt c k p' \<and> plant_keeps k p p' \<and>
    ((plant_stage k p' = plant_stage k p \<and> isl r) \<or>
     (\<exists>s0 s role. plant_stage k p = Some s0 \<and> decision_took k who dec s0 s role (w_db (pt_cvff p')) \<and>
        (\<forall>x. r = Inr x \<longrightarrow> x = s)))"
  using assms(2) unfolding record_activity_def
proof (cases rule: with_current_cases)
  case (1 e)
  then show ?thesis using read_wf [OF assms(1) 1(1) [simplified]] by simp
next
  case (2 a p1)
  have one: "wf_safe view txt c k p1" "plant_keeps k p p1" "plant_stage k p1 = plant_stage k p"
    using read_wf [OF assms(1) 2(1) [simplified], of k] by simp_all
  obtain q where q: "on_cvff (\<lambda>e. record_decision e k (ap_version a) who dec) p1 = (q, p')"
    and r: "isl q \<longrightarrow> isl r" "\<forall>u v. q = Inr (u, v) \<longrightarrow> r = Inr (ap_state u)"
  proof -
    obtain q p2 where q: "on_cvff (\<lambda>e. record_decision e k (ap_version a) who dec) p1 = (q, p2)"
      by (rule prod.exhaust)
    then show ?thesis using 2(2) that by (cases q) (auto split: prod.splits)
  qed
  obtain e where two: "wf_safe view txt c k p'" "plant_keeps k p1 p'"
    and e: "wf_env k e" "cvff_db_ok (w_db (pt_cvff p1))"
      "record_decision e k (ap_version a) who dec (w_db (pt_cvff p1)) = (q, w_db (pt_cvff p'))"
    using decision_wf [OF one(1) q] by blast
  have k: "plant_keeps k p p'" by (rule keeps_evidence_trans [OF one(2) two(2)])
  from record_decision_effect [OF e(2,1,3)] show ?thesis
  proof
    assume "row_state k (w_db (pt_cvff p')) = row_state k (w_db (pt_cvff p1)) \<and> isl q"
    then show ?thesis using two(1) k one(3) r(1) by (simp add: plant_stage_def)
  next
    assume "\<exists>s0 s role. row_state k (w_db (pt_cvff p1)) = Some s0 \<and>
      decision_took k who dec s0 s role (w_db (pt_cvff p')) \<and> (\<forall>a w. q = Inr (a, w) \<longrightarrow> ap_state a = s)"
    then obtain s0 s role where t: "row_state k (w_db (pt_cvff p1)) = Some s0"
      "decision_took k who dec s0 s role (w_db (pt_cvff p'))" "\<forall>a w. q = Inr (a, w) \<longrightarrow> ap_state a = s"
      by blast
    have "\<forall>x. r = Inr x \<longrightarrow> x = s"
    proof (cases q)
      case (Inr b)
      then show ?thesis using r(2) t(3) by (cases b) auto
    qed (use r(1) in \<open>auto\<close>)
    then show ?thesis
      using two(1) k one(3) t(1,2)
      by (intro conjI disjI2 exI [of _ s0] exI [of _ s] exI [of _ role]) (simp_all add: plant_stage_def)
  qed
qed

lemma took_facts:
  "decision_took k who dec s0 s role (w_db (pt_cvff p)) \<Longrightarrow>
     required_role s0 = Some role \<and> plant_stage k p = Some s \<and>
     (dec = DecisionReject \<and> s = StateRejected \<or>
      dec = DecisionApprove \<and> approved_successor s0 = Some s \<and> plant_approved k p role)"
  by (auto simp: decision_took_def plant_stage_def plant_approved_def)

text \<open>After a decision has been taken, a further attempt with it changes nothing and fails.\<close>

definition spent :: "string \<Rightarrow> string \<Rightarrow> app_state \<Rightarrow> 'tb plant \<Rightarrow> bool" where
  "spent k who s p \<longleftrightarrow> plant_stage k p = Some s \<and>
     (\<exists>role. holds_role (w_db (pt_cvff p)) k role who \<and> required_role s \<noteq> Some role)"

lemma took_spent: "decision_took k who dec s0 s role (w_db (pt_cvff p)) \<Longrightarrow> spent k who s p"
  by (cases s0) (auto simp: spent_def decision_took_def plant_stage_def)

lemma spent_attempt:
  assumes "wf_safe view txt c k p" "spent k who s p"
    and "record_activity pg_application_store k who dec p = (r, p')"
  shows "wf_safe view txt c k p' \<and> plant_keeps k p p' \<and> spent k who s p' \<and> isl r"
  using assms(3) unfolding record_activity_def
proof (cases rule: with_current_cases)
  case (1 e)
  have "w_db (pt_cvff p') = w_db (pt_cvff p)"
    using on_cvff_result [OF 1(1) [simplified]] by (metis prod.inject)
  then show ?thesis
    using read_wf [OF assms(1) 1(1) [simplified]] assms(2) 1(2) by (simp add: spent_def plant_stage_def)
next
  case (2 a p1)
  have one: "wf_safe view txt c k p1" "plant_keeps k p p1"
    using read_wf [OF assms(1) 2(1) [simplified], of k] by simp_all
  have d1: "w_db (pt_cvff p1) = w_db (pt_cvff p)"
    using on_cvff_result [OF 2(1) [simplified]] by (metis prod.inject)
  obtain q p2 where q: "on_cvff (\<lambda>e. record_decision e k (ap_version a) who dec) p1 = (q, p2)"
    by (rule prod.exhaust)
  obtain e where two: "wf_safe view txt c k p2" "plant_keeps k p1 p2"
    and e: "wf_env k e" "cvff_db_ok (w_db (pt_cvff p1))"
      "record_decision e k (ap_version a) who dec (w_db (pt_cvff p1)) = (q, w_db (pt_cvff p2))"
    using decision_wf [OF one(1) q] by blast
  obtain role where role: "holds_role (w_db (pt_cvff p1)) k role who" "required_role s \<noteq> Some role"
    "row_state k (w_db (pt_cvff p1)) = Some s"
    using assms(2) by (auto simp: spent_def d1 plant_stage_def)
  have x: "isl q" "w_db (pt_cvff p2) = w_db (pt_cvff p)"
    using record_decision_refused [OF e(2) role(1,3,2), of e "ap_version a" dec] e(3) d1 by simp_all
  then obtain err where "q = Inl err" by (cases q) auto
  then have "p' = p2" "isl r" using 2(2) q by auto
  then show ?thesis
    using two x(2) keeps_evidence_trans [OF one(2)] assms(2) by (simp add: spent_def plant_stage_def)
qed

lemma spent_execute:
  assumes "wf_safe view txt c k p" "spent k who s p"
    and "execute ls (record_activity pg_application_store k who dec) p = (r, p')"
  shows "wf_safe view txt c k p' \<and> plant_keeps k p p' \<and> isl r"
  using assms
proof (induction ls arbitrary: p)
  case Nil
  then show ?case using spent_attempt [OF Nil(1,2), of dec r p'] by simp
next
  case (Cons l ls)
  obtain r1 p1 where a: "record_activity pg_application_store k who dec p = (r1, p1)" by (rule prod.exhaust)
  note one = spent_attempt [OF Cons.prems(1,2) a]
  show ?case
  proof (cases "l \<or> retryable r1")
    case True
    then have "execute ls (record_activity pg_application_store k who dec) p1 = (r, p')"
      using Cons.prems(3) a by simp
    from Cons.IH [OF _ _ this] one keeps_evidence_trans [of "plant_approved k" _ p p1 p']
    show ?thesis by simp
  next
    case False
    then show ?thesis using Cons.prems(3) a one by simp
  qed
qed

lemma record_execute:
  assumes "wf_safe view txt c k p" and "execute ls (record_activity pg_application_store k who dec) p = (r, p')"
  shows "wf_safe view txt c k p' \<and> plant_keeps k p p' \<and>
    (\<forall>x. r = Inr x \<longrightarrow> (\<exists>s0 role. plant_stage k p = Some s0 \<and>
       required_role s0 = Some role \<and> plant_stage k p' = Some x \<and>
       (dec = DecisionReject \<and> x = StateRejected \<or>
        dec = DecisionApprove \<and> approved_successor s0 = Some x \<and> plant_approved k p' role)))"
  using assms
proof (induction ls arbitrary: p)
  case Nil
  then have "record_activity pg_application_store k who dec p = (r, p')" by simp
  from record_attempt [OF Nil(1) this] show ?case using took_facts by fastforce
next
  case (Cons l ls)
  obtain r1 p1 where a: "record_activity pg_application_store k who dec p = (r1, p1)" by (rule prod.exhaust)
  note one = record_attempt [OF Cons.prems(1) a]
  show ?case
  proof (cases "l \<or> retryable r1")
    case False
    then have "r1 = r" "p1 = p'" using Cons.prems(2) a by auto
    then show ?thesis using one took_facts by fastforce
  next
    case True
    then have run: "execute ls (record_activity pg_application_store k who dec) p1 = (r, p')"
      using Cons.prems(2) a by simp
    show ?thesis
    proof (cases "plant_stage k p1 = plant_stage k p \<and> isl r1")
      case True
      then show ?thesis
        using Cons.IH [OF conjunct1 [OF one] run] one keeps_evidence_trans [of "plant_approved k" _ p p1 p'] by auto
    next
      case False
      then obtain s0 s role where "decision_took k who dec s0 s role (w_db (pt_cvff p1))" using one by blast
      from spent_execute [OF conjunct1 [OF one] took_spent [OF this] run] show ?thesis
        using one keeps_evidence_trans [of "plant_approved k" _ p p1 p'] by auto
    qed
  qed
qed

section \<open>The rail inside the workflow\<close>

text \<open>A predicate that every call of the rail keeps holds afterwards.\<close>

lemma fail_closed_frame:
  assumes "\<And>k v w. P w \<Longrightarrow> P (snd (ds_transition (rl_store rl) k v require_reconciliation ''cvff.reconciliation_required'' w))"
    and "P w"
  shows "P (snd (fail_closed rl a cause w))"
  using assms(1) [OF assms(2), of "ap_id a" "ap_version a"]
  by (auto simp: fail_closed_def split: prod.splits sum.splits)

lemma rail_frame:
  assumes get: "\<And>w. P w \<Longrightarrow> P (snd (ds_get (rl_store rl) k w))"
    and legs: "\<And>w. P w \<Longrightarrow> P (snd (ds_legs (rl_store rl) k w))"
    and now: "\<And>w. P w \<Longrightarrow> P (snd (rl_now rl w))"
    and rates: "\<And>d w. P w \<Longrightarrow> P (snd (rl_rates rl d w))"
    and pairs: "\<And>i w. P w \<Longrightarrow> P (snd (rl_pairs rl i w))"
    and keep_rec: "\<And>l w. P w \<Longrightarrow> P (snd (ds_record_legs (rl_store rl) l w))"
    and park: "\<And>k v w. P w \<Longrightarrow> P (snd (ds_transition (rl_store rl) k v require_reconciliation ''cvff.reconciliation_required'' w))"
    and "P w"
  shows "P (snd (rail_disburse rl k w))"
proof -
  have date: "P (snd (rail_date rl w))" if "P w" for w
  proof -
    obtain t1 w1 t2 w2 t3 w3 where r: "rl_now rl w = (t1, w1)" "rl_now rl w1 = (t2, w2)" "rl_now rl w2 = (t3, w3)"
      by (metis prod.exhaust)
    then show ?thesis using now [of w] now [of w1] now [of w2] that by (simp add: rail_date_def)
  qed
  have fail: "P (snd (fail_closed rl a cause w))" if "P w" for a cause w
    by (rule fail_closed_frame [of P]) (use park that in auto)
  have post: "P (snd (rail_post rl a inp w))" if "P w" for a inp w
  proof -
    obtain pr w1 where p: "rl_pairs rl inp w = (pr, w1)" by (rule prod.exhaust)
    have w1: "P w1" using pairs [OF that, of inp] p by simp
    then show ?thesis
      using p keep_rec [OF w1] fail [OF w1] fail
      by (auto simp: rail_post_def split: sum.splits prod.splits) (metis snd_conv)+
  qed
  have exec: "P (snd (rail_execute rl k a w))" if "P w" for a w
  proof -
    obtain d w1 where d: "rail_date rl w = (d, w1)" by (rule prod.exhaust)
    obtain rr w2 where r: "rl_rates rl d w1 = (rr, w2)" by (rule prod.exhaust)
    have "P w2" using date [OF that] rates [of w1 d] d r by simp
    then show ?thesis using d r fail post by (simp add: rail_execute_def split: sum.splits)
  qed
  obtain g w1 where g: "ds_get (rl_store rl) k w = (g, w1)" by (rule prod.exhaust)
  obtain lr w2 where l: "ds_legs (rl_store rl) k w1 = (lr, w2)" by (rule prod.exhaust)
  have "P w1" "P w2" using get [OF \<open>P w\<close>] legs [of w1] g l by simp_all
  then show ?thesis using g l exec by (simp add: rail_disburse_def split: sum.splits)
qed

text \<open>What a success of the rail passes through.\<close>

lemma rail_success:
  assumes run: "rail_disburse rl k w = (Inr (), w')"
    and legs: "\<And>w. Q w \<Longrightarrow> Q (snd (ds_legs (rl_store rl) k w))"
    and now: "\<And>w. Q w \<Longrightarrow> Q (snd (rl_now rl w))"
    and rates: "\<And>d w. Q w \<Longrightarrow> Q (snd (rl_rates rl d w))"
    and pairs: "\<And>i w. Q w \<Longrightarrow> Q (snd (rl_pairs rl i w))"
    and keep_rec: "\<And>l w. Q w \<Longrightarrow> Q (snd (ds_record_legs (rl_store rl) l w))"
    and get: "\<And>a w1. ds_get (rl_store rl) k w = (Inr a, w1) \<Longrightarrow> ap_state a = StateDisbursementPending \<Longrightarrow> Q w1"
  shows "Q w'"
proof -
  have no_fail: "fail_closed rl a cause v \<noteq> (Inr (), v')" for a cause v v'
    by (auto simp: fail_closed_def split: prod.splits sum.splits)
  obtain a w1 where g: "ds_get (rl_store rl) k w = (Inr a, w1)" "ap_state a = StateDisbursementPending"
    using run by (auto simp: rail_disburse_def split: prod.splits sum.splits if_splits)
  obtain lr w2 where l: "ds_legs (rl_store rl) k w1 = (lr, w2)" by (rule prod.exhaust)
  have q2: "Q w2" using legs [OF get [OF g]] l by simp
  obtain t1 v1 t2 v2 t3 v3 where c: "rl_now rl w2 = (t1, v1)" "rl_now rl v1 = (t2, v2)" "rl_now rl v2 = (t3, v3)"
    by (metis prod.exhaust)
  have q3: "Q v3" using now [OF q2] now [of v1] now [of v2] c by simp
  show ?thesis
  proof (cases lr)
    case (Inr x)
    then show ?thesis using run g l q2 by (simp add: rail_disburse_def)
  next
    case (Inl e)
    then have "rail_execute rl k a w2 = (Inr (), w')"
      using run g l by (simp add: rail_disburse_def split: if_splits)
    then obtain d rt am w4 where r: "rl_rates rl d v3 = (Inr rt, w4)"
      and p: "rail_post rl a (rail_pair_input (rl_config rl) k rt am) w4 = (Inr (), w')"
      using c by (auto simp: rail_execute_def rail_date_def no_fail split: prod.splits sum.splits)
    have q4: "Q w4" using rates [OF q3, of d] r by simp
    obtain lg w5 where q: "rl_pairs rl (rail_pair_input (rl_config rl) k rt am) w4 = (Inr lg, w5)"
      and u: "ds_record_legs (rl_store rl) (legs_row (rl_text rl) lg) w5 = (Inr (), w')"
      using p by (auto simp: rail_post_def no_fail split: prod.splits sum.splits)
    show ?thesis
      using keep_rec [OF pairs [OF q4], of "legs_row (rl_text rl) lg" "rail_pair_input (rl_config rl) k rt am"] q u
      by simp
  qed
qed

definition framed :: "string \<Rightarrow> cvff_db \<Rightarrow> 'tb plant \<Rightarrow> bool" where
  "framed k d0 p \<longleftrightarrow> cvff_db_ok (w_db (pt_cvff p)) \<and> (\<forall>n. wf_env k (w_sched (pt_cvff p) n)) \<and>
     db_grows d0 (w_db (pt_cvff p))"

lemma framed_call:
  assumes "framed k d0 p"
    and "\<And>e d. wf_env k e \<Longrightarrow> cvff_db_ok d \<Longrightarrow> cvff_db_ok (snd (call e d)) \<and> db_grows d (snd (call e d))"
  shows "framed k d0 (snd (on_cvff call p))"
proof -
  obtain r p' where run: "on_cvff call p = (r, p')" by (rule prod.exhaust)
  obtain d where d: "call (w_sched (pt_cvff p) (w_tick (pt_cvff p))) (w_db (pt_cvff p)) = (r, d)"
    "w_db (pt_cvff p') = d" "w_sched (pt_cvff p') = w_sched (pt_cvff p)"
    using on_cvff_result [OF run] by blast
  have "cvff_db_ok d \<and> db_grows (w_db (pt_cvff p)) d"
    using assms(2) [of "w_sched (pt_cvff p) (w_tick (pt_cvff p))" "w_db (pt_cvff p)"] assms(1) d(1)
    by (simp add: framed_def)
  then show ?thesis
    using assms(1) run d db_grows_trans by (auto simp: framed_def)
qed

definition pending :: "string \<Rightarrow> 'tb plant \<Rightarrow> bool" where
  "pending k p \<longleftrightarrow> (\<forall>n. wf_env k (w_sched (pt_cvff p) n)) \<and> plant_stage k p = Some StateDisbursementPending"

lemma pending_call:
  assumes "pending k p" and "\<And>e d. wf_env k e \<Longrightarrow> row_state k (snd (call e d)) = row_state k d"
  shows "pending k (snd (on_cvff call p))"
proof -
  obtain r p' where run: "on_cvff call p = (r, p')" by (rule prod.exhaust)
  obtain d where d: "call (w_sched (pt_cvff p) (w_tick (pt_cvff p))) (w_db (pt_cvff p)) = (r, d)"
    "w_db (pt_cvff p') = d" "w_sched (pt_cvff p') = w_sched (pt_cvff p)"
    using on_cvff_result [OF run] by blast
  then show ?thesis
    using assms(2) [of "w_sched (pt_cvff p) (w_tick (pt_cvff p))" "w_db (pt_cvff p)"] assms(1) run
    by (simp add: pending_def plant_stage_def)
qed

lemma other_calls [simp]:
  "pt_cvff (snd (plant_now p)) = pt_cvff p" "pt_cvff (snd (pg_rates date p)) = pt_cvff p"
  "pt_cvff (snd (tb_pairs h sv inp p)) = pt_cvff p"
  by (simp_all add: plant_now_def pg_rates_def tb_pairs_def split: prod.splits)

lemma other_calls_keep [simp]:
  "framed k d0 (snd (plant_now p)) = framed k d0 p" "framed k d0 (snd (pg_rates date p)) = framed k d0 p"
  "framed k d0 (snd (tb_pairs h sv inp p)) = framed k d0 p"
  "pending k (snd (plant_now p)) = pending k p" "pending k (snd (pg_rates date p)) = pending k p"
  "pending k (snd (tb_pairs h sv inp p)) = pending k p"
  by (simp_all add: framed_def pending_def plant_stage_def)

lemma reads_keep:
  "framed k d0 p \<Longrightarrow> framed k d0 (snd (on_cvff (\<lambda>e d. (q e d, d)) p))"
  "pending k p \<Longrightarrow> pending k (snd (on_cvff (\<lambda>e d. (q e d, d)) p))"
  by (erule framed_call pending_call; simp)+

lemma framed_rail:
  assumes "framed k d0 p"
  shows "framed k d0 (snd (rail_disburse (plant_rail h sv txt c) k p))"
proof (rule rail_frame [where P = "framed k d0"])
  fix k' v and w :: "'a plant" assume w: "framed k d0 w"
  show "framed k d0 (snd (ds_transition (rl_store (plant_rail h sv txt c)) k' v require_reconciliation
      ''cvff.reconciliation_required'' w))"
    unfolding plant_rail_simps pg_disbursement_store_simps
    by (rule framed_call [OF w]) (simp add: cvff_transition_def transition_as_ok transition_as_grows wf_envD(2))
next
  fix l and w :: "'a plant" assume w: "framed k d0 w"
  show "framed k d0 (snd (ds_record_legs (rl_store (plant_rail h sv txt c)) l w))"
    unfolding plant_rail_simps pg_disbursement_store_simps
    by (rule framed_call [OF w]) (simp add: legs_ok legs_grows wf_envD(2))
qed (simp_all add: assms reads_keep)

lemma pending_rail:
  assumes env: "wf_safe view txt c k p" and run: "rail_disburse (plant_rail h sv txt c) k p = (Inr (), p')"
  shows "pending k p'"
proof (rule rail_success [OF run])
  fix a p1
  assume g: "ds_get (rl_store (plant_rail h sv txt c)) k p = (Inr a, p1)" "ap_state a = StateDisbursementPending"
  obtain e d where d: "cvff_get e k d = Inr a" "w_db (pt_cvff p1) = d" "w_sched (pt_cvff p1) = w_sched (pt_cvff p)"
    using on_cvff_result [OF g(1) [simplified]] by (metis prod.inject)
  show "pending k p1"
    using row_state_get [OF d(1)] d env g(2) by (simp add: pending_def plant_stage_def wf_safe_def)
next
  fix l and w :: "'a plant" assume "pending k w"
  then show "pending k (snd (ds_record_legs (rl_store (plant_rail h sv txt c)) l w))"
    unfolding plant_rail_simps pg_disbursement_store_simps
    by (rule pending_call) (rule legs_row_state)
qed (simp_all add: reads_keep)

lemma disburse_attempt:
  assumes contract: "tb_contract (sv_client sv) view" and s: "wf_safe view txt c k p"
    and run: "rail_disburse (plant_rail h sv txt c) k p = (r, p')"
  shows "wf_safe view txt c k p' \<and> plant_keeps k p p' \<and>
    (r = Inr () \<longrightarrow> plant_stage k p' = Some StateDisbursementPending \<and> plant_paid k p')"
proof -
  have "framed k (w_db (pt_cvff p)) p" using s by (simp add: framed_def wf_safe_def plant_safe_def)
  from framed_rail [OF this, of h sv "txt" c] run
  have fr: "framed k (w_db (pt_cvff p)) p'" by simp
  have res: "plant_safe view txt c p' \<and> (r = Inr () \<longrightarrow> plant_paid k p')"
    using tb_cluster.rail_results [OF tb_cluster.intro [OF contract] _ run] s
    by (auto simp: wf_safe_def plant_paid_def)
  have "wf_safe view txt c k p'" using res fr by (simp add: wf_safe_def framed_def)
  moreover have "plant_keeps k p p'" by (rule grows_keeps) (use fr in \<open>simp add: framed_def\<close>)
  moreover have "plant_stage k p' = Some StateDisbursementPending" if "r = Inr ()"
    using pending_rail [OF s] run that by (simp add: pending_def)
  ultimately show ?thesis using res by blast
qed

section \<open>The port\<close>

lemma plant_activities_simps:
  "act_begin (plant_activities h sv txt c fate) k w = execute (fate w) (begin_activity pg_application_store k) w"
  "act_record (plant_activities h sv txt c fate) k who d w = execute (fate w) (record_activity pg_application_store k who d) w"
  "act_escalate (plant_activities h sv txt c fate) k tr dl w =
     execute (fate w) (\<lambda>w. map_err Attempt_Failed (on_cvff (\<lambda>e. record_escalation e k tr dl) w)) w"
  "act_require (plant_activities h sv txt c fate) k w = execute (fate w) (require_activity pg_application_store k) w"
  "act_disburse (plant_activities h sv txt c fate) k w =
     execute (fate w) (\<lambda>w. map_err Disbursement_Failed_Closed (rail_disburse (plant_rail h sv txt c) k w)) w"
  "act_resolve (plant_activities h sv txt c fate) k who res t w =
     execute (fate w) (resolve_activity pg_application_store k who res t) w"
  "act_audit (plant_activities h sv txt c fate) k w = execute (fate w) (audit_activity pg_application_store k) w"
  by (simp_all add: plant_activities_def new_activities_def delivered_def)

lemma resolve_attempt:
  assumes "wf_safe view txt c k p" and "resolve_activity pg_application_store k who res t p = (r, p')"
  shows "wf_safe view txt c k p' \<and> plant_keeps k p p' \<and>
    (\<forall>s. r = Inr s \<longrightarrow> plant_stage k p' = Some s \<and> (s = t \<or> s = StateRejected))"
  using assms(2) unfolding resolve_activity_def
proof (cases rule: with_current_cases)
  case (1 e)
  then show ?thesis using read_wf [OF assms(1) 1(1) [simplified]] by simp
next
  case (2 a p1)
  have one: "wf_safe view txt c k p1" "plant_keeps k p p1"
    using read_wf [OF assms(1) 2(1) [simplified]] by simp_all
  obtain q where q: "on_cvff (\<lambda>e. store_resolve_reconciliation_to e k (ap_version a) who res t) p1 = (q, p')"
    using 2(2) state_of_iff(2) by (metis pg_application_store_simps(5) prod.collapse snd_conv)
  note two = resolve_wf [OF one(1) q]
  have "\<forall>s. r = Inr s \<longrightarrow> (\<exists>b. q = Inr b \<and> s = ap_state b)"
    using 2(2) q by (auto simp: state_of_iff(1))
  moreover have "plant_keeps k p p'"
    by (rule keeps_evidence_trans [OF one(2)]) (use two in blast)
  ultimately show ?thesis using two by metis
qed

lemma audit_attempt:
  assumes "wf_safe view txt c k p" and run: "audit_activity pg_application_store k p = (r, p')"
  shows "wf_safe view txt c k p' \<and> plant_keeps k p p' \<and>
    (r = Inr () \<longrightarrow> plant_stage k p' = Some StateAudited)"
proof -
  obtain q where q: "with_current pg_application_store k (\<lambda>a w. state_of (as_transition pg_application_store k
      (ap_version a) mark_audited ''cvff.audited'' w)) p = (q, p')" and r: "r = Inr () \<longrightarrow> q = Inr StateAudited"
  proof -
    obtain g p1 where g: "on_cvff (\<lambda>e d. (cvff_get e k d, d)) p = (g, p1)" by (rule prod.exhaust)
    show ?thesis
    proof (cases g)
      case (Inl e)
      then show ?thesis
        using g run that [of "Inl (Attempt_Failed e)"] by (auto simp: audit_activity_def with_current_def)
    next
      case (Inr a)
      obtain q p2 where q: "state_of (on_cvff (\<lambda>e. cvff_transition e k (ap_version a) mark_audited ''cvff.audited'') p1) = (q, p2)"
        by (rule prod.exhaust)
      then show ?thesis
        using g run that Inr by (cases q) (auto simp: audit_activity_def with_current_def split: if_splits)
    qed
  qed
  from transition_attempt [OF assms(1) plain_moves(2) move_events(2) q] r show ?thesis by blast
qed

end
