(* ===== verification/Workflow_Refusals.thy ===== *)
theory Workflow_Refusals
  imports Workflow_Runs
begin

text \<open>
  What a refused attempt leaves behind: nothing. A party cannot resolve a reconciliation, an
  application that has begun cannot begin again, and a transition leaves its row where it was or at
  the state of the move, whatever of it the caller sees.
\<close>

section \<open>Attempts that are refused\<close>

text \<open>When every attempt fails and keeps what \<open>S\<close> says, so does the activity.\<close>

lemma execute_refused:
  assumes "\<And>w. S w \<Longrightarrow> S (snd (act w)) \<and> isl (fst (act w))" and "S w"
  shows "S (snd (execute ls act w)) \<and> isl (fst (execute ls act w))"
  using assms(2)
proof (induction ls arbitrary: w)
  case (Cons l ls)
  show ?case using assms(1) [OF Cons.prems] Cons.IH by (auto split: prod.split)
qed (simp add: assms(1))

definition stands :: "string \<Rightarrow> (cvff_db \<Rightarrow> bool) \<Rightarrow> app_state \<Rightarrow> 'tb plant \<Rightarrow> bool" where
  "stands k Q s p \<longleftrightarrow> (\<forall>n. wf_env k (w_sched (pt_cvff p) n)) \<and> Q (w_db (pt_cvff p)) \<and> plant_stage k p = Some s"

lemma execute_stands:
  assumes "\<And>w. stands k Q s w \<Longrightarrow> stands k Q s (snd (act w)) \<and> isl (fst (act w))" and "stands k Q s w"
  shows "\<exists>e w'. execute ls act w = (Inl e, w') \<and> plant_stage k w' = Some s"
proof -
  obtain r w' where run: "execute ls act w = (r, w')" by (rule prod.exhaust)
  then have "stands k Q s w'" "isl r"
    using execute_refused [where S = "stands k Q s" and act = act, OF assms] by (metis fst_conv snd_conv)+
  then show ?thesis using run by (cases r) (auto simp: stands_def)
qed

lemma stands_call:
  assumes s: "stands k Q s q" and run: "on_cvff c q = (g, q')"
    and call: "\<And>e d. wf_env k e \<Longrightarrow> Q d \<Longrightarrow> row_state k d = Some s \<Longrightarrow> snd (c e d) = d"
  shows "stands k Q s q'"
proof -
  let ?e = "w_sched (pt_cvff q) (w_tick (pt_cvff q))"
  obtain d where d: "c ?e (w_db (pt_cvff q)) = (g, d)" "w_db (pt_cvff q') = d"
    "w_sched (pt_cvff q') = w_sched (pt_cvff q)"
    using on_cvff_result [OF run] by blast
  have "snd (c ?e (w_db (pt_cvff q))) = w_db (pt_cvff q)"
    by (rule call) (use s in \<open>simp_all add: stands_def plant_stage_def\<close>)
  then show ?thesis using s d by (simp add: stands_def plant_stage_def)
qed

text \<open>An attempt that reads the application and then calls the store, which refuses.\<close>

lemma refused_call:
  assumes s: "stands k Q s p"
    and call: "\<And>e v d. wf_env k e \<Longrightarrow> Q d \<Longrightarrow> row_state k d = Some s \<Longrightarrow>
      snd (call v e d) = d \<and> isl (fst (call v e d))"
  shows "stands k Q s (snd (with_current pg_application_store k (\<lambda>a w. state_of (on_cvff (call (ap_version a)) w)) p)) \<and>
    isl (fst (with_current pg_application_store k (\<lambda>a w. state_of (on_cvff (call (ap_version a)) w)) p))"
proof -
  obtain r p' where run: "with_current pg_application_store k (\<lambda>a w. state_of (on_cvff (call (ap_version a)) w)) p = (r, p')"
    by (rule prod.exhaust)
  show ?thesis
    using run
  proof (cases rule: with_current_cases)
    case (1 e)
    then show ?thesis using run stands_call [OF s 1(1) [simplified]] by simp
  next
    case (2 a p1)
    have p1: "stands k Q s p1" using stands_call [OF s 2(1) [simplified]] by simp
    obtain g p2 where g: "on_cvff (call (ap_version a)) p1 = (g, p2)" by (rule prod.exhaust)
    have "stands k Q s p2" by (rule stands_call [OF p1 g]) (simp add: call)
    moreover have "isl g"
    proof -
      obtain d where "call (ap_version a) (w_sched (pt_cvff p1) (w_tick (pt_cvff p1))) (w_db (pt_cvff p1)) = (g, d)"
        by (rule on_cvff_result [OF g])
      moreover have "isl (fst (call (ap_version a) (w_sched (pt_cvff p1) (w_tick (pt_cvff p1))) (w_db (pt_cvff p1))))"
        using call p1 unfolding stands_def plant_stage_def by blast
      ultimately show ?thesis by simp
    qed
    ultimately show ?thesis using run 2(2) g by (cases g) (auto simp: state_of_def)
  qed
qed

lemma party_cannot_resolve:
  assumes "holds_role d k role who"
  shows "snd (store_resolve_reconciliation_to e k v who res t d) = d \<and>
    isl (fst (store_resolve_reconciliation_to e k v who res t d))"
proof -
  have "role_assignments e k d = Inl err \<Longrightarrow> err \<noteq> ErrNotFound" for err
    using assms
    by (auto simp: role_assignments_def stmt_def assignments_of_def holds_role_def filter_empty_conv
        split: if_splits)
  moreover have "role_assignments e k d = Inr m \<Longrightarrow> who \<in> set (map snd m)" for m
    using assms by (auto simp: role_assignments_def stmt_Inr_iff assignments_of_def holds_role_def image_iff split: if_splits)
  ultimately show ?thesis
    by (auto simp: store_resolve_reconciliation_to_def resolve_as_def Let_def split: sum.splits)
qed

lemma begun_cannot_begin:
  assumes "row_state k d = Some s" "s \<noteq> StateSubmitted"
  shows "snd (cvff_transition e k v begin_underwriting ty d) = d \<and>
    isl (fst (cvff_transition e k v begin_underwriting ty d))"
proof -
  have "\<exists>err. begin_underwriting a = Inl err" if "cvff_get e k d = Inr a" for a
    using row_state_get [OF that] assms by (auto simp: begin_underwriting_def)
  then show ?thesis by (fastforce simp: cvff_transition_def transition_as_def split: sum.splits)
qed

text \<open>A transition may take effect without the caller learning of it.\<close>

lemma transition_row:
  assumes ok: "cvff_db_ok d" and env: "wf_env k e" and ty: "move_event ty"
    and run: "cvff_transition e k v mv ty d = (r, d')"
  shows "row_state k d' = row_state k d \<or>
    (\<exists>cur upd. mv cur = Inr upd \<and> row_state k d' = Some (ap_state upd))"
proof (cases "\<exists>cur upd. cvff_get e k d = Inr cur \<and> ap_version cur = v \<and> mv cur = Inr upd")
  case False
  then have "d' = d"
    using run by (auto simp: cvff_transition_def transition_as_def split: sum.splits if_splits)
  then show ?thesis by simp
next
  case True
  then obtain cur upd where c: "cvff_get e k d = Inr cur" "ap_version cur = v" "mv cur = Inr upd" by blast
  have id: "ap_id cur = k" using cvff_get_Inr [OF c(1)] by simp
  obtain ro q where eq: "run_tx e ''begin transition'' ''commit transition'' ErrCvffDatabase
      (transition_body e cur upd v ty ro q) d = (r, d')"
    using run c by (simp add: cvff_transition_def transition_as_def)
  then consider "d' = env_other e d" | b where "transition_body e cur upd v ty ro q (env_other e d) = Inr (b, d')"
    using run_tx_result [of e "''begin transition''" "''commit transition''" ErrCvffDatabase
        "transition_body e cur upd v ty ro q" d] by (metis snd_conv)
  then show ?thesis
  proof cases
    case 1
    then show ?thesis using wf_envD(4) [OF env] by simp
  next
    case 2
    have "ty \<noteq> ''cvff.roles_assigned''" using ty by (auto simp: move_event_def)
    then obtain x t where "moved (env_other e d) d' x (ap_state upd, env_now e) t []" "ap_id x = ap_id cur"
      by (rule transition_body_effect [OF 2])
    from moved_row_state [OF cvff_envD(1) [OF wf_envD(2) [OF env] ok] this(1)] this(2)
    show ?thesis using id c(3) by auto
  qed
qed

lemma require_execute:
  assumes "wf_safe view txt c k p"
    and "execute ls (require_activity pg_application_store k) p = (r, p')"
  shows "plant_stage k p' = plant_stage k p \<or> plant_stage k p' = Some StateReconciliationRequired"
proof -
  let ?R = "\<lambda>p p'. plant_stage k p' = plant_stage k p \<or> plant_stage k p' = Some StateReconciliationRequired"
  have "wf_safe view txt c k p' \<and> ?R p p' \<and> (\<forall>x. r = Inr x \<longrightarrow> True)"
  proof (rule execute_rel [where S = "wf_safe view txt c k" and R = ?R, OF _ _ assms])
    fix w r w' assume w: "wf_safe view txt c k w" "require_activity pg_application_store k w = (r, w')"
    have "?R w w'"
      using w(2) unfolding require_activity_def
    proof (cases rule: with_current_cases)
      case (1 e)
      then show ?thesis using read_wf [OF w(1) 1(1) [simplified]] by simp
    next
      case (2 a p1)
      have p1: "wf_safe view txt c k p1" "plant_stage k p1 = plant_stage k w"
        using read_wf [OF w(1) 2(1) [simplified]] by simp_all
      let ?call = "\<lambda>e. cvff_transition e k (ap_version a) require_reconciliation ''cvff.reconciliation_required''"
      obtain q where q: "on_cvff ?call p1 = (q, w')"
        using 2(2) state_of_iff(2) by (metis pg_application_store_simps(3) prod.collapse snd_conv)
      let ?e = "w_sched (pt_cvff p1) (w_tick (pt_cvff p1))"
      have "wf_env k ?e" "cvff_db_ok (w_db (pt_cvff p1))"
        using p1(1) by (auto simp: wf_safe_def plant_safe_def)
      moreover have "?call ?e (w_db (pt_cvff p1)) = (q, w_db (pt_cvff w'))"
        using on_cvff_result [OF q] by blast
      ultimately show ?thesis
        using transition_row [OF _ _ move_events(3)] p1(2)
        by (fastforce simp: plant_stage_def require_reconciliation_Inr)
    qed
    moreover have "wf_safe view txt c k w'"
      using transition_attempt [OF w(1) plain_moves(3) move_events(3) w(2) [unfolded require_activity_def]] by blast
    ultimately show "wf_safe view txt c k w' \<and> ?R w w' \<and> (\<forall>x. r = Inr x \<longrightarrow> True)" by blast
  qed auto
  then show ?thesis by blast
qed

end
