(* ===== verification/Workflow_Demo.thy ===== *)
theory Workflow_Demo
  imports Workflow_Runs
begin

text \<open>
  One run of the workflow on the simulated cluster: six approvals, the disbursement and the audit,
  with every activity's outcome computed. It is the concrete input of the workflow's properties.
\<close>

definition demo_submitted :: cvff_db where
  "demo_submitted = run_cvff_calls 1 [Submit demo_application demo_parties] (empty_cvff_db [''r1''])"

definition demo_acts :: "sim plant activities" where
  "demo_acts = plant_activities demo_hashing sim_service demo_text demo_config (\<lambda>_. [])"

lemma demo_wf_env [simp]: "wf_env k (cvff_demo_env n)"
  by (simp add: wf_env_def worker_env_def) (simp add: cvff_demo_env_def)

lemma demo_wf_safe:
  assumes "leg_rows (run_cvff_calls 1 cs (empty_cvff_db rs)) = []"
  shows "wf_safe view txt c k (demo_plant (run_cvff_calls 1 cs (empty_cvff_db rs)) f)"
proof -
  have "cvff_db_ok (run_cvff_calls 1 cs (empty_cvff_db rs))"
    by (rule cvff_reach_ok [OF run_cvff_calls_reach [OF cvff_reach.start]])
  then show ?thesis
    using assms by (simp add: wf_safe_def plant_safe_def plant_leg_def demo_plant_def worker_env_def)
      (simp add: cvff_demo_env_def)
qed

lemma demo_submitted_safe: "wf_safe view txt c k (demo_plant demo_submitted f)"
  unfolding demo_submitted_def by (rule demo_wf_safe) code_simp

type_synonym demo_log = "(activity_error + app_state) list"

definition demo_begun :: "(activity_error + app_state) \<times> sim plant" where
  "demo_begun = begin_activity pg_application_store ''app-1'' (demo_plant demo_submitted demo_fx)"

definition demo_noted :: "demo_log \<Rightarrow> (activity_error + app_state) \<times> sim plant \<Rightarrow> demo_log \<times> sim plant" where
  "demo_noted rs q = (rs @ [fst q], snd q)"

fun demo_decide :: "string list \<Rightarrow> demo_log \<times> sim plant \<Rightarrow> demo_log \<times> sim plant" where
  "demo_decide [] s = s"
| "demo_decide (x # xs) (rs, p) =
     demo_decide xs (demo_noted rs (record_activity pg_application_store ''app-1'' x DecisionApprove p))"

fun demo_paid :: "demo_log \<times> sim plant \<Rightarrow> demo_log \<times> (rail_error + unit) \<times> sim plant" where
  "demo_paid (rs, p) = (rs, rail_disburse demo_rail ''app-1'' p)"

fun demo_confirmed :: "demo_log \<times> (rail_error + unit) \<times> sim plant \<Rightarrow> (rail_error + unit) \<times> demo_log \<times> sim plant" where
  "demo_confirmed (rs, r, p) = (r, demo_decide [''owner-1''] (rs, p))"

fun demo_closing ::
  "(rail_error + unit) \<times> demo_log \<times> sim plant \<Rightarrow> demo_log \<times> (rail_error + unit) \<times> (activity_error + unit)" where
  "demo_closing (r, rs, p) = (rs, r, fst (audit_activity pg_application_store ''app-1'' p))"

definition demo_script :: "demo_log \<times> (rail_error + unit) \<times> (activity_error + unit)" where
  "demo_script = demo_closing (demo_confirmed (demo_paid
     (demo_decide [''ins-a'', ''ins-b'', ''ins-c'', ''nimasa-1'', ''bank-1''] (demo_noted [] demo_begun))))"

lemma demo_script_outcome:
  "demo_script =
     ([Inr StateUnderwritingPrimary, Inr StateUnderwritingSecondary, Inr StateUnderwritingTertiary,
       Inr StateNIMASAApproval, Inr StateBankConfirmation, Inr StateDisbursementPending, Inr StateDisbursed],
      Inr (), Inr ())"
  by code_simp

lemma demo_outcomes:
  obtains p0 p1 p2 p3 p4 p5 p6 p7 p8 :: "sim plant" where
    "act_begin demo_acts ''app-1'' (demo_plant demo_submitted demo_fx) = (Inr StateUnderwritingPrimary, p0)"
    "act_record demo_acts ''app-1'' ''ins-a'' DecisionApprove p0 = (Inr StateUnderwritingSecondary, p1)"
    "act_record demo_acts ''app-1'' ''ins-b'' DecisionApprove p1 = (Inr StateUnderwritingTertiary, p2)"
    "act_record demo_acts ''app-1'' ''ins-c'' DecisionApprove p2 = (Inr StateNIMASAApproval, p3)"
    "act_record demo_acts ''app-1'' ''nimasa-1'' DecisionApprove p3 = (Inr StateBankConfirmation, p4)"
    "act_record demo_acts ''app-1'' ''bank-1'' DecisionApprove p4 = (Inr StateDisbursementPending, p5)"
    "act_disburse demo_acts ''app-1'' p5 = (Inr (), p6)"
    "act_record demo_acts ''app-1'' ''owner-1'' DecisionApprove p6 = (Inr StateDisbursed, p7)"
    "act_audit demo_acts ''app-1'' p7 = (Inr (), p8)"
proof -
  let ?st = "pg_application_store :: sim plant application_store"
  obtain r0 p0 where 0: "begin_activity ?st ''app-1'' (demo_plant demo_submitted demo_fx) = (r0, p0)" by fastforce
  obtain r1 p1 where 1: "record_activity ?st ''app-1'' ''ins-a'' DecisionApprove p0 = (r1, p1)" by fastforce
  obtain r2 p2 where 2: "record_activity ?st ''app-1'' ''ins-b'' DecisionApprove p1 = (r2, p2)" by fastforce
  obtain r3 p3 where 3: "record_activity ?st ''app-1'' ''ins-c'' DecisionApprove p2 = (r3, p3)" by fastforce
  obtain r4 p4 where 4: "record_activity ?st ''app-1'' ''nimasa-1'' DecisionApprove p3 = (r4, p4)" by fastforce
  obtain r5 p5 where 5: "record_activity ?st ''app-1'' ''bank-1'' DecisionApprove p4 = (r5, p5)" by fastforce
  obtain r6 p6 where 6: "rail_disburse demo_rail ''app-1'' p5 = (r6, p6)" by fastforce
  obtain r7 p7 where 7: "record_activity ?st ''app-1'' ''owner-1'' DecisionApprove p6 = (r7, p7)" by fastforce
  obtain r8 p8 where 8: "audit_activity ?st ''app-1'' p7 = (r8, p8)" by fastforce
  note steps = 0 1 2 3 4 5 6 7 8
  show ?thesis
    by (rule that [of p0 p1 p2 p3 p4 p5 p6 p7 p8])
      (use demo_script_outcome in \<open>simp_all add: steps demo_script_def demo_begun_def demo_noted_def
        demo_acts_def plant_activities_simps demo_rail_def [symmetric]\<close>)
qed

definition demo_signals :: "(gtime \<times> wf_event) list" where
  "demo_signals = map (\<lambda>e. (utc_date 20454, e))
     [Decision_Signal ''cvff.underwriting-decision.primary'' ''ins-a'' DecisionApprove,
      Decision_Signal ''cvff.underwriting-decision.secondary'' ''ins-b'' DecisionApprove,
      Decision_Signal ''cvff.underwriting-decision.tertiary'' ''ins-c'' DecisionApprove,
      Decision_Signal ''cvff.nimasa-decision'' ''nimasa-1'' DecisionApprove,
      Decision_Signal ''cvff.bank-confirmation'' ''bank-1'' DecisionApprove]"

definition demo_confirmation :: "(gtime \<times> wf_event) list" where
  "demo_confirmation = [(utc_date 20454, Decision_Signal ''cvff.beneficiary-confirmation'' ''owner-1'' DecisionApprove)]"

definition demo_flow :: "(gtime \<times> wf_event) list \<Rightarrow> (wf \<times> sim plant) option" where
  "demo_flow evs = wf_events demo_acts ''app-1'' evs
     (wf_start demo_acts ''app-1'' (utc_date 20454) (demo_plant demo_submitted demo_fx))"

lemma demo_flow_reach:
  "demo_flow evs = Some s \<Longrightarrow>
     wf_reach (plant_activities demo_hashing sim_service demo_text demo_config (\<lambda>_. [])) ''app-1''
       (demo_plant demo_submitted demo_fx) s"
  unfolding demo_flow_def demo_acts_def by (rule wf_events_reach [OF wf_reach.start])

lemma demo_deadlines: "i < 3 \<Longrightarrow> \<exists>dl. sla_deadline (stage_tier i) (utc_date 20454) = Inr dl"
  using less_Suc_eq [of i] by (auto simp: sla_deadline_def stage_tier_def underwriting_stages_def numeral_3_eq_3
      less_Suc_eq split: sum.splits)

lemmas demo_run_simps = demo_flow_def demo_signals_def demo_confirmation_def wf_start_def next_stage_def
  enter_tier_def tier_decision_def party_decision_def after_parties_def try_disburse_def
  beneficiary_decision_def finish_def add_entry_def Let_def underwriting_stages_def party_stages_def
  tier_signal_def beneficiary_signal_def stage_tier_def sla_deadline_def

lemma demo_disbursing: "\<exists>s. demo_flow demo_signals = Some s \<and> wf_control (fst s) = Await_Beneficiary"
  by (rule demo_outcomes) (simp add: demo_run_simps)

lemma demo_audited:
  "\<exists>s. demo_flow (demo_signals @ demo_confirmation) = Some s \<and> wf_state (fst s) = Some StateAudited"
  by (rule demo_outcomes) (simp add: demo_run_simps)

end
