(* ===== verification/Workflow_Props.thy ===== *)
theory Workflow_Props
  imports Workflow_Refusals Workflow_Demo
begin

text \<open>
  The workflow on the production plant: it interprets its port, so what its control point says about
  approvals and money is true of the database and the ledger; and what a lost completion or a bad
  resolution does to it.
\<close>

locale wf_plant = tb_cluster h sv fmt cfg view
  for h :: hashing and sv :: "'tb service" and fmt cfg and view :: "'tb \<Rightarrow> u128 \<Rightarrow> transfer option" +
  fixes k :: string and fate :: "'tb plant \<Rightarrow> bool list"

sublocale wf_plant \<subseteq> flow: workflow_port "plant_activities h sv fmt cfg fate" k "wf_safe view fmt cfg k"
  "plant_stage k" "plant_approved k" "plant_paid k"
proof unfold_locales
  fix w w' :: "'tb plant" and sr :: "activity_error + app_state" and ur :: "activity_error + unit"
    and p d rs target tr dl
  assume w: "wf_safe view fmt cfg k w"
  show "wf_safe view fmt cfg k w' \<and> plant_keeps k w w' \<and>
      (\<forall>s. sr = Inr s \<longrightarrow> s = StateUnderwritingPrimary \<and> plant_stage k w' = Some s)"
    if "act_begin (plant_activities h sv fmt cfg fate) k w = (sr, w')"
  proof (rule execute_rel [where S = "wf_safe view fmt cfg k" and R = "plant_keeps k", OF _ keeps_evidence_trans w
        that [unfolded plant_activities_simps]])
    fix v r v' assume "wf_safe view fmt cfg k v" "begin_activity pg_application_store k v = (r, v')"
    from transition_attempt [OF this(1) plain_moves(1) move_events(1) this(2) [unfolded begin_activity_def]]
    show "wf_safe view fmt cfg k v' \<and> plant_keeps k v v' \<and>
        (\<forall>x. r = Inr x \<longrightarrow> x = StateUnderwritingPrimary \<and> plant_stage k v' = Some x)"
      by (auto simp: begin_underwriting_Inr)
  qed
  show "wf_safe view fmt cfg k w' \<and> plant_keeps k w w' \<and>
      (\<forall>s s0 role. sr = Inr s \<longrightarrow> plant_stage k w = Some s0 \<longrightarrow> required_role s0 = Some role \<longrightarrow>
         plant_stage k w' = Some s \<and>
         (d = DecisionReject \<and> s = StateRejected \<or>
          d = DecisionApprove \<and> approved_successor s0 = Some s \<and> plant_approved k w' role))"
    if "act_record (plant_activities h sv fmt cfg fate) k p d w = (sr, w')"
    using record_execute [OF w that [unfolded plant_activities_simps]] by auto
  show "wf_safe view fmt cfg k w' \<and> plant_keeps k w w' \<and> plant_stage k w' = plant_stage k w"
    if "act_escalate (plant_activities h sv fmt cfg fate) k tr dl w = (ur, w')"
  proof -
    have "wf_safe view fmt cfg k w' \<and> (plant_keeps k w w' \<and> plant_stage k w' = plant_stage k w) \<and>
        (\<forall>x. ur = Inr x \<longrightarrow> True)"
    proof (rule execute_rel [where S = "wf_safe view fmt cfg k", OF _ _ w that [unfolded plant_activities_simps]])
      fix v r v' assume v: "wf_safe view fmt cfg k v"
        and "map_err Attempt_Failed (on_cvff (\<lambda>e. record_escalation e k tr dl) v) = (r, v')"
      then obtain q where "on_cvff (\<lambda>e. record_escalation e k tr dl) v = (q, v')"
        by (metis prod.collapse snd_conv snd_map_err)
      from escalation_wf [OF v this] show "wf_safe view fmt cfg k v' \<and>
          (plant_keeps k v v' \<and> plant_stage k v' = plant_stage k v) \<and> (\<forall>x. r = Inr x \<longrightarrow> True)" by simp
    qed (auto intro: keeps_evidence_trans)
    then show ?thesis by blast
  qed
  show "wf_safe view fmt cfg k w' \<and> plant_keeps k w w'"
    if "act_require (plant_activities h sv fmt cfg fate) k w = (sr, w')"
  proof -
    have "wf_safe view fmt cfg k w' \<and> plant_keeps k w w' \<and> (\<forall>x. sr = Inr x \<longrightarrow> True)"
    proof (rule execute_rel [where S = "wf_safe view fmt cfg k" and R = "plant_keeps k", OF _ keeps_evidence_trans w
          that [unfolded plant_activities_simps]])
      fix v r v' assume "wf_safe view fmt cfg k v" "require_activity pg_application_store k v = (r, v')"
      from transition_attempt [OF this(1) plain_moves(3) move_events(3) this(2) [unfolded require_activity_def]]
      show "wf_safe view fmt cfg k v' \<and> plant_keeps k v v' \<and> (\<forall>x. r = Inr x \<longrightarrow> True)" by blast
    qed
    then show ?thesis by blast
  qed
  show "wf_safe view fmt cfg k w' \<and> plant_keeps k w w' \<and>
      (ur = Inr () \<longrightarrow> plant_stage k w' = Some StateDisbursementPending \<and> plant_paid k w')"
    if "act_disburse (plant_activities h sv fmt cfg fate) k w = (ur, w')"
  proof -
    have "wf_safe view fmt cfg k w' \<and> plant_keeps k w w' \<and>
        (\<forall>x. ur = Inr x \<longrightarrow> plant_stage k w' = Some StateDisbursementPending \<and> plant_paid k w')"
    proof (rule execute_rel [where S = "wf_safe view fmt cfg k" and R = "plant_keeps k", OF _ keeps_evidence_trans w
          that [unfolded plant_activities_simps]])
      fix v r v' assume v: "wf_safe view fmt cfg k v"
        and run: "map_err Disbursement_Failed_Closed (rail_disburse (plant_rail h sv fmt cfg) k v) = (r, v')"
      obtain q v1 where q: "rail_disburse (plant_rail h sv fmt cfg) k v = (q, v1)" by (rule prod.exhaust)
      have "v1 = v'" "\<forall>x. r = Inr x \<longrightarrow> q = Inr ()" using run q by (cases q; auto)+
      then show "wf_safe view fmt cfg k v' \<and> plant_keeps k v v' \<and>
          (\<forall>x. r = Inr x \<longrightarrow> plant_stage k v' = Some StateDisbursementPending \<and> plant_paid k v')"
        using disburse_attempt [OF contract v q] by auto
    qed
    then show ?thesis by (cases ur) auto
  qed
  show "wf_safe view fmt cfg k w' \<and> plant_keeps k w w' \<and>
      (\<forall>s. sr = Inr s \<longrightarrow> plant_stage k w' = Some s \<and> (s = target \<or> s = StateRejected))"
    if "act_resolve (plant_activities h sv fmt cfg fate) k p rs target w = (sr, w')"
    by (rule execute_rel [where S = "wf_safe view fmt cfg k" and R = "plant_keeps k", OF _ keeps_evidence_trans w
          that [unfolded plant_activities_simps]]) (rule resolve_attempt)
  show "wf_safe view fmt cfg k w' \<and> plant_keeps k w w' \<and> (ur = Inr () \<longrightarrow> plant_stage k w' = Some StateAudited)"
    if "act_audit (plant_activities h sv fmt cfg fate) k w = (ur, w')"
  proof -
    have "wf_safe view fmt cfg k w' \<and> plant_keeps k w w' \<and> (\<forall>x. ur = Inr x \<longrightarrow> plant_stage k w' = Some StateAudited)"
    proof (rule execute_rel [where S = "wf_safe view fmt cfg k" and R = "plant_keeps k", OF _ keeps_evidence_trans w
          that [unfolded plant_activities_simps]])
      fix v v' and r :: "activity_error + unit"
      assume "wf_safe view fmt cfg k v" "audit_activity pg_application_store k v = (r, v')"
      from audit_attempt [OF this] show "wf_safe view fmt cfg k v' \<and> plant_keeps k v v' \<and>
          (\<forall>x. r = Inr x \<longrightarrow> plant_stage k v' = Some StateAudited)" by auto
    qed
    then show ?thesis by (cases ur) auto
  qed
qed

context wf_plant
begin

lemmas flow_disbursing = flow.reach_disbursing
lemmas flow_escalate = flow.escalate_law

end

lemma chain_evidence:
  assumes ok: "cvff_db_ok d"
    and all: "\<forall>r \<in> R. \<exists>v \<in> set (approvals d). av_app v = k \<and> av_role v = r \<and> av_decision v = DecisionApprove"
  shows "\<exists>holder. inj_on holder R \<and> (\<forall>r \<in> R. \<exists>v \<in> set (approvals d).
    av_app v = k \<and> av_role v = r \<and> av_principal v = holder r \<and> av_decision v = DecisionApprove)"
proof -
  obtain g where g: "\<forall>r \<in> R. g r \<in> set (approvals d) \<and> av_app (g r) = k \<and> av_role (g r) = r \<and>
      av_decision (g r) = DecisionApprove"
    using bchoice [of R "\<lambda>r v. v \<in> set (approvals d) \<and> av_app v = k \<and> av_role v = r \<and>
      av_decision v = DecisionApprove"] all by blast
  have "inj_on (\<lambda>r. av_principal (g r)) R"
  proof (rule inj_onI)
    fix r r' assume r: "r \<in> R" "r' \<in> R" and eq: "av_principal (g r) = av_principal (g r')"
    have "holds_role d k r (av_principal (g r))" "holds_role d k r' (av_principal (g r'))"
      using g r ok by (force simp: cvff_db_ok_def approval_ok_def)+
    then show "r = r'" using holds_role_inj [of d k r] eq ok by (simp add: cvff_db_ok_def)
  qed
  then show ?thesis using g by (intro exI [of _ "\<lambda>r. av_principal (g r)"]) blast
qed

lemma plant_paid_settled:
  "wf_safe view txt c k p \<Longrightarrow> plant_paid k p \<Longrightarrow>
     \<exists>l. plant_leg p l \<and> lg_app l = k \<and> legs_on_ledger (view (pt_tb p)) txt c l"
  by (auto simp: plant_paid_def wf_safe_def plant_safe_def)

lemma wf_safe_db: "wf_safe view txt c k p \<Longrightarrow> cvff_db_ok (w_db (pt_cvff p))"
  by (simp add: wf_safe_def plant_safe_def)

interpretation sim_flow: wf_plant demo_hashing sim_service demo_text demo_config sim_view "''app-1''" "\<lambda>_. []"
  by unfold_locales

section \<open>Properties\<close>

text \<open>C1 The workflow waits for the beneficiary only after the chain. In every run on the production
  plant, with any failures and lost completions, whenever the workflow has started to disburse (it
  waits for the beneficiary, or is parked on a disbursement that failed closed), the database holds
  an approval by the assigned holder of each of the five roles before the beneficiary, the five
  holders are different principals, and when it waits for the beneficiary the two legs of the
  application are settled on the cluster.\<close>

theorem disbursement_follows_the_chain:
  assumes contract: "tb_contract (sv_client sv) view" and start: "wf_safe view txt c k p0"
    and run: "wf_reach (plant_activities h sv txt c fate) k p0 (f, p)"
    and at: "wf_control f = Await_Beneficiary \<or> wf_control f = Parked_Disbursement"
  shows "(\<exists>holder. inj_on holder (set (take 5 chain_roles)) \<and>
      (\<forall>r \<in> set (take 5 chain_roles). \<exists>v \<in> set (approvals (w_db (pt_cvff p))).
         av_app v = k \<and> av_role v = r \<and> av_principal v = holder r \<and> av_decision v = DecisionApprove)) \<and>
    (wf_control f = Await_Beneficiary \<longrightarrow>
      (\<exists>l. plant_leg p l \<and> lg_app l = k \<and> legs_on_ledger (view (pt_tb p)) txt c l))"
proof -
  note at' = wf_plant.flow_disbursing [OF wf_plant.intro [OF tb_cluster.intro [OF contract]] run start]
  have *: "wf_safe view txt c k p" "\<forall>r \<in> set (take 5 chain_roles). plant_approved k p r"
    "wf_control f \<noteq> Parked_Disbursement \<longrightarrow> plant_paid k p"
    using at' at by blast+
  show ?thesis
    using chain_evidence [OF wf_safe_db [OF *(1)] *(2) [unfolded plant_approved_def]]
      plant_paid_settled [OF *(1)] *(3) by auto
qed

theorem disbursement_follows_the_chain_witness:
  "\<exists>s l. demo_flow demo_signals = Some s \<and> plant_leg (snd s) l \<and> lg_app l = ''app-1''"
proof -
  obtain f p where run: "demo_flow demo_signals = Some (f, p)" and "wf_control f = Await_Beneficiary"
    using demo_disbursing by auto
  then show ?thesis
    using disbursement_follows_the_chain [OF sim_service_contract demo_submitted_safe demo_flow_reach [OF run]]
    by auto
qed

text \<open>C4 An audited workflow is a complete one. When a run reports AUDITED, the stored application is
  AUDITED, its approvals come from six different principals holding the six roles of the chain, and
  its legs are settled on the cluster.\<close>

theorem audited_workflow_is_complete:
  assumes contract: "tb_contract (sv_client sv) view" and start: "wf_safe view txt c k p0"
    and run: "wf_reach (plant_activities h sv txt c fate) k p0 (f, p)"
    and aud: "wf_state f = Some StateAudited"
  shows "plant_stage k p = Some StateAudited \<and>
    (\<exists>holder. inj_on holder (set chain_roles) \<and>
      (\<forall>r \<in> set chain_roles. \<exists>v \<in> set (approvals (w_db (pt_cvff p))).
         av_app v = k \<and> av_role v = r \<and> av_principal v = holder r \<and> av_decision v = DecisionApprove)) \<and>
    (\<exists>l. plant_leg p l \<and> lg_app l = k \<and> legs_on_ledger (view (pt_tb p)) txt c l)"
proof -
  note at' = wf_plant.flow_disbursing [OF wf_plant.intro [OF tb_cluster.intro [OF contract]] run start]
  have six: "set chain_roles = insert RoleBeneficiary (set (take 5 chain_roles))"
    by (auto simp: chain_roles_def)
  have *: "wf_safe view txt c k p" "\<forall>r \<in> set chain_roles. plant_approved k p r"
    "plant_paid k p" "plant_stage k p = Some StateAudited"
    using at' aud unfolding six by blast+
  show ?thesis
    using chain_evidence [OF wf_safe_db [OF *(1)] *(2) [unfolded plant_approved_def]]
      plant_paid_settled [OF *(1,3)] *(4) by auto
qed

theorem audited_workflow_is_complete_witness:
  "\<exists>s. demo_flow (demo_signals @ demo_confirmation) = Some s \<and> plant_stage ''app-1'' (snd s) = Some StateAudited"
proof -
  obtain f p where run: "demo_flow (demo_signals @ demo_confirmation) = Some (f, p)"
    and aud: "wf_state f = Some StateAudited"
    using demo_audited by auto
  then show ?thesis
    using audited_workflow_is_complete [OF sim_service_contract demo_submitted_safe demo_flow_reach [OF run] aud]
    by auto
qed

text \<open>A missed service level decides nothing. When the timer of an underwriting tier fires, its
  deadline has passed, the history of decisions is unchanged, the stored application is where it was
  or parked for reconciliation, and the workflow waits for the same tier again with one more
  escalation, or is parked at that tier, or has failed to park.\<close>

theorem escalation_never_decides:
  assumes contract: "tb_contract (sv_client sv) view" and safe: "wf_safe view txt c k p"
    and at: "wf_control f = Await_Tier i esc entered"
    and run: "wf_step (plant_activities h sv txt c fate) k now Timer_Fired (f, p) = Some (f', p')"
  shows "(\<exists>deadline. sla_deadline (stage_tier i) entered = Inr deadline \<and> gt_inst deadline \<le> gt_inst now) \<and>
    wf_history f' = wf_history f \<and>
    (plant_stage k p' = plant_stage k p \<or> plant_stage k p' = Some StateReconciliationRequired) \<and>
    (wf_control f' = Await_Tier i (Suc esc) now \<and> plant_stage k p' = plant_stage k p \<or>
     wf_control f' = Parked_At (state_for_tier (stage_tier i)) (Resume_Tier i) \<or>
     (\<exists>e. wf_control f' = Finished (Some (Wf_Park e))))"
proof -
  let ?acts = "plant_activities h sv txt c fate"
  obtain dl where dl: "sla_deadline (stage_tier i) entered = Inr dl" "gt_inst dl \<le> gt_inst now"
    and step: "tier_expired ?acts k i esc dl now (f, p) = (f', p')"
    using run at by (auto split: sum.splits if_splits)
  obtain r p1 where esc: "act_escalate ?acts k (stage_tier i) dl p = (r, p1)" by (rule prod.exhaust)
  note law = wf_plant.flow_escalate [OF wf_plant.intro [OF tb_cluster.intro [OF contract]] safe esc]
  have fail: "wf_history f2 = wf_history f \<and>
      (plant_stage k p2 = plant_stage k p \<or> plant_stage k p2 = Some StateReconciliationRequired) \<and>
      (wf_control f2 = Parked_At (state_for_tier (stage_tier i)) (Resume_Tier i) \<or>
       (\<exists>e. wf_control f2 = Finished (Some (Wf_Park e))))"
    if "tier_failed ?acts k i n (f, p1) = (f2, p2)" for n f2 p2
  proof -
    obtain q p3 where q: "act_require ?acts k p1 = (q, p3)" by (rule prod.exhaust)
    have "plant_stage k p3 = plant_stage k p \<or> plant_stage k p3 = Some StateReconciliationRequired"
      using require_execute [OF _ q [unfolded plant_activities_simps], of view "txt" c] law by auto
    then show ?thesis using that q by (auto simp: tier_failed_def park_def split: sum.splits)
  qed
  show ?thesis
  proof (cases r)
    case (Inl e)
    then show ?thesis using fail step esc dl by (auto simp: tier_expired_def)
  next
    case (Inr u)
    then show ?thesis
      using fail step esc dl law by (auto simp: tier_expired_def enter_tier_def split: sum.splits)
  qed
qed

definition demo_waiting :: wf where
  "demo_waiting = \<lparr>wf_control = Await_Tier 0 0 (utc_date 20454), wf_state = Some StateUnderwritingPrimary,
     wf_escalations = 0, wf_history = []\<rparr>"

theorem escalation_never_decides_witness:
  "\<exists>f' p'. wf_step (plant_activities demo_hashing sim_service demo_text demo_config (\<lambda>_. [])) ''app-1''
      (utc_date 20500) Timer_Fired (demo_waiting, demo_plant demo_submitted demo_fx) = Some (f', p') \<and>
    wf_history f' = []"
proof -
  let ?acts = "plant_activities demo_hashing sim_service demo_text demo_config (\<lambda>_. [])"
  let ?s = "(demo_waiting, demo_plant demo_submitted demo_fx)"
  have "sla_deadline (stage_tier 0) (utc_date 20454) = Inr (utc_date 20461)" by code_simp
  moreover have "gt_inst (utc_date 20461) \<le> gt_inst (utc_date 20500)" by code_simp
  ultimately have "wf_step ?acts ''app-1'' (utc_date 20500) Timer_Fired ?s
      = Some (tier_expired ?acts ''app-1'' 0 0 (utc_date 20461) (utc_date 20500) ?s)"
    by (simp add: demo_waiting_def)
  moreover obtain f' p' where
    "tier_expired ?acts ''app-1'' 0 0 (utc_date 20461) (utc_date 20500) ?s = (f', p')"
    by (rule prod.exhaust)
  ultimately have run: "wf_step ?acts ''app-1'' (utc_date 20500) Timer_Fired ?s = Some (f', p')" by simp
  have "wf_control demo_waiting = Await_Tier 0 0 (utc_date 20454)" by (simp add: demo_waiting_def)
  from escalation_never_decides [OF sim_service_contract demo_submitted_safe this run]
  show ?thesis using run by (auto simp: demo_waiting_def)
qed

text \<open>A resolution that is refused ends a parked disbursement. When a principal who holds a role on
  the application signals a resolution to a workflow parked on its disbursement, the store refuses
  it, the stored application stays where it is, and the workflow is over for good; parked at any
  other stage, the workflow stays parked.\<close>

theorem refused_resolution_ends_the_disbursement:
  assumes safe: "wf_safe view txt c k p" and at: "wf_control f = Parked_Disbursement"
    and party: "holds_role (w_db (pt_cvff p)) k role who" and stage: "plant_stage k p = Some s"
  shows "(\<exists>f' p' e. wf_step (plant_activities h sv txt c fate) k now (Resolution_Signal who res) (f, p) = Some (f', p') \<and>
      wf_control f' = Finished (Some (Wf_Resolve e)) \<and> plant_stage k p' = Some s \<and>
      (\<forall>later ev. wf_step (plant_activities h sv txt c fate) k later ev (f', p') = None)) \<and>
    (\<exists>p'. wf_step (plant_activities h sv txt c fate) k now (Resolution_Signal who res)
        (f\<lparr>wf_control := Parked_At target point\<rparr>, p) = Some (f\<lparr>wf_control := Parked_At target point\<rparr>, p') \<and>
      plant_stage k p' = Some s)"
proof -
  let ?S = "stands k (\<lambda>d. holds_role d k role who) s"
  have refused: "?S (snd (resolve_activity pg_application_store k who res t q)) \<and>
      isl (fst (resolve_activity pg_application_store k who res t q))" if "?S q" for t and q :: "'a plant"
    unfolding resolve_activity_def pg_application_store_simps
    by (rule refused_call [OF that]) (rule party_cannot_resolve)
  have S: "?S p" using safe party stage by (simp add: stands_def wf_safe_def)
  have act: "\<exists>e p'. act_resolve (plant_activities h sv txt c fate) k who res t p = (Inl e, p') \<and>
      plant_stage k p' = Some s" for t
    unfolding plant_activities_simps by (rule execute_stands [OF refused S])
  obtain e p' where "act_resolve (plant_activities h sv txt c fate) k who res StateDisbursementPending p = (Inl e, p')"
    "plant_stage k p' = Some s"
    using act by blast
  moreover have "\<exists>p'. wf_step (plant_activities h sv txt c fate) k now (Resolution_Signal who res)
        (f\<lparr>wf_control := Parked_At target point\<rparr>, p) = Some (f\<lparr>wf_control := Parked_At target point\<rparr>, p') \<and>
      plant_stage k p' = Some s"
    using act [of target] by (auto simp: resolve_parked_def)
  ultimately show ?thesis using at by (simp add: resolve_disbursement_def finish_def)
qed

definition demo_parked :: cvff_db where
  "demo_parked = run_cvff_calls 1 (demo_approvals @ [Require_Reconciliation ''app-1'' 7]) (empty_cvff_db [])"

theorem refused_resolution_ends_the_disbursement_witness:
  "\<exists>f' p'. wf_step demo_acts ''app-1'' (utc_date 20500) (Resolution_Signal ''bank-1'' ResumeDisbursement)
      (demo_waiting\<lparr>wf_control := Parked_Disbursement\<rparr>, demo_plant demo_parked demo_fx) = Some (f', p') \<and>
    plant_stage ''app-1'' p' = Some StateReconciliationRequired"
proof -
  have "wf_safe sim_view demo_text demo_config ''app-1'' (demo_plant demo_parked demo_fx)"
    unfolding demo_parked_def by (rule demo_wf_safe) code_simp
  moreover have "holds_role demo_parked ''app-1'' RoleReceivingBank ''bank-1''"
    "row_state ''app-1'' demo_parked = Some StateReconciliationRequired"
    by code_simp+
  ultimately show ?thesis
    using refused_resolution_ends_the_disbursement
      [where view = sim_view and f = "demo_waiting\<lparr>wf_control := Parked_Disbursement\<rparr>" and fate = "\<lambda>_. []"
        and h = demo_hashing and sv = sim_service and c = demo_config and ?txt = demo_text
        and p = "demo_plant demo_parked demo_fx" and k = "''app-1''" and who = "''bank-1''"]
    by (fastforce simp: plant_stage_def demo_plant_def demo_acts_def)
qed

text \<open>A lost completion strands the application. When the first attempt to begin underwriting takes
  effect but its completion is lost, every further attempt is refused, the workflow ends with an
  error, waits for nothing, and the application stays in UNDERWRITING_PRIMARY.\<close>

theorem lost_begin_strands_the_application:
  assumes safe: "wf_safe view txt c k p" and "k \<noteq> []" and fate: "fate p = True # ls"
    and first: "begin_activity pg_application_store k p = (Inr s, p1)"
  shows "\<exists>f' p' e. wf_start (plant_activities h sv txt c fate) k now p = (f', p') \<and>
      wf_control f' = Finished (Some (Wf_Begin e)) \<and> plant_stage k p' = Some StateUnderwritingPrimary \<and>
      (\<forall>later ev. wf_step (plant_activities h sv txt c fate) k later ev (f', p') = None)"
proof -
  let ?S = "stands k (\<lambda>_. True) StateUnderwritingPrimary"
  have refused: "?S (snd (begin_activity pg_application_store k q)) \<and>
      isl (fst (begin_activity pg_application_store k q))" if "?S q" for q :: "'a plant"
    unfolding begin_activity_def pg_application_store_simps
    by (rule refused_call [OF that]) (erule begun_cannot_begin, simp)
  have "wf_safe view txt c k p1 \<and> plant_stage k p1 = Some StateUnderwritingPrimary"
    using transition_attempt [OF safe plain_moves(1) move_events(1) first [unfolded begin_activity_def]]
    by (auto simp: begin_underwriting_Inr)
  then have S: "?S p1" by (simp add: stands_def wf_safe_def)
  have "\<exists>e p'. act_begin (plant_activities h sv txt c fate) k p = (Inl e, p') \<and>
      plant_stage k p' = Some StateUnderwritingPrimary"
    unfolding plant_activities_simps fate using execute_stands [where ls = ls, OF refused S] by (simp add: first)
  then show ?thesis using assms(2) by (auto simp: wf_start_def Let_def finish_def)
qed

theorem lost_begin_strands_the_application_witness:
  "\<exists>f' p' e. wf_start (plant_activities demo_hashing sim_service demo_text demo_config (\<lambda>_. [True])) ''app-1''
      (utc_date 20454) (demo_plant demo_submitted demo_fx) = (f', p') \<and>
    wf_control f' = Finished (Some (Wf_Begin e))"
proof -
  obtain p1 where first: "begin_activity pg_application_store ''app-1'' (demo_plant demo_submitted demo_fx)
      = (Inr StateUnderwritingPrimary, p1)"
    by (rule demo_outcomes) (simp add: demo_acts_def plant_activities_simps)
  show ?thesis
    using lost_begin_strands_the_application
      [where fate = "\<lambda>_. [True]" and h = demo_hashing and sv = sim_service and ?txt = demo_text
        and c = demo_config and now = "utc_date 20454",
        OF demo_submitted_safe [of sim_view demo_text demo_config] _ refl first]
    by fastforce
qed

end
