(* ===== verification/Go_Text.thy ===== *)
theory Go_Text
  imports Calendar
begin

text \<open>
  The texts of the Go standard library that the tariff engine prints and reads: decimal integers
  (\<open>%d\<close>), and dates in the layout \<open>2006-01-02\<close>.
\<close>

definition digit :: "nat \<Rightarrow> char" where
  "digit n = char_of (48 + n)"

fun nat_digits :: "nat \<Rightarrow> string" where
  "nat_digits n = (if n < 10 then [digit n] else nat_digits (n div 10) @ [digit (n mod 10)])"

declare nat_digits.simps [simp del]

definition dec :: "int \<Rightarrow> string" where
  "dec x = (if x < 0 then ''-'' @ nat_digits (nat (- x)) else nat_digits (nat x))"

definition padded :: "nat \<Rightarrow> int \<Rightarrow> string" where
  "padded n x = (let ds = nat_digits (nat \<bar>x\<bar>)
     in (if x < 0 then ''-'' else '''') @ replicate (n - length ds) CHR ''0'' @ ds)"

definition format_date :: "int \<Rightarrow> string" where
  "format_date day = (case civil_of_day day of (y, m, d) \<Rightarrow> padded 4 y @ ''-'' @ padded 2 m @ ''-'' @ padded 2 d)"

definition is_digit :: "char \<Rightarrow> bool" where
  "is_digit c \<longleftrightarrow> (let n = of_char c :: nat in 48 \<le> n \<and> n \<le> 57)"

fun digits_value :: "string \<Rightarrow> int" where
  "digits_value [] = 0"
| "digits_value (c # cs) = (of_char c - 48) * 10 ^ length cs + digits_value cs"

definition leap :: "int \<Rightarrow> bool" where
  "leap y \<longleftrightarrow> y mod 4 = 0 \<and> (y mod 100 \<noteq> 0 \<or> y mod 400 = 0)"

definition days_in :: "int \<Rightarrow> int \<Rightarrow> int" where
  "days_in m y = (if m = 2 then (if leap y then 29 else 28) else if m \<in> {4, 6, 9, 11} then 30 else 31)"

text \<open>\<open>time.Parse\<close> in that layout; the result is the day at whose midnight UTC the time lies.\<close>

definition parse_date :: "string \<Rightarrow> int option" where
  "parse_date s =
     (let y = digits_value (take 4 s); m = digits_value (take 2 (drop 5 s)); d = digits_value (drop 8 s)
      in if length s = 10 \<and> s ! 4 = CHR ''-'' \<and> s ! 7 = CHR ''-''
            \<and> list_all is_digit (take 4 s @ take 2 (drop 5 s) @ drop 8 s)
            \<and> 1 \<le> m \<and> m \<le> 12 \<and> 1 \<le> d \<and> d \<le> days_in m y
         then Some (day_of_civil y m d) else None)"

lemma date_examples:
  "parse_date ''2026-01-01'' = Some 20454" "format_date 20454 = ''2026-01-01''"
  "parse_date ''2025-02-29'' = None" "parse_date ''2025-1-02'' = None"
  "dec 0 = ''0''" "dec (- 1470) = ''-1470''"
  by code_simp+

end
