(* ===== verification/Tariff.thy ===== *)
theory Tariff
  imports Go_Text
begin

text \<open>
  \<open>internal/tariff/model.go\<close> and \<open>engine.go\<close>: declarations, statutory rate and exemption rows, and
  the engine that assesses a declaration against them. Amounts are Go \<open>int64\<close> values: the products
  wrap around. The constants of the sources are the texts they stand for.
\<close>

section \<open>Declarations and rows\<close>

abbreviation NPA_ship_dues :: string where "NPA_ship_dues \<equiv> ''NPA_SHIP_DUES''"
abbreviation NPA_levy_act :: string where "NPA_levy_act \<equiv> ''NPA_LEVY_ACT''"
abbreviation SPL_2012 :: string where "SPL_2012 \<equiv> ''SEA_PROTECTION_LEVY_2012''"
abbreviation cabotage_surcharge :: string where "cabotage_surcharge \<equiv> ''CABOTAGE_SURCHARGE''"
abbreviation LNG_due :: string where "LNG_due \<equiv> ''NIMASA_LNG_CARRIER_DUE''"
abbreviation NIWA_charge :: string where "NIWA_charge \<equiv> ''NIWA_INLAND_CHARGE''"
abbreviation band_per_grt :: string where "band_per_grt \<equiv> ''PER_GRT_BAND''"
abbreviation band_gross_freight :: string where "band_gross_freight \<equiv> ''PERCENT_GROSS_FREIGHT''"

record assess_request =
  rq_grt :: int
  rq_class :: string
  rq_entity :: string
  rq_cargo :: string
  rq_voyage :: string
  rq_route :: string
  rq_port_call :: bool
  rq_freight :: int
  rq_flags :: "string list"
  rq_as_of :: string

definition vessel_classes :: "string list" where
  "vessel_classes = [''GENERAL_CARGO'', ''TANKER'', ''CRUISE'', ''LNG_CARRIER'', ''CONTAINER'', ''BULK'',
     ''BARGE'', ''PASSENGER'']"

text \<open>\<open>%q\<close> quotes the class; the quotation is left out here.\<close>

definition validate_request :: "assess_request \<Rightarrow> string option" where
  "validate_request r =
     (if rq_grt r \<le> 0 then Some ''vesselGrt must be positive''
      else if rq_class r \<notin> set vessel_classes then Some (''vesselClass '' @ rq_class r @ '' is not a known class'')
      else if trim_space (rq_entity r) = [] \<or> length (rq_entity r) > 256 then Some ''entityRef is required''
      else if trim_space (rq_cargo r) = [] \<or> length (rq_cargo r) > 128 then Some ''cargoCategory is required''
      else if rq_voyage r \<notin> {''INTERNATIONAL'', ''CABOTAGE''}
      then Some ''voyageType must be INTERNATIONAL or CABOTAGE''
      else if rq_route r \<notin> {''SEA'', ''INLAND_WATERWAY''}
      then Some ''routeKind must be SEA or INLAND_WATERWAY''
      else if rq_freight r < 0 then Some ''grossFreightUsdMinor must not be negative''
      else if rq_as_of r \<noteq> [] \<and> parse_date (rq_as_of r) = None then Some ''asOf must be YYYY-MM-DD''
      else if \<exists>f \<in> set (rq_flags r). trim_space f = [] \<or> length f > 128
      then Some ''voyage flags must be 1..128 characters''
      else None)"

record rate_row =
  tr_rate_id :: string
  tr_instrument :: string
  tr_agency :: string
  tr_band_logic :: string
  tr_currency :: string
  tr_minor_per_unit :: int
  tr_bps :: int
  tr_band_floor :: int
  tr_band_ceiling :: "int option"
  tr_reference :: string
  tr_provisional :: bool
  tr_from :: gtime
  tr_to :: "gtime option"
  tr_state :: string
  tr_maker :: string
  tr_checker :: string

record exemption_row =
  ex_id :: string
  ex_instrument :: string
  ex_match_kind :: string
  ex_match_value :: string
  ex_basis :: string
  ex_evidence :: string
  ex_from :: gtime
  ex_to :: "gtime option"
  ex_state :: string
  ex_maker :: string
  ex_checker :: string

datatype applicability = Line_Unset | Line_Charged | Line_Exempt | Line_Not_Applicable | Line_Unrated

record assessment_line =
  al_no :: nat
  al_instrument :: string
  al_agency :: string
  al_applicability :: applicability
  al_basis :: string
  al_reference :: string
  al_rate :: string
  al_amount :: int
  al_currency :: string
  al_exemption :: string
  al_provisional :: bool

section \<open>The engine\<close>

definition instrument_order :: "string list" where
  "instrument_order = [NPA_ship_dues, NPA_levy_act, SPL_2012, cabotage_surcharge, LNG_due, NIWA_charge]"

definition instrument_agency :: "string \<Rightarrow> string" where
  "instrument_agency i =
     (case map_of [(NPA_ship_dues, ''NPA''), (NPA_levy_act, ''NIMASA''), (SPL_2012, ''NIMASA''),
        (cabotage_surcharge, ''FMMBE''), (LNG_due, ''NIMASA''), (NIWA_charge, ''NIWA'')] i of
        None \<Rightarrow> [] | Some a \<Rightarrow> a)"

text \<open>The dash of the sources' texts, in UTF-8.\<close>

definition dash :: string where
  "dash = [CHR 0xE2, CHR 0x80, CHR 0x94]"

definition applicability_of :: "string \<Rightarrow> assess_request \<Rightarrow> bool \<times> string" where
  "applicability_of i r =
     (if i = NPA_ship_dues then
        (if rq_port_call r then (True, ''Nigerian port call: NPA ship dues on vessel GRT'')
         else (False, ''no Nigerian port call''))
      else if i = NPA_levy_act then
        (if rq_port_call r
         then (True, ''in/out cargo ship calling a Nigerian port: NIMASA Act s.15 levy on gross freight'')
         else (False, ''no Nigerian port call''))
      else if i = SPL_2012 then
        (if rq_port_call r
         then (True, ''in/out cargo ship calling a Nigerian port: Sea Protection Levy 2012 on gross freight'')
         else (False, ''no Nigerian port call''))
      else if i = cabotage_surcharge then
        (if rq_voyage r = ''CABOTAGE''
         then (True, ''cabotage (coastal) voyage: 2% surcharge accruing to CVFF'')
         else (False, ''international voyage '' @ dash @ '' cabotage surcharge applies to coastal trade only''))
      else if i = LNG_due then
        (if rq_class r = ''LNG_CARRIER'' \<and> rq_port_call r
         then (True, ''LNG carrier calling a Nigerian port: NIMASA US$0.30/GRT due'')
         else (False, ''not an LNG carrier on a Nigerian port call''))
      else if i = NIWA_charge then
        (if rq_route r = ''INLAND_WATERWAY'' then (True, ''inland-waterways voyage: NIWA s.28 charge'')
         else (False, ''sea voyage '' @ dash @ '' NIWA charges apply to inland waterways''))
      else (False, ''unknown instrument''))"

definition window_contains :: "gtime \<Rightarrow> gtime \<Rightarrow> gtime option \<Rightarrow> bool" where
  "window_contains as_of from until =
     (if day_of as_of < day_of from then False
      else case until of None \<Rightarrow> True | Some t \<Rightarrow> \<not> day_of t < day_of as_of)"

definition band_matches :: "rate_row \<Rightarrow> int \<Rightarrow> bool" where
  "band_matches r grt =
     (if tr_band_logic r \<noteq> band_per_grt then True
      else if grt < tr_band_floor r then False
      else case tr_band_ceiling r of None \<Rightarrow> True | Some c \<Rightarrow> grt < c)"

definition rate_description :: "rate_row \<Rightarrow> string" where
  "rate_description r =
     (if tr_band_logic r = band_per_grt then
        (let band = (case tr_band_ceiling r of None \<Rightarrow> ''GRT >= '' @ dec (tr_band_floor r)
                     | Some c \<Rightarrow> dec (tr_band_floor r) @ '' <= GRT < '' @ dec c)
         in dec (tr_minor_per_unit r) @ '' '' @ tr_currency r @ '' minor/GRT ('' @ band @ '')'')
      else dec (tr_bps r) @ '' bps of gross freight'')"

definition exemption_matches :: "exemption_row \<Rightarrow> assess_request \<Rightarrow> bool" where
  "exemption_matches x r =
     (if ex_match_kind x = ''ENTITY'' then ex_match_value x = rq_entity r
      else if ex_match_kind x = ''CARGO_CATEGORY'' then ex_match_value x = rq_cargo r
      else if ex_match_kind x = ''VOYAGE_FLAG'' then ex_match_value x \<in> set (rq_flags r)
      else if ex_match_kind x = ''CABOTAGE_TRADE'' then rq_voyage r = ''CABOTAGE''
      else False)"

definition round_half_up :: "int \<Rightarrow> int \<Rightarrow> int" where
  "round_half_up numerator denominator =
     (if denominator \<le> 0 \<or> numerator < 0 then 0
      else go_div (i64 (go_div (i64 (2 * numerator)) denominator + 1)) 2)"

record computation =
  cp_lines :: "assessment_line list"
  cp_exemptions :: "exemption_row list"

definition rate_selected :: "assess_request \<Rightarrow> gtime \<Rightarrow> string \<Rightarrow> rate_row \<Rightarrow> bool" where
  "rate_selected rq as_of i r \<longleftrightarrow>
     tr_instrument r = i \<and> tr_state r = ''ACTIVE'' \<and> window_contains as_of (tr_from r) (tr_to r) \<and>
     band_matches r (rq_grt rq)"

definition exemption_selected :: "assess_request \<Rightarrow> gtime \<Rightarrow> string \<Rightarrow> exemption_row \<Rightarrow> bool" where
  "exemption_selected rq as_of i x \<longleftrightarrow>
     ex_instrument x = i \<and> ex_state x = ''ACTIVE'' \<and> window_contains as_of (ex_from x) (ex_to x) \<and>
     exemption_matches x rq"

definition charge :: "assess_request \<Rightarrow> rate_row \<Rightarrow> int" where
  "charge rq r =
     (if tr_band_logic r = band_per_grt then i64 (rq_grt rq * tr_minor_per_unit r)
      else if tr_band_logic r = band_gross_freight
      then round_half_up (i64 (rq_freight rq * tr_bps r)) 10000 else 0)"

text \<open>One turn of the loop over the instruments: the line, and the exemption applied to it.\<close>

definition assess_instrument ::
  "assess_request \<Rightarrow> rate_row list \<Rightarrow> exemption_row list \<Rightarrow> gtime \<Rightarrow> nat \<Rightarrow> string
     \<Rightarrow> assessment_line \<times> exemption_row option" where
  "assess_instrument rq rates exemptions as_of index i =
     (let line = \<lparr>al_no = Suc index, al_instrument = i, al_agency = instrument_agency i,
                  al_applicability = Line_Unset, al_basis = snd (applicability_of i rq), al_reference = [],
                  al_rate = [], al_amount = 0, al_currency = ''USD'', al_exemption = [],
                  al_provisional = False\<rparr>
      in if \<not> fst (applicability_of i rq)
         then (line\<lparr>al_applicability := Line_Not_Applicable\<rparr>, None)
         else case find (rate_selected rq as_of i) rates of
           None \<Rightarrow> (line\<lparr>al_applicability := Line_Unrated,
                       al_basis := al_basis line @ '' '' @ dash @ '' no ACTIVE effective rate row configured''\<rparr>, None)
         | Some r \<Rightarrow>
             let line = line\<lparr>al_reference := tr_reference r, al_rate := rate_description r,
                             al_provisional := tr_provisional r, al_currency := tr_currency r\<rparr>
             in case find (exemption_selected rq as_of i) exemptions of
                  Some x \<Rightarrow> (line\<lparr>al_applicability := Line_Exempt, al_exemption := ex_id x\<rparr>, Some x)
                | None \<Rightarrow> (line\<lparr>al_amount := charge rq r, al_applicability := Line_Charged\<rparr>, None))"

fun compute_from ::
  "assess_request \<Rightarrow> rate_row list \<Rightarrow> exemption_row list \<Rightarrow> gtime \<Rightarrow> nat \<Rightarrow> string list \<Rightarrow> computation" where
  "compute_from rq rates exemptions as_of index [] = \<lparr>cp_lines = [], cp_exemptions = []\<rparr>"
| "compute_from rq rates exemptions as_of index (i # is) =
     (case assess_instrument rq rates exemptions as_of index i of (line, applied) \<Rightarrow>
        let rest = compute_from rq rates exemptions as_of (Suc index) is
        in \<lparr>cp_lines = line # cp_lines rest,
            cp_exemptions = (case applied of None \<Rightarrow> [] | Some x \<Rightarrow> [x]) @ cp_exemptions rest\<rparr>)"

definition compute_tariff ::
  "assess_request \<Rightarrow> rate_row list \<Rightarrow> exemption_row list \<Rightarrow> gtime \<Rightarrow> computation" where
  "compute_tariff rq rates exemptions as_of = compute_from rq rates exemptions as_of 0 instrument_order"

definition currency_total :: "string \<Rightarrow> assessment_line list \<Rightarrow> int" where
  "currency_total c ls =
     foldl (\<lambda>s l. if al_applicability l = Line_Charged \<and> al_currency l = c then i64 (s + al_amount l) else s) 0 ls"

definition totals :: "computation \<Rightarrow> int \<times> int" where
  "totals c = (currency_total ''USD'' (cp_lines c), currency_total ''NGN'' (cp_lines c))"

end
