(* ===== verification/Tariff_Store.thy ===== *)
theory Tariff_Store
  imports Tariff Database
begin

text \<open>
  \<open>internal/tariff/store.go\<close> over the tables of \<open>0008_tariff.sql\<close>: assessment with replay, the outbox,
  and the maker/checker life of rates and exemptions. Two things the code relies on are parameters:
  \<open>digest\<close>, the hexadecimal SHA-256 of the canonical JSON of a request, and \<open>before\<close>, the database's
  order of texts. A request is stored as JSON and reads back as the request it was.
\<close>

section \<open>Tables\<close>

record rate_rec =
  rw_id :: string
  rw_instrument :: string
  rw_agency :: string
  rw_band_logic :: string
  rw_currency :: string
  rw_minor :: "int option"
  rw_bps :: "int option"
  rw_floor :: int
  rw_ceiling :: "int option"
  rw_reference :: string
  rw_provisional :: bool
  rw_from :: int
  rw_to :: "int option"
  rw_state :: string
  rw_maker :: string
  rw_checker :: "string option"

record exemption_rec =
  xw_id :: string
  xw_instrument :: string
  xw_match_kind :: string
  xw_match_value :: string
  xw_basis :: string
  xw_evidence :: string
  xw_from :: int
  xw_to :: "int option"
  xw_state :: string
  xw_maker :: string
  xw_checker :: "string option"

record assessment_rec =
  aw_id :: string
  aw_key :: string
  aw_hash :: string
  aw_request :: assess_request
  aw_as_of :: int
  aw_usd :: int
  aw_ngn :: int
  aw_requester :: string
  aw_correlation :: string
  aw_created :: int

record line_rec =
  lw_assessment :: string
  lw_line :: assessment_line

record exemption_audit =
  xa_id :: string
  xa_assessment :: string
  xa_exemption :: string
  xa_instrument :: string
  xa_match_kind :: string
  xa_match_value :: string
  xa_basis :: string
  xa_evidence :: string
  xa_requester :: string
  xa_created :: int

datatype tariff_payload =
  Assessment_Created string string int int string string
| Exemption_Applied exemption_audit string
| Rate_Created string string string
| Rate_Activated string string string
| Exemption_Created string string string
| Exemption_Activated string string string

record tariff_event =
  tv_id :: string
  tv_subject :: string
  tv_type :: string
  tv_payload :: tariff_payload
  tv_created :: int

record tariff_db =
  td_rates :: "rate_rec list"
  td_exemptions :: "exemption_rec list"
  td_assessments :: "assessment_rec list"
  td_lines :: "line_rec list"
  td_audits :: "exemption_audit list"
  td_outbox :: "tariff_event list"

definition empty_tariff_db :: tariff_db where
  "empty_tariff_db = \<lparr>td_rates = [], td_exemptions = [], td_assessments = [], td_lines = [],
     td_audits = [], td_outbox = []\<rparr>"

datatype tariff_error =
  Tariff_Not_Found
| Tariff_Key_Conflict
| Tariff_Maker_Checker
| Tariff_Invalid_Transition
| Tariff_Text string
| Tariff_Database string
| Tariff_Duplicate

text \<open>\<open>Tariff_Duplicate\<close> is the unique violation of the insertion of an assessment, handled by the store.\<close>

definition rate_checks :: "rate_rec \<Rightarrow> bool" where
  "rate_checks r \<longleftrightarrow>
     rw_instrument r \<in> set instrument_order \<and> rw_agency r \<in> {''NPA'', ''NIMASA'', ''NIWA'', ''FMMBE''} \<and>
     rw_band_logic r \<in> {band_per_grt, band_gross_freight} \<and> rw_currency r \<in> {''USD'', ''NGN''} \<and>
     (case rw_minor r of None \<Rightarrow> True | Some m \<Rightarrow> 0 < m) \<and> (case rw_bps r of None \<Rightarrow> True | Some b \<Rightarrow> 0 < b) \<and>
     0 \<le> rw_floor r \<and> rw_checker r \<noteq> Some (rw_maker r) \<and>
     (case rw_ceiling r of None \<Rightarrow> True | Some c \<Rightarrow> rw_floor r < c) \<and>
     (rw_band_logic r = band_per_grt \<and> rw_minor r \<noteq> None \<and> rw_bps r = None \<or>
      rw_band_logic r = band_gross_freight \<and> rw_bps r \<noteq> None \<and> rw_minor r = None)"

definition exemption_checks :: "exemption_rec \<Rightarrow> bool" where
  "exemption_checks x \<longleftrightarrow>
     xw_match_kind x \<in> {''ENTITY'', ''CARGO_CATEGORY'', ''VOYAGE_FLAG'', ''CABOTAGE_TRADE''} \<and>
     xw_checker x \<noteq> Some (xw_maker x)"

section \<open>Rows\<close>

definition scan_rate_rec :: "rate_rec \<Rightarrow> rate_row" where
  "scan_rate_rec r = \<lparr>tr_rate_id = rw_id r, tr_instrument = rw_instrument r, tr_agency = rw_agency r,
     tr_band_logic = rw_band_logic r, tr_currency = rw_currency r,
     tr_minor_per_unit = (case rw_minor r of None \<Rightarrow> 0 | Some m \<Rightarrow> m),
     tr_bps = (case rw_bps r of None \<Rightarrow> 0 | Some b \<Rightarrow> b),
     tr_band_floor = rw_floor r, tr_band_ceiling = rw_ceiling r, tr_reference = rw_reference r,
     tr_provisional = rw_provisional r, tr_from = utc_date (rw_from r), tr_to = map_option utc_date (rw_to r),
     tr_state = rw_state r, tr_maker = rw_maker r,
     tr_checker = (case rw_checker r of None \<Rightarrow> [] | Some c \<Rightarrow> c)\<rparr>"

definition scan_exemption :: "exemption_rec \<Rightarrow> exemption_row" where
  "scan_exemption x = \<lparr>ex_id = xw_id x, ex_instrument = xw_instrument x, ex_match_kind = xw_match_kind x,
     ex_match_value = xw_match_value x, ex_basis = xw_basis x, ex_evidence = xw_evidence x,
     ex_from = utc_date (xw_from x), ex_to = map_option utc_date (xw_to x), ex_state = xw_state x,
     ex_maker = xw_maker x, ex_checker = (case xw_checker x of None \<Rightarrow> [] | Some c \<Rightarrow> c)\<rparr>"

definition in_force :: "int \<Rightarrow> string \<Rightarrow> int \<Rightarrow> int option \<Rightarrow> bool" where
  "in_force day state from until \<longleftrightarrow>
     state = ''ACTIVE'' \<and> from \<le> day \<and> (case until of None \<Rightarrow> True | Some t \<Rightarrow> day \<le> t)"

definition list_active_rates ::
  "(string \<Rightarrow> string \<Rightarrow> bool) \<Rightarrow> tariff_db env \<Rightarrow> int \<Rightarrow> tariff_db \<Rightarrow> tariff_error + rate_row list" where
  "list_active_rates before e day d =
     stmt e ''list active rates'' Tariff_Database
       (Inr (map scan_rate_rec
          (sort_by (\<lambda>a b. if rw_instrument a = rw_instrument b then rw_floor a \<le> rw_floor b
                          else before (rw_instrument a) (rw_instrument b))
             (filter (\<lambda>r. in_force day (rw_state r) (rw_from r) (rw_to r)) (td_rates d)))))"

definition list_active_exemptions ::
  "(string \<Rightarrow> string \<Rightarrow> bool) \<Rightarrow> tariff_db env \<Rightarrow> int \<Rightarrow> tariff_db \<Rightarrow> tariff_error + exemption_row list" where
  "list_active_exemptions before e day d =
     stmt e ''list active exemptions'' Tariff_Database
       (Inr (map scan_exemption
          (sort_by (\<lambda>a b. before (xw_id a) (xw_id b))
             (filter (\<lambda>x. in_force day (xw_state x) (xw_from x) (xw_to x)) (td_exemptions d)))))"

definition insert_outbox_tx ::
  "tariff_db env \<Rightarrow> nat \<Rightarrow> string \<Rightarrow> string \<Rightarrow> tariff_payload \<Rightarrow> tariff_db \<Rightarrow> tariff_error + tariff_db" where
  "insert_outbox_tx e n subject type payload d =
     stmt e ''insert outbox event'' Tariff_Database
       (if env_uuid e n \<in> set (map tv_id (td_outbox d)) then Inl (Tariff_Database ''insert outbox event'')
        else Inr (d\<lparr>td_outbox := td_outbox d @ [\<lparr>tv_id = env_uuid e n, tv_subject = subject, tv_type = type,
                      tv_payload = payload, tv_created = env_now e\<rparr>]\<rparr>))"

section \<open>Assessments\<close>

definition canonical_request :: "(assess_request \<Rightarrow> string) \<Rightarrow> assess_request \<Rightarrow> assess_request \<times> string" where
  "canonical_request digest rq = (rq, digest rq)"

definition lookup_by_idempotency ::
  "string \<Rightarrow> tariff_db env \<Rightarrow> string \<Rightarrow> tariff_db \<Rightarrow> tariff_error + string \<times> string" where
  "lookup_by_idempotency label e key d =
     stmt e label Tariff_Database
       (case sql_row (\<lambda>a. aw_key a = key) (td_assessments d) of
          None \<Rightarrow> Inl Tariff_Not_Found | Some a \<Rightarrow> Inr (aw_id a, aw_hash a))"

record assessment =
  sm_id :: string
  sm_request :: assess_request
  sm_as_of :: string
  sm_lines :: "assessment_line list"
  sm_usd :: int
  sm_ngn :: int
  sm_requester :: string
  sm_correlation :: string
  sm_created :: int

definition assessment_lines :: "string \<Rightarrow> tariff_db \<Rightarrow> assessment_line list" where
  "assessment_lines k d =
     sort_by (\<lambda>a b. al_no a \<le> al_no b) (map lw_line (filter (\<lambda>l. lw_assessment l = k) (td_lines d)))"

definition get_assessment :: "tariff_db env \<Rightarrow> string \<Rightarrow> tariff_db \<Rightarrow> tariff_error + assessment" where
  "get_assessment e k d =
     and_then (stmt e ''load assessment'' Tariff_Database
       (case sql_row (\<lambda>a. aw_id a = k) (td_assessments d) of None \<Rightarrow> Inl Tariff_Not_Found | Some a \<Rightarrow> Inr a)) (\<lambda>a.
     and_then (stmt e ''load assessment lines'' Tariff_Database (Inr (assessment_lines k d))) (\<lambda>ls.
     Inr \<lparr>sm_id = aw_id a, sm_request = aw_request a, sm_as_of = format_date (aw_as_of a), sm_lines = ls,
          sm_usd = aw_usd a, sm_ngn = aw_ngn a, sm_requester = aw_requester a,
          sm_correlation = aw_correlation a, sm_created = aw_created a\<rparr>))"

definition list_exemption_audits :: "tariff_db env \<Rightarrow> string \<Rightarrow> tariff_db \<Rightarrow> tariff_error + exemption_audit list" where
  "list_exemption_audits e k d =
     stmt e ''list exemption audits'' Tariff_Database
       (Inr (sort_by (\<lambda>a b. xa_created a \<le> xa_created b) (filter (\<lambda>a. xa_assessment a = k) (td_audits d))))"

definition insert_assessment :: "tariff_db env \<Rightarrow> assessment_rec \<Rightarrow> tariff_db \<Rightarrow> tariff_error + tariff_db" where
  "insert_assessment e a d =
     stmt e ''insert assessment'' Tariff_Database
       (if aw_usd a < 0 \<or> aw_ngn a < 0 then Inl (Tariff_Database ''insert assessment'')
        else if aw_id a \<in> set (map aw_id (td_assessments d)) \<or> aw_key a \<in> set (map aw_key (td_assessments d))
        then Inl Tariff_Duplicate
        else Inr (d\<lparr>td_assessments := td_assessments d @ [a]\<rparr>))"

fun insert_lines :: "tariff_db env \<Rightarrow> string \<Rightarrow> assessment_line list \<Rightarrow> tariff_db \<Rightarrow> tariff_error + tariff_db" where
  "insert_lines e k [] d = Inr d"
| "insert_lines e k (l # ls) d =
     and_then (stmt e ''insert assessment line'' Tariff_Database
       (if al_amount l < 0 \<or> al_applicability l = Line_Unset
           \<or> (\<exists>x \<in> set (td_lines d). lw_assessment x = k \<and> al_no (lw_line x) = al_no l)
        then Inl (Tariff_Database ''insert assessment line'')
        else Inr (d\<lparr>td_lines := td_lines d @ [\<lparr>lw_assessment = k, lw_line = l\<rparr>]\<rparr>)))
       (insert_lines e k ls)"

definition audit_of :: "tariff_db env \<Rightarrow> nat \<Rightarrow> string \<Rightarrow> string \<Rightarrow> exemption_row \<Rightarrow> exemption_audit" where
  "audit_of e n k requester x = \<lparr>xa_id = env_uuid e n, xa_assessment = k, xa_exemption = ex_id x,
     xa_instrument = ex_instrument x, xa_match_kind = ex_match_kind x, xa_match_value = ex_match_value x,
     xa_basis = ex_basis x, xa_evidence = ex_evidence x, xa_requester = requester, xa_created = env_now e\<rparr>"

fun insert_audits ::
  "tariff_db env \<Rightarrow> nat \<Rightarrow> string \<Rightarrow> string \<Rightarrow> string \<Rightarrow> exemption_row list \<Rightarrow> tariff_db \<Rightarrow> tariff_error + tariff_db" where
  "insert_audits e n k requester correlation [] d = Inr d"
| "insert_audits e n k requester correlation (x # xs) d =
     (let a = audit_of e n k requester x
      in and_then (stmt e ''insert exemption audit'' Tariff_Database
           (if xa_id a \<in> set (map xa_id (td_audits d)) \<or> ex_id x \<notin> set (map xw_id (td_exemptions d))
            then Inl (Tariff_Database ''insert exemption audit'')
            else Inr (d\<lparr>td_audits := td_audits d @ [a]\<rparr>))) (\<lambda>d1.
         and_then (insert_outbox_tx e (Suc n) (xa_id a) ''tariff.exemption.applied'' (Exemption_Applied a correlation) d1)
           (insert_audits e (n + 2) k requester correlation xs)))"

definition assess_body ::
  "tariff_db env \<Rightarrow> assessment_rec \<Rightarrow> computation \<Rightarrow> tariff_db \<Rightarrow> tariff_error + unit \<times> tariff_db" where
  "assess_body e a c d =
     and_then (insert_assessment e a d) (\<lambda>d1.
     and_then (insert_lines e (aw_id a) (cp_lines c) d1) (\<lambda>d2.
     and_then (insert_outbox_tx e 1 (aw_id a) ''tariff.assessment.created''
       (Assessment_Created (aw_id a) (format_date (aw_as_of a)) (aw_usd a) (aw_ngn a) (aw_requester a)
          (aw_correlation a)) d2) (\<lambda>d3.
     and_then (insert_audits e 2 (aw_id a) (aw_requester a) (aw_correlation a) (cp_exemptions c) d3) (\<lambda>d4.
     Inr ((), d4)))))"

definition replayed ::
  "tariff_db env \<Rightarrow> string \<Rightarrow> string \<times> string \<Rightarrow> tariff_db \<Rightarrow> tariff_error + assessment" where
  "replayed e hash existing d =
     (if snd existing \<noteq> hash then Inl Tariff_Key_Conflict else get_assessment e (fst existing) d)"

definition persist_assessment ::
  "tariff_db env \<Rightarrow> assessment_rec \<Rightarrow> computation \<Rightarrow> tariff_db \<Rightarrow> (tariff_error + assessment) \<times> tariff_db" where
  "persist_assessment e a c d =
     (case run_tx e ''begin assessment transaction'' ''commit assessment'' Tariff_Database (assess_body e a c) d of
        (Inr _, d') \<Rightarrow> (get_assessment e (aw_id a) d', d')
      | (Inl err, d') \<Rightarrow>
          if err = Tariff_Duplicate then
            (case lookup_by_idempotency ''resolve idempotency key of the twin'' e (aw_key a) d' of
               Inr existing \<Rightarrow> (replayed e (aw_hash a) existing d', d')
             | Inl _ \<Rightarrow> (Inl Tariff_Key_Conflict, d'))
          else (Inl err, d'))"

definition assess ::
  "(assess_request \<Rightarrow> string) \<Rightarrow> (string \<Rightarrow> string \<Rightarrow> bool) \<Rightarrow> tariff_db env \<Rightarrow> assess_request \<Rightarrow> string \<Rightarrow> string
     \<Rightarrow> string \<Rightarrow> gtime \<Rightarrow> tariff_db \<Rightarrow> (tariff_error + assessment) \<times> tariff_db" where
  "assess digest before e rq0 key requester correlation now d =
     (case validate_request rq0 of
        Some err \<Rightarrow> (Inl (Tariff_Text err), d)
      | None \<Rightarrow>
          if key = [] \<or> length key > 128 then (Inl (Tariff_Text ''idempotency key is required''), d)
          else if requester = [] \<or> correlation = []
          then (Inl (Tariff_Text ''requester and correlation id are required''), d)
          else (case (if rq_as_of rq0 = [] then Some (day_of now) else parse_date (rq_as_of rq0)) of
             None \<Rightarrow> (Inl (Tariff_Text ''asOf must be YYYY-MM-DD''), d)
           | Some day \<Rightarrow>
               (let rq = rq0\<lparr>rq_as_of := format_date day\<rparr>; (raw, hash) = canonical_request digest rq
                in case lookup_by_idempotency ''resolve idempotency key'' e key d of
                     Inr existing \<Rightarrow> (replayed e hash existing d, d)
                   | Inl err \<Rightarrow>
                       if err \<noteq> Tariff_Not_Found then (Inl err, d)
                       else (case list_active_rates before e day d of
                          Inl err \<Rightarrow> (Inl err, d)
                        | Inr rates \<Rightarrow>
                            (case list_active_exemptions before e day d of
                               Inl err \<Rightarrow> (Inl err, d)
                             | Inr exemptions \<Rightarrow>
                                 let c = compute_tariff rq rates exemptions (utc_date day); (usd, ngn) = totals c
                                 in persist_assessment e
                                      \<lparr>aw_id = env_uuid e 0, aw_key = key, aw_hash = hash, aw_request = raw,
                                        aw_as_of = day, aw_usd = usd, aw_ngn = ngn, aw_requester = requester,
                                        aw_correlation = correlation, aw_created = env_now e\<rparr> c d)))))"

section \<open>Rates\<close>

definition window_overlaps :: "rate_row \<Rightarrow> rate_rec \<Rightarrow> bool" where
  "window_overlaps r x \<longleftrightarrow>
     rw_instrument x = tr_instrument r \<and> rw_floor x = tr_band_floor r \<and> rw_state x \<noteq> ''RETIRED'' \<and>
     rw_from x \<le> (case tr_to r of None \<Rightarrow> day_of_civil 9999 12 31 | Some t \<Rightarrow> day_of t) \<and>
     (case rw_to x of None \<Rightarrow> True | Some t \<Rightarrow> day_of (tr_from r) \<le> t)"

definition rate_input_error :: "rate_row \<Rightarrow> string \<Rightarrow> string option" where
  "rate_input_error r maker =
     (if maker = [] \<or> tr_rate_id r = [] \<or> tr_reference r = []
      then Some ''rate id, statutory reference and maker are required''
      else if is_zero_time (tr_from r) then Some ''effective_from is required''
      else if tr_band_logic r \<noteq> band_per_grt \<and> tr_band_logic r \<noteq> band_gross_freight
      then Some ''band logic must be PER_GRT_BAND or PERCENT_GROSS_FREIGHT''
      else if tr_band_logic r = band_per_grt \<and> tr_minor_per_unit r \<le> 0
      then Some ''per-GRT rates require a positive minor-per-unit''
      else if tr_band_logic r = band_gross_freight \<and> tr_bps r \<le> 0
      then Some ''freight rates require positive basis points''
      else None)"

definition rate_record :: "rate_row \<Rightarrow> string \<Rightarrow> rate_rec" where
  "rate_record r maker = \<lparr>rw_id = tr_rate_id r, rw_instrument = tr_instrument r, rw_agency = tr_agency r,
     rw_band_logic = tr_band_logic r, rw_currency = tr_currency r,
     rw_minor = (if tr_band_logic r = band_per_grt then Some (tr_minor_per_unit r) else None),
     rw_bps = (if tr_band_logic r = band_per_grt then None else Some (tr_bps r)),
     rw_floor = tr_band_floor r, rw_ceiling = tr_band_ceiling r, rw_reference = tr_reference r,
     rw_provisional = tr_provisional r, rw_from = day_of (tr_from r), rw_to = map_option day_of (tr_to r),
     rw_state = ''DRAFT'', rw_maker = maker, rw_checker = None\<rparr>"

definition create_rate_body ::
  "tariff_db env \<Rightarrow> rate_row \<Rightarrow> string \<Rightarrow> tariff_db \<Rightarrow> tariff_error + rate_row \<times> tariff_db" where
  "create_rate_body e r maker d =
     and_then (stmt e ''check rate window overlap'' Tariff_Database (Inr (\<exists>x \<in> set (td_rates d). window_overlaps r x)))
       (\<lambda>conflict.
         if conflict then Inl Tariff_Invalid_Transition
         else and_then (stmt e ''insert rate'' Tariff_Database
                (if tr_rate_id r \<in> set (map rw_id (td_rates d)) \<or> \<not> rate_checks (rate_record r maker)
                 then Inl (Tariff_Database ''insert rate'')
                 else Inr (d\<lparr>td_rates := td_rates d @ [rate_record r maker]\<rparr>))) (\<lambda>d1.
              and_then (insert_outbox_tx e 0 (tr_rate_id r) ''tariff.rate.created''
                (Rate_Created (tr_rate_id r) (tr_instrument r) maker) d1) (\<lambda>d2.
              Inr (r\<lparr>tr_state := ''DRAFT'', tr_maker := maker\<rparr>, d2))))"

definition create_rate ::
  "tariff_db env \<Rightarrow> rate_row \<Rightarrow> string \<Rightarrow> tariff_db \<Rightarrow> (tariff_error + rate_row) \<times> tariff_db" where
  "create_rate e r maker d =
     (case rate_input_error r maker of
        Some err \<Rightarrow> (Inl (Tariff_Text err), d)
      | None \<Rightarrow> run_tx e ''begin rate transaction'' ''commit rate'' Tariff_Database (create_rate_body e r maker) d)"

definition list_rates_where ::
  "(string \<Rightarrow> string \<Rightarrow> bool) \<Rightarrow> tariff_db env \<Rightarrow> (rate_rec \<Rightarrow> bool) \<Rightarrow> tariff_db \<Rightarrow> tariff_error + rate_row list" where
  "list_rates_where before e p d =
     stmt e ''list rates'' Tariff_Database
       (Inr (map scan_rate_rec
          (sort_by (\<lambda>a b. if rw_instrument a \<noteq> rw_instrument b then before (rw_instrument a) (rw_instrument b)
                          else if rw_floor a \<noteq> rw_floor b then rw_floor a \<le> rw_floor b
                          else rw_from a \<le> rw_from b)
             (filter p (td_rates d)))))"

definition list_rates ::
  "(string \<Rightarrow> string \<Rightarrow> bool) \<Rightarrow> tariff_db env \<Rightarrow> tariff_db \<Rightarrow> tariff_error + rate_row list" where
  "list_rates before e d = list_rates_where before e (\<lambda>_. True) d"

definition get_rate ::
  "(string \<Rightarrow> string \<Rightarrow> bool) \<Rightarrow> tariff_db env \<Rightarrow> string \<Rightarrow> tariff_db \<Rightarrow> tariff_error + rate_row" where
  "get_rate before e k d =
     and_then (list_rates_where before e (\<lambda>r. rw_id r = k) d)
       (\<lambda>rs. case rs of [] \<Rightarrow> Inl Tariff_Not_Found | r # _ \<Rightarrow> Inr r)"

definition activate_rate_body ::
  "tariff_db env \<Rightarrow> string \<Rightarrow> string \<Rightarrow> tariff_db \<Rightarrow> tariff_error + unit \<times> tariff_db" where
  "activate_rate_body e k checker d =
     (let hit = (\<lambda>r. rw_id r = k \<and> rw_state r = ''DRAFT'' \<and> rw_maker r \<noteq> checker);
          upd = (\<lambda>r. r\<lparr>rw_state := ''ACTIVE'', rw_checker := Some checker\<rparr>)
      in and_then (stmt e ''activate rate'' Tariff_Database
           (case sql_row hit (td_rates d) of
              None \<Rightarrow> Inl Tariff_Maker_Checker
            | Some r \<Rightarrow> if rate_checks (upd r) then Inr (rw_maker r, d\<lparr>td_rates := sql_update hit upd (td_rates d)\<rparr>)
                       else Inl (Tariff_Database ''activate rate''))) (\<lambda>(maker, d1).
         and_then (insert_outbox_tx e 0 k ''tariff.rate.activated'' (Rate_Activated k maker checker) d1) (\<lambda>d2.
         Inr ((), d2))))"

definition activate_rate ::
  "(string \<Rightarrow> string \<Rightarrow> bool) \<Rightarrow> tariff_db env \<Rightarrow> string \<Rightarrow> string \<Rightarrow> tariff_db
     \<Rightarrow> (tariff_error + rate_row) \<times> tariff_db" where
  "activate_rate before e k checker d =
     (if checker = [] then (Inl (Tariff_Text ''checker is required''), d)
      else case run_tx e ''begin rate activation'' ''commit rate activation'' Tariff_Database
                  (activate_rate_body e k checker) d of
             (Inl err, d') \<Rightarrow> (Inl err, d')
           | (Inr _, d') \<Rightarrow> (get_rate before e k d', d'))"

section \<open>Exemptions\<close>

definition exemption_input_error :: "exemption_row \<Rightarrow> string \<Rightarrow> string option" where
  "exemption_input_error x maker =
     (if maker = [] \<or> ex_id x = [] \<or> ex_basis x = [] \<or> ex_evidence x = []
      then Some ''exemption id, statutory basis, evidence requirement and maker are required''
      else if ex_match_kind x \<notin> {''ENTITY'', ''CARGO_CATEGORY'', ''VOYAGE_FLAG'', ''CABOTAGE_TRADE''}
      then Some (''match kind '' @ ex_match_kind x @ '' is not supported'')
      else if ex_match_value x = [] \<or> ex_instrument x = [] then Some ''instrument and match value are required''
      else if is_zero_time (ex_from x) then Some ''effective_from is required''
      else None)"

definition exemption_record :: "exemption_row \<Rightarrow> string \<Rightarrow> exemption_rec" where
  "exemption_record x maker = \<lparr>xw_id = ex_id x, xw_instrument = ex_instrument x, xw_match_kind = ex_match_kind x,
     xw_match_value = ex_match_value x, xw_basis = ex_basis x, xw_evidence = ex_evidence x,
     xw_from = day_of (ex_from x), xw_to = map_option day_of (ex_to x), xw_state = ''DRAFT'',
     xw_maker = maker, xw_checker = None\<rparr>"

definition create_exemption_body ::
  "tariff_db env \<Rightarrow> exemption_row \<Rightarrow> string \<Rightarrow> tariff_db \<Rightarrow> tariff_error + exemption_row \<times> tariff_db" where
  "create_exemption_body e x maker d =
     and_then (stmt e ''insert exemption'' Tariff_Database
       (if ex_id x \<in> set (map xw_id (td_exemptions d)) \<or> \<not> exemption_checks (exemption_record x maker)
        then Inl (Tariff_Database ''insert exemption'')
        else Inr (d\<lparr>td_exemptions := td_exemptions d @ [exemption_record x maker]\<rparr>))) (\<lambda>d1.
     and_then (insert_outbox_tx e 0 (ex_id x) ''tariff.exemption.created''
       (Exemption_Created (ex_id x) (ex_instrument x) maker) d1) (\<lambda>d2.
     Inr (x\<lparr>ex_state := ''DRAFT'', ex_maker := maker\<rparr>, d2)))"

definition create_exemption ::
  "tariff_db env \<Rightarrow> exemption_row \<Rightarrow> string \<Rightarrow> tariff_db \<Rightarrow> (tariff_error + exemption_row) \<times> tariff_db" where
  "create_exemption e x maker d =
     (case exemption_input_error x maker of
        Some err \<Rightarrow> (Inl (Tariff_Text err), d)
      | None \<Rightarrow> run_tx e ''begin exemption transaction'' ''commit exemption'' Tariff_Database
                  (create_exemption_body e x maker) d)"

definition get_exemption :: "tariff_db env \<Rightarrow> string \<Rightarrow> tariff_db \<Rightarrow> tariff_error + exemption_row" where
  "get_exemption e k d =
     stmt e ''load exemption'' Tariff_Database
       (case sql_row (\<lambda>x. xw_id x = k) (td_exemptions d) of
          None \<Rightarrow> Inl Tariff_Not_Found | Some x \<Rightarrow> Inr (scan_exemption x))"

definition activate_exemption_body ::
  "tariff_db env \<Rightarrow> string \<Rightarrow> string \<Rightarrow> tariff_db \<Rightarrow> tariff_error + unit \<times> tariff_db" where
  "activate_exemption_body e k checker d =
     (let hit = (\<lambda>x. xw_id x = k \<and> xw_state x = ''DRAFT'' \<and> xw_maker x \<noteq> checker);
          upd = (\<lambda>x. x\<lparr>xw_state := ''ACTIVE'', xw_checker := Some checker\<rparr>)
      in and_then (stmt e ''activate exemption'' Tariff_Database
           (case sql_row hit (td_exemptions d) of
              None \<Rightarrow> Inl Tariff_Maker_Checker
            | Some x \<Rightarrow> if exemption_checks (upd x)
                       then Inr (xw_maker x, d\<lparr>td_exemptions := sql_update hit upd (td_exemptions d)\<rparr>)
                       else Inl (Tariff_Database ''activate exemption''))) (\<lambda>(maker, d1).
         and_then (insert_outbox_tx e 0 k ''tariff.exemption.activated'' (Exemption_Activated k maker checker) d1)
           (\<lambda>d2. Inr ((), d2))))"

definition activate_exemption ::
  "tariff_db env \<Rightarrow> string \<Rightarrow> string \<Rightarrow> tariff_db \<Rightarrow> (tariff_error + exemption_row) \<times> tariff_db" where
  "activate_exemption e k checker d =
     (if checker = [] then (Inl (Tariff_Text ''checker is required''), d)
      else case run_tx e ''begin exemption activation'' ''commit exemption activation'' Tariff_Database
                  (activate_exemption_body e k checker) d of
             (Inl err, d') \<Rightarrow> (Inl err, d')
           | (Inr _, d') \<Rightarrow> (get_exemption e k d', d'))"

end
