(* ===== verification/Tariff_Props.thy ===== *)
theory Tariff_Props
  imports Tariff
begin

text \<open>
  What an assessment says: its shape, its charges within and beyond the width of \<open>int64\<close>, and that it
  does not depend on the order of the rows it is given.
\<close>

section \<open>Lines\<close>

lemma compute_from_lines:
  "cp_lines (compute_from rq rates exs as_of n is) =
     map (\<lambda>(k, i). fst (assess_instrument rq rates exs as_of k i)) (zip [n..<n + length is] is)"
proof (induction "is" arbitrary: n)
  case (Cons i "is")
  have "[n..<n + length (i # is)] = n # [Suc n..<Suc n + length is]" by (simp add: upt_rec)
  then show ?case using Cons.IH [of "Suc n"] by (simp add: Let_def split: prod.split)
qed simp

lemma compute_from_exemptions:
  "cp_exemptions (compute_from rq rates exs as_of n is) =
     List.map_filter (\<lambda>(k, i). snd (assess_instrument rq rates exs as_of k i)) (zip [n..<n + length is] is)"
proof (induction "is" arbitrary: n)
  case (Cons i "is")
  have "[n..<n + length (i # is)] = n # [Suc n..<Suc n + length is]" by (simp add: upt_rec)
  then show ?case
    using Cons.IH [of "Suc n"]
    by (simp add: Let_def List.map_filter_simps split: prod.split option.split)
qed (simp add: List.map_filter_simps)

lemma line_cases:
  obtains (not_applicable) "\<not> fst (applicability_of i rq)"
      "al_applicability (fst (assess_instrument rq rates exs as_of n i)) = Line_Not_Applicable"
      "al_amount (fst (assess_instrument rq rates exs as_of n i)) = 0"
      "snd (assess_instrument rq rates exs as_of n i) = None"
  | (unrated) "find (rate_selected rq as_of i) rates = None"
      "al_applicability (fst (assess_instrument rq rates exs as_of n i)) = Line_Unrated"
      "al_amount (fst (assess_instrument rq rates exs as_of n i)) = 0"
      "snd (assess_instrument rq rates exs as_of n i) = None"
  | (exempt) r x where "find (rate_selected rq as_of i) rates = Some r" "find (exemption_selected rq as_of i) exs = Some x"
      "al_applicability (fst (assess_instrument rq rates exs as_of n i)) = Line_Exempt"
      "al_amount (fst (assess_instrument rq rates exs as_of n i)) = 0"
      "al_exemption (fst (assess_instrument rq rates exs as_of n i)) = ex_id x"
      "snd (assess_instrument rq rates exs as_of n i) = Some x"
  | (charged) r where "find (rate_selected rq as_of i) rates = Some r" "find (exemption_selected rq as_of i) exs = None"
      "fst (applicability_of i rq)"
      "al_applicability (fst (assess_instrument rq rates exs as_of n i)) = Line_Charged"
      "al_amount (fst (assess_instrument rq rates exs as_of n i)) = charge rq r"
      "al_currency (fst (assess_instrument rq rates exs as_of n i)) = tr_currency r"
      "snd (assess_instrument rq rates exs as_of n i) = None"
  by (cases "fst (applicability_of i rq)"; cases "find (rate_selected rq as_of i) rates";
      cases "find (exemption_selected rq as_of i) exs"; simp add: assess_instrument_def Let_def)

lemma line_identity [simp]:
  "al_no (fst (assess_instrument rq rates exs as_of n i)) = Suc n"
  "al_instrument (fst (assess_instrument rq rates exs as_of n i)) = i"
  "al_agency (fst (assess_instrument rq rates exs as_of n i)) = instrument_agency i"
  by (auto simp: assess_instrument_def Let_def split: option.split)

lemma map_zip_fst: "length xs = length ys \<Longrightarrow> map (\<lambda>p. f (fst p)) (zip xs ys) = map f xs"
  by (induction xs ys rule: list_induct2) auto

lemma map_zip_snd: "length xs = length ys \<Longrightarrow> map (\<lambda>p. f (snd p)) (zip xs ys) = map f ys"
  by (induction xs ys rule: list_induct2) auto

lemma exemptions_of_lines:
  "map ex_id (List.map_filter (\<lambda>(k, i). snd (assess_instrument rq rates exs as_of k i)) ps) =
     map al_exemption (filter (\<lambda>l. al_applicability l = Line_Exempt)
       (map (\<lambda>(k, i). fst (assess_instrument rq rates exs as_of k i)) ps))"
proof (induction ps)
  case (Cons p ps)
  obtain n i where p: "p = (n, i)" by (rule prod.exhaust)
  show ?case
    by (rule line_cases [of i rq rates exs as_of n]) (use Cons.IH in \<open>simp_all add: p List.map_filter_simps\<close>)
qed (simp add: List.map_filter_simps)

lemma assessment_shape:
  fixes rq rates exs as_of
  defines "c \<equiv> compute_tariff rq rates exs as_of"
  shows "map al_instrument (cp_lines c) = instrument_order" "map al_no (cp_lines c) = [1, 2, 3, 4, 5, 6]"
    "map al_agency (cp_lines c) = map instrument_agency instrument_order"
    "\<forall>l \<in> set (cp_lines c). al_applicability l \<noteq> Line_Unset \<and> (al_amount l \<noteq> 0 \<longrightarrow> al_applicability l = Line_Charged)"
    "map ex_id (cp_exemptions c) = map al_exemption (filter (\<lambda>l. al_applicability l = Line_Exempt) (cp_lines c))"
proof -
  let ?l = "\<lambda>n i. fst (assess_instrument rq rates exs as_of n i)"
  have lines: "cp_lines c = map (\<lambda>(k, i). ?l k i) (zip [0..<length instrument_order] instrument_order)"
    by (simp add: c_def compute_tariff_def compute_from_lines)
  have "al_applicability (?l n i) \<noteq> Line_Unset \<and>
      (al_amount (?l n i) \<noteq> 0 \<longrightarrow> al_applicability (?l n i) = Line_Charged)" for n i
    by (rule line_cases [of i rq rates exs as_of n]) simp_all
  then show "\<forall>l \<in> set (cp_lines c). al_applicability l \<noteq> Line_Unset \<and>
      (al_amount l \<noteq> 0 \<longrightarrow> al_applicability l = Line_Charged)"
    unfolding lines by auto
  show "map al_instrument (cp_lines c) = instrument_order"
    "map al_agency (cp_lines c) = map instrument_agency instrument_order"
    unfolding lines by (simp_all add: comp_def case_prod_beta map_zip_snd)
  have "map al_no (cp_lines c) = map Suc [0..<length instrument_order]"
    unfolding lines by (simp add: comp_def case_prod_beta map_zip_fst)
  moreover have "map Suc [0..<length instrument_order] = [1, 2, 3, 4, 5, 6]"
    by (simp add: instrument_order_def upt_rec)
  ultimately show "map al_no (cp_lines c) = [1, 2, 3, 4, 5, 6]" by simp
  show "map ex_id (cp_exemptions c) =
      map al_exemption (filter (\<lambda>l. al_applicability l = Line_Exempt) (cp_lines c))"
    unfolding c_def compute_tariff_def compute_from_exemptions exemptions_of_lines compute_from_lines ..
qed

text \<open>C36 Every assessment is well formed. Whatever the declaration, the rows and the date, it has one
  line per statutory instrument, in the statutory order and numbered from one, each with its agency
  and a decided applicability; only charged lines carry an amount, and the applied exemptions are
  exactly those of the exempt lines, in their order.\<close>

theorem assessment_is_well_formed:
  "let c = compute_tariff rq rates exs as_of in
     map al_instrument (cp_lines c) = instrument_order \<and> map al_no (cp_lines c) = [1, 2, 3, 4, 5, 6] \<and>
     map al_agency (cp_lines c) = map instrument_agency instrument_order \<and>
     (\<forall>l \<in> set (cp_lines c). al_applicability l \<noteq> Line_Unset \<and>
        (al_amount l \<noteq> 0 \<longrightarrow> al_applicability l = Line_Charged)) \<and>
     map ex_id (cp_exemptions c) = map al_exemption (filter (\<lambda>l. al_applicability l = Line_Exempt) (cp_lines c))"
  using assessment_shape by (simp add: Let_def)

section \<open>Totals\<close>

text \<open>The sum of the charged lines of a currency, over unbounded integers; the fold of the code wraps around.\<close>

definition charged_sum :: "string \<Rightarrow> assessment_line list \<Rightarrow> int" where
  "charged_sum c ls = sum_list (map al_amount (filter (\<lambda>l. al_applicability l = Line_Charged \<and> al_currency l = c) ls))"

lemma currency_total_sum:
  "currency_total c ls = i64 (charged_sum c ls)"
proof -
  have "foldl (\<lambda>s l. if al_applicability l = Line_Charged \<and> al_currency l = c then i64 (s + al_amount l) else s) (i64 a) ls
      = i64 (a + charged_sum c ls)" for a
    by (induction ls arbitrary: a) (simp_all add: charged_sum_def i64_add_left add.assoc)
  from this [of 0] show ?thesis by (simp add: currency_total_def i64_def)
qed

lemma charged_sum_nonneg: "\<forall>l \<in> set ls. 0 \<le> al_amount l \<Longrightarrow> 0 \<le> charged_sum c ls"
  by (auto simp: charged_sum_def intro!: sum_list_nonneg)

lemma currency_total_exact:
  "\<forall>l \<in> set ls. 0 \<le> al_amount l \<Longrightarrow> charged_sum c ls < 2 ^ 63 \<Longrightarrow> currency_total c ls = charged_sum c ls"
  using charged_sum_nonneg [of ls c] by (simp add: currency_total_sum i64_id)

section \<open>Charges\<close>

lemma nested_half_up:
  assumes "0 \<le> (n :: int)" "0 < d"
  shows "(2 * n div d + 1) div 2 = (2 * n + d) div (2 * d)"
proof -
  have "2 * n div d + 1 = (2 * n + d) div d" using assms(2) div_add_self2 [of d "2 * n"] by simp
  moreover have "(2 * n + d) div d div 2 = (2 * n + d) div (d * 2)"
    using assms by (intro zdiv_zmult2_eq [symmetric]) simp
  ultimately show ?thesis by (simp add: mult.commute)
qed

lemma round_half_up_exact:
  assumes "0 \<le> n" "2 * n < 2 ^ 63" "0 < d"
  shows "round_half_up n d = (2 * n + d) div (2 * d)"
proof -
  have d2: "i64 (2 * n) = 2 * n" using assms by (intro i64_id) simp_all
  have q: "go_div (2 * n) d = 2 * n div d" using assms by (intro go_div_nonneg) simp_all
  have "0 \<le> 2 * n div d" "2 * n div d \<le> 2 * n"
    using assms zdiv_mono2 [of "2 * n" 1 d] by (simp_all add: pos_imp_zdiv_nonneg_iff)
  then have "i64 (2 * n div d + 1) = 2 * n div d + 1 \<and> go_div (2 * n div d + 1) 2 = (2 * n div d + 1) div 2
      \<or> 2 * n div d + 1 = 2 ^ 63"
    using assms by (auto intro!: i64_id go_div_nonneg)
  moreover have "2 * n div d + 1 \<noteq> 2 ^ 63"
  proof
    assume "2 * n div d + 1 = 2 ^ 63"
    then have "2 * n = 2 ^ 63 - 1" using \<open>2 * n div d \<le> 2 * n\<close> assms(2) by linarith
    then have "even ((2 :: int) ^ 63 - 1)" by (metis dvd_triv_left)
    then show False by simp
  qed
  ultimately show ?thesis
    using assms nested_half_up [OF assms(1,3)] by (simp add: round_half_up_def d2 q)
qed

text \<open>The row fits the declaration: its product stays within \<open>int64\<close>, doubled where it is halved.\<close>

definition charge_fits :: "assess_request \<Rightarrow> rate_row \<Rightarrow> bool" where
  "charge_fits rq r \<longleftrightarrow> 0 \<le> rq_grt rq \<and> 0 \<le> tr_minor_per_unit r \<and> rq_grt rq * tr_minor_per_unit r < 2 ^ 63 \<and>
     0 \<le> rq_freight rq \<and> 0 \<le> tr_bps r \<and> 2 * (rq_freight rq * tr_bps r) < 2 ^ 63"

lemma charge_exact:
  assumes "charge_fits rq r"
  shows "charge rq r =
    (if tr_band_logic r = band_per_grt then rq_grt rq * tr_minor_per_unit r
     else if tr_band_logic r = band_gross_freight then (2 * (rq_freight rq * tr_bps r) + 10000) div 20000 else 0)"
proof -
  let ?g = "rq_grt rq * tr_minor_per_unit r" and ?f = "rq_freight rq * tr_bps r"
  have b: "0 \<le> ?g" "?g < 2 ^ 63" "0 \<le> ?f" "2 * ?f < 2 ^ 63"
    using assms unfolding charge_fits_def by simp_all
  have "i64 ?g = ?g" by (rule i64_id) (use b(1,2) in linarith)+
  moreover have "i64 ?f = ?f" by (rule i64_id) (use b(3,4) in linarith)+
  moreover have "round_half_up ?f 10000 = (2 * ?f + 10000) div 20000"
    using round_half_up_exact [OF b(3,4), of 10000] by simp
  ultimately show ?thesis by (simp add: charge_def)
qed

text \<open>What the selections of the engine mean: windows of whole days, both ends included, and half-open bands.\<close>

lemma window_contains_iff:
  "window_contains as_of from until \<longleftrightarrow>
     day_of from \<le> day_of as_of \<and> (\<forall>t. until = Some t \<longrightarrow> day_of as_of \<le> day_of t)"
  by (auto simp: window_contains_def split: option.split)

lemma band_matches_iff:
  "band_matches r grt \<longleftrightarrow>
     (tr_band_logic r = band_per_grt \<longrightarrow>
        tr_band_floor r \<le> grt \<and> (\<forall>c. tr_band_ceiling r = Some c \<longrightarrow> grt < c))"
  by (auto simp: band_matches_def split: option.split)

lemma exemption_matches_iff:
  "exemption_matches x rq \<longleftrightarrow>
     ex_match_kind x = ''ENTITY'' \<and> ex_match_value x = rq_entity rq \<or>
     ex_match_kind x = ''CARGO_CATEGORY'' \<and> ex_match_value x = rq_cargo rq \<or>
     ex_match_kind x = ''VOYAGE_FLAG'' \<and> ex_match_value x \<in> set (rq_flags rq) \<or>
     ex_match_kind x = ''CABOTAGE_TRADE'' \<and> rq_voyage rq = ''CABOTAGE''"
  by (auto simp: exemption_matches_def)

lemma applicability_of_iff:
  "fst (applicability_of i rq) \<longleftrightarrow>
     i \<in> {NPA_ship_dues, NPA_levy_act, SPL_2012} \<and> rq_port_call rq \<or>
     i = cabotage_surcharge \<and> rq_voyage rq = ''CABOTAGE'' \<or>
     i = LNG_due \<and> rq_class rq = ''LNG_CARRIER'' \<and> rq_port_call rq \<or>
     i = NIWA_charge \<and> rq_route rq = ''INLAND_WATERWAY''"
  by (auto simp: applicability_of_def)

lemmas selection_iffs = rate_selected_def exemption_selected_def window_contains_iff band_matches_iff exemption_matches_iff

text \<open>C35 Charges follow an active rate. Each charged line of an assessment is one the declaration owes (a Nigerian
  port call for the ship dues, the levies and, on an LNG carrier, the LNG due; coastal trade for the surcharge; inland
  waterways for the NIWA charge), and was priced by a row of the table that is of that instrument, ACTIVE, in force on
  the day of the assessment, its first and last day included, and, where it is priced by tonnage, of the band that
  contains the vessel, floor included and ceiling excluded. No exemption of the instrument that is ACTIVE and in force
  on that day matches the declaration by its entity, cargo, flags or coastal trade. While the products of the rows
  stay within \<open>int64\<close> (\<open>charge_fits\<close>) the amount is tonnage times the unit rate, or the basis points of the freight
  rounded half up.\<close>

theorem charges_follow_an_active_rate:
  assumes "l \<in> set (cp_lines (compute_tariff rq rates exs as_of))" and "al_applicability l = Line_Charged"
    and "\<forall>r \<in> set rates. charge_fits rq r"
  shows "\<exists>r \<in> set rates. tr_instrument r = al_instrument l \<and> tr_state r = ''ACTIVE'' \<and>
    day_of (tr_from r) \<le> day_of as_of \<and> (\<forall>t. tr_to r = Some t \<longrightarrow> day_of as_of \<le> day_of t) \<and>
    (tr_band_logic r = band_per_grt \<longrightarrow>
       tr_band_floor r \<le> rq_grt rq \<and> (\<forall>c. tr_band_ceiling r = Some c \<longrightarrow> rq_grt rq < c)) \<and>
    al_currency l = tr_currency r \<and>
    (al_instrument l \<in> {NPA_ship_dues, NPA_levy_act, SPL_2012} \<and> rq_port_call rq \<or>
     al_instrument l = cabotage_surcharge \<and> rq_voyage rq = ''CABOTAGE'' \<or>
     al_instrument l = LNG_due \<and> rq_class rq = ''LNG_CARRIER'' \<and> rq_port_call rq \<or>
     al_instrument l = NIWA_charge \<and> rq_route rq = ''INLAND_WATERWAY'') \<and>
    (\<forall>x \<in> set exs. ex_instrument x = al_instrument l \<and> ex_state x = ''ACTIVE'' \<and>
       day_of (ex_from x) \<le> day_of as_of \<and> (\<forall>t. ex_to x = Some t \<longrightarrow> day_of as_of \<le> day_of t) \<longrightarrow>
       \<not> (ex_match_kind x = ''ENTITY'' \<and> ex_match_value x = rq_entity rq \<or>
          ex_match_kind x = ''CARGO_CATEGORY'' \<and> ex_match_value x = rq_cargo rq \<or>
          ex_match_kind x = ''VOYAGE_FLAG'' \<and> ex_match_value x \<in> set (rq_flags rq) \<or>
          ex_match_kind x = ''CABOTAGE_TRADE'' \<and> rq_voyage rq = ''CABOTAGE'')) \<and>
    al_amount l = (if tr_band_logic r = band_per_grt then rq_grt rq * tr_minor_per_unit r
      else if tr_band_logic r = band_gross_freight then (2 * (rq_freight rq * tr_bps r) + 10000) div 20000
      else 0)"
proof -
  obtain n i where l: "l = fst (assess_instrument rq rates exs as_of n i)"
    using assms(1) by (auto simp: compute_tariff_def compute_from_lines)
  show ?thesis
  proof (rule line_cases [of i rq rates exs as_of n])
    fix r assume r: "find (rate_selected rq as_of i) rates = Some r"
      "find (exemption_selected rq as_of i) exs = None" "fst (applicability_of i rq)"
      "al_amount (fst (assess_instrument rq rates exs as_of n i)) = charge rq r"
      "al_currency (fst (assess_instrument rq rates exs as_of n i)) = tr_currency r"
    have mem: "r \<in> set rates" and sel: "rate_selected rq as_of i r" using r(1) by (auto simp: find_Some_iff)
    have none: "\<forall>x \<in> set exs. \<not> exemption_selected rq as_of i x" using r(2) by (auto simp: find_None_iff)
    have "al_amount l = charge rq r" "charge_fits rq r" using r(4) assms(3) mem by (simp_all add: l)
    then show ?thesis
      using sel none r(3,5) unfolding selection_iffs applicability_of_iff
      by (intro bexI [OF _ mem] conjI) (simp_all add: l charge_exact, blast)
  qed (use assms(2) in \<open>simp_all add: l\<close>)
qed

definition demo_declaration :: assess_request where
  "demo_declaration = \<lparr>rq_grt = 30000, rq_class = ''LNG_CARRIER'', rq_entity = ''NLNG'', rq_cargo = ''LNG_EXPORT'',
     rq_voyage = ''INTERNATIONAL'', rq_route = ''SEA'', rq_port_call = True, rq_freight = 123456725,
     rq_flags = [], rq_as_of = ''2026-03-01''\<rparr>"

definition demo_ship_dues :: rate_row where
  "demo_ship_dues = \<lparr>tr_rate_id = ''rate-npa-ship-dues-2007'', tr_instrument = NPA_ship_dues, tr_agency = ''NPA'',
     tr_band_logic = band_per_grt, tr_currency = ''USD'', tr_minor_per_unit = 147, tr_bps = 0,
     tr_band_floor = 0, tr_band_ceiling = None, tr_reference = ''NPA Act ship dues'', tr_provisional = False,
     tr_from = utc_date 13514, tr_to = None, tr_state = ''ACTIVE'', tr_maker = ''seed-tariff'',
     tr_checker = ''seed-tariff-review''\<rparr>"

definition demo_levy :: rate_row where
  "demo_levy = demo_ship_dues\<lparr>tr_rate_id := ''rate-spl-2012'', tr_instrument := SPL_2012, tr_agency := ''NIMASA'',
     tr_band_logic := band_gross_freight, tr_minor_per_unit := 0, tr_bps := 20, tr_provisional := True\<rparr>"

definition demo_lng_due :: rate_row where
  "demo_lng_due = demo_ship_dues\<lparr>tr_rate_id := ''rate-nimasa-lng-due-2008'', tr_instrument := LNG_due,
     tr_agency := ''NIMASA'', tr_minor_per_unit := 30\<rparr>"

definition demo_nlng :: exemption_row where
  "demo_nlng = \<lparr>ex_id = ''exemption-nlng-lng-due'', ex_instrument = LNG_due, ex_match_kind = ''ENTITY'',
     ex_match_value = ''NLNG'', ex_basis = ''NIMASA Act 2007 s.19'', ex_evidence = ''registration certificate'',
     ex_from = utc_date 13879, ex_to = None, ex_state = ''ACTIVE'', ex_maker = ''seed-tariff'',
     ex_checker = ''seed-tariff-review''\<rparr>"

lemmas demo_rows = demo_declaration_def demo_ship_dues_def demo_levy_def demo_lng_due_def demo_nlng_def

lemma demo_instruments [simp]:
  "tr_instrument demo_ship_dues = NPA_ship_dues" "tr_instrument demo_levy = SPL_2012"
  "tr_instrument demo_lng_due = LNG_due" "ex_instrument demo_nlng = LNG_due"
  by (simp_all add: demo_rows)

definition demo_assessment :: computation where
  "demo_assessment = compute_tariff demo_declaration [demo_ship_dues, demo_levy, demo_lng_due] [demo_nlng] (utc_date 20513)"

theorem assessment_is_well_formed_witness:
  "map al_no (cp_lines demo_assessment) = [1, 2, 3, 4, 5, 6]"
  using assessment_is_well_formed [of demo_declaration "[demo_ship_dues, demo_levy, demo_lng_due]" "[demo_nlng]" "utc_date 20513"]
  by (simp add: Let_def demo_assessment_def)

lemma demo_levy_line:
  assumes "rq_port_call rq" "tr_state (r :: rate_row) = ''ACTIVE''" "tr_instrument r = SPL_2012"
    "window_contains as_of (tr_from r) (tr_to r)" "tr_band_logic r = band_gross_freight"
    and "find (rate_selected rq as_of SPL_2012) rates = Some r" "find (exemption_selected rq as_of SPL_2012) exs = None"
  shows "al_applicability (fst (assess_instrument rq rates exs as_of n SPL_2012)) = Line_Charged \<and>
    al_amount (fst (assess_instrument rq rates exs as_of n SPL_2012)) = round_half_up (i64 (rq_freight rq * tr_bps r)) 10000 \<and>
    al_currency (fst (assess_instrument rq rates exs as_of n SPL_2012)) = tr_currency r"
proof -
  have "fst (applicability_of SPL_2012 rq)" using assms(1) by (simp add: applicability_of_def)
  then show ?thesis using assms by (simp add: assess_instrument_def Let_def charge_def)
qed

lemma demo_levy_selected:
  "find (rate_selected demo_declaration (utc_date 20513) SPL_2012) [demo_ship_dues, demo_levy, demo_lng_due] = Some demo_levy"
  "find (exemption_selected demo_declaration (utc_date 20513) SPL_2012) [demo_nlng] = None"
  by (simp_all add: rate_selected_def exemption_selected_def window_contains_def band_matches_def demo_rows)

theorem charges_follow_an_active_rate_witness:
  "\<exists>r \<in> {demo_ship_dues, demo_levy, demo_lng_due}. tr_instrument r = SPL_2012 \<and> tr_state r = ''ACTIVE'' \<and> tr_currency r = ''USD''"
proof -
  let ?rates = "[demo_ship_dues, demo_levy, demo_lng_due]"
  let ?l = "fst (assess_instrument demo_declaration ?rates [demo_nlng] (utc_date 20513) 2 SPL_2012)"
  have "(2, SPL_2012) \<in> set (zip [0..<length instrument_order] instrument_order)"
    by (simp add: instrument_order_def upt_rec)
  then have l: "?l \<in> set (cp_lines (compute_tariff demo_declaration ?rates [demo_nlng] (utc_date 20513)))"
    unfolding compute_tariff_def compute_from_lines by force
  have c: "al_applicability ?l = Line_Charged" "al_currency ?l = tr_currency demo_levy"
    using demo_levy_line [OF _ _ _ _ _ demo_levy_selected, of 2]
    by (simp_all add: demo_rows window_contains_def)
  have fits: "\<forall>r \<in> set ?rates. charge_fits demo_declaration r"
    by (simp add: charge_fits_def demo_rows)
  obtain r where "r \<in> set ?rates" "tr_instrument r = al_instrument ?l" "tr_state r = ''ACTIVE''" "al_currency ?l = tr_currency r"
    using charges_follow_an_active_rate [OF l c(1) fits] by blast
  then show ?thesis using c(2) by (intro bexI [of _ r]) (simp_all add: demo_levy_def demo_ship_dues_def)
qed

text \<open>Beyond that width the engine does not fail: this valid declaration is charged nothing.\<close>

lemma overflowing_freight_is_charged_nothing:
  defines "rq \<equiv> demo_declaration\<lparr>rq_freight := 500000000000000000\<rparr>"
  shows "validate_request rq = None"
    and "al_applicability (fst (assess_instrument rq [demo_levy] [] (utc_date 20513) 2 SPL_2012)) = Line_Charged"
    and "al_amount (fst (assess_instrument rq [demo_levy] [] (utc_date 20513) 2 SPL_2012)) = 0"
proof -
  show "validate_request rq = None" unfolding rq_def by code_simp
  have "find (rate_selected rq (utc_date 20513) SPL_2012) [demo_levy] = Some demo_levy"
    "find (exemption_selected rq (utc_date 20513) SPL_2012) [] = None"
    by (simp_all add: rq_def rate_selected_def window_contains_def band_matches_def demo_rows)
  from demo_levy_line [OF _ _ _ _ _ this, of 2]
  show "al_applicability (fst (assess_instrument rq [demo_levy] [] (utc_date 20513) 2 SPL_2012)) = Line_Charged"
    "al_amount (fst (assess_instrument rq [demo_levy] [] (utc_date 20513) 2 SPL_2012)) = 0"
    by (simp_all add: rq_def demo_rows window_contains_def i64_def round_half_up_def)
qed

text \<open>The window of a row includes its last day.\<close>

lemma window_includes_last_day: "window_contains (utc_date n) (utc_date m) (Some (utc_date n)) \<longleftrightarrow> m \<le> n"
  by (auto simp: window_contains_def)

section \<open>Order of the rows\<close>

lemma find_unique:
  assumes "set xs = set ys" and "\<And>x y. x \<in> set xs \<Longrightarrow> y \<in> set xs \<Longrightarrow> P x \<Longrightarrow> P y \<Longrightarrow> x = y"
  shows "find P xs = find P ys"
proof (cases "find P xs")
  case None
  then have "find P ys = None" using assms(1) by (simp add: find_None_iff)
  then show ?thesis using None by simp
next
  case (Some x)
  then have x: "x \<in> set xs" "P x" by (auto simp: find_Some_iff)
  then obtain y where y: "find P ys = Some y"
    using assms(1) by (cases "find P ys") (auto simp: find_None_iff)
  then have "y \<in> set ys" "P y" by (auto simp: find_Some_iff)
  then show ?thesis using x y Some assms by metis
qed

text \<open>An assessment does not depend on the order of the rows. When at most one rate and at most one
  exemption is eligible for each instrument, any two listings of the same rows give the same
  assessment, line for line.\<close>

theorem assessment_ignores_row_order:
  assumes "set rates = set rates'" and "set exs = set exs'"
    and "\<And>i r r'. r \<in> set rates \<Longrightarrow> r' \<in> set rates \<Longrightarrow> rate_selected rq as_of i r \<Longrightarrow> rate_selected rq as_of i r' \<Longrightarrow> r = r'"
    and "\<And>i x x'. x \<in> set exs \<Longrightarrow> x' \<in> set exs \<Longrightarrow> exemption_selected rq as_of i x \<Longrightarrow>
      exemption_selected rq as_of i x' \<Longrightarrow> x = x'"
  shows "compute_tariff rq rates exs as_of = compute_tariff rq rates' exs' as_of"
proof -
  have f: "find (rate_selected rq as_of i) rates = find (rate_selected rq as_of i) rates'"
    "find (exemption_selected rq as_of i) exs = find (exemption_selected rq as_of i) exs'" for i
    by (rule find_unique [OF assms(1)], erule (3) assms(3), rule find_unique [OF assms(2)], erule (3) assms(4))
  have "assess_instrument rq rates exs as_of n i = assess_instrument rq rates' exs' as_of n i" for n i
    unfolding assess_instrument_def f ..
  then have "compute_from rq rates exs as_of n is = compute_from rq rates' exs' as_of n is" for n "is"
    by (induction "is" arbitrary: n) simp_all
  then show ?thesis by (simp add: compute_tariff_def)
qed

theorem assessment_ignores_row_order_witness:
  "compute_tariff demo_declaration [demo_lng_due, demo_levy, demo_ship_dues] [demo_nlng] (utc_date 20513) = demo_assessment"
  unfolding demo_assessment_def
  by (rule assessment_ignores_row_order)
    (auto simp: rate_selected_def)

end
