(* ===== verification/Tariff_Inv.thy ===== *)
theory Tariff_Inv
  imports Tariff_Store Tariff_Props
begin

text \<open>
  The invariant of the tariff tables, under any clock, failure and interleaving: rates and exemptions
  are dual-controlled, every assessment has the lines, totals and audit rows of one computation, and
  what is stored of an assessment never changes.
\<close>

section \<open>The invariant\<close>

definition controlled :: "string \<Rightarrow> string \<Rightarrow> string option \<Rightarrow> bool" where
  "controlled state maker checker \<longleftrightarrow>
     state = ''DRAFT'' \<and> checker = None \<or>
     state = ''ACTIVE'' \<and> (\<exists>c. checker = Some c \<and> c \<noteq> maker \<and> c \<noteq> [])"

definition lines_of :: "string \<Rightarrow> tariff_db \<Rightarrow> assessment_line list" where
  "lines_of k d = map lw_line (filter (\<lambda>l. lw_assessment l = k) (td_lines d))"

definition audits_of :: "string \<Rightarrow> tariff_db \<Rightarrow> exemption_audit list" where
  "audits_of k d = filter (\<lambda>a. xa_assessment a = k) (td_audits d)"

definition assessment_ok :: "tariff_db \<Rightarrow> assessment_rec \<Rightarrow> bool" where
  "assessment_ok d a \<longleftrightarrow>
     (let ls = lines_of (aw_id a) d in
        map al_instrument ls = instrument_order \<and> map al_no ls = [1, 2, 3, 4, 5, 6] \<and>
        (\<forall>l \<in> set ls. 0 \<le> al_amount l) \<and>
        aw_usd a = currency_total ''USD'' ls \<and> aw_ngn a = currency_total ''NGN'' ls \<and>
        map xa_exemption (audits_of (aw_id a) d) =
          map al_exemption (filter (\<lambda>l. al_applicability l = Line_Exempt) ls))"

definition tariff_db_ok :: "tariff_db \<Rightarrow> bool" where
  "tariff_db_ok d \<longleftrightarrow>
     (\<forall>r \<in> set (td_rates d). controlled (rw_state r) (rw_maker r) (rw_checker r)) \<and>
     (\<forall>x \<in> set (td_exemptions d). controlled (xw_state x) (xw_maker x) (xw_checker x)) \<and>
     distinct (map aw_id (td_assessments d)) \<and> distinct (map aw_key (td_assessments d)) \<and>
     (\<forall>l \<in> set (td_lines d). lw_assessment l \<in> set (map aw_id (td_assessments d))) \<and>
     (\<forall>a \<in> set (td_audits d). xa_assessment a \<in> set (map aw_id (td_assessments d))) \<and>
     (\<forall>a \<in> set (td_assessments d). assessment_ok d a)"

text \<open>What is stored of an assessment stays.\<close>

definition keeps_assessments :: "tariff_db \<Rightarrow> tariff_db \<Rightarrow> bool" where
  "keeps_assessments d d' \<longleftrightarrow>
     (\<forall>a \<in> set (td_assessments d). a \<in> set (td_assessments d') \<and>
        lines_of (aw_id a) d' = lines_of (aw_id a) d \<and> audits_of (aw_id a) d' = audits_of (aw_id a) d)"

lemma keeps_assessments_refl [simp]: "keeps_assessments d d"
  by (simp add: keeps_assessments_def)

lemma keeps_assessments_trans:
  "keeps_assessments a b \<Longrightarrow> keeps_assessments b c \<Longrightarrow> keeps_assessments a c"
  by (simp add: keeps_assessments_def)

definition tariff_env :: "tariff_db env \<Rightarrow> bool" where
  "tariff_env e \<longleftrightarrow> (\<forall>d. tariff_db_ok d \<longrightarrow> tariff_db_ok (env_other e d) \<and> keeps_assessments d (env_other e d))"

lemma tariff_env_quiet [simp]: "tariff_env (quiet_env t u)"
  by (simp add: tariff_env_def)

definition good_step :: "tariff_db \<Rightarrow> tariff_db \<Rightarrow> bool" where
  "good_step d d' \<longleftrightarrow> tariff_db_ok d' \<and> keeps_assessments d d'"

lemma good_step_refl: "tariff_db_ok d \<Longrightarrow> good_step d d"
  by (simp add: good_step_def)

lemma good_tx:
  assumes "tariff_db_ok d" "tariff_env e"
    and body: "\<And>d a d'. tariff_db_ok d \<Longrightarrow> body d = Inr (a, d') \<Longrightarrow> good_step d d'"
  shows "good_step d (snd (run_tx e b c mk body d))"
proof (rule run_tx_inv [where P = "good_step d"])
  show o: "good_step d (env_other e d)" using assms(1,2) by (simp add: tariff_env_def good_step_def)
  show "good_step d d'" if "body (env_other e d) = Inr (a, d')" for a d'
    using body [OF _ that] o keeps_assessments_trans by (auto simp: good_step_def)
qed

text \<open>Changes outside the assessments.\<close>

lemma same_assessments:
  assumes "tariff_db_ok d" "td_assessments d' = td_assessments d" "td_lines d' = td_lines d" "td_audits d' = td_audits d"
    and "\<And>r. r \<in> set (td_rates d') \<Longrightarrow> controlled (rw_state r) (rw_maker r) (rw_checker r)"
    and "\<And>x. x \<in> set (td_exemptions d') \<Longrightarrow> controlled (xw_state x) (xw_maker x) (xw_checker x)"
  shows "good_step d d'"
  using assms
  by (auto simp: good_step_def tariff_db_ok_def keeps_assessments_def lines_of_def audits_of_def assessment_ok_def)

lemma insert_outbox_Inr:
  "insert_outbox_tx e n s t p d = Inr d' \<Longrightarrow> \<exists>ev. d' = d\<lparr>td_outbox := td_outbox d @ [ev]\<rparr>"
  by (auto simp: insert_outbox_tx_def stmt_Inr_iff split: if_splits)

section \<open>Rates and exemptions\<close>

lemma create_rate_good:
  assumes "tariff_db_ok d" "create_rate_body e r maker d = Inr (a, d')"
  shows "good_step d d'"
  by (rule same_assessments [OF assms(1)])
    (use assms in \<open>auto simp: create_rate_body_def and_then_Inr_iff stmt_Inr_iff rate_record_def controlled_def
      tariff_db_ok_def dest!: insert_outbox_Inr split: if_splits\<close>)

lemma activate_rate_good:
  assumes "tariff_db_ok d" "checker \<noteq> []" "activate_rate_body e k checker d = Inr (a, d')"
  shows "good_step d d'"
proof -
  let ?hit = "\<lambda>r. rw_id r = k \<and> rw_state r = ''DRAFT'' \<and> rw_maker r \<noteq> checker"
  let ?upd = "\<lambda>r. r\<lparr>rw_state := ''ACTIVE'', rw_checker := Some checker\<rparr>"
  have d': "td_rates d' = sql_update ?hit ?upd (td_rates d)" "td_exemptions d' = td_exemptions d"
    "td_assessments d' = td_assessments d" "td_lines d' = td_lines d" "td_audits d' = td_audits d"
    using assms(3) by (auto simp: activate_rate_body_def and_then_Inr_iff stmt_Inr_iff Let_def
        dest!: insert_outbox_Inr split: if_splits option.splits)
  have "controlled (rw_state r) (rw_maker r) (rw_checker r)" if "r \<in> set (td_rates d')" for r
    by (rule sql_update_inv [OF _ _ that [unfolded d'(1)]])
      (use assms(1,2) in \<open>force simp: tariff_db_ok_def controlled_def\<close>)+
  then show ?thesis
    using assms(1) by (intro same_assessments) (simp_all add: d' tariff_db_ok_def)
qed

lemma create_exemption_good:
  assumes "tariff_db_ok d" "create_exemption_body e x maker d = Inr (a, d')"
  shows "good_step d d'"
  by (rule same_assessments [OF assms(1)])
    (use assms in \<open>auto simp: create_exemption_body_def and_then_Inr_iff stmt_Inr_iff exemption_record_def
      controlled_def tariff_db_ok_def dest!: insert_outbox_Inr split: if_splits\<close>)

lemma activate_exemption_good:
  assumes "tariff_db_ok d" "checker \<noteq> []" "activate_exemption_body e k checker d = Inr (a, d')"
  shows "good_step d d'"
proof -
  let ?hit = "\<lambda>x. xw_id x = k \<and> xw_state x = ''DRAFT'' \<and> xw_maker x \<noteq> checker"
  let ?upd = "\<lambda>x. x\<lparr>xw_state := ''ACTIVE'', xw_checker := Some checker\<rparr>"
  have d': "td_exemptions d' = sql_update ?hit ?upd (td_exemptions d)" "td_rates d' = td_rates d"
    "td_assessments d' = td_assessments d" "td_lines d' = td_lines d" "td_audits d' = td_audits d"
    using assms(3) by (auto simp: activate_exemption_body_def and_then_Inr_iff stmt_Inr_iff Let_def
        dest!: insert_outbox_Inr split: if_splits option.splits)
  have "controlled (xw_state x) (xw_maker x) (xw_checker x)" if "x \<in> set (td_exemptions d')" for x
    by (rule sql_update_inv [OF _ _ that [unfolded d'(1)]])
      (use assms(1,2) in \<open>force simp: tariff_db_ok_def controlled_def\<close>)+
  then show ?thesis
    using assms(1) by (intro same_assessments) (simp_all add: d' tariff_db_ok_def)
qed

section \<open>Assessments\<close>

lemma insert_lines_Inr:
  "insert_lines e k ls d = Inr d' \<Longrightarrow>
     d' = d\<lparr>td_lines := td_lines d @ map (\<lambda>l. \<lparr>lw_assessment = k, lw_line = l\<rparr>) ls\<rparr> \<and>
     (\<forall>l \<in> set ls. 0 \<le> al_amount l)"
proof (induction ls arbitrary: d)
  case (Cons l ls)
  have l: "0 \<le> al_amount l" "insert_lines e k ls (d\<lparr>td_lines := td_lines d @ [\<lparr>lw_assessment = k, lw_line = l\<rparr>]\<rparr>) = Inr d'"
    using Cons.prems by (auto simp: and_then_Inr_iff stmt_Inr_iff split: if_splits)
  show ?case using l(1) Cons.IH [OF l(2)] by simp
qed simp

lemma insert_audits_Inr:
  "insert_audits e n k rq co xs d = Inr d' \<Longrightarrow>
     \<exists>as. td_audits d' = td_audits d @ as \<and> map xa_exemption as = map ex_id xs \<and> (\<forall>a \<in> set as. xa_assessment a = k) \<and>
       td_rates d' = td_rates d \<and> td_exemptions d' = td_exemptions d \<and>
       td_assessments d' = td_assessments d \<and> td_lines d' = td_lines d"
proof (induction xs arbitrary: n d)
  case (Cons x xs)
  obtain d1 where d1: "td_audits d1 = td_audits d @ [audit_of e n k rq x]" "td_rates d1 = td_rates d"
    "td_exemptions d1 = td_exemptions d" "td_assessments d1 = td_assessments d" "td_lines d1 = td_lines d"
    and rest: "insert_audits e (n + 2) k rq co xs d1 = Inr d'"
  proof -
    let ?d = "d\<lparr>td_audits := td_audits d @ [audit_of e n k rq x]\<rparr>"
    obtain d1 where "insert_outbox_tx e (Suc n) (xa_id (audit_of e n k rq x)) ''tariff.exemption.applied''
        (Exemption_Applied (audit_of e n k rq x) co) ?d = Inr d1" "insert_audits e (n + 2) k rq co xs d1 = Inr d'"
      using Cons.prems by (auto simp: Let_def and_then_Inr_iff stmt_Inr_iff split: if_splits)
    then show ?thesis using that [of d1] by (auto dest!: insert_outbox_Inr)
  qed
  from Cons.IH [OF rest] obtain "as" where "td_audits d' = td_audits d1 @ as" "map xa_exemption as = map ex_id xs"
    "\<forall>a \<in> set as. xa_assessment a = k" "td_rates d' = td_rates d1" "td_exemptions d' = td_exemptions d1"
    "td_assessments d' = td_assessments d1" "td_lines d' = td_lines d1"
    by blast
  then show ?case
    using d1 by (intro exI [of _ "audit_of e n k rq x # as"]) (simp add: audit_of_def)
qed simp

lemma assess_body_Inr:
  assumes "assess_body e a c d = Inr (u, d')"
  obtains "as" where "td_assessments d' = td_assessments d @ [a]"
    "td_lines d' = td_lines d @ map (\<lambda>l. \<lparr>lw_assessment = aw_id a, lw_line = l\<rparr>) (cp_lines c)"
    "td_audits d' = td_audits d @ as" "map xa_exemption as = map ex_id (cp_exemptions c)"
    "\<forall>x \<in> set as. xa_assessment x = aw_id a" "\<forall>l \<in> set (cp_lines c). 0 \<le> al_amount l"
    "td_rates d' = td_rates d" "td_exemptions d' = td_exemptions d"
    "aw_id a \<notin> set (map aw_id (td_assessments d))" "aw_key a \<notin> set (map aw_key (td_assessments d))"
proof -
  obtain d1 d2 d3 where 1: "insert_assessment e a d = Inr d1"
    and 2: "insert_lines e (aw_id a) (cp_lines c) d1 = Inr d2" and 3: "\<exists>ev. d3 = d2\<lparr>td_outbox := td_outbox d2 @ [ev]\<rparr>"
    and 4: "insert_audits e 2 (aw_id a) (aw_requester a) (aw_correlation a) (cp_exemptions c) d3 = Inr d'"
    using assms by (auto simp: assess_body_def and_then_Inr_iff dest!: insert_outbox_Inr)
  have "d1 = d\<lparr>td_assessments := td_assessments d @ [a]\<rparr>" "aw_id a \<notin> set (map aw_id (td_assessments d))"
    "aw_key a \<notin> set (map aw_key (td_assessments d))"
    using 1 by (auto simp: insert_assessment_def stmt_Inr_iff split: if_splits)
  then show ?thesis
    using that insert_lines_Inr [OF 2] 3 insert_audits_Inr [OF 4] by fastforce
qed

lemma assess_body_good:
  assumes ok: "tariff_db_ok d" and body: "assess_body e a c d = Inr (u, d')"
    and c: "c = compute_tariff rq rates exs as_of" "(aw_usd a, aw_ngn a) = totals c"
  shows "good_step d d'"
proof -
  obtain "as" where b: "td_assessments d' = td_assessments d @ [a]"
    "td_lines d' = td_lines d @ map (\<lambda>l. \<lparr>lw_assessment = aw_id a, lw_line = l\<rparr>) (cp_lines c)"
    "td_audits d' = td_audits d @ as" "map xa_exemption as = map ex_id (cp_exemptions c)"
    "\<forall>x \<in> set as. xa_assessment x = aw_id a" "\<forall>l \<in> set (cp_lines c). 0 \<le> al_amount l"
    "td_rates d' = td_rates d" "td_exemptions d' = td_exemptions d"
    "aw_id a \<notin> set (map aw_id (td_assessments d))" "aw_key a \<notin> set (map aw_key (td_assessments d))"
    by (rule assess_body_Inr [OF body])
  have old: "lines_of k d' = lines_of k d \<and> audits_of k d' = audits_of k d" if "k \<noteq> aw_id a" for k
    using that b(2,3,5) by (simp add: lines_of_def audits_of_def filter_empty_conv)
  have "lines_of (aw_id a) d = [] \<and> audits_of (aw_id a) d = []"
    using ok b(9) unfolding tariff_db_ok_def lines_of_def audits_of_def map_is_Nil_conv filter_empty_conv by metis
  then have new: "lines_of (aw_id a) d' = cp_lines c" "audits_of (aw_id a) d' = as"
    using b(2,3,5) by (simp_all add: lines_of_def audits_of_def comp_def)
  have "assessment_ok d' a"
    using assessment_shape [of rq rates exs as_of] b(4,6) c
    by (simp add: assessment_ok_def new totals_def)
  moreover have "assessment_ok d' x" if "x \<in> set (td_assessments d)" for x
  proof -
    have "aw_id x \<noteq> aw_id a" using that b(9) by (metis imageI list.set_map)
    moreover have "assessment_ok d x" using ok that by (simp add: tariff_db_ok_def)
    ultimately show ?thesis using old [of "aw_id x"] by (simp add: assessment_ok_def)
  qed
  ultimately have "tariff_db_ok d'"
    using ok b by (auto simp: tariff_db_ok_def)
  moreover have "keeps_assessments d d'"
  proof -
    have "aw_id x \<noteq> aw_id a" if "x \<in> set (td_assessments d)" for x
      using that b(9) by (metis imageI list.set_map)
    then show ?thesis using old b(1) by (simp add: keeps_assessments_def)
  qed
  ultimately show ?thesis by (simp add: good_step_def)
qed

section \<open>Calls\<close>

datatype tariff_call =
  Create_Rate rate_row string
| Activate_Rate string string
| Create_Exemption exemption_row string
| Activate_Exemption string string
| Assess assess_request string string string gtime

definition run_tariff_call ::
  "(assess_request \<Rightarrow> string) \<Rightarrow> (string \<Rightarrow> string \<Rightarrow> bool) \<Rightarrow> tariff_db env \<Rightarrow> tariff_call \<Rightarrow> tariff_db \<Rightarrow> tariff_db" where
  "run_tariff_call digest before e c d =
     (case c of
        Create_Rate r maker \<Rightarrow> snd (create_rate e r maker d)
      | Activate_Rate k checker \<Rightarrow> snd (activate_rate before e k checker d)
      | Create_Exemption x maker \<Rightarrow> snd (create_exemption e x maker d)
      | Activate_Exemption k checker \<Rightarrow> snd (activate_exemption e k checker d)
      | Assess rq key requester correlation now \<Rightarrow> snd (assess digest before e rq key requester correlation now d))"

inductive tariff_evolves ::
  "(assess_request \<Rightarrow> string) \<Rightarrow> (string \<Rightarrow> string \<Rightarrow> bool) \<Rightarrow> tariff_db \<Rightarrow> tariff_db \<Rightarrow> bool" for digest before d0 where
  start: "tariff_evolves digest before d0 d0"
| call: "tariff_evolves digest before d0 d \<Longrightarrow> tariff_env e \<Longrightarrow>
     tariff_evolves digest before d0 (run_tariff_call digest before e c d)"

abbreviation tariff_reach :: "(assess_request \<Rightarrow> string) \<Rightarrow> (string \<Rightarrow> string \<Rightarrow> bool) \<Rightarrow> tariff_db \<Rightarrow> bool" where
  "tariff_reach digest before \<equiv> tariff_evolves digest before empty_tariff_db"

lemma persist_good:
  assumes "tariff_db_ok d" "tariff_env e" and "c = compute_tariff rq rates exs as_of" "(aw_usd a, aw_ngn a) = totals c"
  shows "good_step d (snd (persist_assessment e a c d))"
proof -
  have "good_step d (snd (run_tx e ''begin assessment transaction'' ''commit assessment'' Tariff_Database (assess_body e a c) d))"
    by (rule good_tx [OF assms(1,2)]) (use assess_body_good assms(3,4) in blast)
  then show ?thesis by (auto simp: persist_assessment_def split: prod.splits sum.splits)
qed

lemma assess_good:
  assumes "tariff_db_ok d" "tariff_env e"
  shows "good_step d (snd (assess digest before e rq key requester correlation now d))"
  by (auto simp: assess_def Let_def canonical_request_def good_step_refl [OF assms(1)]
      intro!: persist_good [OF assms] split: option.splits sum.splits prod.splits)

lemma call_good:
  assumes "tariff_db_ok d" "tariff_env e"
  shows "good_step d (run_tariff_call digest before e c d)"
proof (cases c)
  case (Activate_Rate k checker)
  have "good_step d (snd (run_tx e ''begin rate activation'' ''commit rate activation'' Tariff_Database
      (activate_rate_body e k checker) d))" if "checker \<noteq> []"
    by (rule good_tx [OF assms]) (rule activate_rate_good [OF _ that])
  then show ?thesis
    using good_step_refl [OF assms(1)] Activate_Rate
    by (auto simp: run_tariff_call_def activate_rate_def split: prod.splits sum.splits)
next
  case (Activate_Exemption k checker)
  have "good_step d (snd (run_tx e ''begin exemption activation'' ''commit exemption activation'' Tariff_Database
      (activate_exemption_body e k checker) d))" if "checker \<noteq> []"
    by (rule good_tx [OF assms]) (rule activate_exemption_good [OF _ that])
  then show ?thesis
    using good_step_refl [OF assms(1)] Activate_Exemption
    by (auto simp: run_tariff_call_def activate_exemption_def split: prod.splits sum.splits)
qed (auto simp: run_tariff_call_def create_rate_def create_exemption_def good_step_refl [OF assms(1)]
    intro!: good_tx [OF assms] assess_good [OF assms] dest: create_rate_good create_exemption_good split: option.splits)

lemma evolves_good:
  "tariff_evolves digest before d0 d \<Longrightarrow> tariff_db_ok d0 \<Longrightarrow> good_step d0 d"
proof (induction rule: tariff_evolves.induct)
  case (call d e c)
  then have "good_step d0 d" by blast
  moreover have "good_step d (run_tariff_call digest before e c d)"
    using call_good call.hyps(2) calculation by (simp add: good_step_def)
  ultimately show ?case using keeps_assessments_trans by (auto simp: good_step_def)
qed (rule good_step_refl)

lemma empty_tariff_ok: "tariff_db_ok empty_tariff_db"
  by (simp add: tariff_db_ok_def empty_tariff_db_def)

lemma reach_tariff_ok: "tariff_reach digest before d \<Longrightarrow> tariff_db_ok d"
  using evolves_good empty_tariff_ok by (auto simp: good_step_def)

end
