(* ===== verification/Tariff_Chain.thy ===== *)
theory Tariff_Chain
  imports Tariff_Inv
begin

text \<open>
  What the tariff store guarantees in every database its calls can reach: who decided a rate, that the
  stored assessments add up, and what a replayed declaration gets.
\<close>

text \<open>C34 Rates and exemptions are under dual control. In every reachable database a rate or an
  exemption that is ACTIVE names a checker who is not its maker; one that is not is a DRAFT without a
  checker, and no computation uses it.\<close>

theorem active_tariffs_are_dual_controlled:
  assumes "tariff_reach digest before d"
  shows "(\<forall>r \<in> set (td_rates d). rw_state r = ''ACTIVE'' \<and> (\<exists>c. rw_checker r = Some c \<and> c \<noteq> rw_maker r \<and> c \<noteq> []) \<or>
      rw_state r = ''DRAFT'' \<and> rw_checker r = None) \<and>
    (\<forall>x \<in> set (td_exemptions d). xw_state x = ''ACTIVE'' \<and> (\<exists>c. xw_checker x = Some c \<and> c \<noteq> xw_maker x \<and> c \<noteq> []) \<or>
      xw_state x = ''DRAFT'' \<and> xw_checker x = None) \<and>
    (\<forall>e day rs. list_active_rates before e day d = Inr rs \<longrightarrow> (\<forall>r \<in> set rs. tr_checker r \<noteq> tr_maker r \<and> tr_checker r \<noteq> []))"
proof -
  have c: "controlled (rw_state r) (rw_maker r) (rw_checker r)" if "r \<in> set (td_rates d)" for r
    using reach_tariff_ok [OF assms] that by (simp add: tariff_db_ok_def)
  have x: "controlled (xw_state x) (xw_maker x) (xw_checker x)" if "x \<in> set (td_exemptions d)" for x
    using reach_tariff_ok [OF assms] that by (simp add: tariff_db_ok_def)
  have "tr_checker q \<noteq> tr_maker q \<and> tr_checker q \<noteq> []"
    if rs: "list_active_rates before e day d = Inr rs" "q \<in> set rs" for e day rs q
  proof -
    obtain r where "r \<in> set (td_rates d)" "rw_state r = ''ACTIVE''" "q = scan_rate_rec r"
      using rs by (auto simp: list_active_rates_def stmt_Inr_iff in_force_def)
    then show ?thesis using c [of r] by (auto simp: controlled_def scan_rate_rec_def)
  qed
  then show ?thesis using c x unfolding controlled_def by blast
qed

definition tariff_demo_env :: "nat \<Rightarrow> tariff_db env" where
  "tariff_demo_env n = quiet_env (int n) (\<lambda>i. replicate n CHR ''u'' @ replicate i CHR ''v'')"

lemma tariff_demo_env_ok [simp]: "tariff_env (tariff_demo_env n)"
  by (simp add: tariff_demo_env_def)

definition demo_digest :: "assess_request \<Rightarrow> string" where
  "demo_digest rq = rq_entity rq @ ''/'' @ rq_as_of rq"

fun run_tariff_calls :: "nat \<Rightarrow> tariff_call list \<Rightarrow> tariff_db \<Rightarrow> tariff_db" where
  "run_tariff_calls n [] d = d"
| "run_tariff_calls n (c # cs) d =
     run_tariff_calls (Suc n) cs (run_tariff_call demo_digest text_le (tariff_demo_env n) c d)"

lemma run_tariff_calls_evolve:
  "tariff_evolves demo_digest text_le d0 d \<Longrightarrow> tariff_evolves demo_digest text_le d0 (run_tariff_calls n cs d)"
proof (induction cs arbitrary: n d)
  case (Cons c cs)
  show ?case using Cons.IH [OF tariff_evolves.call [OF Cons.prems tariff_demo_env_ok]] by simp
qed simp

definition demo_tariffs :: tariff_db where
  "demo_tariffs = run_tariff_calls 1
     [Create_Rate (demo_ship_dues\<lparr>tr_rate_id := ''r''\<rparr>) ''ada'', Activate_Rate ''r'' ''obi''] empty_tariff_db"

lemma demo_tariffs_reach: "tariff_reach demo_digest text_le demo_tariffs"
  unfolding demo_tariffs_def by (rule run_tariff_calls_evolve [OF tariff_evolves.start])

theorem active_tariffs_are_dual_controlled_witness:
  "\<exists>c. map rw_checker (td_rates demo_tariffs) = [Some c] \<and> c \<noteq> ''ada''"
proof -
  have rows: "map rw_state (td_rates demo_tariffs) = [''ACTIVE'']" "map rw_maker (td_rates demo_tariffs) = [''ada'']"
    by code_simp+
  then obtain r where "td_rates demo_tariffs = [r]" "rw_state r = ''ACTIVE''" "rw_maker r = ''ada''"
    by (auto simp: map_eq_Cons_conv)
  then show ?thesis
    using active_tariffs_are_dual_controlled [OF demo_tariffs_reach] by auto
qed

definition demo_coastal :: assess_request where
  "demo_coastal = \<lparr>rq_grt = 900, rq_class = ''TANKER'', rq_entity = ''ngc'', rq_cargo = ''pms'', rq_voyage = ''CABOTAGE'',
     rq_route = ''SEA'', rq_port_call = False, rq_freight = 123456725, rq_flags = [], rq_as_of = ''2026-03-01''\<rparr>"

definition demo_surcharge :: rate_row where
  "demo_surcharge = demo_ship_dues\<lparr>tr_rate_id := ''r'', tr_instrument := cabotage_surcharge, tr_agency := ''FMMBE'',
     tr_band_logic := band_gross_freight, tr_minor_per_unit := 0, tr_bps := 200\<rparr>"

definition demo_coast_tariffs :: tariff_db where
  "demo_coast_tariffs = run_tariff_calls 1 [Create_Rate demo_surcharge ''ada'', Activate_Rate ''r'' ''obi''] empty_tariff_db"

definition demo_assess :: "nat \<Rightarrow> tariff_db \<Rightarrow> (tariff_error + assessment) \<times> tariff_db" where
  "demo_assess n d = assess demo_digest text_le (tariff_demo_env n) demo_coastal ''k'' ''rq'' ''c'' (utc_date 20000) d"

lemma demo_assess_total: "map_sum (\<lambda>_. ()) sm_usd (fst (demo_assess 9 demo_coast_tariffs)) = Inr 2469135"
  by code_simp

lemma demo_coast_reach: "tariff_reach demo_digest text_le demo_coast_tariffs"
  unfolding demo_coast_tariffs_def by (rule run_tariff_calls_evolve [OF tariff_evolves.start])

lemma demo_assess_runs:
  obtains m d where "demo_assess 9 demo_coast_tariffs = (Inr m, d)" "sm_usd m = 2469135"
proof -
  obtain r d where r: "demo_assess 9 demo_coast_tariffs = (r, d)" by (rule prod.exhaust)
  then show ?thesis using demo_assess_total that by (cases r) auto
qed

lemma demo_assess_evolves:
  "tariff_evolves demo_digest text_le d0 d \<Longrightarrow> tariff_evolves demo_digest text_le d0 (snd (demo_assess n d))"
  using tariff_evolves.call [of demo_digest text_le d0 d "tariff_demo_env n"
      "Assess demo_coastal ''k'' ''rq'' ''c'' (utc_date 20000)"]
  by (simp add: run_tariff_call_def demo_assess_def)

section \<open>Replay\<close>

definition assessment_of :: "tariff_db \<Rightarrow> assessment_rec \<Rightarrow> assessment" where
  "assessment_of d a = \<lparr>sm_id = aw_id a, sm_request = aw_request a, sm_as_of = format_date (aw_as_of a),
     sm_lines = assessment_lines (aw_id a) d, sm_usd = aw_usd a, sm_ngn = aw_ngn a,
     sm_requester = aw_requester a, sm_correlation = aw_correlation a, sm_created = aw_created a\<rparr>"

lemma assessment_lines_of: "assessment_lines k d = sort_by (\<lambda>a b. al_no a \<le> al_no b) (lines_of k d)"
  by (simp add: assessment_lines_def lines_of_def)

lemma get_assessment_Inr:
  "get_assessment e k d = Inr m \<Longrightarrow> \<exists>a \<in> set (td_assessments d). aw_id a = k \<and> m = assessment_of d a"
  by (auto simp: get_assessment_def and_then_Inr_iff stmt_Inr_iff assessment_of_def dest!: sql_row_Some
      split: option.splits)

lemma get_assessment_calm:
  assumes "tariff_db_ok d" "a \<in> set (td_assessments d)" "\<And>l. env_fault e l = No_Fault"
  shows "get_assessment e (aw_id a) d = Inr (assessment_of d a)"
  using assms sql_row_key [of aw_id "td_assessments d" a]
  by (simp add: tariff_db_ok_def get_assessment_def assessment_of_def)

lemma lookup_Inr:
  "lookup_by_idempotency lb e key d = Inr (k, hash) \<Longrightarrow>
     \<exists>a \<in> set (td_assessments d). aw_key a = key \<and> aw_id a = k \<and> aw_hash a = hash"
  by (auto simp: lookup_by_idempotency_def stmt_Inr_iff dest!: sql_row_Some split: option.splits)

lemma lookup_calm:
  assumes "tariff_db_ok d" "a \<in> set (td_assessments d)" "\<And>l. env_fault e l = No_Fault"
  shows "lookup_by_idempotency lb e (aw_key a) d = Inr (aw_id a, aw_hash a)"
  using assms sql_row_key [of aw_key "td_assessments d" a]
  by (simp add: tariff_db_ok_def lookup_by_idempotency_def)

text \<open>What a successful call leaves behind.\<close>

definition holds_key :: "string \<Rightarrow> string \<Rightarrow> assessment \<Rightarrow> tariff_db \<Rightarrow> bool" where
  "holds_key key hash m d \<longleftrightarrow> (\<exists>a \<in> set (td_assessments d). aw_key a = key \<and> aw_hash a = hash \<and> m = assessment_of d a)"

lemma replayed_holds:
  assumes ok: "tariff_db_ok d" and l: "lookup_by_idempotency lb e key d = Inr x" and r: "replayed e hash x d = Inr m"
  shows "holds_key key hash m d"
proof -
  obtain k h where x: "x = (k, h)" by (rule prod.exhaust)
  obtain a where a: "a \<in> set (td_assessments d)" "aw_key a = key" "aw_id a = k" "aw_hash a = h"
    using lookup_Inr [OF l [unfolded x]] by blast
  have h: "h = hash" "get_assessment e k d = Inr m" using r by (auto simp: x replayed_def split: if_splits)
  obtain b where b: "b \<in> set (td_assessments d)" "aw_id b = k" "m = assessment_of d b"
    using get_assessment_Inr [OF h(2)] by blast
  have "a = b"
    using ok a b distinct_key_unique [of aw_id "td_assessments d" a b] by (simp add: tariff_db_ok_def)
  then show ?thesis using a b h by (auto simp: holds_key_def)
qed

lemma persist_holds:
  assumes ok: "tariff_db_ok d" "tariff_env e" and c: "c = compute_tariff rq rates exs as_of" "(aw_usd a, aw_ngn a) = totals c"
    and run: "persist_assessment e a c d = (Inr m, d')"
  shows "holds_key (aw_key a) (aw_hash a) m d'"
proof -
  have good: "tariff_db_ok d'" using persist_good [OF ok c] run by (simp add: good_step_def)
  obtain r d1 where tx: "run_tx e ''begin assessment transaction'' ''commit assessment'' Tariff_Database (assess_body e a c) d = (r, d1)"
    by (rule prod.exhaust)
  show ?thesis
  proof (cases r)
    case (Inr u)
    then have d1: "d1 = d'" "get_assessment e (aw_id a) d' = Inr m" using run tx by (auto simp: persist_assessment_def)
    have "assess_body e a c (env_other e d) = Inr (u, d')" using tx Inr d1 by (simp add: run_tx_Inr_iff)
    then have "a \<in> set (td_assessments d')" by (rule assess_body_Inr) simp
    moreover obtain b where "b \<in> set (td_assessments d')" "aw_id b = aw_id a" "m = assessment_of d' b"
      using get_assessment_Inr [OF d1(2)] by blast
    moreover have "b = a"
      using good calculation distinct_key_unique [of aw_id "td_assessments d'" a b] by (simp add: tariff_db_ok_def)
    ultimately show ?thesis by (auto simp: holds_key_def)
  next
    case (Inl err)
    then obtain x where "d1 = d'" "lookup_by_idempotency ''resolve idempotency key of the twin'' e (aw_key a) d' = Inr x"
      "replayed e (aw_hash a) x d' = Inr m"
      using run tx by (auto simp: persist_assessment_def split: if_splits sum.splits)
    then show ?thesis using replayed_holds [OF good] by blast
  qed
qed

lemma assess_holds:
  assumes ok: "tariff_db_ok d" "tariff_env e" and day: "rq_as_of rq \<noteq> []" "parse_date (rq_as_of rq) = Some day"
    and run: "assess digest before e rq key requester correlation now d = (Inr m, d')"
  shows "holds_key key (digest (rq\<lparr>rq_as_of := format_date day\<rparr>)) m d'"
proof -
  let ?rq = "rq\<lparr>rq_as_of := format_date day\<rparr>"
  have valid: "validate_request rq = None" "\<not> (key = [] \<or> length key > 128)" "\<not> (requester = [] \<or> correlation = [])"
    using run by (auto simp: assess_def split: option.splits if_splits)
  show ?thesis
  proof (cases "lookup_by_idempotency ''resolve idempotency key'' e key d")
    case (Inr x)
    then have "d' = d" "replayed e (digest ?rq) x d = Inr m"
      using run valid day by (auto simp: assess_def canonical_request_def Let_def)
    then show ?thesis using replayed_holds [OF ok(1) Inr] by simp
  next
    case (Inl err)
    then obtain rates exs where
      "persist_assessment e \<lparr>aw_id = env_uuid e 0, aw_key = key, aw_hash = digest ?rq, aw_request = ?rq,
          aw_as_of = day, aw_usd = fst (totals (compute_tariff ?rq rates exs (utc_date day))),
          aw_ngn = snd (totals (compute_tariff ?rq rates exs (utc_date day))), aw_requester = requester,
          aw_correlation = correlation, aw_created = env_now e\<rparr> (compute_tariff ?rq rates exs (utc_date day)) d = (Inr m, d')"
      using run valid day
      by (auto simp: assess_def canonical_request_def Let_def case_prod_beta split: if_splits sum.splits)
    from persist_holds [OF ok refl _ this] show ?thesis by simp
  qed
qed

lemma holds_key_stays:
  assumes "keeps_assessments d d'" "holds_key key hash m d"
  shows "holds_key key hash m d'"
  using assms by (fastforce simp: holds_key_def keeps_assessments_def assessment_of_def assessment_lines_of)

lemma holds_key_assess:
  assumes ok: "tariff_db_ok d" and held: "holds_key key hash m d" and calm: "\<And>l. env_fault e l = No_Fault"
    and valid: "validate_request rq = None" "key \<noteq> []" "length key \<le> 128" "requester \<noteq> []" "correlation \<noteq> []"
    and day: "rq_as_of rq \<noteq> []" "parse_date (rq_as_of rq) = Some day"
  shows "assess digest before e rq key requester correlation now d =
    (if digest (rq\<lparr>rq_as_of := format_date day\<rparr>) = hash then (Inr m, d) else (Inl Tariff_Key_Conflict, d))"
proof -
  obtain a where a: "a \<in> set (td_assessments d)" "aw_key a = key" "aw_hash a = hash" "m = assessment_of d a"
    using held by (auto simp: holds_key_def)
  note calm_facts = lookup_calm [OF ok a(1) calm, of "''resolve idempotency key''"] get_assessment_calm [OF ok a(1) calm]
  show ?thesis
    using calm_facts valid day a(2-4) by (auto simp: assess_def canonical_request_def Let_def replayed_def)
qed

lemma demo_assess_stored:
  obtains a where "a \<in> set (td_assessments (snd (demo_assess 9 demo_coast_tariffs)))"
proof -
  obtain m d where "demo_assess 9 demo_coast_tariffs = (Inr m, d)" by (rule demo_assess_runs)
  moreover have "parse_date (rq_as_of demo_coastal) = Some 20513" "rq_as_of demo_coastal \<noteq> []" by code_simp+
  ultimately show ?thesis
    using assess_holds [OF reach_tariff_ok [OF demo_coast_reach] tariff_demo_env_ok] that
    by (fastforce simp: demo_assess_def holds_key_def)
qed

text \<open>C7 Stored assessments add up. In every reachable database an assessment has the six lines of the
  statute, numbered one to six, with no negative amount, and its exemption audit rows are exactly those of its
  exempt lines. Its dollar total is the sum of the amounts of its charged dollar lines and its naira total that of its
  charged naira lines, exactly so when that sum is below \<open>2 ^ 63\<close>, and wrapped around to an \<open>int64\<close> otherwise.\<close>

theorem stored_assessments_add_up:
  assumes "tariff_reach digest before d" and "a \<in> set (td_assessments d)"
  shows "let ls = lines_of (aw_id a) d;
             charged = (\<lambda>c. sum_list (map al_amount (filter (\<lambda>l. al_applicability l = Line_Charged \<and> al_currency l = c) ls)))
    in
    map al_instrument ls = instrument_order \<and> map al_no ls = [1, 2, 3, 4, 5, 6] \<and>
    (\<forall>l \<in> set ls. 0 \<le> al_amount l) \<and>
    aw_usd a = i64 (charged ''USD'') \<and> aw_ngn a = i64 (charged ''NGN'') \<and>
    (charged ''USD'' < 2 ^ 63 \<longrightarrow> aw_usd a = charged ''USD'') \<and>
    (charged ''NGN'' < 2 ^ 63 \<longrightarrow> aw_ngn a = charged ''NGN'') \<and>
    map xa_exemption (audits_of (aw_id a) d) = map al_exemption (filter (\<lambda>l. al_applicability l = Line_Exempt) ls)"
proof -
  let ?ls = "lines_of (aw_id a) d"
  have ok: "assessment_ok d a" using reach_tariff_ok [OF assms(1)] assms(2) by (simp add: tariff_db_ok_def)
  then have n: "\<forall>l \<in> set ?ls. 0 \<le> al_amount l"
    and t: "aw_usd a = currency_total ''USD'' ?ls" "aw_ngn a = currency_total ''NGN'' ?ls"
    by (simp_all add: assessment_ok_def Let_def)
  show ?thesis
    using ok currency_total_exact [OF n] unfolding Let_def assessment_ok_def charged_sum_def [symmetric]
    by (simp add: t currency_total_sum)
qed

theorem stored_assessments_add_up_witness:
  "\<exists>a \<in> set (td_assessments (snd (demo_assess 9 demo_coast_tariffs))).
     length (lines_of (aw_id a) (snd (demo_assess 9 demo_coast_tariffs))) = 6"
proof -
  let ?d = "snd (demo_assess 9 demo_coast_tariffs)"
  obtain a where a: "a \<in> set (td_assessments ?d)" by (rule demo_assess_stored)
  from stored_assessments_add_up [OF demo_assess_evolves [OF demo_coast_reach] a]
  have "length (map al_no (lines_of (aw_id a) ?d)) = 6" by (simp add: Let_def)
  then show ?thesis using a by auto
qed

text \<open>C8 A declaration is assessed once. When an assessment of a dated declaration has succeeded under
  an idempotency key, then after any further calls, failures and interleavings, a calm replay of the
  declaration under that key returns the same assessment, identifier, lines, totals and time
  included, and changes nothing, whoever asks and whatever the clock and the rates are by then; a
  different declaration under that key is refused.\<close>

theorem assessment_is_replayed:
  assumes reach: "tariff_reach digest before d" and env: "tariff_env e"
    and day: "rq_as_of rq \<noteq> []" "parse_date (rq_as_of rq) = Some day"
    and first: "assess digest before e rq key requester correlation now d = (Inr m, d1)"
    and later: "tariff_evolves digest before d1 d2" and calm: "\<And>l. env_fault e2 l = No_Fault"
    and asker: "requester2 \<noteq> []" "correlation2 \<noteq> []"
  shows "assess digest before e2 rq key requester2 correlation2 now2 d2 = (Inr m, d2) \<and>
    (\<forall>rq2 day2. validate_request rq2 = None \<longrightarrow> rq_as_of rq2 \<noteq> [] \<longrightarrow> parse_date (rq_as_of rq2) = Some day2 \<longrightarrow>
       digest (rq2\<lparr>rq_as_of := format_date day2\<rparr>) \<noteq> digest (rq\<lparr>rq_as_of := format_date day\<rparr>) \<longrightarrow>
       assess digest before e2 rq2 key requester2 correlation2 now2 d2 = (Inl Tariff_Key_Conflict, d2))"
proof -
  have ok: "tariff_db_ok d" by (rule reach_tariff_ok [OF reach])
  have g1: "good_step d d1" using assess_good [OF ok env] first by (metis snd_conv)
  then have g2: "good_step d1 d2" using evolves_good [OF later] by (simp add: good_step_def)
  have held: "holds_key key (digest (rq\<lparr>rq_as_of := format_date day\<rparr>)) m d2"
    using holds_key_stays assess_holds [OF ok env day first] g2 by (auto simp: good_step_def)
  have valid: "validate_request rq = None" "key \<noteq> []" "length key \<le> 128"
    using first by (auto simp: assess_def split: option.splits if_splits)
  note again = holds_key_assess [OF _ held calm _ valid(2,3) asker]
  show ?thesis
    using again [OF _ valid(1) day] again g2 by (simp add: good_step_def)
qed

theorem assessment_is_replayed_witness:
  "\<exists>m d. demo_assess 9 demo_coast_tariffs = (Inr m, d) \<and> sm_usd m = 2469135 \<and>
     demo_assess 12 (snd (demo_assess 10 d)) = (Inr m, snd (demo_assess 10 d))"
proof -
  obtain m d where md: "demo_assess 9 demo_coast_tariffs = (Inr m, d)" "sm_usd m = 2469135" by (rule demo_assess_runs)
  have day: "rq_as_of demo_coastal \<noteq> []" "parse_date (rq_as_of demo_coastal) = Some 20513" by code_simp+
  have "assess demo_digest text_le (tariff_demo_env 12) demo_coastal ''k'' ''rq'' ''c'' (utc_date 20000) (snd (demo_assess 10 d))
      = (Inr m, snd (demo_assess 10 d))"
    by (rule assessment_is_replayed [THEN conjunct1, OF demo_coast_reach tariff_demo_env_ok day
          md(1) [unfolded demo_assess_def] demo_assess_evolves [OF tariff_evolves.start]])
      (simp_all add: tariff_demo_env_def)
  then show ?thesis using md by (auto simp: demo_assess_def)
qed

text \<open>
  An undated declaration is dated by the clock before it is compared: its retry on the next day is
  a different declaration.
\<close>

lemma undated_retry_conflicts:
  assumes "tariff_db_ok d" "holds_key key (digest (rq\<lparr>rq_as_of := format_date (day_of now)\<rparr>)) m d"
    and "\<And>l. env_fault e l = No_Fault" "validate_request rq = None" "key \<noteq> []" "length key \<le> 128"
    and "requester \<noteq> []" "correlation \<noteq> []" "rq_as_of rq = []"
    and "digest (rq\<lparr>rq_as_of := format_date (day_of now2)\<rparr>) \<noteq> digest (rq\<lparr>rq_as_of := format_date (day_of now)\<rparr>)"
  shows "assess digest before e rq key requester correlation now2 d = (Inl Tariff_Key_Conflict, d)"
proof -
  obtain a where a: "a \<in> set (td_assessments d)" "aw_key a = key"
    "aw_hash a = digest (rq\<lparr>rq_as_of := format_date (day_of now)\<rparr>)"
    using assms(2) by (auto simp: holds_key_def)
  have "lookup_by_idempotency ''resolve idempotency key'' e key d = Inr (aw_id a, aw_hash a)"
    using lookup_calm [OF assms(1) a(1) assms(3)] a(2) by simp
  then show ?thesis
    using assms(4-10) a(3) by (simp add: assess_def canonical_request_def Let_def replayed_def)
qed

end
