(* ===== verification/Settlement_Config.thy ===== *)
theory Settlement_Config
  imports Go_Text "HOL-Library.AList"
begin

text \<open>
  The configuration of \<open>internal/settlementsync\<close>: which ledgers of the cluster are mirrored and in which
  currency (\<open>Config\<close>, \<open>ParseLedgerCurrencies\<close>). A Go map is an association list; the walk of \<open>Validate\<close>
  through it follows the list, which decides only which of several errors is reported.
\<close>

section \<open>The configuration\<close>

record sync_config =
  cf_ledgers :: "(u32 \<times> string) list"
  cf_code :: u16
  cf_limit :: u32

fun ledgers_error :: "(u32 \<times> string) list \<Rightarrow> string option" where
  "ledgers_error [] = None"
| "ledgers_error ((l, c) # ls) =
     (if l = 0 then Some ''ledger numbers must be non-zero''
      else if c \<noteq> ''USD'' \<and> c \<noteq> ''NGN'' then Some ''ledger maps to unsupported currency''
      else ledgers_error ls)"

definition validate_config :: "sync_config \<Rightarrow> string option" where
  "validate_config cf =
     (if cf_ledgers cf = [] then Some ''at least one ledger->currency mapping is required''
      else case ledgers_error (cf_ledgers cf) of
             Some err \<Rightarrow> Some err
           | None \<Rightarrow>
               if cf_code cf = 0 then Some ''collection transfer code must be non-zero''
               else if cf_limit cf = 0 \<or> cf_limit cf > 8189
               then Some ''batch limit must be within the TigerBeetle query width''
               else None)"

section \<open>The texts of the environment\<close>

text \<open>\<open>strings.Split\<close> and \<open>strings.Cut\<close> at one byte, and \<open>strconv.ParseUint\<close> in base ten.\<close>

fun split_at :: "char \<Rightarrow> string \<Rightarrow> string list" where
  "split_at sep [] = [[]]"
| "split_at sep (c # cs) =
     (if c = sep then [] # split_at sep cs
      else case split_at sep cs of [] \<Rightarrow> [[c]] | w # ws \<Rightarrow> (c # w) # ws)"

definition cut_at :: "char \<Rightarrow> string \<Rightarrow> (string \<times> string) option" where
  "cut_at sep s =
     (case dropWhile (\<lambda>c. c \<noteq> sep) s of [] \<Rightarrow> None | _ # rest \<Rightarrow> Some (takeWhile (\<lambda>c. c \<noteq> sep) s, rest))"

definition parse_uint :: "nat \<Rightarrow> string \<Rightarrow> int option" where
  "parse_uint bits s =
     (if s \<noteq> [] \<and> list_all is_digit s \<and> digits_value s < 2 ^ bits then Some (digits_value s) else None)"

fun parse_entries :: "string list \<Rightarrow> (u32 \<times> string) list \<Rightarrow> string + (u32 \<times> string) list" where
  "parse_entries [] ls = Inr ls"
| "parse_entries (entry # rest) ls =
     (case cut_at CHR ''='' (trim_space entry) of
        None \<Rightarrow> Inl ''entry is not ledger=currency''
      | Some (number, currency) \<Rightarrow>
          (case parse_uint 32 (trim_space number) of
             None \<Rightarrow> Inl ''ledger is not a non-zero uint32''
           | Some n \<Rightarrow>
               if n = 0 then Inl ''ledger is not a non-zero uint32''
               else if trim_space currency \<noteq> ''USD'' \<and> trim_space currency \<noteq> ''NGN''
               then Inl ''currency is not USD or NGN''
               else parse_entries rest (AList.update (word_of_int n) (trim_space currency) ls)))"

definition parse_ledger_currencies :: "string \<Rightarrow> string + (u32 \<times> string) list" where
  "parse_ledger_currencies raw0 =
     (let raw = trim_space raw0
      in if raw = [] then Inl ''TB_SYNC_LEDGERS must be set'' else parse_entries (split_at CHR '','' raw) [])"

lemma parse_examples:
  "parse_ledger_currencies '' 1=USD, 2 = NGN '' = Inr [(1, ''USD''), (2, ''NGN'')]"
  "parse_ledger_currencies ''1=USD,1=NGN'' = Inr [(1, ''NGN'')]"
  "parse_ledger_currencies ''1=USD,'' = Inl ''entry is not ledger=currency''"
  "parse_ledger_currencies ''4294967296=USD'' = Inl ''ledger is not a non-zero uint32''"
  by code_simp+

section \<open>Decimal texts\<close>

lemma nat_digits_induct [case_names small large]:
  fixes P :: "nat \<Rightarrow> bool"
  assumes "\<And>n. n < 10 \<Longrightarrow> P n" and "\<And>n. \<not> n < 10 \<Longrightarrow> P (n div 10) \<Longrightarrow> P n"
  shows "P n"
  using assms by (induction n rule: nat_digits.induct) blast

lemma of_char_int: "(of_char c :: int) = int (of_char c)"
  by (rule of_nat_of_char [symmetric])

lemma digit_ok:
  assumes "n < 10"
  shows "is_digit (digit n) \<and> (of_char (digit n) :: int) = int n + 48"
proof -
  have "(of_char (digit n) :: nat) = 48 + n" using assms by (simp add: digit_def of_char_of)
  then show ?thesis using assms by (simp only: is_digit_def Let_def of_char_int) simp
qed

lemma digits_value_append: "digits_value (xs @ ys) = digits_value xs * 10 ^ length ys + digits_value ys"
  by (induction xs) (simp_all add: power_add algebra_simps)

lemma nat_digits_ok: "list_all is_digit (nat_digits n) \<and> nat_digits n \<noteq> [] \<and> digits_value (nat_digits n) = int n"
proof (induction n rule: nat_digits_induct)
  case (small n)
  then show ?case using digit_ok [of n] by (simp add: nat_digits.simps [of n])
next
  case (large n)
  have "int (n div 10) * 10 + int (n mod 10) = int n" by presburger
  then show ?case using large digit_ok [of "n mod 10"] by (simp add: nat_digits.simps [of n] digits_value_append)
qed

lemma nat_digits_inj: "nat_digits m = nat_digits n \<longleftrightarrow> m = n"
  using nat_digits_ok by (metis of_nat_eq_iff)

section \<open>Trimming\<close>

text \<open>A printable ASCII character is neither a space nor a part of the encoding of one.\<close>

definition printable :: "char \<Rightarrow> bool" where
  "printable c \<longleftrightarrow> (let n = of_char c :: nat in 33 \<le> n \<and> n \<le> 126)"

lemma strip_none: "s \<noteq> [] \<Longrightarrow> \<forall>p \<in> set ps. p \<noteq> [] \<and> hd p \<noteq> hd s \<Longrightarrow> strip_any ps s = None"
  by (induction ps) (auto simp: neq_Nil_conv)

lemma trim_left_none: "s \<noteq> [] \<Longrightarrow> printable (hd s) \<Longrightarrow> list_all (\<lambda>p. p \<noteq> [] \<and> \<not> printable (hd p)) ps \<Longrightarrow> trim_left ps s = s"
  by (subst trim_left.simps, subst strip_none) (auto simp: list_all_iff)

lemma encodings_unprintable:
  "list_all (\<lambda>p. p \<noteq> [] \<and> \<not> printable (hd p)) space_encodings"
  "list_all (\<lambda>p. p \<noteq> [] \<and> \<not> printable (hd p)) (map rev space_encodings)"
  by code_simp+

lemma trim_space_printable: "list_all printable s \<Longrightarrow> trim_space s = s"
proof (cases "s = []")
  case True
  then show ?thesis by simp code_simp
next
  case False
  assume "list_all printable s"
  then have "printable (hd s)" "printable (hd (rev s))" using False by (auto simp: list_all_iff hd_rev)
  then show ?thesis using False by (simp add: trim_space_def trim_left_none encodings_unprintable)
qed

section \<open>Printing and parsing\<close>

definition render_entry :: "u32 \<times> string \<Rightarrow> string" where
  "render_entry e = nat_digits (unat (fst e)) @ CHR ''='' # snd e"

fun render_ledgers :: "(u32 \<times> string) list \<Rightarrow> string" where
  "render_ledgers [] = []"
| "render_ledgers [e] = render_entry e"
| "render_ledgers (e # es) = render_entry e @ CHR '','' # render_ledgers es"

abbreviation entry_valid :: "u32 \<times> string \<Rightarrow> bool" where
  "entry_valid e \<equiv> fst e \<noteq> 0 \<and> snd e \<in> {''USD'', ''NGN''}"

lemma digit_chars:
  assumes "is_digit c"
  shows "printable c" "c \<noteq> CHR ''=''" "c \<noteq> CHR '',''"
  using assms by (auto simp: is_digit_def printable_def Let_def)

lemma currency_chars: "c \<in> {''USD'', ''NGN''} \<Longrightarrow> list_all printable c \<and> CHR '','' \<notin> set c"
  by (auto simp: printable_def)

lemma render_entry_chars:
  assumes "entry_valid e"
  shows "list_all printable (render_entry e)" "CHR '','' \<notin> set (render_entry e)" "render_entry e \<noteq> []"
  using nat_digits_ok [of "unat (fst e)"] digit_chars currency_chars [of "snd e"] assms
  by (auto simp: render_entry_def list_all_iff printable_def)

lemma cut_render: "entry_valid e \<Longrightarrow> cut_at CHR ''='' (render_entry e) = Some (nat_digits (unat (fst e)), snd e)"
proof -
  have "\<forall>c \<in> set (nat_digits n). c \<noteq> CHR ''=''" for n
    using nat_digits_ok [of n] digit_chars(2) by (auto simp: list_all_iff)
  then show ?thesis by (simp add: cut_at_def render_entry_def takeWhile_append2 dropWhile_append2)
qed

lemma split_no_sep: "sep \<notin> set s \<Longrightarrow> split_at sep s = [s]"
  by (induction s) auto

lemma split_sep: "sep \<notin> set s \<Longrightarrow> split_at sep (s @ sep # t) = s # split_at sep t"
  by (induction s) auto

lemma split_render: "es \<noteq> [] \<Longrightarrow> \<forall>e \<in> set es. entry_valid e \<Longrightarrow> split_at CHR '','' (render_ledgers es) = map render_entry es"
  by (induction es rule: render_ledgers.induct) (simp_all add: split_no_sep split_sep render_entry_chars)

lemma render_printable: "\<forall>e \<in> set es. entry_valid e \<Longrightarrow> list_all printable (render_ledgers es)"
  by (induction es rule: render_ledgers.induct) (simp_all add: render_entry_chars printable_def)

lemma parse_rendered: "parse_uint 32 (nat_digits (unat (l :: u32))) = Some (uint l)"
  using nat_digits_ok [of "unat l"] uint_lt2p [of l] by (simp add: parse_uint_def)

lemma update_fresh: "k \<notin> fst ` set ls \<Longrightarrow> AList.update k v ls = ls @ [(k, v)]"
  by (induction ls) auto

lemma parse_entries_rendered:
  "\<forall>e \<in> set es. entry_valid e \<Longrightarrow> distinct (map fst (ls @ es)) \<Longrightarrow> parse_entries (map render_entry es) ls = Inr (ls @ es)"
proof (induction es arbitrary: ls)
  case (Cons e es)
  have e: "entry_valid e" using Cons.prems(1) by simp
  have d: "trim_space (nat_digits n) = nat_digits n" for n
    using nat_digits_ok [of n] digit_chars(1) by (intro trim_space_printable) (auto simp: list_all_iff)
  have "trim_space (snd e) = snd e" using e currency_chars by (intro trim_space_printable) blast
  moreover have "AList.update (fst e) (snd e) ls = ls @ [e]" using Cons.prems(2) by (simp add: update_fresh)
  moreover have "uint (fst e) \<noteq> 0" "snd e = ''USD'' \<or> snd e = ''NGN''" using e by (auto simp: uint_0_iff)
  moreover have "parse_entries (map render_entry es) (ls @ [e]) = Inr ((ls @ [e]) @ es)"
    using Cons by (intro Cons.IH) simp_all
  ultimately show ?case
    by (auto simp: cut_render [OF e] trim_space_printable [OF render_entry_chars(1) [OF e]] d parse_rendered)
qed simp

lemma update_entries: "set (AList.update k v ls) \<subseteq> insert (k, v) (set ls)"
  by (induction ls) auto

lemma digit_value: "is_digit c \<Longrightarrow> (0 :: int) \<le> of_char c - 48"
  by (simp only: is_digit_def Let_def of_char_int) simp

lemma digits_nonneg: "list_all is_digit s \<Longrightarrow> 0 \<le> digits_value s"
proof (induction s)
  case (Cons c cs)
  then have "0 \<le> (of_char c - 48) * 10 ^ length cs + digits_value cs"
    by (intro add_nonneg_nonneg mult_nonneg_nonneg digit_value) simp_all
  then show ?case by simp
qed simp

lemma parse_uint_range: "parse_uint bits s = Some n \<Longrightarrow> 0 \<le> n \<and> n < 2 ^ bits"
  by (auto simp: parse_uint_def digits_nonneg split: if_splits)

lemma u32_nonzero:
  assumes "0 < n" "n < 2 ^ 32"
  shows "(word_of_int n :: u32) \<noteq> 0"
proof -
  have "uint (word_of_int n :: u32) = n" using assms by (simp add: uint_word_of_int)
  then show ?thesis using assms(1) by (metis less_irrefl unsigned_0)
qed

lemma parse_entries_valid:
  "parse_entries es ls = Inr ls' \<Longrightarrow> \<forall>e \<in> set ls. entry_valid e \<Longrightarrow> distinct (map fst ls) \<Longrightarrow>
     (\<forall>e \<in> set ls'. entry_valid e) \<and> distinct (map fst ls') \<and> (es \<noteq> [] \<or> ls \<noteq> [] \<longrightarrow> ls' \<noteq> [])"
proof (induction es arbitrary: ls)
  case (Cons x es)
  obtain number currency n where p: "parse_uint 32 (trim_space number) = Some n"
    and n: "n \<noteq> 0" "trim_space currency \<in> {''USD'', ''NGN''}"
    and rest: "parse_entries es (AList.update (word_of_int n) (trim_space currency) ls) = Inr ls'"
    using Cons.prems(1) by (auto split: option.splits if_splits)
  let ?ls = "AList.update (word_of_int n) (trim_space currency) ls"
  have "(word_of_int n :: u32) \<noteq> 0" using parse_uint_range [OF p] n(1) by (intro u32_nonzero) simp_all
  then have "\<forall>e \<in> set ?ls. entry_valid e" using Cons.prems(2) n(2) update_entries [of "word_of_int n" _ ls] by fastforce
  moreover have "distinct (map fst ?ls)" "?ls \<noteq> []" using Cons.prems(3) by (simp_all add: distinct_update)
  ultimately show ?case using Cons.IH [OF rest] by simp
qed simp

lemma ledgers_error_None: "ledgers_error ls = None \<longleftrightarrow> (\<forall>e \<in> set ls. entry_valid e)"
  by (induction ls rule: ledgers_error.induct) auto

text \<open>An accepted setting is a valid one, whatever the text.\<close>

lemma accepted_settings_are_valid:
  assumes "parse_ledger_currencies raw = Inr ls" and "code \<noteq> 0" "limit \<noteq> 0" "limit \<le> 8189"
  shows "validate_config \<lparr>cf_ledgers = ls, cf_code = code, cf_limit = limit\<rparr> = None \<and> distinct (map fst ls)"
proof -
  have "split_at CHR '','' s \<noteq> []" for s by (induction s) (auto split: list.splits)
  then have "(\<forall>e \<in> set ls. entry_valid e) \<and> distinct (map fst ls) \<and> ls \<noteq> []"
    using assms(1) parse_entries_valid [of _ "[]" ls]
    by (auto simp: parse_ledger_currencies_def Let_def split: if_splits)
  then show ?thesis using assms(2-) by (simp add: validate_config_def ledgers_error_None [THEN iffD2] not_less)
qed

text \<open>C39 The setting of the mirrored ledgers reads back: the text that a list of distinct non-zero ledgers with
  their currencies prints to is parsed to that list.\<close>

theorem ledger_setting_round_trip:
  assumes "ls \<noteq> []" and "\<forall>e \<in> set ls. fst e \<noteq> 0 \<and> snd e \<in> {''USD'', ''NGN''}" and "distinct (map fst ls)"
  shows "parse_ledger_currencies (render_ledgers ls) = Inr ls"
proof -
  have "render_ledgers ls \<noteq> []" using assms(1) by (induction ls rule: render_ledgers.induct) (simp_all add: render_entry_def)
  then show ?thesis
    using assms trim_space_printable [OF render_printable [OF assms(2)]] parse_entries_rendered [OF assms(2), of "[]"]
    by (simp add: parse_ledger_currencies_def split_render)
qed

theorem ledger_setting_round_trip_witness:
  "parse_ledger_currencies (render_ledgers [(7, ''USD''), (4294967295, ''NGN'')]) = Inr [(7, ''USD''), (4294967295, ''NGN'')]"
  by (rule ledger_setting_round_trip) simp_all

end
