(* ===== verification/Revenue.thy ===== *)
theory Revenue
  imports Tariff
begin

text \<open>
  \<open>internal/revenue/model.go\<close> and \<open>split.go\<close>: debit notes and their life, settlements, bank statements,
  and the split of a settled amount over the beneficiaries of the Treasury Single Account. Amounts and
  shares are Go \<open>int64\<close> values: the products and sums of the split wrap around. The constants of the
  source are the texts they stand for; a date is its text \<open>YYYY-MM-DD\<close> where the source keeps the text.
\<close>

section \<open>Errors\<close>

datatype revenue_error =
  Revenue_Not_Found
| Revenue_Key_Conflict
| Revenue_Invalid_Transition
| Revenue_Maker_Checker
| Split_Incomplete
| Revenue_Text string
| Revenue_Database string
| Revenue_Duplicate

text \<open>\<open>Revenue_Duplicate\<close> is the unique violation of an insertion, which the store handles.\<close>

definition agencies :: "string list" where
  "agencies = [''NPA'', ''NIMASA'', ''NIWA'', ''FMMBE'']"

definition beneficiaries :: "string list" where
  "beneficiaries = [''AGENCY_RETAINED'', ''FGN_CONSOLIDATED'', ''CVFF_FIDUCIARY'']"

section \<open>Debit notes\<close>

record issue_request =
  iq_assessment :: string
  iq_due :: string
  iq_effective :: string

definition validate_issue :: "issue_request \<Rightarrow> string option" where
  "validate_issue r =
     (if trim_space (iq_assessment r) = [] \<or> length (iq_assessment r) > 128
      then Some ''assessmentId is required''
      else if parse_date (iq_due r) = None then Some ''dueDate must be YYYY-MM-DD''
      else if iq_effective r \<noteq> [] \<and> parse_date (iq_effective r) = None
      then Some ''effectiveDate must be YYYY-MM-DD''
      else None)"

record note_line =
  nl_no :: nat
  nl_instrument :: string
  nl_agency :: string
  nl_amount :: int
  nl_currency :: string
  nl_reference :: string

record debit_note =
  dn_id :: string
  dn_assessment :: string
  dn_agency :: string
  dn_entity :: string
  dn_document :: string
  dn_usd :: int
  dn_ngn :: int
  dn_effective :: string
  dn_due :: string
  dn_state :: string
  dn_reason :: string
  dn_lines :: "note_line list"
  dn_maker :: string
  dn_checker :: string
  dn_correlation :: string
  dn_created :: int
  dn_updated :: int

definition valid_transition :: "string \<Rightarrow> string \<Rightarrow> bool" where
  "valid_transition from until =
     (if from = ''DRAFT'' then until = ''ISSUED'' \<or> until = ''CANCELLED''
      else if from = ''ISSUED''
      then until = ''ACKED'' \<or> until = ''DISPUTED'' \<or> until = ''SETTLED'' \<or> until = ''CANCELLED''
      else if from = ''ACKED'' then until = ''SETTLED'' \<or> until = ''DISPUTED''
      else if from = ''DISPUTED'' then until = ''ACKED'' \<or> until = ''SETTLED'' \<or> until = ''CANCELLED''
      else False)"

section \<open>Settlements and statements\<close>

record settlement =
  st_id :: string
  st_note :: string
  st_bank_ref :: string
  st_transfer :: string
  st_amount :: int
  st_currency :: string
  st_payer :: string
  st_value_date :: string
  st_recorded_by :: string
  st_created :: int

record bank_line =
  bl_reference :: string
  bl_value_date :: string
  bl_direction :: string
  bl_amount :: int
  bl_currency :: string
  bl_narrative :: string

definition validate_bank_line :: "bank_line \<Rightarrow> string option" where
  "validate_bank_line l =
     (if trim_space (bl_reference l) = [] \<or> length (bl_reference l) > 128 then Some ''bankReference is required''
      else if parse_date (bl_value_date l) = None then Some ''valueDate must be YYYY-MM-DD''
      else if bl_direction l \<noteq> ''CREDIT'' \<and> bl_direction l \<noteq> ''DEBIT''
      then Some ''direction must be CREDIT or DEBIT''
      else if bl_amount l \<le> 0 then Some ''amountMinor must be positive''
      else if bl_currency l \<noteq> ''USD'' \<and> bl_currency l \<noteq> ''NGN'' then Some ''currency must be USD or NGN''
      else if length (bl_narrative l) > 512 then Some ''narrative is too long''
      else None)"

record statement_request =
  sq_bank :: string
  sq_account :: string
  sq_ref :: string
  sq_start :: string
  sq_end :: string
  sq_lines :: "bank_line list"

fun validate_bank_lines :: "nat \<Rightarrow> bank_line list \<Rightarrow> string option" where
  "validate_bank_lines index [] = None"
| "validate_bank_lines index (l # ls) =
     (case validate_bank_line l of
        Some err \<Rightarrow> Some (''line '' @ dec (int (index + 1)) @ '': '' @ err)
      | None \<Rightarrow> validate_bank_lines (Suc index) ls)"

definition validate_statement :: "statement_request \<Rightarrow> string option" where
  "validate_statement r =
     (if trim_space (sq_bank r) = [] \<or> length (sq_bank r) > 64 then Some ''bank is required''
      else if trim_space (sq_account r) = [] \<or> length (sq_account r) > 128 then Some ''accountRef is required''
      else if trim_space (sq_ref r) = [] \<or> length (sq_ref r) > 128 then Some ''statementRef is required''
      else case parse_date (sq_start r) of
             None \<Rightarrow> Some ''periodStart must be YYYY-MM-DD''
           | Some start \<Rightarrow>
               (case parse_date (sq_end r) of
                  None \<Rightarrow> Some ''periodEnd must be YYYY-MM-DD''
                | Some until \<Rightarrow>
                    if until < start then Some ''periodEnd must not precede periodStart''
                    else if sq_lines r = [] \<or> length (sq_lines r) > 10000
                    then Some ''statement must carry 1..10000 lines''
                    else validate_bank_lines 0 (sq_lines r)))"

section \<open>The split of a settled amount\<close>

record split_rule =
  sr_id :: string
  sr_line :: string
  sr_agency :: string
  sr_beneficiary :: string
  sr_bps :: int
  sr_reference :: string
  sr_provisional :: bool
  sr_from :: gtime
  sr_to :: "gtime option"
  sr_state :: string
  sr_maker :: string
  sr_checker :: string

record allocation =
  ac_beneficiary :: string
  ac_bps :: int
  ac_minor :: int

definition rule_selected :: "gtime \<Rightarrow> split_rule \<Rightarrow> bool" where
  "rule_selected as_of r \<longleftrightarrow>
     sr_state r = ''ACTIVE'' \<and> \<not> gt_inst as_of < gt_inst (sr_from r) \<and>
     (case sr_to r of None \<Rightarrow> True | Some t \<Rightarrow> \<not> gt_inst t < gt_inst as_of)"

text \<open>
  The order of the legs. \<open>sort.Slice\<close> may leave rules of equal share and beneficiary in any order;
  their allocations are equal, so the insertion sort stands for it.
\<close>

definition leg_before :: "split_rule \<Rightarrow> split_rule \<Rightarrow> bool" where
  "leg_before a b \<longleftrightarrow>
     (if sr_bps a \<noteq> sr_bps b then sr_bps b < sr_bps a else text_le (sr_beneficiary a) (sr_beneficiary b))"

definition sum_i64 :: "int list \<Rightarrow> int" where
  "sum_i64 xs = foldl (\<lambda>s x. i64 (s + x)) 0 xs"

definition split_half_up :: "int \<Rightarrow> int \<Rightarrow> int" where
  "split_half_up numerator denominator =
     (if denominator \<le> 0 \<or> numerator < 0 then 0
      else go_div (i64 (go_div (i64 (2 * numerator)) denominator + 1)) 2)"

definition leg_of :: "int \<Rightarrow> split_rule \<Rightarrow> allocation" where
  "leg_of amount r = \<lparr>ac_beneficiary = sr_beneficiary r, ac_bps = sr_bps r,
     ac_minor = split_half_up (i64 (amount * sr_bps r)) 10000\<rparr>"

text \<open>The rounding difference goes to the first leg, the one of the largest share.\<close>

fun give_residual :: "int \<Rightarrow> allocation list \<Rightarrow> revenue_error + allocation list" where
  "give_residual delta [] = Inr []"
| "give_residual delta (a # as) =
     (if delta = 0 then Inr (a # as)
      else let first = a\<lparr>ac_minor := i64 (ac_minor a + delta)\<rparr>
           in if ac_minor first < 0 then Inl Split_Incomplete else Inr (first # as))"

definition compute_split :: "int \<Rightarrow> split_rule list \<Rightarrow> gtime \<Rightarrow> revenue_error + allocation list" where
  "compute_split amount rules as_of =
     (let selected = filter (rule_selected as_of) rules
      in if selected = [] then Inl Split_Incomplete
         else let legs = sort_by leg_before selected
              in if sum_i64 (map sr_bps legs) \<noteq> 10000 then Inl Split_Incomplete
                 else let allocations = map (leg_of amount) legs
                      in give_residual (i64 (amount - sum_i64 (map ac_minor allocations))) allocations)"

end
