(* ===== verification/Revenue_Recon.thy ===== *)
theory Revenue_Recon
  imports Revenue "HOL-Library.AList"
begin

text \<open>
  \<open>internal/revenue/recon.go\<close>: the pure plan of one reconciliation batch over the unmatched debit
  notes, settlements, bank statement lines and intake assessments. Each settlement is decided on its
  own, so the loop is the list of its decisions; the lookup tables are the maps the source fills, a
  later entry overwriting an earlier one (\<open>map_of \<circ> rev\<close>) or the first one staying (\<open>map_of\<close>). The
  formatted \<open>Detail\<close> texts are kept as their arguments. The map \<open>SettledNotes\<close>, which the store
  iterates over, is the association list of its entries.
\<close>

section \<open>Data\<close>

record statement_leg =
  sl_statement :: string
  sl_no :: nat
  sl_bank_ref :: string
  sl_value_date :: string
  sl_amount :: int
  sl_currency :: string

record intake_assessment =
  in_event :: string
  in_call :: string
  in_assessment :: string
  in_total :: int
  in_currency :: string
  in_error :: string

record recon_input =
  ri_notes :: "debit_note list"
  ri_settlements :: "settlement list"
  ri_lines :: "statement_leg list"
  ri_intake :: "intake_assessment list"
  ri_as_of :: gtime

record match_decision =
  md_note :: string
  md_settlement :: string
  md_statement :: string
  md_line :: nat
  md_amount :: int
  md_currency :: string

datatype recon_detail =
  Detail_Shared_Reference string string
| Detail_Intake_Amount string
| Detail_No_Note
| Detail_Note_Amount
| Detail_Line_Amount
| Detail_No_Settlement
| Detail_Past_Due
| Detail_Unmapped_Intake string string
| Detail_Reingested_Reference

record exception_decision =
  ed_class :: string
  ed_key :: string
  ed_note :: string
  ed_settlement :: string
  ed_statement :: string
  ed_line :: nat
  ed_expected :: "int option"
  ed_actual :: "int option"
  ed_currency :: string
  ed_detail :: recon_detail

record intake_match =
  im_event :: string
  im_settlement :: string

record recon_plan =
  rp_matches :: "match_decision list"
  rp_exceptions :: "exception_decision list"
  rp_settled :: "(string \<times> string) list"
  rp_intake :: "intake_match list"

section \<open>Lookup tables\<close>

definition note_amount_in :: "debit_note \<Rightarrow> string \<Rightarrow> int" where
  "note_amount_in n currency = (if currency = ''NGN'' then dn_ngn n else dn_usd n)"

definition notes_by_id :: "recon_input \<Rightarrow> string \<rightharpoonup> debit_note" where
  "notes_by_id inp = map_of (rev (map (\<lambda>n. (dn_id n, n)) (ri_notes inp)))"

definition notes_by_doc :: "recon_input \<Rightarrow> string \<rightharpoonup> debit_note" where
  "notes_by_doc inp =
     map_of (rev (map (\<lambda>n. (dn_document n, n)) (filter (\<lambda>n. dn_document n \<noteq> []) (ri_notes inp))))"

definition lines_by_ref :: "recon_input \<Rightarrow> string \<rightharpoonup> statement_leg" where
  "lines_by_ref inp = map_of (map (\<lambda>l. (sl_bank_ref l, l)) (ri_lines inp))"

definition settlements_by_ref :: "recon_input \<Rightarrow> string \<Rightarrow> settlement list" where
  "settlements_by_ref inp ref = filter (\<lambda>s. st_bank_ref s = ref) (ri_settlements inp)"

definition intake_by_ref :: "recon_input \<Rightarrow> string \<rightharpoonup> intake_assessment" where
  "intake_by_ref inp =
     map_of (concat (map (\<lambda>i. (in_call i, i) # (if in_assessment i \<noteq> [] then [(in_assessment i, i)] else []))
       (filter (\<lambda>i. in_error i = []) (ri_intake inp))))"

definition line_key :: "string \<Rightarrow> nat \<Rightarrow> string" where
  "line_key statement no = statement @ '':'' @ dec (int no)"

section \<open>The decision on one settlement\<close>

datatype settlement_decision =
  Decided_Match match_decision
| Decided_Intake intake_match
| Decided_Exception exception_decision
| Decided_Pending

definition no_exception :: exception_decision where
  "no_exception = \<lparr>ed_class = [], ed_key = [], ed_note = [], ed_settlement = [], ed_statement = [], ed_line = 0,
     ed_expected = None, ed_actual = None, ed_currency = [], ed_detail = Detail_No_Note\<rparr>"

definition duplicate_reference :: "settlement \<Rightarrow> settlement \<Rightarrow> exception_decision" where
  "duplicate_reference s sibling = no_exception\<lparr>ed_class := ''DUPLICATE_BANK_REF'',
     ed_key := ''DUPLICATE_BANK_REF|settlement:'' @ st_id s, ed_settlement := st_id s,
     ed_currency := st_currency s, ed_actual := Some (st_amount s),
     ed_detail := Detail_Shared_Reference (st_bank_ref s) (st_id sibling)\<rparr>"

definition identified_note :: "recon_input \<Rightarrow> settlement \<Rightarrow> debit_note option" where
  "identified_note inp s =
     (case notes_by_id inp (st_note s) of
        Some n \<Rightarrow> Some n
      | None \<Rightarrow> if st_note s = [] then notes_by_doc inp (st_bank_ref s) else None)"

definition decide_unidentified :: "recon_input \<Rightarrow> settlement \<Rightarrow> settlement_decision" where
  "decide_unidentified inp s =
     (case intake_by_ref inp (st_bank_ref s) of
        Some i \<Rightarrow>
          if st_note s = []
          then if in_total i = st_amount s \<and> in_currency i = st_currency s
               then Decided_Intake \<lparr>im_event = in_event i, im_settlement = st_id s\<rparr>
               else Decided_Exception (no_exception\<lparr>ed_class := ''AMOUNT_MISMATCH'',
                      ed_key := ''AMOUNT_MISMATCH|settlement:'' @ st_id s, ed_settlement := st_id s,
                      ed_expected := Some (in_total i), ed_actual := Some (st_amount s),
                      ed_currency := st_currency s, ed_detail := Detail_Intake_Amount (in_event i)\<rparr>)
          else Decided_Exception (no_exception\<lparr>ed_class := ''UNMATCHED_SETTLEMENT'',
                 ed_key := ''UNMATCHED_SETTLEMENT|settlement:'' @ st_id s, ed_settlement := st_id s,
                 ed_actual := Some (st_amount s), ed_currency := st_currency s, ed_detail := Detail_No_Note\<rparr>)
      | None \<Rightarrow> Decided_Exception (no_exception\<lparr>ed_class := ''UNMATCHED_SETTLEMENT'',
                 ed_key := ''UNMATCHED_SETTLEMENT|settlement:'' @ st_id s, ed_settlement := st_id s,
                 ed_actual := Some (st_amount s), ed_currency := st_currency s, ed_detail := Detail_No_Note\<rparr>))"

definition decide_identified :: "recon_input \<Rightarrow> settlement \<Rightarrow> debit_note \<Rightarrow> settlement_decision" where
  "decide_identified inp s n =
     (let expected = note_amount_in n (st_currency s)
      in if expected \<noteq> st_amount s
         then Decided_Exception (no_exception\<lparr>ed_class := ''AMOUNT_MISMATCH'',
                ed_key := ''AMOUNT_MISMATCH|settlement:'' @ st_id s, ed_note := dn_id n, ed_settlement := st_id s,
                ed_expected := Some expected, ed_actual := Some (st_amount s), ed_currency := st_currency s,
                ed_detail := Detail_Note_Amount\<rparr>)
         else case lines_by_ref inp (st_bank_ref s) of
                None \<Rightarrow> Decided_Pending
              | Some l \<Rightarrow>
                  if sl_amount l \<noteq> st_amount s \<or> sl_currency l \<noteq> st_currency s
                  then Decided_Exception (no_exception\<lparr>ed_class := ''AMOUNT_MISMATCH'',
                         ed_key := ''AMOUNT_MISMATCH|line:'' @ line_key (sl_statement l) (sl_no l),
                         ed_note := dn_id n, ed_settlement := st_id s, ed_statement := sl_statement l,
                         ed_line := sl_no l, ed_expected := Some (st_amount s), ed_actual := Some (sl_amount l),
                         ed_currency := st_currency s, ed_detail := Detail_Line_Amount\<rparr>)
                  else Decided_Match \<lparr>md_note = dn_id n, md_settlement = st_id s, md_statement = sl_statement l,
                         md_line = sl_no l, md_amount = st_amount s, md_currency = st_currency s\<rparr>)"

definition decide :: "recon_input \<Rightarrow> settlement \<Rightarrow> settlement_decision" where
  "decide inp s =
     (case settlements_by_ref inp (st_bank_ref s) of
        sibling # _ # _ \<Rightarrow> Decided_Exception (duplicate_reference s sibling)
      | _ \<Rightarrow> (case identified_note inp s of
               None \<Rightarrow> decide_unidentified inp s
             | Some n \<Rightarrow> decide_identified inp s n))"

section \<open>The plan\<close>

fun matches_of :: "settlement_decision list \<Rightarrow> match_decision list" where
  "matches_of [] = []"
| "matches_of (Decided_Match m # ds) = m # matches_of ds"
| "matches_of (_ # ds) = matches_of ds"

fun intake_of :: "settlement_decision list \<Rightarrow> intake_match list" where
  "intake_of [] = []"
| "intake_of (Decided_Intake m # ds) = m # intake_of ds"
| "intake_of (_ # ds) = intake_of ds"

fun exceptions_of :: "settlement_decision list \<Rightarrow> exception_decision list" where
  "exceptions_of [] = []"
| "exceptions_of (Decided_Exception x # ds) = x # exceptions_of ds"
| "exceptions_of (_ # ds) = exceptions_of ds"

definition unmatched_line :: "statement_leg \<Rightarrow> exception_decision" where
  "unmatched_line l = no_exception\<lparr>ed_class := ''UNMATCHED_STATEMENT'',
     ed_key := ''UNMATCHED_STATEMENT|line:'' @ line_key (sl_statement l) (sl_no l),
     ed_statement := sl_statement l, ed_line := sl_no l, ed_actual := Some (sl_amount l),
     ed_currency := sl_currency l, ed_detail := Detail_No_Settlement\<rparr>"

definition stray_lines :: "recon_input \<Rightarrow> match_decision list \<Rightarrow> exception_decision list" where
  "stray_lines inp ms = map unmatched_line
     (filter (\<lambda>l. line_key (sl_statement l) (sl_no l) \<notin> set (map (\<lambda>m. line_key (md_statement m) (md_line m)) ms)
                \<and> settlements_by_ref inp (sl_bank_ref l) = []) (ri_lines inp))"

definition past_due :: "debit_note \<Rightarrow> exception_decision" where
  "past_due n = no_exception\<lparr>ed_class := ''UNMATCHED_ASSESSMENT'',
     ed_key := ''UNMATCHED_ASSESSMENT|note:'' @ dn_id n, ed_note := dn_id n,
     ed_expected := Some (dn_usd n), ed_currency := ''USD'', ed_detail := Detail_Past_Due\<rparr>"

text \<open>\<open>AsOf.UTC().Format("2006-01-02")\<close>\<close>

definition utc_text :: "gtime \<Rightarrow> string" where
  "utc_text t = format_date (gt_inst t div day_ns)"

definition overdue_notes :: "recon_input \<Rightarrow> match_decision list \<Rightarrow> exception_decision list" where
  "overdue_notes inp ms = map past_due
     (filter (\<lambda>n. dn_id n \<notin> set (map md_note ms) \<and> \<not> text_le (utc_text (ri_as_of inp)) (dn_due n) \<and>
        \<not> list_ex (\<lambda>s. st_note s = dn_id n \<or> st_bank_ref s = dn_document n) (ri_settlements inp)) (ri_notes inp))"

definition unmapped_intake :: "intake_assessment \<Rightarrow> exception_decision" where
  "unmapped_intake i = no_exception\<lparr>ed_class := ''UNMATCHED_STATEMENT'',
     ed_key := ''UNMATCHED_STATEMENT|intake:'' @ in_event i,
     ed_detail := Detail_Unmapped_Intake (in_event i) (in_error i)\<rparr>"

definition plan_recon :: "recon_input \<Rightarrow> recon_plan" where
  "plan_recon inp =
     (let decisions = map (decide inp) (ri_settlements inp); ms = matches_of decisions
      in \<lparr>rp_matches = ms,
          rp_exceptions = exceptions_of decisions @ stray_lines inp ms @ overdue_notes inp ms
            @ map unmapped_intake (filter (\<lambda>i. in_error i \<noteq> []) (ri_intake inp)),
          rp_settled = fold (\<lambda>m. AList.update (md_note m) (md_settlement m)) ms [],
          rp_intake = intake_of decisions\<rparr>)"

end
