(* ===== verification/Revenue_Store.thy ===== *)
theory Revenue_Store
  imports Revenue_Recon Tariff_Store
begin

text \<open>
  The tables of \<open>0009_revenue_assurance.sql\<close> and \<open>0010_revenue_intake.sql\<close>, and the life of debit notes and
  split rules: \<open>internal/revenue/store.go\<close> and \<open>split_store.go\<close>. A date column is the text it reads back
  as. A sealed envelope is kept as the payload it carries; the signature, the canonical JSON behind the
  request hashes (\<open>digest\<close>) and the clock that dates an undated note are arguments. The audit and outbox
  payloads are the fields the source puts into their JSON.
\<close>

section \<open>Tables\<close>

datatype json = J_Text string | J_Int int

type_synonym payload = "(string \<times> json) list"

record note_seal =
  ns_note :: string
  ns_document :: string
  ns_assessment :: string
  ns_agency :: string
  ns_entity :: string
  ns_usd :: int
  ns_ngn :: int
  ns_effective :: string
  ns_due :: string
  ns_lines :: "note_line list"

record note_rec =
  nw_id :: string
  nw_assessment :: string
  nw_key :: string
  nw_hash :: string
  nw_agency :: string
  nw_entity :: string
  nw_document :: "string option"
  nw_usd :: int
  nw_ngn :: int
  nw_effective :: string
  nw_due :: string
  nw_state :: string
  nw_reason :: "string option"
  nw_envelope :: "note_seal option"
  nw_maker :: string
  nw_checker :: "string option"
  nw_correlation :: string
  nw_created :: int
  nw_updated :: int

record note_line_rec =
  lr_note :: string
  lr_line :: note_line

record note_transition =
  nt_id :: string
  nt_note :: string
  nt_from :: string
  nt_to :: string
  nt_reason :: string
  nt_actor :: string
  nt_approver :: "string option"
  nt_created :: int

record rule_rec =
  pr_id :: string
  pr_line :: string
  pr_agency :: string
  pr_beneficiary :: string
  pr_bps :: int
  pr_reference :: string
  pr_provisional :: bool
  pr_from :: int
  pr_to :: "int option"
  pr_state :: string
  pr_maker :: string
  pr_checker :: "string option"

record advice =
  ad_id :: string
  ad_settlement :: string
  ad_line :: string
  ad_agency :: string
  ad_as_of :: string
  ad_amount :: int
  ad_currency :: string
  ad_allocations :: "allocation list"
  ad_created_by :: string
  ad_created :: int

record advice_rec =
  vw_key :: string
  vw_hash :: string
  vw_advice :: advice
  vw_envelope :: advice
  vw_correlation :: string

record settlement_rec =
  sw_key :: string
  sw_hash :: string
  sw_row :: settlement

record statement_rec =
  bs_id :: string
  bs_hash :: string
  bs_request :: statement_request
  bs_kid :: string
  bs_by :: string

record statement_line_rec =
  bw_statement :: string
  bw_no :: nat
  bw_bank :: string
  bw_line :: bank_line

record recon_run =
  rr_id :: string
  rr_trigger :: string
  rr_state :: string
  rr_by :: string
  rr_started :: int
  rr_finished :: "int option"
  rr_matched :: nat
  rr_exceptions :: nat

record match_rec =
  mw_id :: string
  mw_run :: string
  mw_match :: match_decision
  mw_created :: int

record exception_rec =
  xr_id :: string
  xr_run :: string
  xr_state :: string
  xr_decision :: exception_decision
  xr_resolver :: "string option"
  xr_note :: "string option"
  xr_resolved :: "int option"
  xr_created :: int

datatype exception_note = Raised_Note recon_detail | Resolution_Note string

record exception_event =
  xe_id :: string
  xe_exception :: string
  xe_kind :: string
  xe_actor :: string
  xe_note :: exception_note

record intake_rec =
  iw_row :: intake_assessment
  iw_total :: "int option"
  iw_state :: string
  iw_settlement :: "string option"
  iw_received :: int

record revenue_event =
  re_id :: string
  re_subject :: string
  re_type :: string
  re_payload :: payload
  re_created :: int

record revenue_db =
  rd_tariff :: tariff_db
  rd_series :: "((string \<times> int) \<times> int) list"
  rd_notes :: "note_rec list"
  rd_note_lines :: "note_line_rec list"
  rd_transitions :: "note_transition list"
  rd_rules :: "rule_rec list"
  rd_advices :: "advice_rec list"
  rd_settlements :: "settlement_rec list"
  rd_statements :: "statement_rec list"
  rd_statement_lines :: "statement_line_rec list"
  rd_runs :: "recon_run list"
  rd_matches :: "match_rec list"
  rd_exceptions :: "exception_rec list"
  rd_exception_events :: "exception_event list"
  rd_intake :: "intake_rec list"
  rd_outbox :: "revenue_event list"
  rd_cursors :: "(string \<times> int) list"

text \<open>The \<open>CHECK\<close> constraints. An insertion meets them first, then the unique indexes, then the foreign keys.\<close>

definition note_checks :: "note_rec \<Rightarrow> bool" where
  "note_checks n \<longleftrightarrow>
     nw_agency n \<in> set agencies \<and> 0 \<le> nw_usd n \<and> 0 \<le> nw_ngn n \<and>
     nw_state n \<in> {''DRAFT'', ''ISSUED'', ''ACKED'', ''DISPUTED'', ''SETTLED'', ''CANCELLED''} \<and>
     nw_checker n \<noteq> Some (nw_maker n) \<and> (nw_state n = ''CANCELLED'' \<longrightarrow> nw_reason n \<noteq> None) \<and>
     (nw_state n \<in> {''ISSUED'', ''ACKED'', ''DISPUTED'', ''SETTLED''} \<longrightarrow> nw_document n \<noteq> None \<and> nw_envelope n \<noteq> None)"

definition rule_checks :: "rule_rec \<Rightarrow> bool" where
  "rule_checks r \<longleftrightarrow>
     pr_agency r \<in> set agencies \<and> pr_beneficiary r \<in> set beneficiaries \<and> 0 < pr_bps r \<and> pr_bps r \<le> 10000 \<and>
     pr_state r \<in> {''DRAFT'', ''ACTIVE'', ''RETIRED''} \<and> pr_checker r \<noteq> Some (pr_maker r)"

text \<open>A \<open>DATE\<close> column takes the texts of the calendar from the year 1 on.\<close>

definition pg_date :: "string \<Rightarrow> bool" where
  "pg_date s \<longleftrightarrow> parse_date s \<noteq> None \<and> take 4 s \<noteq> ''0000''"

section \<open>Audit and outbox\<close>

definition insert_transition ::
  "revenue_db env \<Rightarrow> nat \<Rightarrow> string \<Rightarrow> string \<Rightarrow> string \<Rightarrow> string \<Rightarrow> string \<Rightarrow> string \<Rightarrow> revenue_db
     \<Rightarrow> revenue_error + revenue_db" where
  "insert_transition e n note from until reason actor approver d =
     (let row = \<lparr>nt_id = env_uuid e n, nt_note = note, nt_from = from, nt_to = until, nt_reason = reason,
        nt_actor = actor, nt_approver = (if approver = [] then None else Some approver), nt_created = env_now e\<rparr>
      in stmt e ''insert transition audit'' Revenue_Database
           (if nt_id row \<in> set (map nt_id (rd_transitions d)) \<or> note \<notin> set (map nw_id (rd_notes d))
               \<or> nt_approver row = Some actor
            then Inl (Revenue_Database ''insert transition audit'')
            else Inr (d\<lparr>rd_transitions := rd_transitions d @ [row]\<rparr>)))"

definition insert_revenue_event ::
  "revenue_db env \<Rightarrow> nat \<Rightarrow> string \<Rightarrow> string \<Rightarrow> payload \<Rightarrow> revenue_db \<Rightarrow> revenue_error + revenue_db" where
  "insert_revenue_event e n subject type content d =
     stmt e ''insert outbox event'' Revenue_Database
       (if env_uuid e n \<in> set (map re_id (rd_outbox d)) then Inl (Revenue_Database ''insert outbox event'')
        else Inr (d\<lparr>rd_outbox := rd_outbox d @ [\<lparr>re_id = env_uuid e n, re_subject = subject, re_type = type,
                      re_payload = content, re_created = env_now e\<rparr>]\<rparr>))"

section \<open>Reading debit notes\<close>

definition text_of :: "string option \<Rightarrow> string" where
  "text_of v = (case v of None \<Rightarrow> [] | Some s \<Rightarrow> s)"

definition lines_of_note :: "string \<Rightarrow> revenue_db \<Rightarrow> note_line list" where
  "lines_of_note k d =
     sort_by (\<lambda>a b. nl_no a \<le> nl_no b) (map lr_line (filter (\<lambda>l. lr_note l = k) (rd_note_lines d)))"

definition scan_note :: "note_rec \<Rightarrow> note_line list \<Rightarrow> debit_note" where
  "scan_note n ls = \<lparr>dn_id = nw_id n, dn_assessment = nw_assessment n, dn_agency = nw_agency n, dn_entity = nw_entity n,
     dn_document = text_of (nw_document n), dn_usd = nw_usd n, dn_ngn = nw_ngn n, dn_effective = nw_effective n,
     dn_due = nw_due n, dn_state = nw_state n, dn_reason = text_of (nw_reason n), dn_lines = ls,
     dn_maker = nw_maker n, dn_checker = text_of (nw_checker n), dn_correlation = nw_correlation n,
     dn_created = nw_created n, dn_updated = nw_updated n\<rparr>"

definition get_debit_note :: "revenue_db env \<Rightarrow> string \<Rightarrow> revenue_db \<Rightarrow> revenue_error + debit_note" where
  "get_debit_note e k d =
     and_then (stmt e ''load debit note'' Revenue_Database
       (case sql_row (\<lambda>n. nw_id n = k) (rd_notes d) of None \<Rightarrow> Inl Revenue_Not_Found | Some n \<Rightarrow> Inr n)) (\<lambda>n.
     stmt e ''load debit-note lines'' Revenue_Database (Inr (scan_note n (lines_of_note k d))))"

definition get_debit_note_envelope :: "revenue_db env \<Rightarrow> string \<Rightarrow> revenue_db \<Rightarrow> revenue_error + note_seal" where
  "get_debit_note_envelope e k d =
     stmt e ''load debit-note envelope'' Revenue_Database
       (case sql_row (\<lambda>n. nw_id n = k \<and> nw_envelope n \<noteq> None) (rd_notes d) of
          None \<Rightarrow> Inl Revenue_Not_Found
        | Some n \<Rightarrow> (case nw_envelope n of None \<Rightarrow> Inl Revenue_Not_Found | Some v \<Rightarrow> Inr v))"

definition list_transitions :: "revenue_db env \<Rightarrow> string \<Rightarrow> revenue_db \<Rightarrow> revenue_error + note_transition list" where
  "list_transitions e k d =
     stmt e ''list transitions'' Revenue_Database
       (Inr (sort_by (\<lambda>a b. nt_created a < nt_created b \<or> nt_created a = nt_created b \<and> text_le (nt_id a) (nt_id b))
          (filter (\<lambda>t. nt_note t = k) (rd_transitions d))))"

definition note_by_idempotency :: "revenue_db env \<Rightarrow> string \<Rightarrow> revenue_db \<Rightarrow> revenue_error + string \<times> string" where
  "note_by_idempotency e key d =
     stmt e ''resolve note key'' Revenue_Database
       (case sql_row (\<lambda>n. nw_key n = key) (rd_notes d) of
          None \<Rightarrow> Inl Revenue_Not_Found | Some n \<Rightarrow> Inr (nw_id n, nw_hash n))"

section \<open>Drafting a debit note\<close>

definition replayed_note ::
  "revenue_db env \<Rightarrow> string \<Rightarrow> string \<times> string \<Rightarrow> revenue_db \<Rightarrow> revenue_error + debit_note" where
  "replayed_note e hash existing d =
     (if snd existing \<noteq> hash then Inl Revenue_Key_Conflict else get_debit_note e (fst existing) d)"

definition load_assessment :: "revenue_db env \<Rightarrow> string \<Rightarrow> revenue_db \<Rightarrow> revenue_error + assessment_rec" where
  "load_assessment e k d =
     stmt e ''load assessment'' Revenue_Database
       (case sql_row (\<lambda>a. aw_id a = k) (td_assessments (rd_tariff d)) of
          None \<Rightarrow> Inl Revenue_Not_Found | Some a \<Rightarrow> Inr a)"

fun number_lines :: "nat \<Rightarrow> assessment_line list \<Rightarrow> note_line list" where
  "number_lines n [] = []"
| "number_lines n (l # ls) =
     \<lparr>nl_no = Suc n, nl_instrument = al_instrument l, nl_agency = al_agency l, nl_amount = al_amount l,
       nl_currency = al_currency l, nl_reference = al_reference l\<rparr> # number_lines (Suc n) ls"

definition charged_lines :: "revenue_db env \<Rightarrow> string \<Rightarrow> revenue_db \<Rightarrow> revenue_error + note_line list" where
  "charged_lines e k d =
     stmt e ''load assessment lines'' Revenue_Database
       (Inr (number_lines 0 (filter (\<lambda>l. al_applicability l = Line_Charged) (assessment_lines k (rd_tariff d)))))"

definition insert_note :: "revenue_db env \<Rightarrow> note_rec \<Rightarrow> revenue_db \<Rightarrow> revenue_error + revenue_db" where
  "insert_note e n d =
     stmt e ''insert debit note'' Revenue_Database
       (if \<not> note_checks n \<or> \<not> pg_date (nw_effective n) \<or> \<not> pg_date (nw_due n)
        then Inl (Revenue_Database ''insert debit note'')
        else if nw_id n \<in> set (map nw_id (rd_notes d)) \<or> nw_key n \<in> set (map nw_key (rd_notes d))
        then Inl Revenue_Duplicate
        else if nw_assessment n \<notin> set (map aw_id (td_assessments (rd_tariff d)))
        then Inl (Revenue_Database ''insert debit note'')
        else Inr (d\<lparr>rd_notes := rd_notes d @ [n]\<rparr>))"

fun insert_note_lines :: "revenue_db env \<Rightarrow> string \<Rightarrow> note_line list \<Rightarrow> revenue_db \<Rightarrow> revenue_error + revenue_db" where
  "insert_note_lines e k [] d = Inr d"
| "insert_note_lines e k (l # ls) d =
     and_then (stmt e ''insert debit-note line'' Revenue_Database
       (if nl_amount l < 0 \<or> nl_currency l \<notin> {''USD'', ''NGN''}
           \<or> (\<exists>x \<in> set (rd_note_lines d). lr_note x = k \<and> nl_no (lr_line x) = nl_no l)
        then Inl (Revenue_Database ''insert debit-note line'')
        else Inr (d\<lparr>rd_note_lines := rd_note_lines d @ [\<lparr>lr_note = k, lr_line = l\<rparr>]\<rparr>)))
       (insert_note_lines e k ls)"

definition create_note_body ::
  "revenue_db env \<Rightarrow> note_rec \<Rightarrow> note_line list \<Rightarrow> revenue_db \<Rightarrow> revenue_error + unit \<times> revenue_db" where
  "create_note_body e n ls d =
     and_then (insert_note e n d) (\<lambda>d1.
     and_then (insert_note_lines e (nw_id n) ls d1) (\<lambda>d2.
     and_then (insert_transition e 1 (nw_id n) [] ''DRAFT'' ''debit note drafted'' (nw_maker n) [] d2) (\<lambda>d3.
     and_then (insert_revenue_event e 2 (nw_id n) ''revenue.debit_note.created''
       [(''debitNoteId'', J_Text (nw_id n)), (''assessmentId'', J_Text (nw_assessment n)), (''agency'', J_Text (nw_agency n)),
        (''entityRef'', J_Text (nw_entity n)), (''amountUsdMinor'', J_Int (nw_usd n)), (''amountNgnMinor'', J_Int (nw_ngn n)),
        (''maker'', J_Text (nw_maker n)), (''correlationId'', J_Text (nw_correlation n))] d3) (\<lambda>d4.
     Inr ((), d4)))))"

definition persist_note ::
  "revenue_db env \<Rightarrow> note_rec \<Rightarrow> note_line list \<Rightarrow> revenue_db \<Rightarrow> (revenue_error + debit_note) \<times> revenue_db" where
  "persist_note e n ls d =
     (case run_tx e ''begin debit-note transaction'' ''commit debit note'' Revenue_Database (create_note_body e n ls) d of
        (Inr _, d') \<Rightarrow> (get_debit_note e (nw_id n) d', d')
      | (Inl err, d') \<Rightarrow>
          if err = Revenue_Duplicate then
            (case note_by_idempotency e (nw_key n) d' of
               Inr existing \<Rightarrow> (replayed_note e (nw_hash n) existing d', d')
             | Inl _ \<Rightarrow> (Inl Revenue_Key_Conflict, d'))
          else (Inl err, d'))"

definition create_debit_note ::
  "(string \<times> string \<times> string \<Rightarrow> string) \<Rightarrow> revenue_db env \<Rightarrow> issue_request \<Rightarrow> string \<Rightarrow> string \<Rightarrow> string \<Rightarrow> gtime
     \<Rightarrow> revenue_db \<Rightarrow> (revenue_error + debit_note) \<times> revenue_db" where
  "create_debit_note digest e rq key maker correlation now d =
     (case validate_issue rq of
        Some err \<Rightarrow> (Inl (Revenue_Text err), d)
      | None \<Rightarrow>
          if key = [] \<or> length key > 128 then (Inl (Revenue_Text ''idempotency key is required''), d)
          else if maker = [] \<or> correlation = []
          then (Inl (Revenue_Text ''maker and correlation id are required''), d)
          else let effective = (if iq_effective rq = [] then utc_text now else iq_effective rq);
                   hash = digest (iq_assessment rq, iq_due rq, effective)
               in case note_by_idempotency e key d of
                    Inr existing \<Rightarrow> (replayed_note e hash existing d, d)
                  | Inl err \<Rightarrow>
                      if err \<noteq> Revenue_Not_Found then (Inl err, d)
                      else (case load_assessment e (iq_assessment rq) d of
                         Inl err \<Rightarrow> (Inl err, d)
                       | Inr a \<Rightarrow>
                           (case charged_lines e (iq_assessment rq) d of
                              Inl err \<Rightarrow> (Inl err, d)
                            | Inr [] \<Rightarrow> (Inl (Revenue_Text ''assessment has no charged lines to bill''), d)
                            | Inr (l # ls) \<Rightarrow>
                                if \<exists>x \<in> set ls. nl_agency x \<noteq> nl_agency l
                                then (Inl (Revenue_Text ''assessment lines span agencies''), d)
                                else persist_note e
                                  \<lparr>nw_id = env_uuid e 0, nw_assessment = iq_assessment rq, nw_key = key, nw_hash = hash,
                                    nw_agency = nl_agency l, nw_entity = rq_entity (aw_request a), nw_document = None,
                                    nw_usd = aw_usd a, nw_ngn = aw_ngn a, nw_effective = effective, nw_due = iq_due rq,
                                    nw_state = ''DRAFT'', nw_reason = None, nw_envelope = None, nw_maker = maker,
                                    nw_checker = None, nw_correlation = correlation, nw_created = env_now e,
                                    nw_updated = env_now e\<rparr> (l # ls) d)))"

section \<open>Issuing\<close>

text \<open>
  The series row advances in a statement of its own, before the transaction: a refused issue still uses
  up its number. The number is printed as \<open>%s-%d-%06d\<close>.
\<close>

definition next_document_number ::
  "revenue_db env \<Rightarrow> string \<Rightarrow> int \<Rightarrow> revenue_db \<Rightarrow> (revenue_error + string) \<times> revenue_db" where
  "next_document_number e agency year d =
     (if env_fault e ''advance document series'' = Fault \<or> agency \<notin> set agencies \<or> year < 2000
      then (Inl (Revenue_Database ''advance document series''), d)
      else let next = (case map_of (rd_series d) (agency, year) of None \<Rightarrow> 2 | Some n \<Rightarrow> n + 1);
               d' = d\<lparr>rd_series := AList.update (agency, year) next (rd_series d)\<rparr>
           in if env_fault e ''advance document series'' = Applied_Fault
              then (Inl (Revenue_Database ''advance document series''), d')
              else (Inr (agency @ ''-'' @ dec year @ ''-'' @ padded 6 (next - 1)), d'))"

definition seal_of :: "debit_note \<Rightarrow> string \<Rightarrow> note_seal" where
  "seal_of n document = \<lparr>ns_note = dn_id n, ns_document = document, ns_assessment = dn_assessment n,
     ns_agency = dn_agency n, ns_entity = dn_entity n, ns_usd = dn_usd n, ns_ngn = dn_ngn n,
     ns_effective = dn_effective n, ns_due = dn_due n, ns_lines = dn_lines n\<rparr>"

text \<open>One guarded UPDATE of a debit note: \<open>Inr None\<close> when it affects no row.\<close>

definition update_note ::
  "revenue_db env \<Rightarrow> string \<Rightarrow> (note_rec \<Rightarrow> bool) \<Rightarrow> (note_rec \<Rightarrow> note_rec) \<Rightarrow> revenue_db
     \<Rightarrow> revenue_error + revenue_db option" where
  "update_note e label hit upd d =
     stmt e label Revenue_Database
       (case sql_row hit (rd_notes d) of
          None \<Rightarrow> Inr None
        | Some n \<Rightarrow>
            if \<not> note_checks (upd n) then Inl Revenue_Maker_Checker
            else if nw_document (upd n) \<noteq> None \<and> nw_document (upd n) \<noteq> nw_document n
                    \<and> nw_document (upd n) \<in> set (map nw_document (rd_notes d))
            then Inl (Revenue_Database label)
            else Inr (Some (d\<lparr>rd_notes := sql_update hit upd (rd_notes d)\<rparr>)))"

definition transition_event ::
  "revenue_db env \<Rightarrow> nat \<Rightarrow> string \<Rightarrow> string \<Rightarrow> string \<Rightarrow> (string \<times> json) list \<Rightarrow> string \<Rightarrow> revenue_db
     \<Rightarrow> revenue_error + revenue_db" where
  "transition_event e n k from until extra actor d =
     insert_revenue_event e n k ''revenue.debit_note.transitioned''
       ([(''debitNoteId'', J_Text k), (''fromState'', J_Text from), (''toState'', J_Text until)] @ extra
          @ [(''actor'', J_Text actor)]) d"

definition issue_body ::
  "revenue_db env \<Rightarrow> debit_note \<Rightarrow> string \<Rightarrow> string \<Rightarrow> revenue_db \<Rightarrow> revenue_error + unit \<times> revenue_db" where
  "issue_body e n document issuer d =
     and_then (update_note e ''issue debit note''
         (\<lambda>r. nw_id r = dn_id n \<and> nw_state r = ''DRAFT'' \<and> nw_maker r \<noteq> issuer)
         (\<lambda>r. r\<lparr>nw_state := ''ISSUED'', nw_document := Some document, nw_checker := Some issuer,
            nw_envelope := Some (seal_of n document), nw_updated := env_now e\<rparr>) d) (\<lambda>hit.
     case hit of
       None \<Rightarrow> (case get_debit_note e (dn_id n) d of
           Inr fresh \<Rightarrow> Inl (if dn_maker fresh = issuer then Revenue_Maker_Checker else Revenue_Invalid_Transition)
         | Inl _ \<Rightarrow> Inl Revenue_Invalid_Transition)
     | Some d1 \<Rightarrow>
         and_then (insert_transition e 0 (dn_id n) ''DRAFT'' ''ISSUED'' ''issued under dual control'' issuer (dn_maker n) d1) (\<lambda>d2.
         and_then (transition_event e 1 (dn_id n) ''DRAFT'' ''ISSUED'' [(''documentNumber'', J_Text document)] issuer d2) (\<lambda>d3.
         Inr ((), d3))))"

definition issue ::
  "revenue_db env \<Rightarrow> string \<Rightarrow> string \<Rightarrow> int \<Rightarrow> revenue_db \<Rightarrow> (revenue_error + debit_note) \<times> revenue_db" where
  "issue e k issuer year d =
     (if k = [] \<or> issuer = [] then (Inl (Revenue_Text ''debit note id and issuer are required''), d)
      else case get_debit_note e k d of
        Inl err \<Rightarrow> (Inl err, d)
      | Inr n \<Rightarrow>
          if dn_state n \<noteq> ''DRAFT'' then (Inl Revenue_Invalid_Transition, d)
          else if dn_maker n = issuer then (Inl Revenue_Maker_Checker, d)
          else (case next_document_number e (dn_agency n) year d of
             (Inl err, d1) \<Rightarrow> (Inl err, d1)
           | (Inr document, d1) \<Rightarrow>
               if env_fault e ''seal debit-note envelope'' \<noteq> No_Fault
               then (Inl (Revenue_Database ''seal debit-note envelope''), d1)
               else (case run_tx e ''begin issuance transaction'' ''commit issuance'' Revenue_Database
                        (issue_body e n document issuer) d1 of
                  (Inl err, d2) \<Rightarrow> (Inl err, d2)
                | (Inr _, d2) \<Rightarrow> (get_debit_note e k d2, d2))))"

section \<open>The life of a debit note\<close>

definition transition_note_body ::
  "revenue_db env \<Rightarrow> debit_note \<Rightarrow> string \<Rightarrow> string \<Rightarrow> string \<Rightarrow> revenue_db \<Rightarrow> revenue_error + unit \<times> revenue_db" where
  "transition_note_body e n until reason actor d =
     and_then (if until = ''CANCELLED''
         then update_note e ''transition debit note''
           (\<lambda>r. nw_id r = dn_id n \<and> nw_state r = dn_state n \<and> nw_maker r \<noteq> actor)
           (\<lambda>r. r\<lparr>nw_state := until, nw_reason := Some reason, nw_updated := env_now e\<rparr>) d
         else update_note e ''transition debit note''
           (\<lambda>r. nw_id r = dn_id n \<and> nw_state r = dn_state n)
           (\<lambda>r. r\<lparr>nw_state := until, nw_updated := env_now e\<rparr>) d) (\<lambda>hit.
     case hit of
       None \<Rightarrow> Inl (if until = ''CANCELLED'' \<and> dn_maker n = actor then Revenue_Maker_Checker else Revenue_Invalid_Transition)
     | Some d1 \<Rightarrow>
         and_then (insert_transition e 0 (dn_id n) (dn_state n) until reason actor
           (if until = ''CANCELLED'' then dn_maker n else []) d1) (\<lambda>d2.
         and_then (transition_event e 1 (dn_id n) (dn_state n) until [(''reason'', J_Text reason)] actor d2) (\<lambda>d3.
         Inr ((), d3))))"

definition transition_note ::
  "revenue_db env \<Rightarrow> string \<Rightarrow> string \<Rightarrow> string \<Rightarrow> string \<Rightarrow> revenue_db \<Rightarrow> (revenue_error + debit_note) \<times> revenue_db" where
  "transition_note e k until reason actor d =
     (if k = [] \<or> actor = [] then (Inl (Revenue_Text ''debit note id and actor are required''), d)
      else case get_debit_note e k d of
        Inl err \<Rightarrow> (Inl err, d)
      | Inr n \<Rightarrow>
          if \<not> valid_transition (dn_state n) until then (Inl Revenue_Invalid_Transition, d)
          else if until = ''SETTLED''
          then (Inl (Revenue_Text ''SETTLED is driven by reconciliation, not manual transition''), d)
          else if until = ''CANCELLED'' \<and> length (trim_space reason) < 8
          then (Inl (Revenue_Text ''cancellation requires a reason''), d)
          else if until = ''CANCELLED'' \<and> dn_maker n = actor then (Inl Revenue_Maker_Checker, d)
          else if until = ''DISPUTED'' \<and> length (trim_space reason) < 8
          then (Inl (Revenue_Text ''dispute requires a reason''), d)
          else (case run_tx e ''begin transition transaction'' ''commit transition'' Revenue_Database
                  (transition_note_body e n until reason actor) d of
             (Inl err, d1) \<Rightarrow> (Inl err, d1)
           | (Inr _, d1) \<Rightarrow> (get_debit_note e k d1, d1)))"

end
