(* ===== verification/Revenue_Batch.thy ===== *)
theory Revenue_Batch
  imports Revenue_Store
begin

text \<open>
  \<open>internal/revenue/recon_store.go\<close>: the reconciliation batch, which loads the unmatched legs, plans and
  persists the plan in one transaction, and the exception queue. \<open>order\<close> is the order in which Go walks
  the map of settled notes, \<open>before\<close> the database's order of texts. The four queries of the load see one
  snapshot. An error inside a transaction aborts it, also where the source goes on.
\<close>

section \<open>Runs and exceptions\<close>

definition insert_recon_run ::
  "revenue_db env \<Rightarrow> nat \<Rightarrow> string \<Rightarrow> string \<Rightarrow> revenue_db \<Rightarrow> revenue_error + string \<times> revenue_db" where
  "insert_recon_run e n trigger actor d =
     stmt e ''insert recon run'' Revenue_Database
       (if env_uuid e n \<in> set (map rr_id (rd_runs d)) \<or> trigger \<notin> {''MANUAL'', ''TEMPORAL_BATCH''}
        then Inl (Revenue_Database ''insert recon run'')
        else Inr (env_uuid e n, d\<lparr>rd_runs := rd_runs d @ [\<lparr>rr_id = env_uuid e n, rr_trigger = trigger,
          rr_state = ''RUNNING'', rr_by = actor, rr_started = env_now e, rr_finished = None, rr_matched = 0,
          rr_exceptions = 0\<rparr>]\<rparr>))"

definition exception_classes :: "string list" where
  "exception_classes = [''UNMATCHED_ASSESSMENT'', ''UNMATCHED_SETTLEMENT'', ''UNMATCHED_STATEMENT'',
     ''AMOUNT_MISMATCH'', ''DUPLICATE_BANK_REF'']"

definition queued :: "revenue_db \<Rightarrow> string \<Rightarrow> bool" where
  "queued d key \<longleftrightarrow> list_ex (\<lambda>x. ed_key (xr_decision x) = key \<and> xr_state x = ''OPEN'') (rd_exceptions d)"

definition raise_exception ::
  "revenue_db env \<Rightarrow> nat \<Rightarrow> string \<Rightarrow> exception_decision \<Rightarrow> revenue_db \<Rightarrow> revenue_error + revenue_db" where
  "raise_exception e n run x d =
     and_then (stmt e ''insert exception'' Revenue_Database
       (if env_uuid e n \<in> set (map xr_id (rd_exceptions d)) \<or> ed_class x \<notin> set exception_classes
           \<or> run \<notin> set (map rr_id (rd_runs d))
        then Inl (Revenue_Database ''insert exception'')
        else Inr (d\<lparr>rd_exceptions := rd_exceptions d @ [\<lparr>xr_id = env_uuid e n, xr_run = run, xr_state = ''OPEN'',
               xr_decision = x, xr_resolver = None, xr_note = None, xr_resolved = None, xr_created = env_now e\<rparr>]\<rparr>))) (\<lambda>d1.
     and_then (stmt e ''insert exception event'' Revenue_Database
       (if env_uuid e (n + 1) \<in> set (map xe_id (rd_exception_events d1))
        then Inl (Revenue_Database ''insert exception event'')
        else Inr (d1\<lparr>rd_exception_events := rd_exception_events d1 @ [\<lparr>xe_id = env_uuid e (n + 1),
               xe_exception = env_uuid e n, xe_kind = ''RAISED'', xe_actor = ''recon-engine'',
               xe_note = Raised_Note (ed_detail x)\<rparr>]\<rparr>))) (\<lambda>d2.
     insert_revenue_event e (n + 2) (env_uuid e n) ''revenue.recon.exception_raised''
       [(''exceptionId'', J_Text (env_uuid e n)), (''runId'', J_Text run), (''class'', J_Text (ed_class x)),
        (''debitNoteId'', J_Text (ed_note x)), (''settlementId'', J_Text (ed_settlement x))] d2))"

definition insert_exception ::
  "revenue_db env \<Rightarrow> nat \<Rightarrow> string \<Rightarrow> exception_decision \<Rightarrow> revenue_db \<Rightarrow> revenue_error + revenue_db" where
  "insert_exception e n run x d =
     and_then (stmt e ''check exception dedupe'' Revenue_Database (Inr (queued d (ed_key x)))) (\<lambda>found.
     if found then Inr d else raise_exception e n run x d)"

fun insert_exceptions ::
  "revenue_db env \<Rightarrow> nat \<Rightarrow> string \<Rightarrow> exception_decision list \<Rightarrow> revenue_db \<Rightarrow> revenue_error + revenue_db" where
  "insert_exceptions e n run [] d = Inr d"
| "insert_exceptions e n run (x # xs) d =
     and_then (insert_exception e n run x d) (insert_exceptions e (n + 3) run xs)"

section \<open>Loading the batch\<close>

definition match_notes :: "revenue_db \<Rightarrow> string list" where
  "match_notes d = map (md_note \<circ> mw_match) (rd_matches d)"

definition match_settlements :: "revenue_db \<Rightarrow> string list" where
  "match_settlements d = map (md_settlement \<circ> mw_match) (rd_matches d)"

definition match_lines :: "revenue_db \<Rightarrow> (string \<times> nat) list" where
  "match_lines d = map ((\<lambda>m. (md_statement m, md_line m)) \<circ> mw_match) (rd_matches d)"

definition open_note :: "note_rec \<Rightarrow> bool" where
  "open_note n \<longleftrightarrow> nw_state n \<in> {''ISSUED'', ''ACKED'', ''DISPUTED''}"

definition batch_note :: "note_rec \<Rightarrow> debit_note" where
  "batch_note n = (scan_note n [])\<lparr>dn_reason := [], dn_checker := [], dn_created := 0, dn_updated := 0\<rparr>"

definition batch_settlement :: "settlement_rec \<Rightarrow> settlement" where
  "batch_settlement s = (sw_row s)\<lparr>st_transfer := [], st_created := 0\<rparr>"

definition batch_line :: "statement_line_rec \<Rightarrow> statement_leg" where
  "batch_line l = \<lparr>sl_statement = bw_statement l, sl_no = bw_no l, sl_bank_ref = bl_reference (bw_line l),
     sl_value_date = bl_value_date (bw_line l), sl_amount = bl_amount (bw_line l), sl_currency = bl_currency (bw_line l)\<rparr>"

definition batch_intake :: "intake_rec \<Rightarrow> intake_assessment" where
  "batch_intake i = (iw_row i)\<lparr>in_total := (case iw_total i of None \<Rightarrow> 0 | Some t \<Rightarrow> t)\<rparr>"

definition load_recon_input ::
  "(string \<Rightarrow> string \<Rightarrow> bool) \<Rightarrow> revenue_db env \<Rightarrow> gtime \<Rightarrow> revenue_db \<Rightarrow> revenue_error + recon_input" where
  "load_recon_input before e as_of d =
     and_then (stmt e ''load open notes'' Revenue_Database
       (Inr (map batch_note (filter (\<lambda>n. open_note n \<and> nw_id n \<notin> set (match_notes d)) (rd_notes d))))) (\<lambda>notes.
     and_then (stmt e ''load unmatched settlements'' Revenue_Database
       (Inr (map batch_settlement (sort_by (\<lambda>a b. st_created (sw_row a) < st_created (sw_row b)
            \<or> st_created (sw_row a) = st_created (sw_row b) \<and> before (st_id (sw_row a)) (st_id (sw_row b)))
          (filter (\<lambda>s. st_id (sw_row s) \<notin> set (match_settlements d)
              \<and> Some (st_id (sw_row s)) \<notin> set (map iw_settlement (rd_intake d))) (rd_settlements d)))))) (\<lambda>ss.
     and_then (stmt e ''load unmatched statement lines'' Revenue_Database
       (Inr (map batch_line (sort_by (\<lambda>a b. if bw_statement a = bw_statement b then bw_no a \<le> bw_no b
            else before (bw_statement a) (bw_statement b))
          (filter (\<lambda>l. bl_direction (bw_line l) = ''CREDIT'' \<and> (bw_statement l, bw_no l) \<notin> set (match_lines d))
             (rd_statement_lines d)))))) (\<lambda>ls.
     and_then (stmt e ''load open intake assessments'' Revenue_Database
       (Inr (map batch_intake (sort_by (\<lambda>a b. iw_received a < iw_received b
            \<or> iw_received a = iw_received b \<and> text_le (in_event (iw_row a)) (in_event (iw_row b)))
          (filter (\<lambda>i. iw_state i = ''OPEN'') (rd_intake d)))))) (\<lambda>is.
     Inr \<lparr>ri_notes = notes, ri_settlements = ss, ri_lines = ls, ri_intake = is, ri_as_of = as_of\<rparr>))))"

section \<open>Persisting the plan\<close>

text \<open>\<open>ON CONFLICT (settlement_id) DO NOTHING\<close>: the other unique indexes still raise.\<close>

definition insert_match ::
  "revenue_db env \<Rightarrow> nat \<Rightarrow> string \<Rightarrow> match_decision \<Rightarrow> revenue_db \<Rightarrow> revenue_error + revenue_db" where
  "insert_match e n run m d =
     stmt e ''insert match'' Revenue_Database
       (if md_amount m \<le> 0 then Inl (Revenue_Database ''insert match'')
        else if md_settlement m \<in> set (match_settlements d) then Inr d
        else if env_uuid e n \<in> set (map mw_id (rd_matches d)) \<or> md_note m \<in> set (match_notes d)
                \<or> (md_statement m, md_line m) \<in> set (match_lines d)
                \<or> md_note m \<notin> set (map nw_id (rd_notes d))
                \<or> md_settlement m \<notin> set (map (st_id \<circ> sw_row) (rd_settlements d))
                \<or> md_statement m \<notin> set (map bs_id (rd_statements d)) \<or> run \<notin> set (map rr_id (rd_runs d))
        then Inl (Revenue_Database ''insert match'')
        else Inr (d\<lparr>rd_matches := rd_matches d @ [\<lparr>mw_id = env_uuid e n, mw_run = run, mw_match = m,
                      mw_created = env_now e\<rparr>]\<rparr>))"

fun insert_matches ::
  "revenue_db env \<Rightarrow> nat \<Rightarrow> string \<Rightarrow> match_decision list \<Rightarrow> revenue_db \<Rightarrow> revenue_error + revenue_db" where
  "insert_matches e n run [] d = Inr d"
| "insert_matches e n run (m # ms) d = and_then (insert_match e n run m d) (insert_matches e (Suc n) run ms)"

definition settle_note ::
  "revenue_db env \<Rightarrow> nat \<Rightarrow> string \<Rightarrow> string \<Rightarrow> revenue_db \<Rightarrow> revenue_error + revenue_db" where
  "settle_note e n note settlement d =
     and_then (stmt e ''probe note state'' Revenue_Database (Inr (sql_row (\<lambda>r. nw_id r = note) (rd_notes d)))) (\<lambda>prior.
     case prior of
       None \<Rightarrow> Inr d
     | Some p \<Rightarrow>
         (let hit = (\<lambda>r. nw_id r = note \<and> open_note r); upd = (\<lambda>r. r\<lparr>nw_state := ''SETTLED'', nw_updated := env_now e\<rparr>)
          in and_then (stmt e ''settle note'' Revenue_Database
               (case sql_row hit (rd_notes d) of
                  None \<Rightarrow> Inr None
                | Some r \<Rightarrow> if note_checks (upd r) then Inr (Some (d\<lparr>rd_notes := sql_update hit upd (rd_notes d)\<rparr>))
                           else Inl (Revenue_Database ''settle note''))) (\<lambda>found.
             case found of
               None \<Rightarrow> Inr d
             | Some d1 \<Rightarrow> insert_transition e n note (nw_state p) ''SETTLED''
                 (''three-way match with settlement '' @ settlement) ''recon-engine'' [] d1)))"

fun settle_notes ::
  "revenue_db env \<Rightarrow> nat \<Rightarrow> (string \<times> string) list \<Rightarrow> revenue_db \<Rightarrow> revenue_error + revenue_db" where
  "settle_notes e n [] d = Inr d"
| "settle_notes e n ((note, s) # rest) d = and_then (settle_note e n note s d) (settle_notes e (Suc n) rest)"

definition link_intake :: "revenue_db env \<Rightarrow> intake_match \<Rightarrow> revenue_db \<Rightarrow> revenue_error + revenue_db" where
  "link_intake e m d =
     stmt e ''link intake assessment settlement'' Revenue_Database
       (let hit = (\<lambda>i. in_event (iw_row i) = im_event m \<and> iw_state i = ''OPEN'')
        in if sql_row hit (rd_intake d) \<noteq> None \<and> im_settlement m \<notin> set (map (st_id \<circ> sw_row) (rd_settlements d))
           then Inl (Revenue_Database ''link intake assessment settlement'')
           else Inr (d\<lparr>rd_intake := sql_update hit
             (\<lambda>i. i\<lparr>iw_state := ''SETTLEMENT_OBSERVED'', iw_settlement := Some (im_settlement m)\<rparr>) (rd_intake d)\<rparr>))"

fun link_intakes :: "revenue_db env \<Rightarrow> intake_match list \<Rightarrow> revenue_db \<Rightarrow> revenue_error + revenue_db" where
  "link_intakes e [] d = Inr d"
| "link_intakes e (m # ms) d = and_then (link_intake e m d) (link_intakes e ms)"

definition close_run :: "revenue_db env \<Rightarrow> string \<Rightarrow> nat \<Rightarrow> nat \<Rightarrow> revenue_db \<Rightarrow> revenue_error + revenue_db" where
  "close_run e run matched exceptions d =
     stmt e ''close recon run'' Revenue_Database
       (Inr (d\<lparr>rd_runs := sql_update (\<lambda>r. rr_id r = run) (\<lambda>r. r\<lparr>rr_state := ''COMPLETED'',
          rr_finished := Some (env_now e), rr_matched := matched, rr_exceptions := exceptions\<rparr>) (rd_runs d)\<rparr>))"

definition run_recon_body ::
  "((string \<times> string) list \<Rightarrow> (string \<times> string) list) \<Rightarrow> revenue_db env \<Rightarrow> string \<Rightarrow> string \<Rightarrow> recon_plan
     \<Rightarrow> revenue_db \<Rightarrow> revenue_error + string \<times> revenue_db" where
  "run_recon_body order e trigger actor p d =
     (let m = length (rp_matches p); s = length (rp_settled p); x = length (rp_exceptions p)
      in and_then (insert_recon_run e 0 trigger actor d) (\<lambda>(run, d1).
         and_then (insert_matches e 1 run (rp_matches p) d1) (\<lambda>d2.
         and_then (settle_notes e (1 + m) (order (rp_settled p)) d2) (\<lambda>d3.
         and_then (link_intakes e (rp_intake p) d3) (\<lambda>d4.
         and_then (insert_exceptions e (1 + m + s) run (rp_exceptions p) d4) (\<lambda>d5.
         and_then (stmt e ''count run exceptions'' Revenue_Database
           (Inr (length (filter (\<lambda>r. xr_run r = run) (rd_exceptions d5))))) (\<lambda>raised.
         and_then (close_run e run m raised d5) (\<lambda>d6.
         and_then (insert_revenue_event e (1 + m + s + 3 * x) run ''revenue.recon.run_completed''
           [(''runId'', J_Text run), (''matchedCount'', J_Int (int m)), (''exceptionCount'', J_Int (int raised)),
            (''triggerKind'', J_Text trigger), (''actor'', J_Text actor)] d6) (\<lambda>d7.
         Inr (run, d7))))))))))"

definition get_run :: "revenue_db env \<Rightarrow> string \<Rightarrow> revenue_db \<Rightarrow> revenue_error + recon_run" where
  "get_run e k d =
     stmt e ''load recon run'' Revenue_Database
       (case sql_row (\<lambda>r. rr_id r = k) (rd_runs d) of None \<Rightarrow> Inl Revenue_Not_Found | Some r \<Rightarrow> Inr r)"

definition run_recon ::
  "((string \<times> string) list \<Rightarrow> (string \<times> string) list) \<Rightarrow> (string \<Rightarrow> string \<Rightarrow> bool) \<Rightarrow> revenue_db env
     \<Rightarrow> string \<Rightarrow> string \<Rightarrow> gtime \<Rightarrow> revenue_db \<Rightarrow> (revenue_error + recon_run) \<times> revenue_db" where
  "run_recon order before e trigger actor as_of d =
     (if trigger \<noteq> ''MANUAL'' \<and> trigger \<noteq> ''TEMPORAL_BATCH''
      then (Inl (Revenue_Text ''trigger kind must be MANUAL or TEMPORAL_BATCH''), d)
      else if actor = [] then (Inl (Revenue_Text ''actor is required''), d)
      else case load_recon_input before e as_of d of
        Inl err \<Rightarrow> (Inl err, d)
      | Inr inp \<Rightarrow>
          (case run_tx e ''begin recon transaction'' ''commit recon run'' Revenue_Database
                  (run_recon_body order e trigger actor (plan_recon inp)) d of
             (Inl err, d') \<Rightarrow> (Inl err, d')
           | (Inr run, d') \<Rightarrow> (get_run e run d', d')))"

section \<open>The exception queue\<close>

definition exceptions_in_order :: "revenue_db \<Rightarrow> exception_rec list" where
  "exceptions_in_order d =
     sort_by (\<lambda>a b. xr_created a < xr_created b \<or> xr_created a = xr_created b \<and> text_le (xr_id a) (xr_id b)) (rd_exceptions d)"

definition list_exceptions_page ::
  "revenue_db env \<Rightarrow> bool \<Rightarrow> int \<Rightarrow> revenue_db \<Rightarrow> revenue_error + exception_rec list" where
  "list_exceptions_page e open_only limit d =
     stmt e ''list exceptions'' Revenue_Database
       (let rows = (if open_only then filter (\<lambda>x. xr_state x = ''OPEN'') (exceptions_in_order d) else exceptions_in_order d)
        in Inr (if limit > 0 then take (nat limit) rows else rows))"

definition list_exceptions :: "revenue_db env \<Rightarrow> bool \<Rightarrow> revenue_db \<Rightarrow> revenue_error + exception_rec list" where
  "list_exceptions e open_only d = list_exceptions_page e open_only 0 d"

definition exceptions_by_id :: "revenue_db env \<Rightarrow> string \<Rightarrow> revenue_db \<Rightarrow> revenue_error + exception_rec list" where
  "exceptions_by_id e k d =
     stmt e ''list exceptions by id'' Revenue_Database (Inr (filter (\<lambda>x. xr_id x = k) (exceptions_in_order d)))"

definition resolve_exception_body ::
  "revenue_db env \<Rightarrow> string \<Rightarrow> string \<Rightarrow> string \<Rightarrow> revenue_db \<Rightarrow> revenue_error + unit \<times> revenue_db" where
  "resolve_exception_body e k resolver note d =
     (let hit = (\<lambda>x. xr_id x = k \<and> xr_state x = ''OPEN'');
          upd = (\<lambda>x. x\<lparr>xr_state := ''RESOLVED'', xr_resolver := Some resolver, xr_note := Some note,
                    xr_resolved := Some (env_now e)\<rparr>)
      in and_then (stmt e ''resolve exception'' Revenue_Database
           (Inr (sql_row hit (rd_exceptions d) \<noteq> None, d\<lparr>rd_exceptions := sql_update hit upd (rd_exceptions d)\<rparr>))) (\<lambda>(found, d1).
         if \<not> found then Inr ((), d1)
         else and_then (stmt e ''insert resolution audit'' Revenue_Database
                (if env_uuid e 0 \<in> set (map xe_id (rd_exception_events d1))
                 then Inl (Revenue_Database ''insert resolution audit'')
                 else Inr (d1\<lparr>rd_exception_events := rd_exception_events d1 @ [\<lparr>xe_id = env_uuid e 0, xe_exception = k,
                        xe_kind = ''RESOLVED'', xe_actor = resolver, xe_note = Resolution_Note note\<rparr>]\<rparr>))) (\<lambda>d2.
              and_then (insert_revenue_event e 1 k ''revenue.recon.exception_resolved''
                [(''exceptionId'', J_Text k), (''resolver'', J_Text resolver)] d2) (\<lambda>d3.
              Inr ((), d3)))))"

definition resolve_exception ::
  "revenue_db env \<Rightarrow> string \<Rightarrow> string \<Rightarrow> string \<Rightarrow> revenue_db \<Rightarrow> (revenue_error + exception_rec) \<times> revenue_db" where
  "resolve_exception e k resolver note d =
     (if k = [] \<or> resolver = [] then (Inl (Revenue_Text ''exception id and resolver are required''), d)
      else if length (trim_space note) < 8 then (Inl (Revenue_Text ''resolution note is required''), d)
      else case run_tx e ''begin resolution transaction'' ''commit resolution'' Revenue_Database
                  (resolve_exception_body e k resolver note) d of
             (Inl err, d') \<Rightarrow> (Inl err, d')
           | (Inr _, d') \<Rightarrow> (and_then (exceptions_by_id e k d')
                (\<lambda>xs. case xs of [] \<Rightarrow> Inl Revenue_Not_Found | x # _ \<Rightarrow> Inr x), d'))"

definition list_matches :: "revenue_db env \<Rightarrow> string \<Rightarrow> revenue_db \<Rightarrow> revenue_error + match_rec list" where
  "list_matches e run d =
     stmt e ''list matches'' Revenue_Database
       (Inr (sort_by (\<lambda>a b. mw_created a < mw_created b \<or> mw_created a = mw_created b \<and> text_le (mw_id a) (mw_id b))
          (filter (\<lambda>m. mw_run m = run) (rd_matches d))))"

end
