(* ===== verification/Revenue_Advice.thy ===== *)
theory Revenue_Advice
  imports Revenue_Store
begin

text \<open>
  \<open>internal/revenue/split_store.go\<close>: split rules under dual control, the rules in force, and the remittance
  advice that seals the split of one settlement. \<open>before\<close> is the database's order of texts, \<open>digest\<close> the
  hash of the canonical request; an advice is sealed as it is, and its allocations read back from JSON as
  they were written.
\<close>

section \<open>Split rules\<close>

record split_input =
  si_line :: string
  si_agency :: string
  si_beneficiary :: string
  si_bps :: int
  si_reference :: string
  si_provisional :: bool
  si_from :: string
  si_to :: string

definition validate_split_input :: "split_input \<Rightarrow> string option" where
  "validate_split_input i =
     (if trim_space (si_line i) = [] \<or> length (si_line i) > 64 then Some ''revenueLine is required''
      else if si_agency i \<notin> set agencies then Some (''agency '' @ si_agency i @ '' is not a charging agency'')
      else if si_beneficiary i \<notin> set beneficiaries
      then Some (''beneficiary '' @ si_beneficiary i @ '' is not a TSA beneficiary'')
      else if si_bps i \<le> 0 \<or> si_bps i > 10000 then Some ''shareBps must be in 1..10000''
      else if trim_space (si_reference i) = [] then Some ''statutoryReference is required''
      else if parse_date (si_from i) = None then Some ''effectiveFrom must be YYYY-MM-DD''
      else if si_to i \<noteq> [] \<and> parse_date (si_to i) = None then Some ''effectiveTo must be YYYY-MM-DD''
      else None)"

definition rule_of :: "string \<Rightarrow> split_input \<Rightarrow> string \<Rightarrow> rule_rec" where
  "rule_of k i maker = \<lparr>pr_id = k, pr_line = si_line i, pr_agency = si_agency i, pr_beneficiary = si_beneficiary i,
     pr_bps = si_bps i, pr_reference = si_reference i, pr_provisional = si_provisional i,
     pr_from = the (parse_date (si_from i)), pr_to = (if si_to i = [] then None else parse_date (si_to i)),
     pr_state = ''DRAFT'', pr_maker = maker, pr_checker = None\<rparr>"

definition scan_rule :: "rule_rec \<Rightarrow> split_rule" where
  "scan_rule r = \<lparr>sr_id = pr_id r, sr_line = pr_line r, sr_agency = pr_agency r, sr_beneficiary = pr_beneficiary r,
     sr_bps = pr_bps r, sr_reference = pr_reference r, sr_provisional = pr_provisional r, sr_from = utc_date (pr_from r),
     sr_to = map_option utc_date (pr_to r), sr_state = pr_state r, sr_maker = pr_maker r,
     sr_checker = text_of (pr_checker r)\<rparr>"

definition create_rule_body ::
  "revenue_db env \<Rightarrow> rule_rec \<Rightarrow> revenue_db \<Rightarrow> revenue_error + split_rule \<times> revenue_db" where
  "create_rule_body e r d =
     and_then (stmt e ''insert split rule'' Revenue_Database
       (if pr_id r \<in> set (map pr_id (rd_rules d)) \<or> \<not> rule_checks r
        then Inl (Revenue_Database ''insert split rule'')
        else Inr (d\<lparr>rd_rules := rd_rules d @ [r]\<rparr>))) (\<lambda>d1.
     and_then (insert_revenue_event e 1 (pr_id r) ''revenue.split_rule.created''
       [(''ruleId'', J_Text (pr_id r)), (''revenueLine'', J_Text (pr_line r)), (''agency'', J_Text (pr_agency r)),
        (''beneficiary'', J_Text (pr_beneficiary r)), (''shareBps'', J_Int (pr_bps r)), (''maker'', J_Text (pr_maker r))] d1) (\<lambda>d2.
     Inr (scan_rule r, d2)))"

definition create_split_rule ::
  "revenue_db env \<Rightarrow> split_input \<Rightarrow> string \<Rightarrow> revenue_db \<Rightarrow> (revenue_error + split_rule) \<times> revenue_db" where
  "create_split_rule e i maker d =
     (case validate_split_input i of
        Some err \<Rightarrow> (Inl (Revenue_Text err), d)
      | None \<Rightarrow>
          if maker = [] then (Inl (Revenue_Text ''maker is required''), d)
          else run_tx e ''begin split-rule transaction'' ''commit split rule'' Revenue_Database
                 (create_rule_body e (rule_of (env_uuid e 0) i maker)) d)"

definition get_split_rule :: "revenue_db env \<Rightarrow> string \<Rightarrow> revenue_db \<Rightarrow> revenue_error + split_rule" where
  "get_split_rule e k d =
     stmt e ''load split rule'' Revenue_Database
       (case sql_row (\<lambda>r. pr_id r = k) (rd_rules d) of None \<Rightarrow> Inl Revenue_Not_Found | Some r \<Rightarrow> Inr (scan_rule r))"

definition activate_rule_body ::
  "revenue_db env \<Rightarrow> string \<Rightarrow> string \<Rightarrow> revenue_db \<Rightarrow> revenue_error + unit \<times> revenue_db" where
  "activate_rule_body e k checker d =
     (let hit = (\<lambda>r. pr_id r = k \<and> pr_state r = ''DRAFT'' \<and> pr_maker r \<noteq> checker);
          upd = (\<lambda>r. r\<lparr>pr_state := ''ACTIVE'', pr_checker := Some checker\<rparr>)
      in and_then (stmt e ''activate split rule'' Revenue_Database
           (case sql_row hit (rd_rules d) of
              None \<Rightarrow> Inr None
            | Some r \<Rightarrow> if rule_checks (upd r) then Inr (Some (d\<lparr>rd_rules := sql_update hit upd (rd_rules d)\<rparr>))
                       else Inl Revenue_Maker_Checker)) (\<lambda>found.
         case found of
           None \<Rightarrow> Inl (if env_fault e ''probe split rule'' \<noteq> No_Fault then Revenue_Invalid_Transition
                else case sql_row (\<lambda>r. pr_id r = k) (rd_rules d) of
                  None \<Rightarrow> Revenue_Not_Found
                | Some r \<Rightarrow> if pr_maker r = checker then Revenue_Maker_Checker else Revenue_Invalid_Transition)
         | Some d1 \<Rightarrow>
             and_then (insert_revenue_event e 0 k ''revenue.split_rule.activated''
               [(''ruleId'', J_Text k), (''checker'', J_Text checker)] d1) (\<lambda>d2. Inr ((), d2))))"

definition activate_split_rule ::
  "revenue_db env \<Rightarrow> string \<Rightarrow> string \<Rightarrow> revenue_db \<Rightarrow> (revenue_error + split_rule) \<times> revenue_db" where
  "activate_split_rule e k checker d =
     (if k = [] \<or> checker = [] then (Inl (Revenue_Text ''rule id and checker are required''), d)
      else case run_tx e ''begin activation transaction'' ''commit activation'' Revenue_Database
                  (activate_rule_body e k checker) d of
             (Inl err, d') \<Rightarrow> (Inl err, d')
           | (Inr _, d') \<Rightarrow> (get_split_rule e k d', d'))"

section \<open>The rules in force\<close>

definition query_split_rules ::
  "(string \<Rightarrow> string \<Rightarrow> bool) \<Rightarrow> revenue_db env \<Rightarrow> string \<Rightarrow> int \<Rightarrow> revenue_db \<Rightarrow> revenue_error + split_rule list" where
  "query_split_rules before e line day d =
     stmt e ''list split rules'' Revenue_Database
       (Inr (map scan_rule
          (sort_by (\<lambda>a b. if pr_bps a = pr_bps b then before (pr_beneficiary a) (pr_beneficiary b) else pr_bps b < pr_bps a)
             (filter (\<lambda>r. pr_state r = ''ACTIVE'' \<and> pr_line r = line \<and> pr_from r \<le> day
                \<and> (case pr_to r of None \<Rightarrow> True | Some t \<Rightarrow> day \<le> t)) (rd_rules d)))))"

definition active_split_rules ::
  "(string \<Rightarrow> string \<Rightarrow> bool) \<Rightarrow> revenue_db env \<Rightarrow> string \<Rightarrow> gtime \<Rightarrow> revenue_db \<Rightarrow> revenue_error + split_rule list" where
  "active_split_rules before e line as_of d =
     and_then (query_split_rules before e line (day_of as_of) d) (\<lambda>exact.
     if exact \<noteq> [] then Inr exact else query_split_rules before e ''*'' (day_of as_of) d)"

record split_computation =
  sc_line :: string
  sc_as_of :: string
  sc_amount :: int
  sc_currency :: string
  sc_allocations :: "allocation list"
  sc_provisional :: bool

definition compute_split_at ::
  "(string \<Rightarrow> string \<Rightarrow> bool) \<Rightarrow> revenue_db env \<Rightarrow> string \<Rightarrow> int \<Rightarrow> string \<Rightarrow> gtime \<Rightarrow> revenue_db
     \<Rightarrow> revenue_error + split_computation" where
  "compute_split_at before e line amount currency as_of d =
     (if trim_space line = [] then Inl (Revenue_Text ''revenue line is required'')
      else if amount \<le> 0 then Inl (Revenue_Text ''amount must be positive'')
      else if currency \<noteq> ''USD'' \<and> currency \<noteq> ''NGN'' then Inl (Revenue_Text ''currency must be USD or NGN'')
      else and_then (active_split_rules before e line as_of d) (\<lambda>rules.
           and_then (compute_split amount rules as_of) (\<lambda>allocations.
           Inr \<lparr>sc_line = line, sc_as_of = utc_text as_of, sc_amount = amount, sc_currency = currency,
                sc_allocations = allocations, sc_provisional = list_ex sr_provisional rules\<rparr>)))"

section \<open>Remittance advices\<close>

definition get_settlement :: "revenue_db env \<Rightarrow> string \<Rightarrow> revenue_db \<Rightarrow> revenue_error + settlement" where
  "get_settlement e k d =
     stmt e ''load settlement'' Revenue_Database
       (case sql_row (\<lambda>s. st_id (sw_row s) = k) (rd_settlements d) of
          None \<Rightarrow> Inl Revenue_Not_Found | Some s \<Rightarrow> Inr (sw_row s))"

definition advice_by_idempotency :: "revenue_db env \<Rightarrow> string \<Rightarrow> revenue_db \<Rightarrow> revenue_error + string \<times> string" where
  "advice_by_idempotency e key d =
     stmt e ''resolve advice key'' Revenue_Database
       (case sql_row (\<lambda>v. vw_key v = key) (rd_advices d) of
          None \<Rightarrow> Inl Revenue_Not_Found | Some v \<Rightarrow> Inr (ad_id (vw_advice v), vw_hash v))"

definition get_advice :: "revenue_db env \<Rightarrow> string \<Rightarrow> revenue_db \<Rightarrow> revenue_error + advice \<times> advice" where
  "get_advice e k d =
     stmt e ''load remittance advice'' Revenue_Database
       (case sql_row (\<lambda>v. ad_id (vw_advice v) = k) (rd_advices d) of
          None \<Rightarrow> Inl Revenue_Not_Found | Some v \<Rightarrow> Inr (vw_advice v, vw_envelope v))"

definition replayed_advice ::
  "revenue_db env \<Rightarrow> string \<Rightarrow> string \<times> string \<Rightarrow> revenue_db \<Rightarrow> revenue_error + advice \<times> advice" where
  "replayed_advice e hash existing d =
     (if snd existing \<noteq> hash then Inl Revenue_Key_Conflict else get_advice e (fst existing) d)"

definition advice_body ::
  "revenue_db env \<Rightarrow> advice_rec \<Rightarrow> string \<Rightarrow> revenue_db \<Rightarrow> revenue_error + unit \<times> revenue_db" where
  "advice_body e v actor d =
     (let a = vw_advice v
      in and_then (stmt e ''insert remittance advice'' Revenue_Database
           (if ad_amount a \<le> 0 \<or> ad_currency a \<notin> {''USD'', ''NGN''} \<or> \<not> pg_date (ad_as_of a)
            then Inl (Revenue_Database ''insert remittance advice'')
            else if ad_id a \<in> set (map (ad_id \<circ> vw_advice) (rd_advices d)) \<or> vw_key v \<in> set (map vw_key (rd_advices d))
            then Inl Revenue_Duplicate
            else Inr (d\<lparr>rd_advices := rd_advices d @ [v]\<rparr>))) (\<lambda>d1.
         and_then (insert_revenue_event e 1 (ad_id a) ''revenue.remittance_advice.issued''
           [(''adviceId'', J_Text (ad_id a)), (''settlementId'', J_Text (ad_settlement a)),
            (''revenueLine'', J_Text (ad_line a)), (''amountMinor'', J_Int (ad_amount a)),
            (''currency'', J_Text (ad_currency a)), (''actor'', J_Text actor)] d1) (\<lambda>d2.
         Inr ((), d2))))"

definition persist_advice ::
  "revenue_db env \<Rightarrow> advice_rec \<Rightarrow> string \<Rightarrow> revenue_db \<Rightarrow> (revenue_error + advice \<times> advice) \<times> revenue_db" where
  "persist_advice e v actor d =
     (case run_tx e ''begin advice transaction'' ''commit advice'' Revenue_Database (advice_body e v actor) d of
        (Inr _, d') \<Rightarrow> (Inr (vw_envelope v, vw_envelope v), d')
      | (Inl err, d') \<Rightarrow>
          if err = Revenue_Duplicate then
            (case advice_by_idempotency e (vw_key v) d' of
               Inr existing \<Rightarrow> (replayed_advice e (vw_hash v) existing d', d')
             | Inl _ \<Rightarrow> (Inl Revenue_Key_Conflict, d'))
          else (Inl err, d'))"

text \<open>The agency comes from a second reading of the rules; when it fails the advice has none.\<close>

definition winning_agency ::
  "(string \<Rightarrow> string \<Rightarrow> bool) \<Rightarrow> revenue_db env \<Rightarrow> string \<Rightarrow> gtime \<Rightarrow> revenue_db \<Rightarrow> string" where
  "winning_agency before e line as_of d =
     (case active_split_rules before e line as_of d of Inr (r # _) \<Rightarrow> sr_agency r | _ \<Rightarrow> [])"

definition issue_advice ::
  "(string \<times> string \<times> string \<Rightarrow> string) \<Rightarrow> (string \<Rightarrow> string \<Rightarrow> bool) \<Rightarrow> revenue_db env \<Rightarrow> string \<Rightarrow> string \<Rightarrow> gtime
     \<Rightarrow> string \<Rightarrow> string \<Rightarrow> string \<Rightarrow> revenue_db \<Rightarrow> (revenue_error + advice \<times> advice) \<times> revenue_db" where
  "issue_advice digest before e k line as_of key actor correlation d =
     (if k = [] \<or> line = [] then (Inl (Revenue_Text ''settlement id and revenue line are required''), d)
      else if key = [] \<or> length key > 128 then (Inl (Revenue_Text ''idempotency key is required''), d)
      else if actor = [] \<or> correlation = [] then (Inl (Revenue_Text ''actor and correlation id are required''), d)
      else case get_settlement e k d of
        Inl err \<Rightarrow> (Inl err, d)
      | Inr s \<Rightarrow>
          (let hash = digest (k, line, utc_text as_of)
           in case advice_by_idempotency e key d of
                Inr existing \<Rightarrow> (replayed_advice e hash existing d, d)
              | Inl err \<Rightarrow>
                  if err \<noteq> Revenue_Not_Found then (Inl err, d)
                  else (case compute_split_at before e line (st_amount s) (st_currency s) as_of d of
                     Inl err \<Rightarrow> (Inl err, d)
                   | Inr c \<Rightarrow>
                       let a = \<lparr>ad_id = env_uuid e 0, ad_settlement = k, ad_line = line,
                             ad_agency = winning_agency before e line as_of d, ad_as_of = sc_as_of c,
                             ad_amount = st_amount s, ad_currency = st_currency s, ad_allocations = sc_allocations c,
                             ad_created_by = actor, ad_created = 0\<rparr>
                       in if env_fault e ''seal remittance advice'' \<noteq> No_Fault
                          then (Inl (Revenue_Database ''seal remittance advice''), d)
                          else persist_advice e \<lparr>vw_key = key, vw_hash = hash, vw_advice = a\<lparr>ad_created := env_now e\<rparr>,
                                 vw_envelope = a, vw_correlation = correlation\<rparr> actor d)))"

end
