(* ===== verification/Revenue_Ingest.thy ===== *)
theory Revenue_Ingest
  imports Revenue_Batch Revenue_Advice
begin

text \<open>
  \<open>internal/revenue/statement_store.go\<close>: settlement records with replay, the ingest of signed bank statements,
  and the mirror of posted ledger transfers with its durable cursor. The verification of an envelope, the
  decoding of its payload and the request hashes are arguments.
\<close>

section \<open>Settlement records\<close>

record settlement_input =
  ti_note :: string
  ti_bank_ref :: string
  ti_transfer :: string
  ti_amount :: int
  ti_currency :: string
  ti_payer :: string
  ti_value_date :: string

definition validate_settlement :: "settlement_input \<Rightarrow> string option" where
  "validate_settlement i =
     (if trim_space (ti_bank_ref i) = [] \<or> length (ti_bank_ref i) > 128 then Some ''bankReference is required''
      else if ti_amount i \<le> 0 then Some ''amountMinor must be positive''
      else if ti_currency i \<noteq> ''USD'' \<and> ti_currency i \<noteq> ''NGN'' then Some ''currency must be USD or NGN''
      else if trim_space (ti_payer i) = [] \<or> length (ti_payer i) > 256 then Some ''payerRef is required''
      else if parse_date (ti_value_date i) = None then Some ''valueDate must be YYYY-MM-DD''
      else if length (ti_transfer i) > 64 then Some ''tbTransferId is too long''
      else None)"

definition settlement_checks :: "settlement \<Rightarrow> bool" where
  "settlement_checks s \<longleftrightarrow> 0 < st_amount s \<and> st_currency s \<in> {''USD'', ''NGN''} \<and> pg_date (st_value_date s)"

definition settlement_by_idempotency :: "revenue_db env \<Rightarrow> string \<Rightarrow> revenue_db \<Rightarrow> revenue_error + string \<times> string" where
  "settlement_by_idempotency e key d =
     stmt e ''resolve settlement key'' Revenue_Database
       (case sql_row (\<lambda>s. sw_key s = key) (rd_settlements d) of
          None \<Rightarrow> Inl Revenue_Not_Found | Some s \<Rightarrow> Inr (st_id (sw_row s), sw_hash s))"

definition replayed_settlement ::
  "revenue_db env \<Rightarrow> string \<Rightarrow> string \<times> string \<Rightarrow> revenue_db \<Rightarrow> revenue_error + settlement" where
  "replayed_settlement e hash existing d =
     (if snd existing \<noteq> hash then Inl Revenue_Key_Conflict else get_settlement e (fst existing) d)"

definition transfer_taken :: "revenue_db \<Rightarrow> string \<Rightarrow> bool" where
  "transfer_taken d t \<longleftrightarrow> t \<noteq> [] \<and> t \<in> set (map (st_transfer \<circ> sw_row) (rd_settlements d))"

definition record_settlement_body ::
  "revenue_db env \<Rightarrow> settlement_rec \<Rightarrow> string \<Rightarrow> revenue_db \<Rightarrow> revenue_error + unit \<times> revenue_db" where
  "record_settlement_body e r actor d =
     (let s = sw_row r
      in and_then (stmt e ''insert settlement'' Revenue_Database
           (if \<not> settlement_checks s then Inl (Revenue_Database ''insert settlement'')
            else if st_id s \<in> set (map (st_id \<circ> sw_row) (rd_settlements d)) \<or> sw_key r \<in> set (map sw_key (rd_settlements d))
                    \<or> transfer_taken d (st_transfer s)
            then Inl Revenue_Duplicate
            else if st_note s \<noteq> [] \<and> st_note s \<notin> set (map nw_id (rd_notes d))
            then Inl (Revenue_Database ''insert settlement'')
            else Inr (d\<lparr>rd_settlements := rd_settlements d @ [r]\<rparr>))) (\<lambda>d1.
         and_then (insert_revenue_event e 1 (st_id s) ''revenue.settlement.recorded''
           [(''settlementId'', J_Text (st_id s)), (''debitNoteId'', J_Text (st_note s)),
            (''bankReference'', J_Text (st_bank_ref s)), (''amountMinor'', J_Int (st_amount s)),
            (''currency'', J_Text (st_currency s)), (''actor'', J_Text actor)] d1) (\<lambda>d2.
         Inr ((), d2))))"

definition record_settlement ::
  "(settlement_input \<Rightarrow> string) \<Rightarrow> revenue_db env \<Rightarrow> settlement_input \<Rightarrow> string \<Rightarrow> string \<Rightarrow> revenue_db
     \<Rightarrow> (revenue_error + settlement) \<times> revenue_db" where
  "record_settlement digest e i key actor d =
     (case validate_settlement i of
        Some err \<Rightarrow> (Inl (Revenue_Text err), d)
      | None \<Rightarrow>
          if key = [] \<or> length key > 128 then (Inl (Revenue_Text ''idempotency key is required''), d)
          else if actor = [] then (Inl (Revenue_Text ''actor is required''), d)
          else (case settlement_by_idempotency e key d of
             Inr existing \<Rightarrow> (replayed_settlement e (digest i) existing d, d)
           | Inl err \<Rightarrow>
               if err \<noteq> Revenue_Not_Found then (Inl err, d)
               else let r = \<lparr>sw_key = key, sw_hash = digest i, sw_row = \<lparr>st_id = env_uuid e 0, st_note = ti_note i,
                        st_bank_ref = ti_bank_ref i, st_transfer = ti_transfer i, st_amount = ti_amount i,
                        st_currency = ti_currency i, st_payer = ti_payer i, st_value_date = ti_value_date i,
                        st_recorded_by = actor, st_created = env_now e\<rparr>\<rparr>
                    in (case run_tx e ''begin settlement transaction'' ''commit settlement'' Revenue_Database
                              (record_settlement_body e r actor) d of
                          (Inr _, d') \<Rightarrow> (get_settlement e (st_id (sw_row r)) d', d')
                        | (Inl err, d') \<Rightarrow>
                            if err = Revenue_Duplicate then
                              (case settlement_by_idempotency e key d' of
                                 Inr existing \<Rightarrow> (replayed_settlement e (digest i) existing d', d')
                               | Inl _ \<Rightarrow> (Inl Revenue_Key_Conflict, d'))
                            else (Inl err, d'))))"

section \<open>Bank statements\<close>

record verified_envelope =
  ve_kind :: string
  ve_payload :: string
  ve_sha :: string
  ve_kid :: string

record ingest_result =
  ir_statement :: string
  ir_ref :: string
  ir_lines :: nat
  ir_deduped :: nat
  ir_replay :: bool

definition line_conflict :: "string \<Rightarrow> string \<Rightarrow> nat \<Rightarrow> bank_line \<Rightarrow> bank_line \<Rightarrow> exception_decision" where
  "line_conflict statement bank no l old = no_exception\<lparr>ed_class := ''DUPLICATE_BANK_REF'',
     ed_key := ''DUPLICATE_BANK_REF|ref:'' @ bank @ '':'' @ bl_reference l, ed_statement := statement, ed_line := no,
     ed_expected := Some (bl_amount old), ed_actual := Some (bl_amount l), ed_currency := bl_currency l,
     ed_detail := Detail_Reingested_Reference\<rparr>"

text \<open>The loop over the lines; its result counts the deduplicated lines and collects the conflicts.\<close>

fun insert_bank_lines ::
  "revenue_db env \<Rightarrow> string \<Rightarrow> string \<Rightarrow> nat \<Rightarrow> bank_line list \<Rightarrow> nat \<times> exception_decision list \<Rightarrow> revenue_db
     \<Rightarrow> revenue_error + (nat \<times> exception_decision list) \<times> revenue_db" where
  "insert_bank_lines e statement bank index [] acc d = Inr (acc, d)"
| "insert_bank_lines e statement bank index (l # ls) (deduped, conflicts) d =
     and_then (stmt e ''check bank reference dedupe'' Revenue_Database
       (Inr (sql_row (\<lambda>x. bw_bank x = bank \<and> bl_reference (bw_line x) = bl_reference l) (rd_statement_lines d)))) (\<lambda>old.
     case old of
       Some x \<Rightarrow>
         if bl_amount (bw_line x) \<noteq> bl_amount l \<or> bl_currency (bw_line x) \<noteq> bl_currency l
         then insert_bank_lines e statement bank (Suc index) ls
                (deduped, conflicts @ [line_conflict statement bank (Suc index) l (bw_line x)]) d
         else insert_bank_lines e statement bank (Suc index) ls (Suc deduped, conflicts) d
     | None \<Rightarrow>
         and_then (stmt e ''insert statement line'' Revenue_Database
           (if \<not> pg_date (bl_value_date l) \<or> bl_amount l \<le> 0 \<or> bl_direction l \<notin> {''CREDIT'', ''DEBIT''}
               \<or> bl_currency l \<notin> {''USD'', ''NGN''}
               \<or> (statement, Suc index) \<in> set (map (\<lambda>x. (bw_statement x, bw_no x)) (rd_statement_lines d))
            then Inl (Revenue_Database ''insert statement line'')
            else Inr (d\<lparr>rd_statement_lines := rd_statement_lines d @ [\<lparr>bw_statement = statement, bw_no = Suc index,
                   bw_bank = bank, bw_line = l\<rparr>]\<rparr>)))
           (insert_bank_lines e statement bank (Suc index) ls (deduped, conflicts)))"

definition insert_statement :: "revenue_db env \<Rightarrow> statement_rec \<Rightarrow> revenue_db \<Rightarrow> revenue_error + revenue_db" where
  "insert_statement e r d =
     stmt e ''insert statement'' Revenue_Database
       (if \<not> pg_date (sq_start (bs_request r)) \<or> \<not> pg_date (sq_end (bs_request r))
        then Inl (Revenue_Database ''insert statement'')
        else if bs_id r \<in> set (map bs_id (rd_statements d)) \<or> bs_hash r \<in> set (map bs_hash (rd_statements d))
        then Inl Revenue_Duplicate
        else Inr (d\<lparr>rd_statements := rd_statements d @ [r]\<rparr>))"

text \<open>Conflicting references are raised against a run of their own.\<close>

definition raise_conflicts ::
  "revenue_db env \<Rightarrow> string \<Rightarrow> exception_decision list \<Rightarrow> revenue_db \<Rightarrow> revenue_error + revenue_db" where
  "raise_conflicts e by conflicts d =
     (if conflicts = [] then Inr d
      else and_then (insert_recon_run e 1 ''MANUAL'' by d) (\<lambda>(run, d1).
           and_then (insert_exceptions e 2 run conflicts d1) (\<lambda>d2.
           close_run e run 0 (length conflicts) d2)))"

definition ingest_body ::
  "revenue_db env \<Rightarrow> statement_rec \<Rightarrow> revenue_db \<Rightarrow> revenue_error + nat \<times> revenue_db" where
  "ingest_body e r d =
     (let s = bs_request r
      in and_then (insert_statement e r d) (\<lambda>d1.
         and_then (insert_bank_lines e (bs_id r) (sq_bank s) 0 (sq_lines s) (0, []) d1) (\<lambda>((deduped, conflicts), d2).
         and_then (raise_conflicts e (bs_by r) conflicts d2) (\<lambda>d3.
         and_then (insert_revenue_event e (2 + 3 * length conflicts) (bs_id r) ''revenue.statement.ingested''
           [(''statementId'', J_Text (bs_id r)), (''bank'', J_Text (sq_bank s)), (''statementRef'', J_Text (sq_ref s)),
            (''lineCount'', J_Int (int (length (sq_lines s)))), (''dedupedLines'', J_Int (int deduped)),
            (''signerKid'', J_Text (bs_kid r)), (''actor'', J_Text (bs_by r))] d3) (\<lambda>d4.
         Inr (deduped, d4))))))"

definition ingest_statement ::
  "(string \<Rightarrow> string + verified_envelope) \<Rightarrow> (string \<Rightarrow> statement_request option) \<Rightarrow> revenue_db env \<Rightarrow> string \<Rightarrow> string
     \<Rightarrow> revenue_db \<Rightarrow> (revenue_error + ingest_result) \<times> revenue_db" where
  "ingest_statement verify decode e bundle by d =
     (if by = [] then (Inl (Revenue_Text ''ingest actor is required''), d)
      else case verify bundle of
        Inl err \<Rightarrow> (Inl (Revenue_Text err), d)
      | Inr v \<Rightarrow>
          if ve_kind v \<noteq> ''BANK_STATEMENT''
          then (Inl (Revenue_Text (''envelope artifact '' @ ve_kind v @ '' is not a bank statement'')), d)
          else (case decode (ve_payload v) of
             None \<Rightarrow> (Inl (Revenue_Text ''decode statement payload''), d)
           | Some s \<Rightarrow>
               (case validate_statement s of
                  Some err \<Rightarrow> (Inl (Revenue_Text err), d)
                | None \<Rightarrow>
                    (let done = (\<lambda>k n replay. \<lparr>ir_statement = k, ir_ref = sq_ref s, ir_lines = length (sq_lines s),
                           ir_deduped = n, ir_replay = replay\<rparr>)
                     in if env_fault e ''check statement replay'' \<noteq> No_Fault
                        then (Inl (Revenue_Database ''check statement replay''), d)
                        else (case sql_row (\<lambda>x. bs_hash x = ve_sha v) (rd_statements d) of
                           Some x \<Rightarrow> (Inr (done (bs_id x) 0 True), d)
                         | None \<Rightarrow>
                             (case run_tx e ''begin ingest transaction'' ''commit statement ingest'' Revenue_Database
                                     (ingest_body e \<lparr>bs_id = env_uuid e 0, bs_hash = ve_sha v, bs_request = s,
                                        bs_kid = ve_kid v, bs_by = by\<rparr>) d of
                                (Inr deduped, d') \<Rightarrow> (Inr (done (env_uuid e 0) deduped False), d')
                              | (Inl err, d') \<Rightarrow>
                                  if err = Revenue_Duplicate then (Inr (done (env_uuid e 0) 0 True), d')
                                  else (Inl err, d')))))))"

section \<open>The mirror of the ledger\<close>

record mirror_input =
  mi_transfer :: string
  mi_amount :: int
  mi_currency :: string
  mi_bank_ref :: string
  mi_payer :: string
  mi_value_date :: string

definition validate_mirror :: "mirror_input \<Rightarrow> string option" where
  "validate_mirror i =
     (if trim_space (mi_transfer i) = [] \<or> length (mi_transfer i) > 64 then Some ''tbTransferId is required''
      else if mi_amount i \<le> 0 then Some ''amountMinor must be positive''
      else if mi_currency i \<noteq> ''USD'' \<and> mi_currency i \<noteq> ''NGN'' then Some ''currency must be USD or NGN''
      else if trim_space (mi_bank_ref i) = [] \<or> length (mi_bank_ref i) > 128 then Some ''bankReference is required''
      else if trim_space (mi_payer i) = [] \<or> length (mi_payer i) > 256 then Some ''payerRef is required''
      else if parse_date (mi_value_date i) = None then Some ''valueDate must be YYYY-MM-DD''
      else None)"

text \<open>The upsert of the cursor, \<open>GREATEST\<close> of the stored and the observed \<open>int64\<close> timestamp; the check of the table is
  on the proposed row, so a negative one is refused whether or not the key has a row.\<close>

definition bump_cursor :: "string \<Rightarrow> u64 \<Rightarrow> (string \<times> int) list \<Rightarrow> (string \<times> int) list option" where
  "bump_cursor key observed cursors =
     (let t = i64 (uint observed)
      in if t < 0 then None
         else case map_of cursors key of
                None \<Rightarrow> Some (AList.update key t cursors)
              | Some old \<Rightarrow> Some (AList.update key (max old t) cursors))"

definition mirror_rec :: "revenue_db env \<Rightarrow> string \<Rightarrow> mirror_input \<Rightarrow> settlement_rec" where
  "mirror_rec e hash i = \<lparr>sw_key = ''tb-sync:'' @ mi_transfer i, sw_hash = hash, sw_row = \<lparr>st_id = env_uuid e 0,
     st_note = [], st_bank_ref = mi_bank_ref i, st_transfer = mi_transfer i, st_amount = mi_amount i,
     st_currency = mi_currency i, st_payer = mi_payer i, st_value_date = mi_value_date i,
     st_recorded_by = ''tb-sync'', st_created = env_now e\<rparr>\<rparr>"

definition mirror_body ::
  "revenue_db env \<Rightarrow> settlement_rec \<Rightarrow> string \<Rightarrow> u64 \<Rightarrow> revenue_db \<Rightarrow> revenue_error + bool \<times> revenue_db" where
  "mirror_body e r sync_key observed d =
     (let s = sw_row r
      in and_then (stmt e ''mirror settlement'' Revenue_Database
           (if \<not> settlement_checks s then Inl (Revenue_Database ''mirror settlement'')
            else if transfer_taken d (st_transfer s) then Inr (False, d)
            else if st_id s \<in> set (map (st_id \<circ> sw_row) (rd_settlements d)) \<or> sw_key r \<in> set (map sw_key (rd_settlements d))
            then Inl (Revenue_Database ''mirror settlement'')
            else Inr (True, d\<lparr>rd_settlements := rd_settlements d @ [r]\<rparr>))) (\<lambda>(created, d1).
         and_then (if created then insert_revenue_event e 1 (st_id s) ''revenue.settlement.recorded''
             [(''settlementId'', J_Text (st_id s)), (''bankReference'', J_Text (st_bank_ref s)),
              (''tbTransferId'', J_Text (st_transfer s)), (''amountMinor'', J_Int (st_amount s)),
              (''currency'', J_Text (st_currency s)), (''actor'', J_Text ''tb-sync'')] d1
           else Inr d1) (\<lambda>d2.
         and_then (stmt e ''advance sync cursor'' Revenue_Database
           (case bump_cursor sync_key observed (rd_cursors d2) of
              None \<Rightarrow> Inl (Revenue_Database ''advance sync cursor'')
            | Some cs \<Rightarrow> Inr (d2\<lparr>rd_cursors := cs\<rparr>))) (\<lambda>d3.
         Inr (created, d3)))))"

definition record_tb_settlement ::
  "(mirror_input \<Rightarrow> string) \<Rightarrow> revenue_db env \<Rightarrow> mirror_input \<Rightarrow> string \<Rightarrow> u64 \<Rightarrow> revenue_db
     \<Rightarrow> (revenue_error + bool) \<times> revenue_db" where
  "record_tb_settlement digest e i sync_key observed d =
     (case validate_mirror i of
        Some err \<Rightarrow> (Inl (Revenue_Text err), d)
      | None \<Rightarrow>
          if sync_key = [] then (Inl (Revenue_Text ''sync key is required''), d)
          else run_tx e ''begin mirror transaction'' ''commit mirror'' Revenue_Database
                 (mirror_body e (mirror_rec e (digest i) i) sync_key observed) d)"

text \<open>A statement outside a transaction commits by itself: its failure may come after it took effect.\<close>

definition advance_sync_cursor ::
  "revenue_db env \<Rightarrow> string \<Rightarrow> u64 \<Rightarrow> revenue_db \<Rightarrow> (revenue_error + unit) \<times> revenue_db" where
  "advance_sync_cursor e sync_key observed d =
     (if sync_key = [] then (Inl (Revenue_Text ''sync key is required''), d)
      else run_tx e ''send sync cursor'' ''advance sync cursor'' Revenue_Database
        (\<lambda>d. case bump_cursor sync_key observed (rd_cursors d) of
               None \<Rightarrow> Inl (Revenue_Database ''advance sync cursor'')
             | Some cs \<Rightarrow> Inr ((), d\<lparr>rd_cursors := cs\<rparr>)) d)"

definition sync_cursor :: "revenue_db env \<Rightarrow> string \<Rightarrow> revenue_db \<Rightarrow> revenue_error + u64" where
  "sync_cursor e sync_key d =
     stmt e ''load sync cursor'' Revenue_Database
       (Inr (case map_of (rd_cursors d) sync_key of None \<Rightarrow> 0 | Some t \<Rightarrow> to_u64 t))"

end
