(* ===== verification/Settlement_Sync.thy ===== *)
theory Settlement_Sync
  imports Settlement_Config Revenue_Ingest Ledger
begin

text \<open>
  \<open>internal/settlementsync\<close>: the poller that mirrors posted collection transfers of TigerBeetle into the
  settlement records (\<open>SyncOnce\<close>, \<open>syncLedger\<close>, \<open>mapTransfer\<close>) and its loop (\<open>Run\<close>).

  The cluster answers through the client library: the parameter \<open>query\<close>, one answer per filter. The library's
  text of an identifier is the parameter \<open>nm\<close>. Every call on the store is a transaction with an environment
  of its own, \<open>es 0\<close>, \<open>es 1\<close>, ... The order \<open>sort.Slice\<close> gives to equal timestamps does not matter, since the
  cluster's are distinct. Telemetry spans and log lines are left out.
\<close>

record query_filter =
  qf_ledger :: u32
  qf_code :: u16
  qf_min :: u64
  qf_limit :: u32

datatype sync_error = Sync_Text string | Sync_Query string | Sync_Store revenue_error

type_synonym 'a querier = "query_filter \<Rightarrow> string + 'a list"

definition new_syncer :: "transfer querier option \<Rightarrow> bool \<Rightarrow> sync_config \<Rightarrow> sync_error + transfer querier \<times> sync_config" where
  "new_syncer query store cf =
     (case query of
        None \<Rightarrow> Inl (Sync_Text ''TigerBeetle querier is required'')
      | Some q \<Rightarrow>
          if \<not> store then Inl (Sync_Text ''revenue store is required'')
          else case validate_config cf of Some err \<Rightarrow> Inl (Sync_Text err) | None \<Rightarrow> Inr (q, cf))"

section \<open>One transfer\<close>

text \<open>The two halves of an amount, as the library splits them.\<close>

definition low_half :: "u128 \<Rightarrow> u64" where
  "low_half a = ucast a"

definition high_half :: "u128 \<Rightarrow> u64" where
  "high_half a = ucast (drop_bit 64 a)"

text \<open>\<open>None\<close> is a transfer to skip.\<close>

definition map_transfer :: "(u128 \<Rightarrow> string) \<Rightarrow> transfer \<Rightarrow> string \<Rightarrow> sync_error + mirror_input option" where
  "map_transfer nm t currency =
     (if fl_pending (tr_flags t) \<or> fl_void (tr_flags t) then Inr None
      else if high_half (tr_amount t) \<noteq> 0 \<or> low_half (tr_amount t) > 0x7FFFFFFFFFFFFFFF
      then Inl (Sync_Text ''transfer amount exceeds int64 minor units'')
      else if low_half (tr_amount t) = 0 then Inl (Sync_Text ''transfer has a zero amount'')
      else Inr (Some \<lparr>mi_transfer = nm (tr_id t), mi_amount = uint (low_half (tr_amount t)), mi_currency = currency,
             mi_bank_ref = ''tb:'' @ nm (tr_id t), mi_payer = ''tb-debit:'' @ nm (tr_debit t),
             mi_value_date = format_date (i64 (uint (tr_timestamp t)) div day_ns)\<rparr>))"

section \<open>One ledger\<close>

definition sync_key :: "u32 \<Rightarrow> string" where
  "sync_key ledger = ''ledger:'' @ nat_digits (unat ledger)"

fun mirror_transfers ::
  "(u128 \<Rightarrow> string) \<Rightarrow> (mirror_input \<Rightarrow> string) \<Rightarrow> (nat \<Rightarrow> revenue_db env) \<Rightarrow> u32 \<Rightarrow> string \<Rightarrow> u64 \<Rightarrow> nat \<Rightarrow> int
     \<Rightarrow> transfer list \<Rightarrow> revenue_db \<Rightarrow> (sync_error + int) \<times> revenue_db" where
  "mirror_transfers nm digest es ledger currency cursor n mirrored [] d = (Inr mirrored, d)"
| "mirror_transfers nm digest es ledger currency cursor n mirrored (t # ts) d =
     (if tr_timestamp t \<le> cursor then mirror_transfers nm digest es ledger currency cursor n mirrored ts d
      else case map_transfer nm t currency of
        Inl err \<Rightarrow> (Inl err, d)
      | Inr None \<Rightarrow>
          (case advance_sync_cursor (es n) (sync_key ledger) (tr_timestamp t) d of
             (Inl err, d') \<Rightarrow> (Inl (Sync_Store err), d')
           | (Inr _, d') \<Rightarrow> mirror_transfers nm digest es ledger currency cursor (Suc n) mirrored ts d')
      | Inr (Some i) \<Rightarrow>
          (case record_tb_settlement digest (es n) i (sync_key ledger) (tr_timestamp t) d of
             (Inl err, d') \<Rightarrow> (Inl (Sync_Store err), d')
           | (Inr created, d') \<Rightarrow>
               mirror_transfers nm digest es ledger currency cursor (Suc n) (if created then mirrored + 1 else mirrored) ts d'))"

definition sync_ledger ::
  "(u128 \<Rightarrow> string) \<Rightarrow> (mirror_input \<Rightarrow> string) \<Rightarrow> (nat \<Rightarrow> revenue_db env) \<Rightarrow> transfer querier \<Rightarrow> sync_config
     \<Rightarrow> u32 \<Rightarrow> string \<Rightarrow> revenue_db \<Rightarrow> (sync_error + int) \<times> revenue_db" where
  "sync_ledger nm digest es query cf ledger currency d =
     (case sync_cursor (es 0) (sync_key ledger) d of
        Inl err \<Rightarrow> (Inl (Sync_Store err), d)
      | Inr cursor \<Rightarrow>
          (case query \<lparr>qf_ledger = ledger, qf_code = cf_code cf, qf_min = cursor + 1, qf_limit = cf_limit cf\<rparr> of
             Inl err \<Rightarrow> (Inl (Sync_Query err), d)
           | Inr ts \<Rightarrow> mirror_transfers nm digest es ledger currency cursor 1 0 (sort_key tr_timestamp ts) d))"

section \<open>A poll and the loop\<close>

text \<open>The environments of the store calls, for every ledger of a poll.\<close>

fun sync_ledgers ::
  "(u128 \<Rightarrow> string) \<Rightarrow> (mirror_input \<Rightarrow> string) \<Rightarrow> (u32 \<Rightarrow> nat \<Rightarrow> revenue_db env) \<Rightarrow> transfer querier \<Rightarrow> sync_config
     \<Rightarrow> int \<Rightarrow> u32 list \<Rightarrow> revenue_db \<Rightarrow> (int \<times> sync_error option) \<times> revenue_db" where
  "sync_ledgers nm digest es query cf mirrored [] d = ((mirrored, None), d)"
| "sync_ledgers nm digest es query cf mirrored (l # ls) d =
     (case sync_ledger nm digest (es l) query cf l (the (map_of (cf_ledgers cf) l)) d of
        (Inl err, d') \<Rightarrow> ((mirrored, Some err), d')
      | (Inr n, d') \<Rightarrow> sync_ledgers nm digest es query cf (mirrored + n) ls d')"

definition sync_once ::
  "(u128 \<Rightarrow> string) \<Rightarrow> (mirror_input \<Rightarrow> string) \<Rightarrow> (u32 \<Rightarrow> nat \<Rightarrow> revenue_db env) \<Rightarrow> transfer querier \<Rightarrow> sync_config
     \<Rightarrow> revenue_db \<Rightarrow> (int \<times> sync_error option) \<times> revenue_db" where
  "sync_once nm digest es query cf d = sync_ledgers nm digest es query cf 0 (sort (map fst (cf_ledgers cf))) d"

text \<open>\<open>Run\<close> polls until its context ends: the ticks it lives through are a list, each with its environments
  and the answers of the cluster. A failed poll is logged and the next tick polls again.\<close>

fun poll_ticks ::
  "(u128 \<Rightarrow> string) \<Rightarrow> (mirror_input \<Rightarrow> string) \<Rightarrow> sync_config
     \<Rightarrow> ((u32 \<Rightarrow> nat \<Rightarrow> revenue_db env) \<times> transfer querier) list \<Rightarrow> revenue_db \<Rightarrow> revenue_db" where
  "poll_ticks nm digest cf [] d = d"
| "poll_ticks nm digest cf ((es, query) # ticks) d =
     poll_ticks nm digest cf ticks (snd (sync_once nm digest es query cf d))"

definition run_sync ::
  "(u128 \<Rightarrow> string) \<Rightarrow> (mirror_input \<Rightarrow> string) \<Rightarrow> sync_config option \<Rightarrow> int
     \<Rightarrow> ((u32 \<Rightarrow> nat \<Rightarrow> revenue_db env) \<times> transfer querier) list \<Rightarrow> revenue_db \<Rightarrow> (sync_error + unit) \<times> revenue_db" where
  "run_sync nm digest syncer interval ticks d =
     (case syncer of
        None \<Rightarrow> (Inl (Sync_Text ''settlement syncer is required''), d)
      | Some cf \<Rightarrow>
          if interval \<le> 0 then (Inl (Sync_Text ''sync interval must be positive''), d)
          else (Inr (), poll_ticks nm digest cf ticks d))"

end
