(* ===== verification/Revenue_Recon_Props.thy ===== *)
theory Revenue_Recon_Props
  imports Revenue_Recon Database
begin

text \<open>
  What the plan of a reconciliation batch guarantees: matches are agreements of three legs, no
  settlement and no statement line is used twice, and every settlement is accounted for. A note can be
  matched twice, and one currency of a note is enough to match it.
\<close>

section \<open>Membership\<close>

lemma matches_of_mem: "m \<in> set (matches_of ds) \<longleftrightarrow> Decided_Match m \<in> set ds"
  by (induction ds rule: matches_of.induct) auto

lemma intake_of_mem: "m \<in> set (intake_of ds) \<longleftrightarrow> Decided_Intake m \<in> set ds"
  by (induction ds rule: intake_of.induct) auto

lemma exceptions_of_mem: "x \<in> set (exceptions_of ds) \<longleftrightarrow> Decided_Exception x \<in> set ds"
  by (induction ds rule: exceptions_of.induct) auto

lemma plan_simps:
  "rp_matches (plan_recon inp) = matches_of (map (decide inp) (ri_settlements inp))"
  "rp_intake (plan_recon inp) = intake_of (map (decide inp) (ri_settlements inp))"
  "rp_exceptions (plan_recon inp) = exceptions_of (map (decide inp) (ri_settlements inp))
     @ stray_lines inp (matches_of (map (decide inp) (ri_settlements inp)))
     @ overdue_notes inp (matches_of (map (decide inp) (ri_settlements inp)))
     @ map unmapped_intake (filter (\<lambda>i. in_error i \<noteq> []) (ri_intake inp))"
  by (simp_all add: plan_recon_def Let_def)

lemma notes_by_id_Some: "notes_by_id inp k = Some n \<Longrightarrow> n \<in> set (ri_notes inp) \<and> dn_id n = k"
  by (auto simp: notes_by_id_def dest!: map_of_SomeD)

lemma notes_by_doc_Some:
  "notes_by_doc inp k = Some n \<Longrightarrow> n \<in> set (ri_notes inp) \<and> dn_document n = k \<and> k \<noteq> []"
  by (auto simp: notes_by_doc_def dest!: map_of_SomeD)

lemma lines_by_ref_Some: "lines_by_ref inp k = Some l \<Longrightarrow> l \<in> set (ri_lines inp) \<and> sl_bank_ref l = k"
  by (auto simp: lines_by_ref_def dest!: map_of_SomeD)

lemma lines_by_ref_None: "lines_by_ref inp k = None \<longleftrightarrow> (\<forall>l \<in> set (ri_lines inp). sl_bank_ref l \<noteq> k)"
  by (auto simp: lines_by_ref_def map_of_eq_None_iff image_iff)

lemma identified_note_Some:
  "identified_note inp s = Some n \<Longrightarrow> n \<in> set (ri_notes inp) \<and>
     (st_note s = dn_id n \<or> st_note s = [] \<and> dn_document n = st_bank_ref s \<and> dn_document n \<noteq> [])"
  by (auto simp: identified_note_def dest: notes_by_id_Some notes_by_doc_Some split: option.splits if_splits)

lemma alone_at_reference:
  assumes "s \<in> set (ri_settlements inp)" "\<And>a b cs. settlements_by_ref inp (st_bank_ref s) \<noteq> a # b # cs"
  shows "settlements_by_ref inp (st_bank_ref s) = [s]"
proof -
  have "s \<in> set (settlements_by_ref inp (st_bank_ref s))" using assms(1) by (simp add: settlements_by_ref_def)
  then show ?thesis using assms(2) by (cases "settlements_by_ref inp (st_bank_ref s)" rule: remdups_adj.cases) auto
qed

section \<open>The decision on a settlement\<close>

fun decision_settlement :: "settlement_decision \<Rightarrow> string" where
  "decision_settlement (Decided_Match m) = md_settlement m"
| "decision_settlement (Decided_Intake m) = im_settlement m"
| "decision_settlement (Decided_Exception x) = ed_settlement x"
| "decision_settlement Decided_Pending = []"

lemmas decide_defs = decide_def decide_unidentified_def decide_identified_def duplicate_reference_def no_exception_def Let_def

lemma decision_is_about: "decide inp s = d \<Longrightarrow> d \<noteq> Decided_Pending \<Longrightarrow> decision_settlement d = st_id s"
  by (auto simp: decide_defs split: list.splits option.splits if_splits)

lemma decide_Pending:
  assumes "s \<in> set (ri_settlements inp)"
  shows "decide inp s = Decided_Pending \<longleftrightarrow>
    settlements_by_ref inp (st_bank_ref s) = [s] \<and> lines_by_ref inp (st_bank_ref s) = None \<and>
    (\<exists>n. identified_note inp s = Some n \<and> note_amount_in n (st_currency s) = st_amount s)"
proof
  assume d: "decide inp s = Decided_Pending"
  have "settlements_by_ref inp (st_bank_ref s) = [s]"
    by (rule alone_at_reference [OF assms]) (use d in \<open>auto simp: decide_def\<close>)
  then show "settlements_by_ref inp (st_bank_ref s) = [s] \<and> lines_by_ref inp (st_bank_ref s) = None \<and>
    (\<exists>n. identified_note inp s = Some n \<and> note_amount_in n (st_currency s) = st_amount s)"
    using d by (auto simp: decide_defs split: option.splits if_splits)
qed (auto simp: decide_def decide_identified_def)

lemma decide_Match:
  assumes "s \<in> set (ri_settlements inp)" "decide inp s = Decided_Match m"
  obtains n l where "n \<in> set (ri_notes inp)" "l \<in> set (ri_lines inp)"
    "settlements_by_ref inp (st_bank_ref s) = [s]"
    "st_note s = dn_id n \<or> st_note s = [] \<and> dn_document n = st_bank_ref s \<and> dn_document n \<noteq> []"
    "note_amount_in n (st_currency s) = st_amount s"
    "sl_bank_ref l = st_bank_ref s" "sl_amount l = st_amount s" "sl_currency l = st_currency s"
    "m = \<lparr>md_note = dn_id n, md_settlement = st_id s, md_statement = sl_statement l, md_line = sl_no l,
       md_amount = st_amount s, md_currency = st_currency s\<rparr>"
proof -
  have one: "settlements_by_ref inp (st_bank_ref s) = [s]"
    by (rule alone_at_reference [OF assms(1)]) (use assms(2) in \<open>auto simp: decide_def\<close>)
  then obtain n l where n: "identified_note inp s = Some n" and l: "lines_by_ref inp (st_bank_ref s) = Some l"
    and eq: "note_amount_in n (st_currency s) = st_amount s" "sl_amount l = st_amount s" "sl_currency l = st_currency s"
      "m = \<lparr>md_note = dn_id n, md_settlement = st_id s, md_statement = sl_statement l, md_line = sl_no l,
       md_amount = st_amount s, md_currency = st_currency s\<rparr>"
    using assms(2) by (auto simp: decide_defs split: option.splits if_splits)
  show ?thesis
    using that one identified_note_Some [OF n] lines_by_ref_Some [OF l] eq by blast
qed

section \<open>Matches\<close>

lemma distinct_matches:
  assumes "\<And>s m. s \<in> set ss \<Longrightarrow> decide inp s = Decided_Match m \<Longrightarrow> f m = g s"
    and "\<And>s t m m'. s \<in> set ss \<Longrightarrow> t \<in> set ss \<Longrightarrow> decide inp s = Decided_Match m \<Longrightarrow>
       decide inp t = Decided_Match m' \<Longrightarrow> g s = g t \<Longrightarrow> s = t" and "distinct ss"
  shows "distinct (map f (matches_of (map (decide inp) ss)))"
  using assms
proof (induction ss)
  case (Cons s ss)
  have IH: "distinct (map f (matches_of (map (decide inp) ss)))"
    using Cons.prems by (intro Cons.IH) auto
  show ?case
  proof (cases "decide inp s")
    case (Decided_Match m)
    have "f m \<noteq> f m'" if "m' \<in> set (matches_of (map (decide inp) ss))" for m'
    proof -
      obtain t where "t \<in> set ss" "decide inp t = Decided_Match m'"
        using \<open>m' \<in> _\<close> by (auto simp: matches_of_mem)
      then show ?thesis using Cons.prems(1) [of s m] Cons.prems(1) [of t m'] Cons.prems(2) [of s t m m'] Cons.prems(3)
        Decided_Match by auto
    qed
    then show ?thesis using IH Decided_Match by auto
  qed (use IH in auto)
qed simp

text \<open>C14 A planned match is an agreement of three legs. Its settlement is the only one with its bank
  reference and names the note, by its identifier or by its document number; the statement line has
  that reference; note, settlement and line agree on the amount and the currency. No settlement and no
  statement line occurs in two matches.\<close>

theorem planned_matches_are_three_way:
  assumes ids: "distinct (map st_id (ri_settlements inp))"
    and lines: "distinct (map (\<lambda>l. (sl_statement l, sl_no l)) (ri_lines inp))"
  shows "(\<forall>m \<in> set (rp_matches (plan_recon inp)).
      \<exists>s \<in> set (ri_settlements inp). \<exists>n \<in> set (ri_notes inp). \<exists>l \<in> set (ri_lines inp).
        md_settlement m = st_id s \<and> md_note m = dn_id n \<and> (md_statement m, md_line m) = (sl_statement l, sl_no l) \<and>
        filter (\<lambda>t. st_bank_ref t = st_bank_ref s) (ri_settlements inp) = [s] \<and>
        (st_note s = dn_id n \<or> st_note s = [] \<and> dn_document n = st_bank_ref s) \<and> sl_bank_ref l = st_bank_ref s \<and>
        md_amount m = st_amount s \<and> note_amount_in n (st_currency s) = st_amount s \<and> sl_amount l = st_amount s \<and>
        md_currency m = st_currency s \<and> sl_currency l = st_currency s) \<and>
    distinct (map md_settlement (rp_matches (plan_recon inp))) \<and>
    distinct (map (\<lambda>m. (md_statement m, md_line m)) (rp_matches (plan_recon inp)))"
proof (intro conjI ballI)
  let ?ss = "ri_settlements inp"
  fix m assume "m \<in> set (rp_matches (plan_recon inp))"
  then obtain s where s: "s \<in> set ?ss" "decide inp s = Decided_Match m"
    by (auto simp: plan_simps matches_of_mem)
  show "\<exists>s \<in> set ?ss. \<exists>n \<in> set (ri_notes inp). \<exists>l \<in> set (ri_lines inp).
        md_settlement m = st_id s \<and> md_note m = dn_id n \<and> (md_statement m, md_line m) = (sl_statement l, sl_no l) \<and>
        filter (\<lambda>t. st_bank_ref t = st_bank_ref s) ?ss = [s] \<and>
        (st_note s = dn_id n \<or> st_note s = [] \<and> dn_document n = st_bank_ref s) \<and> sl_bank_ref l = st_bank_ref s \<and>
        md_amount m = st_amount s \<and> note_amount_in n (st_currency s) = st_amount s \<and> sl_amount l = st_amount s \<and>
        md_currency m = st_currency s \<and> sl_currency l = st_currency s"
    by (rule decide_Match [OF s], rule bexI [OF _ s(1)]) (auto simp: settlements_by_ref_def)
next
  let ?ss = "ri_settlements inp"
  have d: "distinct ?ss" using ids by (metis distinct_map)
  show "distinct (map md_settlement (rp_matches (plan_recon inp)))"
    unfolding plan_simps
  proof (rule distinct_matches [where g = st_id, OF _ _ d])
    show "md_settlement m = st_id s" if "decide inp s = Decided_Match m" for s m
      using decision_is_about [OF that] by simp
    show "s = t" if "s \<in> set ?ss" "t \<in> set ?ss" "st_id s = st_id t" for s t
      using distinct_key_unique [OF ids] that by blast
  qed
  let ?line = "\<lambda>s. case lines_by_ref inp (st_bank_ref s) of Some l \<Rightarrow> (sl_statement l, sl_no l)"
  show "distinct (map (\<lambda>m. (md_statement m, md_line m)) (rp_matches (plan_recon inp)))"
    unfolding plan_simps
  proof (rule distinct_matches [where g = ?line, OF _ _ d])
    show "(md_statement m, md_line m) = ?line s" if "decide inp s = Decided_Match m" for s m
      using that by (auto simp: decide_defs split: list.splits option.splits if_splits)
    show "s = t" if st: "s \<in> set ?ss" "t \<in> set ?ss" "decide inp s = Decided_Match m" "decide inp t = Decided_Match m'"
      "?line s = ?line t" for s t m m'
    proof -
      obtain l l' where l: "lines_by_ref inp (st_bank_ref s) = Some l" "lines_by_ref inp (st_bank_ref t) = Some l'"
        using st(3,4) by (auto simp: decide_defs split: list.splits option.splits if_splits)
      then have "l = l'"
        using st(5) distinct_key_unique [OF lines, of l l'] by (auto dest: lines_by_ref_Some)
      then have "st_bank_ref s = st_bank_ref t" using l lines_by_ref_Some by metis
      then show ?thesis using st(1-4) by (metis decide_Match list.inject)
    qed
  qed
qed

section \<open>Every settlement is accounted for\<close>

definition outcomes :: "recon_plan \<Rightarrow> string \<Rightarrow> nat" where
  "outcomes p k = length (filter (\<lambda>m. md_settlement m = k) (rp_matches p))
     + length (filter (\<lambda>m. im_settlement m = k) (rp_intake p))
     + length (filter (\<lambda>x. ed_settlement x = k) (rp_exceptions p))"

lemma decisions_count:
  "length (filter (\<lambda>m. md_settlement m = k) (matches_of ds)) + length (filter (\<lambda>m. im_settlement m = k) (intake_of ds))
     + length (filter (\<lambda>x. ed_settlement x = k) (exceptions_of ds))
   = length (filter (\<lambda>d. d \<noteq> Decided_Pending \<and> decision_settlement d = k) ds)"
proof (induction ds)
  case (Cons d ds)
  then show ?case by (cases d) auto
qed simp

lemma other_exceptions_unsettled:
  "k \<noteq> [] \<Longrightarrow> filter (\<lambda>x. ed_settlement x = k) (stray_lines inp ms @ overdue_notes inp ms @ map unmapped_intake is) = []"
  by (auto simp: filter_empty_conv stray_lines_def overdue_notes_def unmatched_line_def past_due_def
      unmapped_intake_def no_exception_def)

text \<open>C16 Every settlement is accounted for. In the plan of a batch each settlement has exactly one
  outcome, a match, an observed intake assessment or an exception, unless it waits for its bank
  statement: then it is alone with its reference, agrees with its note, no statement line has the
  reference, and the plan says nothing of it.\<close>

theorem every_settlement_is_accounted_for:
  assumes ids: "distinct (map st_id (ri_settlements inp))" and s: "s \<in> set (ri_settlements inp)" and k: "st_id s \<noteq> []"
  shows "outcomes (plan_recon inp) (st_id s) =
    (if settlements_by_ref inp (st_bank_ref s) = [s] \<and> (\<forall>l \<in> set (ri_lines inp). sl_bank_ref l \<noteq> st_bank_ref s) \<and>
        (\<exists>n. identified_note inp s = Some n \<and> note_amount_in n (st_currency s) = st_amount s) then 0 else 1)"
proof -
  let ?ds = "map (decide inp) (ri_settlements inp)"
  have "filter (\<lambda>d. d \<noteq> Decided_Pending \<and> decision_settlement d = st_id s) ?ds
      = map (decide inp) (filter (\<lambda>t. decide inp t \<noteq> Decided_Pending \<and> st_id t = st_id s) (ri_settlements inp))"
    by (auto simp: filter_map comp_def decision_is_about intro!: arg_cong [where f = "map _"] filter_cong)
  also have "filter (\<lambda>t. decide inp t \<noteq> Decided_Pending \<and> st_id t = st_id s) (ri_settlements inp)
      = filter (\<lambda>t. decide inp t \<noteq> Decided_Pending) [s]"
    using filter_key_unique [OF ids s] by (metis (no_types, lifting) filter_filter filter_cong)
  finally have "length (filter (\<lambda>d. d \<noteq> Decided_Pending \<and> decision_settlement d = st_id s) ?ds)
      = (if decide inp s = Decided_Pending then 0 else 1)" by simp
  moreover have "outcomes (plan_recon inp) (st_id s)
      = length (filter (\<lambda>d. d \<noteq> Decided_Pending \<and> decision_settlement d = st_id s) ?ds)"
    using other_exceptions_unsettled [OF k] decisions_count [of "st_id s" ?ds]
    by (simp add: outcomes_def plan_simps)
  ultimately show ?thesis
    using decide_Pending [OF s] by (simp add: lines_by_ref_None)
qed

section \<open>What the plan does not rule out\<close>

definition demo_note :: debit_note where
  "demo_note = \<lparr>dn_id = ''n-1'', dn_assessment = ''a-1'', dn_agency = ''NPA'', dn_entity = ''ngc'',
     dn_document = ''NPA-2026-000001'', dn_usd = 4410000, dn_ngn = 900, dn_effective = ''2026-03-01'',
     dn_due = ''2026-03-31'', dn_state = ''ISSUED'', dn_reason = [], dn_lines = [], dn_maker = ''ada'',
     dn_checker = ''obi'', dn_correlation = ''c'', dn_created = 0, dn_updated = 0\<rparr>"

definition demo_payment :: "string \<Rightarrow> string \<Rightarrow> string \<Rightarrow> int \<Rightarrow> string \<Rightarrow> settlement" where
  "demo_payment k n ref amount currency = \<lparr>st_id = k, st_note = n, st_bank_ref = ref, st_transfer = [],
     st_amount = amount, st_currency = currency, st_payer = ''ngc'', st_value_date = ''2026-03-02'',
     st_recorded_by = ''teller'', st_created = 0\<rparr>"

definition demo_leg :: "nat \<Rightarrow> string \<Rightarrow> int \<Rightarrow> string \<Rightarrow> statement_leg" where
  "demo_leg no ref amount currency = \<lparr>sl_statement = ''s-1'', sl_no = no, sl_bank_ref = ref,
     sl_value_date = ''2026-03-02'', sl_amount = amount, sl_currency = currency\<rparr>"

definition demo_batch :: "settlement list \<Rightarrow> statement_leg list \<Rightarrow> recon_input" where
  "demo_batch ss ls = \<lparr>ri_notes = [demo_note], ri_settlements = ss, ri_lines = ls, ri_intake = [],
     ri_as_of = utc_date 20513\<rparr>"

definition demo_paid_once :: recon_input where
  "demo_paid_once = demo_batch
     [demo_payment ''p-1'' [] ''NPA-2026-000001'' 4410000 ''USD'', demo_payment ''p-2'' [] ''unknown'' 5 ''USD'']
     [demo_leg 1 ''NPA-2026-000001'' 4410000 ''USD'']"

theorem planned_matches_are_three_way_witness:
  "map md_note (rp_matches (plan_recon demo_paid_once)) = [''n-1''] \<and>
   (\<exists>n \<in> set (ri_notes demo_paid_once). note_amount_in n ''USD'' = 4410000)"
proof -
  have "distinct (map st_id (ri_settlements demo_paid_once))"
    "distinct (map (\<lambda>l. (sl_statement l, sl_no l)) (ri_lines demo_paid_once))"
    by code_simp+
  note * = planned_matches_are_three_way [OF this]
  have m: "map md_note (rp_matches (plan_recon demo_paid_once)) = [''n-1'']"
    "map md_currency (rp_matches (plan_recon demo_paid_once)) = [''USD'']"
    "map md_amount (rp_matches (plan_recon demo_paid_once)) = [4410000]"
    by code_simp+
  then obtain x where "rp_matches (plan_recon demo_paid_once) = [x]" "md_currency x = ''USD''" "md_amount x = 4410000"
    by (auto simp: map_eq_Cons_conv)
  then show ?thesis using * m(1) by fastforce
qed

theorem every_settlement_is_accounted_for_witness:
  "outcomes (plan_recon demo_paid_once) ''p-2'' = 1"
proof -
  let ?s = "demo_payment ''p-2'' [] ''unknown'' 5 ''USD''"
  have "distinct (map st_id (ri_settlements demo_paid_once))" by code_simp
  moreover have "?s \<in> set (ri_settlements demo_paid_once)" by (simp add: demo_paid_once_def demo_batch_def)
  moreover have "st_id ?s = ''p-2''" "st_bank_ref ?s = ''unknown''" "st_note ?s = []" by (simp_all add: demo_payment_def)
  moreover have "identified_note demo_paid_once ?s = None" by code_simp
  ultimately show ?thesis using every_settlement_is_accounted_for [of demo_paid_once ?s] by simp
qed

text \<open>Two payments of one note are two matches of it; the smaller currency of a note is enough.\<close>

definition demo_paid_twice :: recon_input where
  "demo_paid_twice = demo_batch
     [demo_payment ''p-1'' ''n-1'' ''ref-1'' 4410000 ''USD'', demo_payment ''p-2'' ''n-1'' ''ref-2'' 4410000 ''USD'']
     [demo_leg 1 ''ref-1'' 4410000 ''USD'', demo_leg 2 ''ref-2'' 4410000 ''USD'']"

lemma note_matched_twice:
  "map md_note (rp_matches (plan_recon demo_paid_twice)) = [''n-1'', ''n-1'']"
  by code_simp

lemma one_currency_settles_a_note:
  "let p = plan_recon (demo_batch [demo_payment ''p-1'' ''n-1'' ''ref-1'' 900 ''NGN''] [demo_leg 1 ''ref-1'' 900 ''NGN''])
   in rp_settled p = [(''n-1'', ''p-1'')] \<and> rp_exceptions p = []"
  by code_simp

end
