(* ===== verification/Revenue_Inv.thy ===== *)
theory Revenue_Inv
  imports Revenue_Ingest Revenue_Recon_Props Tariff_Chain
begin

text \<open>
  The invariant of the revenue tables under any clock, failure and interleaving: the life and the seal of
  the debit notes, the matches of the reconciliation, and what is stored for good.
\<close>

section \<open>Debit notes\<close>

definition note_log :: "string \<Rightarrow> revenue_db \<Rightarrow> note_transition list" where
  "note_log k d = filter (\<lambda>t. nt_note t = k) (rd_transitions d)"

definition unsealed :: "note_rec \<Rightarrow> bool" where
  "unsealed n \<longleftrightarrow> nw_document n = None \<and> nw_envelope n = None \<and> nw_checker n = None"

definition sealed :: "note_rec \<Rightarrow> note_line list \<Rightarrow> bool" where
  "sealed n ls \<longleftrightarrow> (\<exists>doc c. nw_document n = Some doc \<and> nw_checker n = Some c \<and> c \<noteq> nw_maker n \<and>
     nw_envelope n = Some \<lparr>ns_note = nw_id n, ns_document = doc, ns_assessment = nw_assessment n, ns_agency = nw_agency n,
       ns_entity = nw_entity n, ns_usd = nw_usd n, ns_ngn = nw_ngn n, ns_effective = nw_effective n, ns_due = nw_due n,
       ns_lines = ls\<rparr>)"

definition note_step :: "note_transition \<Rightarrow> note_transition \<Rightarrow> bool" where
  "note_step a b \<longleftrightarrow> nt_from b = nt_to a \<and> valid_transition (nt_from b) (nt_to b)"

definition entry_actor_ok :: "note_rec \<Rightarrow> note_transition \<Rightarrow> bool" where
  "entry_actor_ok n t \<longleftrightarrow> (nt_to t \<in> {''ISSUED'', ''CANCELLED''} \<longrightarrow> nt_actor t \<noteq> nw_maker n) \<and>
     (nt_to t = ''SETTLED'' \<longrightarrow> nt_actor t = ''recon-engine'')"

definition log_ok :: "note_rec \<Rightarrow> note_transition list \<Rightarrow> bool" where
  "log_ok n ts \<longleftrightarrow> ts \<noteq> [] \<and> nt_from (hd ts) = [] \<and> nt_to (hd ts) = ''DRAFT'' \<and> nt_actor (hd ts) = nw_maker n \<and>
     nt_to (last ts) = nw_state n \<and> successively note_step ts \<and> (\<forall>t \<in> set (tl ts). entry_actor_ok n t)"

definition charged_of :: "string \<Rightarrow> tariff_db \<Rightarrow> note_line list" where
  "charged_of k t = number_lines 0 (filter (\<lambda>l. al_applicability l = Line_Charged) (assessment_lines k t))"

definition bills :: "tariff_db \<Rightarrow> note_rec \<Rightarrow> note_line list \<Rightarrow> bool" where
  "bills t n ls \<longleftrightarrow> (\<exists>a \<in> set (td_assessments t). aw_id a = nw_assessment n \<and> nw_usd n = aw_usd a \<and> nw_ngn n = aw_ngn a \<and>
     ls = charged_of (aw_id a) t \<and> ls \<noteq> [] \<and> (\<forall>l \<in> set ls. nl_agency l = nw_agency n))"

definition note_row_ok :: "revenue_db \<Rightarrow> note_rec \<Rightarrow> bool" where
  "note_row_ok d n \<longleftrightarrow>
     (unsealed n \<or> sealed n (lines_of_note (nw_id n) d)) \<and> (nw_state n = ''DRAFT'' \<longrightarrow> unsealed n) \<and>
     (nw_state n \<in> {''ISSUED'', ''ACKED'', ''DISPUTED'', ''SETTLED''} \<longrightarrow> sealed n (lines_of_note (nw_id n) d)) \<and>
     log_ok n (note_log (nw_id n) d) \<and> bills (rd_tariff d) n (lines_of_note (nw_id n) d) \<and> nw_id n \<noteq> []"

definition notes_ok :: "revenue_db \<Rightarrow> bool" where
  "notes_ok d \<longleftrightarrow> distinct (map nw_id (rd_notes d)) \<and> tariff_db_ok (rd_tariff d) \<and>
     (\<forall>t \<in> set (rd_transitions d). nt_note t \<in> set (map nw_id (rd_notes d))) \<and>
     (\<forall>l \<in> set (rd_note_lines d). lr_note l \<in> set (map nw_id (rd_notes d))) \<and>
     (\<forall>n \<in> set (rd_notes d). note_row_ok d n) \<and>
     (\<forall>n \<in> set (rd_notes d). \<forall>m \<in> set (rd_notes d). nw_document n = nw_document m \<longrightarrow> nw_document n \<noteq> None \<longrightarrow> nw_id n = nw_id m)"

section \<open>Matches\<close>

definition billed_in :: "note_rec \<Rightarrow> string \<Rightarrow> int" where
  "billed_in n currency = (if currency = ''NGN'' then nw_ngn n else nw_usd n)"

definition match_ok :: "revenue_db \<Rightarrow> match_decision \<Rightarrow> bool" where
  "match_ok d m \<longleftrightarrow> (\<exists>s \<in> set (map sw_row (rd_settlements d)). \<exists>n \<in> set (rd_notes d). \<exists>l \<in> set (rd_statement_lines d).
     md_settlement m = st_id s \<and> md_note m = nw_id n \<and> (md_statement m, md_line m) = (bw_statement l, bw_no l) \<and>
     (st_note s = nw_id n \<or> st_note s = [] \<and> nw_document n = Some (st_bank_ref s)) \<and>
     bl_reference (bw_line l) = st_bank_ref s \<and> bl_direction (bw_line l) = ''CREDIT'' \<and>
     md_amount m = st_amount s \<and> billed_in n (st_currency s) = st_amount s \<and> bl_amount (bw_line l) = st_amount s \<and>
     md_currency m = st_currency s \<and> bl_currency (bw_line l) = st_currency s)"

definition matches_ok :: "revenue_db \<Rightarrow> bool" where
  "matches_ok d \<longleftrightarrow> distinct (match_notes d) \<and> distinct (match_settlements d) \<and> distinct (match_lines d) \<and>
     (\<forall>m \<in> set (rd_matches d). match_ok d (mw_match m)) \<and>
     (\<forall>n \<in> set (rd_notes d). nw_state n = ''SETTLED'' \<longrightarrow> nw_id n \<in> set (match_notes d))"

definition settlements_ok :: "revenue_db \<Rightarrow> bool" where
  "settlements_ok d \<longleftrightarrow> distinct (map (st_id \<circ> sw_row) (rd_settlements d)) \<and> distinct (map sw_key (rd_settlements d)) \<and>
     (\<forall>s \<in> set (map sw_row (rd_settlements d)). 0 < st_amount s) \<and>
     distinct (filter (\<lambda>t. t \<noteq> []) (map (st_transfer \<circ> sw_row) (rd_settlements d))) \<and>
     distinct (map (\<lambda>l. (bw_statement l, bw_no l)) (rd_statement_lines d)) \<and>
     distinct (map (\<lambda>l. (bw_bank l, bl_reference (bw_line l))) (rd_statement_lines d))"

section \<open>Split rules and advices\<close>

definition rules_ok :: "revenue_db \<Rightarrow> bool" where
  "rules_ok d \<longleftrightarrow> distinct (map pr_id (rd_rules d)) \<and>
     (\<forall>r \<in> set (rd_rules d). rule_checks r \<and> controlled (pr_state r) (pr_maker r) (pr_checker r))"

definition advice_ok :: "revenue_db \<Rightarrow> advice_rec \<Rightarrow> bool" where
  "advice_ok d v \<longleftrightarrow> vw_envelope v = (vw_advice v)\<lparr>ad_created := 0\<rparr> \<and> 0 < ad_amount (vw_advice v) \<and>
     (\<exists>s \<in> set (map sw_row (rd_settlements d)). st_id s = ad_settlement (vw_advice v) \<and>
        st_amount s = ad_amount (vw_advice v) \<and> st_currency s = ad_currency (vw_advice v)) \<and>
     i64 (sum_list (map ac_minor (ad_allocations (vw_advice v)))) = i64 (ad_amount (vw_advice v)) \<and>
     sum_i64 (map ac_bps (ad_allocations (vw_advice v))) = 10000"

definition advices_ok :: "revenue_db \<Rightarrow> bool" where
  "advices_ok d \<longleftrightarrow> distinct (map (ad_id \<circ> vw_advice) (rd_advices d)) \<and> distinct (map vw_key (rd_advices d)) \<and>
     (\<forall>v \<in> set (rd_advices d). advice_ok d v)"

definition revenue_db_ok :: "revenue_db \<Rightarrow> bool" where
  "revenue_db_ok d \<longleftrightarrow> notes_ok d \<and> matches_ok d \<and> settlements_ok d \<and> rules_ok d \<and> advices_ok d"

lemmas revenue_ok_defs = revenue_db_ok_def notes_ok_def matches_ok_def settlements_ok_def rules_ok_def advices_ok_def

section \<open>What is stored for good\<close>

definition note_core :: "note_rec \<Rightarrow> (string \<times> string \<times> string \<times> string \<times> string \<times> string \<times> string) \<times> int \<times> int \<times> string \<times> string" where
  "note_core n = ((nw_id n, nw_assessment n, nw_agency n, nw_entity n, nw_maker n, nw_key n, nw_hash n),
     nw_usd n, nw_ngn n, nw_effective n, nw_due n)"

definition note_sealing :: "note_rec \<Rightarrow> string option \<times> note_seal option \<times> string option" where
  "note_sealing n = (nw_document n, nw_envelope n, nw_checker n)"

lemma unsealed_iff: "unsealed n \<longleftrightarrow> note_sealing n = (None, None, None)"
  by (simp add: unsealed_def note_sealing_def)

definition same_note :: "note_rec \<Rightarrow> note_rec \<Rightarrow> bool" where
  "same_note n n' \<longleftrightarrow> note_core n' = note_core n \<and> (\<not> unsealed n \<longrightarrow> note_sealing n' = note_sealing n)"

lemma same_note_id: "same_note n n' \<Longrightarrow> nw_id n' = nw_id n"
  by (simp add: same_note_def note_core_def)

definition keeps_notes :: "revenue_db \<Rightarrow> revenue_db \<Rightarrow> bool" where
  "keeps_notes d d' \<longleftrightarrow> keeps_assessments (rd_tariff d) (rd_tariff d') \<and>
     (\<forall>n \<in> set (rd_notes d). lines_of_note (nw_id n) d' = lines_of_note (nw_id n) d \<and>
        (\<exists>n' \<in> set (rd_notes d'). same_note n n') \<and> (\<exists>ts. note_log (nw_id n) d' = note_log (nw_id n) d @ ts))"

definition keeps_records :: "revenue_db \<Rightarrow> revenue_db \<Rightarrow> bool" where
  "keeps_records d d' \<longleftrightarrow> set (rd_settlements d) \<subseteq> set (rd_settlements d') \<and>
     set (rd_statement_lines d) \<subseteq> set (rd_statement_lines d') \<and> set (rd_matches d) \<subseteq> set (rd_matches d') \<and>
     set (rd_advices d) \<subseteq> set (rd_advices d')"

definition revenue_step :: "revenue_db \<Rightarrow> revenue_db \<Rightarrow> bool" where
  "revenue_step d d' \<longleftrightarrow> revenue_db_ok d' \<and> keeps_notes d d' \<and> keeps_records d d'"

lemma keeps_notes_refl [simp]: "keeps_notes d d"
  by (auto simp: keeps_notes_def same_note_def)

lemma keeps_records_refl [simp]: "keeps_records d d"
  by (simp add: keeps_records_def)

lemma same_note_trans: "same_note a b \<Longrightarrow> same_note b c \<Longrightarrow> same_note a c"
  unfolding same_note_def unsealed_iff by metis

lemma keeps_notes_trans:
  assumes "keeps_notes a b" "keeps_notes b c"
  shows "keeps_notes a c"
  unfolding keeps_notes_def
proof (intro conjI ballI)
  show "keeps_assessments (rd_tariff a) (rd_tariff c)"
    using assms keeps_assessments_trans by (auto simp: keeps_notes_def)
  fix n assume n: "n \<in> set (rd_notes a)"
  obtain n' ts where b: "n' \<in> set (rd_notes b)" "same_note n n'" "lines_of_note (nw_id n) b = lines_of_note (nw_id n) a"
    "note_log (nw_id n) b = note_log (nw_id n) a @ ts"
    using assms(1) n unfolding keeps_notes_def by blast
  have k: "nw_id n' = nw_id n" using b(2) by (rule same_note_id)
  obtain n'' us where c: "n'' \<in> set (rd_notes c)" "same_note n' n''" "lines_of_note (nw_id n) c = lines_of_note (nw_id n) b"
    "note_log (nw_id n) c = note_log (nw_id n) b @ us"
    using assms(2) b(1) k unfolding keeps_notes_def by metis
  show "lines_of_note (nw_id n) c = lines_of_note (nw_id n) a" using b c by simp
  show "\<exists>n' \<in> set (rd_notes c). same_note n n'" using same_note_trans b(2) c(1,2) by blast
  show "\<exists>ts. note_log (nw_id n) c = note_log (nw_id n) a @ ts" using b(4) c(4) by auto
qed

lemma revenue_step_refl: "revenue_db_ok d \<Longrightarrow> revenue_step d d"
  by (simp add: revenue_step_def)

lemma revenue_step_trans: "revenue_step a b \<Longrightarrow> revenue_step b c \<Longrightarrow> revenue_step a c"
  unfolding revenue_step_def keeps_records_def using keeps_notes_trans by blast

definition revenue_env :: "revenue_db env \<Rightarrow> bool" where
  "revenue_env e \<longleftrightarrow> (\<forall>d. revenue_db_ok d \<longrightarrow> revenue_step d (env_other e d)) \<and> (\<forall>i. env_uuid e i \<noteq> [])"

lemma revenue_envD: "revenue_env e \<Longrightarrow> revenue_db_ok d \<Longrightarrow> revenue_step d (env_other e d)"
  by (simp add: revenue_env_def)

lemma revenue_tx:
  assumes "revenue_db_ok d" "revenue_env e"
    and body: "\<And>d1 a d2. revenue_db_ok d1 \<Longrightarrow> revenue_step d d1 \<Longrightarrow> body d1 = Inr (a, d2) \<Longrightarrow> revenue_step d1 d2"
  shows "revenue_step d (snd (run_tx e b c mk body d))"
proof (rule run_tx_inv [where P = "revenue_step d"])
  show o: "revenue_step d (env_other e d)" by (rule revenue_envD [OF assms(2,1)])
  show "revenue_step d d'" if "body (env_other e d) = Inr (a, d')" for a d'
  proof (rule revenue_step_trans [OF o body [OF _ o that]])
    show "revenue_db_ok (env_other e d)" using o by (simp add: revenue_step_def)
  qed
qed

section \<open>Changes\<close>

text \<open>A change that leaves the notes, or everything but the queues, alone.\<close>

lemma notes_unchanged:
  assumes "rd_notes d' = rd_notes d" "rd_transitions d' = rd_transitions d" "rd_note_lines d' = rd_note_lines d"
    "rd_tariff d' = rd_tariff d"
  shows "notes_ok d' = notes_ok d" "keeps_notes d d'"
proof -
  have l: "lines_of_note k d' = lines_of_note k d" "note_log k d' = note_log k d" for k
    using assms by (simp_all add: lines_of_note_def note_log_def)
  then show "notes_ok d' = notes_ok d" using assms by (simp add: notes_ok_def note_row_ok_def)
  have "\<exists>ts. note_log k d = note_log k d @ ts" for k by (rule exI [of _ "[]"]) simp
  then show "keeps_notes d d'" using assms(1,4) l by (auto simp: keeps_notes_def same_note_def)
qed

lemma match_ok_keeps:
  assumes "match_ok d m" "keeps_notes d d'" "keeps_records d d'"
  shows "match_ok d' m"
proof -
  obtain s n l where s: "s \<in> set (map sw_row (rd_settlements d))" and n: "n \<in> set (rd_notes d)"
    and l: "l \<in> set (rd_statement_lines d)" and m: "md_settlement m = st_id s" "md_note m = nw_id n"
      "(md_statement m, md_line m) = (bw_statement l, bw_no l)"
      "st_note s = nw_id n \<or> st_note s = [] \<and> nw_document n = Some (st_bank_ref s)"
      "bl_reference (bw_line l) = st_bank_ref s" "bl_direction (bw_line l) = ''CREDIT''"
      "md_amount m = st_amount s" "billed_in n (st_currency s) = st_amount s" "bl_amount (bw_line l) = st_amount s"
      "md_currency m = st_currency s" "bl_currency (bw_line l) = st_currency s"
    using assms(1) unfolding match_ok_def by blast
  obtain n' where n': "n' \<in> set (rd_notes d')" "same_note n n'"
    using assms(2) n unfolding keeps_notes_def by blast
  have same: "nw_id n' = nw_id n" "nw_usd n' = nw_usd n" "nw_ngn n' = nw_ngn n"
    "nw_document n \<noteq> None \<Longrightarrow> nw_document n' = nw_document n"
    using n'(2) by (auto simp: same_note_def note_core_def note_sealing_def unsealed_def)
  have "s \<in> set (map sw_row (rd_settlements d'))" "l \<in> set (rd_statement_lines d')"
    using assms(3) s l by (auto simp: keeps_records_def)
  moreover have "billed_in n' (st_currency s) = st_amount s" using m(8) unfolding billed_in_def same(2,3) .
  moreover have "st_note s = nw_id n' \<or> st_note s = [] \<and> nw_document n' = Some (st_bank_ref s)"
    using m(4) same by auto
  ultimately show ?thesis
    unfolding match_ok_def using n'(1) m same(1) by metis
qed

lemma advice_ok_keeps: "advice_ok d v \<Longrightarrow> keeps_records d d' \<Longrightarrow> advice_ok d' v"
  unfolding advice_ok_def keeps_records_def by fastforce

text \<open>A step on the records other than notes and matches.\<close>

lemma records_step:
  assumes ok: "revenue_db_ok d"
    and same: "rd_notes d' = rd_notes d" "rd_transitions d' = rd_transitions d" "rd_note_lines d' = rd_note_lines d"
      "rd_tariff d' = rd_tariff d" "rd_matches d' = rd_matches d"
    and k: "keeps_records d d'" and "settlements_ok d'" "rules_ok d'" "advices_ok d'"
  shows "revenue_step d d'"
proof -
  note n = notes_unchanged [OF same(1-4)]
  have "\<forall>m \<in> set (rd_matches d'). match_ok d' (mw_match m)"
    using ok same(5) match_ok_keeps [OF _ n(2) k] by (auto simp: revenue_ok_defs)
  then have "matches_ok d'"
    using ok same by (simp add: revenue_ok_defs match_notes_def match_settlements_def match_lines_def)
  then show ?thesis using ok assms(8-10) n k by (simp add: revenue_step_def revenue_db_ok_def)
qed

lemma records_step_same:
  assumes "revenue_db_ok d"
    and "rd_notes d' = rd_notes d" "rd_transitions d' = rd_transitions d" "rd_note_lines d' = rd_note_lines d"
      "rd_tariff d' = rd_tariff d" "rd_matches d' = rd_matches d" "rd_settlements d' = rd_settlements d"
      "rd_statement_lines d' = rd_statement_lines d" "rd_rules d' = rd_rules d" "rd_advices d' = rd_advices d"
  shows "revenue_step d d'"
proof -
  have "settlements_ok d' = settlements_ok d" "rules_ok d' = rules_ok d" "advices_ok d' = advices_ok d"
    by (simp_all add: settlements_ok_def rules_ok_def advices_ok_def advice_ok_def assms(7-10))
  moreover have "keeps_records d d'" by (simp add: keeps_records_def assms(6-10))
  ultimately show ?thesis
    using records_step [OF assms(1-6)] assms(1) by (simp add: revenue_db_ok_def)
qed

end
