(* ===== verification/Revenue_Notes.thy ===== *)
theory Revenue_Notes
  imports Revenue_Inv
begin

text \<open>
  The calls on debit notes keep the invariant: drafting, issuing and moving a note, and the settlement of
  a note by the reconciliation.
\<close>

section \<open>A note moves\<close>

lemma log_ok_snoc:
  assumes "log_ok r ts" "nw_maker r' = nw_maker r" "nt_from t = nw_state r" "nt_to t = nw_state r'"
    "valid_transition (nt_from t) (nt_to t)" "entry_actor_ok r t"
  shows "log_ok r' (ts @ [t])"
proof -
  have "ts \<noteq> []" "nt_to (last ts) = nw_state r" "successively note_step ts" using assms(1) by (simp_all add: log_ok_def)
  then have "successively note_step (ts @ [t])"
    using assms(3,5) by (simp add: successively_append_iff note_step_def)
  moreover have "entry_actor_ok r' = entry_actor_ok r" by (intro ext) (simp add: entry_actor_ok_def assms(2))
  ultimately show ?thesis using assms \<open>ts \<noteq> []\<close> by (simp add: log_ok_def)
qed

lemma moved_note_step:
  assumes ok: "revenue_db_ok d" and r: "r \<in> set (rd_notes d)" "hit r" "\<And>x. hit x \<Longrightarrow> nw_id x = nw_id r"
    and upd: "rd_notes d' = sql_update hit upd (rd_notes d)" and log: "rd_transitions d' = rd_transitions d @ [t]"
    and rest: "rd_note_lines d' = rd_note_lines d" "rd_tariff d' = rd_tariff d" "rd_matches d' = rd_matches d"
      "rd_settlements d' = rd_settlements d" "rd_statement_lines d' = rd_statement_lines d" "rd_rules d' = rd_rules d"
      "rd_advices d' = rd_advices d"
    and same: "same_note r (upd r)"
    and t: "nt_note t = nw_id r" "nt_from t = nw_state r" "nt_to t = nw_state (upd r)"
      "valid_transition (nw_state r) (nw_state (upd r))" "entry_actor_ok r t"
    and seal: "unsealed (upd r) \<and> nw_state (upd r) \<notin> {''ISSUED'', ''ACKED'', ''DISPUTED'', ''SETTLED''} \<or>
      sealed (upd r) (lines_of_note (nw_id r) d) \<and> nw_state (upd r) \<noteq> ''DRAFT''"
    and doc: "nw_document (upd r) = nw_document r \<or> nw_document (upd r) \<notin> set (map nw_document (rd_notes d))"
    and settled: "nw_state (upd r) = ''SETTLED'' \<Longrightarrow> nw_id r \<in> set (match_notes d)"
  shows "revenue_step d d'"
proof -
  have N: "notes_ok d" and M: "matches_ok d" using ok by (simp_all add: revenue_db_ok_def)
  have dist: "distinct (map nw_id (rd_notes d))" using N by (simp add: notes_ok_def)
  have id: "nw_id (upd r) = nw_id r" using same by (rule same_note_id)
  have rows: "y \<in> set (rd_notes d') \<longleftrightarrow> y = upd r \<or> y \<in> set (rd_notes d) \<and> nw_id y \<noteq> nw_id r" for y
  proof -
    have "hit x \<longleftrightarrow> x = r" if "x \<in> set (rd_notes d)" for x
      using distinct_key_unique [OF dist that r(1)] r(2,3) by blast
    then show ?thesis using distinct_key_unique [OF dist _ r(1)] r(1) by (auto simp: upd set_sql_update)
  qed
  have ids: "map nw_id (rd_notes d') = map nw_id (rd_notes d)"
    unfolding upd using id distinct_key_unique [OF dist _ r(1)] r(3) by (intro map_sql_update) metis
  have lines: "lines_of_note k d' = lines_of_note k d" for k by (simp add: lines_of_note_def rest)
  have logs: "note_log k d' = note_log k d @ (if k = nw_id r then [t] else [])" for k
    by (simp add: note_log_def log t(1))
  have row: "note_row_ok d x" if "x \<in> set (rd_notes d)" for x using N that by (simp add: notes_ok_def)
  have core: "bills (rd_tariff d) (upd r) ls = bills (rd_tariff d) r ls" "nw_maker (upd r) = nw_maker r" for ls
    using same by (simp_all add: same_note_def note_core_def bills_def)
  have "note_row_ok d' (upd r)"
    using row [OF r(1)] log_ok_snoc [of r "note_log (nw_id r) d" "upd r" t] core t(2-5) seal
    by (auto simp: note_row_ok_def id lines logs rest(2) unsealed_def sealed_def)
  moreover have "note_row_ok d' y" if "y \<in> set (rd_notes d)" "nw_id y \<noteq> nw_id r" for y
    using row [OF that(1)] that(2) by (simp add: note_row_ok_def lines logs rest(2))
  ultimately have row': "note_row_ok d' y" if "y \<in> set (rd_notes d')" for y using that unfolding rows by blast
  have docs: "nw_id n = nw_id m" if nm: "n \<in> set (rd_notes d')" "m \<in> set (rd_notes d')"
    "nw_document n = nw_document m" "nw_document n \<noteq> None" for n m
  proof -
    have u: "nw_id a = nw_id b" if "a \<in> set (rd_notes d)" "b \<in> set (rd_notes d)" "nw_document a = nw_document b"
      "nw_document a \<noteq> None" for a b using N that unfolding notes_ok_def by blast
    have one: "nw_id r = nw_id x" if x: "x \<in> set (rd_notes d)" "nw_document (upd r) = nw_document x" "nw_document x \<noteq> None" for x
    proof -
      have "nw_document (upd r) \<in> set (map nw_document (rd_notes d))" using x(1,2) by auto
      then show ?thesis using doc x u [OF r(1) x(1)] by auto
    qed
    consider "n = upd r" "m = upd r" | "n = upd r" "m \<in> set (rd_notes d)" | "n \<in> set (rd_notes d)" "m = upd r"
      | "n \<in> set (rd_notes d)" "m \<in> set (rd_notes d)"
      using nm(1,2) unfolding rows by blast
    then show ?thesis
    proof cases
      case 2
      then show ?thesis using one [of m] nm(3,4) id by simp
    next
      case 3
      then show ?thesis using one [of n] nm(3,4) id by simp
    next
      case 4
      then show ?thesis using u [of n m] nm(3,4) by blast
    qed simp
  qed
  have "nw_id r \<in> set (map nw_id (rd_notes d))" using r(1) by simp
  then have refs: "\<forall>x \<in> set (rd_transitions d'). nt_note x \<in> set (map nw_id (rd_notes d))"
    "\<forall>x \<in> set (rd_note_lines d'). lr_note x \<in> set (map nw_id (rd_notes d))" "tariff_db_ok (rd_tariff d')"
    using N t(1) by (auto simp: notes_ok_def log rest)
  have N': "notes_ok d'"
    unfolding notes_ok_def ids by (intro conjI refs dist ballI impI row' docs)
  have K: "keeps_notes d d'"
    unfolding keeps_notes_def
  proof (intro conjI ballI)
    fix n assume n: "n \<in> set (rd_notes d)"
    show "\<exists>n' \<in> set (rd_notes d'). same_note n n'"
    proof (cases "nw_id n = nw_id r")
      case True
      then show ?thesis using distinct_key_unique [OF dist n r(1)] same rows by blast
    next
      case False
      then show ?thesis using n rows by (metis same_note_def)
    qed
  qed (simp_all add: rest lines logs)
  have k: "keeps_records d d'" by (simp add: keeps_records_def rest)
  have mn: "match_notes d' = match_notes d" "match_settlements d' = match_settlements d" "match_lines d' = match_lines d"
    by (simp_all add: match_notes_def match_settlements_def match_lines_def rest)
  have "nw_id n \<in> set (match_notes d)" if "n \<in> set (rd_notes d')" "nw_state n = ''SETTLED''" for n
    using that M settled id unfolding rows matches_ok_def by auto
  then have "matches_ok d'"
    using M match_ok_keeps [OF _ K k] unfolding matches_ok_def mn rest by blast
  moreover have "settlements_ok d' = settlements_ok d" "rules_ok d' = rules_ok d" "advices_ok d' = advices_ok d"
    by (simp_all add: settlements_ok_def rules_ok_def advices_ok_def advice_ok_def rest)
  ultimately show ?thesis using ok N' K k by (simp add: revenue_step_def revenue_db_ok_def)
qed

section \<open>Reading notes\<close>

lemma get_debit_note_Inr:
  "get_debit_note e k d = Inr n \<Longrightarrow> \<exists>r \<in> set (rd_notes d). nw_id r = k \<and> n = scan_note r (lines_of_note k d)"
  by (auto simp: get_debit_note_def and_then_Inr_iff stmt_Inr_iff dest!: sql_row_Some split: option.splits)

lemma insert_event_Inr:
  "insert_revenue_event e n s t p d = Inr d' \<Longrightarrow> \<exists>ev. d' = d\<lparr>rd_outbox := rd_outbox d @ [ev]\<rparr>"
  by (auto simp: insert_revenue_event_def stmt_Inr_iff split: if_splits)

lemma insert_transition_Inr:
  "insert_transition e n k from until reason actor approver d = Inr d' \<Longrightarrow>
     \<exists>i at. d' = d\<lparr>rd_transitions := rd_transitions d @ [\<lparr>nt_id = i, nt_note = k, nt_from = from, nt_to = until,
       nt_reason = reason, nt_actor = actor, nt_approver = (if approver = [] then None else Some approver), nt_created = at\<rparr>]\<rparr>
     \<and> (approver \<noteq> [] \<longrightarrow> approver \<noteq> actor)"
  by (auto simp: insert_transition_def stmt_Inr_iff Let_def split: if_splits)

lemma update_note_Inr:
  "update_note e l hit upd d = Inr (Some d') \<Longrightarrow>
     \<exists>r \<in> set (rd_notes d). hit r \<and> note_checks (upd r) \<and> d' = d\<lparr>rd_notes := sql_update hit upd (rd_notes d)\<rparr> \<and>
       (nw_document (upd r) = None \<or> nw_document (upd r) = nw_document r \<or> nw_document (upd r) \<notin> set (map nw_document (rd_notes d)))"
  by (auto simp: update_note_def stmt_Inr_iff dest!: sql_row_Some split: option.splits if_splits)

section \<open>Issuing\<close>

lemma keeps_note_row:
  assumes "keeps_notes d d1" "r \<in> set (rd_notes d)" "revenue_db_ok d1" "r1 \<in> set (rd_notes d1)" "nw_id r1 = nw_id r"
  shows "same_note r r1" "lines_of_note (nw_id r) d1 = lines_of_note (nw_id r) d"
proof -
  obtain r' where r': "r' \<in> set (rd_notes d1)" "same_note r r'" "lines_of_note (nw_id r) d1 = lines_of_note (nw_id r) d"
    using assms(1,2) unfolding keeps_notes_def by blast
  have "distinct (map nw_id (rd_notes d1))" using assms(3) by (simp add: revenue_ok_defs)
  then have "r' = r1" using distinct_key_unique r'(1) assms(4,5) same_note_id [OF r'(2)] by metis
  then show "same_note r r1" "lines_of_note (nw_id r) d1 = lines_of_note (nw_id r) d" using r' by blast+
qed

lemma issue_body_step:
  assumes ok: "revenue_db_ok d1" and k: "keeps_notes d d1" and r0: "r0 \<in> set (rd_notes d)"
    and n: "n = scan_note r0 (lines_of_note (nw_id r0) d)" and body: "issue_body e n document issuer d1 = Inr (u, d2)"
  shows "revenue_step d1 d2"
proof -
  let ?hit = "\<lambda>r. nw_id r = dn_id n \<and> nw_state r = ''DRAFT'' \<and> nw_maker r \<noteq> issuer"
  let ?upd = "\<lambda>r. r\<lparr>nw_state := ''ISSUED'', nw_document := Some document, nw_checker := Some issuer,
    nw_envelope := Some (seal_of n document), nw_updated := env_now e\<rparr>"
  have dn: "dn_id n = nw_id r0" by (simp add: n scan_note_def)
  obtain da db where a: "update_note e ''issue debit note'' ?hit ?upd d1 = Inr (Some da)"
    and b: "insert_transition e 0 (dn_id n) ''DRAFT'' ''ISSUED'' ''issued under dual control'' issuer (dn_maker n) da = Inr db"
    and c: "transition_event e 1 (dn_id n) ''DRAFT'' ''ISSUED'' [(''documentNumber'', J_Text document)] issuer db = Inr d2"
    using body by (auto simp: issue_body_def and_then_Inr_iff split: option.splits sum.splits if_splits)
  obtain r where r: "r \<in> set (rd_notes d1)" "?hit r" and da: "da = d1\<lparr>rd_notes := sql_update ?hit ?upd (rd_notes d1)\<rparr>"
    and doc: "Some document = nw_document r \<or> Some document \<notin> set (map nw_document (rd_notes d1))"
    using update_note_Inr [OF a] by auto
  obtain i at ev where db: "db = da\<lparr>rd_transitions := rd_transitions da @ [\<lparr>nt_id = i, nt_note = dn_id n, nt_from = ''DRAFT'',
       nt_to = ''ISSUED'', nt_reason = ''issued under dual control'', nt_actor = issuer,
       nt_approver = (if dn_maker n = [] then None else Some (dn_maker n)), nt_created = at\<rparr>]\<rparr>"
    and d2: "d2 = db\<lparr>rd_outbox := rd_outbox db @ [ev]\<rparr>"
    using insert_transition_Inr [OF b] insert_event_Inr [OF c [unfolded transition_event_def]] by blast
  have id: "nw_id r = nw_id r0" using r(2) dn by simp
  note s = keeps_note_row [OF k r0 ok r(1) id]
  have row: "note_row_ok d1 r" using ok r(1) by (simp add: revenue_ok_defs)
  then have uns: "unsealed r" using r(2) by (simp add: note_row_ok_def)
  have core: "note_core r = note_core r0" using s(1) by (simp add: same_note_def)
  have seal: "sealed (?upd r) (lines_of_note (nw_id r) d1)"
    using core s(2) r(2) not_sym [of "nw_maker r" issuer] id
    by (simp add: sealed_def seal_of_def n scan_note_def note_core_def)
  show ?thesis
  proof (rule moved_note_step [OF ok r(1), where hit = ?hit and upd = ?upd])
    show "rd_notes d2 = sql_update ?hit ?upd (rd_notes d1)" by (simp add: d2 db da)
    show "same_note r (?upd r)" using uns by (simp add: same_note_def note_core_def)
    show "unsealed (?upd r) \<and> nw_state (?upd r) \<notin> {''ISSUED'', ''ACKED'', ''DISPUTED'', ''SETTLED''} \<or>
      sealed (?upd r) (lines_of_note (nw_id r) d1) \<and> nw_state (?upd r) \<noteq> ''DRAFT''"
      using seal by simp
  qed (use r doc in \<open>auto simp: d2 db da entry_actor_ok_def valid_transition_def\<close>)
qed

lemma next_number_step:
  assumes "revenue_db_ok d"
  shows "revenue_step d (snd (next_document_number e agency year d))"
  by (rule records_step_same [OF assms]) (auto simp: next_document_number_def Let_def)

lemma issue_step:
  assumes "revenue_db_ok d" "revenue_env e"
  shows "revenue_step d (snd (issue e k issuer year d))"
proof -
  have "revenue_step d (snd (run_tx e b c mk (issue_body e n document issuer) d1))"
    if n: "get_debit_note e k d = Inr n" and num: "next_document_number e agency year d = (Inr document, d1)" for n document agency d1 b c mk
  proof -
    obtain r where r: "r \<in> set (rd_notes d)" "n = scan_note r (lines_of_note (nw_id r) d)"
      using get_debit_note_Inr [OF n] by blast
    have s1: "revenue_step d d1" using next_number_step [OF assms(1), of e agency year] num by simp
    have "revenue_step d1 (snd (run_tx e b c mk (issue_body e n document issuer) d1))"
    proof (rule revenue_tx [OF _ assms(2)])
      show "revenue_db_ok d1" using s1 by (simp add: revenue_step_def)
      show "revenue_step d2 d3" if "revenue_db_ok d2" "revenue_step d1 d2" "issue_body e n document issuer d2 = Inr (a, d3)" for a d2 d3
        using issue_body_step [OF that(1) _ r that(3)] s1 that(2) keeps_notes_trans by (auto simp: revenue_step_def)
    qed
    then show ?thesis using s1 revenue_step_trans by blast
  qed
  then have *: "revenue_step d d2"
    if "get_debit_note e k d = Inr n" "next_document_number e agency year d = (Inr document, d1)"
      "run_tx e b c mk (issue_body e n document issuer) d1 = (v, d2)" for n document agency d1 b c mk v d2
    using that by (metis snd_conv)
  have "revenue_step d d1" if "next_document_number e agency year d = (v, d1)" for agency v d1
    using next_number_step [OF assms(1), of e agency year] that by simp
  then show ?thesis
    using revenue_step_refl [OF assms(1)] * by (auto simp: issue_def split: sum.splits prod.splits)
qed

section \<open>The life of a note\<close>

lemma transition_body_step:
  assumes ok: "revenue_db_ok d1" and k: "keeps_notes d d1" and r0: "r0 \<in> set (rd_notes d)"
    and n: "n = scan_note r0 (lines_of_note (nw_id r0) d)"
    and v: "valid_transition (dn_state n) until" "until \<noteq> ''SETTLED''" and body: "transition_note_body e n until reason actor d1 = Inr (u, d2)"
  shows "revenue_step d1 d2"
proof -
  have dn: "dn_id n = nw_id r0" "dn_maker n = nw_maker r0" by (simp_all add: n scan_note_def)
  obtain hit upd da db where a: "update_note e ''transition debit note'' hit upd d1 = Inr (Some da)"
    and hit: "\<And>r. hit r \<Longrightarrow> nw_id r = dn_id n \<and> nw_state r = dn_state n \<and> (until = ''CANCELLED'' \<longrightarrow> nw_maker r \<noteq> actor)"
    and upd: "\<And>r. same_note r (upd r) \<and> nw_state (upd r) = until \<and> note_sealing (upd r) = note_sealing r"
    and b: "insert_transition e 0 (dn_id n) (dn_state n) until reason actor
      (if until = ''CANCELLED'' then dn_maker n else []) da = Inr db"
    and c: "transition_event e 1 (dn_id n) (dn_state n) until [(''reason'', J_Text reason)] actor db = Inr d2"
  proof (cases "until = ''CANCELLED''")
    case True
    then show ?thesis
      using that [of "\<lambda>r. nw_id r = dn_id n \<and> nw_state r = dn_state n \<and> nw_maker r \<noteq> actor"
          "\<lambda>r. r\<lparr>nw_state := until, nw_reason := Some reason, nw_updated := env_now e\<rparr>"] body
      by (fastforce simp: transition_note_body_def and_then_Inr_iff same_note_def note_core_def note_sealing_def
          split: option.splits if_splits)
  next
    case False
    then show ?thesis
      using that [of "\<lambda>r. nw_id r = dn_id n \<and> nw_state r = dn_state n"
          "\<lambda>r. r\<lparr>nw_state := until, nw_updated := env_now e\<rparr>"] body
      by (fastforce simp: transition_note_body_def and_then_Inr_iff same_note_def note_core_def note_sealing_def
          split: option.splits if_splits)
  qed
  obtain r where r: "r \<in> set (rd_notes d1)" "hit r" "note_checks (upd r)" and da: "da = d1\<lparr>rd_notes := sql_update hit upd (rd_notes d1)\<rparr>"
    using update_note_Inr [OF a] by blast
  obtain i at ap ev where db: "db = da\<lparr>rd_transitions := rd_transitions da @ [\<lparr>nt_id = i, nt_note = dn_id n, nt_from = dn_state n,
       nt_to = until, nt_reason = reason, nt_actor = actor, nt_approver = ap, nt_created = at\<rparr>]\<rparr>"
    and d2: "d2 = db\<lparr>rd_outbox := rd_outbox db @ [ev]\<rparr>"
    using insert_transition_Inr [OF b] insert_event_Inr [OF c [unfolded transition_event_def]] by blast
  have id: "nw_id r = nw_id r0" "nw_state r = dn_state n" using hit [OF r(2)] dn by simp_all
  have same: "nw_maker r = nw_maker r0"
    using keeps_note_row(1) [OF k r0 ok r(1) id(1)] by (simp add: same_note_def note_core_def)
  have row: "note_row_ok d1 r" using ok r(1) by (simp add: revenue_ok_defs)
  have u: "nw_state (upd r) = until" "note_sealing (upd r) = note_sealing r" "note_core (upd r) = note_core r"
    using upd [of r] by (simp_all add: same_note_def)
  have seal: "sealed (upd r) ls = sealed r ls" "unsealed (upd r) = unsealed r" for ls
    using u(2,3) by (simp_all add: sealed_def unsealed_def note_sealing_def note_core_def)
  have fresh: "until \<noteq> ''ISSUED''"
  proof
    assume "until = ''ISSUED''"
    then have "nw_state r = ''DRAFT''" using v(1) id(2) by (simp add: valid_transition_def split: if_splits)
    then have "unsealed (upd r)" using row seal(2) by (simp add: note_row_ok_def)
    then show False using r(3) u(1) \<open>until = ''ISSUED''\<close> by (simp add: note_checks_def unsealed_def)
  qed
  have "until \<in> {''ACKED'', ''DISPUTED'', ''CANCELLED''}" using v fresh by (auto simp: valid_transition_def split: if_splits)
  moreover have "sealed r (lines_of_note (nw_id r) d1)" if "until \<in> {''ACKED'', ''DISPUTED''}"
  proof -
    have "nw_state r \<in> {''ISSUED'', ''ACKED'', ''DISPUTED''}" using v(1) that id(2) by (auto simp: valid_transition_def split: if_splits)
    then show ?thesis using row by (auto simp: note_row_ok_def)
  qed
  moreover have "unsealed r \<or> sealed r (lines_of_note (nw_id r) d1)" using row by (simp add: note_row_ok_def)
  ultimately have "unsealed r \<and> until \<notin> {''ISSUED'', ''ACKED'', ''DISPUTED'', ''SETTLED''} \<or>
      sealed r (lines_of_note (nw_id r) d1) \<and> until \<noteq> ''DRAFT''"
    by auto
  note cases = this
  show ?thesis
  proof (rule moved_note_step [OF ok r(1), where hit = hit and upd = upd])
    show "hit r" by (rule r(2))
    show "nw_id x = nw_id r" if "hit x" for x using hit [OF that] id(1) dn(1) by simp
    show "rd_notes d2 = sql_update hit upd (rd_notes d1)" by (simp add: d2 db da)
    show "same_note r (upd r)" using upd by blast
    show "nw_state (upd r) = ''SETTLED'' \<Longrightarrow> nw_id r \<in> set (match_notes d1)" using u(1) v(2) by simp
    show "nw_document (upd r) = nw_document r \<or> nw_document (upd r) \<notin> set (map nw_document (rd_notes d1))"
      using u(2) by (simp add: note_sealing_def)
    show "unsealed (upd r) \<and> nw_state (upd r) \<notin> {''ISSUED'', ''ACKED'', ''DISPUTED'', ''SETTLED''} \<or>
      sealed (upd r) (lines_of_note (nw_id r) d1) \<and> nw_state (upd r) \<noteq> ''DRAFT''"
      using cases unfolding seal u(1) .
    show "valid_transition (nw_state r) (nw_state (upd r))" using v(1) id(2) u(1) by simp
    let ?t = "\<lparr>nt_id = i, nt_note = dn_id n, nt_from = dn_state n, nt_to = until, nt_reason = reason, nt_actor = actor,
       nt_approver = ap, nt_created = at\<rparr>"
    show "rd_transitions d2 = rd_transitions d1 @ [?t]" by (simp add: d2 db da)
    show "entry_actor_ok r ?t" using hit [OF r(2)] fresh v(2) by (auto simp: entry_actor_ok_def)
    show "nt_note ?t = nw_id r" "nt_from ?t = nw_state r" "nt_to ?t = nw_state (upd r)"
      using id dn(1) u(1) by simp_all
  qed (simp_all add: d2 db da)
qed

lemma transition_step:
  assumes "revenue_db_ok d" "revenue_env e"
  shows "revenue_step d (snd (transition_note e k until reason actor d))"
proof -
  have "revenue_step d (snd (run_tx e b c mk (transition_note_body e n until reason actor) d))"
    if n: "get_debit_note e k d = Inr n" and v: "valid_transition (dn_state n) until" "until \<noteq> ''SETTLED''" for n b c mk
  proof -
    obtain r where r: "r \<in> set (rd_notes d)" "n = scan_note r (lines_of_note (nw_id r) d)"
      using get_debit_note_Inr [OF n] by blast
    show ?thesis
    proof (rule revenue_tx [OF assms])
      show "revenue_step d1 d2" if "revenue_db_ok d1" "revenue_step d d1"
        "transition_note_body e n until reason actor d1 = Inr (a, d2)" for a d1 d2
        using transition_body_step [OF that(1) _ r v that(3)] that(2) by (simp add: revenue_step_def)
    qed
  qed
  then have "revenue_step d d1" if "get_debit_note e k d = Inr n" "valid_transition (dn_state n) until" "until \<noteq> ''SETTLED''"
    "run_tx e b c mk (transition_note_body e n until reason actor) d = (v, d1)" for n b c mk v d1
    using that by (metis snd_conv)
  then show ?thesis
    using revenue_step_refl [OF assms(1)] by (auto simp: transition_note_def split: sum.splits prod.splits)
qed

section \<open>Drafting\<close>

lemma insort_by_least: "(\<And>y. y \<in> set ys \<Longrightarrow> le x y) \<Longrightarrow> insort_by le x ys = x # ys"
  by (cases ys) auto

lemma number_lines_no: "l \<in> set (number_lines k ls) \<Longrightarrow> k < nl_no l"
  by (induction k ls rule: number_lines.induct) auto

lemma sort_number_lines [simp]: "sort_by (\<lambda>a b. nl_no a \<le> nl_no b) (number_lines k ls) = number_lines k ls"
proof (induction k ls rule: number_lines.induct)
  case (2 k l ls)
  then show ?case
    using number_lines_no [of _ "Suc k" ls] by (fastforce intro!: insort_by_least dest: Suc_leD)
qed simp

lemma insert_note_lines_Inr:
  "insert_note_lines e k ls d = Inr d' \<Longrightarrow> d' = d\<lparr>rd_note_lines := rd_note_lines d @ map (\<lambda>l. \<lparr>lr_note = k, lr_line = l\<rparr>) ls\<rparr>"
proof (induction ls arbitrary: d)
  case (Cons l ls)
  obtain d1 where "d1 = d\<lparr>rd_note_lines := rd_note_lines d @ [\<lparr>lr_note = k, lr_line = l\<rparr>]\<rparr>" "insert_note_lines e k ls d1 = Inr d'"
    using Cons.prems by (auto simp: and_then_Inr_iff stmt_Inr_iff split: if_splits)
  then show ?case using Cons.IH [of d1] by simp
qed simp

lemma new_note_step:
  assumes ok: "revenue_db_ok d" and rows: "rd_notes d' = rd_notes d @ [n]" and new: "nw_id n \<notin> set (map nw_id (rd_notes d))"
    and lines: "rd_note_lines d' = rd_note_lines d @ map (\<lambda>l. \<lparr>lr_note = nw_id n, lr_line = l\<rparr>) ls"
    and log: "rd_transitions d' = rd_transitions d @ [t]"
    and rest: "rd_tariff d' = rd_tariff d" "rd_matches d' = rd_matches d" "rd_settlements d' = rd_settlements d"
      "rd_statement_lines d' = rd_statement_lines d" "rd_rules d' = rd_rules d" "rd_advices d' = rd_advices d"
    and n: "nw_state n = ''DRAFT''" "unsealed n" "nw_id n \<noteq> []" "bills (rd_tariff d) n ls"
    and t: "nt_note t = nw_id n" "nt_from t = []" "nt_to t = ''DRAFT''" "nt_actor t = nw_maker n"
  shows "revenue_step d d'"
proof -
  have N: "notes_ok d" and M: "matches_ok d" using ok by (simp_all add: revenue_db_ok_def)
  have old: "lines_of_note k d' = lines_of_note k d" "note_log k d' = note_log k d" if "k \<in> set (map nw_id (rd_notes d))" for k
  proof -
    have "nw_id n \<noteq> k" using that new by blast
    then show "lines_of_note k d' = lines_of_note k d" "note_log k d' = note_log k d"
      by (simp_all add: lines_of_note_def note_log_def lines log t(1) filter_map o_def)
  qed
  have none: "filter (\<lambda>l. lr_note l = nw_id n) (rd_note_lines d) = []" "filter (\<lambda>t. nt_note t = nw_id n) (rd_transitions d) = []"
    using N new unfolding notes_ok_def filter_empty_conv by metis+
  obtain a where ls: "ls = charged_of a (rd_tariff d)" using n(4) by (auto simp: bills_def)
  have mine: "lines_of_note (nw_id n) d' = ls" "note_log (nw_id n) d' = [t]"
    by (simp_all add: lines_of_note_def note_log_def lines log t(1) none filter_map o_def ls charged_of_def)
  have "note_row_ok d' n" using n t by (simp add: note_row_ok_def mine rest(1) log_ok_def)
  moreover have "note_row_ok d' y" if "y \<in> set (rd_notes d)" for y
    using N that old [of "nw_id y"] by (simp add: notes_ok_def note_row_ok_def rest(1))
  ultimately have row: "\<forall>y \<in> set (rd_notes d'). note_row_ok d' y" by (auto simp: rows)
  have docs: "\<forall>x \<in> set (rd_notes d'). \<forall>m \<in> set (rd_notes d'). nw_document x = nw_document m \<longrightarrow> nw_document x \<noteq> None \<longrightarrow> nw_id x = nw_id m"
  proof (intro ballI impI)
    fix x m assume xm: "x \<in> set (rd_notes d')" "m \<in> set (rd_notes d')" "nw_document x = nw_document m" "nw_document x \<noteq> None"
    have "x \<noteq> n" "m \<noteq> n" using xm(3,4) n(2) by (auto simp: unsealed_def)
    then have "x \<in> set (rd_notes d)" "m \<in> set (rd_notes d)" using xm(1,2) by (simp_all add: rows)
    then show "nw_id x = nw_id m" using N xm(3,4) unfolding notes_ok_def by blast
  qed
  have N': "notes_ok d'"
    unfolding notes_ok_def
  proof (intro conjI row docs)
    show "distinct (map nw_id (rd_notes d'))" using N new by (simp add: notes_ok_def rows)
    show "tariff_db_ok (rd_tariff d')" using N by (simp add: notes_ok_def rest(1))
    show "\<forall>t \<in> set (rd_transitions d'). nt_note t \<in> set (map nw_id (rd_notes d'))"
      using N by (simp add: notes_ok_def log t(1) rows)
    show "\<forall>l \<in> set (rd_note_lines d'). lr_note l \<in> set (map nw_id (rd_notes d'))"
      using N by (auto simp: notes_ok_def lines rows)
  qed
  have "\<exists>ts. note_log k d' = note_log k d @ ts" if "k \<in> set (map nw_id (rd_notes d))" for k
    using old(2) [OF that] by simp
  then have K: "keeps_notes d d'"
    using old(1) by (auto simp: keeps_notes_def rows rest(1) same_note_def)
  have k: "keeps_records d d'" by (simp add: keeps_records_def rest)
  have mn: "match_notes d' = match_notes d" "match_settlements d' = match_settlements d" "match_lines d' = match_lines d"
    by (simp_all add: match_notes_def match_settlements_def match_lines_def rest)
  have "matches_ok d'"
    using M match_ok_keeps [OF _ K k] n(1) unfolding matches_ok_def mn rest(2) rows by auto
  moreover have "settlements_ok d' = settlements_ok d" "rules_ok d' = rules_ok d" "advices_ok d' = advices_ok d"
    by (simp_all add: settlements_ok_def rules_ok_def advices_ok_def advice_ok_def rest)
  ultimately show ?thesis using ok N' K k by (simp add: revenue_step_def revenue_db_ok_def)
qed

lemma bills_stays:
  assumes "bills t n ls" "keeps_assessments t t'"
  shows "bills t' n ls"
proof -
  obtain a where a: "a \<in> set (td_assessments t)" "aw_id a = nw_assessment n" "nw_usd n = aw_usd a" "nw_ngn n = aw_ngn a"
    "ls = charged_of (aw_id a) t" "ls \<noteq> []" "\<forall>l \<in> set ls. nl_agency l = nw_agency n"
    using assms(1) unfolding bills_def by blast
  moreover have "a \<in> set (td_assessments t')" "charged_of (aw_id a) t' = charged_of (aw_id a) t"
    using assms(2) a(1) by (simp_all add: keeps_assessments_def charged_of_def assessment_lines_of)
  ultimately show ?thesis unfolding bills_def by metis
qed

lemma create_note_body_step:
  assumes "revenue_db_ok d" "create_note_body e n ls d = Inr (u, d')" "nw_state n = ''DRAFT''" "unsealed n" "nw_id n \<noteq> []"
    "bills (rd_tariff d) n ls"
  shows "revenue_step d d'"
proof -
  obtain d1 d2 d3 where a: "insert_note e n d = Inr d1" and b: "insert_note_lines e (nw_id n) ls d1 = Inr d2"
    and c: "insert_transition e 1 (nw_id n) [] ''DRAFT'' ''debit note drafted'' (nw_maker n) [] d2 = Inr d3"
    and f: "\<exists>ev. d' = d3\<lparr>rd_outbox := rd_outbox d3 @ [ev]\<rparr>"
    using assms(2) insert_event_Inr by (auto simp: create_note_body_def and_then_Inr_iff)
  have d1: "d1 = d\<lparr>rd_notes := rd_notes d @ [n]\<rparr>" "nw_id n \<notin> set (map nw_id (rd_notes d))"
    using a by (auto simp: insert_note_def stmt_Inr_iff split: if_splits)
  obtain i at where d3: "d3 = d2\<lparr>rd_transitions := rd_transitions d2 @ [\<lparr>nt_id = i, nt_note = nw_id n, nt_from = [],
     nt_to = ''DRAFT'', nt_reason = ''debit note drafted'', nt_actor = nw_maker n, nt_approver = None, nt_created = at\<rparr>]\<rparr>"
    using insert_transition_Inr [OF c] by auto
  note d2 = insert_note_lines_Inr [OF b]
  show ?thesis
    by (rule new_note_step [OF assms(1) _ d1(2)]) (use f assms(3-6) in \<open>auto simp: d1(1) d2 d3\<close>)
qed

lemma create_debit_note_step:
  assumes "revenue_db_ok d" "revenue_env e"
  shows "revenue_step d (snd (create_debit_note digest e rq key maker correlation now d))"
proof -
  have persist: "revenue_step d (snd (persist_note e n ls d))"
    if n: "nw_state n = ''DRAFT''" "unsealed n" "nw_id n \<noteq> []" "bills (rd_tariff d) n ls" for n ls
  proof -
    have "revenue_step d (snd (run_tx e b c Revenue_Database (create_note_body e n ls) d))" for b c
    proof (rule revenue_tx [OF assms])
      show "revenue_step d1 d2" if "revenue_db_ok d1" "revenue_step d d1" "create_note_body e n ls d1 = Inr (a, d2)" for a d1 d2
        using create_note_body_step [OF that(1,3) n(1-3) bills_stays [OF n(4)]] that(2)
        by (simp add: revenue_step_def keeps_notes_def)
    qed
    then have "revenue_step d d1" if "run_tx e b c Revenue_Database (create_note_body e n ls) d = (v, d1)" for b c v d1
      using that by (metis snd_conv)
    then show ?thesis by (auto simp: persist_note_def split: sum.splits prod.splits)
  qed
  have billed: "bills (rd_tariff d) n (l # ls)"
    if "load_assessment e (nw_assessment n) d = Inr a" "charged_lines e (nw_assessment n) d = Inr (l # ls)"
      "nw_usd n = aw_usd a \<and> nw_ngn n = aw_ngn a" "\<forall>x \<in> set (l # ls). nl_agency x = nw_agency n" for a n l ls
  proof -
    have "a \<in> set (td_assessments (rd_tariff d))" "aw_id a = nw_assessment n" "l # ls = charged_of (nw_assessment n) (rd_tariff d)"
      using that(1,2) by (auto simp: load_assessment_def charged_lines_def charged_of_def stmt_Inr_iff
          dest!: sql_row_Some split: option.splits)
    then show ?thesis using that(3,4) unfolding bills_def by (metis list.distinct(1))
  qed
  show ?thesis
    unfolding create_debit_note_def Let_def using assms(2)
    by (auto simp: revenue_step_refl [OF assms(1)] unsealed_def revenue_env_def
        split: option.splits sum.splits list.splits intro!: persist billed)
qed

end
