(* ===== verification/Revenue_Batch_Inv.thy ===== *)
theory Revenue_Batch_Inv
  imports Revenue_Notes
begin

text \<open>
  A reconciliation batch keeps the invariant: the plan of what it loaded is still an agreement of three
  legs when it is persisted, whatever happened in between, and a note it settles has its match.
\<close>

section \<open>Planned matches\<close>

lemma batch_projections [simp]:
  "dn_id (batch_note n) = nw_id n" "dn_document (batch_note n) = text_of (nw_document n)"
  "st_id (batch_settlement s) = st_id (sw_row s)" "st_note (batch_settlement s) = st_note (sw_row s)"
  "st_bank_ref (batch_settlement s) = st_bank_ref (sw_row s)" "st_amount (batch_settlement s) = st_amount (sw_row s)"
  "st_currency (batch_settlement s) = st_currency (sw_row s)"
  "sl_statement (batch_line l) = bw_statement l" "sl_no (batch_line l) = bw_no l"
  "sl_bank_ref (batch_line l) = bl_reference (bw_line l)" "sl_amount (batch_line l) = bl_amount (bw_line l)"
  "sl_currency (batch_line l) = bl_currency (bw_line l)" "note_amount_in (batch_note n) c = billed_in n c"
  by (simp_all add: batch_note_def scan_note_def batch_settlement_def batch_line_def note_amount_in_def billed_in_def)

lemma load_recon_Inr:
  assumes "load_recon_input before e as_of d = Inr inp"
  shows "x \<in> set (ri_notes inp) \<Longrightarrow> \<exists>n \<in> set (rd_notes d). x = batch_note n \<and> open_note n \<and> nw_id n \<notin> set (match_notes d)"
    "s \<in> set (ri_settlements inp) \<Longrightarrow> \<exists>r \<in> set (rd_settlements d). s = batch_settlement r"
    "l \<in> set (ri_lines inp) \<Longrightarrow> \<exists>r \<in> set (rd_statement_lines d). l = batch_line r \<and> bl_direction (bw_line r) = ''CREDIT''"
  using assms by (auto simp: load_recon_input_def and_then_Inr_iff stmt_Inr_iff)

lemma planned_match_ok:
  assumes "load_recon_input before e as_of d = Inr inp" "m \<in> set (rp_matches (plan_recon inp))"
  shows "match_ok d m"
proof -
  note load = load_recon_Inr [OF assms(1)]
  obtain s where s: "s \<in> set (ri_settlements inp)" "decide inp s = Decided_Match m"
    using assms(2) by (auto simp: plan_simps matches_of_mem)
  show ?thesis
  proof (rule decide_Match [OF s])
    fix n l assume n: "n \<in> set (ri_notes inp)" and l: "l \<in> set (ri_lines inp)"
      and eq: "st_note s = dn_id n \<or> st_note s = [] \<and> dn_document n = st_bank_ref s \<and> dn_document n \<noteq> []"
        "note_amount_in n (st_currency s) = st_amount s" "sl_bank_ref l = st_bank_ref s" "sl_amount l = st_amount s"
        "sl_currency l = st_currency s"
        "m = \<lparr>md_note = dn_id n, md_settlement = st_id s, md_statement = sl_statement l, md_line = sl_no l,
       md_amount = st_amount s, md_currency = st_currency s\<rparr>"
    obtain n0 s0 l0 where r: "n0 \<in> set (rd_notes d)" "n = batch_note n0" "s0 \<in> set (rd_settlements d)" "s = batch_settlement s0"
      "l0 \<in> set (rd_statement_lines d)" "l = batch_line l0" "bl_direction (bw_line l0) = ''CREDIT''"
      using load(1) [OF n] load(2) [OF s(1)] load(3) [OF l] by blast
    have "st_note (sw_row s0) = nw_id n0 \<or> st_note (sw_row s0) = [] \<and> nw_document n0 = Some (st_bank_ref (sw_row s0))"
      using eq(1) r by (auto simp: text_of_def split: option.splits)
    then show ?thesis
      unfolding match_ok_def using r eq by (intro bexI [of _ "sw_row s0"] bexI [of _ n0] bexI [of _ l0]) auto
  qed
qed

lemma settled_is_planned:
  assumes "(k, s) \<in> set (rp_settled (plan_recon inp))"
  shows "\<exists>m \<in> set (rp_matches (plan_recon inp)). md_note m = k \<and> md_settlement m = s"
proof -
  have "\<exists>m \<in> set ms. md_note m = k \<and> md_settlement m = s"
    if "(k, s) \<in> set (fold (\<lambda>m. AList.update (md_note m) (md_settlement m)) ms xs)" "(k, s) \<notin> set xs" for ms xs
    using that
  proof (induction ms arbitrary: xs)
    case (Cons m ms)
    show ?case
    proof (cases "(k, s) \<in> set (AList.update (md_note m) (md_settlement m) xs)")
      case True
      then have "k = md_note m \<and> s = md_settlement m"
        using Cons.prems(2) by (induction xs) (auto split: if_splits)
      then show ?thesis by simp
    next
      case False
      then show ?thesis using Cons.IH [of "AList.update (md_note m) (md_settlement m) xs"] Cons.prems(1) by auto
    qed
  qed simp
  from this [of _ "[]"] show ?thesis using assms by (simp add: plan_recon_def Let_def)
qed

text \<open>Two agreements on one settlement are about one note.\<close>

lemma match_same_note:
  assumes "revenue_db_ok d" "match_ok d m" "match_ok d m'" "md_settlement m = md_settlement m'"
  shows "md_note m = md_note m'"
proof -
  obtain s n where s: "s \<in> set (map sw_row (rd_settlements d))" "n \<in> set (rd_notes d)" "md_settlement m = st_id s" "md_note m = nw_id n"
    "st_note s = nw_id n \<or> st_note s = [] \<and> nw_document n = Some (st_bank_ref s)"
    using assms(2) unfolding match_ok_def by blast
  obtain s' n' where s': "s' \<in> set (map sw_row (rd_settlements d))" "n' \<in> set (rd_notes d)" "md_settlement m' = st_id s'" "md_note m' = nw_id n'"
    "st_note s' = nw_id n' \<or> st_note s' = [] \<and> nw_document n' = Some (st_bank_ref s')"
    using assms(3) unfolding match_ok_def by blast
  have "distinct (map st_id (map sw_row (rd_settlements d)))" using assms(1) by (simp add: revenue_ok_defs)
  then have "s = s'" using distinct_key_unique [where k = st_id, OF _ s(1) s'(1)] s(3) s'(3) assms(4) by simp
  moreover have "nw_id n \<noteq> []" "nw_id n' \<noteq> []"
    using assms(1) s(2) s'(2) by (simp_all add: revenue_ok_defs note_row_ok_def)
  moreover have "nw_id n = nw_id n'" if "nw_document n = nw_document n'" "nw_document n \<noteq> None"
    using assms(1) s(2) s'(2) that unfolding revenue_ok_defs by blast
  ultimately show ?thesis using s(4,5) s'(4,5) by auto
qed

section \<open>Persisting matches\<close>

lemma insert_match_Inr:
  assumes "insert_match e n run m d = Inr d'"
  obtains "d' = d" "md_settlement m \<in> set (match_settlements d)"
  | i at where "d' = d\<lparr>rd_matches := rd_matches d @ [\<lparr>mw_id = i, mw_run = run, mw_match = m, mw_created = at\<rparr>]\<rparr>"
      "md_note m \<notin> set (match_notes d)" "md_settlement m \<notin> set (match_settlements d)"
      "(md_statement m, md_line m) \<notin> set (match_lines d)"
  using assms by (auto simp: insert_match_def stmt_Inr_iff split: if_splits)

lemma new_match_step:
  assumes ok: "revenue_db_ok d" and d': "d' = d\<lparr>rd_matches := rd_matches d @ [x]\<rparr>"
    and m: "match_ok d (mw_match x)" and new: "md_note (mw_match x) \<notin> set (match_notes d)"
      "md_settlement (mw_match x) \<notin> set (match_settlements d)"
      "(md_statement (mw_match x), md_line (mw_match x)) \<notin> set (match_lines d)"
  shows "revenue_step d d'"
proof -
  have N: "notes_ok d' = notes_ok d" "keeps_notes d d'" by (rule notes_unchanged; simp add: d')+
  have k: "keeps_records d d'" by (auto simp: keeps_records_def d')
  have "match_ok d' z" if "match_ok d z" for z by (rule match_ok_keeps [OF that N(2) k])
  then have "\<forall>y \<in> set (rd_matches d'). match_ok d' (mw_match y)"
    using ok m by (auto simp: revenue_ok_defs d')
  moreover have "distinct (match_notes d')" "distinct (match_settlements d')" "distinct (match_lines d')"
    "set (match_notes d) \<subseteq> set (match_notes d')"
    using ok new by (auto simp: revenue_ok_defs d' match_notes_def match_settlements_def match_lines_def)
  ultimately have "matches_ok d'" using ok by (auto simp: revenue_ok_defs d')
  moreover have "settlements_ok d' = settlements_ok d" "rules_ok d' = rules_ok d" "advices_ok d' = advices_ok d"
    by (simp_all add: settlements_ok_def rules_ok_def advices_ok_def advice_ok_def d')
  ultimately show ?thesis using ok N k by (simp add: revenue_step_def revenue_db_ok_def)
qed

definition has_match :: "revenue_db \<Rightarrow> match_decision \<Rightarrow> bool" where
  "has_match d m \<longleftrightarrow> (\<exists>x \<in> set (rd_matches d). md_note (mw_match x) = md_note m \<and> md_settlement (mw_match x) = md_settlement m)"

lemma has_match_step: "has_match d m \<Longrightarrow> revenue_step d d' \<Longrightarrow> has_match d' m"
  by (auto simp: has_match_def revenue_step_def keeps_records_def)

lemma has_match_note: "has_match d m \<Longrightarrow> md_note m \<in> set (match_notes d)"
  by (force simp: has_match_def match_notes_def)

lemma insert_matches_step:
  assumes "revenue_db_ok d" "\<And>m. m \<in> set ms \<Longrightarrow> match_ok d m" "insert_matches e n run ms d = Inr d'"
  shows "revenue_step d d' \<and> (\<forall>m \<in> set ms. has_match d' m)"
  using assms
proof (induction ms arbitrary: n d)
  case (Cons m ms)
  obtain d1 where one: "insert_match e n run m d = Inr d1" and rest: "insert_matches e (Suc n) run ms d1 = Inr d'"
    using Cons.prems(3) by (auto simp: and_then_Inr_iff)
  have m: "match_ok d m" using Cons.prems(2) by simp
  have s1: "revenue_step d d1 \<and> has_match d1 m"
  proof (rule insert_match_Inr [OF one])
    assume "d1 = d" "md_settlement m \<in> set (match_settlements d)"
    moreover then obtain x where x: "x \<in> set (rd_matches d)" "md_settlement (mw_match x) = md_settlement m"
      by (auto simp: match_settlements_def)
    then have "md_note (mw_match x) = md_note m"
      using match_same_note [OF Cons.prems(1) _ m] Cons.prems(1) by (auto simp: revenue_ok_defs)
    then have "has_match d m" using x by (auto simp: has_match_def)
    ultimately show ?thesis using revenue_step_refl [OF Cons.prems(1)] by simp
  next
    fix i at assume d1: "d1 = d\<lparr>rd_matches := rd_matches d @ [\<lparr>mw_id = i, mw_run = run, mw_match = m, mw_created = at\<rparr>]\<rparr>"
      "md_note m \<notin> set (match_notes d)" "md_settlement m \<notin> set (match_settlements d)"
      "(md_statement m, md_line m) \<notin> set (match_lines d)"
    then show ?thesis using new_match_step [OF Cons.prems(1) d1(1)] m by (simp add: has_match_def)
  qed
  have "revenue_step d1 d' \<and> (\<forall>m \<in> set ms. has_match d' m)"
  proof (rule Cons.IH [OF _ _ rest])
    show "revenue_db_ok d1" using s1 by (simp add: revenue_step_def)
    show "match_ok d1 z" if "z \<in> set ms" for z
      using match_ok_keeps Cons.prems(2) that s1 by (auto simp: revenue_step_def)
  qed
  then show ?case using s1 revenue_step_trans has_match_step by auto
qed (simp add: revenue_step_refl)

section \<open>Settling notes\<close>

lemma settle_note_step:
  assumes ok: "revenue_db_ok d" and m: "k \<in> set (match_notes d)" and body: "settle_note e n k s d = Inr d'"
  shows "revenue_step d d'"
proof -
  let ?hit = "\<lambda>r. nw_id r = k \<and> open_note r"
  let ?upd = "\<lambda>r. r\<lparr>nw_state := ''SETTLED'', nw_updated := env_now e\<rparr>"
  consider "d' = d" | p da where "sql_row (\<lambda>r. nw_id r = k) (rd_notes d) = Some p" "sql_row ?hit (rd_notes d) \<noteq> None"
    "da = d\<lparr>rd_notes := sql_update ?hit ?upd (rd_notes d)\<rparr>"
    "insert_transition e n k (nw_state p) ''SETTLED'' (''three-way match with settlement '' @ s) ''recon-engine'' [] da = Inr d'"
    using body by (auto simp: settle_note_def and_then_Inr_iff stmt_Inr_iff Let_def split: option.splits if_splits)
  then show ?thesis
  proof cases
    case 2
    obtain r where r: "r \<in> set (rd_notes d)" "?hit r" using 2(2) by (auto dest!: sql_row_Some)
    have "p \<in> set (rd_notes d)" "nw_id p = k" using sql_row_Some [OF 2(1)] by simp_all
    then have p: "p = r" using distinct_key_unique [where k = nw_id, of "rd_notes d" p r] ok r by (simp add: revenue_ok_defs)
    obtain i at where d': "d' = da\<lparr>rd_transitions := rd_transitions da @ [\<lparr>nt_id = i, nt_note = k, nt_from = nw_state p,
       nt_to = ''SETTLED'', nt_reason = ''three-way match with settlement '' @ s, nt_actor = ''recon-engine'',
       nt_approver = None, nt_created = at\<rparr>]\<rparr>"
      using insert_transition_Inr [OF 2(4)] by auto
    have unpaid: "nw_state r \<in> {''ISSUED'', ''ACKED'', ''DISPUTED''}" using r(2) by (simp add: open_note_def)
    have row: "note_row_ok d r" using ok r(1) by (simp add: revenue_ok_defs)
    have seal: "sealed r (lines_of_note (nw_id r) d)" using unpaid row by (auto simp: note_row_ok_def)
    show ?thesis
    proof (rule moved_note_step [OF ok r(1), where hit = ?hit and upd = ?upd])
      show "rd_notes d' = sql_update ?hit ?upd (rd_notes d)" by (simp add: d' 2(3))
      show "valid_transition (nw_state r) (nw_state (?upd r))" using unpaid by (auto simp: valid_transition_def)
      show "unsealed (?upd r) \<and> nw_state (?upd r) \<notin> {''ISSUED'', ''ACKED'', ''DISPUTED'', ''SETTLED''} \<or>
          sealed (?upd r) (lines_of_note (nw_id r) d) \<and> nw_state (?upd r) \<noteq> ''DRAFT''"
        using seal by (simp add: sealed_def)
      show "same_note r (?upd r)" by (simp add: same_note_def note_core_def note_sealing_def)
      let ?t = "\<lparr>nt_id = i, nt_note = k, nt_from = nw_state p, nt_to = ''SETTLED'',
        nt_reason = ''three-way match with settlement '' @ s, nt_actor = ''recon-engine'', nt_approver = None, nt_created = at\<rparr>"
      show "rd_transitions d' = rd_transitions d @ [?t]" by (simp add: d' 2(3))
      show "nt_note ?t = nw_id r" using r(2) by simp
      show "nt_from ?t = nw_state r" by (simp add: p)
      show "entry_actor_ok r ?t" by (simp add: entry_actor_ok_def)
      show "nw_id r \<in> set (match_notes d)" using r(2) m by simp
    qed (use r in \<open>simp_all add: d' 2(3)\<close>)
  qed (simp add: revenue_step_refl ok)
qed

lemma step_matches: "revenue_step d d' \<Longrightarrow> set (match_notes d) \<subseteq> set (match_notes d')"
  by (auto simp: revenue_step_def keeps_records_def match_notes_def)

lemma settle_notes_step:
  assumes "revenue_db_ok d" "fst ` set ks \<subseteq> set (match_notes d)" "settle_notes e n ks d = Inr d'"
  shows "revenue_step d d'"
  using assms
proof (induction ks arbitrary: n d)
  case (Cons x ks)
  obtain k s where x: "x = (k, s)" by fastforce
  obtain d1 where one: "settle_note e n k s d = Inr d1" and rest: "settle_notes e (Suc n) ks d1 = Inr d'"
    using Cons.prems(3) by (auto simp: x and_then_Inr_iff)
  have s1: "revenue_step d d1" using settle_note_step [OF Cons.prems(1) _ one] Cons.prems(2) by (simp add: x)
  have "revenue_step d1 d'"
  proof (rule Cons.IH [OF _ _ rest])
    show "revenue_db_ok d1" using s1 by (simp add: revenue_step_def)
    show "fst ` set ks \<subseteq> set (match_notes d1)" using step_matches [OF s1] Cons.prems(2) by auto
  qed
  then show ?case using s1 revenue_step_trans by blast
qed (simp add: revenue_step_refl)

section \<open>Queues\<close>

text \<open>Runs, exceptions, the intake feed and the outbox are outside the invariant.\<close>

definition same_books :: "revenue_db \<Rightarrow> revenue_db \<Rightarrow> bool" where
  "same_books d d' \<longleftrightarrow> rd_notes d' = rd_notes d \<and> rd_transitions d' = rd_transitions d \<and>
     rd_note_lines d' = rd_note_lines d \<and> rd_tariff d' = rd_tariff d \<and> rd_matches d' = rd_matches d \<and>
     rd_settlements d' = rd_settlements d \<and> rd_statement_lines d' = rd_statement_lines d \<and>
     rd_rules d' = rd_rules d \<and> rd_advices d' = rd_advices d"

lemma same_books_refl [simp]: "same_books d d" by (simp add: same_books_def)

lemma same_books_trans: "same_books a b \<Longrightarrow> same_books b c \<Longrightarrow> same_books a c" by (simp add: same_books_def)

lemma same_books_step: "same_books d d' \<Longrightarrow> revenue_db_ok d \<Longrightarrow> revenue_step d d'"
  using records_step_same by (simp add: same_books_def)

lemma insert_event_books: "insert_revenue_event e n s t p d = Inr d' \<Longrightarrow> same_books d d'"
  by (auto simp: same_books_def dest!: insert_event_Inr)

lemma insert_run_books: "insert_recon_run e n t a d = Inr (run, d') \<Longrightarrow> same_books d d'"
  by (auto simp: same_books_def insert_recon_run_def stmt_Inr_iff split: if_splits)

lemma link_intakes_books: "link_intakes e ms d = Inr d' \<Longrightarrow> same_books d d'"
proof (induction ms arbitrary: d)
  case (Cons m ms)
  obtain d1 where d1: "link_intake e m d = Inr d1" "link_intakes e ms d1 = Inr d'"
    using Cons.prems by (auto simp: and_then_Inr_iff)
  have "same_books d d1" using d1(1) by (auto simp: same_books_def link_intake_def stmt_Inr_iff Let_def split: if_splits)
  then show ?case using Cons.IH [OF d1(2)] same_books_trans by blast
qed simp

lemma raise_exception_books:
  assumes "raise_exception e n run x d = Inr d'"
  shows "same_books d d'"
proof -
  obtain d1 d2 where "same_books d d1" "same_books d1 d2" "same_books d2 d'"
    using assms insert_event_books
    by (auto simp: raise_exception_def and_then_Inr_iff stmt_Inr_iff same_books_def split: if_splits dest!: insert_event_Inr)
  then show ?thesis using same_books_trans by blast
qed

lemma insert_exception_books: "insert_exception e n run x d = Inr d' \<Longrightarrow> same_books d d'"
  using raise_exception_books by (auto simp: insert_exception_def and_then_Inr_iff stmt_Inr_iff split: if_splits)

lemma insert_exceptions_books: "insert_exceptions e n run xs d = Inr d' \<Longrightarrow> same_books d d'"
proof (induction xs arbitrary: n d)
  case (Cons x xs)
  then show ?case using insert_exception_books same_books_trans by (auto simp: and_then_Inr_iff) metis
qed simp

lemma close_run_books: "close_run e run m x d = Inr d' \<Longrightarrow> same_books d d'"
  by (auto simp: same_books_def close_run_def stmt_Inr_iff)

section \<open>The run\<close>

lemma run_body_step:
  assumes ok: "revenue_db_ok d" and planned: "\<And>m. m \<in> set (rp_matches p) \<Longrightarrow> match_ok d m"
    and settled: "fst ` set (order (rp_settled p)) \<subseteq> md_note ` set (rp_matches p)"
    and body: "run_recon_body order e trigger actor p d = Inr (run, d')"
  shows "revenue_step d d'"
proof -
  obtain d1 d2 d3 n where a: "insert_recon_run e 0 trigger actor d = Inr (run, d1)"
    and b: "insert_matches e 1 run (rp_matches p) d1 = Inr d2" and c: "settle_notes e n (order (rp_settled p)) d2 = Inr d3"
    and f: "\<exists>d4 d5 d6. same_books d3 d4 \<and> same_books d4 d5 \<and> same_books d5 d6 \<and> same_books d6 d'"
    using body by (auto simp: run_recon_body_def and_then_Inr_iff Let_def stmt_Inr_iff split: prod.splits
        dest!: link_intakes_books insert_exceptions_books close_run_books insert_event_books) blast
  have s1: "revenue_step d d1" by (rule same_books_step [OF insert_run_books [OF a] ok])
  have m: "match_ok d1 x" if "x \<in> set (rp_matches p)" for x
    using match_ok_keeps [OF planned [OF that]] s1 by (simp add: revenue_step_def)
  have "revenue_step d1 d2 \<and> (\<forall>m \<in> set (rp_matches p). has_match d2 m)"
    using insert_matches_step [OF _ m b] s1 by (simp add: revenue_step_def)
  then have s2: "revenue_step d1 d2" "md_note ` set (rp_matches p) \<subseteq> set (match_notes d2)"
    using has_match_note by auto
  have s3: "revenue_step d2 d3"
    using settle_notes_step [OF _ _ c] s2 settled by (auto simp: revenue_step_def)
  have "same_books d3 d'" using f same_books_trans by blast
  then have "revenue_step d3 d'" using same_books_step s3 by (simp add: revenue_step_def)
  then show ?thesis using s1 s2(1) s3 revenue_step_trans by blast
qed

lemma run_recon_step:
  assumes "revenue_db_ok d" "revenue_env e" and order: "\<And>xs. set (order xs) \<subseteq> set xs"
  shows "revenue_step d (snd (run_recon order before e trigger actor as_of d))"
proof -
  have "revenue_step d (snd (run_tx e b c mk (run_recon_body order e trigger actor (plan_recon inp)) d))"
    if inp: "load_recon_input before e as_of d = Inr inp" for inp b c mk
  proof (rule revenue_tx [OF assms(1,2)])
    fix d1 a d2 assume s: "revenue_db_ok d1" "revenue_step d d1" "run_recon_body order e trigger actor (plan_recon inp) d1 = Inr (a, d2)"
    show "revenue_step d1 d2"
    proof (rule run_body_step [OF s(1) _ _ s(3)])
      show "match_ok d1 m" if "m \<in> set (rp_matches (plan_recon inp))" for m
        using match_ok_keeps [OF planned_match_ok [OF inp that]] s(2) by (simp add: revenue_step_def)
      show "fst ` set (order (rp_settled (plan_recon inp))) \<subseteq> md_note ` set (rp_matches (plan_recon inp))"
        using order [of "rp_settled (plan_recon inp)"] settled_is_planned [of _ _ inp] by force
    qed
  qed
  then have "revenue_step d d1" if "load_recon_input before e as_of d = Inr inp"
    "run_tx e b c mk (run_recon_body order e trigger actor (plan_recon inp)) d = (v, d1)" for inp b c mk v d1
    using that by (metis snd_conv)
  then show ?thesis
    using revenue_step_refl [OF assms(1)] by (auto simp: run_recon_def split: sum.splits prod.splits)
qed

lemma resolve_exception_step:
  assumes "revenue_db_ok d" "revenue_env e"
  shows "revenue_step d (snd (resolve_exception e k resolver note d))"
proof -
  have "revenue_step d (snd (run_tx e b c mk (resolve_exception_body e k resolver note) d))" for b c mk
  proof (rule revenue_tx [OF assms])
    fix d1 a d2 assume s: "revenue_db_ok d1" "resolve_exception_body e k resolver note d1 = Inr (a, d2)"
    have "same_books d1 d2"
      using s(2) by (auto simp: resolve_exception_body_def and_then_Inr_iff stmt_Inr_iff Let_def same_books_def
          split: if_splits dest!: insert_event_Inr)
    then show "revenue_step d1 d2" by (rule same_books_step [OF _ s(1)])
  qed
  then have "revenue_step d d1" if "run_tx e b c mk (resolve_exception_body e k resolver note) d = (v, d1)" for b c mk v d1
    using that by (metis snd_conv)
  then show ?thesis
    using revenue_step_refl [OF assms(1)] by (auto simp: resolve_exception_def split: sum.splits prod.splits)
qed

end
