(* ===== verification/Revenue_Split.thy ===== *)
theory Revenue_Split
  imports Revenue Tariff_Props
begin

text \<open>
  The split of a settled amount: the allocations add up to the amount, every leg but the first is its
  share rounded half up, and with at most three legs the split never fails. Beyond the range of
  \<open>int64\<close> products it misallocates.
\<close>

section \<open>Sums that wrap around\<close>

lemma sum_i64_sum: "sum_i64 xs = i64 (sum_list xs)"
proof -
  have "foldl (\<lambda>s x. i64 (s + x)) (i64 a) xs = i64 (a + sum_list xs)" for a
    by (induction xs arbitrary: a) (simp_all add: i64_add_left add.assoc)
  from this [of 0] show ?thesis by (simp add: sum_i64_def i64_def)
qed

section \<open>Shape of a split\<close>

lemma compute_split_Inr:
  assumes "compute_split amount rules as_of = Inr ls"
  obtains r rs where "sort_by leg_before (filter (rule_selected as_of) rules) = r # rs"
    and "i64 (sum_list (map sr_bps (r # rs))) = 10000"
    and "ls = (leg_of amount r)\<lparr>ac_minor := i64 (ac_minor (leg_of amount r)
               + (amount - sum_list (map ac_minor (map (leg_of amount) (r # rs)))))\<rparr> # map (leg_of amount) rs
             \<and> 0 \<le> ac_minor (hd ls)
         \<or> i64 (amount - sum_list (map ac_minor (map (leg_of amount) (r # rs)))) = 0 \<and> ls = map (leg_of amount) (r # rs)"
proof -
  let ?sel = "filter (rule_selected as_of) rules"
  have ne: "?sel \<noteq> []" using assms by (auto simp: compute_split_def)
  then obtain r rs where rs: "sort_by leg_before ?sel = r # rs"
    by (metis length_sort_by length_0_conv neq_Nil_conv)
  show ?thesis
    by (rule that [OF rs]) (use assms ne in \<open>auto simp: compute_split_def Let_def rs sum_i64_sum i64_diff_right
        i64_add_right split: if_splits\<close>)
qed

section \<open>Shares\<close>

definition share :: "int \<Rightarrow> int \<Rightarrow> int" where
  "share amount bps = (2 * (amount * bps) + 10000) div 20000"

definition split_fits :: "int \<Rightarrow> split_rule list \<Rightarrow> bool" where
  "split_fits amount rules \<longleftrightarrow> 0 \<le> amount \<and> amount * 20000 < 2 ^ 63 \<and> length rules < 2 ^ 40 \<and>
     (\<forall>r \<in> set rules. 0 < sr_bps r \<and> sr_bps r \<le> 10000)"

lemma share_bounds:
  "20000 * share a b \<le> 2 * (a * b) + 10000" "2 * (a * b) - 9999 \<le> 20000 * share a b"
proof -
  have x: "20000 * ((2 * x + 10000) div 20000) \<le> 2 * x + 10000 \<and> 2 * x - 9999 \<le> 20000 * ((2 * x + 10000) div 20000)"
    for x :: int
    using div_mult_mod_eq [of "2 * x + 10000" 20000] pos_mod_bound [of 20000 "2 * x + 10000"]
      pos_mod_sign [of 20000 "2 * x + 10000"] by linarith
  show "20000 * share a b \<le> 2 * (a * b) + 10000" "2 * (a * b) - 9999 \<le> 20000 * share a b"
    using x [of "a * b"] by (simp_all add: share_def)
qed

lemma share_nonneg: "0 \<le> a \<Longrightarrow> 0 < b \<Longrightarrow> 0 \<le> share a b"
  by (simp add: share_def pos_imp_zdiv_nonneg_iff)

lemma leg_share:
  assumes "0 \<le> a" "a * 20000 < 2 ^ 63" "0 < sr_bps r" "sr_bps r \<le> 10000"
  shows "ac_minor (leg_of a r) = share a (sr_bps r)"
proof -
  have "0 \<le> a * sr_bps r" "a * sr_bps r \<le> a * 10000"
    using assms by (simp_all add: mult_left_mono)
  then have b: "0 \<le> a * sr_bps r" "2 * (a * sr_bps r) < 2 ^ 63" using assms(2) by linarith+
  have "i64 (a * sr_bps r) = a * sr_bps r" by (rule i64_id) (use b in linarith)+
  moreover have "split_half_up = round_half_up" by (intro ext) (simp add: split_half_up_def round_half_up_def)
  ultimately show ?thesis
    using round_half_up_exact [OF b, of 10000] by (simp add: leg_of_def share_def)
qed

lemma shares_sum:
  "20000 * sum_list (map (\<lambda>r. share a (sr_bps r)) rs) \<le> 2 * a * sum_list (map sr_bps rs) + 10000 * int (length rs)"
  "2 * a * sum_list (map sr_bps rs) - 10000 * int (length rs) \<le> 20000 * sum_list (map (\<lambda>r. share a (sr_bps r)) rs)"
proof (induction rs)
  case (Cons r rs)
  {
    case 1
    show ?case using Cons.IH(1) share_bounds(1) [of a "sr_bps r"] by (simp add: algebra_simps)
  next
    case 2
    show ?case using Cons.IH(2) share_bounds(2) [of a "sr_bps r"] by (simp add: algebra_simps)
  }
qed simp_all

lemma bps_sum_small:
  assumes "\<forall>r \<in> set rs. 0 < sr_bps r \<and> sr_bps r \<le> 10000" "length rs < 2 ^ 40"
  shows "i64 (sum_list (map sr_bps rs)) = sum_list (map sr_bps rs)"
proof -
  have "0 \<le> sum_list (map sr_bps rs) \<and> sum_list (map sr_bps rs) \<le> 10000 * int (length rs)"
    using assms(1) by (induction rs) auto
  moreover have "int (length rs) < 2 ^ 40" using assms(2) by simp
  ultimately show ?thesis by (intro i64_id) simp_all
qed

lemma split_total:
  assumes "split_fits amount rules" "sort_by leg_before (filter (rule_selected as_of) rules) = r # rs"
    and "i64 (sum_list (map sr_bps (r # rs))) = 10000"
  shows "sum_list (map sr_bps (r # rs)) = 10000"
proof -
  have "set (r # rs) \<subseteq> set rules" using assms(2) by (metis filter_is_subset set_sort_by)
  moreover have "length (r # rs) < 2 ^ 40"
    using assms(1,2) by (metis split_fits_def length_filter_le le_less_trans length_sort_by)
  ultimately show ?thesis
    using bps_sum_small [of "r # rs"] assms(1,3) by (metis split_fits_def subsetD)
qed

text \<open>One split, under bounds that keep the products in range.\<close>

lemma split_legs:
  assumes fits: "split_fits amount rules"
    and rs: "sort_by leg_before (filter (rule_selected as_of) rules) = r # rs"
    and total: "sum_list (map sr_bps (r # rs)) = 10000"
  defines "first \<equiv> amount - sum_list (map ac_minor (map (leg_of amount) rs))"
    and "delta \<equiv> amount - sum_list (map ac_minor (map (leg_of amount) (r # rs)))"
  shows "first = ac_minor (leg_of amount r) + delta"
    and "i64 (ac_minor (leg_of amount r) + delta) = first" "i64 delta = delta"
    and "20000 * \<bar>first - share amount (sr_bps r)\<bar> \<le> 10000 * int (length (r # rs))"
    and "length (r # rs) \<le> 3 \<Longrightarrow> 0 \<le> first"
    and "\<forall>x \<in> set (r # rs). ac_minor (leg_of amount x) = share amount (sr_bps x) \<and> 0 < sr_bps x"
proof -
  have sub: "set (r # rs) \<subseteq> set rules" using rs by (metis filter_is_subset set_sort_by)
  have len: "length (r # rs) < 2 ^ 40"
    using fits rs by (metis split_fits_def length_filter_le le_less_trans length_sort_by)
  have a: "0 \<le> amount" "amount * 20000 < 2 ^ 63" using fits by (simp_all add: split_fits_def)
  show legs: "\<forall>x \<in> set (r # rs). ac_minor (leg_of amount x) = share amount (sr_bps x) \<and> 0 < sr_bps x"
    using leg_share a fits sub unfolding split_fits_def by (metis subsetD)
  then have m: "map ac_minor (map (leg_of amount) xs) = map (\<lambda>x. share amount (sr_bps x)) xs"
    if "set xs \<subseteq> set (r # rs)" for xs using that by auto
  let ?n = "int (length (r # rs))"
  have d: "delta = amount - sum_list (map (\<lambda>x. share amount (sr_bps x)) (r # rs))"
    unfolding delta_def using m [of "r # rs"] by (metis subset_refl)
  note S = shares_sum [of amount "r # rs", unfolded total]
  have D1: "20000 * delta \<le> 10000 * ?n" using S(2) d by linarith
  have D2: "- (10000 * ?n) \<le> 20000 * delta" using S(1) d by linarith
  note D = D1 D2
  show e: "first = ac_minor (leg_of amount r) + delta" by (simp add: first_def delta_def)
  have n: "0 \<le> ?n" "?n < 2 ^ 40" using len by (simp_all del: length_Cons)
  have s0: "0 \<le> share amount (sr_bps r)" "20000 * share amount (sr_bps r) \<le> 2 * (amount * sr_bps r) + 10000"
    using share_nonneg a legs share_bounds by simp_all
  have "sr_bps r \<le> 10000" using fits sub by (simp add: split_fits_def)
  then have "amount * sr_bps r \<le> amount * 10000" using a(1) by (rule mult_left_mono)
  moreover have P: "(2 :: int) ^ 63 = 9223372036854775808" "(2 :: int) ^ 50 = 1125899906842624" "(2 :: int) ^ 40 = 1099511627776"
    by simp_all
  ultimately have s1: "share amount (sr_bps r) < 2 ^ 50" using s0 a by linarith
  have A: "ac_minor (leg_of amount r) = share amount (sr_bps r)" using legs by simp
  show "i64 delta = delta" by (rule i64_id) (use D n P in linarith)+
  have "i64 (ac_minor (leg_of amount r) + delta) = ac_minor (leg_of amount r) + delta" by (rule i64_id) (use A D n s0(1) s1 P in linarith)+
  then show "i64 (ac_minor (leg_of amount r) + delta) = first" using e by metis
  show "20000 * \<bar>first - share amount (sr_bps r)\<bar> \<le> 10000 * ?n"
    using e A D by (simp add: abs_if del: length_Cons)
  show "0 \<le> first" if "length (r # rs) \<le> 3"
  proof (cases "amount = 0")
    case True
    have "map ac_minor (map (leg_of amount) rs) = map (\<lambda>x. 0) rs"
      using m [OF set_subset_Cons] True by (simp add: share_def)
    then have "sum_list (map ac_minor (map (leg_of amount) rs)) = 0" by (simp only: sum_list_0)
    then show ?thesis using True by (simp only: first_def)
  next
    case False
    have "20000 * sum_list (map (\<lambda>x. share amount (sr_bps x)) rs) \<le> 2 * amount * (10000 - sr_bps r) + 20000"
    proof -
      have "sum_list (map sr_bps rs) = 10000 - sr_bps r" "int (length rs) \<le> 2" using total that by simp_all
      then show ?thesis using shares_sum(1) [of amount rs] by simp
    qed
    moreover have "0 < amount * sr_bps r" using False a(1) legs by simp
    ultimately have "sum_list (map (\<lambda>x. share amount (sr_bps x)) rs) < amount + 1" by (simp add: algebra_simps)
    then show ?thesis unfolding first_def m [OF set_subset_Cons] by simp
  qed
qed

section \<open>The split of an amount\<close>

text \<open>One leg per rule in force, of its beneficiary and basis points.\<close>

lemma split_legs_of_rules:
  assumes "compute_split amount rules as_of = Inr ls"
  shows "mset (map (\<lambda>l. (ac_beneficiary l, ac_bps l)) ls) =
    mset (map (\<lambda>r. (sr_beneficiary r, sr_bps r)) (filter (rule_selected as_of) rules))"
proof -
  let ?f = "\<lambda>l. (ac_beneficiary l, ac_bps l)" and ?g = "\<lambda>r. (sr_beneficiary r, sr_bps r)"
  obtain r rs where rs: "sort_by leg_before (filter (rule_selected as_of) rules) = r # rs" and "map ?f ls = map ?g (r # rs)"
    by (rule compute_split_Inr [OF assms]) (auto simp: leg_of_def)
  then have "mset (map ?f ls) = image_mset ?g (mset (sort_by leg_before (filter (rule_selected as_of) rules)))"
    by (metis mset_map)
  then show ?thesis by simp
qed

lemma split_refusal: "compute_split amount rules as_of = Inl err \<Longrightarrow> err = Split_Incomplete"
proof -
  have "give_residual d as = Inl err \<Longrightarrow> err = Split_Incomplete" for d as
    by (cases as) (auto simp: Let_def split: if_splits)
  then show "compute_split amount rules as_of = Inl err \<Longrightarrow> err = Split_Incomplete"
    by (auto simp: compute_split_def Let_def split: if_splits)
qed

lemma split_needs_all_shares:
  assumes "split_fits amount rules" "compute_split amount rules as_of = Inr ls"
  shows "sum_list (map sr_bps (filter (rule_selected as_of) rules)) = 10000"
proof -
  obtain r rs where rs: "sort_by leg_before (filter (rule_selected as_of) rules) = r # rs"
    and bps: "i64 (sum_list (map sr_bps (r # rs))) = 10000" by (rule compute_split_Inr [OF assms(2)])
  have "mset (filter (rule_selected as_of) rules) = mset (r # rs)" using rs by (metis mset_sort_by)
  then have "sum_list (map sr_bps (filter (rule_selected as_of) rules)) = sum_list (map sr_bps (r # rs))"
    by (metis mset_map sum_mset_sum_list)
  then show ?thesis using split_total [OF assms(1) rs bps] by simp
qed

lemma split_adds:
  assumes "split_fits amount rules"
  shows "(\<forall>ls. compute_split amount rules as_of = Inr ls \<longrightarrow>
      sum_list (map ac_minor ls) = amount \<and> (\<forall>l \<in> set ls. 0 \<le> ac_minor l) \<and>
      (\<forall>l \<in> set (tl ls). ac_minor l = share amount (ac_bps l)) \<and>
      2 * \<bar>ac_minor (hd ls) - share amount (ac_bps (hd ls))\<bar> \<le> int (length ls)) \<and>
    (length (filter (rule_selected as_of) rules) \<le> 3 \<and>
       sum_list (map sr_bps (filter (rule_selected as_of) rules)) = 10000 \<longrightarrow>
       (\<exists>ls. compute_split amount rules as_of = Inr ls))"
proof (intro conjI allI impI)
  fix ls assume c: "compute_split amount rules as_of = Inr ls"
  from compute_split_Inr [OF c] obtain r rs
    where rs: "sort_by leg_before (filter (rule_selected as_of) rules) = r # rs"
      and bps: "i64 (sum_list (map sr_bps (r # rs))) = 10000"
      and ls: "ls = (leg_of amount r)\<lparr>ac_minor := i64 (ac_minor (leg_of amount r)
               + (amount - sum_list (map ac_minor (map (leg_of amount) (r # rs)))))\<rparr> # map (leg_of amount) rs
               \<and> 0 \<le> ac_minor (hd ls)
         \<or> i64 (amount - sum_list (map ac_minor (map (leg_of amount) (r # rs)))) = 0 \<and> ls = map (leg_of amount) (r # rs)"
    by blast
  note legs = split_legs [OF assms rs split_total [OF assms rs bps]]
  have "ls = (leg_of amount r)\<lparr>ac_minor := amount - sum_list (map ac_minor (map (leg_of amount) rs))\<rparr> # map (leg_of amount) rs
      \<and> 0 \<le> ac_minor (hd ls)"
    using ls legs(1,2,3,6) share_nonneg assms by (auto simp: split_fits_def simp del: length_Cons)
  then show "sum_list (map ac_minor ls) = amount" "\<forall>l \<in> set ls. 0 \<le> ac_minor l"
    "\<forall>l \<in> set (tl ls). ac_minor l = share amount (ac_bps l)"
    "2 * \<bar>ac_minor (hd ls) - share amount (ac_bps (hd ls))\<bar> \<le> int (length ls)"
    using legs(4,6) share_nonneg assms by (auto simp: split_fits_def leg_of_def)
next
  assume w: "length (filter (rule_selected as_of) rules) \<le> 3 \<and>
    sum_list (map sr_bps (filter (rule_selected as_of) rules)) = 10000"
  let ?sel = "filter (rule_selected as_of) rules"
  obtain r rs where rs: "sort_by leg_before ?sel = r # rs"
    using w by (cases "sort_by leg_before ?sel") (auto dest: arg_cong [where f = length])
  have t: "sum_list (map sr_bps (r # rs)) = 10000" and l: "length (r # rs) \<le> 3"
    using w rs by (metis mset_map mset_sort_by sum_mset_sum_list, metis length_sort_by)
  note legs = split_legs [OF assms rs t]
  show "\<exists>ls. compute_split amount rules as_of = Inr ls"
    using w rs t l legs(1-3,5)
    by (auto simp: compute_split_def Let_def sum_i64_sum i64_diff_right i64_add_right i64_id simp del: length_Cons)
qed

lemma rule_selected_iff:
  "rule_selected as_of r \<longleftrightarrow> sr_state r = ''ACTIVE'' \<and> gt_inst (sr_from r) \<le> gt_inst as_of \<and>
     (\<forall>t. sr_to r = Some t \<longrightarrow> gt_inst as_of \<le> gt_inst t)"
  by (auto simp: rule_selected_def split: option.split)

text \<open>C15 The split adds up. Take an amount that is not negative and whose product with twenty thousand fits an
  \<open>int64\<close>, and fewer than \<open>2 ^ 40\<close> rules of 1 to 10000 basis points each. When a split of it succeeds, the
  ACTIVE rules in force at the instant add up to 10000 basis points, each of them has one leg, the allocations add up to the
  amount, none is negative, every leg but the first is its share of the amount rounded half up, and the first, which
  takes the rounding difference, is within half a minor unit per leg of its share. A window that does not add up
  to 10000 basis points is refused; a window that does is certain to be split when it has at most three rules (four
  roundings can exceed the amount, and that split is refused).\<close>

theorem split_adds_up:
  assumes "0 \<le> amount" and "amount * 20000 < 2 ^ 63" and "length rules < 2 ^ 40"
    and "\<forall>r \<in> set rules. 0 < sr_bps r \<and> sr_bps r \<le> 10000"
  shows "let window = filter (\<lambda>r. sr_state r = ''ACTIVE'' \<and> gt_inst (sr_from r) \<le> gt_inst as_of \<and>
               (\<forall>t. sr_to r = Some t \<longrightarrow> gt_inst as_of \<le> gt_inst t)) rules;
             rounded = (\<lambda>bps. (2 * (amount * bps) + 10000) div 20000)
    in
    (\<forall>ls. compute_split amount rules as_of = Inr ls \<longrightarrow>
      sum_list (map sr_bps window) = 10000 \<and>
      mset (map (\<lambda>l. (ac_beneficiary l, ac_bps l)) ls) = mset (map (\<lambda>r. (sr_beneficiary r, sr_bps r)) window) \<and>
      sum_list (map ac_minor ls) = amount \<and> (\<forall>l \<in> set ls. 0 \<le> ac_minor l) \<and>
      (\<forall>l \<in> set (tl ls). ac_minor l = rounded (ac_bps l)) \<and>
      2 * \<bar>ac_minor (hd ls) - rounded (ac_bps (hd ls))\<bar> \<le> int (length ls)) \<and>
    (sum_list (map sr_bps window) \<noteq> 10000 \<longrightarrow> compute_split amount rules as_of = Inl Split_Incomplete) \<and>
    (length window \<le> 3 \<and> sum_list (map sr_bps window) = 10000 \<longrightarrow> (\<exists>ls. compute_split amount rules as_of = Inr ls))"
proof -
  let ?w = "filter (rule_selected as_of) rules"
  have fits: "split_fits amount rules" using assms by (simp add: split_fits_def)
  have refused: "compute_split amount rules as_of = Inl Split_Incomplete" if "sum_list (map sr_bps ?w) \<noteq> 10000"
    using that split_needs_all_shares [OF fits] split_refusal by (metis sum.exhaust)
  have succeeded: "sum_list (map sr_bps ?w) = 10000 \<and>
      mset (map (\<lambda>l. (ac_beneficiary l, ac_bps l)) ls) = mset (map (\<lambda>r. (sr_beneficiary r, sr_bps r)) ?w)"
    if "compute_split amount rules as_of = Inr ls" for ls
    using split_needs_all_shares [OF fits that] split_legs_of_rules [OF that] by simp
  note s = split_adds [OF fits, of as_of, unfolded share_def]
  show ?thesis
    unfolding Let_def rule_selected_iff [symmetric] using s refused succeeded by blast
qed

definition demo_rule :: "string \<Rightarrow> int \<Rightarrow> split_rule" where
  "demo_rule b bps = \<lparr>sr_id = b, sr_line = ''NPA_SHIP_DUES'', sr_agency = ''NPA'', sr_beneficiary = b, sr_bps = bps,
     sr_reference = ''TSA circular'', sr_provisional = True, sr_from = utc_date 13514, sr_to = None,
     sr_state = ''ACTIVE'', sr_maker = ''seed-revenue'', sr_checker = ''seed-revenue-review''\<rparr>"

definition demo_rules :: "split_rule list" where
  "demo_rules = [demo_rule ''FGN_CONSOLIDATED'' 3000, demo_rule ''AGENCY_RETAINED'' 7000]"

theorem split_adds_up_witness:
  "\<exists>ls. compute_split 5 demo_rules (utc_date 20513) = Inr ls \<and> map ac_minor ls = [3, 2] \<and> sum_list (map ac_minor ls) = 5"
proof -
  have "0 \<le> (5 :: int)" "(5 :: int) * 20000 < 2 ^ 63" "length demo_rules < 2 ^ 40"
    "\<forall>r \<in> set demo_rules. 0 < sr_bps r \<and> sr_bps r \<le> 10000"
    by (simp_all add: demo_rules_def demo_rule_def)
  note * = split_adds_up [OF this, of "utc_date 20513", folded rule_selected_iff, unfolded Let_def]
  have sel: "filter (rule_selected (utc_date 20513)) demo_rules = demo_rules"
    by (simp add: demo_rules_def demo_rule_def rule_selected_def utc_date_def day_ns_def)
  then obtain ls where ls: "compute_split 5 demo_rules (utc_date 20513) = Inr ls"
    using * by (auto simp: demo_rules_def demo_rule_def)
  moreover have "map_sum (\<lambda>_. ()) (map ac_minor) (compute_split 5 demo_rules (utc_date 20513)) = Inr [3, 2]"
    by code_simp
  ultimately show ?thesis using * by simp
qed

text \<open>Beyond that range a leg gets nothing, and four equal legs cannot split two minor units.\<close>

lemma overflowing_split_starves_a_leg:
  "map_sum (\<lambda>_. ()) (map (\<lambda>l. (ac_beneficiary l, ac_minor l)))
     (compute_split 3100000000000000 demo_rules (utc_date 20513)) =
   Inr [(''AGENCY_RETAINED'', 3100000000000000), (''FGN_CONSOLIDATED'', 0)]"
  by code_simp

lemma four_legs_cannot_split_two:
  "compute_split 2 [demo_rule ''A'' 2500, demo_rule ''B'' 2500, demo_rule ''C'' 2500, demo_rule ''D'' 2500]
     (utc_date 20513) = Inl Split_Incomplete"
  by code_simp

end
