(* ===== verification/Revenue_Records_Inv.thy ===== *)
theory Revenue_Records_Inv
  imports Revenue_Batch_Inv Revenue_Split
begin

text \<open>
  The calls on settlements, bank statements, split rules and remittance advices keep the invariant, and
  with them every call of the service does.
\<close>

section \<open>Split rules\<close>

lemma rules_step:
  assumes ok: "revenue_db_ok d"
    and same: "rd_notes d' = rd_notes d" "rd_transitions d' = rd_transitions d" "rd_note_lines d' = rd_note_lines d"
      "rd_tariff d' = rd_tariff d" "rd_matches d' = rd_matches d" "rd_settlements d' = rd_settlements d"
      "rd_statement_lines d' = rd_statement_lines d" "rd_advices d' = rd_advices d" and rules: "rules_ok d'"
  shows "revenue_step d d'"
proof (rule records_step [OF ok same(1-5) _ _ rules])
  show "keeps_records d d'" by (simp add: keeps_records_def same)
  show "settlements_ok d'" "advices_ok d'"
    using ok by (simp_all add: revenue_db_ok_def settlements_ok_def advices_ok_def advice_ok_def same)
qed

lemma create_rule_step:
  assumes "revenue_db_ok d" "create_rule_body e r d = Inr (u, d')" "pr_state r = ''DRAFT''" "pr_checker r = None"
  shows "revenue_step d d'"
proof -
  obtain ev where d': "d' = d\<lparr>rd_rules := rd_rules d @ [r], rd_outbox := rd_outbox d @ [ev]\<rparr>"
    "pr_id r \<notin> set (map pr_id (rd_rules d))" "rule_checks r"
    using assms(2) by (auto simp: create_rule_body_def and_then_Inr_iff stmt_Inr_iff split: if_splits dest!: insert_event_Inr)
  show ?thesis
  proof (rule rules_step [OF assms(1)])
    show "rules_ok d'" using assms(1,3,4) d'(2,3) by (auto simp: revenue_ok_defs d'(1) controlled_def)
  qed (simp_all add: d'(1))
qed

lemma activate_rule_step:
  assumes "revenue_db_ok d" "activate_rule_body e k checker d = Inr (u, d')" "checker \<noteq> []"
  shows "revenue_step d d'"
proof -
  let ?hit = "\<lambda>r. pr_id r = k \<and> pr_state r = ''DRAFT'' \<and> pr_maker r \<noteq> checker"
  let ?upd = "\<lambda>r. r\<lparr>pr_state := ''ACTIVE'', pr_checker := Some checker\<rparr>"
  obtain ev r where d': "d' = d\<lparr>rd_rules := sql_update ?hit ?upd (rd_rules d), rd_outbox := rd_outbox d @ [ev]\<rparr>"
    and r: "sql_row ?hit (rd_rules d) = Some r" "rule_checks (?upd r)"
    using assms(2) by (auto simp: activate_rule_body_def and_then_Inr_iff stmt_Inr_iff Let_def split: option.splits if_splits
        dest!: insert_event_Inr)
  have dist: "distinct (map pr_id (rd_rules d))" using assms(1) by (simp add: revenue_ok_defs)
  show ?thesis
  proof (rule rules_step [OF assms(1)])
    have "rule_checks y \<and> controlled (pr_state y) (pr_maker y) (pr_checker y)"
      if y: "y \<in> set (sql_update ?hit ?upd (rd_rules d))" for y
    proof -
      consider x where "x \<in> set (rd_rules d)" "?hit x" "y = ?upd x" | "y \<in> set (rd_rules d)"
        using y unfolding set_sql_update by blast
      then show ?thesis
      proof cases
        case 1
        have "r \<in> set (rd_rules d)" "?hit r" using sql_row_Some [OF r(1)] by simp_all
        then have "x = r" using distinct_key_unique [OF dist 1(1)] 1(2) by simp
        then show ?thesis using r(2) 1 assms(3) by (auto simp: controlled_def)
      next
        case 2
        then show ?thesis using assms(1) by (simp add: revenue_ok_defs)
      qed
    qed
    moreover have "map pr_id (sql_update ?hit ?upd (rd_rules d)) = map pr_id (rd_rules d)" by simp
    ultimately show "rules_ok d'" using dist unfolding rules_ok_def d' by simp
  qed (simp_all add: d')
qed

lemma create_split_rule_step:
  assumes "revenue_db_ok d" "revenue_env e"
  shows "revenue_step d (snd (create_split_rule e i maker d))"
proof -
  have "revenue_step d (snd (run_tx e b c mk (create_rule_body e (rule_of k i maker)) d))" for b c mk k
  proof (rule revenue_tx [OF assms])
    show "revenue_step d1 d2" if "revenue_db_ok d1" "create_rule_body e (rule_of k i maker) d1 = Inr (a, d2)" for d1 a d2
      using create_rule_step [OF that] by (simp add: rule_of_def)
  qed
  then show ?thesis using revenue_step_refl [OF assms(1)] by (auto simp: create_split_rule_def split: option.splits)
qed

lemma activate_split_rule_step:
  assumes "revenue_db_ok d" "revenue_env e"
  shows "revenue_step d (snd (activate_split_rule e k checker d))"
proof -
  have "revenue_step d (snd (run_tx e b c mk (activate_rule_body e k checker) d))" if "checker \<noteq> []" for b c mk
    by (rule revenue_tx [OF assms]) (rule activate_rule_step [OF _ _ that])
  then have "revenue_step d d1" if "run_tx e b c mk (activate_rule_body e k checker) d = (v, d1)" "checker \<noteq> []" for b c mk v d1
    using that by (metis snd_conv)
  then show ?thesis
    using revenue_step_refl [OF assms(1)] by (auto simp: activate_split_rule_def split: sum.splits prod.splits)
qed

section \<open>Advices\<close>

lemma split_balances:
  assumes "compute_split amount rules as_of = Inr ls"
  shows "i64 (sum_list (map ac_minor ls)) = i64 amount" "sum_i64 (map ac_bps ls) = 10000"
proof -
  obtain r rs where total: "i64 (sum_list (map sr_bps (r # rs))) = 10000"
    and ls: "ls = (leg_of amount r)\<lparr>ac_minor := i64 (ac_minor (leg_of amount r)
               + (amount - sum_list (map ac_minor (map (leg_of amount) (r # rs)))))\<rparr> # map (leg_of amount) rs
         \<or> i64 (amount - sum_list (map ac_minor (map (leg_of amount) (r # rs)))) = 0 \<and> ls = map (leg_of amount) (r # rs)"
    using compute_split_Inr [OF assms] by metis
  have bps: "map ac_bps (map (leg_of amount) rs) = map sr_bps rs" "ac_bps (leg_of amount r) = sr_bps r" for rs r
    by (simp_all add: leg_of_def)
  show "sum_i64 (map ac_bps ls) = 10000" using ls total bps by (auto simp: sum_i64_sum comp_def leg_of_def)
  have "i64 (sum_list (map ac_minor (map (leg_of amount) (r # rs)))) = i64 amount"
    if "i64 (amount - sum_list (map ac_minor (map (leg_of amount) (r # rs)))) = 0"
    using i64_add_left [of "amount - sum_list (map ac_minor (map (leg_of amount) (r # rs)))"
        "sum_list (map ac_minor (map (leg_of amount) (r # rs)))"] that by simp
  moreover have "i64 (i64 (x + (amount - (x + t))) + t) = i64 amount" for x t
    by (simp add: i64_add_left)
  ultimately show "i64 (sum_list (map ac_minor ls)) = i64 amount" using ls by auto
qed

lemma advice_body_step:
  assumes ok: "revenue_db_ok d" and v: "advice_ok d v" and body: "advice_body e v actor d = Inr (u, d')"
  shows "revenue_step d d'"
proof -
  obtain ev where d': "d' = d\<lparr>rd_advices := rd_advices d @ [v], rd_outbox := rd_outbox d @ [ev]\<rparr>"
    and new: "ad_id (vw_advice v) \<notin> set (map (ad_id \<circ> vw_advice) (rd_advices d))" "vw_key v \<notin> set (map vw_key (rd_advices d))"
    using body by (auto simp: advice_body_def and_then_Inr_iff stmt_Inr_iff Let_def split: if_splits dest!: insert_event_Inr)
  have k: "keeps_records d d'" by (auto simp: keeps_records_def d')
  show ?thesis
  proof (rule records_step [OF ok _ _ _ _ _ k])
    show "settlements_ok d'" "rules_ok d'" using ok by (simp_all add: revenue_db_ok_def settlements_ok_def rules_ok_def d')
    have "\<forall>x \<in> set (rd_advices d'). advice_ok d' x"
      using ok v advice_ok_keeps [OF _ k] by (auto simp: revenue_ok_defs d')
    moreover have "distinct (map (ad_id \<circ> vw_advice) (rd_advices d'))" "distinct (map vw_key (rd_advices d'))"
      using ok new by (simp_all add: revenue_ok_defs d')
    ultimately show "advices_ok d'" by (simp add: advices_ok_def)
  qed (simp_all add: d')
qed

lemma issue_advice_step:
  assumes "revenue_db_ok d" "revenue_env e"
  shows "revenue_step d (snd (issue_advice digest before e k line as_of key actor correlation d))"
proof -
  have persist: "revenue_step d (snd (persist_advice e v actor d))" if "advice_ok d v" for v
  proof -
    have "revenue_step d (snd (run_tx e b c Revenue_Database (advice_body e v actor) d))" for b c
    proof (rule revenue_tx [OF assms])
      fix a d1 d2 assume s: "revenue_db_ok d1" "revenue_step d d1" "advice_body e v actor d1 = Inr (a, d2)"
      have "advice_ok d1 v" by (rule advice_ok_keeps [OF that]) (use s(2) in \<open>simp add: revenue_step_def\<close>)
      then show "revenue_step d1 d2" using advice_body_step s by blast
    qed
    then have "revenue_step d d1" if "run_tx e b c Revenue_Database (advice_body e v actor) d = (w, d1)" for b c w d1
      using that by (metis snd_conv)
    then show ?thesis by (auto simp: persist_advice_def split: sum.splits prod.splits)
  qed
  have good: "advice_ok d v"
    if s: "get_settlement e k d = Inr s" and c: "compute_split_at before e line (st_amount s) (st_currency s) as_of d = Inr c"
      and v: "vw_envelope v = (vw_advice v)\<lparr>ad_created := 0\<rparr>" "ad_settlement (vw_advice v) = k"
        "ad_amount (vw_advice v) = st_amount s" "ad_currency (vw_advice v) = st_currency s"
        "ad_allocations (vw_advice v) = sc_allocations c" for s c v
  proof -
    obtain rules where rules: "compute_split (st_amount s) rules as_of = Inr (sc_allocations c)" and pos: "0 < st_amount s"
      using c by (auto simp: compute_split_at_def and_then_Inr_iff split: if_splits)
    have "s \<in> set (map sw_row (rd_settlements d))" "st_id s = k"
      using s by (auto simp: get_settlement_def stmt_Inr_iff dest!: sql_row_Some split: option.splits)
    then show ?thesis
      unfolding advice_ok_def v using split_balances [OF rules] pos v(1) by auto
  qed
  show ?thesis
    unfolding issue_advice_def Let_def
    by (auto simp: revenue_step_refl [OF assms(1)] split: option.splits sum.splits intro!: persist good)
qed

section \<open>Settlements\<close>

lemma new_settlement_step:
  assumes ok: "revenue_db_ok d" and d': "d' = d\<lparr>rd_settlements := rd_settlements d @ [r], rd_outbox := evs, rd_cursors := cs\<rparr>"
    and r: "0 < st_amount (sw_row r)" "st_id (sw_row r) \<notin> set (map (st_id \<circ> sw_row) (rd_settlements d))"
      "sw_key r \<notin> set (map sw_key (rd_settlements d))" "\<not> transfer_taken d (st_transfer (sw_row r))"
  shows "revenue_step d d'"
proof -
  have k: "keeps_records d d'" by (auto simp: keeps_records_def d')
  show ?thesis
  proof (rule records_step [OF ok _ _ _ _ _ k])
    show "rules_ok d'" using ok by (simp add: revenue_db_ok_def rules_ok_def d')
    show "advices_ok d'" using ok advice_ok_keeps [OF _ k] by (simp add: revenue_ok_defs d')
    show "settlements_ok d'" using ok r by (auto simp: revenue_ok_defs d' transfer_taken_def)
  qed (simp_all add: d')
qed

lemma record_settlement_body_step:
  assumes "revenue_db_ok d" "record_settlement_body e r actor d = Inr (u, d')"
  shows "revenue_step d d'"
proof -
  obtain ev where "d' = d\<lparr>rd_settlements := rd_settlements d @ [r], rd_outbox := rd_outbox d @ [ev], rd_cursors := rd_cursors d\<rparr>"
    "settlement_checks (sw_row r)" "st_id (sw_row r) \<notin> set (map (st_id \<circ> sw_row) (rd_settlements d))"
      "sw_key r \<notin> set (map sw_key (rd_settlements d))" "\<not> transfer_taken d (st_transfer (sw_row r))"
    using assms(2) by (auto simp: record_settlement_body_def and_then_Inr_iff stmt_Inr_iff Let_def split: if_splits
        dest!: insert_event_Inr)
  then show ?thesis using new_settlement_step [OF assms(1)] unfolding settlement_checks_def by blast
qed

lemma record_settlement_step:
  assumes "revenue_db_ok d" "revenue_env e"
  shows "revenue_step d (snd (record_settlement digest e i key actor d))"
proof -
  have "revenue_step d (snd (run_tx e b c mk (record_settlement_body e r actor) d))" for b c mk r
    by (rule revenue_tx [OF assms]) (rule record_settlement_body_step)
  then have "revenue_step d d1" if "run_tx e b c mk (record_settlement_body e r actor) d = (v, d1)" for b c mk r v d1
    using that by (metis snd_conv)
  then show ?thesis
    using revenue_step_refl [OF assms(1)]
    by (auto simp: record_settlement_def Let_def split: sum.splits prod.splits option.splits)
qed

lemma mirror_body_Inr:
  assumes "mirror_body e r sync_key observed d = Inr (created, d')"
  obtains evs cs where "created" "d' = d\<lparr>rd_settlements := rd_settlements d @ [r], rd_outbox := evs, rd_cursors := cs\<rparr>"
      "settlement_checks (sw_row r)" "st_id (sw_row r) \<notin> set (map (st_id \<circ> sw_row) (rd_settlements d))"
      "sw_key r \<notin> set (map sw_key (rd_settlements d))" "\<not> transfer_taken d (st_transfer (sw_row r))"
    | cs where "\<not> created" "d' = d\<lparr>rd_cursors := cs\<rparr>" "transfer_taken d (st_transfer (sw_row r))"
proof -
  let ?first = "(if \<not> settlement_checks (sw_row r) then Inl (Revenue_Database ''mirror settlement'')
            else if transfer_taken d (st_transfer (sw_row r)) then Inr (False, d)
            else if st_id (sw_row r) \<in> set (map (st_id \<circ> sw_row) (rd_settlements d)) \<or> sw_key r \<in> set (map sw_key (rd_settlements d))
            then Inl (Revenue_Database ''mirror settlement'')
            else Inr (True, d\<lparr>rd_settlements := rd_settlements d @ [r]\<rparr>))"
  obtain d1 d2 cs where first: "?first = Inr (created, d1)" and d': "d' = d2\<lparr>rd_cursors := cs\<rparr>"
    and second: "created \<and> (\<exists>n s t p. insert_revenue_event e n s t p d1 = Inr d2) \<or> \<not> created \<and> d2 = d1"
  proof -
    obtain c1 d1 where one: "?first = Inr (c1, d1)" and rest: "and_then (if c1 then insert_revenue_event e 1 (st_id (sw_row r)) ''revenue.settlement.recorded''
             [(''settlementId'', J_Text (st_id (sw_row r))), (''bankReference'', J_Text (st_bank_ref (sw_row r))),
              (''tbTransferId'', J_Text (st_transfer (sw_row r))), (''amountMinor'', J_Int (st_amount (sw_row r))),
              (''currency'', J_Text (st_currency (sw_row r))), (''actor'', J_Text ''tb-sync'')] d1
           else Inr d1) (\<lambda>d2.
         and_then (stmt e ''advance sync cursor'' Revenue_Database
           (case bump_cursor sync_key observed (rd_cursors d2) of
              None \<Rightarrow> Inl (Revenue_Database ''advance sync cursor'')
            | Some cs \<Rightarrow> Inr (d2\<lparr>rd_cursors := cs\<rparr>))) (\<lambda>d3. Inr (c1, d3))) = Inr (created, d')"
      using assms unfolding mirror_body_def Let_def and_then_Inr_iff [of "stmt _ ''mirror settlement'' _ _"]
      by (simp only: split_paired_Ex case_prod_conv stmt_Inr_iff) blast
    show ?thesis
      using that [of d1] rest one
      by (cases c1) (auto simp: and_then_Inr_iff stmt_Inr_iff split: option.splits, blast)
  qed
  show ?thesis
  proof (cases created)
    case True
    then show ?thesis using that(1) first second d' by (auto split: if_splits dest!: insert_event_Inr)
  next
    case False
    then show ?thesis using that(2) first second d' by (simp split: if_splits)
  qed
qed

lemma mirror_body_step:
  assumes "revenue_db_ok d" "mirror_body e r sync_key observed d = Inr (created, d')"
  shows "revenue_step d d'"
proof (rule mirror_body_Inr [OF assms(2)])
  fix evs cs assume new: "d' = d\<lparr>rd_settlements := rd_settlements d @ [r], rd_outbox := evs, rd_cursors := cs\<rparr>"
    "settlement_checks (sw_row r)" "st_id (sw_row r) \<notin> set (map (st_id \<circ> sw_row) (rd_settlements d))"
    "sw_key r \<notin> set (map sw_key (rd_settlements d))" "\<not> transfer_taken d (st_transfer (sw_row r))"
  have "0 < st_amount (sw_row r)" using new(2) by (simp add: settlement_checks_def)
  then show ?thesis by (rule new_settlement_step [OF assms(1) new(1) _ new(3-5)])
next
  fix cs assume "d' = d\<lparr>rd_cursors := cs\<rparr>"
  then show ?thesis using same_books_step [OF _ assms(1)] by (simp add: same_books_def)
qed

lemma record_tb_settlement_step:
  assumes "revenue_db_ok d" "revenue_env e"
  shows "revenue_step d (snd (record_tb_settlement digest e i sync_key observed d))"
proof -
  have "revenue_step d (snd (run_tx e b c mk (mirror_body e r sync_key observed) d))" for b c mk r
    by (rule revenue_tx [OF assms]) (rule mirror_body_step)
  then show ?thesis
    using revenue_step_refl [OF assms(1)] by (auto simp: record_tb_settlement_def split: option.splits)
qed

lemma advance_cursor_step:
  assumes "revenue_db_ok d" "revenue_env e"
  shows "revenue_step d (snd (advance_sync_cursor e sync_key observed d))"
proof -
  have "revenue_step d (snd (run_tx e b c mk (\<lambda>d. case bump_cursor sync_key observed (rd_cursors d) of
      None \<Rightarrow> Inl err | Some cs \<Rightarrow> Inr ((), d\<lparr>rd_cursors := cs\<rparr>)) d))" for b c mk err
  proof (rule revenue_tx [OF assms])
    show "revenue_step d1 d2" if "revenue_db_ok d1" "(case bump_cursor sync_key observed (rd_cursors d1) of
        None \<Rightarrow> Inl err | Some cs \<Rightarrow> Inr ((), d1\<lparr>rd_cursors := cs\<rparr>)) = Inr (a, d2)" for d1 a d2
      using same_books_step [OF _ that(1)] that(2) by (auto simp: same_books_def split: option.splits)
  qed
  from this [of _ _ _ "Revenue_Database ''advance sync cursor''"] show ?thesis
    using revenue_step_refl [OF assms(1)] unfolding advance_sync_cursor_def by (cases "sync_key = []") auto
qed

section \<open>Statements\<close>

lemma new_line_step:
  assumes ok: "revenue_db_ok d" and d': "d' = d\<lparr>rd_statement_lines := rd_statement_lines d @ [l]\<rparr>"
    and l: "(bw_statement l, bw_no l) \<notin> set (map (\<lambda>x. (bw_statement x, bw_no x)) (rd_statement_lines d))"
      "\<forall>x \<in> set (rd_statement_lines d). \<not> (bw_bank x = bw_bank l \<and> bl_reference (bw_line x) = bl_reference (bw_line l))"
  shows "revenue_step d d'"
proof -
  have k: "keeps_records d d'" by (auto simp: keeps_records_def d')
  show ?thesis
  proof (rule records_step [OF ok _ _ _ _ _ k])
    show "rules_ok d'" using ok by (simp add: revenue_db_ok_def rules_ok_def d')
    show "advices_ok d'" using ok advice_ok_keeps [OF _ k] by (simp add: revenue_ok_defs d')
    show "settlements_ok d'" using ok l by (auto simp: revenue_ok_defs d')
  qed (simp_all add: d')
qed

lemma insert_bank_lines_step:
  assumes "revenue_db_ok d" "insert_bank_lines e statement bank index ls acc d = Inr (acc', d')"
  shows "revenue_step d d'"
  using assms
proof (induction ls arbitrary: index acc d)
  case (Cons l ls)
  obtain deduped conflicts where acc: "acc = (deduped, conflicts)" by fastforce
  let ?old = "sql_row (\<lambda>x. bw_bank x = bank \<and> bl_reference (bw_line x) = bl_reference l) (rd_statement_lines d)"
  let ?d1 = "d\<lparr>rd_statement_lines := rd_statement_lines d @ [\<lparr>bw_statement = statement, bw_no = Suc index, bw_bank = bank, bw_line = l\<rparr>]\<rparr>"
  consider acc1 where "insert_bank_lines e statement bank (Suc index) ls acc1 d = Inr (acc', d')"
    | d1 where "d1 = ?d1"
      "(statement, Suc index) \<notin> set (map (\<lambda>x. (bw_statement x, bw_no x)) (rd_statement_lines d))"
      "\<forall>x \<in> set (rd_statement_lines d). \<not> (bw_bank x = bank \<and> bl_reference (bw_line x) = bl_reference l)"
      "insert_bank_lines e statement bank (Suc index) ls acc d1 = Inr (acc', d')"
  proof (cases ?old)
    case (Some x)
    then show ?thesis
      using that(1) Cons.prems(2) unfolding acc by (auto simp: and_then_Inr_iff stmt_Inr_iff split: if_splits)
  next
    case None
    then have "\<forall>x \<in> set (rd_statement_lines d). \<not> (bw_bank x = bank \<and> bl_reference (bw_line x) = bl_reference l)"
      unfolding sql_row_None .
    moreover have "(statement, Suc index) \<notin> set (map (\<lambda>x. (bw_statement x, bw_no x)) (rd_statement_lines d)) \<and>
        insert_bank_lines e statement bank (Suc index) ls acc ?d1 = Inr (acc', d')"
      using Cons.prems(2) None unfolding acc by (simp add: and_then_Inr_iff stmt_Inr_iff split: if_splits)
    ultimately show ?thesis using that(2) by blast
  qed
  then show ?case
  proof cases
    case 1
    then show ?thesis using Cons.IH [OF Cons.prems(1)] by blast
  next
    case 2
    have s1: "revenue_step d d1" by (rule new_line_step [OF Cons.prems(1) 2(1)]) (use 2(2,3) in simp_all)
    then have "revenue_step d1 d'" using Cons.IH [OF _ 2(4)] by (simp add: revenue_step_def)
    then show ?thesis using s1 revenue_step_trans by blast
  qed
qed (simp add: revenue_step_refl)

lemma raise_conflicts_books:
  assumes "raise_conflicts e by xs d = Inr d'"
  shows "same_books d d'"
proof (cases "xs = []")
  case False
  then obtain run d1 d2 where "insert_recon_run e 1 ''MANUAL'' by d = Inr (run, d1)" "insert_exceptions e 2 run xs d1 = Inr d2"
    "close_run e run 0 (length xs) d2 = Inr d'"
    using assms by (auto simp: raise_conflicts_def and_then_Inr_iff split: prod.splits)
  then have "same_books d d1" "same_books d1 d2" "same_books d2 d'"
    by (blast dest: insert_run_books insert_exceptions_books close_run_books)+
  then show ?thesis using same_books_trans by blast
qed (use assms in \<open>simp add: raise_conflicts_def\<close>)

lemma ingest_body_step:
  assumes ok: "revenue_db_ok d" and body: "ingest_body e r d = Inr (n, d')"
  shows "revenue_step d d'"
proof -
  obtain d1 acc d2 d3 d4 where a: "insert_statement e r d = Inr d1"
    and b: "insert_bank_lines e (bs_id r) (sq_bank (bs_request r)) 0 (sq_lines (bs_request r)) (0, []) d1 = Inr (acc, d2)"
    and c: "same_books d2 d3" "same_books d3 d'"
    using body by (auto simp: ingest_body_def and_then_Inr_iff Let_def split: prod.splits
        dest!: raise_conflicts_books insert_event_books)
  have "same_books d d1" using a by (auto simp: insert_statement_def stmt_Inr_iff same_books_def split: if_splits)
  then have s1: "revenue_step d d1" using same_books_step ok by blast
  then have s2: "revenue_step d1 d2" using insert_bank_lines_step [OF _ b] by (simp add: revenue_step_def)
  have "revenue_step d2 d'" using same_books_step [OF same_books_trans [OF c]] s2 by (simp add: revenue_step_def)
  then show ?thesis using s1 s2 revenue_step_trans by blast
qed

lemma ingest_statement_step:
  assumes "revenue_db_ok d" "revenue_env e"
  shows "revenue_step d (snd (ingest_statement verify decode e bundle by d))"
proof -
  have "revenue_step d (snd (run_tx e b c mk (ingest_body e r) d))" for b c mk r
    by (rule revenue_tx [OF assms]) (rule ingest_body_step)
  then have run: "revenue_step d (snd (case run_tx e b c mk (ingest_body e r) d of
      (Inr n, d') \<Rightarrow> (Inr (f n), d') | (Inl err, d') \<Rightarrow> if err = Revenue_Duplicate then (Inr x, d') else (Inl err, d')))"
    for b c mk r f x by (auto split: prod.split sum.split) (metis snd_conv)+
  show ?thesis
    by (simp add: ingest_statement_def Let_def revenue_step_refl [OF assms(1)] split: sum.split option.split)
      (intro allI impI, rule run)
qed

end
