(* ===== verification/Revenue_Calls.thy ===== *)
theory Revenue_Calls
  imports Revenue_Records_Inv
begin

text \<open>
  The calls of the revenue service on one database, beside those of the tariff service and of the intake
  feed, and the databases they can reach.
\<close>

section \<open>Calls\<close>

text \<open>The hashes, the orders of texts, the verification and the decoding a deployment works with.\<close>

record revenue_site =
  ws_assess :: "assess_request \<Rightarrow> string"
  ws_before :: "string \<Rightarrow> string \<Rightarrow> bool"
  ws_note :: "string \<times> string \<times> string \<Rightarrow> string"
  ws_advice :: "string \<times> string \<times> string \<Rightarrow> string"
  ws_settlement :: "settlement_input \<Rightarrow> string"
  ws_mirror :: "mirror_input \<Rightarrow> string"
  ws_verify :: "string \<Rightarrow> string + verified_envelope"
  ws_decode :: "string \<Rightarrow> statement_request option"

datatype revenue_call =
  Draft_Note issue_request string string string gtime
| Issue_Note string string int
| Move_Note string string string string
| Make_Rule split_input string
| Open_Rule string string
| Advise string string gtime string string string
| Record_Settlement settlement_input string string
| Ingest_Statement string string
| Mirror_Transfer mirror_input string u64
| Advance_Cursor string u64
| Run_Recon "(string \<times> string) list \<Rightarrow> (string \<times> string) list" string string gtime
| Close_Exception string string string

definition run_revenue_call :: "revenue_site \<Rightarrow> revenue_db env \<Rightarrow> revenue_call \<Rightarrow> revenue_db \<Rightarrow> revenue_db" where
  "run_revenue_call w e c d =
     (case c of
        Draft_Note rq key maker correlation now \<Rightarrow> snd (create_debit_note (ws_note w) e rq key maker correlation now d)
      | Issue_Note k issuer year \<Rightarrow> snd (issue e k issuer year d)
      | Move_Note k until reason actor \<Rightarrow> snd (transition_note e k until reason actor d)
      | Make_Rule i maker \<Rightarrow> snd (create_split_rule e i maker d)
      | Open_Rule k checker \<Rightarrow> snd (activate_split_rule e k checker d)
      | Advise k line as_of key actor correlation \<Rightarrow>
          snd (issue_advice (ws_advice w) (ws_before w) e k line as_of key actor correlation d)
      | Record_Settlement i key actor \<Rightarrow> snd (record_settlement (ws_settlement w) e i key actor d)
      | Ingest_Statement bundle by \<Rightarrow> snd (ingest_statement (ws_verify w) (ws_decode w) e bundle by d)
      | Mirror_Transfer i sync_key observed \<Rightarrow> snd (record_tb_settlement (ws_mirror w) e i sync_key observed d)
      | Advance_Cursor sync_key observed \<Rightarrow> snd (advance_sync_cursor e sync_key observed d)
      | Run_Recon order trigger actor as_of \<Rightarrow> snd (run_recon order (ws_before w) e trigger actor as_of d)
      | Close_Exception k resolver note \<Rightarrow> snd (resolve_exception e k resolver note d))"

text \<open>A walk through a Go map visits every entry once, in any order.\<close>

definition call_ok :: "revenue_call \<Rightarrow> bool" where
  "call_ok c \<longleftrightarrow> (case c of Run_Recon order _ _ _ \<Rightarrow> \<forall>xs. mset (order xs) = mset xs | _ \<Rightarrow> True)"

inductive revenue_evolves :: "revenue_site \<Rightarrow> revenue_db \<Rightarrow> revenue_db \<Rightarrow> bool" for w d0 where
  start: "revenue_evolves w d0 d0"
| call: "revenue_evolves w d0 d \<Longrightarrow> revenue_env e \<Longrightarrow> call_ok c \<Longrightarrow> revenue_evolves w d0 (run_revenue_call w e c d)"
| tariff: "revenue_evolves w d0 d \<Longrightarrow> tariff_env e \<Longrightarrow>
    revenue_evolves w d0 (d\<lparr>rd_tariff := run_tariff_call (ws_assess w) (ws_before w) e c (rd_tariff d)\<rparr>)"
| intake: "revenue_evolves w d0 d \<Longrightarrow> revenue_evolves w d0 (d\<lparr>rd_intake := is\<rparr>)"

definition empty_revenue_db :: revenue_db where
  "empty_revenue_db = \<lparr>rd_tariff = empty_tariff_db, rd_series = [], rd_notes = [], rd_note_lines = [],
     rd_transitions = [], rd_rules = [], rd_advices = [], rd_settlements = [], rd_statements = [],
     rd_statement_lines = [], rd_runs = [], rd_matches = [], rd_exceptions = [], rd_exception_events = [],
     rd_intake = [], rd_outbox = [], rd_cursors = []\<rparr>"

abbreviation revenue_reach :: "revenue_site \<Rightarrow> revenue_db \<Rightarrow> bool" where
  "revenue_reach w \<equiv> revenue_evolves w empty_revenue_db"

lemma empty_revenue_ok: "revenue_db_ok empty_revenue_db"
  by (simp add: revenue_ok_defs empty_revenue_db_def match_notes_def match_settlements_def match_lines_def empty_tariff_ok)

section \<open>Every call is a step\<close>

lemma revenue_call_step:
  assumes "revenue_db_ok d" "revenue_env e" "call_ok c"
  shows "revenue_step d (run_revenue_call w e c d)"
proof (cases c)
  case (Run_Recon order trigger actor as_of)
  have "set (order xs) \<subseteq> set xs" for xs
    using assms(3) mset_eq_setD [of "order xs" xs] by (simp add: Run_Recon call_ok_def)
  then show ?thesis using run_recon_step [OF assms(1,2)] by (simp add: run_revenue_call_def Run_Recon)
qed (use assms(1,2) in \<open>simp_all add: run_revenue_call_def create_debit_note_step issue_step transition_step
    create_split_rule_step activate_split_rule_step issue_advice_step record_settlement_step ingest_statement_step
    record_tb_settlement_step advance_cursor_step resolve_exception_step\<close>)

lemma tariff_side_step:
  assumes ok: "revenue_db_ok d" and t: "good_step (rd_tariff d) t"
  shows "revenue_step d (d\<lparr>rd_tariff := t\<rparr>)"
proof -
  let ?d = "d\<lparr>rd_tariff := t\<rparr>"
  have same: "lines_of_note k ?d = lines_of_note k d" "note_log k ?d = note_log k d" for k
    by (simp_all add: lines_of_note_def note_log_def)
  have "note_row_ok ?d n" if "note_row_ok d n" for n
    using that bills_stays t by (auto simp: note_row_ok_def same good_step_def)
  then have rows: "\<forall>n \<in> set (rd_notes d). note_row_ok ?d n" using ok by (simp add: revenue_db_ok_def notes_ok_def)
  have eqs: "rd_notes ?d = rd_notes d" "rd_transitions ?d = rd_transitions d" "rd_note_lines ?d = rd_note_lines d"
    "rd_tariff ?d = t" by simp_all
  have N: "notes_ok ?d" using ok t rows unfolding revenue_db_ok_def notes_ok_def good_step_def eqs by blast
  have log: "\<exists>ts. note_log k d = note_log k d @ ts" for k by simp
  have "same_note n n" for n by (simp add: same_note_def)
  then have K: "keeps_notes d ?d"
    unfolding keeps_notes_def same eqs using t log unfolding good_step_def by blast
  have k: "keeps_records d ?d" by (simp add: keeps_records_def)
  have mn: "match_notes ?d = match_notes d" "match_settlements ?d = match_settlements d" "match_lines ?d = match_lines d"
    by (simp_all add: match_notes_def match_settlements_def match_lines_def)
  have "match_ok ?d m" if "match_ok d m" for m by (rule match_ok_keeps [OF that K k])
  then have "matches_ok ?d" using ok by (simp add: revenue_db_ok_def matches_ok_def mn)
  moreover have "settlements_ok ?d = settlements_ok d" "rules_ok ?d = rules_ok d" "advices_ok ?d = advices_ok d"
    by (simp_all add: settlements_ok_def rules_ok_def advices_ok_def advice_ok_def)
  ultimately show ?thesis using ok N K k by (simp add: revenue_step_def revenue_db_ok_def)
qed

lemma evolves_step:
  "revenue_evolves w d0 d \<Longrightarrow> revenue_db_ok d0 \<Longrightarrow> revenue_step d0 d"
proof (induction rule: revenue_evolves.induct)
  case start
  then show ?case by (rule revenue_step_refl)
next
  case (call d e c)
  then have s: "revenue_step d0 d" by blast
  then have "revenue_step d (run_revenue_call w e c d)"
    using revenue_call_step call.hyps(2,3) by (simp add: revenue_step_def)
  then show ?case using s revenue_step_trans by blast
next
  case (tariff d e c)
  then have s: "revenue_step d0 d" by blast
  then have ok: "revenue_db_ok d" by (simp add: revenue_step_def)
  then have "good_step (rd_tariff d) (run_tariff_call (ws_assess w) (ws_before w) e c (rd_tariff d))"
    using call_good tariff.hyps(2) by (simp add: revenue_ok_defs)
  then show ?case using tariff_side_step [OF ok] s revenue_step_trans by blast
next
  case (intake d "is")
  then have s: "revenue_step d0 d" by blast
  then have "revenue_step d (d\<lparr>rd_intake := is\<rparr>)" by (intro records_step_same) (simp_all add: revenue_step_def)
  then show ?case using s revenue_step_trans by blast
qed

lemma reach_revenue_ok: "revenue_reach w d \<Longrightarrow> revenue_db_ok d"
  using evolves_step empty_revenue_ok by (auto simp: revenue_step_def)

section \<open>A deployment\<close>

definition revenue_demo_env :: "nat \<Rightarrow> revenue_db env" where
  "revenue_demo_env n = quiet_env (int n) (\<lambda>i. CHR ''r'' # replicate n CHR ''u'' @ replicate i CHR ''v'')"

lemma revenue_demo_env_ok [simp]: "revenue_env (revenue_demo_env n)"
  by (simp add: revenue_env_def revenue_demo_env_def revenue_step_refl)

definition demo_site :: revenue_site where
  "demo_site = \<lparr>ws_assess = demo_digest, ws_before = text_le, ws_note = (\<lambda>(a, b, c). a @ b @ c),
     ws_advice = (\<lambda>(a, b, c). a @ b @ c), ws_settlement = ti_bank_ref, ws_mirror = mi_transfer,
     ws_verify = (\<lambda>b. Inr \<lparr>ve_kind = ''BANK_STATEMENT'', ve_payload = b, ve_sha = b, ve_kid = ''k''\<rparr>),
     ws_decode = (\<lambda>b. Some \<lparr>sq_bank = ''bank'', sq_account = ''1'', sq_ref = b, sq_start = ''2026-03-01'', sq_end = ''2026-03-31'',
        sq_lines = [\<lparr>bl_reference = b, bl_value_date = ''2026-03-02'', bl_direction = ''CREDIT'',
          bl_amount = 2469135, bl_currency = ''USD'', bl_narrative = []\<rparr>]\<rparr>)\<rparr>"

fun run_revenue_calls :: "nat \<Rightarrow> revenue_call list \<Rightarrow> revenue_db \<Rightarrow> revenue_db" where
  "run_revenue_calls n [] d = d"
| "run_revenue_calls n (c # cs) d = run_revenue_calls (Suc n) cs (run_revenue_call demo_site (revenue_demo_env n) c d)"

lemma run_revenue_calls_evolve:
  "revenue_evolves demo_site d0 d \<Longrightarrow> list_all call_ok cs \<Longrightarrow> revenue_evolves demo_site d0 (run_revenue_calls n cs d)"
proof (induction cs arbitrary: n d)
  case (Cons c cs)
  then show ?case using revenue_evolves.call [OF Cons.prems(1) revenue_demo_env_ok] by simp
qed simp

text \<open>The rows of an assessed declaration, as the calls of the tariff service store them.\<close>

definition demo_line :: "nat \<Rightarrow> string \<Rightarrow> string \<Rightarrow> string \<Rightarrow> line_rec" where
  "demo_line no i agency basis = \<lparr>lw_assessment = ''uuuuuuuuu'', lw_line = \<lparr>al_no = no, al_instrument = i, al_agency = agency,
     al_applicability = Line_Not_Applicable, al_basis = basis, al_reference = [], al_rate = [], al_amount = 0,
     al_currency = ''USD'', al_exemption = [], al_provisional = False\<rparr>\<rparr>"
definition demo_rows :: tariff_db where
  "demo_rows = \<lparr>td_rates = [\<lparr>rw_id = ''r'', rw_instrument = cabotage_surcharge, rw_agency = ''FMMBE'',
     rw_band_logic = band_gross_freight, rw_currency = ''USD'',
     rw_minor = None, rw_bps = Some 200, rw_floor = 0, rw_ceiling = None,
     rw_reference = ''NPA Act ship dues'', rw_provisional = False,
     rw_from = 13514, rw_to = None, rw_state = ''ACTIVE'', rw_maker = ''ada'', rw_checker = Some ''obi''\<rparr>],
   td_exemptions = [],
   td_assessments = [\<lparr>aw_id = ''uuuuuuuuu'', aw_key = ''k'', aw_hash = ''ngc/2026-03-01'', aw_request = demo_coastal,
     aw_as_of = 20513, aw_usd = 2469135, aw_ngn = 0, aw_requester = ''rq'', aw_correlation = ''c'', aw_created = 9\<rparr>],
   td_lines = [demo_line 1 NPA_ship_dues ''NPA'' ''no Nigerian port call'', demo_line 2 NPA_levy_act ''NIMASA'' ''no Nigerian port call'',
     demo_line 3 SPL_2012 ''NIMASA'' ''no Nigerian port call'',
     \<lparr>lw_assessment = ''uuuuuuuuu'', lw_line = \<lparr>al_no = 4, al_instrument = cabotage_surcharge, al_agency = ''FMMBE'',
          al_applicability = Line_Charged, al_basis = ''cabotage (coastal) voyage: 2% surcharge accruing to CVFF'',
          al_reference = ''NPA Act ship dues'', al_rate = ''200 bps of gross freight'', al_amount = 2469135,
          al_currency = ''USD'', al_exemption = [], al_provisional = False\<rparr>\<rparr>,
     demo_line 5 LNG_due ''NIMASA'' ''not an LNG carrier on a Nigerian port call'',
     demo_line 6 NIWA_charge ''NIWA'' (''sea voyage '' @ dash @ '' NIWA charges apply to inland waterways'')],
   td_audits = [],
   td_outbox = [\<lparr>tv_id = ''u'', tv_subject = ''r'', tv_type = ''tariff.rate.created'',
       tv_payload = Rate_Created ''r'' cabotage_surcharge ''ada'', tv_created = 1\<rparr>,
     \<lparr>tv_id = ''uu'', tv_subject = ''r'', tv_type = ''tariff.rate.activated'',
       tv_payload = Rate_Activated ''r'' ''ada'' ''obi'', tv_created = 2\<rparr>,
     \<lparr>tv_id = ''uuuuuuuuuv'', tv_subject = ''uuuuuuuuu'', tv_type = ''tariff.assessment.created'',
       tv_payload = Assessment_Created ''uuuuuuuuu'' ''2026-03-01'' 2469135 0 ''rq'' ''c'', tv_created = 9\<rparr>]\<rparr>"


definition demo_coast_rows :: tariff_db where
  "demo_coast_rows = demo_rows\<lparr>td_assessments := [], td_lines := [], td_outbox := take 2 (td_outbox demo_rows)\<rparr>"

lemma demo_coast_eval: "demo_coast_tariffs = demo_coast_rows"
  by code_simp

lemma demo_assess_eval: "snd (demo_assess 9 demo_coast_rows) = demo_rows"
  by code_simp

definition demo_assessed :: revenue_db where
  "demo_assessed = empty_revenue_db\<lparr>rd_tariff := demo_rows\<rparr>"

lemma demo_assessed_reach: "revenue_reach demo_site demo_assessed"
proof -
  have "revenue_reach demo_site (empty_revenue_db\<lparr>rd_tariff := t\<rparr>)" if "tariff_evolves demo_digest text_le empty_tariff_db t" for t
    using that
  proof (induction rule: tariff_evolves.induct)
    case start
    have "empty_revenue_db\<lparr>rd_tariff := empty_tariff_db\<rparr> = empty_revenue_db" by (simp add: empty_revenue_db_def)
    then show ?case by (simp add: revenue_evolves.start)
  next
    case (call t e c)
    then show ?case using revenue_evolves.tariff [OF call.IH call.hyps(2), of c] by (simp add: demo_site_def)
  qed
  moreover have "tariff_reach demo_digest text_le demo_rows"
    using demo_assess_evolves [OF demo_coast_reach, of 9] unfolding demo_coast_eval demo_assess_eval .
  ultimately show ?thesis unfolding demo_assessed_def by blast
qed

end
