(* ===== verification/Revenue_Chain.thy ===== *)
theory Revenue_Chain
  imports Revenue_Calls
begin

text \<open>
  What the revenue service guarantees in every database its calls can reach, from the debit note to the
  reconciled payment, and what it does not.
\<close>

section \<open>A paid note\<close>

definition demo_bill :: issue_request where
  "demo_bill = \<lparr>iq_assessment = ''uuuuuuuuu'', iq_due = ''2026-03-31'',
     iq_effective = ''2026-03-01''\<rparr>"

definition demo_issued :: revenue_db where
  "demo_issued = run_revenue_calls 1 [Draft_Note demo_bill ''key'' ''ada'' ''c'' (utc_date 20513),
     Issue_Note ''ru'' ''obi'' 2026] demo_assessed"

definition demo_deposit :: settlement_input where
  "demo_deposit = \<lparr>ti_note = [], ti_bank_ref = ''FMMBE-2026-000001'', ti_transfer = [], ti_amount = 2469135,
     ti_currency = ''USD'', ti_payer = ''ngc'', ti_value_date = ''2026-03-02''\<rparr>"

definition demo_paid :: revenue_db where
  "demo_paid = run_revenue_calls 3 [Record_Settlement demo_deposit ''pay'' ''teller'', Ingest_Statement ''FMMBE-2026-000001'' ''clerk'',
     Run_Recon (\<lambda>xs. xs) ''MANUAL'' ''clerk'' (utc_date 20513)] demo_issued"

lemma demo_issued_reach: "revenue_reach demo_site demo_issued"
  unfolding demo_issued_def by (rule run_revenue_calls_evolve [OF demo_assessed_reach]) (simp add: call_ok_def)

lemma demo_paid_evolves: "revenue_evolves demo_site demo_issued demo_paid"
  unfolding demo_paid_def by (rule run_revenue_calls_evolve [OF revenue_evolves.start]) (simp add: call_ok_def)

lemma revenue_evolves_trans: "revenue_evolves w b c \<Longrightarrow> revenue_evolves w a b \<Longrightarrow> revenue_evolves w a c"
  by (induction rule: revenue_evolves.induct) (auto intro: revenue_evolves.intros)

lemma demo_paid_reach: "revenue_reach demo_site demo_paid"
  by (rule revenue_evolves_trans [OF demo_paid_evolves demo_issued_reach])

lemma single_row: "map f xs = [y] \<Longrightarrow> \<exists>x. xs = [x] \<and> f x = y"
  by auto

lemma demo_issued_rows:
  "map (\<lambda>n. (nw_id n, nw_state n, nw_document n)) (rd_notes demo_issued) = [(''ru'', ''ISSUED'', Some ''FMMBE-2026-000001'')]"
  by code_simp

definition paid_view :: "revenue_db \<Rightarrow> (string \<times> string \<times> int) list \<times> string list \<times> string list \<times> (string \<times> int) list" where
  "paid_view d = (map (\<lambda>n. (nw_id n, nw_state n, nw_usd n)) (rd_notes d),
     map nt_to (filter (\<lambda>t. nt_note t = ''ru'') (rd_transitions d)),
     map (md_note \<circ> mw_match) (rd_matches d), map (\<lambda>l. (lr_note l, nl_amount (lr_line l))) (rd_note_lines d))"

lemma demo_paid_view:
  "paid_view demo_paid = ([(''ru'', ''SETTLED'', 2469135)], [''DRAFT'', ''ISSUED'', ''SETTLED''], [''ru''], [(''ru'', 2469135)])"
  by code_simp

lemma demo_paid_rows:
  "(map (\<lambda>n. (nw_id n, nw_state n, nw_usd n)) (rd_notes demo_paid),
    map nt_to (filter (\<lambda>t. nt_note t = ''ru'') (rd_transitions demo_paid)),
    map (md_note \<circ> mw_match) (rd_matches demo_paid))
   = ([(''ru'', ''SETTLED'', 2469135)], [''DRAFT'', ''ISSUED'', ''SETTLED''], [''ru''])"
  and demo_line: "map (\<lambda>l. (lr_note l, nl_amount (lr_line l))) (rd_note_lines demo_paid) = [(''ru'', 2469135)]"
  using demo_paid_view by (simp_all only: paid_view_def prod.inject simp_thms)

lemma demo_note:
  obtains n where "rd_notes demo_issued = [n]" "nw_id n = ''ru''" "nw_state n = ''ISSUED''" "nw_document n = Some ''FMMBE-2026-000001''"
  using single_row [OF demo_issued_rows] that by blast

lemma demo_settled:
  obtains n where "rd_notes demo_paid = [n]" "nw_id n = ''ru''" "nw_state n = ''SETTLED''" "nw_usd n = 2469135"
proof -
  have "map (\<lambda>n. (nw_id n, nw_state n, nw_usd n)) (rd_notes demo_paid) = [(''ru'', ''SETTLED'', 2469135)]"
    using demo_paid_rows by blast
  from single_row [OF this] show ?thesis using that by blast
qed

section \<open>Debit notes\<close>

lemma reach_note: "revenue_reach w d \<Longrightarrow> n \<in> set (rd_notes d) \<Longrightarrow> note_row_ok d n"
  using reach_revenue_ok by (simp add: revenue_ok_defs)

text \<open>C11 An issued note is sealed under dual control. In every reachable database a debit note that is
  ISSUED, ACKED, DISPUTED or SETTLED names an issuer who is not its maker, and its envelope seals exactly
  what the note says: document number, assessment, agency, entity, totals, dates and every line. A DRAFT
  has no document number, no issuer and no envelope, and no document number is given out twice.\<close>

theorem issued_notes_are_sealed:
  assumes "revenue_reach w d"
  shows "(\<forall>n \<in> set (rd_notes d). nw_state n \<in> {''ISSUED'', ''ACKED'', ''DISPUTED'', ''SETTLED''} \<longrightarrow>
      (\<exists>doc c. nw_document n = Some doc \<and> nw_checker n = Some c \<and> c \<noteq> nw_maker n \<and>
        nw_envelope n = Some \<lparr>ns_note = nw_id n, ns_document = doc, ns_assessment = nw_assessment n, ns_agency = nw_agency n,
          ns_entity = nw_entity n, ns_usd = nw_usd n, ns_ngn = nw_ngn n, ns_effective = nw_effective n, ns_due = nw_due n,
          ns_lines = lines_of_note (nw_id n) d\<rparr>)) \<and>
    (\<forall>n \<in> set (rd_notes d). nw_state n = ''DRAFT'' \<longrightarrow>
      nw_document n = None \<and> nw_envelope n = None \<and> nw_checker n = None) \<and>
    (\<forall>n \<in> set (rd_notes d). \<forall>m \<in> set (rd_notes d).
      nw_document n = nw_document m \<longrightarrow> nw_document n \<noteq> None \<longrightarrow> nw_id n = nw_id m)"
proof (intro conjI)
  show "\<forall>n \<in> set (rd_notes d). \<forall>m \<in> set (rd_notes d).
      nw_document n = nw_document m \<longrightarrow> nw_document n \<noteq> None \<longrightarrow> nw_id n = nw_id m"
    using reach_revenue_ok [OF assms] unfolding revenue_ok_defs by blast
qed (use reach_note [OF assms] in \<open>auto simp: note_row_ok_def sealed_def unsealed_def\<close>)

theorem issued_notes_are_sealed_witness:
  "\<exists>n c. rd_notes demo_issued = [n] \<and> nw_checker n = Some c \<and> c \<noteq> nw_maker n \<and>
     map_option ns_document (nw_envelope n) = Some ''FMMBE-2026-000001''"
proof (rule demo_note)
  fix n assume n: "rd_notes demo_issued = [n]" "nw_state n = ''ISSUED''" "nw_document n = Some ''FMMBE-2026-000001''"
  show ?thesis using issued_notes_are_sealed [OF demo_issued_reach] n by auto
qed

text \<open>C17 The transition log is the life of a note. In every reachable database the log entries of a note
  start with its drafting by the maker, each leads from where the one before ended along an allowed
  transition, and the last one leads to the state of the note. The maker of a note issues and cancels
  none of its states, and only the reconciliation settles.\<close>

theorem note_log_is_the_history:
  assumes "revenue_reach w d" and "n \<in> set (rd_notes d)"
  defines "ts \<equiv> filter (\<lambda>t. nt_note t = nw_id n) (rd_transitions d)"
  shows "ts \<noteq> [] \<and> nt_from (hd ts) = [] \<and> nt_to (hd ts) = ''DRAFT'' \<and> nt_actor (hd ts) = nw_maker n \<and>
    nt_to (last ts) = nw_state n \<and>
    successively (\<lambda>a b. nt_from b = nt_to a \<and> valid_transition (nt_from b) (nt_to b)) ts \<and>
    (\<forall>t \<in> set (tl ts). (nt_to t \<in> {''ISSUED'', ''CANCELLED''} \<longrightarrow> nt_actor t \<noteq> nw_maker n) \<and>
      (nt_to t = ''SETTLED'' \<longrightarrow> nt_actor t = ''recon-engine''))"
  using reach_note [OF assms(1,2)] unfolding ts_def note_row_ok_def log_ok_def note_log_def entry_actor_ok_def
    note_step_def [abs_def] by blast

theorem note_log_is_the_history_witness:
  "map nt_to (filter (\<lambda>t. nt_note t = ''ru'') (rd_transitions demo_paid)) = [''DRAFT'', ''ISSUED'', ''SETTLED''] \<and>
   nt_actor (last (filter (\<lambda>t. nt_note t = ''ru'') (rd_transitions demo_paid))) = ''recon-engine''"
proof -
  have m: "map nt_to (filter (\<lambda>t. nt_note t = ''ru'') (rd_transitions demo_paid)) = [''DRAFT'', ''ISSUED'', ''SETTLED'']"
    using demo_paid_rows by blast
  show ?thesis
  proof (rule demo_settled)
    fix n assume n: "rd_notes demo_paid = [n]" "nw_id n = ''ru''"
    then have "n \<in> set (rd_notes demo_paid)" by simp
    from note_log_is_the_history [OF demo_paid_reach this] m n(2) show ?thesis
      by (auto simp: map_eq_Cons_conv)
  qed
qed

lemma sum_filter_number_lines:
  "sum_list (map nl_amount (filter (\<lambda>l. nl_currency l = c) (number_lines k ls))) =
   sum_list (map al_amount (filter (\<lambda>l. al_currency l = c) ls))"
  by (induction k ls rule: number_lines.induct) auto

lemma sum_filter_sort_by:
  "sum_list (map (f :: 'a \<Rightarrow> int) (filter P (sort_by le xs))) = sum_list (map f (filter P xs))"
proof -
  have "mset (map f (filter P (sort_by le xs))) = mset (map f (filter P xs))" by simp
  then show ?thesis by (metis sum_mset_sum_list)
qed

lemma charged_total:
  "i64 (sum_list (map nl_amount (filter (\<lambda>l. nl_currency l = c) (charged_of k t)))) = currency_total c (lines_of k t)"
  by (simp add: charged_of_def sum_filter_number_lines currency_total_sum charged_sum_def assessment_lines_of sum_filter_sort_by conj_commute)

lemma note_totals:
  assumes "revenue_reach w d" and "n \<in> set (rd_notes d)"
  shows "(\<exists>a \<in> set (td_assessments (rd_tariff d)). aw_id a = nw_assessment n \<and> nw_usd n = aw_usd a \<and> nw_ngn n = aw_ngn a) \<and>
      lines_of_note (nw_id n) d \<noteq> []"
    and "\<forall>l \<in> set (lines_of_note (nw_id n) d). nl_agency l = nw_agency n"
    and "nw_usd n = i64 (sum_list (map nl_amount (filter (\<lambda>l. nl_currency l = ''USD'') (lines_of_note (nw_id n) d))))"
    and "nw_ngn n = i64 (sum_list (map nl_amount (filter (\<lambda>l. nl_currency l = ''NGN'') (lines_of_note (nw_id n) d))))"
proof -
  obtain a where a: "a \<in> set (td_assessments (rd_tariff d))" "aw_id a = nw_assessment n" "nw_usd n = aw_usd a" "nw_ngn n = aw_ngn a"
    and ls: "lines_of_note (nw_id n) d = charged_of (aw_id a) (rd_tariff d)" "charged_of (aw_id a) (rd_tariff d) \<noteq> []"
      "\<forall>l \<in> set (charged_of (aw_id a) (rd_tariff d)). nl_agency l = nw_agency n"
    using reach_note [OF assms] by (auto simp: note_row_ok_def bills_def)
  have "assessment_ok (rd_tariff d) a"
    using reach_revenue_ok [OF assms(1)] a(1) by (simp add: revenue_ok_defs tariff_db_ok_def)
  then have "aw_usd a = currency_total ''USD'' (lines_of (aw_id a) (rd_tariff d))"
    "aw_ngn a = currency_total ''NGN'' (lines_of (aw_id a) (rd_tariff d))"
    by (simp_all add: assessment_ok_def Let_def)
  then show "(\<exists>a \<in> set (td_assessments (rd_tariff d)). aw_id a = nw_assessment n \<and> nw_usd n = aw_usd a \<and> nw_ngn n = aw_ngn a) \<and>
      lines_of_note (nw_id n) d \<noteq> []" "\<forall>l \<in> set (lines_of_note (nw_id n) d). nl_agency l = nw_agency n"
    "nw_usd n = i64 (sum_list (map nl_amount (filter (\<lambda>l. nl_currency l = ''USD'') (lines_of_note (nw_id n) d))))"
    "nw_ngn n = i64 (sum_list (map nl_amount (filter (\<lambda>l. nl_currency l = ''NGN'') (lines_of_note (nw_id n) d))))"
    unfolding ls(1) charged_total using a ls(2,3) by (blast, simp_all)
qed

text \<open>C23 A note bills its assessment. In every reachable database a debit note has the lines of one
  stored assessment that are charged, at least one, all of the note's agency; its two totals are those of the
  assessment and the \<open>int64\<close> sums of its own lines by currency.\<close>

theorem notes_bill_their_assessment:
  assumes "revenue_reach w d" and "n \<in> set (rd_notes d)"
  shows "(\<exists>a \<in> set (td_assessments (rd_tariff d)). aw_id a = nw_assessment n \<and> nw_usd n = aw_usd a \<and> nw_ngn n = aw_ngn a) \<and>
    lines_of_note (nw_id n) d \<noteq> [] \<and> (\<forall>l \<in> set (lines_of_note (nw_id n) d). nl_agency l = nw_agency n) \<and>
    nw_usd n = i64 (sum_list (map nl_amount (filter (\<lambda>l. nl_currency l = ''USD'') (lines_of_note (nw_id n) d)))) \<and>
    nw_ngn n = i64 (sum_list (map nl_amount (filter (\<lambda>l. nl_currency l = ''NGN'') (lines_of_note (nw_id n) d))))"
  using note_totals [OF assms] by blast

theorem notes_bill_their_assessment_witness:
  "\<exists>n. rd_notes demo_paid = [n] \<and>
     i64 (sum_list (map nl_amount (filter (\<lambda>l. nl_currency l = ''USD'') (lines_of_note ''ru'' demo_paid)))) = 2469135"
proof (rule demo_settled)
  fix n assume n: "rd_notes demo_paid = [n]" "nw_id n = ''ru''" "nw_usd n = 2469135"
  then have "n \<in> set (rd_notes demo_paid)" by simp
  from notes_bill_their_assessment [OF demo_paid_reach this] show ?thesis using n by metis
qed

text \<open>A sealed note is final. Whatever happens to the database, a note that has its envelope keeps it,
  with the document number, the issuer, the totals and the lines it seals, and every later reading of the
  envelope that succeeds returns it.\<close>

theorem sealed_notes_are_final:
  assumes reach: "revenue_reach w d" and later: "revenue_evolves w d d'"
    and n: "n \<in> set (rd_notes d)" "nw_envelope n = Some v"
  shows "(\<exists>n' \<in> set (rd_notes d'). nw_id n' = nw_id n \<and> nw_envelope n' = Some v \<and> nw_document n' = nw_document n \<and>
      nw_checker n' = nw_checker n \<and> nw_maker n' = nw_maker n \<and> nw_usd n' = nw_usd n \<and> nw_ngn n' = nw_ngn n) \<and>
    lines_of_note (nw_id n) d' = lines_of_note (nw_id n) d \<and>
    (\<forall>e u. get_debit_note_envelope e (nw_id n) d' = Inr u \<longrightarrow> u = v)"
proof -
  have step: "revenue_step d d'" by (rule evolves_step [OF later reach_revenue_ok [OF reach]])
  then obtain n' where n': "n' \<in> set (rd_notes d')" "same_note n n'" and ls: "lines_of_note (nw_id n) d' = lines_of_note (nw_id n) d"
    using n(1) unfolding revenue_step_def keeps_notes_def by blast
  have eq: "nw_id n' = nw_id n" "nw_envelope n' = Some v" "nw_document n' = nw_document n" "nw_checker n' = nw_checker n"
    "nw_maker n' = nw_maker n" "nw_usd n' = nw_usd n" "nw_ngn n' = nw_ngn n"
    using n'(2) n(2) by (auto simp: same_note_def note_core_def note_sealing_def unsealed_def)
  have "distinct (map nw_id (rd_notes d'))" using step by (simp add: revenue_step_def revenue_ok_defs)
  then have only: "m = n'" if "m \<in> set (rd_notes d')" "nw_id m = nw_id n" for m
    using distinct_key_unique [where k = nw_id, OF _ that(1) n'(1)] that(2) eq(1) by simp
  have "u = v" if u: "get_debit_note_envelope e (nw_id n) d' = Inr u" for e u
  proof -
    obtain m where m: "sql_row (\<lambda>r. nw_id r = nw_id n \<and> nw_envelope r \<noteq> None) (rd_notes d') = Some m" "nw_envelope m = Some u"
      using u by (auto simp: get_debit_note_envelope_def stmt_Inr_iff simp del: not_None_eq split: option.splits)
    then show ?thesis using only [of m] sql_row_Some [OF m(1)] eq(2) by simp
  qed
  then show ?thesis using n'(1) eq ls by blast
qed

theorem sealed_notes_are_final_witness:
  "\<exists>v. map nw_envelope (rd_notes demo_issued) = [Some v] \<and> map nw_envelope (rd_notes demo_paid) = [Some v]"
proof (rule demo_note)
  fix n assume n: "rd_notes demo_issued = [n]" "nw_id n = ''ru''" "nw_state n = ''ISSUED''"
  then have mem: "n \<in> set (rd_notes demo_issued)" by simp
  then obtain v where v: "nw_envelope n = Some v"
    using reach_note [OF demo_issued_reach mem] n(3) by (auto simp: note_row_ok_def sealed_def)
  obtain m where "rd_notes demo_paid = [m]" by (rule demo_settled)
  then show ?thesis using sealed_notes_are_final [OF demo_issued_reach demo_paid_evolves mem v] n(1) v by auto
qed

section \<open>Matches\<close>

text \<open>C12 What is settled was paid. In every reachable database a SETTLED note has a match, no note, no
  settlement and no statement line has two, and every match is an agreement of three stored records: a
  settlement that names the note or carries its document number, and a credit line with the same bank
  reference, both of the amount the note bills in the currency of the match.\<close>

theorem settled_notes_are_matched:
  assumes "revenue_reach w d"
  shows "(\<forall>n \<in> set (rd_notes d). nw_state n = ''SETTLED'' \<longrightarrow> nw_id n \<in> set (map (md_note \<circ> mw_match) (rd_matches d))) \<and>
    distinct (map (md_note \<circ> mw_match) (rd_matches d)) \<and> distinct (map (md_settlement \<circ> mw_match) (rd_matches d)) \<and>
    distinct (map ((\<lambda>m. (md_statement m, md_line m)) \<circ> mw_match) (rd_matches d)) \<and>
    (\<forall>m \<in> set (map mw_match (rd_matches d)).
      \<exists>s \<in> set (map sw_row (rd_settlements d)). \<exists>n \<in> set (rd_notes d). \<exists>l \<in> set (rd_statement_lines d).
        md_settlement m = st_id s \<and> md_note m = nw_id n \<and> (md_statement m, md_line m) = (bw_statement l, bw_no l) \<and>
        (st_note s = nw_id n \<or> st_note s = [] \<and> nw_document n = Some (st_bank_ref s)) \<and>
        bl_reference (bw_line l) = st_bank_ref s \<and> bl_direction (bw_line l) = ''CREDIT'' \<and>
        md_amount m = st_amount s \<and> (if st_currency s = ''NGN'' then nw_ngn n else nw_usd n) = st_amount s \<and>
        bl_amount (bw_line l) = st_amount s \<and> md_currency m = st_currency s \<and> bl_currency (bw_line l) = st_currency s)"
  using reach_revenue_ok [OF assms]
  unfolding revenue_db_ok_def matches_ok_def match_notes_def match_settlements_def match_lines_def match_ok_def billed_in_def
  by (intro conjI) (auto simp only: set_map image_iff comp_apply)

theorem settled_notes_are_matched_witness:
  "\<exists>n s. rd_notes demo_paid = [n] \<and> nw_state n = ''SETTLED'' \<and> s \<in> set (map sw_row (rd_settlements demo_paid)) \<and>
     (if st_currency s = ''NGN'' then nw_ngn n else nw_usd n) = st_amount s"
proof (rule demo_settled)
  fix n assume n: "rd_notes demo_paid = [n]" "nw_id n = ''ru''" "nw_state n = ''SETTLED''"
  note * = settled_notes_are_matched [OF demo_paid_reach]
  have "nw_id n \<in> set (map (md_note \<circ> mw_match) (rd_matches demo_paid))" using * n by simp
  then obtain m where "m \<in> set (map mw_match (rd_matches demo_paid))" by auto
  then show ?thesis using * n by (metis (no_types, lifting) empty_iff list.set(1) set_ConsD)
qed

end
