(* ===== verification/Revenue_Refusals.thy ===== *)
theory Revenue_Refusals
  imports Revenue_Chain
begin

text \<open>
  Repetitions at the edges of the revenue service: a transfer of the ledger is mirrored once, and a note
  paid twice stops the reconciliation of everything.
\<close>

section \<open>A note paid twice\<close>

lemma twice_matched_fails:
  assumes ok: "revenue_db_ok d" and planned: "\<And>m. m \<in> set ms \<Longrightarrow> match_ok d m"
    and two: "m \<in> set ms" "m' \<in> set ms" "md_note m = md_note m'" "md_settlement m \<noteq> md_settlement m'"
  shows "insert_matches e n run ms d \<noteq> Inr d'"
proof
  assume "insert_matches e n run ms d = Inr d'"
  then have s: "revenue_step d d'" "has_match d' m" "has_match d' m'"
    using insert_matches_step [OF ok planned] two(1,2) by blast+
  obtain x y where xy: "x \<in> set (rd_matches d')" "y \<in> set (rd_matches d')"
    "md_note (mw_match x) = md_note m" "md_settlement (mw_match x) = md_settlement m"
    "md_note (mw_match y) = md_note m'" "md_settlement (mw_match y) = md_settlement m'"
    using s(2,3) by (auto simp: has_match_def)
  have "distinct (map (md_note \<circ> mw_match) (rd_matches d'))"
    using s(1) by (simp add: revenue_step_def revenue_ok_defs match_notes_def)
  then have "x = y"
    using distinct_key_unique [where k = "md_note \<circ> mw_match", OF _ xy(1,2)] xy(3,5) two(3) by simp
  then show False using xy(4,6) two(4) by simp
qed

text \<open>C13 A note paid twice blocks the reconciliation. When the plan of a batch has two matches of one note,
  from payments with different bank references, the whole batch fails and changes nothing: no settlement of
  any other note is matched either. Since both payments stay unmatched, the next batch meets them again.\<close>

theorem double_payment_blocks_reconciliation:
  assumes reach: "revenue_reach w d" and env: "revenue_env e"
    and inp: "load_recon_input before e as_of d = Inr inp"
    and two: "m \<in> set (rp_matches (plan_recon inp))" "m' \<in> set (rp_matches (plan_recon inp))"
      "md_note m = md_note m'" "md_settlement m \<noteq> md_settlement m'"
  shows "\<exists>err. run_recon order before e trigger actor as_of d = (Inl err, d) \<or>
    run_recon order before e trigger actor as_of d = (Inl err, env_other e d)"
proof -
  let ?d = "env_other e d"
  have step: "revenue_step d ?d" by (rule revenue_envD [OF env reach_revenue_ok [OF reach]])
  then have ok: "revenue_db_ok ?d" by (simp add: revenue_step_def)
  have fails: "insert_matches e n run (rp_matches (plan_recon inp)) d2 \<noteq> Inr d3"
    if r: "insert_recon_run e k t a ?d = Inr (run, d2)" for n run d2 d3 k t a
  proof (rule twice_matched_fails [OF _ _ two])
    have s2: "revenue_step d d2"
      using step same_books_step [OF insert_run_books [OF r] ok] revenue_step_trans by blast
    then show "revenue_db_ok d2" by (simp add: revenue_step_def)
    show "match_ok d2 x" if "x \<in> set (rp_matches (plan_recon inp))" for x
      using match_ok_keeps [OF planned_match_ok [OF inp that]] s2 by (simp add: revenue_step_def)
  qed
  have "run_recon_body order e trigger actor (plan_recon inp) ?d \<noteq> Inr x" for x
    using fails by (auto simp: run_recon_body_def and_then_Inr_iff Let_def split: prod.splits)
  then obtain err where "run_recon_body order e trigger actor (plan_recon inp) ?d = Inl err"
    by (cases "run_recon_body order e trigger actor (plan_recon inp) ?d") auto
  then show ?thesis by (auto simp: run_recon_def inp run_tx_def Let_def)
qed

definition demo_transfer :: "string \<Rightarrow> settlement_input" where
  "demo_transfer ref = demo_deposit\<lparr>ti_note := ''ru'', ti_bank_ref := ref\<rparr>"

definition demo_doubled :: revenue_db where
  "demo_doubled = run_revenue_calls 3 [Record_Settlement (demo_transfer ''a'') ''a'' ''teller'',
     Record_Settlement (demo_transfer ''b'') ''b'' ''teller'', Ingest_Statement ''a'' ''clerk'', Ingest_Statement ''b'' ''clerk''] demo_issued"

lemma demo_doubled_reach: "revenue_reach demo_site demo_doubled"
  unfolding demo_doubled_def by (rule run_revenue_calls_evolve [OF demo_issued_reach]) (simp add: call_ok_def)

lemma demo_doubled_plan:
  "map_sum (\<lambda>_. ()) (\<lambda>inp. map (\<lambda>m. (md_note m, md_settlement m)) (rp_matches (plan_recon inp)))
     (load_recon_input text_le (revenue_demo_env 9) (utc_date 20513) demo_doubled)
   = Inr [(''ru'', ''ruuu''), (''ru'', ''ruuuu'')]"
  by code_simp

theorem double_payment_blocks_reconciliation_witness:
  "\<exists>err. fst (run_recon (\<lambda>xs. xs) text_le (revenue_demo_env 9) ''MANUAL'' ''clerk'' (utc_date 20513) demo_doubled) = Inl err"
proof -
  obtain inp where inp: "load_recon_input text_le (revenue_demo_env 9) (utc_date 20513) demo_doubled = Inr inp"
    and plan: "map (\<lambda>m. (md_note m, md_settlement m)) (rp_matches (plan_recon inp)) = [(''ru'', ''ruuu''), (''ru'', ''ruuuu'')]"
    using demo_doubled_plan
    by (cases "load_recon_input text_le (revenue_demo_env 9) (utc_date 20513) demo_doubled") auto
  then obtain m m' where "m \<in> set (rp_matches (plan_recon inp))" "m' \<in> set (rp_matches (plan_recon inp))"
    "md_note m = ''ru''" "md_note m' = ''ru''" "md_settlement m = ''ruuu''" "md_settlement m' = ''ruuuu''"
    by (cases "rp_matches (plan_recon inp)" rule: remdups_adj.cases) auto
  note m = this
  have "md_note m = md_note m'" "md_settlement m \<noteq> md_settlement m'" using m(3-6) by simp_all
  from double_payment_blocks_reconciliation [OF demo_doubled_reach revenue_demo_env_ok inp m(1,2) this]
  show ?thesis by (metis fst_conv)
qed

section \<open>A transfer mirrored twice\<close>

lemma taken_once:
  assumes "revenue_db_ok d" "transfer_taken d t"
  shows "length (filter (\<lambda>r. st_transfer (sw_row r) = t) (rd_settlements d)) = 1"
proof -
  have "distinct (map (st_transfer \<circ> sw_row) (filter (\<lambda>r. st_transfer (sw_row r) \<noteq> []) (rd_settlements d)))"
    using assms(1) by (simp add: revenue_ok_defs filter_map comp_def)
  moreover obtain r where r: "r \<in> set (filter (\<lambda>r. st_transfer (sw_row r) \<noteq> []) (rd_settlements d))" "(st_transfer \<circ> sw_row) r = t"
    using assms(2) by (auto simp: transfer_taken_def)
  ultimately have "filter (\<lambda>s. (st_transfer \<circ> sw_row) s = (st_transfer \<circ> sw_row) r)
      (filter (\<lambda>r. st_transfer (sw_row r) \<noteq> []) (rd_settlements d)) = [r]"
    by (intro filter_key_unique)
  moreover have "filter (\<lambda>s. (st_transfer \<circ> sw_row) s = (st_transfer \<circ> sw_row) r)
      (filter (\<lambda>r. st_transfer (sw_row r) \<noteq> []) (rd_settlements d)) = filter (\<lambda>r. st_transfer (sw_row r) = t) (rd_settlements d)"
    unfolding filter_filter by (rule filter_cong) (use r(2) assms(2) in \<open>auto simp: transfer_taken_def\<close>)
  ultimately have "filter (\<lambda>r. st_transfer (sw_row r) = t) (rd_settlements d) = [r]" by metis
  then show ?thesis by simp
qed

lemma taken_keeps: "transfer_taken d t \<Longrightarrow> keeps_records d d' \<Longrightarrow> transfer_taken d' t"
  unfolding transfer_taken_def keeps_records_def by (metis image_mono set_map subsetD)

lemma mirrored_taken:
  "st_transfer (sw_row r) \<noteq> [] \<Longrightarrow> mirror_body e r key t d = Inr (b, d') \<Longrightarrow> transfer_taken d' (st_transfer (sw_row r))"
  by (erule mirror_body_Inr) (simp_all add: transfer_taken_def)

lemma mirror_again:
  assumes "mirror_body e r key t d = Inr (b, d')" "transfer_taken d (st_transfer (sw_row r))"
  shows "\<not> b \<and> rd_settlements d' = rd_settlements d"
  using assms(1) by (rule mirror_body_Inr) (use assms(2) in simp_all)

lemma trim_nothing: "trim_space [] = []"
  by code_simp

lemma mirrored_id: "validate_mirror i = None \<Longrightarrow> mi_transfer i \<noteq> []"
  by (cases "mi_transfer i") (simp_all add: validate_mirror_def trim_nothing)

text \<open>A transfer is mirrored once. After a call has mirrored a transfer of the ledger, or found it
  mirrored, no later call for that transfer creates a settlement, whatever happened in between and however
  it describes the transfer, and there is exactly one settlement of it.\<close>

theorem transfer_is_mirrored_once:
  assumes reach: "revenue_reach w d" and env: "revenue_env e" "revenue_env e2"
    and first: "record_tb_settlement digest e i key t d = (Inr b, d1)" and later: "revenue_evolves w d1 d2"
    and again: "mi_transfer j = mi_transfer i" "record_tb_settlement digest2 e2 j key2 t2 d2 = (Inr c, d3)"
  shows "\<not> c \<and> rd_settlements d3 = rd_settlements (env_other e2 d2) \<and>
    length (filter (\<lambda>r. st_transfer (sw_row r) = mi_transfer i) (rd_settlements d3)) = 1"
proof -
  let ?o = "env_other e d" and ?o2 = "env_other e2 d2"
  have ok: "revenue_db_ok d" by (rule reach_revenue_ok [OF reach])
  have "revenue_db_ok d1" using record_tb_settlement_step [OF ok env(1), of digest i key t] first by (simp add: revenue_step_def)
  then have s2: "revenue_step d1 d2" by (rule evolves_step [OF later])
  then have s3: "revenue_step d2 ?o2" using revenue_envD [OF env(2)] by (simp add: revenue_step_def)
  have one: "validate_mirror i = None" "mirror_body e (mirror_rec e (digest i) i) key t ?o = Inr (b, d1)"
    and two: "mirror_body e2 (mirror_rec e2 (digest2 j) j) key2 t2 ?o2 = Inr (c, d3)"
    using first again(2) by (auto simp: record_tb_settlement_def run_tx_Inr_iff split: option.splits if_splits)
  have id: "st_transfer (sw_row (mirror_rec e h i)) = mi_transfer i" for e h i by (simp add: mirror_rec_def)
  have "mi_transfer i \<noteq> []" by (rule mirrored_id [OF one(1)])
  then have "transfer_taken d1 (mi_transfer i)"
    using mirrored_taken [OF _ one(2)] unfolding id by simp
  then have taken: "transfer_taken ?o2 (mi_transfer i)"
    using taken_keeps s2 s3 unfolding revenue_step_def by blast
  have d3: "\<not> c" "rd_settlements d3 = rd_settlements ?o2"
    using mirror_again [OF two] taken again(1) unfolding id by simp_all
  have "revenue_db_ok ?o2" using s3 by (simp add: revenue_step_def)
  then show ?thesis using taken_once [OF _ taken] d3 by simp
qed

definition demo_posted_transfer :: mirror_input where
  "demo_posted_transfer = \<lparr>mi_transfer = ''7'', mi_amount = 250, mi_currency = ''USD'', mi_bank_ref = ''tb:7'',
     mi_payer = ''tb-debit:1'', mi_value_date = ''2026-03-02''\<rparr>"

lemma demo_mirror_twice:
  "map_sum (\<lambda>_. ()) id (fst (record_tb_settlement mi_transfer (revenue_demo_env 1) demo_posted_transfer ''ledger:1'' 5 empty_revenue_db)) = Inr True"
  "map_sum (\<lambda>_. ()) id (fst (record_tb_settlement mi_transfer (revenue_demo_env 2) demo_posted_transfer ''ledger:1'' 5
     (snd (record_tb_settlement mi_transfer (revenue_demo_env 1) demo_posted_transfer ''ledger:1'' 5 empty_revenue_db)))) = Inr False"
  by code_simp+

theorem transfer_is_mirrored_once_witness:
  "\<exists>d. record_tb_settlement mi_transfer (revenue_demo_env 2) demo_posted_transfer ''ledger:1'' 5
      (snd (record_tb_settlement mi_transfer (revenue_demo_env 1) demo_posted_transfer ''ledger:1'' 5 empty_revenue_db)) = (Inr False, d) \<and>
     length (filter (\<lambda>r. st_transfer (sw_row r) = ''7'') (rd_settlements d)) = 1"
proof -
  let ?r1 = "record_tb_settlement mi_transfer (revenue_demo_env 1) demo_posted_transfer ''ledger:1'' 5 empty_revenue_db"
  let ?r2 = "record_tb_settlement mi_transfer (revenue_demo_env 2) demo_posted_transfer ''ledger:1'' 5 (snd ?r1)"
  obtain d1 where d1: "?r1 = (Inr True, d1)" using demo_mirror_twice(1) by (cases ?r1; cases "fst ?r1") auto
  obtain d2 where d2: "?r2 = (Inr False, d2)" using demo_mirror_twice(2) by (cases ?r2; cases "fst ?r2") auto
  have "mi_transfer demo_posted_transfer = ''7''" by (simp add: demo_posted_transfer_def)
  then show ?thesis
    using transfer_is_mirrored_once [where w = demo_site, OF _ revenue_demo_env_ok revenue_demo_env_ok d1
        revenue_evolves.start refl d2 [unfolded d1 snd_conv]] d2 by (auto intro: revenue_evolves.start)
qed

end
