(* ===== verification/Settlement_Sync_Inv.thy ===== *)
theory Settlement_Sync_Inv
  imports Settlement_Sync Revenue_Refusals
begin

text \<open>
  The mirror of the ledger as a system: the history of the cluster grows, the revenue service works, and the
  poller polls. Its cursor is a promise about the history, and every settlement it records is a transfer of it.
\<close>

section \<open>The history of the cluster\<close>

abbreviation ts_of :: "transfer \<Rightarrow> int" where
  "ts_of t \<equiv> uint (tr_timestamp t)"

text \<open>Documented behaviour of the cluster: a created transfer is immutable, its identifier is its own and its
  timestamp above that of every earlier one, within 63 bits.\<close>

definition new_transfer :: "transfer list \<Rightarrow> transfer \<Rightarrow> bool" where
  "new_transfer h t \<longleftrightarrow> tr_id t \<notin> tr_id ` set h \<and> (\<forall>x \<in> set h. ts_of x < ts_of t) \<and> 0 < ts_of t \<and> ts_of t < 2 ^ 63"

definition tb_history :: "transfer list \<Rightarrow> bool" where
  "tb_history h \<longleftrightarrow> distinct (map tr_id h) \<and> sorted_wrt (\<lambda>a b. ts_of a < ts_of b) h \<and>
     (\<forall>t \<in> set h. 0 < ts_of t \<and> ts_of t < 2 ^ 63)"

text \<open>A query answers with the first transfers that pass the filter, in the order of their timestamps, as they
  stood at some moment not after this one.\<close>

definition passes :: "query_filter \<Rightarrow> transfer \<Rightarrow> bool" where
  "passes f t \<longleftrightarrow> tr_ledger t = qf_ledger f \<and> tr_code t = qf_code f \<and> qf_min f \<le> tr_timestamp t"

definition honest :: "transfer list \<Rightarrow> transfer querier \<Rightarrow> bool" where
  "honest h query \<longleftrightarrow>
     (\<forall>f ts. query f = Inr ts \<longrightarrow> (\<exists>h1 h2. h = h1 @ h2 \<and> ts = take (unat (qf_limit f)) (filter (passes f) h1)))"

lemma tb_history_grows: "tb_history h \<Longrightarrow> new_transfer h t \<Longrightarrow> tb_history (h @ [t])"
  by (auto simp: tb_history_def new_transfer_def sorted_wrt_append)

lemma same_ts: "tb_history h \<Longrightarrow> x \<in> set h \<Longrightarrow> y \<in> set h \<Longrightarrow> ts_of x = ts_of y \<Longrightarrow> x = y"
  unfolding tb_history_def by (metis in_set_conv_nth less_irrefl linorder_neqE_nat sorted_wrt_iff_nth_less)

section \<open>The mirror\<close>

definition ledgers_of :: "sync_config \<Rightarrow> u32 set" where
  "ledgers_of cf = fst ` set (cf_ledgers cf)"

definition on_ledger :: "sync_config \<Rightarrow> u32 \<Rightarrow> transfer \<Rightarrow> bool" where
  "on_ledger cf l t \<longleftrightarrow> tr_ledger t = l \<and> tr_code t = cf_code cf"

abbreviation skipped :: "transfer \<Rightarrow> bool" where
  "skipped t \<equiv> fl_pending (tr_flags t) \<or> fl_void (tr_flags t)"

abbreviation mirror_image :: "(u128 \<Rightarrow> string) \<Rightarrow> sync_config \<Rightarrow> transfer \<Rightarrow> sync_error + mirror_input option" where
  "mirror_image nm cf t \<equiv> map_transfer nm t (the (map_of (cf_ledgers cf) (tr_ledger t)))"

definition cursor_at :: "u32 \<Rightarrow> revenue_db \<Rightarrow> int" where
  "cursor_at l d = (case map_of (rd_cursors d) (sync_key l) of None \<Rightarrow> 0 | Some c \<Rightarrow> c)"

definition handled :: "(u128 \<Rightarrow> string) \<Rightarrow> sync_config \<Rightarrow> revenue_db \<Rightarrow> transfer \<Rightarrow> bool" where
  "handled nm cf d t \<longleftrightarrow> skipped t \<or>
     (\<exists>i. mirror_image nm cf t = Inr (Some i)) \<and> transfer_taken d (nm (tr_id t))"

abbreviation tb_row :: "settlement_rec \<Rightarrow> bool" where
  "tb_row r \<equiv> st_recorded_by (sw_row r) = ''tb-sync''"

definition mirrors :: "(u128 \<Rightarrow> string) \<Rightarrow> sync_config \<Rightarrow> transfer \<Rightarrow> settlement \<Rightarrow> bool" where
  "mirrors nm cf t s \<longleftrightarrow> \<not> skipped t \<and> tr_code t = cf_code cf \<and> map_of (cf_ledgers cf) (tr_ledger t) = Some (st_currency s) \<and>
     st_amount s = uint (tr_amount t) \<and> 0 < st_amount s \<and> st_amount s < 2 ^ 63 \<and> st_transfer s = nm (tr_id t) \<and>
     st_note s = [] \<and> st_bank_ref s = ''tb:'' @ nm (tr_id t) \<and> st_payer s = ''tb-debit:'' @ nm (tr_debit t) \<and>
     st_value_date s = format_date (ts_of t div day_ns)"

definition sync_ok :: "(u128 \<Rightarrow> string) \<Rightarrow> sync_config \<Rightarrow> transfer list \<Rightarrow> revenue_db \<Rightarrow> bool" where
  "sync_ok nm cf h d \<longleftrightarrow> revenue_db_ok d \<and>
     (\<forall>l \<in> ledgers_of cf.
        (cursor_at l d = 0 \<or> cursor_at l d \<in> ts_of ` set h) \<and>
        (\<forall>t \<in> set h. on_ledger cf l t \<and> ts_of t \<le> cursor_at l d \<longrightarrow> handled nm cf d t)) \<and>
     (\<forall>r \<in> set (rd_settlements d). tb_row r \<longrightarrow>
        (\<exists>t \<in> set h. mirrors nm cf t (sw_row r) \<and> ts_of t \<le> cursor_at (tr_ledger t) d))"

text \<open>What the rest of the revenue service may do meanwhile: whatever keeps its own invariant, but only the
  poller moves its cursors and records as the poller.\<close>

definition sync_rely :: "sync_config \<Rightarrow> revenue_db \<Rightarrow> revenue_db \<Rightarrow> bool" where
  "sync_rely cf d d' \<longleftrightarrow> (\<forall>l \<in> ledgers_of cf. map_of (rd_cursors d') (sync_key l) = map_of (rd_cursors d) (sync_key l)) \<and>
     (\<forall>r \<in> set (rd_settlements d'). tb_row r \<longrightarrow> r \<in> set (rd_settlements d))"

definition sync_env :: "sync_config \<Rightarrow> revenue_db env \<Rightarrow> bool" where
  "sync_env cf e \<longleftrightarrow> revenue_env e \<and> (\<forall>d. revenue_db_ok d \<longrightarrow> sync_rely cf d (env_other e d))"

definition sync_step :: "sync_config \<Rightarrow> revenue_db \<Rightarrow> revenue_db \<Rightarrow> bool" where
  "sync_step cf d d' \<longleftrightarrow> revenue_step d d' \<and> (\<forall>l \<in> ledgers_of cf. cursor_at l d \<le> cursor_at l d')"

lemma sync_step_trans: "sync_step cf a b \<Longrightarrow> sync_step cf b c \<Longrightarrow> sync_step cf a c"
  unfolding sync_step_def using revenue_step_trans by (meson order_trans)

lemma sync_step_refl: "revenue_db_ok d \<Longrightarrow> sync_step cf d d"
  by (simp add: sync_step_def revenue_step_refl)

lemma handled_step: "handled nm cf d t \<Longrightarrow> revenue_step d d' \<Longrightarrow> handled nm cf d' t"
  unfolding handled_def revenue_step_def using taken_keeps by blast

lemma cursor_nonneg: "sync_ok nm cf h d \<Longrightarrow> l \<in> ledgers_of cf \<Longrightarrow> 0 \<le> cursor_at l d"
  unfolding sync_ok_def by (metis imageE order_refl uint_ge_0)

lemma cursor_small: "sync_ok nm cf h d \<Longrightarrow> tb_history h \<Longrightarrow> l \<in> ledgers_of cf \<Longrightarrow> cursor_at l d < 2 ^ 63"
  unfolding sync_ok_def tb_history_def by fastforce

lemma sync_ok_rely:
  assumes ok: "sync_ok nm cf h d" and step: "revenue_step d d'" and r: "sync_rely cf d d'"
  shows "sync_ok nm cf h d'" "sync_step cf d d'"
proof -
  have c: "cursor_at l d' = cursor_at l d" if "l \<in> ledgers_of cf" for l
    using r that by (simp add: cursor_at_def sync_rely_def)
  have "\<exists>t \<in> set h. mirrors nm cf t (sw_row x) \<and> ts_of t \<le> cursor_at (tr_ledger t) d'"
    if x: "x \<in> set (rd_settlements d')" "tb_row x" for x
  proof -
    obtain t where t: "t \<in> set h" "mirrors nm cf t (sw_row x)" "ts_of t \<le> cursor_at (tr_ledger t) d"
      using ok r x by (auto simp: sync_ok_def sync_rely_def)
    then have "tr_ledger t \<in> ledgers_of cf"
      by (auto simp: mirrors_def ledgers_of_def dest!: map_of_SomeD intro: rev_image_eqI)
    then show ?thesis using t c by auto
  qed
  moreover have "revenue_db_ok d'" using step by (simp add: revenue_step_def)
  ultimately show "sync_ok nm cf h d'"
    using ok c handled_step [OF _ step] unfolding sync_ok_def by simp
  show "sync_step cf d d'" using step c by (simp add: sync_step_def)
qed

lemma sync_ok_grows:
  assumes "sync_ok nm cf h d" "new_transfer h t"
  shows "sync_ok nm cf (h @ [t]) d"
proof -
  have "\<not> ts_of t \<le> cursor_at l d" if "l \<in> ledgers_of cf" for l
    using assms that unfolding sync_ok_def new_transfer_def by fastforce
  then show ?thesis using assms(1) unfolding sync_ok_def by auto
qed

section \<open>The store calls of a poll\<close>

lemma sync_key_inj: "sync_key l = sync_key m \<longleftrightarrow> l = m"
  by (simp add: sync_key_def nat_digits_inj word_unat_eq_iff)

lemma bump_cursor_at:
  assumes "bump_cursor (sync_key l) (tr_timestamp t) (rd_cursors d) = Some (rd_cursors d')" and "ts_of t < 2 ^ 63" "0 \<le> cursor_at l d"
  shows "cursor_at m d' = (if m = l then max (cursor_at l d) (ts_of t) else cursor_at m d)"
proof -
  have i: "i64 (ts_of t) = ts_of t" using assms(2) uint_ge_0 [of "tr_timestamp t"] by (intro i64_id) linarith+
  have "AList.update (sync_key l) (max (cursor_at l d) (ts_of t)) (rd_cursors d) = rd_cursors d'"
    using assms(1) by (auto simp: bump_cursor_def i cursor_at_def max_def Let_def split: option.splits if_splits)
  then have "map_of (rd_cursors d') = (map_of (rd_cursors d))(sync_key l \<mapsto> max (cursor_at l d) (ts_of t))"
    by (metis update_conv')
  then show ?thesis by (simp add: cursor_at_def sync_key_inj)
qed

text \<open>The cursor moves past a transfer of its ledger that is handled, as are all before it.\<close>

lemma cursor_moves:
  assumes ok: "sync_ok nm cf h d" and h: "tb_history h" and step: "revenue_step d d'" and l: "l \<in> ledgers_of cf"
    and t: "t \<in> set h" "on_ledger cf l t" "handled nm cf d' t"
    and bump: "bump_cursor (sync_key l) (tr_timestamp t) (rd_cursors d) = Some (rd_cursors d')"
    and before: "\<And>x. x \<in> set h \<Longrightarrow> on_ledger cf l x \<Longrightarrow> ts_of x < ts_of t \<Longrightarrow> handled nm cf d x"
    and rows: "\<And>r. r \<in> set (rd_settlements d') \<Longrightarrow> tb_row r \<Longrightarrow> r \<in> set (rd_settlements d) \<or> mirrors nm cf t (sw_row r)"
  shows "sync_ok nm cf h d'" "sync_step cf d d'"
proof -
  have small: "ts_of t < 2 ^ 63" using h t(1) by (simp add: tb_history_def)
  have c: "cursor_at m d' = (if m = l then max (cursor_at l d) (ts_of t) else cursor_at m d)" for m
    by (rule bump_cursor_at [OF bump small cursor_nonneg [OF ok l]])
  have grow: "cursor_at m d \<le> cursor_at m d'" for m by (simp add: c)
  show "sync_step cf d d'" using step grow by (simp add: sync_step_def)
  have at: "cursor_at m d' = 0 \<or> cursor_at m d' \<in> ts_of ` set h" if "m \<in> ledgers_of cf" for m
    using ok that t(1) by (auto simp: sync_ok_def c max_def)
  have cov: "handled nm cf d' x"
    if m: "m \<in> ledgers_of cf" and x: "x \<in> set h" "on_ledger cf m x" "ts_of x \<le> cursor_at m d'" for m x
  proof (cases "ts_of x \<le> cursor_at m d")
    case True
    then show ?thesis using ok m x handled_step [OF _ step] by (auto simp: sync_ok_def)
  next
    case False
    then have "m = l" "ts_of x \<le> ts_of t" using x(3) by (auto simp: c max_def split: if_splits)
    then show ?thesis
      using before [OF x(1)] x(2) handled_step [OF _ step] same_ts [OF h x(1) t(1)] t(3) by (cases "ts_of x = ts_of t") auto
  qed
  have "\<exists>x \<in> set h. mirrors nm cf x (sw_row r) \<and> ts_of x \<le> cursor_at (tr_ledger x) d'"
    if r: "r \<in> set (rd_settlements d')" "tb_row r" for r
  proof (cases "r \<in> set (rd_settlements d)")
    case True
    then show ?thesis using ok r(2) grow unfolding sync_ok_def by (meson order_trans)
  next
    case False
    then have "mirrors nm cf t (sw_row r)" using rows [OF r] by blast
    moreover have "ts_of t \<le> cursor_at (tr_ledger t) d'" using t(2) by (simp add: on_ledger_def c)
    ultimately show ?thesis using t(1) by blast
  qed
  moreover have "revenue_db_ok d'" using step by (simp add: revenue_step_def)
  ultimately show "sync_ok nm cf h d'" using at cov unfolding sync_ok_def by blast
qed

lemma sync_env_step:
  assumes "sync_env cf e" "sync_ok nm cf h d"
  shows "revenue_step d (env_other e d)" "sync_ok nm cf h (env_other e d)" "sync_step cf d (env_other e d)"
proof -
  have ok: "revenue_db_ok d" using assms(2) by (simp add: sync_ok_def)
  show s: "revenue_step d (env_other e d)" using assms(1) ok revenue_envD by (simp add: sync_env_def)
  have "sync_rely cf d (env_other e d)" using assms(1) ok by (simp add: sync_env_def)
  then show "sync_ok nm cf h (env_other e d)" "sync_step cf d (env_other e d)"
    using sync_ok_rely [OF assms(2) s] by blast+
qed

text \<open>What a store call of the poller leaves behind, whether it reports success or not.\<close>

abbreviation kept :: "(u128 \<Rightarrow> string) \<Rightarrow> sync_config \<Rightarrow> transfer list \<Rightarrow> revenue_db \<Rightarrow> revenue_db \<Rightarrow> bool" where
  "kept nm cf h d d' \<equiv> sync_ok nm cf h d' \<and> sync_step cf d d'"

lemma kept_trans: "kept nm cf h a b \<Longrightarrow> kept nm cf h b c \<Longrightarrow> kept nm cf h a c"
  using sync_step_trans by blast

lemma kept_handled: "kept nm cf h d d' \<Longrightarrow> handled nm cf d t \<Longrightarrow> handled nm cf d' t"
  using handled_step unfolding sync_step_def by blast

lemma skip_kept:
  assumes ok: "sync_ok nm cf h d" and h: "tb_history h" and e: "sync_env cf e" and l: "l \<in> ledgers_of cf"
    and t: "t \<in> set h" "on_ledger cf l t" "skipped t"
    and before: "\<And>x. x \<in> set h \<Longrightarrow> on_ledger cf l x \<Longrightarrow> ts_of x < ts_of t \<Longrightarrow> handled nm cf d x"
  shows "kept nm cf h d (snd (advance_sync_cursor e (sync_key l) (tr_timestamp t) d))"
proof -
  let ?o = "env_other e d"
  note o = sync_env_step [OF e ok]
  have "kept nm cf h d d'" if "bump_cursor (sync_key l) (tr_timestamp t) (rd_cursors ?o) = Some cs" "d' = ?o\<lparr>rd_cursors := cs\<rparr>" for cs d'
  proof -
    have "revenue_step ?o d'"
      using same_books_step [of ?o d'] o(1) that(2) by (auto simp: same_books_def revenue_step_def)
    then have "kept nm cf h ?o d'"
      using cursor_moves [OF o(2) h _ l t(1,2), of d'] before handled_step [OF _ o(1)] t(3) that by (auto simp: handled_def)
    then show ?thesis using kept_trans [where b = ?o] o(2,3) by blast
  qed
  moreover have "sync_key l \<noteq> []" by (simp add: sync_key_def)
  ultimately show ?thesis
    unfolding advance_sync_cursor_def using o(2,3)
    by (auto intro!: run_tx_inv [where P = "kept nm cf h d"] split: option.splits)
qed

lemma mirror_body_bump:
  "mirror_body e r key t d = Inr (b, d') \<Longrightarrow> bump_cursor key t (rd_cursors d) = Some (rd_cursors d')"
  by (auto simp: mirror_body_def and_then_Inr_iff stmt_Inr_iff Let_def split: if_splits option.splits prod.splits
      dest!: insert_event_Inr)

end
