(* ===== verification/Settlement_Sync_Props.thy ===== *)
theory Settlement_Sync_Props
  imports Settlement_Sync_Inv
begin

text \<open>
  What a poll of the ledger does, and what holds of the mirror in every reachable state.
\<close>

section \<open>Mirroring one transfer\<close>

lemma halves: "high_half a = 0 \<Longrightarrow> uint (low_half a) = uint a"
proof -
  assume "high_half a = 0"
  moreover have "uint (high_half a) = uint a div 2 ^ 64 mod 2 ^ 64"
    by (simp add: high_half_def unsigned_ucast_eq take_bit_eq_mod unsigned_drop_bit_eq drop_bit_eq_div uint_div)
  moreover have "uint a div 2 ^ 64 < 2 ^ 64" using uint_lt2p [of a] by simp
  moreover have "0 \<le> uint a div 2 ^ 64" using uint_ge_0 [of a] pos_imp_zdiv_nonneg_iff [of "2 ^ 64" "uint a"] by simp
  ultimately have "uint a div 2 ^ 64 = 0" by (simp del: div_pos_pos_trivial)
  then have "uint a < 2 ^ 64" by (simp add: div_eq_0_iff not_le)
  then show ?thesis by (simp add: low_half_def unsigned_ucast_eq take_bit_eq_mod)
qed

lemma map_transfer_Some:
  assumes "map_transfer nm t c = Inr (Some i)"
  shows "\<not> skipped t" "0 < uint (tr_amount t)" "uint (tr_amount t) < 2 ^ 63"
    "i = \<lparr>mi_transfer = nm (tr_id t), mi_amount = uint (tr_amount t), mi_currency = c, mi_bank_ref = ''tb:'' @ nm (tr_id t),
       mi_payer = ''tb-debit:'' @ nm (tr_debit t), mi_value_date = format_date (i64 (ts_of t) div day_ns)\<rparr>"
proof -
  have h: "high_half (tr_amount t) = 0" "\<not> low_half (tr_amount t) > 0x7FFFFFFFFFFFFFFF" "low_half (tr_amount t) \<noteq> 0"
    using assms by (auto simp: map_transfer_def split: if_splits)
  then have "uint (low_half (tr_amount t)) \<noteq> 0" "uint (low_half (tr_amount t)) \<le> 0x7FFFFFFFFFFFFFFF"
    by (simp_all add: word_less_def uint_0_iff not_less)
  then show "0 < uint (tr_amount t)" "uint (tr_amount t) < 2 ^ 63"
    unfolding halves [OF h(1)] by (simp_all add: less_le)
  show "\<not> skipped t" using assms by (auto simp: map_transfer_def split: if_splits)
  show "i = \<lparr>mi_transfer = nm (tr_id t), mi_amount = uint (tr_amount t), mi_currency = c, mi_bank_ref = ''tb:'' @ nm (tr_id t),
       mi_payer = ''tb-debit:'' @ nm (tr_debit t), mi_value_date = format_date (i64 (ts_of t) div day_ns)\<rparr>"
    using assms halves [OF h(1)] by (auto simp: map_transfer_def split: if_splits)
qed

lemma mirrored_row:
  assumes "map_transfer nm t c = Inr (Some i)" "map_of (cf_ledgers cf) (tr_ledger t) = Some c" "tr_code t = cf_code cf" "ts_of t < 2 ^ 63"
  shows "mirrors nm cf t (sw_row (mirror_rec e hash i))"
proof -
  have "i64 (ts_of t) = ts_of t" using assms(4) uint_ge_0 [of "tr_timestamp t"] by (intro i64_id) linarith+
  then show ?thesis using map_transfer_Some [OF assms(1)] assms(2,3) by (simp add: mirrors_def mirror_rec_def)
qed

lemma mirror_kept:
  assumes ok: "sync_ok nm cf h d" and h: "tb_history h" and e: "sync_env cf e" and l: "map_of (cf_ledgers cf) l = Some c"
    and t: "t \<in> set h" "on_ledger cf l t" and i: "map_transfer nm t c = Inr (Some i)"
    and before: "\<And>x. x \<in> set h \<Longrightarrow> on_ledger cf l x \<Longrightarrow> ts_of x < ts_of t \<Longrightarrow> handled nm cf d x"
  shows "kept nm cf h d (snd (record_tb_settlement digest e i (sync_key l) (tr_timestamp t) d))"
    and "fst (record_tb_settlement digest e i (sync_key l) (tr_timestamp t) d) = Inr created \<Longrightarrow>
      handled nm cf (snd (record_tb_settlement digest e i (sync_key l) (tr_timestamp t) d)) t"
proof -
  let ?o = "env_other e d" and ?r = "mirror_rec e (digest i) i"
  note o = sync_env_step [OF e ok]
  have L: "l \<in> ledgers_of cf" using l by (auto simp: ledgers_of_def dest!: map_of_SomeD intro: rev_image_eqI)
  have T: "tr_ledger t = l" "tr_code t = cf_code cf" using t(2) by (simp_all add: on_ledger_def)
  have small: "ts_of t < 2 ^ 63" using h t(1) by (simp add: tb_history_def)
  have id: "st_transfer (sw_row ?r) = nm (tr_id t)" using map_transfer_Some(4) [OF i] by (simp add: mirror_rec_def)
  have done_iff: "handled nm cf d' t" if "transfer_taken d' (nm (tr_id t))" for d'
    using that i l T by (auto simp: handled_def)
  have body: "kept nm cf h d d' \<and> (nm (tr_id t) \<noteq> [] \<longrightarrow> handled nm cf d' t)"
    if b: "mirror_body e ?r (sync_key l) (tr_timestamp t) ?o = Inr (b, d')" and ne: "nm (tr_id t) \<noteq> []" for b d'
  proof -
    have step: "revenue_step ?o d'" using mirror_body_step [OF _ b] o(1) by (simp add: revenue_step_def)
    have taken: "handled nm cf d' t" using mirrored_taken [OF _ b] id ne by (auto intro: done_iff)
    have rows: "x \<in> set (rd_settlements ?o) \<or> mirrors nm cf t (sw_row x)" if "x \<in> set (rd_settlements d')" for x
      using b
    proof (rule mirror_body_Inr)
      fix evs cs assume "d' = ?o\<lparr>rd_settlements := rd_settlements ?o @ [?r], rd_outbox := evs, rd_cursors := cs\<rparr>"
      then show ?thesis using that mirrored_row [OF i _ T(2) small] l T(1) by auto
    next
      fix cs assume "d' = ?o\<lparr>rd_cursors := cs\<rparr>"
      then show ?thesis using that by simp
    qed
    have "kept nm cf h ?o d'"
      using cursor_moves [OF o(2) h step L t taken mirror_body_bump [OF b]] before handled_step [OF _ o(1)] rows by blast
    then show ?thesis using kept_trans [where b = ?o] o(2,3) taken by blast
  qed
  have ne: "nm (tr_id t) \<noteq> []" if "validate_mirror i = None"
    using mirrored_id [OF that] map_transfer_Some(4) [OF i] by simp
  show "kept nm cf h d (snd (record_tb_settlement digest e i (sync_key l) (tr_timestamp t) d))"
  proof (cases "validate_mirror i")
    case None
    have "kept nm cf h d (snd (run_tx e b1 b2 mk (mirror_body e ?r (sync_key l) (tr_timestamp t)) d))" for b1 b2 mk
      by (rule run_tx_inv [where P = "kept nm cf h d"]) (use o(2,3) body ne [OF None] in blast)+
    then show ?thesis using None by (simp add: record_tb_settlement_def sync_key_def)
  next
    case (Some err)
    then show ?thesis using ok sync_step_refl [of d cf] by (simp add: record_tb_settlement_def sync_ok_def)
  qed
  show "handled nm cf (snd (record_tb_settlement digest e i (sync_key l) (tr_timestamp t) d)) t"
    if f: "fst (record_tb_settlement digest e i (sync_key l) (tr_timestamp t) d) = Inr created"
  proof -
    obtain d' where eq: "record_tb_settlement digest e i (sync_key l) (tr_timestamp t) d = (Inr created, d')"
      using f by (cases "record_tb_settlement digest e i (sync_key l) (tr_timestamp t) d") simp
    then have "validate_mirror i = None" "mirror_body e ?r (sync_key l) (tr_timestamp t) ?o = Inr (created, d')"
      by (auto simp: record_tb_settlement_def run_tx_Inr_iff split: option.splits if_splits)
    then show ?thesis using body ne eq by simp
  qed
qed

section \<open>One ledger\<close>

lemma mirror_transfers_kept:
  assumes h: "tb_history h" and e: "\<And>n. sync_env cf (es n)" and l: "map_of (cf_ledgers cf) l = Some c"
    and ok: "sync_ok nm cf h d" and ts: "set ts \<subseteq> set h" "\<forall>t \<in> set ts. on_ledger cf l t \<and> \<not> tr_timestamp t \<le> cursor"
      "sorted_wrt (\<lambda>a b. ts_of a < ts_of b) ts"
    and before: "\<And>t x. t \<in> set ts \<Longrightarrow> x \<in> set h \<Longrightarrow> on_ledger cf l x \<Longrightarrow> ts_of x < ts_of t \<Longrightarrow>
      handled nm cf d x \<or> x \<in> set ts"
    and run: "mirror_transfers nm digest es l c cursor n m ts d = (r, d')"
  shows "kept nm cf h d d' \<and> (\<forall>k. r = Inr k \<longrightarrow> (\<forall>t \<in> set ts. handled nm cf d' t))"
  using ok ts before run
proof (induction ts arbitrary: n m d)
  case Nil
  then show ?case using sync_step_refl [of d cf] by (auto simp: sync_ok_def)
next
  case (Cons t ts)
  have T: "t \<in> set h" "on_ledger cf l t" "\<not> tr_timestamp t \<le> cursor" using Cons.prems(2,3) by auto
  have L: "l \<in> ledgers_of cf" using l by (auto simp: ledgers_of_def dest!: map_of_SomeD intro: rev_image_eqI)
  have before: "handled nm cf d x" if "x \<in> set h" "on_ledger cf l x" "ts_of x < ts_of t" for x
    using Cons.prems(5) [of t x] that Cons.prems(4) by auto
  have rest: "kept nm cf h d d' \<and> (\<forall>k. r = Inr k \<longrightarrow> (\<forall>x \<in> set (t # ts). handled nm cf d' x))"
    if d1: "kept nm cf h d d1" "handled nm cf d1 t" and run: "mirror_transfers nm digest es l c cursor n1 m1 ts d1 = (r, d')"
    for d1 n1 m1
  proof -
    have "kept nm cf h d1 d' \<and> (\<forall>k. r = Inr k \<longrightarrow> (\<forall>t \<in> set ts. handled nm cf d' t))"
    proof (rule Cons.IH [OF _ _ _ _ _ run])
      show "handled nm cf d1 x \<or> x \<in> set ts"
        if "y \<in> set ts" "x \<in> set h" "on_ledger cf l x" "ts_of x < ts_of y" for y x
        using Cons.prems(5) [of y x] that kept_handled [OF d1(1)] d1(2) by auto
    qed (use Cons.prems(2-4) d1(1) in auto)
    then show ?thesis using kept_trans [where b = d1] kept_handled [where d = d1 and t = t] d1 by auto
  qed
  show ?case
  proof (cases "map_transfer nm t c")
    case (Inl err)
    then show ?thesis using Cons.prems(1,6) T(3) sync_step_refl [of d cf] by (auto simp: sync_ok_def)
  next
    case (Inr mi)
    show ?thesis
    proof (cases mi)
      case None
      then have s: "skipped t" using Inr by (auto simp: map_transfer_def split: if_splits)
      obtain q d1 where q: "advance_sync_cursor (es n) (sync_key l) (tr_timestamp t) d = (q, d1)" by fastforce
      have k: "kept nm cf h d d1" using skip_kept [OF Cons.prems(1) h e L T(1,2) s before, of n] q by simp
      have "handled nm cf d1 t" using s by (simp add: handled_def)
      then show ?thesis using rest [OF k] k Cons.prems(6) T(3) Inr None q by (cases q) auto
    next
      case (Some i)
      then have i: "map_transfer nm t c = Inr (Some i)" using Inr by simp
      obtain q d1 where q: "record_tb_settlement digest (es n) i (sync_key l) (tr_timestamp t) d = (q, d1)" by fastforce
      note k = mirror_kept [OF Cons.prems(1) h e l T(1,2) i before, of digest n, unfolded q fst_conv snd_conv]
      show ?thesis using rest [OF k(1)] k Cons.prems(6) T(3) i q by (cases q) auto
    qed
  qed
qed

text \<open>The transfers a ledger has above its cursor.\<close>

definition waiting :: "sync_config \<Rightarrow> transfer list \<Rightarrow> u32 \<Rightarrow> int \<Rightarrow> transfer list" where
  "waiting cf h l cursor = filter (\<lambda>t. on_ledger cf l t \<and> cursor < ts_of t) h"

abbreviation asks :: "sync_config \<Rightarrow> u32 \<Rightarrow> int \<Rightarrow> query_filter" where
  "asks cf l c \<equiv> \<lparr>qf_ledger = l, qf_code = cf_code cf, qf_min = to_u64 c + 1, qf_limit = cf_limit cf\<rparr>"

lemma answer_is_waiting:
  assumes "0 \<le> c" "c < 2 ^ 63"
  shows "filter (passes (asks cf l c)) h = waiting cf h l c"
proof -
  have "uint (to_u64 c + 1) = c + 1"
    using assms by (simp add: to_u64_def uint_word_ariths uint_word_of_int)
  then have "(to_u64 c + 1 \<le> tr_timestamp t) = (c < ts_of t)" for t by (simp add: word_le_def add1_zle_eq)
  then show ?thesis by (simp add: waiting_def passes_def [abs_def] on_ledger_def)
qed

lemma waiting_above: "0 \<le> c \<Longrightarrow> c < 2 ^ 63 \<Longrightarrow> t \<in> set (waiting cf h l c) \<Longrightarrow> \<not> tr_timestamp t \<le> to_u64 c"
  using uint_to_u64 [of c] by (auto simp: waiting_def word_le_def is_uint64_def)

lemma earlier_taken:
  assumes "sorted_wrt (\<lambda>a b. ts_of a < ts_of b) ts" "x \<in> set ts" "y \<in> set (take k ts)" "ts_of x < ts_of y"
  shows "x \<in> set (take k ts)"
proof (rule ccontr)
  assume "x \<notin> set (take k ts)"
  then have "x \<in> set (drop k ts)" using assms(2) by (metis Un_iff append_take_drop_id set_append)
  moreover have "sorted_wrt (\<lambda>a b. ts_of a < ts_of b) (take k ts @ drop k ts)" using assms(1) by simp
  ultimately show False using assms(3,4) unfolding sorted_wrt_append by fastforce
qed

lemma sync_ledger_kept:
  assumes h: "tb_history h" and e: "\<And>n. sync_env cf (es n)" and l: "map_of (cf_ledgers cf) l = Some c"
    and ok: "sync_ok nm cf h d" and q: "honest h query" and run: "sync_ledger nm digest es query cf l c d = (r, d')"
  shows "kept nm cf h d d'"
    and "r = Inr k \<Longrightarrow> \<exists>ts. query (asks cf l (cursor_at l d)) = Inr ts \<and> (\<forall>t \<in> set ts. handled nm cf d' t)"
proof -
  have L: "l \<in> ledgers_of cf" using l by (auto simp: ledgers_of_def dest!: map_of_SomeD intro: rev_image_eqI)
  let ?c = "cursor_at l d"
  note C = cursor_nonneg [OF ok L] cursor_small [OF ok h L]
  let ?f = "asks cf l ?c"
  have cur: "sync_cursor (es 0) (sync_key l) d = Inr x \<Longrightarrow> x = to_u64 ?c" for x
    by (auto simp: sync_cursor_def stmt_Inr_iff cursor_at_def to_u64_def split: option.splits)
  have stay: "kept nm cf h d d" using ok sync_step_refl [of d cf] by (simp add: sync_ok_def)
  have both: "kept nm cf h d d' \<and> (\<forall>k. r = Inr k \<longrightarrow> (\<exists>ts. query ?f = Inr ts \<and> (\<forall>t \<in> set ts. handled nm cf d' t)))"
  proof (cases "sync_cursor (es 0) (sync_key l) d")
    case (Inl err)
    then show ?thesis using run stay by (auto simp: sync_ledger_def)
  next
    case (Inr x)
    note x = Inr cur [OF Inr]
    show ?thesis
    proof (cases "query ?f")
      case (Inl err)
      then show ?thesis using run stay x by (auto simp: sync_ledger_def)
    next
      case (Inr ts)
      obtain h1 h2 where h12: "h = h1 @ h2" and "ts = take (unat (qf_limit ?f)) (filter (passes ?f) h1)"
        using q Inr unfolding honest_def by blast
      then have ts: "ts = take (unat (cf_limit cf)) (waiting cf h1 l ?c)" by (simp add: answer_is_waiting [OF C])
      have sw: "sorted_wrt (\<lambda>a b. ts_of a < ts_of b) (waiting cf h1 l ?c)"
        using h by (simp add: waiting_def tb_history_def h12 sorted_wrt_append sorted_wrt_filter)
      then have sts: "sorted_wrt (\<lambda>a b. ts_of a < ts_of b) ts" unfolding ts by (rule sorted_wrt_take)
      have "sorted (map tr_timestamp ts)"
        unfolding sorted_map by (rule sorted_wrt_mono_rel [OF _ sts]) (simp add: word_le_def)
      then have sorted: "sort_key tr_timestamp ts = ts" by (rule sort_key_id_if_sorted)
      have sub: "set ts \<subseteq> set (waiting cf h1 l ?c)" by (simp add: ts set_take_subset)
      have go: "mirror_transfers nm digest es l c (to_u64 ?c) 1 0 ts d = (r, d')"
        using run x Inr by (simp add: sync_ledger_def sorted)
      have "kept nm cf h d d' \<and> (\<forall>k. r = Inr k \<longrightarrow> (\<forall>t \<in> set ts. handled nm cf d' t))"
      proof (rule mirror_transfers_kept [OF h e l ok _ _ sts _ go])
        show "set ts \<subseteq> set h" using sub by (auto simp: waiting_def h12)
        show "\<forall>t \<in> set ts. on_ledger cf l t \<and> \<not> tr_timestamp t \<le> to_u64 ?c"
          using sub waiting_above [OF C] by (auto simp: waiting_def)
        show "handled nm cf d y \<or> y \<in> set ts"
          if y: "t \<in> set ts" "y \<in> set h" "on_ledger cf l y" "ts_of y < ts_of t" for t y
        proof (cases "ts_of y \<le> ?c")
          case True
          then show ?thesis using ok L y(2,3) by (simp add: sync_ok_def)
        next
          case False
          have "t \<in> set h1" using y(1) sub by (auto simp: waiting_def)
          moreover have "\<forall>a \<in> set h1. \<forall>b \<in> set h2. ts_of a < ts_of b"
            using h by (simp add: tb_history_def h12 sorted_wrt_append)
          ultimately have "y \<notin> set h2" using y(4) by (meson less_asym)
          then have "y \<in> set (waiting cf h1 l ?c)" using y(2,3) False by (simp add: waiting_def h12)
          then show ?thesis using earlier_taken [OF sw, of y t "unat (cf_limit cf)"] y(1,4) ts by simp
        qed
      qed
      then show ?thesis using Inr by blast
    qed
  qed
  then show "kept nm cf h d d'" by blast
  show "r = Inr k \<Longrightarrow> \<exists>ts. query ?f = Inr ts \<and> (\<forall>t \<in> set ts. handled nm cf d' t)" using both by blast
qed

end
