(* ===== verification/Settlement_Chain.thy ===== *)
theory Settlement_Chain
  imports Settlement_Sync_Props Ledger_Props
begin

text \<open>
  The poller beside the cluster and the revenue service: the states they can reach together, what the mirror
  guarantees in all of them, and what stops it.
\<close>

section \<open>A poll\<close>

abbreviation sync_configured :: "sync_config \<Rightarrow> bool" where
  "sync_configured cf \<equiv> validate_config cf = None \<and> distinct (map fst (cf_ledgers cf))"

lemma the_currency: "l \<in> ledgers_of cf \<Longrightarrow> map_of (cf_ledgers cf) l = Some (the (map_of (cf_ledgers cf) l))"
  unfolding ledgers_of_def by (metis map_of_eq_None_iff option.exhaust_sel)

lemma sync_ledgers_kept:
  assumes h: "tb_history h" and e: "\<And>l n. sync_env cf (es l n)" and q: "honest h query"
    and "sync_ok nm cf h d" "set ls \<subseteq> ledgers_of cf" "sync_ledgers nm digest es query cf m ls d = ((k, r), d')"
  shows "kept nm cf h d d' \<and> (r = None \<longrightarrow> (\<forall>l \<in> set ls. \<exists>c ts. cursor_at l d \<le> c \<and> c < 2 ^ 63 \<and>
      (\<forall>t \<in> set h. on_ledger cf l t \<and> ts_of t \<le> c \<longrightarrow> handled nm cf d' t) \<and>
      query (asks cf l c) = Inr ts \<and> (\<forall>t \<in> set ts. handled nm cf d' t)))"
  using assms(4-)
proof (induction ls arbitrary: m d)
  case Nil
  then show ?case using sync_step_refl [of d cf] by (auto simp: sync_ok_def)
next
  case (Cons l ls)
  let ?c = "the (map_of (cf_ledgers cf) l)"
  obtain a d1 where one: "sync_ledger nm digest (es l) query cf l ?c d = (a, d1)" by fastforce
  have cur: "map_of (cf_ledgers cf) l = Some ?c" using Cons.prems(2) by (intro the_currency) simp
  note k = sync_ledger_kept [OF h e cur Cons.prems(1) q one]
  show ?case
  proof (cases a)
    case (Inl err)
    then show ?thesis using Cons.prems(3) one k(1) by auto
  next
    case (Inr n)
    then have "sync_ledgers nm digest es query cf (m + n) ls d1 = ((k, r), d')" using Cons.prems(3) one by simp
    note IH = Cons.IH [OF conjunct1 [OF k(1)] _ this]
    then have rest: "kept nm cf h d1 d'" "r = None \<longrightarrow> (\<forall>l \<in> set ls. \<exists>c ts. cursor_at l d1 \<le> c \<and> c < 2 ^ 63 \<and>
        (\<forall>t \<in> set h. on_ledger cf l t \<and> ts_of t \<le> c \<longrightarrow> handled nm cf d' t) \<and>
        query (asks cf l c) = Inr ts \<and> (\<forall>t \<in> set ts. handled nm cf d' t))"
      using Cons.prems(2) by auto
    have grow: "cursor_at x d \<le> cursor_at x d1" if "x \<in> set ls" for x
      using k(1) that Cons.prems(2) by (auto simp: sync_step_def)
    have K: "kept nm cf h d d'" using kept_trans [OF k(1) rest(1)] .
    have L: "l \<in> ledgers_of cf" using Cons.prems(2) by simp
    obtain ts where ts: "query (asks cf l (cursor_at l d)) = Inr ts" "\<forall>t \<in> set ts. handled nm cf d1 t" using k(2) [OF Inr] by blast
    have "\<forall>t \<in> set ts. handled nm cf d' t" using ts(2) kept_handled [OF rest(1)] by blast
    moreover have "\<forall>t \<in> set h. on_ledger cf l t \<and> ts_of t \<le> cursor_at l d \<longrightarrow> handled nm cf d' t"
      using Cons.prems(1) L kept_handled [OF K] by (simp add: sync_ok_def)
    ultimately have first: "\<exists>c ts. cursor_at l d \<le> c \<and> c < 2 ^ 63 \<and>
        (\<forall>t \<in> set h. on_ledger cf l t \<and> ts_of t \<le> c \<longrightarrow> handled nm cf d' t) \<and>
        query (asks cf l c) = Inr ts \<and> (\<forall>t \<in> set ts. handled nm cf d' t)"
      using ts(1) cursor_small [OF Cons.prems(1) h L] by blast
    have "\<exists>c ts. cursor_at x d \<le> c \<and> c < 2 ^ 63 \<and>
        (\<forall>t \<in> set h. on_ledger cf x t \<and> ts_of t \<le> c \<longrightarrow> handled nm cf d' t) \<and>
        query (asks cf x c) = Inr ts \<and> (\<forall>t \<in> set ts. handled nm cf d' t)" if "r = None" "x \<in> set ls" for x
      using rest(2) that grow [OF that(2)] by (meson order_trans)
    then show ?thesis using K first by simp
  qed
qed

lemma sync_once_kept:
  assumes "tb_history h" "\<And>l n. sync_env cf (es l n)" "honest h query" "sync_ok nm cf h d"
  shows "kept nm cf h d (snd (sync_once nm digest es query cf d))"
proof -
  obtain k r d' where run: "sync_ledgers nm digest es query cf 0 (sort (map fst (cf_ledgers cf))) d = ((k, r), d')"
    by (metis prod.exhaust)
  have "set (sort (map fst (cf_ledgers cf))) \<subseteq> ledgers_of cf" by (simp add: ledgers_of_def)
  from sync_ledgers_kept [OF assms this run] show ?thesis by (simp add: sync_once_def run)
qed

section \<open>The system\<close>

text \<open>The cluster takes transfers, the revenue service serves calls that leave the poller's cursors and records
  alone, and the poller polls.\<close>

inductive mirrored :: "revenue_site \<Rightarrow> (u128 \<Rightarrow> string) \<Rightarrow> sync_config \<Rightarrow> transfer list \<Rightarrow> revenue_db \<Rightarrow> bool"
  for w nm cf where
  start: "mirrored w nm cf [] empty_revenue_db"
| cluster: "mirrored w nm cf h d \<Longrightarrow> new_transfer h t \<Longrightarrow> mirrored w nm cf (h @ [t]) d"
| service: "mirrored w nm cf h d \<Longrightarrow> revenue_evolves w d d' \<Longrightarrow> sync_rely cf d d' \<Longrightarrow> mirrored w nm cf h d'"
| poll: "mirrored w nm cf h d \<Longrightarrow> honest h query \<Longrightarrow> (\<And>l n. sync_env cf (es l n)) \<Longrightarrow>
    mirrored w nm cf h (snd (sync_once nm (ws_mirror w) es query cf d))"

lemma mirrored_ok: "mirrored w nm cf h d \<Longrightarrow> tb_history h \<and> sync_ok nm cf h d"
proof (induction rule: mirrored.induct)
  case start
  then show ?case using empty_revenue_ok by (simp add: tb_history_def sync_ok_def cursor_at_def empty_revenue_db_def)
next
  case (cluster h d t)
  then show ?case using tb_history_grows sync_ok_grows by blast
next
  case (service h d d')
  then have "revenue_step d d'" using evolves_step by (simp add: sync_ok_def)
  then show ?case using service sync_ok_rely(1) by blast
next
  case (poll h d query es)
  then show ?case using sync_once_kept by blast
qed

text \<open>C24 The cursor skips nothing. In every reachable state each transfer of a mirrored ledger with the
  configured code at or below the ledger's cursor is either pending or void, hence no posted money, or there is
  exactly one settlement of it.\<close>

theorem cursor_covers_the_ledger:
  assumes "mirrored w nm cf h d" and "l \<in> fst ` set (cf_ledgers cf)"
    and "t \<in> set h" "tr_ledger t = l" "tr_code t = cf_code cf" "uint (tr_timestamp t) \<le> cursor_at l d"
  shows "fl_pending (tr_flags t) \<or> fl_void (tr_flags t) \<or>
    length (filter (\<lambda>r. st_transfer (sw_row r) = nm (tr_id t)) (rd_settlements d)) = 1"
proof -
  have "sync_ok nm cf h d" using mirrored_ok [OF assms(1)] by blast
  then have "revenue_db_ok d" "handled nm cf d t"
    using assms(2-) by (auto simp: sync_ok_def on_ledger_def ledgers_of_def)
  then show ?thesis using taken_once by (auto simp: handled_def)
qed

text \<open>C25 No settlement is fabricated. In every reachable state each settlement the poller recorded is a transfer
  of the cluster with the configured code that is neither pending nor void: with its amount, unchanged and within
  \<open>int64\<close>, in the currency of its ledger, on the day of its timestamp; and the cursor has passed it.\<close>

theorem mirrored_money_is_on_the_ledger:
  assumes "mirrored w nm cf h d" and "r \<in> set (rd_settlements d)" "st_recorded_by (sw_row r) = ''tb-sync''"
  shows "\<exists>t \<in> set h. \<not> fl_pending (tr_flags t) \<and> \<not> fl_void (tr_flags t) \<and> tr_code t = cf_code cf \<and>
    map_of (cf_ledgers cf) (tr_ledger t) = Some (st_currency (sw_row r)) \<and>
    st_amount (sw_row r) = uint (tr_amount t) \<and> 0 < st_amount (sw_row r) \<and> st_amount (sw_row r) < 2 ^ 63 \<and>
    st_transfer (sw_row r) = nm (tr_id t) \<and> st_value_date (sw_row r) = format_date (uint (tr_timestamp t) div day_ns) \<and>
    uint (tr_timestamp t) \<le> cursor_at (tr_ledger t) d"
  using mirrored_ok [OF assms(1)] assms(2,3) by (fastforce simp: sync_ok_def mirrors_def)

text \<open>C26 A poll catches up. When a poll of a reachable state reports no error, the cluster answered for all of
  its history, and no ledger had more transfers above its cursor than the batch limit, every transfer of every
  mirrored ledger is handled: pending, void, or mirrored exactly once.\<close>

theorem poll_catches_up:
  assumes "mirrored w nm cf h d" and e: "\<And>l n. sync_env cf (es l n)"
    and query: "\<And>f ts. query f = Inr ts \<Longrightarrow> ts = take (unat (qf_limit f)) (filter (passes f) h)"
    and few: "\<And>l. l \<in> fst ` set (cf_ledgers cf) \<Longrightarrow> length (waiting cf h l (cursor_at l d)) \<le> unat (cf_limit cf)"
    and run: "sync_once nm (ws_mirror w) es query cf d = ((n, None), d')"
    and t: "t \<in> set h" "tr_ledger t \<in> fst ` set (cf_ledgers cf)" "tr_code t = cf_code cf"
  shows "fl_pending (tr_flags t) \<or> fl_void (tr_flags t) \<or>
    length (filter (\<lambda>r. st_transfer (sw_row r) = nm (tr_id t)) (rd_settlements d')) = 1"
proof -
  have h: "tb_history h" and ok: "sync_ok nm cf h d" using mirrored_ok [OF assms(1)] by simp_all
  have q: "honest h query" using query by (auto simp: honest_def)
  let ?ls = "sort (map fst (cf_ledgers cf))" and ?l = "tr_ledger t"
  have L: "?l \<in> set ?ls" "set ?ls \<subseteq> ledgers_of cf" using t(2) by (simp_all add: ledgers_of_def)
  have "sync_ledgers nm (ws_mirror w) es query cf 0 ?ls d = ((n, None), d')" using run by (simp add: sync_once_def)
  from sync_ledgers_kept [OF h e q ok L(2) this] L(1) obtain c ts where
    k: "kept nm cf h d d'" and c: "cursor_at ?l d \<le> c" "c < 2 ^ 63" and ts: "query (asks cf ?l c) = Inr ts"
    and seen: "\<forall>x \<in> set h. on_ledger cf ?l x \<and> ts_of x \<le> c \<longrightarrow> handled nm cf d' x" "\<forall>x \<in> set ts. handled nm cf d' x"
    by blast
  have c0: "0 \<le> c" using cursor_nonneg [OF ok] L c(1) by (meson order_trans subsetD)
  have "ts = take (unat (cf_limit cf)) (waiting cf h ?l c)"
    using query [OF ts] by (simp add: answer_is_waiting [OF c0 c(2)])
  moreover have "length (waiting cf h ?l c) \<le> length (waiting cf h ?l (cursor_at ?l d))"
    unfolding waiting_def using c(1) by (induction h) auto
  ultimately have "ts = waiting cf h ?l c" using few [OF t(2)] by simp
  then have "handled nm cf d' t"
    using seen t by (cases "ts_of t \<le> c") (auto simp: waiting_def on_ledger_def)
  moreover have "revenue_db_ok d'" using k by (simp add: sync_ok_def)
  ultimately show ?thesis using taken_once by (auto simp: handled_def)
qed

text \<open>C27 What cannot be mirrored stops its ledger for good. A posted transfer of zero, or of more than
  \<open>int64\<close>, is never passed: in every reachable state of its history the cursor is below it, and no later
  transfer of that ledger has a settlement of the poller's.\<close>

theorem unmirrorable_transfer_stops_its_ledger:
  assumes "mirrored w nm cf h d" and "inj nm" and "l \<in> fst ` set (cf_ledgers cf)"
    and t: "t \<in> set h" "tr_ledger t = l" "tr_code t = cf_code cf" "\<not> fl_pending (tr_flags t)" "\<not> fl_void (tr_flags t)"
      "tr_amount t = 0 \<or> 2 ^ 63 \<le> uint (tr_amount t)"
  shows "cursor_at l d < uint (tr_timestamp t) \<and>
    (\<forall>x \<in> set h. tr_ledger x = l \<and> uint (tr_timestamp t) \<le> uint (tr_timestamp x) \<longrightarrow>
       (\<forall>r \<in> set (rd_settlements d). st_recorded_by (sw_row r) = ''tb-sync'' \<longrightarrow> st_transfer (sw_row r) \<noteq> nm (tr_id x)))"
proof -
  have h: "tb_history h" and ok: "sync_ok nm cf h d" using mirrored_ok [OF assms(1)] by simp_all
  have "\<not> handled nm cf d t"
    using t(4-) map_transfer_Some(2,3) [of nm t] by (auto simp: handled_def)
  then have "\<not> ts_of t \<le> cursor_at l d"
    using ok t(1-3) assms(3) by (auto simp: sync_ok_def on_ledger_def ledgers_of_def)
  then have below: "cursor_at l d < ts_of t" by simp
  moreover have False if x: "x \<in> set h" "tr_ledger x = l" "ts_of t \<le> ts_of x"
    and r: "r \<in> set (rd_settlements d)" "tb_row r" "st_transfer (sw_row r) = nm (tr_id x)" for x r
  proof -
    obtain y where y: "y \<in> set h" "mirrors nm cf y (sw_row r)" "ts_of y \<le> cursor_at (tr_ledger y) d"
      using ok r(1,2) by (auto simp: sync_ok_def)
    then have "tr_id y = tr_id x" using r(3) assms(2) by (simp add: mirrors_def inj_eq)
    then have "y = x" using h x(1) y(1) by (auto simp: tb_history_def distinct_map dest: inj_onD)
    then show False using y(3) x(2,3) below by simp
  qed
  ultimately show ?thesis by blast
qed

text \<open>The transfer a successful \<open>Post\<close> of the ledger service leaves, built without an amount, is such a one.\<close>

lemma zero_post_is_unmirrorable:
  "records t x \<Longrightarrow> tr_flags t = no_flags\<lparr>fl_post := True\<rparr> \<Longrightarrow> tr_amount t = 0 \<Longrightarrow>
     \<not> fl_pending (tr_flags x) \<and> \<not> fl_void (tr_flags x) \<and> tr_amount x = 0"
  by (simp add: records_def no_flags_def)

section \<open>A deployment\<close>

definition demo_sync :: sync_config where
  "demo_sync = \<lparr>cf_ledgers = [(1, ''USD'')], cf_code = 7, cf_limit = 512\<rparr>"

definition demo_name :: "u128 \<Rightarrow> string" where
  "demo_name i = nat_digits (unat i)"

definition demo_transfer_of :: "u128 \<Rightarrow> u128 \<Rightarrow> bool \<Rightarrow> u64 \<Rightarrow> transfer" where
  "demo_transfer_of i amount pending ts = zero_transfer\<lparr>tr_id := i, tr_debit := 5, tr_credit := 6, tr_amount := amount,
     tr_ledger := 1, tr_code := 7, tr_flags := no_flags\<lparr>fl_pending := pending\<rparr>, tr_timestamp := ts\<rparr>"

definition demo_history :: "transfer list" where
  "demo_history = [demo_transfer_of 1 900 True 10, demo_transfer_of 2 250 False 20]"

definition demo_stuck :: "transfer list" where
  "demo_stuck = [demo_transfer_of 3 0 False 30, demo_transfer_of 4 80 False 40]"

definition demo_query :: "transfer list \<Rightarrow> transfer querier" where
  "demo_query h f = Inr (take (unat (qf_limit f)) (filter (passes f) h))"

definition demo_poll :: "nat \<Rightarrow> transfer list \<Rightarrow> revenue_db \<Rightarrow> (int \<times> sync_error option) \<times> revenue_db" where
  "demo_poll k h d = sync_once demo_name (ws_mirror demo_site) (\<lambda>l n. revenue_demo_env (k + n)) (demo_query h) demo_sync d"

definition demo_polled :: revenue_db where
  "demo_polled = snd (demo_poll 0 demo_history empty_revenue_db)"

definition demo_blocked :: revenue_db where
  "demo_blocked = snd (demo_poll 9 (demo_history @ demo_stuck) demo_polled)"

lemma demo_name_inj: "inj demo_name"
  by (simp add: inj_def demo_name_def nat_digits_inj word_unat_eq_iff)

lemma demo_honest: "honest h (demo_query h)"
  by (auto simp: honest_def demo_query_def)

lemma demo_sync_env: "sync_env cf (revenue_demo_env n)"
  using revenue_demo_env_ok [of n] by (simp add: sync_env_def sync_rely_def revenue_demo_env_def)

lemma demo_mirrored_poll: "mirrored demo_site demo_name demo_sync h d \<Longrightarrow> mirrored demo_site demo_name demo_sync h (snd (demo_poll k h d))"
  unfolding demo_poll_def by (rule mirrored.poll [OF _ demo_honest demo_sync_env])

lemma demo_grows:
  "mirrored w nm cf h d \<Longrightarrow> list_all (\<lambda>(x, y). new_transfer x y) [(h, a), (h @ [a], b)] \<Longrightarrow> mirrored w nm cf (h @ [a, b]) d"
  using mirrored.cluster [OF mirrored.cluster, of w nm cf h d a b] by simp

lemma demo_transfers_new:
  "list_all (\<lambda>(x, y). new_transfer x y) [([], demo_transfer_of 1 900 True 10), ([] @ [demo_transfer_of 1 900 True 10], demo_transfer_of 2 250 False 20)]"
  "list_all (\<lambda>(x, y). new_transfer x y) [(demo_history, demo_transfer_of 3 0 False 30),
     (demo_history @ [demo_transfer_of 3 0 False 30], demo_transfer_of 4 80 False 40)]"
  by (simp_all add: new_transfer_def demo_history_def demo_transfer_of_def zero_transfer_def)

lemma demo_before: "mirrored demo_site demo_name demo_sync demo_history empty_revenue_db"
  using demo_grows [OF mirrored.start demo_transfers_new(1)] by (simp add: demo_history_def)

lemma demo_polled_reach: "mirrored demo_site demo_name demo_sync demo_history demo_polled"
  unfolding demo_polled_def by (rule demo_mirrored_poll [OF demo_before])

lemma demo_blocked_reach: "mirrored demo_site demo_name demo_sync (demo_history @ demo_stuck) demo_blocked"
  unfolding demo_blocked_def
  by (rule demo_mirrored_poll) (use demo_grows [OF demo_polled_reach demo_transfers_new(2)] in \<open>simp add: demo_stuck_def\<close>)

lemma demo_poll_result:
  "fst (demo_poll 0 demo_history empty_revenue_db) = (1, None)"
  "cursor_at 1 demo_polled = 20"
  "map (\<lambda>r. (st_recorded_by (sw_row r), st_transfer (sw_row r))) (rd_settlements demo_polled) = [(''tb-sync'', ''2'')]"
  "fst (demo_poll 9 (demo_history @ demo_stuck) demo_polled) = (0, Some (Sync_Text ''transfer has a zero amount''))"
  by code_simp+

theorem cursor_covers_the_ledger_witness:
  "length (filter (\<lambda>r. st_transfer (sw_row r) = demo_name 2) (rd_settlements demo_polled)) = 1"
  using cursor_covers_the_ledger [OF demo_polled_reach, of 1 "demo_transfer_of 2 250 False 20"] demo_poll_result(2)
  by (simp add: demo_sync_def demo_history_def demo_transfer_of_def zero_transfer_def no_flags_def)

theorem mirrored_money_is_on_the_ledger_witness:
  "\<exists>r. rd_settlements demo_polled = [r] \<and> (\<exists>t \<in> set demo_history. st_amount (sw_row r) = uint (tr_amount t))"
proof -
  obtain r where r: "rd_settlements demo_polled = [r]" "st_recorded_by (sw_row r) = ''tb-sync''"
    using demo_poll_result(3) by auto
  then show ?thesis using mirrored_money_is_on_the_ledger [OF demo_polled_reach, of r] by auto
qed

theorem poll_catches_up_witness:
  "length (filter (\<lambda>r. st_transfer (sw_row r) = demo_name 2) (rd_settlements demo_polled)) = 1"
proof -
  have run: "sync_once demo_name (ws_mirror demo_site) (\<lambda>l n. revenue_demo_env (0 + n)) (demo_query demo_history) demo_sync
      empty_revenue_db = ((1, None), demo_polled)"
    using demo_poll_result(1) by (metis demo_poll_def demo_polled_def prod.collapse)
  show ?thesis
    using poll_catches_up [OF demo_before demo_sync_env _ _ run, of "demo_transfer_of 2 250 False 20"]
    by (simp add: demo_query_def demo_sync_def demo_history_def demo_transfer_of_def zero_transfer_def no_flags_def waiting_def)
qed

theorem unmirrorable_transfer_stops_its_ledger_witness: "cursor_at 1 demo_blocked < 30"
  using unmirrorable_transfer_stops_its_ledger [OF demo_blocked_reach demo_name_inj, of 1 "demo_transfer_of 3 0 False 30"]
  by (simp add: demo_sync_def demo_stuck_def demo_transfer_of_def zero_transfer_def no_flags_def)

end
