(* ===== verification/Revenue_Report.thy ===== *)
theory Revenue_Report
  imports Revenue_Chain
begin

text \<open>
  The reports of the ministry (\<open>internal/revenue/report.go\<close>), and what they add up to. A sum over \<open>BIGINT\<close> is exact in
  the database; scanning it into an \<open>int64\<close> fails when it does not fit. Times of the window are sent as the
  day they show.
\<close>

section \<open>The reports\<close>

definition note_day :: "note_rec \<Rightarrow> int" where
  "note_day n = the (parse_date (nw_effective n))"

definition in_window :: "gtime \<Rightarrow> gtime \<Rightarrow> note_rec \<Rightarrow> bool" where
  "in_window from until n \<longleftrightarrow> day_of from \<le> note_day n \<and> note_day n \<le> day_of until"

definition parse_window :: "gtime \<Rightarrow> gtime \<Rightarrow> string option" where
  "parse_window from until =
     (if is_zero_time from \<or> is_zero_time until \<or> gt_inst until < gt_inst from
      then Some ''report window (from/to) is required'' else None)"

abbreviation fits :: "int \<Rightarrow> bool" where
  "fits x \<equiv> - (2 ^ 63) \<le> x \<and> x < 2 ^ 63"

text \<open>The groups of a \<open>GROUP BY\<close>, in the order of \<open>ORDER BY\<close>.\<close>

definition group_keys :: "('k \<Rightarrow> 'k \<Rightarrow> bool) \<Rightarrow> ('a \<Rightarrow> 'k) \<Rightarrow> 'a list \<Rightarrow> 'k list" where
  "group_keys le k xs = sort_by le (remdups (map k xs))"

definition sum_of :: "('a \<Rightarrow> int) \<Rightarrow> ('a \<Rightarrow> bool) \<Rightarrow> 'a list \<Rightarrow> int" where
  "sum_of f p xs = sum_list (map f (filter p xs))"

definition count_of :: "('a \<Rightarrow> bool) \<Rightarrow> 'a list \<Rightarrow> int" where
  "count_of p xs = int (length (filter p xs))"

definition scan_rows :: "revenue_db env \<Rightarrow> string \<Rightarrow> ('r \<Rightarrow> bool) \<Rightarrow> 'r list \<Rightarrow> revenue_error + 'r list" where
  "scan_rows e what ok rows =
     (if list_all ok rows then stmt e what Revenue_Database (Inr rows) else Inl (Revenue_Database what))"

abbreviation not_draft :: "note_rec \<Rightarrow> bool" where "not_draft n \<equiv> nw_state n \<noteq> ''DRAFT''"
abbreviation settled :: "note_rec \<Rightarrow> bool" where "settled n \<equiv> nw_state n = ''SETTLED''"

record agency_revenue =
  ar_agency :: string
  ar_issued :: int
  ar_billed_usd :: int
  ar_billed_ngn :: int
  ar_settled :: int
  ar_settled_usd :: int
  ar_settled_ngn :: int
  ar_open_usd :: int
  ar_open_ngn :: int

definition agency_row :: "note_rec list \<Rightarrow> string \<Rightarrow> agency_revenue" where
  "agency_row all a =
     (let ns = filter (\<lambda>n. nw_agency n = a) all
      in \<lparr>ar_agency = a, ar_issued = count_of not_draft ns,
          ar_billed_usd = sum_of nw_usd not_draft ns, ar_billed_ngn = sum_of nw_ngn not_draft ns,
          ar_settled = count_of settled ns,
          ar_settled_usd = sum_of nw_usd settled ns, ar_settled_ngn = sum_of nw_ngn settled ns,
          ar_open_usd = sum_of nw_usd open_note ns, ar_open_ngn = sum_of nw_ngn open_note ns\<rparr>)"

definition agency_fits :: "agency_revenue \<Rightarrow> bool" where
  "agency_fits r \<longleftrightarrow> fits (ar_billed_usd r) \<and> fits (ar_billed_ngn r) \<and> fits (ar_settled_usd r) \<and>
     fits (ar_settled_ngn r) \<and> fits (ar_open_usd r) \<and> fits (ar_open_ngn r)"

definition revenue_by_agency ::
  "(string \<Rightarrow> string \<Rightarrow> bool) \<Rightarrow> revenue_db env \<Rightarrow> gtime \<Rightarrow> gtime \<Rightarrow> revenue_db \<Rightarrow> revenue_error + agency_revenue list" where
  "revenue_by_agency before e from until d =
     (let ns = filter (in_window from until) (rd_notes d)
      in and_then (stmt e ''revenue by agency'' Revenue_Database (Inr (group_keys before nw_agency ns)))
           (\<lambda>as. scan_rows e ''scan agency revenue'' agency_fits (map (agency_row ns) as)))"

record line_revenue =
  lv_instrument :: string
  lv_agency :: string
  lv_currency :: string
  lv_billed :: int
  lv_settled :: int
  lv_open :: int

text \<open>The join of the lines with their notes.\<close>

definition joined :: "gtime \<Rightarrow> gtime \<Rightarrow> revenue_db \<Rightarrow> (note_line \<times> note_rec) list" where
  "joined from until d =
     concat (map (\<lambda>l. map (\<lambda>n. (lr_line l, n)) (filter (\<lambda>n. nw_id n = lr_note l \<and> in_window from until n) (rd_notes d)))
       (rd_note_lines d))"

definition line_group :: "note_line \<times> note_rec \<Rightarrow> string \<times> string \<times> string" where
  "line_group x = (nl_instrument (fst x), nl_agency (fst x), nl_currency (fst x))"

definition group_before :: "(string \<Rightarrow> string \<Rightarrow> bool) \<Rightarrow> string \<times> string \<times> string \<Rightarrow> string \<times> string \<times> string \<Rightarrow> bool" where
  "group_before before x y =
     (case (x, y) of ((i, a, c), (j, b, k)) \<Rightarrow>
        if i \<noteq> j then before i j else if a \<noteq> b then before a b else before c k)"

definition line_row :: "(note_line \<times> note_rec) list \<Rightarrow> string \<times> string \<times> string \<Rightarrow> line_revenue" where
  "line_row all g =
     (let xs = filter (\<lambda>x. line_group x = g) all; amount = nl_amount \<circ> fst
      in \<lparr>lv_instrument = fst g, lv_agency = fst (snd g), lv_currency = snd (snd g),
          lv_billed = sum_of amount (not_draft \<circ> snd) xs, lv_settled = sum_of amount (settled \<circ> snd) xs,
          lv_open = sum_of amount (open_note \<circ> snd) xs\<rparr>)"

definition line_fits :: "line_revenue \<Rightarrow> bool" where
  "line_fits r \<longleftrightarrow> fits (lv_billed r) \<and> fits (lv_settled r) \<and> fits (lv_open r)"

definition revenue_by_line ::
  "(string \<Rightarrow> string \<Rightarrow> bool) \<Rightarrow> revenue_db env \<Rightarrow> gtime \<Rightarrow> gtime \<Rightarrow> revenue_db \<Rightarrow> revenue_error + line_revenue list" where
  "revenue_by_line before e from until d =
     (let xs = joined from until d
      in and_then (stmt e ''revenue by line'' Revenue_Database (Inr (group_keys (group_before before) line_group xs)))
           (\<lambda>gs. scan_rows e ''scan line revenue'' line_fits (map (line_row xs) gs)))"

record aging_bucket =
  gb_bucket :: string
  gb_agency :: string
  gb_count :: int
  gb_usd :: int
  gb_ngn :: int

definition bucket_of :: "gtime \<Rightarrow> note_rec \<Rightarrow> string" where
  "bucket_of as_of n =
     (let age = gt_inst as_of div day_ns - note_day n
      in if age \<le> 30 then ''0-30'' else if age \<le> 60 then ''31-60'' else if age \<le> 90 then ''61-90'' else ''90+'')"

definition aging_row :: "gtime \<Rightarrow> note_rec list \<Rightarrow> string \<times> string \<Rightarrow> aging_bucket" where
  "aging_row as_of all g =
     (let ns = filter (\<lambda>n. (bucket_of as_of n, nw_agency n) = g) all
      in \<lparr>gb_bucket = fst g, gb_agency = snd g, gb_count = int (length ns),
          gb_usd = sum_list (map nw_usd ns), gb_ngn = sum_list (map nw_ngn ns)\<rparr>)"

definition aging_unsettled ::
  "(string \<Rightarrow> string \<Rightarrow> bool) \<Rightarrow> revenue_db env \<Rightarrow> gtime \<Rightarrow> revenue_db \<Rightarrow> revenue_error + aging_bucket list" where
  "aging_unsettled before e as_of d =
     (let ns = filter open_note (rd_notes d); le = (\<lambda>x y. if fst x \<noteq> fst y then before (fst x) (fst y) else before (snd x) (snd y))
      in and_then (stmt e ''aging unsettled'' Revenue_Database (Inr (group_keys le (\<lambda>n. (bucket_of as_of n, nw_agency n)) ns)))
           (\<lambda>gs. scan_rows e ''scan aging bucket'' (\<lambda>r. fits (gb_usd r) \<and> fits (gb_ngn r)) (map (aging_row as_of ns) gs)))"

record exception_count =
  ec_class :: string
  ec_state :: string
  ec_count :: int

definition exception_counts ::
  "(string \<Rightarrow> string \<Rightarrow> bool) \<Rightarrow> revenue_db env \<Rightarrow> revenue_db \<Rightarrow> revenue_error + exception_count list" where
  "exception_counts before e d =
     (let k = (\<lambda>x. (ed_class (xr_decision x), xr_state x));
          le = (\<lambda>x y. if fst x \<noteq> fst y then before (fst x) (fst y) else before (snd x) (snd y))
      in and_then (stmt e ''exception counts'' Revenue_Database (Inr (group_keys le k (rd_exceptions d))))
           (\<lambda>gs. scan_rows e ''scan exception count'' (\<lambda>_. True)
              (map (\<lambda>g. \<lparr>ec_class = fst g, ec_state = snd g, ec_count = count_of (\<lambda>x. k x = g) (rd_exceptions d)\<rparr>) gs)))"

section \<open>Sums by groups\<close>

lemma set_group_keys [simp]: "set (group_keys le k xs) = k ` set xs"
  by (simp add: group_keys_def)

lemma distinct_group_keys: "distinct (group_keys le k xs)"
proof -
  have "mset (group_keys le k xs) = mset (remdups (map k xs))" by (simp add: group_keys_def)
  then show ?thesis by (metis distinct_remdups mset_eq_imp_distinct_iff)
qed

lemma sum_of_filter: "sum_of f p (filter q xs) = sum_of f (\<lambda>x. q x \<and> p x) xs"
  by (simp add: sum_of_def conj_commute)

lemma sum_of_by_keys: "distinct ks \<Longrightarrow> sum_list (map (\<lambda>g. sum_of f (\<lambda>x. k x = g \<and> p x) xs) ks) = sum_of f (\<lambda>x. k x \<in> set ks \<and> p x) xs"
proof (induction ks)
  case (Cons g ks)
  have "sum_of f (\<lambda>x. k x \<in> set (g # ks) \<and> p x) xs = sum_of f (\<lambda>x. k x = g \<and> p x) xs + sum_of f (\<lambda>x. k x \<in> set ks \<and> p x) xs"
    using Cons.prems by (induction xs) (auto simp: sum_of_def)
  then show ?case using Cons by simp
qed (simp add: sum_of_def)

lemma sum_of_cong: "(\<And>x. x \<in> set xs \<Longrightarrow> p x = q x) \<Longrightarrow> sum_of f p xs = sum_of f q xs"
  unfolding sum_of_def by (metis (mono_tags, lifting) filter_cong)

lemma sum_of_split: "(\<And>x. x \<in> set xs \<Longrightarrow> p x = (q x \<or> r x) \<and> \<not> (q x \<and> r x)) \<Longrightarrow> sum_of f p xs = sum_of f q xs + sum_of f r xs"
  by (induction xs) (auto simp: sum_of_def)

lemma sum_of_add: "sum_of f p (xs @ ys) = sum_of f p xs + sum_of f p ys"
  by (simp add: sum_of_def)

lemma sum_of_map: "sum_of f p (map g xs) = sum_of (f \<circ> g) (p \<circ> g) xs"
  by (simp add: sum_of_def filter_map)

lemma sum_of_mset: "mset xs = mset ys \<Longrightarrow> sum_of f p xs = sum_of f p ys"
  unfolding sum_of_def by (metis mset_filter mset_map sum_mset_sum_list)

lemma i64_sum: "i64 (sum_list (map (\<lambda>x. i64 (f x)) xs)) = i64 (sum_list (map f xs))"
proof (induction xs)
  case (Cons x xs)
  have "i64 (i64 (f x) + sum_list (map (\<lambda>x. i64 (f x)) xs)) = i64 (f x + i64 (sum_list (map (\<lambda>x. i64 (f x)) xs)))"
    by (simp add: i64_add_left i64_add_right)
  then show ?case by (simp add: Cons.IH i64_add_right)
qed simp

section \<open>The report by agency\<close>

lemma scan_rows_Inr: "scan_rows e l p rows = Inr rs \<longleftrightarrow> list_all p rows \<and> env_fault e l = No_Fault \<and> rs = rows"
  by (auto simp: scan_rows_def stmt_Inr_iff)

lemma agency_rows:
  assumes "revenue_by_agency before e from until d = Inr rows"
  defines "ns \<equiv> filter (in_window from until) (rd_notes d)"
  shows "rows = map (agency_row ns) (group_keys before nw_agency ns)" "list_all agency_fits rows"
  using assms(1) by (auto simp: revenue_by_agency_def Let_def ns_def and_then_Inr_iff stmt_Inr_iff scan_rows_Inr)

lemma agency_row_simps [simp]: "ar_agency (agency_row ns a) = a"
  by (simp add: agency_row_def Let_def)

lemma successively_last: "successively P ts \<Longrightarrow> length ts \<ge> 2 \<Longrightarrow> \<exists>a. P a (last ts)"
proof (induction ts rule: induct_list012)
  case (3 x y zs)
  then show ?case by (cases zs) auto
qed auto

lemma note_state_known:
  assumes "revenue_reach w d" "n \<in> set (rd_notes d)"
  shows "nw_state n \<in> {''DRAFT'', ''ISSUED'', ''ACKED'', ''DISPUTED'', ''SETTLED'', ''CANCELLED''}"
proof -
  obtain ts where ts: "log_ok n ts" using reach_note [OF assms] by (auto simp: note_row_ok_def)
  show ?thesis
  proof (cases "length ts \<ge> 2")
    case True
    then obtain a where "note_step a (last ts)" using successively_last ts unfolding log_ok_def by blast
    then show ?thesis using ts by (auto simp: note_step_def log_ok_def valid_transition_def split: if_splits)
  next
    case False
    then have "last ts = hd ts" using ts by (cases ts rule: remdups_adj.cases) (auto simp: log_ok_def)
    then show ?thesis using ts by (auto simp: log_ok_def)
  qed
qed

text \<open>The report by agency adds up. Its rows are the agencies with a note in the window, each once; a row's
  billed amount is what is settled, what is open and what was cancelled; and the rows together bill every note
  of the window that is not a draft.\<close>

theorem agency_report_adds_up:
  assumes "revenue_reach w d" and "revenue_by_agency before e from until d = Inr rows"
  defines "ns \<equiv> filter (in_window from until) (rd_notes d)"
  shows "distinct (map ar_agency rows) \<and> set (map ar_agency rows) = nw_agency ` set ns \<and>
    (\<forall>r \<in> set rows.
       ar_billed_usd r = ar_settled_usd r + ar_open_usd r + sum_of nw_usd (\<lambda>n. nw_agency n = ar_agency r \<and> nw_state n = ''CANCELLED'') ns \<and>
       ar_billed_ngn r = ar_settled_ngn r + ar_open_ngn r + sum_of nw_ngn (\<lambda>n. nw_agency n = ar_agency r \<and> nw_state n = ''CANCELLED'') ns) \<and>
    sum_list (map ar_billed_usd rows) = sum_of nw_usd (\<lambda>n. nw_state n \<noteq> ''DRAFT'') ns"
proof -
  note rows = agency_rows [OF assms(2), folded ns_def]
  have known: "nw_state n \<in> {''DRAFT'', ''ISSUED'', ''ACKED'', ''DISPUTED'', ''SETTLED'', ''CANCELLED''}" if "n \<in> set ns" for n
    using note_state_known [OF assms(1)] that by (simp add: ns_def)
  have split: "sum_of f (\<lambda>n. nw_agency n = a \<and> not_draft n) ns =
      sum_of f (\<lambda>n. nw_agency n = a \<and> settled n) ns + sum_of f (\<lambda>n. nw_agency n = a \<and> open_note n) ns +
      sum_of f (\<lambda>n. nw_agency n = a \<and> nw_state n = ''CANCELLED'') ns" for f a
  proof -
    have "sum_of f (\<lambda>n. nw_agency n = a \<and> not_draft n) ns = sum_of f (\<lambda>n. nw_agency n = a \<and> (settled n \<or> open_note n)) ns +
        sum_of f (\<lambda>n. nw_agency n = a \<and> nw_state n = ''CANCELLED'') ns"
      by (rule sum_of_split) (use known in \<open>auto simp: open_note_def\<close>)
    moreover have "sum_of f (\<lambda>n. nw_agency n = a \<and> (settled n \<or> open_note n)) ns =
        sum_of f (\<lambda>n. nw_agency n = a \<and> settled n) ns + sum_of f (\<lambda>n. nw_agency n = a \<and> open_note n) ns"
      by (rule sum_of_split) (auto simp: open_note_def)
    ultimately show ?thesis by simp
  qed
  have "sum_list (map ar_billed_usd rows) = sum_of nw_usd (\<lambda>n. nw_agency n \<in> set (group_keys before nw_agency ns) \<and> not_draft n) ns"
    using sum_of_by_keys [OF distinct_group_keys, of nw_usd nw_agency not_draft ns before nw_agency ns]
    by (simp add: rows(1) comp_def agency_row_def Let_def sum_of_filter)
  also have "\<dots> = sum_of nw_usd not_draft ns" by (rule sum_of_cong) simp
  finally show ?thesis
    using split by (auto simp: rows(1) comp_def distinct_group_keys agency_row_def Let_def sum_of_filter)
qed

text \<open>The paid note of the run, alone in the window of its own day.\<close>

lemma demo_window:
  obtains n t where "rd_notes demo_paid = [n]" "nw_id n = ''ru''" "nw_usd n = 2469135" "filter (in_window t t) (rd_notes demo_paid) = [n]"
    "revenue_by_agency text_le (quiet_env 0 (\<lambda>_. [])) t t demo_paid = Inr [agency_row [n] (nw_agency n)]"
proof (rule demo_settled)
  fix n assume n: "rd_notes demo_paid = [n]" "nw_id n = ''ru''" "nw_usd n = 2469135"
  let ?t = "utc_date (note_day n)"
  have one: "filter (in_window ?t ?t) (rd_notes demo_paid) = [n]" by (simp add: n in_window_def)
  have "n \<in> set (rd_notes demo_paid)" using n by simp
  then have "fits (nw_ngn n)" using note_totals(4) [OF demo_paid_reach] i64_bounds by metis
  then have "agency_fits (agency_row [n] (nw_agency n))"
    by (auto simp: agency_fits_def agency_row_def sum_of_def Let_def n(3))
  then have "revenue_by_agency text_le (quiet_env 0 (\<lambda>_. [])) ?t ?t demo_paid = Inr [agency_row [n] (nw_agency n)]"
    by (simp only: revenue_by_agency_def one Let_def) (simp add: group_keys_def scan_rows_def)
  then show thesis using that n one by blast
qed

lemma agency_report_adds_up_witness:
  "\<exists>t rows. revenue_by_agency text_le (quiet_env 0 (\<lambda>_. [])) t t demo_paid = Inr rows \<and> length rows = 1 \<and>
     sum_list (map ar_billed_usd rows) = 2469135"
proof (rule demo_window)
  fix n t assume w: "nw_usd n = 2469135" "filter (in_window t t) (rd_notes demo_paid) = [n]"
    "revenue_by_agency text_le (quiet_env 0 (\<lambda>_. [])) t t demo_paid = Inr [agency_row [n] (nw_agency n)]"
  have "nw_state n = ''SETTLED''" by (rule demo_settled) (use w(2) in \<open>auto split: if_splits\<close>)
  then have "sum_of nw_usd (\<lambda>n. nw_state n \<noteq> ''DRAFT'') [n] = 2469135" by (simp add: sum_of_def w(1))
  then show ?thesis using agency_report_adds_up [OF demo_paid_reach w(3)] w by (intro exI [of _ t] exI) auto
qed

section \<open>The report by line\<close>

lemma joined_total:
  "sum_of (nl_amount \<circ> fst) (\<lambda>x. p (snd x) \<and> q (fst x))
     (concat (map (\<lambda>l. map (\<lambda>n. (lr_line l, n)) (filter (\<lambda>n. nw_id n = lr_note l \<and> w n) ns)) ls)) =
   sum_list (map (\<lambda>n. sum_of nl_amount q (map lr_line (filter (\<lambda>l. lr_note l = nw_id n) ls))) (filter (\<lambda>n. w n \<and> p n) ns))"
proof (induction ls)
  case (Cons l ls)
  let ?one = "\<lambda>n. if lr_note l = nw_id n \<and> q (lr_line l) then nl_amount (lr_line l) else 0"
  let ?old = "\<lambda>n. sum_of nl_amount q (map lr_line (filter (\<lambda>x. lr_note x = nw_id n) ls))"
  have one: "sum_of (nl_amount \<circ> fst) (\<lambda>x. p (snd x) \<and> q (fst x)) (map (\<lambda>n. (lr_line l, n)) (filter (\<lambda>n. nw_id n = lr_note l \<and> w n) ns)) =
      sum_list (map ?one (filter (\<lambda>n. w n \<and> p n) ns))"
    by (induction ns) (auto simp: sum_of_def)
  have step: "sum_of nl_amount q (map lr_line (filter (\<lambda>x. lr_note x = nw_id n) (l # ls))) = ?one n + ?old n" for n
    by (simp add: sum_of_def)
  show ?case by (simp only: list.map concat.simps sum_of_add Cons.IH one step sum_list_addf)
qed (simp add: sum_of_def)

lemma joined_sum:
  "sum_of (nl_amount \<circ> fst) (\<lambda>x. p (snd x) \<and> q (fst x)) (joined from until d) =
   sum_list (map (\<lambda>n. sum_of nl_amount q (lines_of_note (nw_id n) d)) (filter (\<lambda>n. in_window from until n \<and> p n) (rd_notes d)))"
proof -
  have "sum_of nl_amount q (lines_of_note k d) = sum_of nl_amount q (map lr_line (filter (\<lambda>l. lr_note l = k) (rd_note_lines d)))" for k
    by (rule sum_of_mset) (simp add: lines_of_note_def)
  then show ?thesis by (simp only: joined_def joined_total)
qed

lemma joined_lines:
  assumes "x \<in> set (joined from until d)"
  shows "snd x \<in> set (rd_notes d)" "fst x \<in> set (lines_of_note (nw_id (snd x)) d)"
  using assms by (auto simp: joined_def lines_of_note_def)

lemma line_rows:
  assumes "revenue_by_line before e from until d = Inr rows"
  shows "rows = map (line_row (joined from until d)) (group_keys (group_before before) line_group (joined from until d))"
  using assms by (auto simp: revenue_by_line_def Let_def and_then_Inr_iff stmt_Inr_iff scan_rows_Inr)

text \<open>The rows of one agency and currency together are the lines of the agency's notes in that currency.\<close>

lemma lines_by_agency:
  fixes start until :: gtime
  assumes reach: "revenue_reach w d"
  defines "xs \<equiv> joined start until d"
  shows "sum_list (map (\<lambda>g. sum_of (nl_amount \<circ> fst) (\<lambda>x. line_group x = g \<and> p (snd x)) xs)
      (filter (\<lambda>g. fst (snd g) = a \<and> snd (snd g) = c) (group_keys le line_group xs))) =
    sum_list (map (\<lambda>n. sum_of nl_amount (\<lambda>l. nl_currency l = c) (lines_of_note (nw_id n) d))
      (filter (\<lambda>n. in_window start until n \<and> nw_agency n = a \<and> p n) (rd_notes d)))"
proof -
  let ?ks = "filter (\<lambda>g. fst (snd g) = a \<and> snd (snd g) = c) (group_keys le line_group xs)"
  have agency: "nl_agency (fst x) = nw_agency (snd x)" if "x \<in> set xs" for x
    using note_totals(2) [OF reach joined_lines(1)] joined_lines(2) that unfolding xs_def by blast
  have "sum_list (map (\<lambda>g. sum_of (nl_amount \<circ> fst) (\<lambda>x. line_group x = g \<and> p (snd x)) xs) ?ks) =
      sum_of (nl_amount \<circ> fst) (\<lambda>x. line_group x \<in> set ?ks \<and> p (snd x)) xs"
    by (rule sum_of_by_keys) (simp add: distinct_group_keys)
  also have "\<dots> = sum_of (nl_amount \<circ> fst) (\<lambda>x. (nw_agency (snd x) = a \<and> p (snd x)) \<and> nl_currency (fst x) = c) xs"
    by (rule sum_of_cong) (auto simp: line_group_def agency)
  also have "\<dots> = sum_list (map (\<lambda>n. sum_of nl_amount (\<lambda>l. nl_currency l = c) (lines_of_note (nw_id n) d))
      (filter (\<lambda>n. in_window start until n \<and> nw_agency n = a \<and> p n) (rd_notes d)))"
    unfolding xs_def by (rule joined_sum)
  finally show ?thesis .
qed

lemma line_columns:
  fixes a c :: string
  assumes "revenue_by_line before e from until d = Inr rows"
  defines "xs \<equiv> joined from until d"
  defines "ks \<equiv> filter (\<lambda>g. fst (snd g) = a \<and> snd (snd g) = c) (group_keys (group_before before) line_group xs)"
  shows "sum_list (map lv_billed (filter (\<lambda>r. lv_agency r = a \<and> lv_currency r = c) rows)) =
      sum_list (map (\<lambda>g. sum_of (nl_amount \<circ> fst) (\<lambda>x. line_group x = g \<and> not_draft (snd x)) xs) ks)"
    "sum_list (map lv_settled (filter (\<lambda>r. lv_agency r = a \<and> lv_currency r = c) rows)) =
      sum_list (map (\<lambda>g. sum_of (nl_amount \<circ> fst) (\<lambda>x. line_group x = g \<and> settled (snd x)) xs) ks)"
    "sum_list (map lv_open (filter (\<lambda>r. lv_agency r = a \<and> lv_currency r = c) rows)) =
      sum_list (map (\<lambda>g. sum_of (nl_amount \<circ> fst) (\<lambda>x. line_group x = g \<and> open_note (snd x)) xs) ks)"
proof -
  have names: "lv_agency (line_row xs g) = fst (snd g)" "lv_currency (line_row xs g) = snd (snd g)" for g
    by (simp_all add: line_row_def Let_def)
  have eq: "filter (\<lambda>r. lv_agency r = a \<and> lv_currency r = c) rows = map (line_row xs) ks"
    unfolding line_rows [OF assms(1)] filter_map ks_def xs_def [symmetric] by (simp add: comp_def names)
  have cols: "lv_billed (line_row xs g) = sum_of (nl_amount \<circ> fst) (\<lambda>x. line_group x = g \<and> not_draft (snd x)) xs"
    "lv_settled (line_row xs g) = sum_of (nl_amount \<circ> fst) (\<lambda>x. line_group x = g \<and> settled (snd x)) xs"
    "lv_open (line_row xs g) = sum_of (nl_amount \<circ> fst) (\<lambda>x. line_group x = g \<and> open_note (snd x)) xs" for g
    by (simp_all add: line_row_def Let_def sum_of_filter)
  show "sum_list (map lv_billed (filter (\<lambda>r. lv_agency r = a \<and> lv_currency r = c) rows)) =
      sum_list (map (\<lambda>g. sum_of (nl_amount \<circ> fst) (\<lambda>x. line_group x = g \<and> not_draft (snd x)) xs) ks)"
    unfolding eq map_map by (simp add: comp_def cols(1))
  show "sum_list (map lv_settled (filter (\<lambda>r. lv_agency r = a \<and> lv_currency r = c) rows)) =
      sum_list (map (\<lambda>g. sum_of (nl_amount \<circ> fst) (\<lambda>x. line_group x = g \<and> settled (snd x)) xs) ks)"
    unfolding eq map_map by (simp add: comp_def cols(2))
  show "sum_list (map lv_open (filter (\<lambda>r. lv_agency r = a \<and> lv_currency r = c) rows)) =
      sum_list (map (\<lambda>g. sum_of (nl_amount \<circ> fst) (\<lambda>x. line_group x = g \<and> open_note (snd x)) xs) ks)"
    unfolding eq map_map by (simp add: comp_def cols(3))
qed

text \<open>C40 The two reports agree. Over the same window the report by line, added up over an agency and a currency,
  is the report by agency modulo the \<open>int64\<close> wrap-around of the notes' totals: billed, settled and open.\<close>

theorem reports_agree:
  assumes reach: "revenue_reach w d" and agency: "revenue_by_agency before e from until d = Inr rows"
    and line: "revenue_by_line before2 e2 from until d = Inr ls" and r: "r \<in> set rows"
  defines "usd \<equiv> filter (\<lambda>l. lv_agency l = ar_agency r \<and> lv_currency l = ''USD'') ls"
    and "ngn \<equiv> filter (\<lambda>l. lv_agency l = ar_agency r \<and> lv_currency l = ''NGN'') ls"
  shows "ar_billed_usd r = i64 (sum_list (map lv_billed usd)) \<and> ar_billed_ngn r = i64 (sum_list (map lv_billed ngn)) \<and>
    ar_settled_usd r = i64 (sum_list (map lv_settled usd)) \<and> ar_settled_ngn r = i64 (sum_list (map lv_settled ngn)) \<and>
    ar_open_usd r = i64 (sum_list (map lv_open usd)) \<and> ar_open_ngn r = i64 (sum_list (map lv_open ngn))"
proof -
  let ?ns = "\<lambda>p. filter (\<lambda>n. in_window from until n \<and> nw_agency n = ar_agency r \<and> p n) (rd_notes d)"
  let ?lines = "\<lambda>c n. sum_of nl_amount (\<lambda>l. nl_currency l = c) (lines_of_note (nw_id n) d)"
  have row: "r = agency_row (filter (in_window from until) (rd_notes d)) (ar_agency r)" and fit: "agency_fits r"
    using agency_rows [OF agency] r by (auto simp: list_all_iff)
  have cols: "ar_billed_usd r = sum_list (map nw_usd (?ns not_draft))" "ar_billed_ngn r = sum_list (map nw_ngn (?ns not_draft))"
    "ar_settled_usd r = sum_list (map nw_usd (?ns settled))" "ar_settled_ngn r = sum_list (map nw_ngn (?ns settled))"
    "ar_open_usd r = sum_list (map nw_usd (?ns open_note))" "ar_open_ngn r = sum_list (map nw_ngn (?ns open_note))"
    by (subst row, simp add: agency_row_def Let_def sum_of_def conj_commute conj_left_commute)+
  have usd: "sum_list (map nw_usd (?ns p)) = sum_list (map (\<lambda>n. i64 (?lines ''USD'' n)) (?ns p))"
    and ngn: "sum_list (map nw_ngn (?ns p)) = sum_list (map (\<lambda>n. i64 (?lines ''NGN'' n)) (?ns p))" for p
    using note_totals(3,4) [OF reach] by (auto simp: sum_of_def intro!: arg_cong [where f = sum_list])
  have id: "i64 x = x" if "fits x" for x using that by (intro i64_id) simp_all
  have wrap: "i64 (sum_list (map (?lines ''USD'') (?ns p))) = i64 (sum_list (map nw_usd (?ns p)))"
    "i64 (sum_list (map (?lines ''NGN'') (?ns p))) = i64 (sum_list (map nw_ngn (?ns p)))" for p
    by (simp_all only: usd ngn i64_sum)
  note sums = line_columns [OF line] lines_by_agency [OF reach, where p = not_draft]
    lines_by_agency [OF reach, where p = settled] lines_by_agency [OF reach, where p = open_note] wrap cols [symmetric]
  show ?thesis
    unfolding usd_def ngn_def by (simp only: sums) (use fit in \<open>simp add: id agency_fits_def\<close>)
qed

lemma reports_agree_witness:
  "\<exists>t r ls. revenue_by_agency text_le (quiet_env 0 (\<lambda>_. [])) t t demo_paid = Inr [r] \<and>
     revenue_by_line text_le (quiet_env 0 (\<lambda>_. [])) t t demo_paid = Inr ls \<and> length ls = 1 \<and>
     ar_billed_usd r = i64 (sum_list (map lv_billed (filter (\<lambda>l. lv_agency l = ar_agency r \<and> lv_currency l = ''USD'') ls)))"
proof (rule demo_window)
  fix n t assume w: "rd_notes demo_paid = [n]" "nw_id n = ''ru''" "filter (in_window t t) (rd_notes demo_paid) = [n]"
    "revenue_by_agency text_le (quiet_env 0 (\<lambda>_. [])) t t demo_paid = Inr [agency_row [n] (nw_agency n)]"
  obtain l where l: "rd_note_lines demo_paid = [l]" "lr_note l = ''ru''" "nl_amount (lr_line l) = 2469135"
    using demo_line by (auto simp: map_eq_Cons_conv)
  have "in_window t t n" using w(1,3) by (auto split: if_splits)
  then have j: "joined t t demo_paid = [(lr_line l, n)]" by (simp add: joined_def l w(1,2))
  let ?rows = "[line_row [(lr_line l, n)] (line_group (lr_line l, n))]"
  have "line_fits (hd ?rows)" by (simp add: line_fits_def line_row_def Let_def sum_of_def l(3))
  then have bl: "revenue_by_line text_le (quiet_env 0 (\<lambda>_. [])) t t demo_paid = Inr ?rows"
    by (simp only: revenue_by_line_def j Let_def) (simp add: group_keys_def scan_rows_def)
  let ?r = "agency_row [n] (nw_agency n)"
  have "ar_billed_usd ?r = i64 (sum_list (map lv_billed (filter (\<lambda>l. lv_agency l = ar_agency ?r \<and> lv_currency l = ''USD'') ?rows)))"
    using reports_agree [OF demo_paid_reach w(4) bl, of ?r] by simp
  then have "revenue_by_agency text_le (quiet_env 0 (\<lambda>_. [])) t t demo_paid = Inr [?r] \<and>
      revenue_by_line text_le (quiet_env 0 (\<lambda>_. [])) t t demo_paid = Inr ?rows \<and> length ?rows = 1 \<and>
      ar_billed_usd ?r = i64 (sum_list (map lv_billed (filter (\<lambda>l. lv_agency l = ar_agency ?r \<and> lv_currency l = ''USD'') ?rows)))"
    using w(4) bl by simp
  then show ?thesis by blast
qed

section \<open>Aging and exceptions\<close>

text \<open>Every open note is in one bucket, and every exception in one cell.\<close>

lemma sum_indicator: "distinct ks \<Longrightarrow> sum_list (map (\<lambda>g. if x = g then 1 else 0) ks) = (if x \<in> set ks then 1 else 0 :: nat)"
  by (induction ks) auto

lemma sum_list_int: "sum_list (map (\<lambda>x. int (f x)) xs) = int (sum_list (map f xs))"
  by (induction xs) simp_all

lemma group_sizes: "distinct ks \<Longrightarrow> k ` set xs \<subseteq> set ks \<Longrightarrow> sum_list (map (\<lambda>g. length (filter (\<lambda>x. k x = g) xs)) ks) = length xs"
proof (induction xs)
  case (Cons x xs)
  have "sum_list (map (\<lambda>g. length (filter (\<lambda>y. k y = g) (x # xs))) ks) =
      sum_list (map (\<lambda>g. (if k x = g then 1 else 0) + length (filter (\<lambda>y. k y = g) xs)) ks)"
    by (intro arg_cong [where f = sum_list] map_cong) simp_all
  moreover have "sum_list (map (\<lambda>g. if k x = g then 1 else 0 :: nat) ks) = 1"
    using Cons.prems by (simp add: sum_indicator)
  ultimately show ?case using Cons by (simp add: sum_list_addf)
qed simp

lemma aging_counts_every_open_note:
  assumes "aging_unsettled before e as_of d = Inr rows"
  shows "sum_list (map gb_count rows) = int (length (filter open_note (rd_notes d)))"
proof -
  let ?ns = "filter open_note (rd_notes d)" and ?k = "\<lambda>n. (bucket_of as_of n, nw_agency n)"
  let ?le = "\<lambda>x y :: string \<times> string. if fst x \<noteq> fst y then before (fst x) (fst y) else before (snd x) (snd y)"
  have "rows = map (aging_row as_of ?ns) (group_keys ?le ?k ?ns)"
    using assms by (auto simp: aging_unsettled_def Let_def and_then_Inr_iff stmt_Inr_iff scan_rows_Inr)
  then have "sum_list (map gb_count rows) = int (sum_list (map (\<lambda>g. length (filter (\<lambda>n. ?k n = g) ?ns)) (group_keys ?le ?k ?ns)))"
    by (simp add: comp_def aging_row_def Let_def sum_list_int)
  then show ?thesis using group_sizes [OF distinct_group_keys, of ?k ?ns ?le ?k ?ns] by simp
qed

end
