(* ===== verification/Trade_Model.thy ===== *)
theory Trade_Model
  imports Go_Text Database
begin

text \<open>
  The trade-finance rail: \<open>internal/tradefinance/consent.go\<close>, the consents under maker-checker control and their
  hash-chained audit, and \<open>product.go\<close>, the life of a financing application. Texts of roles, scopes, products and
  decisions come from requests and stay texts; states do not. An instant is an \<open>int\<close> of nanoseconds since the
  epoch. The digest behind the audit chain is the parameter \<open>sha\<close>. Where the source walks through a map the
  model walks in the order given; it decides only which of several errors is reported.
\<close>

section \<open>Errors\<close>

datatype trade_error =
  ErrNotFoundTf | ErrConflictTf | ErrInvalidStateTf | ErrRoleSeparationTf | ErrRoleNotAssignedTf
| ErrSequenceViolationTf | ErrTerminalStateTf | ErrRoleAssignmentInvalidTf | ErrConsentRequired trade_error
| ErrLedgerAccountsMissing | ErrConsentNotFound | ErrConsentConflict | ErrConsentState | ErrMakerCheckerTf
| ErrScopeNotConsented | ErrConsentExpired | ErrConsentScopeInvalid | ErrDatasetRefMissing
| ErrConsentTerminalState | ErrConsentSignatureAbsent | Trade_Text string | Trade_Database string

section \<open>Consents\<close>

definition consent_scopes :: "string list" where
  "consent_scopes = [''DECLARATION_DIGESTS'', ''DUTY_PAYMENT_HISTORY'', ''TAX_STAMP_STATUS'']"

definition valid_scope :: "string \<Rightarrow> bool" where
  "valid_scope s \<longleftrightarrow> s \<in> set consent_scopes"

datatype consent_state =
  ConsentPendingChecker | ConsentActive | ConsentRejected | ConsentRevocationPending | ConsentRevoked

fun consent_text :: "consent_state \<Rightarrow> string" where
  "consent_text ConsentPendingChecker = ''PENDING_CHECKER''"
| "consent_text ConsentActive = ''ACTIVE''"
| "consent_text ConsentRejected = ''REJECTED''"
| "consent_text ConsentRevocationPending = ''REVOCATION_PENDING''"
| "consent_text ConsentRevoked = ''REVOKED''"

type_synonym dataset_refs = "(string \<times> string list) list"

record consent =
  cn_id :: string
  cn_trader :: string
  cn_bank :: string
  cn_scopes :: "string list"
  cn_refs :: dataset_refs
  cn_state :: consent_state
  cn_expires :: int
  cn_maker :: string
  cn_checker :: string
  cn_jws :: string
  cn_bundle :: string
  cn_created :: int
  cn_updated :: int
  cn_version :: int

text \<open>The pattern \<open>^(sha256:)?[0-9a-f]{64}$\<close>.\<close>

definition digest_reference :: "string \<Rightarrow> bool" where
  "digest_reference s =
     (let hex = (if take 7 s = ''sha256:'' then drop 7 s else s)
      in length hex = 64 \<and> list_all (\<lambda>c. is_digit c \<or> c \<in> set ''abcdef'') hex)"

definition refs_at :: "dataset_refs \<Rightarrow> string \<Rightarrow> string list" where
  "refs_at refs scope = (case map_of refs scope of None \<Rightarrow> [] | Some rs \<Rightarrow> rs)"

fun scopes_error :: "dataset_refs \<Rightarrow> string list \<Rightarrow> string list \<Rightarrow> trade_error option" where
  "scopes_error refs seen [] = None"
| "scopes_error refs seen (s # ss) =
     (if \<not> valid_scope s \<or> s \<in> set seen then Some ErrConsentScopeInvalid
      else if refs_at refs s = [] then Some ErrDatasetRefMissing
      else if \<not> list_all digest_reference (refs_at refs s) then Some (Trade_Text ''dataset ref is not a digest reference'')
      else scopes_error refs (s # seen) ss)"

definition max_consent_lifetime :: int where
  "max_consent_lifetime = 366 * day_ns"

text \<open>The identifiers checked first, in some order of the map literal.\<close>

definition consent_ids_ok :: "consent \<Rightarrow> bool" where
  "consent_ids_ok c \<longleftrightarrow> canonical_id (cn_id c) \<and> canonical_id (cn_trader c) \<and> canonical_id (cn_bank c) \<and> canonical_id (cn_maker c)"

definition new_consent :: "consent \<Rightarrow> int \<Rightarrow> trade_error + consent" where
  "new_consent c now =
     (if \<not> consent_ids_ok c then Inl (Trade_Text ''is not canonical approved identifier text'')
      else if cn_scopes c = [] then Inl ErrConsentScopeInvalid
      else case scopes_error (cn_refs c) [] (cn_scopes c) of
             Some err \<Rightarrow> Inl err
           | None \<Rightarrow>
               if \<not> fst ` set (cn_refs c) \<subseteq> set (cn_scopes c) then Inl ErrConsentScopeInvalid
               else if \<not> now < cn_expires c then Inl (Trade_Text ''consent expiry must be in the future'')
               else if now + max_consent_lifetime < cn_expires c then Inl (Trade_Text ''consent expiry exceeds the 366-day maximum'')
               else Inr \<lparr>cn_id = cn_id c, cn_trader = cn_trader c, cn_bank = cn_bank c, cn_scopes = cn_scopes c,
                      cn_refs = cn_refs c, cn_state = ConsentPendingChecker, cn_expires = cn_expires c, cn_maker = cn_maker c,
                      cn_checker = [], cn_jws = [], cn_bundle = [], cn_created = -62135596800 * 1000000000,
                      cn_updated = -62135596800 * 1000000000, cn_version = 0\<rparr>)"

definition shareable :: "consent \<Rightarrow> int \<Rightarrow> bool" where
  "shareable c now \<longleftrightarrow> cn_state c = ConsentActive \<and> now < cn_expires c"

definition covers_scope :: "consent \<Rightarrow> string \<Rightarrow> bool" where
  "covers_scope c s \<longleftrightarrow> s \<in> set (cn_scopes c)"

definition activate_consent :: "consent \<Rightarrow> string \<Rightarrow> string \<Rightarrow> string \<Rightarrow> trade_error + consent" where
  "activate_consent c checker jws bundle =
     (if cn_state c = ConsentRejected \<or> cn_state c = ConsentRevoked then Inl ErrConsentTerminalState
      else if cn_state c \<noteq> ConsentPendingChecker then Inl ErrConsentState
      else if \<not> canonical_id checker then Inl (Trade_Text ''checker_principal is not canonical approved identifier text'')
      else if checker = cn_maker c then Inl ErrMakerCheckerTf
      else if jws = [] \<or> bundle = [] then Inl ErrConsentSignatureAbsent
      else Inr (c\<lparr>cn_state := ConsentActive, cn_checker := checker, cn_jws := jws, cn_bundle := bundle\<rparr>))"

definition reject_grant :: "consent \<Rightarrow> string \<Rightarrow> trade_error + consent" where
  "reject_grant c checker =
     (if cn_state c \<noteq> ConsentPendingChecker then Inl ErrConsentState
      else if \<not> canonical_id checker then Inl (Trade_Text ''checker_principal is not canonical approved identifier text'')
      else if checker = cn_maker c then Inl ErrMakerCheckerTf
      else Inr (c\<lparr>cn_state := ConsentRejected, cn_checker := checker\<rparr>))"

definition request_revocation_of :: "consent \<Rightarrow> string \<Rightarrow> trade_error + consent" where
  "request_revocation_of c maker =
     (if cn_state c = ConsentRejected \<or> cn_state c = ConsentRevoked then Inl ErrConsentTerminalState
      else if cn_state c \<noteq> ConsentActive then Inl ErrConsentState
      else if \<not> canonical_id maker then Inl (Trade_Text ''maker_principal is not canonical approved identifier text'')
      else if maker \<noteq> cn_maker c then Inl (Trade_Text ''only the consenting trader who may request revocation'')
      else Inr (c\<lparr>cn_state := ConsentRevocationPending\<rparr>))"

definition confirm_revocation_of :: "consent \<Rightarrow> string \<Rightarrow> trade_error + consent" where
  "confirm_revocation_of c checker =
     (if cn_state c \<noteq> ConsentRevocationPending then Inl ErrConsentState
      else if \<not> canonical_id checker then Inl (Trade_Text ''checker_principal is not canonical approved identifier text'')
      else if checker = cn_maker c then Inl ErrMakerCheckerTf
      else Inr (c\<lparr>cn_state := ConsentRevoked, cn_checker := checker\<rparr>))"

definition reject_revocation_of :: "consent \<Rightarrow> string \<Rightarrow> trade_error + consent" where
  "reject_revocation_of c checker =
     (if cn_state c \<noteq> ConsentRevocationPending then Inl ErrConsentState
      else if \<not> canonical_id checker then Inl (Trade_Text ''checker_principal is not canonical approved identifier text'')
      else if checker = cn_maker c then Inl ErrMakerCheckerTf
      else Inr (c\<lparr>cn_state := ConsentActive, cn_checker := checker\<rparr>))"

section \<open>The audit chain\<close>

text \<open>\<open>time.RFC3339Nano\<close> of an instant in UTC.\<close>

definition clock_text :: "int \<Rightarrow> string" where
  "clock_text sod = padded 2 (sod div 3600) @ '':'' @ padded 2 (sod div 60 mod 60) @ '':'' @ padded 2 (sod mod 60)"

definition nano_text :: "int \<Rightarrow> string" where
  "nano_text ns = (if ns = 0 then [] else CHR ''.'' # rev (dropWhile (\<lambda>c. c = CHR ''0'') (rev (padded 9 ns))))"

definition rfc3339_nano :: "int \<Rightarrow> string" where
  "rfc3339_nano t =
     format_date (t div 1000000000 div 86400) @ ''T'' @ clock_text (t div 1000000000 mod 86400) @
     nano_text (t mod 1000000000) @ ''Z''"

record audit_entry =
  ae_id :: string
  ae_consent :: string
  ae_seq :: int
  ae_actor :: string
  ae_action :: string
  ae_from :: string
  ae_to :: string
  ae_hash :: string
  ae_prev :: string
  ae_created :: int

fun join_bars :: "string list \<Rightarrow> string" where
  "join_bars [] = []"
| "join_bars [x] = x"
| "join_bars (x # xs) = x @ CHR ''|'' # join_bars xs"

definition chain_hash ::
  "(string \<Rightarrow> string) \<Rightarrow> string \<Rightarrow> int \<Rightarrow> string \<Rightarrow> string \<Rightarrow> string \<Rightarrow> string \<Rightarrow> string \<Rightarrow> int \<Rightarrow> string" where
  "chain_hash sha consent seq actor action from to prev created =
     sha (join_bars [consent, dec seq, actor, action, from, to, prev, rfc3339_nano created])"

definition genesis_prev_hash :: string where
  "genesis_prev_hash = replicate 64 CHR ''0''"

definition new_audit_entry ::
  "(string \<Rightarrow> string) \<Rightarrow> string \<Rightarrow> string \<Rightarrow> int \<Rightarrow> string \<Rightarrow> string \<Rightarrow> string \<Rightarrow> string \<Rightarrow> string \<Rightarrow> int \<Rightarrow> audit_entry" where
  "new_audit_entry sha i consent seq actor action from to prev now =
     (let created = now div 1000 * 1000
      in \<lparr>ae_id = i, ae_consent = consent, ae_seq = seq, ae_actor = actor, ae_action = action, ae_from = from, ae_to = to,
          ae_hash = chain_hash sha consent seq actor action from to prev created, ae_prev = prev, ae_created = created\<rparr>)"

fun verify_entries :: "(string \<Rightarrow> string) \<Rightarrow> nat \<Rightarrow> string \<Rightarrow> audit_entry list \<Rightarrow> string option" where
  "verify_entries sha index prev [] = None"
| "verify_entries sha index prev (e # es) =
     (if ae_seq e \<noteq> int index + 1 then Some ''consent audit chain gap''
      else if ae_prev e \<noteq> prev then Some ''consent audit chain broken''
      else if chain_hash sha (ae_consent e) (ae_seq e) (ae_actor e) (ae_action e) (ae_from e) (ae_to e) (ae_prev e) (ae_created e) \<noteq> ae_hash e
      then Some ''consent audit entry hash mismatch''
      else verify_entries sha (Suc index) (ae_hash e) es)"

definition verify_audit_chain :: "(string \<Rightarrow> string) \<Rightarrow> audit_entry list \<Rightarrow> string option" where
  "verify_audit_chain sha es = verify_entries sha 0 genesis_prev_hash es"

section \<open>Applications\<close>

definition products :: "string list" where
  "products = [''IMPORT_LC_FACILITATION'', ''EXPORT_PRESHIPMENT_FINANCE'', ''INVOICE_RECEIVABLES_FINANCE'',
     ''DUTY_DEFERRAL_GUARANTEE'']"

datatype tf_state =
  Tf_Application | Tf_Consent_Check | Tf_Bank_Review | Tf_Clearance | Tf_Approved | Tf_Disbursement_Pending
| Tf_Disbursed | Tf_Settled | Tf_Declined

definition tf_chain_roles :: "string list" where
  "tf_chain_roles = [''BANK_KYC_OFFICER'', ''BANK_CREDIT_OFFICER'', ''CUSTOMS_COMPLIANCE_OFFICER'', ''BANK_TREASURY_OFFICER'', ''TRADER'']"

type_synonym tf_assignments = "(string \<times> string) list"

record tf_application =
  ta_id :: string
  ta_ref :: string
  ta_trader :: string
  ta_bank :: string
  ta_consent :: string
  ta_product :: string
  ta_amount :: u64
  ta_currency :: string
  ta_state :: tf_state
  ta_facility :: string
  ta_settlement :: string
  ta_created :: int
  ta_updated :: int
  ta_version :: int

record tf_approval =
  tv_id :: string
  tv_app :: string
  tv_role :: string
  tv_principal :: string
  tv_decision :: string
  tv_from :: tf_state
  tv_to :: tf_state
  tv_created :: int

definition tf_currency_error :: "string \<Rightarrow> trade_error option" where
  "tf_currency_error c =
     (if c = ''NGN'' \<or> c = ''USD'' then None else Some (Trade_Text ''currency is not an approved ledger currency''))"

definition application_error :: "tf_application \<Rightarrow> trade_error option" where
  "application_error a =
     (if \<not> list_all canonical_id [ta_id a, ta_ref a, ta_trader a, ta_bank a, ta_consent a]
      then Some (Trade_Text ''is not canonical approved identifier text'')
      else if ta_product a \<notin> set products then Some (Trade_Text ''product is not in the standardized catalogue'')
      else if ta_amount a = 0 then Some (Trade_Text ''amount must be non-zero'')
      else tf_currency_error (ta_currency a))"

fun chain_error :: "tf_assignments \<Rightarrow> string list \<Rightarrow> trade_error option" where
  "chain_error as [] = None"
| "chain_error as (r # rs) =
     (case map_of as r of
        None \<Rightarrow> Some ErrRoleAssignmentInvalidTf
      | Some p \<Rightarrow> if \<not> canonical_id p then Some (Trade_Text ''principal_id is not canonical approved identifier text'')
                 else chain_error as rs)"

definition assignments_error :: "tf_assignments \<Rightarrow> trade_error option" where
  "assignments_error as =
     (case chain_error as tf_chain_roles of
        Some err \<Rightarrow> Some err
      | None \<Rightarrow> if distinct (map snd as) then None else Some ErrRoleSeparationTf)"

fun required_role_tf :: "tf_state \<Rightarrow> string option" where
  "required_role_tf Tf_Consent_Check = Some ''BANK_KYC_OFFICER''"
| "required_role_tf Tf_Bank_Review = Some ''BANK_CREDIT_OFFICER''"
| "required_role_tf Tf_Clearance = Some ''CUSTOMS_COMPLIANCE_OFFICER''"
| "required_role_tf Tf_Approved = Some ''TRADER''"
| "required_role_tf Tf_Disbursement_Pending = Some ''BANK_TREASURY_OFFICER''"
| "required_role_tf Tf_Disbursed = Some ''TRADER''"
| "required_role_tf _ = None"

fun tf_successor :: "tf_state \<Rightarrow> tf_state option" where
  "tf_successor Tf_Application = Some Tf_Consent_Check"
| "tf_successor Tf_Consent_Check = Some Tf_Bank_Review"
| "tf_successor Tf_Bank_Review = Some Tf_Clearance"
| "tf_successor Tf_Clearance = Some Tf_Approved"
| "tf_successor Tf_Approved = Some Tf_Disbursement_Pending"
| "tf_successor Tf_Disbursement_Pending = Some Tf_Disbursed"
| "tf_successor Tf_Disbursed = Some Tf_Settled"
| "tf_successor _ = None"

definition terminal_tf :: "tf_state \<Rightarrow> bool" where
  "terminal_tf s \<longleftrightarrow> s = Tf_Declined \<or> s = Tf_Settled"

definition begin_review :: "tf_application \<Rightarrow> trade_error + tf_application" where
  "begin_review a =
     (if terminal_tf (ta_state a) then Inl ErrTerminalStateTf
      else if ta_state a \<noteq> Tf_Application then Inl ErrSequenceViolationTf
      else Inr (a\<lparr>ta_state := the (tf_successor Tf_Application)\<rparr>))"

definition apply_decision_tf ::
  "tf_application \<Rightarrow> tf_assignments \<Rightarrow> string \<Rightarrow> string \<Rightarrow> trade_error + tf_application \<times> tf_approval" where
  "apply_decision_tf a as who decision =
     (if terminal_tf (ta_state a) then Inl ErrTerminalStateTf
      else if decision \<noteq> ''APPROVE'' \<and> decision \<noteq> ''REJECT'' then Inl ErrInvalidStateTf
      else case required_role_tf (ta_state a) of
             None \<Rightarrow> Inl ErrSequenceViolationTf
           | Some role \<Rightarrow>
               if \<not> canonical_id who then Inl (Trade_Text ''principal_id is not canonical approved identifier text'')
               else if map_of as role \<noteq> Some who then Inl ErrRoleNotAssignedTf
               else if \<exists>x \<in> set as. snd x = who \<and> fst x \<noteq> role then Inl ErrRoleSeparationTf
               else let v = (\<lambda>until. \<lparr>tv_id = [], tv_app = ta_id a, tv_role = role, tv_principal = who, tv_decision = decision,
                       tv_from = ta_state a, tv_to = until, tv_created = -62135596800 * 1000000000\<rparr>)
                    in if decision = ''REJECT'' then Inr (a\<lparr>ta_state := Tf_Declined\<rparr>, v Tf_Declined)
                       else case tf_successor (ta_state a) of
                              None \<Rightarrow> Inl ErrInvalidStateTf
                            | Some until \<Rightarrow> Inr (a\<lparr>ta_state := until\<rparr>, v until))"

lemma time_examples:
  "rfc3339_nano (- 62135596799000000000) = ''0001-01-01T00:00:01Z''" "nano_text 70 = ''.00000007''"
  "digest_reference (''sha256:'' @ replicate 64 CHR ''a'')"
  by code_simp+

end
