(* ===== verification/Trade_Store.thy ===== *)
theory Trade_Store
  imports Trade_Model
begin

text \<open>
  \<open>internal/tradefinance/store.go\<close> over the tables of \<open>0011_tradefinance.sql\<close>. Timestamps are stored in whole
  microseconds; an empty text stands for a NULL column. The sealing of a consent is the parameter \<open>sign\<close>, from
  the payload and the clock to the bundle and its signature. \<open>JSONB\<close> payloads are the values they encode.
\<close>

section \<open>Tables\<close>

datatype tf_payload = Ev_Consent consent | Ev_Application tf_application | Ev_Approval tf_approval

record tf_transition =
  tt_id :: string
  tt_app :: string
  tt_from :: tf_state
  tt_to :: tf_state
  tt_role :: string
  tt_principal :: string
  tt_event :: string
  tt_created :: int

record tf_event =
  te_id :: string
  te_subject :: string
  te_type :: string
  te_payload :: tf_payload
  te_created :: int

record tf_leg =
  tg_app :: string
  tg_reserve :: string
  tg_disburse :: "string option"
  tg_settle :: "string option"
  tg_amount :: u64
  tg_currency :: string
  tg_created :: int
  tg_updated :: int

record tf_db =
  tf_consents :: "consent list"
  tf_audit :: "audit_entry list"
  tf_apps :: "tf_application list"
  tf_roles :: "(string \<times> string \<times> string) list"
  tf_approvals :: "tf_approval list"
  tf_transitions :: "tf_transition list"
  tf_legs :: "tf_leg list"
  tf_outbox :: "tf_event list"

definition micro :: "int \<Rightarrow> int" where
  "micro t = t div 1000 * 1000"

definition consent_checks :: "consent \<Rightarrow> bool" where
  "consent_checks c \<longleftrightarrow> cn_scopes c \<noteq> [] \<and> (cn_checker c = [] \<or> cn_checker c \<noteq> cn_maker c) \<and> 0 < cn_version c"

definition open_consent :: "consent \<Rightarrow> bool" where
  "open_consent c \<longleftrightarrow> cn_state c \<in> {ConsentPendingChecker, ConsentActive, ConsentRevocationPending}"

definition open_pairs :: "consent list \<Rightarrow> (string \<times> string) list" where
  "open_pairs cs = map (\<lambda>c. (cn_trader c, cn_bank c)) (filter open_consent cs)"

definition audit_actions :: "string list" where
  "audit_actions = [''REQUESTED'', ''ACTIVATED'', ''REJECTED'', ''REVOCATION_REQUESTED'', ''REVOKED'', ''REVOCATION_REJECTED'']"

definition tf_event_types :: "string list" where
  "tf_event_types = [''tradefinance.consent.requested'', ''tradefinance.consent.activated'', ''tradefinance.consent.rejected'',
     ''tradefinance.consent.revocation_requested'', ''tradefinance.consent.revoked'', ''tradefinance.application.submitted'',
     ''tradefinance.application.decision_recorded'', ''tradefinance.application.disbursed'', ''tradefinance.application.settled'']"

definition app_checks :: "tf_application \<Rightarrow> bool" where
  "app_checks a \<longleftrightarrow> ta_product a \<in> set products \<and> ta_amount a \<noteq> 0 \<and> uint (ta_amount a) < 2 ^ 63 \<and>
     ta_currency a \<in> {''NGN'', ''USD''} \<and> 0 < ta_version a"

section \<open>Audit and outbox\<close>

definition audit_rows :: "string \<Rightarrow> tf_db \<Rightarrow> audit_entry list" where
  "audit_rows k d = filter (\<lambda>x. ae_consent x = k) (tf_audit d)"

definition newest_audit :: "string \<Rightarrow> tf_db \<Rightarrow> string \<times> int" where
  "newest_audit k d =
     (case sort_by (\<lambda>a b. ae_seq b \<le> ae_seq a) (audit_rows k d) of [] \<Rightarrow> ([], 0) | x # _ \<Rightarrow> (ae_hash x, ae_seq x))"

definition append_audit ::
  "(string \<Rightarrow> string) \<Rightarrow> tf_db env \<Rightarrow> nat \<Rightarrow> string \<Rightarrow> string \<Rightarrow> string \<Rightarrow> string \<Rightarrow> string \<Rightarrow> int \<Rightarrow> tf_db \<Rightarrow> trade_error + tf_db" where
  "append_audit sha e n k actor action from to now d =
     and_then (stmt e ''lock consent audit chain'' Trade_Database
       (if k \<notin> set (map cn_id (tf_consents d)) then Inl (Trade_Database ''lock consent audit chain'')
        else Inr (newest_audit k d))) (\<lambda>(prev, seq).
     let entry = new_audit_entry sha (env_uuid e n) k (seq + 1) actor action from to
                   (if prev = [] then genesis_prev_hash else prev) now
     in stmt e ''write consent audit'' Trade_Database
          (if ae_id entry \<in> set (map ae_id (tf_audit d)) \<or> (k, seq + 1) \<in> set (map (\<lambda>x. (ae_consent x, ae_seq x)) (tf_audit d))
              \<or> action \<notin> set audit_actions
           then Inl (Trade_Database ''write consent audit'')
           else Inr (d\<lparr>tf_audit := tf_audit d @ [entry\<lparr>ae_created := micro (ae_created entry)\<rparr>]\<rparr>)))"

definition tf_append_event ::
  "tf_db env \<Rightarrow> nat \<Rightarrow> string \<Rightarrow> string \<Rightarrow> tf_payload \<Rightarrow> int \<Rightarrow> tf_db \<Rightarrow> trade_error + tf_db" where
  "tf_append_event e n subject kind value now d =
     stmt e ''write tradefinance event'' Trade_Database
       (if env_uuid e n \<in> set (map te_id (tf_outbox d)) \<or> kind \<notin> set tf_event_types
        then Inl (Trade_Database ''write tradefinance event'')
        else Inr (d\<lparr>tf_outbox := tf_outbox d @ [\<lparr>te_id = env_uuid e n, te_subject = subject, te_type = kind,
                     te_payload = value, te_created = micro now\<rparr>]\<rparr>))"

definition tf_append_transition ::
  "tf_db env \<Rightarrow> nat \<Rightarrow> string \<Rightarrow> tf_state \<Rightarrow> tf_state \<Rightarrow> string \<Rightarrow> string \<Rightarrow> string \<Rightarrow> int \<Rightarrow> tf_db \<Rightarrow> trade_error + tf_db" where
  "tf_append_transition e n k from to role who kind now d =
     stmt e ''write tradefinance transition'' Trade_Database
       (if env_uuid e n \<in> set (map tt_id (tf_transitions d)) \<or> k \<notin> set (map ta_id (tf_apps d))
        then Inl (Trade_Database ''write tradefinance transition'')
        else Inr (d\<lparr>tf_transitions := tf_transitions d @ [\<lparr>tt_id = env_uuid e n, tt_app = k, tt_from = from, tt_to = to,
                     tt_role = role, tt_principal = who, tt_event = kind, tt_created = micro now\<rparr>]\<rparr>))"

section \<open>Consents\<close>

definition insert_consent :: "tf_db env \<Rightarrow> consent \<Rightarrow> tf_db \<Rightarrow> trade_error + tf_db" where
  "insert_consent e c d =
     stmt e ''insert consent'' (\<lambda>_. ErrConsentConflict)
       (if \<not> consent_checks c \<or> cn_id c \<in> set (map cn_id (tf_consents d))
           \<or> open_consent c \<and> (cn_trader c, cn_bank c) \<in> set (open_pairs (tf_consents d))
        then Inl ErrConsentConflict
        else Inr (d\<lparr>tf_consents := tf_consents d @ [c]\<rparr>))"

definition request_consent ::
  "(string \<Rightarrow> string) \<Rightarrow> tf_db env \<Rightarrow> consent \<Rightarrow> int \<Rightarrow> tf_db \<Rightarrow> (trade_error + consent) \<times> tf_db" where
  "request_consent sha e c now d =
     (case new_consent c now of
        Inl err \<Rightarrow> (Inl err, d)
      | Inr v \<Rightarrow>
          let row = v\<lparr>cn_expires := micro (cn_expires v), cn_created := micro now, cn_updated := micro now, cn_version := 1\<rparr>
          in run_tx e ''begin consent request'' ''commit consent request'' Trade_Database (\<lambda>d.
               and_then (insert_consent e row d) (\<lambda>d1.
               and_then (append_audit sha e 0 (cn_id row) (cn_maker row) ''REQUESTED'' [] (consent_text ConsentPendingChecker) now d1) (\<lambda>d2.
               and_then (tf_append_event e 1 (cn_id row) ''tradefinance.consent.requested'' (Ev_Consent row) now d2) (\<lambda>d3.
               Inr (row, d3))))) d)"

definition get_consent :: "tf_db env \<Rightarrow> string \<Rightarrow> tf_db \<Rightarrow> trade_error + consent" where
  "get_consent e k d =
     stmt e ''get consent'' Trade_Database
       (case sql_row (\<lambda>c. cn_id c = k) (tf_consents d) of None \<Rightarrow> Inl ErrConsentNotFound | Some c \<Rightarrow> Inr c)"

text \<open>\<open>ORDER BY created_at DESC, consent_id\<close>, in the order \<open>before\<close> of the database's texts.\<close>

definition list_consents ::
  "(string \<Rightarrow> string \<Rightarrow> bool) \<Rightarrow> tf_db env \<Rightarrow> string \<Rightarrow> tf_db \<Rightarrow> trade_error + consent list" where
  "list_consents before e trader d =
     (if \<not> canonical_id trader then Inl (Trade_Text ''trader_id is not canonical approved identifier text'')
      else stmt e ''list consents'' Trade_Database
        (Inr (sort_by (\<lambda>a b. cn_created b < cn_created a \<or> cn_created a = cn_created b \<and> before (cn_id a) (cn_id b))
           (filter (\<lambda>c. cn_trader c = trader) (tf_consents d)))))"

record consent_payload =
  cp_id :: string
  cp_trader :: string
  cp_bank :: string
  cp_scopes :: "string list"
  cp_refs :: dataset_refs
  cp_expires :: string
  cp_maker :: string
  cp_checker :: string

definition consent_artifact :: "consent \<Rightarrow> consent_payload" where
  "consent_artifact c = \<lparr>cp_id = cn_id c, cp_trader = cn_trader c, cp_bank = cn_bank c, cp_scopes = cn_scopes c, cp_refs = cn_refs c,
     cp_expires = rfc3339_nano (cn_expires c div 1000000000 * 1000000000), cp_maker = cn_maker c, cp_checker = cn_checker c\<rparr>"

definition transition_consent_body ::
  "(string \<Rightarrow> string) \<Rightarrow> tf_db env \<Rightarrow> consent \<Rightarrow> consent \<Rightarrow> string \<Rightarrow> string \<Rightarrow> string \<Rightarrow> tf_db \<Rightarrow> trade_error + consent \<times> tf_db" where
  "transition_consent_body sha e cur upd actor action kind d =
     (let hit = (\<lambda>c. cn_id c = cn_id cur \<and> cn_state c = cn_state cur \<and> cn_version c = cn_version cur);
          upd = (\<lambda>c. c\<lparr>cn_state := cn_state upd, cn_checker := cn_checker upd, cn_jws := cn_jws upd, cn_bundle := cn_bundle upd,
                      cn_updated := micro (env_now e), cn_version := cn_version c + 1\<rparr>)
      in and_then (stmt e ''transition consent'' Trade_Database
           (case sql_row hit (tf_consents d) of
              None \<Rightarrow> Inl ErrConsentConflict
            | Some c \<Rightarrow>
                if \<not> consent_checks (upd c) \<or> \<not> distinct (open_pairs (sql_update hit upd (tf_consents d)))
                then Inl (Trade_Database ''transition consent'')
                else Inr (upd c, d\<lparr>tf_consents := sql_update hit upd (tf_consents d)\<rparr>))) (\<lambda>(c, d1).
         and_then (append_audit sha e 0 (cn_id c) actor action (consent_text (cn_state cur)) (consent_text (cn_state c)) (env_now e) d1) (\<lambda>d2.
         and_then (tf_append_event e 1 (cn_id c) kind (Ev_Consent c) (env_now e) d2) (\<lambda>d3.
         Inr (c, d3)))))"

definition transition_consent ::
  "(string \<Rightarrow> string) \<Rightarrow> tf_db env \<Rightarrow> string \<Rightarrow> int \<Rightarrow> string \<Rightarrow> string \<Rightarrow> string \<Rightarrow> (consent \<Rightarrow> trade_error + consent) \<Rightarrow> tf_db
     \<Rightarrow> (trade_error + consent) \<times> tf_db" where
  "transition_consent sha e k expected actor action kind move d =
     (case get_consent e k d of
        Inl err \<Rightarrow> (Inl err, d)
      | Inr cur \<Rightarrow>
          if cn_version cur \<noteq> expected then (Inl ErrConsentConflict, d)
          else case move cur of
                 Inl err \<Rightarrow> (Inl err, d)
               | Inr upd \<Rightarrow> run_tx e ''begin consent transition'' ''commit consent transition'' Trade_Database
                             (transition_consent_body sha e cur upd actor action kind) d)"

type_synonym sealing = "consent_payload \<Rightarrow> int \<Rightarrow> string + string \<times> string"

definition sealed_activation :: "sealing \<Rightarrow> int \<Rightarrow> string \<Rightarrow> consent \<Rightarrow> trade_error + consent" where
  "sealed_activation sign now checker c =
     (case sign (consent_artifact (c\<lparr>cn_checker := checker\<rparr>)) now of
        Inl err \<Rightarrow> Inl (Trade_Text ''seal consent envelope'')
      | Inr (bundle, jws) \<Rightarrow> activate_consent c checker jws bundle)"

definition activate ::
  "(string \<Rightarrow> string) \<Rightarrow> sealing \<Rightarrow> tf_db env \<Rightarrow> string \<Rightarrow> int \<Rightarrow> string \<Rightarrow> tf_db \<Rightarrow> (trade_error + consent) \<times> tf_db" where
  "activate sha sign e k expected checker =
     transition_consent sha e k expected checker ''ACTIVATED'' ''tradefinance.consent.activated'' (sealed_activation sign (env_now e) checker)"

definition reject_consent ::
  "(string \<Rightarrow> string) \<Rightarrow> tf_db env \<Rightarrow> string \<Rightarrow> int \<Rightarrow> string \<Rightarrow> tf_db \<Rightarrow> (trade_error + consent) \<times> tf_db" where
  "reject_consent sha e k expected checker =
     transition_consent sha e k expected checker ''REJECTED'' ''tradefinance.consent.rejected'' (\<lambda>c. reject_grant c checker)"

definition request_revocation ::
  "(string \<Rightarrow> string) \<Rightarrow> tf_db env \<Rightarrow> string \<Rightarrow> int \<Rightarrow> string \<Rightarrow> tf_db \<Rightarrow> (trade_error + consent) \<times> tf_db" where
  "request_revocation sha e k expected maker =
     transition_consent sha e k expected maker ''REVOCATION_REQUESTED'' ''tradefinance.consent.revocation_requested''
       (\<lambda>c. request_revocation_of c maker)"

definition confirm_revocation ::
  "(string \<Rightarrow> string) \<Rightarrow> tf_db env \<Rightarrow> string \<Rightarrow> int \<Rightarrow> string \<Rightarrow> tf_db \<Rightarrow> (trade_error + consent) \<times> tf_db" where
  "confirm_revocation sha e k expected checker =
     transition_consent sha e k expected checker ''REVOKED'' ''tradefinance.consent.revoked'' (\<lambda>c. confirm_revocation_of c checker)"

definition reject_revocation ::
  "(string \<Rightarrow> string) \<Rightarrow> tf_db env \<Rightarrow> string \<Rightarrow> int \<Rightarrow> string \<Rightarrow> tf_db \<Rightarrow> (trade_error + consent) \<times> tf_db" where
  "reject_revocation sha e k expected checker =
     transition_consent sha e k expected checker ''REVOCATION_REJECTED'' ''tradefinance.consent.activated'' (\<lambda>c. reject_revocation_of c checker)"

definition consent_audit :: "tf_db env \<Rightarrow> string \<Rightarrow> tf_db \<Rightarrow> trade_error + audit_entry list" where
  "consent_audit e k d = stmt e ''list consent audit'' Trade_Database (Inr (sort_by (\<lambda>a b. ae_seq a \<le> ae_seq b) (audit_rows k d)))"

definition active_consent :: "tf_db env \<Rightarrow> string \<Rightarrow> string \<Rightarrow> int \<Rightarrow> tf_db \<Rightarrow> trade_error + consent" where
  "active_consent e trader bank now d =
     stmt e ''lookup active consent'' Trade_Database
       (case sort_by (\<lambda>a b. cn_created b \<le> cn_created a)
               (filter (\<lambda>c. cn_trader c = trader \<and> cn_bank c = bank \<and> cn_state c = ConsentActive) (tf_consents d)) of
          [] \<Rightarrow> Inl ErrScopeNotConsented
        | c # _ \<Rightarrow> if \<not> shareable c now then Inl ErrConsentExpired else Inr c)"

definition consented_dataset ::
  "tf_db env \<Rightarrow> string \<Rightarrow> string \<Rightarrow> string \<Rightarrow> int \<Rightarrow> tf_db \<Rightarrow> trade_error + consent \<times> string list" where
  "consented_dataset e bank trader scope now d =
     (if \<not> canonical_id bank then Inl (Trade_Text ''bank_id is not canonical approved identifier text'')
      else if \<not> canonical_id trader then Inl (Trade_Text ''trader_id is not canonical approved identifier text'')
      else if \<not> valid_scope scope then Inl ErrConsentScopeInvalid
      else and_then (active_consent e trader bank now d) (\<lambda>c.
             if \<not> covers_scope c scope then Inl ErrScopeNotConsented
             else if refs_at (cn_refs c) scope = [] then Inl ErrScopeNotConsented
             else Inr (c, refs_at (cn_refs c) scope)))"

end
