(* ===== verification/Trade_Applications.thy ===== *)
theory Trade_Applications
  imports Trade_Store
begin

text \<open>
  The application half of \<open>internal/tradefinance/store.go\<close>: submission with the role assignments, the decisions of
  the parties, the other moves, the ledger accounts and the disbursement legs.
\<close>

section \<open>Submission\<close>

definition get_application :: "tf_db env \<Rightarrow> string \<Rightarrow> tf_db \<Rightarrow> trade_error + tf_application" where
  "get_application e k d =
     stmt e ''get tradefinance application'' Trade_Database
       (case sql_row (\<lambda>a. ta_id a = k) (tf_apps d) of None \<Rightarrow> Inl ErrNotFoundTf | Some a \<Rightarrow> Inr a)"

definition list_applications ::
  "(string \<Rightarrow> string \<Rightarrow> bool) \<Rightarrow> tf_db env \<Rightarrow> string \<Rightarrow> tf_db \<Rightarrow> trade_error + tf_application list" where
  "list_applications before e trader d =
     (if \<not> canonical_id trader then Inl (Trade_Text ''trader_id is not canonical approved identifier text'')
      else stmt e ''list tradefinance applications'' Trade_Database
        (Inr (sort_by (\<lambda>a b. ta_created b < ta_created a \<or> ta_created a = ta_created b \<and> before (ta_id a) (ta_id b))
           (filter (\<lambda>a. ta_trader a = trader) (tf_apps d)))))"

fun insert_roles :: "tf_db env \<Rightarrow> string \<Rightarrow> tf_assignments \<Rightarrow> string list \<Rightarrow> tf_db \<Rightarrow> trade_error + tf_db" where
  "insert_roles e k as [] d = Inr d"
| "insert_roles e k as (r # rs) d =
     (let p = (case map_of as r of None \<Rightarrow> [] | Some p \<Rightarrow> p)
      in and_then (stmt e (''assign role '' @ r) Trade_Database
           (if k \<notin> set (map ta_id (tf_apps d)) \<or> r \<notin> set tf_chain_roles \<or> (\<exists>x \<in> set (tf_roles d). fst x = k \<and> (fst (snd x) = r \<or> snd (snd x) = p))
            then Inl (Trade_Database ''assign tradefinance role'')
            else Inr (d\<lparr>tf_roles := tf_roles d @ [(k, r, p)]\<rparr>))) (insert_roles e k as rs))"

definition tf_submit_body :: "tf_db env \<Rightarrow> tf_application \<Rightarrow> tf_assignments \<Rightarrow> tf_db \<Rightarrow> trade_error + tf_application \<times> tf_db" where
  "tf_submit_body e row as d =
     and_then (stmt e ''insert tradefinance application'' Trade_Database
       (if \<not> app_checks row \<or> ta_id row \<in> set (map ta_id (tf_apps d)) \<or> ta_ref row \<in> set (map ta_ref (tf_apps d))
           \<or> ta_consent row \<notin> set (map cn_id (tf_consents d))
        then Inl (Trade_Database ''insert tradefinance application'')
        else Inr (d\<lparr>tf_apps := tf_apps d @ [row]\<rparr>))) (\<lambda>d1.
     and_then (insert_roles e (ta_id row) as tf_chain_roles d1) (\<lambda>d2.
     and_then (tf_append_transition e 0 (ta_id row) Tf_Application Tf_Application ''TRADER'' (ta_trader row)
                 ''tradefinance.application.submitted'' (env_now e) d2) (\<lambda>d3.
     and_then (tf_append_event e 1 (ta_id row) ''tradefinance.application.submitted'' (Ev_Application row) (env_now e) d3) (\<lambda>d4.
     Inr (row, d4)))))"

definition submit_application ::
  "tf_db env \<Rightarrow> tf_application \<Rightarrow> tf_assignments \<Rightarrow> tf_db \<Rightarrow> (trade_error + tf_application) \<times> tf_db" where
  "submit_application e a as d =
     (case application_error a of
        Some err \<Rightarrow> (Inl err, d)
      | None \<Rightarrow>
          (case assignments_error as of
             Some err \<Rightarrow> (Inl err, d)
           | None \<Rightarrow>
               (case get_consent e (ta_consent a) d of
                  Inl err \<Rightarrow> (Inl err, d)
                | Inr _ \<Rightarrow>
                    run_tx e ''begin application submit'' ''commit application submit'' Trade_Database
                      (tf_submit_body e (a\<lparr>ta_state := Tf_Application, ta_facility := [], ta_settlement := [],
                         ta_created := micro (env_now e), ta_updated := micro (env_now e), ta_version := 1\<rparr>) as) d)))"

definition tf_role_assignments :: "tf_db env \<Rightarrow> string \<Rightarrow> tf_db \<Rightarrow> trade_error + tf_assignments" where
  "tf_role_assignments e k d =
     stmt e ''list tradefinance role assignments'' Trade_Database
       (case map snd (filter (\<lambda>x. fst x = k) (tf_roles d)) of [] \<Rightarrow> Inl ErrNotFoundTf | as \<Rightarrow> Inr as)"

section \<open>Decisions and moves\<close>

text \<open>The guarded update of the state and the version.\<close>

definition advance_application ::
  "tf_db env \<Rightarrow> string \<Rightarrow> tf_application \<Rightarrow> tf_state \<Rightarrow> tf_db \<Rightarrow> trade_error + tf_application \<times> tf_db" where
  "advance_application e label cur until d =
     (let hit = (\<lambda>a. ta_id a = ta_id cur \<and> ta_state a = ta_state cur \<and> ta_version a = ta_version cur);
          upd = (\<lambda>a. a\<lparr>ta_state := until, ta_updated := micro (env_now e), ta_version := ta_version a + 1\<rparr>)
      in stmt e label Trade_Database
           (case sql_row hit (tf_apps d) of
              None \<Rightarrow> Inl ErrConflictTf
            | Some a \<Rightarrow> if \<not> app_checks (upd a) then Inl (Trade_Database label)
                        else Inr (upd a, d\<lparr>tf_apps := sql_update hit upd (tf_apps d)\<rparr>)))"

definition tf_commit_decision ::
  "tf_db env \<Rightarrow> tf_application \<Rightarrow> tf_application \<Rightarrow> tf_approval \<Rightarrow> tf_db \<Rightarrow> trade_error + (tf_application \<times> tf_approval) \<times> tf_db" where
  "tf_commit_decision e cur upd approval d =
     (let v = approval\<lparr>tv_id := env_uuid e 0, tv_created := micro (env_now e)\<rparr>
      in and_then (stmt e ''insert tradefinance approval'' Trade_Database
           (if tv_id v \<in> set (map tv_id (tf_approvals d)) \<or> tv_app v \<notin> set (map ta_id (tf_apps d)) \<or> tv_role v \<notin> set tf_chain_roles
               \<or> tv_decision v \<notin> {''APPROVE'', ''REJECT''}
            then Inl (Trade_Database ''insert tradefinance approval'')
            else Inr (d\<lparr>tf_approvals := tf_approvals d @ [v]\<rparr>))) (\<lambda>d1.
         and_then (advance_application e ''advance tradefinance application'' cur (ta_state upd) d1) (\<lambda>(a, d2).
         and_then (tf_append_transition e 1 (tv_app v) (tv_from v) (tv_to v) (tv_role v) (tv_principal v)
                     ''tradefinance.application.decision_recorded'' (env_now e) d2) (\<lambda>d3.
         let kind = (if ta_state a = Tf_Settled then ''tradefinance.application.settled''
                     else if ta_state a = Tf_Disbursed then ''tradefinance.application.disbursed''
                     else ''tradefinance.application.decision_recorded'')
         in and_then (tf_append_event e 2 (ta_id a) kind (Ev_Approval v) (env_now e) d3) (\<lambda>d4.
         Inr ((a, v), d4))))))"

definition record_decision_tf ::
  "tf_db env \<Rightarrow> string \<Rightarrow> int \<Rightarrow> string \<Rightarrow> string \<Rightarrow> tf_db \<Rightarrow> (trade_error + tf_application \<times> tf_approval) \<times> tf_db" where
  "record_decision_tf e k expected who decision d =
     (case get_application e k d of
        Inl err \<Rightarrow> (Inl err, d)
      | Inr cur \<Rightarrow>
          if ta_version cur \<noteq> expected then (Inl ErrConflictTf, d)
          else case tf_role_assignments e k d of
            Inl err \<Rightarrow> (Inl err, d)
          | Inr as \<Rightarrow>
              (case apply_decision_tf cur as who decision of
                 Inl err \<Rightarrow> (Inl err, d)
               | Inr (upd, approval) \<Rightarrow>
                   (case (if ta_state cur = Tf_Consent_Check \<and> decision = ''APPROVE''
                          then map_sum id (\<lambda>_. ()) (active_consent e (ta_trader cur) (ta_bank cur) (env_now e) d) else Inr ()) of
                      Inl err \<Rightarrow> (Inl (ErrConsentRequired err), d)
                    | Inr _ \<Rightarrow>
                        if ta_state cur = Tf_Bank_Review \<and> decision = ''APPROVE'' \<and> (ta_facility cur = [] \<or> ta_settlement cur = [])
                        then (Inl ErrLedgerAccountsMissing, d)
                        else run_tx e ''begin decision'' ''commit decision'' Trade_Database
                               (tf_commit_decision e cur upd approval) d)))"

definition transition_application ::
  "tf_db env \<Rightarrow> string \<Rightarrow> int \<Rightarrow> string \<Rightarrow> string \<Rightarrow> (tf_application \<Rightarrow> trade_error + tf_application) \<Rightarrow> string \<Rightarrow> tf_db
     \<Rightarrow> (trade_error + tf_application) \<times> tf_db" where
  "transition_application e k expected role who move kind d =
     (case get_application e k d of
        Inl err \<Rightarrow> (Inl err, d)
      | Inr cur \<Rightarrow>
          if ta_version cur \<noteq> expected then (Inl ErrConflictTf, d)
          else case move cur of
            Inl err \<Rightarrow> (Inl err, d)
          | Inr upd \<Rightarrow>
              run_tx e ''begin transition'' ''commit transition'' Trade_Database (\<lambda>d.
                and_then (advance_application e ''transition tradefinance application'' cur (ta_state upd) d) (\<lambda>(a, d1).
                and_then (tf_append_transition e 0 (ta_id a) (ta_state cur) (ta_state a) role who kind (env_now e) d1) (\<lambda>d2.
                and_then (tf_append_event e 1 (ta_id a) kind (Ev_Application a) (env_now e) d2) (\<lambda>d3.
                Inr (a, d3))))) d)"

definition bind_accounts_body ::
  "tf_db env \<Rightarrow> tf_application \<Rightarrow> string \<Rightarrow> int \<Rightarrow> string \<Rightarrow> string \<Rightarrow> tf_db \<Rightarrow> trade_error + tf_application \<times> tf_db" where
  "bind_accounts_body e cur k expected facility settlement d =
     (let hit = (\<lambda>a. ta_id a = k \<and> ta_version a = expected \<and> ta_facility a = []);
          upd = (\<lambda>a. a\<lparr>ta_facility := facility, ta_settlement := settlement, ta_updated := micro (env_now e), ta_version := ta_version a + 1\<rparr>)
      in and_then (stmt e ''bind ledger accounts'' Trade_Database
           (case sql_row hit (tf_apps d) of
              None \<Rightarrow> Inl ErrConflictTf
            | Some a \<Rightarrow> if \<not> app_checks (upd a) then Inl (Trade_Database ''bind ledger accounts'')
                        else Inr (upd a, d\<lparr>tf_apps := sql_update hit upd (tf_apps d)\<rparr>))) (\<lambda>(a, d1).
         and_then (tf_append_transition e 0 (ta_id a) (ta_state cur) (ta_state a) ''BANK_TREASURY_OFFICER'' ''ledger-account-binding''
                     ''tradefinance.ledger_accounts_bound'' (env_now e) d1) (\<lambda>d2.
         Inr (a, d2))))"

definition bind_ledger_accounts ::
  "tf_db env \<Rightarrow> string \<Rightarrow> int \<Rightarrow> string \<Rightarrow> string \<Rightarrow> tf_db \<Rightarrow> (trade_error + tf_application) \<times> tf_db" where
  "bind_ledger_accounts e k expected facility settlement d =
     (if \<not> canonical_id facility then (Inl (Trade_Text ''facility_account_id is not canonical approved identifier text''), d)
      else if \<not> canonical_id settlement then (Inl (Trade_Text ''settlement_account_id is not canonical approved identifier text''), d)
      else if facility = settlement then (Inl (Trade_Text ''facility and settlement accounts must differ''), d)
      else case get_application e k d of
        Inl err \<Rightarrow> (Inl err, d)
      | Inr cur \<Rightarrow>
          if ta_version cur \<noteq> expected then (Inl ErrConflictTf, d)
          else if terminal_tf (ta_state cur) then (Inl ErrTerminalStateTf, d)
          else if ta_facility cur \<noteq> [] \<or> ta_settlement cur \<noteq> []
          then (if ta_facility cur = facility \<and> ta_settlement cur = settlement then (Inr cur, d) else (Inl ErrConflictTf, d))
          else run_tx e ''begin ledger account binding'' ''commit ledger account binding'' Trade_Database
                 (bind_accounts_body e cur k expected facility settlement) d)"

definition list_approvals_tf ::
  "(string \<Rightarrow> string \<Rightarrow> bool) \<Rightarrow> tf_db env \<Rightarrow> string \<Rightarrow> tf_db \<Rightarrow> trade_error + tf_approval list" where
  "list_approvals_tf before e k d =
     stmt e ''list tradefinance approvals'' Trade_Database
       (Inr (sort_by (\<lambda>a b. tv_created a < tv_created b \<or> tv_created a = tv_created b \<and> before (tv_id a) (tv_id b))
          (filter (\<lambda>v. tv_app v = k) (tf_approvals d))))"

section \<open>Disbursement legs\<close>

text \<open>A statement on the pool commits by itself; it can fail after it took effect.\<close>

definition record_legs_tf ::
  "tf_db env \<Rightarrow> string \<Rightarrow> string \<Rightarrow> u64 \<Rightarrow> string \<Rightarrow> tf_db \<Rightarrow> (trade_error + unit) \<times> tf_db" where
  "record_legs_tf e k reserve amount currency d =
     (if \<not> canonical_id k then (Inl (Trade_Text ''application_id is not canonical approved identifier text''), d)
      else if \<not> canonical_id reserve then (Inl (Trade_Text ''reserve_transfer_id is not canonical approved identifier text''), d)
      else if amount = 0 then (Inl (Trade_Text ''disbursement amount must be non-zero''), d)
      else case tf_currency_error currency of
        Some err \<Rightarrow> (Inl err, d)
      | None \<Rightarrow>
          run_tx e ''acquire'' ''record disbursement legs'' Trade_Database (\<lambda>d.
            if k \<in> set (map tg_app (tf_legs d)) \<or> k \<notin> set (map ta_id (tf_apps d)) \<or> \<not> uint amount < 2 ^ 63
            then Inl (Trade_Database ''record disbursement legs'')
            else Inr ((), d\<lparr>tf_legs := tf_legs d @ [\<lparr>tg_app = k, tg_reserve = reserve, tg_disburse = None, tg_settle = None,
                    tg_amount = amount, tg_currency = currency, tg_created = micro (env_now e), tg_updated = micro (env_now e)\<rparr>]\<rparr>)) d)"

definition stamp_leg ::
  "tf_db env \<Rightarrow> string \<Rightarrow> (tf_leg \<Rightarrow> string option) \<Rightarrow> (tf_leg \<Rightarrow> tf_leg) \<Rightarrow> string \<Rightarrow> tf_db \<Rightarrow> (trade_error + unit) \<times> tf_db" where
  "stamp_leg e k column put transfer d =
     (if \<not> canonical_id transfer then (Inl (Trade_Text ''transfer_id is not canonical approved identifier text''), d)
      else run_tx e ''acquire'' ''stamp disbursement leg'' Trade_Database (\<lambda>d.
             let hit = (\<lambda>g. tg_app g = k \<and> column g = None)
             in if filter hit (tf_legs d) = [] then Inl ErrConflictTf
                else Inr ((), d\<lparr>tf_legs := sql_update hit (\<lambda>g. (put g)\<lparr>tg_updated := micro (env_now e)\<rparr>) (tf_legs d)\<rparr>)) d)"

definition complete_disbursement_leg :: "tf_db env \<Rightarrow> string \<Rightarrow> string \<Rightarrow> tf_db \<Rightarrow> (trade_error + unit) \<times> tf_db" where
  "complete_disbursement_leg e k transfer = stamp_leg e k tg_disburse (\<lambda>g. g\<lparr>tg_disburse := Some transfer\<rparr>) transfer"

definition complete_settlement_leg :: "tf_db env \<Rightarrow> string \<Rightarrow> string \<Rightarrow> tf_db \<Rightarrow> (trade_error + unit) \<times> tf_db" where
  "complete_settlement_leg e k transfer = stamp_leg e k tg_settle (\<lambda>g. g\<lparr>tg_settle := Some transfer\<rparr>) transfer"

end
