(* ===== verification/Trade_Inv.thy ===== *)
theory Trade_Inv
  imports Trade_Applications
begin

text \<open>
  The invariant of the trade-finance tables and the steps that keep it: the audit of a consent is its verified
  history under maker-checker control, and the approvals of an application lead to its state.
\<close>

section \<open>Consents\<close>

definition audit_moves :: "(string \<times> string \<times> string) list" where
  "audit_moves =
     [(''REQUESTED'', [], ''PENDING_CHECKER''), (''ACTIVATED'', ''PENDING_CHECKER'', ''ACTIVE''),
      (''REJECTED'', ''PENDING_CHECKER'', ''REJECTED''), (''REVOCATION_REQUESTED'', ''ACTIVE'', ''REVOCATION_PENDING''),
      (''REVOKED'', ''REVOCATION_PENDING'', ''REVOKED''), (''REVOCATION_REJECTED'', ''REVOCATION_PENDING'', ''ACTIVE'')]"

definition entry_fits :: "string \<Rightarrow> audit_entry \<Rightarrow> bool" where
  "entry_fits maker x \<longleftrightarrow> (ae_action x, ae_from x, ae_to x) \<in> set audit_moves \<and> canonical_id (ae_actor x) \<and>
     (if ae_action x \<in> {''REQUESTED'', ''REVOCATION_REQUESTED''} then ae_actor x = maker else ae_actor x \<noteq> maker)"

definition audit_ok :: "(string \<Rightarrow> string) \<Rightarrow> consent \<Rightarrow> audit_entry list \<Rightarrow> bool" where
  "audit_ok sha c es \<longleftrightarrow> es \<noteq> [] \<and> verify_audit_chain sha es = None \<and> ae_action (hd es) = ''REQUESTED'' \<and>
     ae_to (last es) = consent_text (cn_state c) \<and> cn_version c = int (length es) \<and>
     successively (\<lambda>a b. ae_from b = ae_to a) es \<and> list_all (entry_fits (cn_maker c)) es"

definition grant_ok :: "consent \<Rightarrow> bool" where
  "grant_ok c \<longleftrightarrow> consent_ids_ok c \<and> cn_scopes c \<noteq> [] \<and> distinct (cn_scopes c) \<and> fst ` set (cn_refs c) \<subseteq> set (cn_scopes c) \<and>
     (\<forall>s \<in> set (cn_scopes c). valid_scope s \<and> refs_at (cn_refs c) s \<noteq> [] \<and> list_all digest_reference (refs_at (cn_refs c) s)) \<and>
     cn_expires c \<le> cn_created c + max_consent_lifetime"

definition sealed_by :: "sealing \<Rightarrow> consent \<Rightarrow> string \<Rightarrow> bool" where
  "sealed_by sign c checker \<longleftrightarrow> (\<exists>now. sign (consent_artifact (c\<lparr>cn_checker := checker\<rparr>)) now = Inr (cn_bundle c, cn_jws c)) \<and>
     cn_jws c \<noteq> [] \<and> cn_bundle c \<noteq> []"

definition consent_ok :: "(string \<Rightarrow> string) \<Rightarrow> sealing \<Rightarrow> tf_db \<Rightarrow> consent \<Rightarrow> bool" where
  "consent_ok sha sign d c \<longleftrightarrow> grant_ok c \<and> audit_ok sha c (audit_rows (cn_id c) d) \<and>
     (cn_state c \<in> {ConsentActive, ConsentRevocationPending, ConsentRevoked} \<longrightarrow>
       (\<exists>x \<in> set (audit_rows (cn_id c) d). ae_action x = ''ACTIVATED'' \<and> sealed_by sign c (ae_actor x)))"

definition consents_ok :: "(string \<Rightarrow> string) \<Rightarrow> sealing \<Rightarrow> tf_db \<Rightarrow> bool" where
  "consents_ok sha sign d \<longleftrightarrow> distinct (map cn_id (tf_consents d)) \<and> distinct (open_pairs (tf_consents d)) \<and>
     (\<forall>c \<in> set (tf_consents d). consent_ok sha sign d c) \<and> (\<forall>x \<in> set (tf_audit d). ae_consent x \<in> set (map cn_id (tf_consents d)))"

section \<open>Applications\<close>

definition decisions_on :: "string \<Rightarrow> tf_db \<Rightarrow> tf_approval list" where
  "decisions_on k d = filter (\<lambda>v. tv_app v = k) (tf_approvals d)"

definition roles_on :: "string \<Rightarrow> tf_db \<Rightarrow> tf_assignments" where
  "roles_on k d = map snd (filter (\<lambda>x. fst x = k) (tf_roles d))"

definition decision_fits :: "tf_assignments \<Rightarrow> tf_approval \<Rightarrow> bool" where
  "decision_fits as v \<longleftrightarrow> required_role_tf (tv_from v) = Some (tv_role v) \<and> (tv_role v, tv_principal v) \<in> set as \<and>
     (tv_decision v = ''APPROVE'' \<and> tf_successor (tv_from v) = Some (tv_to v) \<or> tv_decision v = ''REJECT'' \<and> tv_to v = Tf_Declined)"

definition application_ok :: "tf_assignments \<Rightarrow> tf_approval list \<Rightarrow> tf_application \<Rightarrow> bool" where
  "application_ok as vs a \<longleftrightarrow> map fst as = tf_chain_roles \<and> distinct (map snd as) \<and> list_all (decision_fits as) vs \<and>
     successively (\<lambda>u v. tv_from v = tv_to u) vs \<and>
     (if vs = [] then ta_state a \<in> {Tf_Application, Tf_Consent_Check}
      else tv_from (hd vs) = Tf_Consent_Check \<and> tv_to (last vs) = ta_state a) \<and>
     (ta_state a \<in> {Tf_Clearance, Tf_Approved, Tf_Disbursement_Pending, Tf_Disbursed, Tf_Settled} \<longrightarrow>
       ta_facility a \<noteq> [] \<and> ta_settlement a \<noteq> [])"

definition applications_ok :: "tf_db \<Rightarrow> bool" where
  "applications_ok d \<longleftrightarrow> distinct (map ta_id (tf_apps d)) \<and>
     (\<forall>a \<in> set (tf_apps d). application_ok (roles_on (ta_id a) d) (decisions_on (ta_id a) d) a) \<and>
     (\<forall>x \<in> set (tf_roles d). fst x \<in> set (map ta_id (tf_apps d))) \<and>
     (\<forall>v \<in> set (tf_approvals d). tv_app v \<in> set (map ta_id (tf_apps d)))"

section \<open>Steps\<close>

definition trade_ok :: "(string \<Rightarrow> string) \<Rightarrow> sealing \<Rightarrow> tf_db \<Rightarrow> bool" where
  "trade_ok sha sign d \<longleftrightarrow> consents_ok sha sign d \<and> applications_ok d"

text \<open>Rows stay, and a row with an unchanged version is unchanged.\<close>

definition rows_step :: "('r \<Rightarrow> string) \<Rightarrow> ('r \<Rightarrow> int) \<Rightarrow> 'r list \<Rightarrow> 'r list \<Rightarrow> bool" where
  "rows_step key ver rows rows' \<longleftrightarrow>
     (\<forall>r \<in> set rows. \<exists>r' \<in> set rows'. key r' = key r \<and> ver r \<le> ver r' \<and> (ver r' = ver r \<longrightarrow> r' = r))"

definition tf_step :: "(string \<Rightarrow> string) \<Rightarrow> sealing \<Rightarrow> tf_db \<Rightarrow> tf_db \<Rightarrow> bool" where
  "tf_step sha sign d d' \<longleftrightarrow> trade_ok sha sign d' \<and> rows_step cn_id cn_version (tf_consents d) (tf_consents d') \<and>
     rows_step ta_id ta_version (tf_apps d) (tf_apps d') \<and> (\<forall>a \<in> set (tf_apps d). roles_on (ta_id a) d' = roles_on (ta_id a) d)"

lemma rows_step_refl [simp]: "rows_step key ver rows rows"
  by (auto simp: rows_step_def)

lemma rows_step_append [simp]: "rows_step key ver rows (rows @ extra)"
  by (auto simp: rows_step_def)

lemma rows_step_trans: "rows_step key ver a b \<Longrightarrow> rows_step key ver b c \<Longrightarrow> rows_step key ver a c"
  unfolding rows_step_def by (metis order.trans order_antisym)

lemma rows_step_update:
  assumes "\<And>r. hit r \<Longrightarrow> key (f r) = key r \<and> ver (f r) = ver r + 1"
  shows "rows_step key ver rows (sql_update hit f rows)"
  unfolding rows_step_def
proof
  fix r assume "r \<in> set rows"
  then have "(if hit r then f r else r) \<in> set (sql_update hit f rows)" by (auto simp: sql_update_def)
  then show "\<exists>r' \<in> set (sql_update hit f rows). key r' = key r \<and> ver r \<le> ver r' \<and> (ver r' = ver r \<longrightarrow> r' = r)"
    using assms [of r] by (intro bexI [of _ "if hit r then f r else r"]) auto
qed

text \<open>A row read before is the row found under its version.\<close>

lemma rows_step_same:
  assumes "rows_step key ver rows rows'" "distinct (map key rows')" "r \<in> set rows" "r' \<in> set rows'"
    "key r' = key r" "ver r' = ver r"
  shows "r' = r"
proof -
  obtain x where "x \<in> set rows'" "key x = key r" "ver x = ver r \<longrightarrow> x = r"
    using assms(1,3) by (auto simp: rows_step_def)
  moreover from this have "x = r'" using assms(2,4,5) distinct_key_unique [of key rows' x r'] by simp
  ultimately show ?thesis using assms(6) by simp
qed

lemma tf_step_refl: "trade_ok sha sign d \<Longrightarrow> tf_step sha sign d d"
  by (simp add: tf_step_def)

lemma tf_step_trans:
  assumes "tf_step sha sign a b" "tf_step sha sign b c"
  shows "tf_step sha sign a c"
proof -
  have "roles_on (ta_id x) c = roles_on (ta_id x) a" if x: "x \<in> set (tf_apps a)" for x
  proof -
    obtain y where "y \<in> set (tf_apps b)" "ta_id y = ta_id x" using assms(1) x by (auto simp: tf_step_def rows_step_def)
    then show ?thesis using assms x unfolding tf_step_def by metis
  qed
  moreover have "rows_step cn_id cn_version (tf_consents a) (tf_consents c)" "rows_step ta_id ta_version (tf_apps a) (tf_apps c)"
    using assms by (auto simp: tf_step_def intro: rows_step_trans)
  ultimately show ?thesis using assms(2) by (simp add: tf_step_def)
qed

lemma trade_tx:
  assumes ok: "trade_ok sha sign d" "tf_step sha sign d (env_other e d)"
    and body: "\<And>d1 a d2. tf_step sha sign d d1 \<Longrightarrow> trade_ok sha sign d1 \<Longrightarrow> body d1 = Inr (a, d2) \<Longrightarrow> tf_step sha sign d1 d2"
  shows "tf_step sha sign d (snd (run_tx e b c mk body d))"
proof (rule run_tx_inv [where P = "tf_step sha sign d"])
  show o: "tf_step sha sign d (env_other e d)" by (rule ok(2))
  show "tf_step sha sign d d'" if "body (env_other e d) = Inr (a, d')" for a d'
  proof (rule tf_step_trans [OF o body [OF o _ that]])
    show "trade_ok sha sign (env_other e d)" using o by (simp add: tf_step_def)
  qed
qed

text \<open>What each half of the invariant depends on.\<close>

lemma consents_ok_frame:
  "tf_consents d' = tf_consents d \<Longrightarrow> tf_audit d' = tf_audit d \<Longrightarrow> consents_ok sha sign d' = consents_ok sha sign d"
  by (simp add: consents_ok_def consent_ok_def audit_rows_def)

lemma applications_ok_frame:
  "tf_apps d' = tf_apps d \<Longrightarrow> tf_roles d' = tf_roles d \<Longrightarrow> tf_approvals d' = tf_approvals d \<Longrightarrow> applications_ok d' = applications_ok d"
  by (simp add: applications_ok_def roles_on_def decisions_on_def)

section \<open>The audit chain\<close>

lemma verify_entries_append:
  "verify_entries sha n prev (es @ fs) = None \<longleftrightarrow>
     verify_entries sha n prev es = None \<and>
     verify_entries sha (n + length es) (if es = [] then prev else ae_hash (last es)) fs = None"
  by (induction es arbitrary: n prev) (auto split: if_splits)

lemma verify_seqs: "verify_entries sha n prev es = None \<Longrightarrow> map ae_seq es = map (\<lambda>i. int i + 1) [n..<n + length es]"
proof (induction es arbitrary: n prev)
  case (Cons e es)
  have v: "verify_entries sha (Suc n) (ae_hash e) es = None" and e: "ae_seq e = int n + 1"
    using Cons.prems by (auto split: if_splits)
  show ?case using Cons.IH [OF v] e by (simp add: upt_conv_Cons del: upt_Suc)
qed simp

lemma sort_by_desc_snoc:
  "(\<And>y. y \<in> set xs \<Longrightarrow> \<not> le y x) \<Longrightarrow> sort_by le (xs @ [x]) = x # sort_by le xs"
  by (induction xs) auto

text \<open>The newest entry is the last one, so the next entry continues the chain.\<close>

lemma newest_is_last:
  assumes "verify_audit_chain sha (audit_rows k d) = None" "audit_rows k d \<noteq> []"
  shows "newest_audit k d = (ae_hash (last (audit_rows k d)), int (length (audit_rows k d)))"
proof -
  obtain xs x where xs: "audit_rows k d = xs @ [x]" using assms(2) by (metis rev_exhaust)
  have seqs: "map ae_seq (xs @ [x]) = map (\<lambda>i. int i + 1) [0..<Suc (length xs)]"
    using verify_seqs [OF assms(1) [unfolded verify_audit_chain_def]] by (simp add: xs)
  then have x: "ae_seq x = int (length xs) + 1" and ys: "map ae_seq xs = map (\<lambda>i. int i + 1) [0..<length xs]" by simp_all
  have "ae_seq y < ae_seq x" if "y \<in> set xs" for y
  proof -
    have "ae_seq y \<in> set (map ae_seq xs)" using that by simp
    then show ?thesis unfolding ys x by auto
  qed
  then have "sort_by (\<lambda>a b. ae_seq b \<le> ae_seq a) (xs @ [x]) = x # sort_by (\<lambda>a b. ae_seq b \<le> ae_seq a) xs"
    by (intro sort_by_desc_snoc) (auto simp: not_le)
  then show ?thesis by (simp add: newest_audit_def xs x)
qed

lemma genesis_nonempty: "genesis_prev_hash \<noteq> []"
  by (simp add: genesis_prev_hash_def)

end
