(* ===== verification/Trade_Consents.thy ===== *)
theory Trade_Consents
  imports Trade_Inv
begin

text \<open>
  Every consent operation of the store keeps the invariant: a granted request opens an audit chain, each later
  move appends its entry, and the row it changes is the row it read.
\<close>

section \<open>The audit entry of a move\<close>

text \<open>A digest prints as 64 hexadecimal digits.\<close>

definition sha_hex :: "(string \<Rightarrow> string) \<Rightarrow> bool" where
  "sha_hex sha \<longleftrightarrow> (\<forall>x. length (sha x) = 64 \<and> list_all (\<lambda>c. is_digit c \<or> c \<in> set ''abcdef'') (sha x))"

lemma sha_nonempty: "sha_hex sha \<Longrightarrow> sha x \<noteq> []"
  unfolding sha_hex_def by (metis list.size(3) zero_neq_numeral)

lemma append_audit_Inr:
  assumes "append_audit sha e n k actor action from to now d = Inr d'"
  obtains x where "d' = d\<lparr>tf_audit := tf_audit d @ [x]\<rparr>" "ae_consent x = k" "k \<in> set (map cn_id (tf_consents d))"
    "x = new_audit_entry sha (env_uuid e n) k (snd (newest_audit k d) + 1) actor action from to
       (if fst (newest_audit k d) = [] then genesis_prev_hash else fst (newest_audit k d)) now"
  using assms
  by (auto simp: append_audit_def db_simps Let_def new_audit_entry_def micro_def split: prod.splits if_splits)

lemma audit_rows_append:
  "audit_rows k (d\<lparr>tf_audit := tf_audit d @ [x]\<rparr>) = audit_rows k d @ (if ae_consent x = k then [x] else [])"
  by (simp add: audit_rows_def)

lemma new_entry_simps [simp]:
  "ae_action (new_audit_entry sha i k seq actor action from to prev now) = action"
  "ae_from (new_audit_entry sha i k seq actor action from to prev now) = from"
  "ae_to (new_audit_entry sha i k seq actor action from to prev now) = to"
  "ae_actor (new_audit_entry sha i k seq actor action from to prev now) = actor"
  "ae_consent (new_audit_entry sha i k seq actor action from to prev now) = k"
  by (simp_all add: new_audit_entry_def Let_def)

lemma new_entry_verifies:
  "verify_entries sha n prev [new_audit_entry sha i k seq actor action from to prev' now] = None \<longleftrightarrow>
     seq = int n + 1 \<and> prev' = prev"
  by (auto simp: new_audit_entry_def Let_def)

lemma verified_hash: "verify_audit_chain sha es = None \<Longrightarrow> es \<noteq> [] \<Longrightarrow> \<exists>m. ae_hash (last es) = sha m"
proof -
  have "verify_entries sha n prev es = None \<Longrightarrow> es \<noteq> [] \<Longrightarrow> \<exists>m. ae_hash (last es) = sha m" for n prev
    by (induction es arbitrary: n prev) (auto simp: chain_hash_def split: if_splits, metis)
  then show "verify_audit_chain sha es = None \<Longrightarrow> es \<noteq> [] \<Longrightarrow> \<exists>m. ae_hash (last es) = sha m"
    unfolding verify_audit_chain_def by blast
qed

text \<open>The next entry extends a verified history.\<close>

lemma audit_extends:
  assumes sha: "sha_hex sha" and ok: "audit_ok sha c (audit_rows k d)"
    and x: "x = new_audit_entry sha i k (snd (newest_audit k d) + 1) actor action (consent_text (cn_state c)) (consent_text s)
       (if fst (newest_audit k d) = [] then genesis_prev_hash else fst (newest_audit k d)) now"
    and fits: "entry_fits (cn_maker c) x" and c': "cn_state c' = s" "cn_version c' = cn_version c + 1" "cn_maker c' = cn_maker c"
  shows "audit_ok sha c' (audit_rows k d @ [x])"
proof -
  let ?es = "audit_rows k d"
  have es: "?es \<noteq> []" "verify_audit_chain sha ?es = None" using ok by (auto simp: audit_ok_def)
  obtain m where m: "ae_hash (last ?es) = sha m" using verified_hash [OF es(2,1)] by blast
  have new: "newest_audit k d = (ae_hash (last ?es), int (length ?es))" using newest_is_last [OF es(2,1)] .
  have "verify_entries sha (length ?es) (ae_hash (last ?es)) [x] = None"
    using sha_nonempty [OF sha, of m] m by (simp only: x new_entry_verifies new) simp
  then have "verify_audit_chain sha (?es @ [x]) = None"
    using es by (simp add: verify_audit_chain_def verify_entries_append del: verify_entries.simps)
  moreover have "successively (\<lambda>a b. ae_from b = ae_to a) (?es @ [x])"
    using ok by (simp add: successively_append_iff audit_ok_def x)
  ultimately show ?thesis
    using ok fits c' by (simp add: audit_ok_def es x)
qed

section \<open>Moves\<close>

definition same_grant :: "consent \<Rightarrow> consent \<Rightarrow> bool" where
  "same_grant a b \<longleftrightarrow> cn_id a = cn_id b \<and> cn_trader a = cn_trader b \<and> cn_bank a = cn_bank b \<and> cn_scopes a = cn_scopes b \<and>
     cn_refs a = cn_refs b \<and> cn_expires a = cn_expires b \<and> cn_maker a = cn_maker b \<and> cn_created a = cn_created b"

text \<open>What each move of a consent promises.\<close>

definition fair_move :: "sealing \<Rightarrow> string \<Rightarrow> string \<Rightarrow> consent \<Rightarrow> consent \<Rightarrow> bool" where
  "fair_move sign actor action cur upd \<longleftrightarrow> action \<noteq> ''REQUESTED'' \<and>
     (action, consent_text (cn_state cur), consent_text (cn_state upd)) \<in> set audit_moves \<and> canonical_id actor \<and>
     (if action = ''REVOCATION_REQUESTED'' then actor = cn_maker cur else actor \<noteq> cn_maker cur) \<and> same_grant cur upd \<and>
     (if action = ''ACTIVATED'' then sealed_by sign upd actor else cn_bundle upd = cn_bundle cur \<and> cn_jws upd = cn_jws cur)"

lemma artifact_same_grant:
  "same_grant a b \<Longrightarrow> consent_artifact (a\<lparr>cn_checker := x\<rparr>) = consent_artifact (b\<lparr>cn_checker := x\<rparr>)"
  by (simp add: same_grant_def consent_artifact_def)

lemma sealed_same_grant:
  "same_grant a b \<Longrightarrow> cn_bundle a = cn_bundle b \<Longrightarrow> cn_jws a = cn_jws b \<Longrightarrow> sealed_by sign a x = sealed_by sign b x"
  using artifact_same_grant [of a b x] by (simp add: sealed_by_def)

lemma grant_same: "same_grant a b \<Longrightarrow> grant_ok a = grant_ok b"
  by (simp add: same_grant_def grant_ok_def consent_ids_ok_def)

lemma activation_fair:
  assumes "sealed_activation sign now actor c = Inr u"
  shows "fair_move sign actor ''ACTIVATED'' c u"
proof -
  obtain b j where s: "sign (consent_artifact (c\<lparr>cn_checker := actor\<rparr>)) now = Inr (b, j)" "activate_consent c actor j b = Inr u"
    using assms by (auto simp: sealed_activation_def split: sum.splits)
  then have u: "u = c\<lparr>cn_state := ConsentActive, cn_checker := actor, cn_jws := j, cn_bundle := b\<rparr>"
    and g: "cn_state c = ConsentPendingChecker" "canonical_id actor" "actor \<noteq> cn_maker c" "j \<noteq> []" "b \<noteq> []"
    by (auto simp: activate_consent_def split: if_splits)
  have "same_grant c u" by (simp add: u same_grant_def)
  moreover have "consent_artifact (u\<lparr>cn_checker := actor\<rparr>) = consent_artifact (c\<lparr>cn_checker := actor\<rparr>)"
    by (simp add: u consent_artifact_def)
  then have "sealed_by sign u actor" using s(1) g by (auto simp: sealed_by_def u)
  ultimately show ?thesis using g by (simp add: fair_move_def audit_moves_def u)
qed

lemma moves_are_fair:
  "reject_grant c actor = Inr u \<Longrightarrow> fair_move sign actor ''REJECTED'' c u"
  "request_revocation_of c actor = Inr u \<Longrightarrow> fair_move sign actor ''REVOCATION_REQUESTED'' c u"
  "confirm_revocation_of c actor = Inr u \<Longrightarrow> fair_move sign actor ''REVOKED'' c u"
  "reject_revocation_of c actor = Inr u \<Longrightarrow> fair_move sign actor ''REVOCATION_REJECTED'' c u"
  by (auto simp: fair_move_def reject_grant_def request_revocation_of_def confirm_revocation_of_def reject_revocation_of_def
       audit_moves_def same_grant_def split: if_splits)

lemma consent_text_inj: "consent_text s = consent_text s' \<Longrightarrow> s = s'"
  by (cases s; cases s') simp_all

lemma fair_move_entry:
  "fair_move sign actor action cur upd \<Longrightarrow> ae_action x = action \<Longrightarrow> ae_from x = consent_text (cn_state cur) \<Longrightarrow>
     ae_to x = consent_text (cn_state upd) \<Longrightarrow> ae_actor x = actor \<Longrightarrow> entry_fits (cn_maker cur) x"
  by (auto simp: fair_move_def entry_fits_def)

text \<open>A move out of the pending state that is not the activation cannot reach a sealed state.\<close>

lemma fair_move_sealed_before:
  "fair_move sign actor action cur upd \<Longrightarrow> action \<noteq> ''ACTIVATED'' \<Longrightarrow>
     cn_state upd \<in> {ConsentActive, ConsentRevocationPending, ConsentRevoked} \<Longrightarrow>
     cn_state cur \<in> {ConsentActive, ConsentRevocationPending, ConsentRevoked}"
  by (cases "cn_state cur"; cases "cn_state upd") (auto simp: fair_move_def audit_moves_def)

lemma consent_ok_moved:
  assumes "sha_hex sha" "consent_ok sha sign d cur" "fair_move sign actor action cur upd"
    and row: "row = cur\<lparr>cn_state := cn_state upd, cn_checker := cn_checker upd, cn_jws := cn_jws upd, cn_bundle := cn_bundle upd,
        cn_updated := u, cn_version := cn_version cur + 1\<rparr>"
    and x: "x = new_audit_entry sha i (cn_id cur) (snd (newest_audit (cn_id cur) d) + 1) actor action (consent_text (cn_state cur))
       (consent_text (cn_state upd))
       (if fst (newest_audit (cn_id cur) d) = [] then genesis_prev_hash else fst (newest_audit (cn_id cur) d)) now"
    and d': "audit_rows (cn_id cur) d' = audit_rows (cn_id cur) d @ [x]"
  shows "consent_ok sha sign d' row"
proof -
  have g: "same_grant cur row" by (simp add: row same_grant_def)
  have u: "same_grant upd row" using assms(3) by (simp add: row same_grant_def fair_move_def)
  have id: "cn_id row = cn_id cur" by (simp add: row)
  have ok: "audit_ok sha cur (audit_rows (cn_id cur) d)" "grant_ok cur" using assms(2) by (auto simp: consent_ok_def)
  have fits: "entry_fits (cn_maker cur) x" by (rule fair_move_entry [OF assms(3)]) (simp_all add: x)
  have r: "cn_state row = cn_state upd" "cn_version row = cn_version cur + 1" "cn_maker row = cn_maker cur" by (simp_all add: row)
  note A = audit_extends [OF assms(1) ok(1) x fits r]
  have "\<exists>y \<in> set (audit_rows (cn_id cur) d'). ae_action y = ''ACTIVATED'' \<and> sealed_by sign row (ae_actor y)"
    if s: "cn_state row \<in> {ConsentActive, ConsentRevocationPending, ConsentRevoked}"
  proof (cases "action = ''ACTIVATED''")
    case True
    have "cn_bundle upd = cn_bundle row" "cn_jws upd = cn_jws row" by (simp_all add: row)
    then have "sealed_by sign row actor" using assms(3) True sealed_same_grant [OF u] by (simp add: fair_move_def)
    then show ?thesis using True by (intro bexI [of _ x]) (simp_all add: d' x)
  next
    case False
    have s': "cn_state cur \<in> {ConsentActive, ConsentRevocationPending, ConsentRevoked}"
      using fair_move_sealed_before [OF assms(3) False] s by (simp add: row)
    have "cn_bundle cur = cn_bundle row" "cn_jws cur = cn_jws row" using assms(3) False by (simp_all add: row fair_move_def)
    then show ?thesis using s' assms(2) sealed_same_grant [OF g] unfolding consent_ok_def d' by auto
  qed
  then show ?thesis using A ok(2) grant_same [OF g] unfolding consent_ok_def id d' by simp
qed

section \<open>The transactions\<close>

lemma tf_append_event_Inr:
  "tf_append_event e n subject kind v now d = Inr d' \<Longrightarrow> \<exists>ev. d' = d\<lparr>tf_outbox := tf_outbox d @ [ev]\<rparr>"
  by (auto simp: tf_append_event_def db_simps split: if_splits)

lemma tf_append_transition_Inr:
  "tf_append_transition e n k from to role who kind now d = Inr d' \<Longrightarrow> \<exists>t. d' = d\<lparr>tf_transitions := tf_transitions d @ [t]\<rparr>"
  by (auto simp: tf_append_transition_def db_simps split: if_splits)

lemma consents_ok_cong:
  assumes "consents_ok sha sign d" "tf_consents d' = tf_consents d" "tf_audit d' = tf_audit d"
  shows "consents_ok sha sign d'"
  using consents_ok_frame [of d' d sha sign] assms by simp

text \<open>The rest of the tables, untouched by a consent.\<close>

lemma consent_step:
  assumes "trade_ok sha sign d" "consents_ok sha sign d'" "rows_step cn_id cn_version (tf_consents d) (tf_consents d')"
    "tf_apps d' = tf_apps d" "tf_roles d' = tf_roles d" "tf_approvals d' = tf_approvals d"
  shows "tf_step sha sign d d'"
  using assms applications_ok_frame [of d' d] by (simp add: tf_step_def trade_ok_def roles_on_def)

lemma other_rows_ok:
  assumes "consent_ok sha sign d c" "audit_rows (cn_id c) d' = audit_rows (cn_id c) d"
  shows "consent_ok sha sign d' c"
  using assms by (simp add: consent_ok_def)

lemma newest_audit_frame [simp]: "newest_audit k (d\<lparr>tf_consents := cs\<rparr>) = newest_audit k d"
  by (simp add: newest_audit_def audit_rows_def)

lemma consent_move_step:
  assumes sha: "sha_hex sha" and ok: "trade_ok sha sign d" and read: "trade_ok sha sign d0" "tf_step sha sign d0 d" "cur \<in> set (tf_consents d0)"
    and fair: "fair_move sign actor action cur upd"
    and run: "transition_consent_body sha e cur upd actor action kind d = Inr (c', d')"
  shows "tf_step sha sign d d' \<and> c' \<in> set (tf_consents d') \<and> cn_id c' = cn_id cur \<and> cn_state c' = cn_state upd"
proof -
  let ?hit = "\<lambda>c. cn_id c = cn_id cur \<and> cn_state c = cn_state cur \<and> cn_version c = cn_version cur"
  let ?upd = "\<lambda>c. c\<lparr>cn_state := cn_state upd, cn_checker := cn_checker upd, cn_jws := cn_jws upd, cn_bundle := cn_bundle upd,
                      cn_updated := micro (env_now e), cn_version := cn_version c + 1\<rparr>"
  let ?rows = "sql_update ?hit ?upd (tf_consents d)"
  have cok: "consents_ok sha sign d" using ok by (simp add: trade_ok_def)
  then have dist: "distinct (map cn_id (tf_consents d))" by (simp add: consents_ok_def)
  obtain c d2 where hit: "sql_row ?hit (tf_consents d) = Some c" and op: "distinct (open_pairs ?rows)"
    and d2: "append_audit sha e 0 (cn_id c) actor action (consent_text (cn_state cur)) (consent_text (cn_state upd)) (env_now e)
         (d\<lparr>tf_consents := ?rows\<rparr>) = Inr d2" "tf_append_event e 1 (cn_id c) kind (Ev_Consent (?upd c)) (env_now e) d2 = Inr d'"
       "c' = ?upd c"
    using run unfolding transition_consent_body_def Let_def by (auto simp: db_simps split: option.splits if_splits)
  have c: "c \<in> set (tf_consents d)" "cn_id c = cn_id cur" "cn_version c = cn_version cur" using sql_row_Some [OF hit] by auto
  have same: "c = cur"
    using read(2) dist c read(3) by (intro rows_step_same [of cn_id cn_version "tf_consents d0" "tf_consents d"]) (auto simp: tf_step_def)
  let ?k = "cn_id cur"
  obtain x where x: "d2 = d\<lparr>tf_consents := ?rows, tf_audit := tf_audit d @ [x]\<rparr>" "ae_consent x = ?k"
    "x = new_audit_entry sha (env_uuid e 0) ?k (snd (newest_audit ?k d) + 1) actor action (consent_text (cn_state cur))
       (consent_text (cn_state upd)) (if fst (newest_audit ?k d) = [] then genesis_prev_hash else fst (newest_audit ?k d)) (env_now e)"
  proof (rule append_audit_Inr [OF d2(1)])
    fix x
    assume "d2 = d\<lparr>tf_consents := ?rows\<rparr>\<lparr>tf_audit := tf_audit (d\<lparr>tf_consents := ?rows\<rparr>) @ [x]\<rparr>" "ae_consent x = cn_id c"
      "x = new_audit_entry sha (env_uuid e 0) (cn_id c) (snd (newest_audit (cn_id c) (d\<lparr>tf_consents := ?rows\<rparr>)) + 1) actor action
        (consent_text (cn_state cur)) (consent_text (cn_state upd))
        (if fst (newest_audit (cn_id c) (d\<lparr>tf_consents := ?rows\<rparr>)) = [] then genesis_prev_hash
         else fst (newest_audit (cn_id c) (d\<lparr>tf_consents := ?rows\<rparr>))) (env_now e)"
    then show thesis by (intro that [of x]) (simp_all only: newest_audit_frame same, simp_all)
  qed
  have tables: "tf_consents d' = ?rows" "tf_audit d' = tf_audit d @ [x]" "tf_apps d' = tf_apps d" "tf_roles d' = tf_roles d"
    "tf_approvals d' = tf_approvals d"
    using tf_append_event_Inr [OF d2(2)] x(1) by auto
  have aud: "audit_rows k d' = audit_rows k d @ (if k = ?k then [x] else [])" for k
    using x(2) by (auto simp: audit_rows_def tables)
  have curd: "cur \<in> set (tf_consents d)" "consent_ok sha sign d cur" using c(1) same cok by (auto simp: consents_ok_def)
  have new: "consent_ok sha sign d' (?upd cur)"
    by (rule consent_ok_moved [OF sha curd(2) fair refl x(3)]) (simp add: aud)
  have rows: "r = ?upd cur \<or> r \<in> set (tf_consents d) \<and> cn_id r \<noteq> ?k" if r: "r \<in> set ?rows" for r
  proof -
    have "y = cur" if "y \<in> set (tf_consents d)" "cn_id y = ?k" for y
      using distinct_key_unique [OF dist that(1) curd(1) that(2)] .
    then show ?thesis using r by (auto simp: set_sql_update)
  qed
  have ids: "map cn_id ?rows = map cn_id (tf_consents d)" by simp
  have "consents_ok sha sign d'"
  proof -
    have "consent_ok sha sign d' r" if "r \<in> set ?rows" for r
      using rows [OF that] new other_rows_ok [of sha sign d r d'] cok by (auto simp: consents_ok_def aud)
    moreover have "?k \<in> set (map cn_id (tf_consents d))" using curd(1) by simp
    ultimately show ?thesis using cok op dist x(2) unfolding consents_ok_def tables ids by auto
  qed
  moreover have "rows_step cn_id cn_version (tf_consents d) ?rows" by (rule rows_step_update) simp
  moreover have "?upd cur \<in> set ?rows" using curd(1) unfolding set_sql_update by (intro UnI1 image_eqI [of _ _ cur]) auto
  ultimately show ?thesis using consent_step [OF ok] d2(3) by (simp add: tables same)
qed

lemma get_consent_row: "get_consent e k d = Inr c \<Longrightarrow> c \<in> set (tf_consents d) \<and> cn_id c = k"
  by (auto simp: get_consent_def db_simps split: option.splits dest: sql_row_Some)

lemma transition_consent_step:
  assumes sha: "sha_hex sha" and ok: "trade_ok sha sign d" "tf_step sha sign d (env_other e d)"
    and fair: "\<And>c u. move c = Inr u \<Longrightarrow> fair_move sign actor action c u"
  shows "tf_step sha sign d (snd (transition_consent sha e k expected actor action kind move d))"
proof (cases "get_consent e k d")
  case (Inl err)
  then show ?thesis using tf_step_refl [OF ok(1)] by (simp add: transition_consent_def)
next
  case (Inr cur)
  show ?thesis
  proof (cases "cn_version cur = expected \<and> (\<exists>u. move cur = Inr u)")
    case False
    then show ?thesis using tf_step_refl [OF ok(1)] Inr by (auto simp: transition_consent_def split: sum.splits)
  next
    case True
    then obtain u where u: "move cur = Inr u" by blast
    have cur: "cur \<in> set (tf_consents d)" using get_consent_row [OF Inr] by blast
    have "tf_step sha sign d (snd (run_tx e ''begin consent transition'' ''commit consent transition'' Trade_Database
        (transition_consent_body sha e cur u actor action kind) d))"
      using consent_move_step [OF sha _ ok(1) _ cur fair [OF u]] by (intro trade_tx [OF ok]) blast
    then show ?thesis using Inr True u by (simp add: transition_consent_def)
  qed
qed

lemma transition_consent_done:
  assumes sha: "sha_hex sha" and ok: "trade_ok sha sign d" "tf_step sha sign d (env_other e d)"
    and fair: "\<And>c u. move c = Inr u \<Longrightarrow> fair_move sign actor action c u"
    and run: "transition_consent sha e k expected actor action kind move d = (Inr c', d')"
  shows "\<exists>cur upd. cur \<in> set (tf_consents d) \<and> cn_id cur = k \<and> move cur = Inr upd \<and>
    c' \<in> set (tf_consents d') \<and> cn_id c' = k \<and> cn_state c' = cn_state upd"
proof -
  obtain cur upd where r: "get_consent e k d = Inr cur" "move cur = Inr upd" and
    body: "transition_consent_body sha e cur upd actor action kind (env_other e d) = Inr (c', d')"
    using run by (auto simp: transition_consent_def db_simps split: sum.splits if_splits)
  have o: "tf_step sha sign d (env_other e d)" by (rule ok(2))
  have cur: "cur \<in> set (tf_consents d)" "cn_id cur = k" using get_consent_row [OF r(1)] by auto
  show ?thesis using consent_move_step [OF sha _ ok(1) o cur(1) fair [OF r(2)] body] o cur r(2) by (auto simp: tf_step_def)
qed

lemma new_consent_Inr:
  assumes "new_consent c now = Inr v"
  shows "consent_ids_ok v \<and> cn_scopes v \<noteq> [] \<and> scopes_error (cn_refs v) [] (cn_scopes v) = None \<and>
    fst ` set (cn_refs v) \<subseteq> set (cn_scopes v) \<and> cn_expires v \<le> now + max_consent_lifetime \<and> now < cn_expires v \<and>
    cn_state v = ConsentPendingChecker \<and> cn_checker v = [] \<and> cn_id v = cn_id c \<and> cn_maker v = cn_maker c"
  using assms by (auto simp: new_consent_def consent_ids_ok_def split: if_splits option.splits) force+

lemma scopes_error_None:
  "scopes_error refs seen ss = None \<Longrightarrow> distinct ss \<and> set ss \<inter> set seen = {} \<and>
     (\<forall>s \<in> set ss. valid_scope s \<and> refs_at refs s \<noteq> [] \<and> list_all digest_reference (refs_at refs s))"
proof (induction ss arbitrary: seen)
  case (Cons s ss)
  then have "valid_scope s" "s \<notin> set seen" "refs_at refs s \<noteq> []" "list_all digest_reference (refs_at refs s)"
    and "scopes_error refs (s # seen) ss = None" by (auto split: if_splits)
  then show ?case using Cons.IH [of "s # seen"] by auto
qed simp

lemma micro_le: "a \<le> b + 1000 * m \<Longrightarrow> micro a \<le> micro b + 1000 * m"
  using zdiv_mono1 [of a "b + 1000 * m" 1000] by (simp add: micro_def)

text \<open>The row a request inserts, and its first audit entry.\<close>

definition granted_row :: "consent \<Rightarrow> int \<Rightarrow> consent" where
  "granted_row v now = v\<lparr>cn_expires := micro (cn_expires v), cn_created := micro now, cn_updated := micro now, cn_version := 1\<rparr>"

lemma granted_row_simps [simp]:
  "cn_id (granted_row v now) = cn_id v" "cn_maker (granted_row v now) = cn_maker v" "cn_state (granted_row v now) = cn_state v"
  "cn_version (granted_row v now) = 1"
  by (simp_all add: granted_row_def)

lemma granted_row_ok:
  assumes "new_consent c now = Inr v" and x: "x = new_audit_entry sha i (cn_id v) 1 (cn_maker v) ''REQUESTED'' []
      (consent_text ConsentPendingChecker) genesis_prev_hash now" and rows: "audit_rows (cn_id v) d = [x]"
  shows "consent_ok sha sign d (granted_row v now)"
proof -
  note v = new_consent_Inr [OF assms(1)]
  have "micro (cn_expires v) \<le> micro now + max_consent_lifetime"
    using v micro_le [of "cn_expires v" now "366 * 86400000000"] by (simp add: max_consent_lifetime_def day_ns_def)
  then have "grant_ok (granted_row v now)"
    using v scopes_error_None by (fastforce simp: grant_ok_def granted_row_def consent_ids_ok_def)
  moreover have "audit_ok sha (granted_row v now) [x]"
  proof -
    have "verify_audit_chain sha [x] = None" unfolding verify_audit_chain_def x new_entry_verifies by simp
    moreover have "canonical_id (cn_maker v)" using v unfolding consent_ids_ok_def by blast
    then have "entry_fits (cn_maker v) x" by (simp add: entry_fits_def x audit_moves_def)
    ultimately show ?thesis using v by (simp add: audit_ok_def x del: consent_text.simps)
  qed
  moreover have "cn_state (granted_row v now) = ConsentPendingChecker" using v by simp
  ultimately show ?thesis by (simp add: consent_ok_def rows)
qed

lemma request_body_step:
  assumes ok: "trade_ok sha sign d" and v: "new_consent c now = Inr v"
    and ins: "insert_consent e (granted_row v now) d = Inr d1"
    and aud: "append_audit sha e 0 (cn_id v) (cn_maker v) ''REQUESTED'' [] (consent_text ConsentPendingChecker) now d1 = Inr d2"
    and ev: "tf_append_event e 1 (cn_id v) ''tradefinance.consent.requested'' (Ev_Consent (granted_row v now)) now d2 = Inr d'"
  shows "tf_step sha sign d d'"
proof -
  let ?r = "granted_row v now"
  have new: "cn_id ?r \<notin> set (map cn_id (tf_consents d))" "open_consent ?r \<longrightarrow> (cn_trader ?r, cn_bank ?r) \<notin> set (open_pairs (tf_consents d))"
    and d1: "d1 = d\<lparr>tf_consents := tf_consents d @ [?r]\<rparr>"
    using ins by (auto simp: insert_consent_def db_simps split: if_splits)
  have cok: "consents_ok sha sign d" using ok by (simp add: trade_ok_def)
  have "ae_consent y \<noteq> cn_id v" if "y \<in> set (tf_audit d)" for y
  proof -
    have "ae_consent y \<in> set (map cn_id (tf_consents d))" using cok that by (simp add: consents_ok_def)
    then show ?thesis using new(1) by auto
  qed
  then have none: "audit_rows (cn_id v) d = []" by (simp add: audit_rows_def filter_empty_conv)
  obtain x where x: "d2 = d1\<lparr>tf_audit := tf_audit d1 @ [x]\<rparr>" "ae_consent x = cn_id v"
    "x = new_audit_entry sha (env_uuid e 0) (cn_id v) 1 (cn_maker v) ''REQUESTED'' [] (consent_text ConsentPendingChecker) genesis_prev_hash now"
  proof (rule append_audit_Inr [OF aud])
    fix x
    assume "d2 = d1\<lparr>tf_audit := tf_audit d1 @ [x]\<rparr>" "ae_consent x = cn_id v"
      "x = new_audit_entry sha (env_uuid e 0) (cn_id v) (snd (newest_audit (cn_id v) d1) + 1) (cn_maker v) ''REQUESTED'' []
        (consent_text ConsentPendingChecker)
        (if fst (newest_audit (cn_id v) d1) = [] then genesis_prev_hash else fst (newest_audit (cn_id v) d1)) now"
    moreover have "newest_audit (cn_id v) d1 = ([], 0)" unfolding d1 newest_audit_frame by (simp add: newest_audit_def none)
    ultimately show thesis by (intro that [of x]) simp_all
  qed
  have tables: "tf_consents d' = tf_consents d @ [?r]" "tf_audit d' = tf_audit d @ [x]" "tf_apps d' = tf_apps d" "tf_roles d' = tf_roles d"
    "tf_approvals d' = tf_approvals d"
    using tf_append_event_Inr [OF ev] x(1) d1 by auto
  have aud': "audit_rows k d' = audit_rows k d @ (if k = cn_id v then [x] else [])" for k
    using x(2) by (auto simp: audit_rows_def tables)
  have "consent_ok sha sign d' ?r" using granted_row_ok [OF v x(3)] by (simp add: aud' none)
  moreover have "consent_ok sha sign d' r" if "r \<in> set (tf_consents d)" for r
  proof (rule other_rows_ok [of sha sign d])
    show "consent_ok sha sign d r" using cok that by (simp add: consents_ok_def)
    have "cn_id r \<in> set (map cn_id (tf_consents d))" using that by simp
    then have "cn_id r \<noteq> cn_id v" using new(1) unfolding granted_row_simps by metis
    then show "audit_rows (cn_id r) d' = audit_rows (cn_id r) d" by (simp add: aud')
  qed
  moreover have "distinct (open_pairs (tf_consents d @ [?r]))"
    using cok new(2) by (simp add: open_pairs_def consents_ok_def)
  ultimately have "consents_ok sha sign d'"
    using cok new(1) x(2) unfolding consents_ok_def tables by auto
  then show ?thesis using consent_step [OF ok] by (simp add: tables)
qed

lemma request_consent_step:
  assumes "trade_ok sha sign d" "tf_step sha sign d (env_other e d)"
  shows "tf_step sha sign d (snd (request_consent sha e c now d))"
proof (cases "new_consent c now")
  case (Inl err)
  then show ?thesis using tf_step_refl [OF assms(1)] by (simp add: request_consent_def)
next
  case (Inr v)
  let ?r = "granted_row v now"
  let ?body = "\<lambda>d. and_then (insert_consent e ?r d) (\<lambda>d1.
     and_then (append_audit sha e 0 (cn_id ?r) (cn_maker ?r) ''REQUESTED'' [] (consent_text ConsentPendingChecker) now d1) (\<lambda>d2.
     and_then (tf_append_event e 1 (cn_id ?r) ''tradefinance.consent.requested'' (Ev_Consent ?r) now d2) (\<lambda>d3. Inr (?r, d3))))"
  have "tf_step sha sign d (snd (run_tx e ''begin consent request'' ''commit consent request'' Trade_Database ?body d))"
  proof (rule trade_tx [OF assms])
    fix d1 a d2 assume "trade_ok sha sign d1" "?body d1 = Inr (a, d2)"
    then show "tf_step sha sign d1 d2"
      unfolding and_then_Inr_iff granted_row_simps using request_body_step [OF _ Inr] by blast
  qed
  then show ?thesis using Inr by (simp add: request_consent_def Let_def granted_row_def)
qed

end
