(* ===== verification/Trade_Decisions.thy ===== *)
theory Trade_Decisions
  imports Trade_Consents
begin

text \<open>
  Every application operation of the store keeps the invariant: a submission stores five distinct role holders, a
  decision is taken by the holder the state asks for and continues the approvals, and no application passes the bank's
  review without its ledger accounts.
\<close>

section \<open>One changed row\<close>

lemma application_step:
  assumes "trade_ok sha sign d" "applications_ok d'" "tf_consents d' = tf_consents d" "tf_audit d' = tf_audit d"
    "rows_step ta_id ta_version (tf_apps d) (tf_apps d')" "\<And>a. a \<in> set (tf_apps d) \<Longrightarrow> roles_on (ta_id a) d' = roles_on (ta_id a) d"
  shows "tf_step sha sign d d'"
  using assms consents_ok_cong [of sha sign d d'] by (simp add: tf_step_def trade_ok_def)

lemma read_app:
  assumes "tf_step sha sign d0 d" "cur \<in> set (tf_apps d0)" "a \<in> set (tf_apps d)" "ta_id a = ta_id cur" "ta_version a = ta_version cur"
  shows "a = cur"
proof -
  have "distinct (map ta_id (tf_apps d))" using assms(1) by (simp add: tf_step_def trade_ok_def applications_ok_def)
  then show ?thesis
    using assms by (intro rows_step_same [of ta_id ta_version "tf_apps d0" "tf_apps d"]) (auto simp: tf_step_def)
qed

text \<open>An update of one application, with the decisions it adds.\<close>

lemma app_changed:
  assumes ok: "trade_ok sha sign d" and cur: "cur \<in> set (tf_apps d)"
    and hit: "hit cur" "\<And>r. hit r \<Longrightarrow> ta_id r = ta_id cur" "\<And>r. ta_id (f r) = ta_id r \<and> ta_version (f r) = ta_version r + 1"
    and tables: "tf_apps d' = sql_update hit f (tf_apps d)" "tf_consents d' = tf_consents d" "tf_audit d' = tf_audit d"
      "tf_roles d' = tf_roles d" "tf_approvals d' = tf_approvals d @ vs" "\<forall>v \<in> set vs. tv_app v = ta_id cur"
    and new: "application_ok (roles_on (ta_id cur) d) (decisions_on (ta_id cur) d @ vs) (f cur)"
  shows "tf_step sha sign d d'"
proof -
  let ?rows = "sql_update hit f (tf_apps d)"
  have ao: "applications_ok d" using ok by (simp add: trade_ok_def)
  then have dist: "distinct (map ta_id (tf_apps d))" by (simp add: applications_ok_def)
  have roles: "roles_on k d' = roles_on k d" for k by (simp add: roles_on_def tables)
  have ids: "map ta_id ?rows = map ta_id (tf_apps d)" using hit(3) by simp
  have decs: "decisions_on k d' = decisions_on k d @ (if k = ta_id cur then vs else [])" for k
    using tables(6) by (auto simp: decisions_on_def tables(5) filter_id_conv filter_empty_conv)
  have "application_ok (roles_on (ta_id r) d') (decisions_on (ta_id r) d') r" if "r \<in> set ?rows" for r
  proof -
    obtain y where y: "y \<in> set (tf_apps d)" "r = (if hit y then f y else y)"
      using \<open>r \<in> set ?rows\<close> by (auto simp: sql_update_def)
    have "y = cur" if "ta_id y = ta_id cur" using distinct_key_unique [OF dist y(1) cur that] .
    then have "r = f cur \<or> r \<in> set (tf_apps d) \<and> ta_id r \<noteq> ta_id cur"
      using y hit(1) hit(2) [of y] by (cases "ta_id y = ta_id cur") auto
    then show ?thesis using ao new hit(3) by (auto simp: decs roles applications_ok_def)
  qed
  moreover have "tv_app v \<in> set (map ta_id (tf_apps d))" if "v \<in> set (tf_approvals d @ vs)" for v
    using that ao tables(6) cur by (auto simp: applications_ok_def)
  moreover have "\<forall>x \<in> set (tf_roles d). fst x \<in> set (map ta_id (tf_apps d))" using ao by (simp add: applications_ok_def)
  ultimately have "applications_ok d'"
    using dist unfolding applications_ok_def tables(1,4,5) ids by blast
  moreover have "rows_step ta_id ta_version (tf_apps d) ?rows" using hit(3) by (intro rows_step_update) simp
  ultimately show ?thesis using application_step [OF ok] tables roles by simp
qed

lemma app_invariant:
  "trade_ok sha sign d \<Longrightarrow> cur \<in> set (tf_apps d) \<Longrightarrow> application_ok (roles_on (ta_id cur) d) (decisions_on (ta_id cur) d) cur"
  by (simp add: trade_ok_def applications_ok_def)

lemma get_application_row: "get_application e k d = Inr a \<Longrightarrow> a \<in> set (tf_apps d) \<and> ta_id a = k"
  by (auto simp: get_application_def db_simps split: option.splits dest: sql_row_Some)

lemma advance_Inr:
  assumes "advance_application e label cur until d = Inr (a, d')"
  obtains r where "r \<in> set (tf_apps d)" "ta_id r = ta_id cur" "ta_version r = ta_version cur"
    "a = r\<lparr>ta_state := until, ta_updated := micro (env_now e), ta_version := ta_version r + 1\<rparr>"
    "d' = d\<lparr>tf_apps := sql_update (\<lambda>a. ta_id a = ta_id cur \<and> ta_state a = ta_state cur \<and> ta_version a = ta_version cur)
       (\<lambda>a. a\<lparr>ta_state := until, ta_updated := micro (env_now e), ta_version := ta_version a + 1\<rparr>) (tf_apps d)\<rparr>"
  using assms unfolding advance_application_def Let_def
  by (auto simp: db_simps split: option.splits if_splits dest!: sql_row_Some)

lemma advance_step:
  assumes ok: "trade_ok sha sign d" and read: "tf_step sha sign d0 d" "cur \<in> set (tf_apps d0)"
    and adv: "advance_application e label cur until (d\<lparr>tf_approvals := tf_approvals d @ vs\<rparr>) = Inr (a, d1)"
    and new: "application_ok (roles_on (ta_id cur) d) (decisions_on (ta_id cur) d @ vs)
        (cur\<lparr>ta_state := until, ta_updated := micro (env_now e), ta_version := ta_version cur + 1\<rparr>)"
    and frame: "tf_apps d' = tf_apps d1" "tf_consents d' = tf_consents d1" "tf_audit d' = tf_audit d1" "tf_roles d' = tf_roles d1"
      "tf_approvals d' = tf_approvals d1" "\<forall>v \<in> set vs. tv_app v = ta_id cur"
  shows "tf_step sha sign d d' \<and> a \<in> set (tf_apps d') \<and> ta_id a = ta_id cur \<and> ta_state a = until"
proof (rule advance_Inr [OF adv])
  let ?hit = "\<lambda>a. ta_id a = ta_id cur \<and> ta_state a = ta_state cur \<and> ta_version a = ta_version cur"
  let ?f = "\<lambda>a. a\<lparr>ta_state := until, ta_updated := micro (env_now e), ta_version := ta_version a + 1\<rparr>"
  fix r assume r: "r \<in> set (tf_apps (d\<lparr>tf_approvals := tf_approvals d @ vs\<rparr>))" "ta_id r = ta_id cur" "ta_version r = ta_version cur"
    "a = ?f r" and d1: "d1 = d\<lparr>tf_approvals := tf_approvals d @ vs\<rparr>\<lparr>tf_apps := sql_update ?hit ?f (tf_apps (d\<lparr>tf_approvals := tf_approvals d @ vs\<rparr>))\<rparr>"
  have same: "r = cur" using read_app [OF read, of r] r by simp
  then have cur: "cur \<in> set (tf_apps d)" using r(1) by simp
  have "tf_step sha sign d d'"
    by (rule app_changed [OF ok cur, where hit = ?hit and f = ?f and vs = vs]) (use d1 frame new in auto)
  moreover have "?f cur \<in> set (sql_update ?hit ?f (tf_apps d))"
    using cur unfolding set_sql_update by (intro UnI1 image_eqI [of _ _ cur]) auto
  ultimately show ?thesis using r same d1 frame by simp
qed

section \<open>Decisions\<close>

lemma tf_apply_decision_Inr:
  assumes "apply_decision_tf cur as who decision = Inr (upd, v)"
  shows "tv_app v = ta_id cur \<and> tv_from v = ta_state cur \<and> tv_to v = ta_state upd \<and> tv_principal v = who \<and> tv_decision v = decision \<and>
    decision_fits as v"
  using assms
  by (auto simp: apply_decision_tf_def decision_fits_def Let_def dest: map_of_SomeD split: if_splits option.splits)

lemma fits_stamped: "decision_fits as (v\<lparr>tv_id := i, tv_created := t\<rparr>) = decision_fits as v"
  by (simp add: decision_fits_def)

lemma fits_from: "decision_fits as v \<Longrightarrow> tv_from v \<noteq> Tf_Application \<and> tv_to v \<notin> {Tf_Application, Tf_Consent_Check}"
  by (cases "tv_from v") (auto simp: decision_fits_def)

lemma fits_clearance:
  "decision_fits as v \<Longrightarrow> tv_to v \<in> {Tf_Clearance, Tf_Approved, Tf_Disbursement_Pending, Tf_Disbursed, Tf_Settled} \<Longrightarrow>
     tv_from v = Tf_Bank_Review \<and> tv_decision v = ''APPROVE'' \<or>
     tv_from v \<in> {Tf_Clearance, Tf_Approved, Tf_Disbursement_Pending, Tf_Disbursed, Tf_Settled}"
  by (cases "tv_from v") (auto simp: decision_fits_def)

lemma decided_ok:
  assumes "application_ok as vs cur" "decision_fits as v" "tv_from v = ta_state cur" "tv_to v = s"
    and "ta_state cur = Tf_Bank_Review \<and> tv_decision v = ''APPROVE'' \<longrightarrow> ta_facility cur \<noteq> [] \<and> ta_settlement cur \<noteq> []"
  shows "application_ok as (vs @ [v]) (cur\<lparr>ta_state := s, ta_updated := u, ta_version := n\<rparr>)"
proof -
  have start: "ta_state cur = Tf_Consent_Check" if "vs = []"
    using assms(1-3) that fits_from [of as v] by (auto simp: application_ok_def)
  have "ta_facility cur \<noteq> [] \<and> ta_settlement cur \<noteq> []"
    if "s \<in> {Tf_Clearance, Tf_Approved, Tf_Disbursement_Pending, Tf_Disbursed, Tf_Settled}"
    using fits_clearance [OF assms(2)] assms that by (auto simp: application_ok_def)
  moreover have "successively (\<lambda>u v. tv_from v = tv_to u) (vs @ [v])"
    using assms(1,3) by (auto simp: application_ok_def successively_append_iff split: if_splits)
  ultimately show ?thesis
    using assms start by (cases "vs = []") (auto simp: application_ok_def split: if_splits)
qed

lemma decision_body_step:
  assumes ok: "trade_ok sha sign d" and read: "tf_step sha sign d0 d" "cur \<in> set (tf_apps d0)"
    and dec: "apply_decision_tf cur (roles_on (ta_id cur) d0) who decision = Inr (upd, v)"
    and accounts: "ta_state cur = Tf_Bank_Review \<and> decision = ''APPROVE'' \<longrightarrow> ta_facility cur \<noteq> [] \<and> ta_settlement cur \<noteq> []"
    and run: "tf_commit_decision e cur upd v d = Inr ((a, w), d')"
  shows "tf_step sha sign d d'"
proof -
  note v = tf_apply_decision_Inr [OF dec]
  let ?v = "v\<lparr>tv_id := env_uuid e 0, tv_created := micro (env_now e)\<rparr>"
  let ?label = "''advance tradefinance application''"
  obtain d2 d3 where adv: "advance_application e ?label cur (ta_state upd) (d\<lparr>tf_approvals := tf_approvals d @ [?v]\<rparr>) = Inr (a, d2)"
    and tr: "tf_append_transition e 1 (tv_app v) (tv_from v) (tv_to v) (tv_role v) (tv_principal v)
         ''tradefinance.application.decision_recorded'' (env_now e) d2 = Inr d3"
    and ev: "\<exists>kind. tf_append_event e 2 (ta_id a) kind (Ev_Approval ?v) (env_now e) d3 = Inr d'"
    using run unfolding tf_commit_decision_def Let_def by (auto simp: db_simps split: if_splits)
  have roles: "roles_on (ta_id cur) d = roles_on (ta_id cur) d0" using read by (simp add: tf_step_def)
  obtain r where r: "r \<in> set (tf_apps d)" "ta_id r = ta_id cur" "ta_version r = ta_version cur" using advance_Inr [OF adv] by auto
  have cur: "cur \<in> set (tf_apps d)" using read_app [OF read r] r(1) by simp
  have fits: "decision_fits (roles_on (ta_id cur) d) ?v" using v by (simp only: roles fits_stamped)
  have new: "application_ok (roles_on (ta_id cur) d) (decisions_on (ta_id cur) d @ [?v])
      (cur\<lparr>ta_state := ta_state upd, ta_updated := micro (env_now e), ta_version := ta_version cur + 1\<rparr>)"
    by (rule decided_ok [OF app_invariant [OF ok cur] fits]) (use v accounts in auto)
  obtain t where t: "d3 = d2\<lparr>tf_transitions := tf_transitions d2 @ [t]\<rparr>" using tf_append_transition_Inr [OF tr] by blast
  obtain x where x: "d' = d3\<lparr>tf_outbox := tf_outbox d3 @ [x]\<rparr>" using ev tf_append_event_Inr by blast
  from advance_step [OF ok read adv new, of d'] show ?thesis using v by (simp add: t x)
qed

lemma tf_role_assignments_Inr: "tf_role_assignments e k d = Inr as \<Longrightarrow> as = roles_on k d \<and> as \<noteq> []"
  by (auto simp: tf_role_assignments_def roles_on_def db_simps split: list.splits)

lemma tf_decision_step:
  assumes ok: "trade_ok sha sign d" "tf_step sha sign d (env_other e d)"
  shows "tf_step sha sign d (snd (record_decision_tf e k expected who decision d))"
proof -
  have rest: "tf_step sha sign d (snd (run_tx e ''begin decision'' ''commit decision'' Trade_Database (tf_commit_decision e cur upd v) d))"
    if cur: "cur \<in> set (tf_apps d)" and dec: "apply_decision_tf cur (roles_on (ta_id cur) d) who decision = Inr (upd, v)"
      and acc: "\<not> (ta_state cur = Tf_Bank_Review \<and> decision = ''APPROVE'' \<and> (ta_facility cur = [] \<or> ta_settlement cur = []))" for cur upd v
  proof (rule trade_tx [OF ok])
    fix d1 p d2
    assume "tf_step sha sign d d1" "trade_ok sha sign d1" "tf_commit_decision e cur upd v d1 = Inr (p, d2)"
    then show "tf_step sha sign d1 d2" using acc by (cases p) (auto intro!: decision_body_step [OF _ _ cur dec])
  qed
  have refl: "tf_step sha sign d d" by (rule tf_step_refl [OF ok(1)])
  show ?thesis
    unfolding record_decision_tf_def
    by (auto split: sum.splits prod.splits simp: refl dest!: get_application_row tf_role_assignments_Inr intro!: rest)
qed

section \<open>The review, the accounts, the submission and the legs\<close>

lemma begin_review_Inr: "begin_review a = Inr u \<Longrightarrow> ta_state a = Tf_Application \<and> ta_state u = Tf_Consent_Check"
  by (auto simp: begin_review_def split: if_splits)

lemma undecided:
  assumes "application_ok as vs a" "ta_state a \<in> {Tf_Application, Tf_Consent_Check}"
  shows "vs = []"
proof (rule ccontr)
  assume v: "vs \<noteq> []"
  then have "decision_fits as (last vs)" using assms(1) by (auto simp: application_ok_def list_all_iff)
  then show False using fits_from [of as "last vs"] assms v by (simp add: application_ok_def)
qed

lemma review_step:
  assumes ok: "trade_ok sha sign d" "tf_step sha sign d (env_other e d)"
  shows "tf_step sha sign d (snd (transition_application e k expected role who begin_review kind d))"
proof -
  have rest: "tf_step sha sign d (snd (run_tx e ''begin transition'' ''commit transition'' Trade_Database (\<lambda>d.
      and_then (advance_application e ''transition tradefinance application'' cur (ta_state u) d) (\<lambda>(a, d1).
      and_then (tf_append_transition e 0 (ta_id a) (ta_state cur) (ta_state a) role who kind (env_now e) d1) (\<lambda>d2.
      and_then (tf_append_event e 1 (ta_id a) kind (Ev_Application a) (env_now e) d2) (\<lambda>d3. Inr (a, d3))))) d))"
    if cur: "cur \<in> set (tf_apps d)" and u: "begin_review cur = Inr u" for cur u
  proof (rule trade_tx [OF ok])
    fix d1 p d2
    assume o: "tf_step sha sign d d1" "trade_ok sha sign d1"
      and run: "and_then (advance_application e ''transition tradefinance application'' cur (ta_state u) d1) (\<lambda>(a, d1).
        and_then (tf_append_transition e 0 (ta_id a) (ta_state cur) (ta_state a) role who kind (env_now e) d1) (\<lambda>d2.
        and_then (tf_append_event e 1 (ta_id a) kind (Ev_Application a) (env_now e) d2) (\<lambda>d3. Inr (a, d3)))) = Inr (p, d2)"
    then obtain a da db where adv: "advance_application e ''transition tradefinance application'' cur (ta_state u) d1 = Inr (a, da)"
      and tr: "tf_append_transition e 0 (ta_id a) (ta_state cur) (ta_state a) role who kind (env_now e) da = Inr db"
      and ev: "tf_append_event e 1 (ta_id a) kind (Ev_Application a) (env_now e) db = Inr d2"
      by (auto simp: db_simps)
    obtain r where r: "r \<in> set (tf_apps d1)" "ta_id r = ta_id cur" "ta_version r = ta_version cur" using advance_Inr [OF adv] by auto
    have cur1: "cur \<in> set (tf_apps d1)" using read_app [OF o(1) cur r] r(1) by simp
    note inv = app_invariant [OF o(2) cur1]
    have "decisions_on (ta_id cur) d1 = []" using undecided [OF inv] begin_review_Inr [OF u] by simp
    then have new: "application_ok (roles_on (ta_id cur) d1) (decisions_on (ta_id cur) d1 @ [])
        (cur\<lparr>ta_state := ta_state u, ta_updated := micro (env_now e), ta_version := ta_version cur + 1\<rparr>)"
      using inv begin_review_Inr [OF u] by (simp add: application_ok_def)
    obtain t where t: "db = da\<lparr>tf_transitions := tf_transitions da @ [t]\<rparr>" using tf_append_transition_Inr [OF tr] by blast
    obtain x where x: "d2 = db\<lparr>tf_outbox := tf_outbox db @ [x]\<rparr>" using tf_append_event_Inr [OF ev] by blast
    have adv': "advance_application e ''transition tradefinance application'' cur (ta_state u)
        (d1\<lparr>tf_approvals := tf_approvals d1 @ []\<rparr>) = Inr (a, da)" using adv by simp
    from advance_step [OF o(2) o(1) cur adv' new, of d2] show "tf_step sha sign d1 d2" by (simp add: t x)
  qed
  have refl: "tf_step sha sign d d" by (rule tf_step_refl [OF ok(1)])
  show ?thesis unfolding transition_application_def
    by (auto split: sum.splits simp: refl dest!: get_application_row intro!: rest [unfolded One_nat_def])
qed

lemma bound_ok:
  "application_ok as vs a \<Longrightarrow> f \<noteq> [] \<Longrightarrow> g \<noteq> [] \<Longrightarrow>
     application_ok as vs (a\<lparr>ta_facility := f, ta_settlement := g, ta_updated := u, ta_version := n\<rparr>)"
  by (auto simp: application_ok_def)

lemma bind_body_step:
  assumes ok: "trade_ok sha sign d" and ids: "f \<noteq> []" "g \<noteq> []" and run: "bind_accounts_body e cur k expected f g d = Inr (a, d')"
  shows "tf_step sha sign d d'"
proof -
  let ?hit = "\<lambda>a. ta_id a = k \<and> ta_version a = expected \<and> ta_facility a = []"
  let ?upd = "\<lambda>a. a\<lparr>ta_facility := f, ta_settlement := g, ta_updated := micro (env_now e), ta_version := ta_version a + 1\<rparr>"
  obtain r d1 where row: "sql_row ?hit (tf_apps d) = Some r" and d1: "d1 = d\<lparr>tf_apps := sql_update ?hit ?upd (tf_apps d)\<rparr>"
    and tr: "tf_append_transition e 0 (ta_id (?upd r)) (ta_state cur) (ta_state (?upd r)) ''BANK_TREASURY_OFFICER''
        ''ledger-account-binding'' ''tradefinance.ledger_accounts_bound'' (env_now e) d1 = Inr d'"
    using run unfolding bind_accounts_body_def Let_def by (auto simp: db_simps split: option.splits if_splits)
  have r: "r \<in> set (tf_apps d)" "?hit r" using sql_row_Some [OF row] by auto
  obtain t where t: "d' = d1\<lparr>tf_transitions := tf_transitions d1 @ [t]\<rparr>" using tf_append_transition_Inr [OF tr] by blast
  show ?thesis
  proof (rule app_changed [OF ok r(1), where hit = ?hit and f = ?upd and vs = "[]"])
    show "application_ok (roles_on (ta_id r) d) (decisions_on (ta_id r) d @ []) (?upd r)"
      using bound_ok [OF app_invariant [OF ok r(1)] ids] by simp
  qed (use r(2) in \<open>auto simp: t d1\<close>)
qed

lemma bind_step:
  assumes ok: "trade_ok sha sign d" "tf_step sha sign d (env_other e d)"
  shows "tf_step sha sign d (snd (bind_ledger_accounts e k expected f g d))"
proof -
  have "tf_step sha sign d (snd (run_tx e ''begin ledger account binding'' ''commit ledger account binding'' Trade_Database
      (bind_accounts_body e cur k expected f g) d))" if "canonical_id f" "canonical_id g" for cur
    using bind_body_step canonical_id_nonempty that by (intro trade_tx [OF ok]) blast
  moreover have "tf_step sha sign d d" by (rule tf_step_refl [OF ok(1)])
  ultimately show ?thesis by (simp add: bind_ledger_accounts_def split: sum.splits)
qed

lemma insert_roles_Inr:
  "insert_roles e k as rs d = Inr d' \<Longrightarrow> d' = d\<lparr>tf_roles := tf_roles d @ map (\<lambda>r. (k, r, case map_of as r of None \<Rightarrow> [] | Some p \<Rightarrow> p)) rs\<rparr> \<and>
     (distinct (map snd (roles_on k d)) \<longrightarrow> distinct (map snd (roles_on k d')))"
proof (induction rs arbitrary: d)
  case (Cons r rs)
  let ?p = "case map_of as r of None \<Rightarrow> [] | Some p \<Rightarrow> p"
  let ?d = "d\<lparr>tf_roles := tf_roles d @ [(k, r, ?p)]\<rparr>"
  have new: "\<not> (\<exists>x \<in> set (tf_roles d). fst x = k \<and> (fst (snd x) = r \<or> snd (snd x) = ?p))" and rest: "insert_roles e k as rs ?d = Inr d'"
    using Cons.prems by (auto simp: db_simps Let_def split: if_splits)
  have "distinct (map snd (roles_on k ?d))" if "distinct (map snd (roles_on k d))"
    using that new by (auto simp: roles_on_def)
  then have "distinct (map snd (roles_on k d)) \<longrightarrow> distinct (map snd (roles_on k d'))" using Cons.IH [OF rest] by blast
  moreover have "d' = d\<lparr>tf_roles := tf_roles d @ map (\<lambda>r. (k, r, case map_of as r of None \<Rightarrow> [] | Some p \<Rightarrow> p)) (r # rs)\<rparr>"
    using Cons.IH [OF rest] by simp
  ultimately show ?case by blast
qed simp

lemma chain_error_None: "chain_error as rs = None \<Longrightarrow> r \<in> set rs \<Longrightarrow> \<exists>p. map_of as r = Some p \<and> canonical_id p"
  by (induction rs) (auto split: option.splits if_splits)

lemma submit_body_step:
  assumes ok: "trade_ok sha sign d" and row: "ta_state row = Tf_Application" and run: "tf_submit_body e row as d = Inr (a, d')"
  shows "tf_step sha sign d d'"
proof -
  let ?d1 = "d\<lparr>tf_apps := tf_apps d @ [row]\<rparr>"
  obtain d2 d3 where new: "ta_id row \<notin> set (map ta_id (tf_apps d))" and roles: "insert_roles e (ta_id row) as tf_chain_roles ?d1 = Inr d2"
    and tr: "tf_append_transition e 0 (ta_id row) Tf_Application Tf_Application ''TRADER'' (ta_trader row)
        ''tradefinance.application.submitted'' (env_now e) d2 = Inr d3"
    and ev: "tf_append_event e 1 (ta_id row) ''tradefinance.application.submitted'' (Ev_Application row) (env_now e) d3 = Inr d'"
    using run unfolding tf_submit_body_def by (auto simp: db_simps split: if_splits)
  obtain t where t: "d3 = d2\<lparr>tf_transitions := tf_transitions d2 @ [t]\<rparr>" using tf_append_transition_Inr [OF tr] by blast
  obtain x where x: "d' = d3\<lparr>tf_outbox := tf_outbox d3 @ [x]\<rparr>" using tf_append_event_Inr [OF ev] by blast
  let ?rs = "map (\<lambda>r. (ta_id row, r, case map_of as r of None \<Rightarrow> [] | Some p \<Rightarrow> p)) tf_chain_roles"
  note ins = insert_roles_Inr [OF roles]
  have tables: "tf_apps d' = tf_apps d @ [row]" "tf_consents d' = tf_consents d" "tf_audit d' = tf_audit d"
    "tf_roles d' = tf_roles d @ ?rs" "tf_approvals d' = tf_approvals d" "tf_roles d' = tf_roles d2"
    using ins by (auto simp: x t)
  have ao: "applications_ok d" using ok by (simp add: trade_ok_def)
  have "fst x \<noteq> ta_id row" if "x \<in> set (tf_roles d)" for x using ao new that unfolding applications_ok_def by metis
  moreover have "tv_app v \<noteq> ta_id row" if "v \<in> set (tf_approvals d)" for v using ao new that unfolding applications_ok_def by metis
  ultimately have fresh: "roles_on (ta_id row) d = []" "decisions_on (ta_id row) d = []"
    by (simp_all add: roles_on_def decisions_on_def filter_empty_conv)
  have r: "roles_on k d' = roles_on k d @ (if k = ta_id row then map snd ?rs else [])" for k
    by (auto simp: roles_on_def tables(4) filter_map comp_def)
  have "roles_on (ta_id row) ?d1 = []" using fresh(1) by (simp add: roles_on_def)
  then have "distinct (map snd (roles_on (ta_id row) d2))" using conjunct2 [OF ins] by (metis distinct.simps(1) list.simps(8))
  then have "distinct (map snd (roles_on (ta_id row) d'))" by (simp add: roles_on_def tables(6))
  moreover have "map fst (roles_on (ta_id row) d') = tf_chain_roles" unfolding r by (simp add: fresh comp_def)
  ultimately have "application_ok (roles_on (ta_id row) d') (decisions_on (ta_id row) d') row"
    using fresh(2) row by (simp add: application_ok_def decisions_on_def tables(5))
  moreover have old: "roles_on (ta_id b) d' = roles_on (ta_id b) d" if "b \<in> set (tf_apps d)" for b
  proof -
    have "ta_id b \<in> set (map ta_id (tf_apps d))" using that by simp
    then have "ta_id b \<noteq> ta_id row" using new by metis
    then show ?thesis by (simp add: r)
  qed
  then have "application_ok (roles_on (ta_id b) d') (decisions_on (ta_id b) d') b" if "b \<in> set (tf_apps d)" for b
    using that ao by (simp add: applications_ok_def decisions_on_def tables(5))
  moreover have "\<forall>x \<in> set (tf_roles d'). fst x \<in> set (map ta_id (tf_apps d'))" "\<forall>v \<in> set (tf_approvals d'). tv_app v \<in> set (map ta_id (tf_apps d'))"
    using ao by (auto simp: applications_ok_def tables(1,4,5))
  moreover have "distinct (map ta_id (tf_apps d'))" using ao new by (simp add: applications_ok_def tables(1))
  ultimately have "applications_ok d'" unfolding applications_ok_def tables(1) by auto
  then show ?thesis using application_step [OF ok] old by (simp add: tables(1,2,3))
qed

lemma tf_submit_step:
  assumes ok: "trade_ok sha sign d" "tf_step sha sign d (env_other e d)"
  shows "tf_step sha sign d (snd (submit_application e a as d))"
proof -
  have "tf_step sha sign d (snd (run_tx e ''begin application submit'' ''commit application submit'' Trade_Database
      (tf_submit_body e row as) d))" if "ta_state row = Tf_Application" for row
    using submit_body_step that by (intro trade_tx [OF ok]) blast
  moreover have "tf_step sha sign d d" by (rule tf_step_refl [OF ok(1)])
  ultimately show ?thesis by (simp add: submit_application_def split: sum.splits option.splits)
qed

text \<open>The legs are a table of their own.\<close>

lemma legs_frame:
  assumes "trade_ok sha sign d" shows "tf_step sha sign d (d\<lparr>tf_legs := gs\<rparr>)"
proof -
  have "applications_ok (d\<lparr>tf_legs := gs\<rparr>)" using assms applications_ok_frame [of "d\<lparr>tf_legs := gs\<rparr>" d] by (simp add: trade_ok_def)
  then show ?thesis by (intro application_step [OF assms]) (simp_all add: roles_on_def)
qed

lemma tf_legs_step:
  assumes ok: "trade_ok sha sign d" "tf_step sha sign d (env_other e d)"
  shows "tf_step sha sign d (snd (record_legs_tf e k reserve amount currency d))"
    and "tf_step sha sign d (snd (stamp_leg e k column put transfer d))"
proof -
  have refl: "tf_step sha sign d d" by (rule tf_step_refl [OF ok(1)])
  show "tf_step sha sign d (snd (record_legs_tf e k reserve amount currency d))"
    unfolding record_legs_tf_def
    by (auto split: option.splits simp: refl intro!: trade_tx [OF ok] legs_frame split: if_splits)
  show "tf_step sha sign d (snd (stamp_leg e k column put transfer d))"
    unfolding stamp_leg_def
    by (auto simp: refl Let_def intro!: trade_tx [OF ok] legs_frame split: if_splits)
qed

end
