(* ===== verification/Trade_Http.thy ===== *)
theory Trade_Http
  imports Trade_Decisions "HOL-Library.AList"
begin

text \<open>
  The two HTTP surfaces: \<open>internal/tradefinance/httpapi.go\<close> for traders and officers and
  \<open>internal/tradefinance/bankapi.go\<close> for the banks. A request arrives as what the authenticator made of it, the
  decoded body (\<open>None\<close> for one that does not decode) and the path values; an answer is a status with a body, or no
  answer where the handler panics. The sealing of a dataset is the parameter \<open>seal\<close>.
\<close>

section \<open>Answers\<close>

record tf_principal =
  tp_subject :: string
  tp_roles :: "string list"

definition has_role :: "tf_principal \<Rightarrow> string \<Rightarrow> bool" where
  "has_role p role \<longleftrightarrow> role \<in> set (tp_roles p)"

datatype tf_body =
  Consent_Body consent | Consents_Body "consent list" | Audit_Body "audit_entry list" | Application_Body tf_application
| Applications_Body "tf_application list" | Approvals_Body tf_application "tf_approval list"
| Decision_Body tf_application tf_approval | Dataset_Body string

datatype tf_answer = Problem nat string | Reply nat tf_body | Panicked

fun store_problem :: "trade_error \<Rightarrow> tf_answer" where
  "store_problem ErrConsentNotFound = Problem 404 ''resource not found''"
| "store_problem ErrNotFoundTf = Problem 404 ''resource not found''"
| "store_problem ErrConsentConflict = Problem 409 ''concurrent modification or duplicate request''"
| "store_problem ErrConflictTf = Problem 409 ''concurrent modification or duplicate request''"
| "store_problem ErrMakerCheckerTf = Problem 403 ''separation-of-duties or consent requirement not satisfied''"
| "store_problem ErrRoleSeparationTf = Problem 403 ''separation-of-duties or consent requirement not satisfied''"
| "store_problem ErrRoleNotAssignedTf = Problem 403 ''separation-of-duties or consent requirement not satisfied''"
| "store_problem (ErrConsentRequired err) = Problem 403 ''separation-of-duties or consent requirement not satisfied''"
| "store_problem ErrScopeNotConsented = Problem 403 ''separation-of-duties or consent requirement not satisfied''"
| "store_problem ErrTerminalStateTf = Problem 422 ''invalid lifecycle transition''"
| "store_problem ErrConsentTerminalState = Problem 422 ''invalid lifecycle transition''"
| "store_problem ErrSequenceViolationTf = Problem 422 ''invalid lifecycle transition''"
| "store_problem ErrConsentState = Problem 422 ''invalid lifecycle transition''"
| "store_problem ErrInvalidStateTf = Problem 422 ''invalid lifecycle transition''"
| "store_problem _ = Problem 400 ''request rejected''"

definition unauthenticated :: tf_answer where
  "unauthenticated = Problem 401 ''authentication required''"

text \<open>The principal of a request, with a role it has to hold (an empty text asks for none).\<close>

definition principal_of :: "tf_principal option \<Rightarrow> string \<Rightarrow> tf_answer + tf_principal" where
  "principal_of auth role =
     (case auth of
        None \<Rightarrow> Inl unauthenticated
      | Some p \<Rightarrow> if tp_subject p = [] then Inl unauthenticated
                 else if role \<noteq> [] \<and> \<not> has_role p role then Inl (Problem 403 (''role '' @ role @ '' required''))
                 else Inr p)"

text \<open>A store result as an answer.\<close>

definition answer :: "nat \<Rightarrow> ('a \<Rightarrow> tf_body) \<Rightarrow> (trade_error + 'a) \<times> tf_db \<Rightarrow> tf_answer \<times> tf_db" where
  "answer status body r = (case r of (Inl err, d) \<Rightarrow> (store_problem err, d) | (Inr a, d) \<Rightarrow> (Reply status (body a), d))"

section \<open>Consents\<close>

definition handle_request_consent ::
  "(string \<Rightarrow> string) \<Rightarrow> tf_db env \<Rightarrow> tf_principal option \<Rightarrow> consent option \<Rightarrow> tf_db \<Rightarrow> tf_answer \<times> tf_db" where
  "handle_request_consent sha e auth body d =
     (case principal_of auth ''trader'' of
        Inl no \<Rightarrow> (no, d)
      | Inr p \<Rightarrow>
          (case body of
             None \<Rightarrow> (Problem 400 ''malformed consent request'', d)
           | Some b \<Rightarrow>
               if cn_trader b \<noteq> tp_subject p then (Problem 403 ''trader_id must be the authenticated trader'', d)
               else answer 201 Consent_Body (request_consent sha e (b\<lparr>cn_maker := tp_subject p\<rparr>) (env_now e) d)))"

definition consent_move ::
  "(string \<Rightarrow> int \<Rightarrow> string \<Rightarrow> tf_db \<Rightarrow> (trade_error + consent) \<times> tf_db) \<Rightarrow> tf_principal option \<Rightarrow> int option \<Rightarrow> string \<Rightarrow> tf_db
     \<Rightarrow> tf_answer \<times> tf_db" where
  "consent_move move auth version k d =
     (case principal_of auth [] of
        Inl no \<Rightarrow> (no, d)
      | Inr p \<Rightarrow>
          if \<not> has_role p ''trader'' \<and> \<not> has_role p ''compliance-checker''
          then (Problem 403 ''trader or compliance-checker role required'', d)
          else case version of
                 None \<Rightarrow> (Problem 400 ''a positive version is required'', d)
               | Some v \<Rightarrow> if v \<le> 0 then (Problem 400 ''a positive version is required'', d)
                          else answer 200 Consent_Body (move k v (tp_subject p) d))"

definition consent_readable :: "tf_principal \<Rightarrow> consent \<Rightarrow> bool" where
  "consent_readable p c \<longleftrightarrow> cn_maker c = tp_subject p \<or> has_role p ''compliance-checker'' \<or> has_role p ''auditor''"

definition handle_get_consent :: "tf_db env \<Rightarrow> tf_principal option \<Rightarrow> string \<Rightarrow> tf_db \<Rightarrow> tf_answer" where
  "handle_get_consent e auth k d =
     (case principal_of auth [] of
        Inl no \<Rightarrow> no
      | Inr p \<Rightarrow>
          (case get_consent e k d of
             Inl err \<Rightarrow> store_problem err
           | Inr c \<Rightarrow> if \<not> consent_readable p c then Problem 403 ''consent is not readable by this principal''
                      else Reply 200 (Consent_Body c)))"

text \<open>The guard the two listings share.\<close>

definition may_list :: "tf_principal \<Rightarrow> string \<Rightarrow> string \<Rightarrow> tf_answer option" where
  "may_list p trader what =
     (if trader = [] then Some (Problem 400 ''trader_id is required'')
      else if trader \<noteq> tp_subject p \<and> \<not> has_role p ''compliance-checker'' \<and> \<not> has_role p ''auditor''
      then Some (Problem 403 (''cannot list another trader's '' @ what)) else None)"

definition handle_list_consents ::
  "(string \<Rightarrow> string \<Rightarrow> bool) \<Rightarrow> tf_db env \<Rightarrow> tf_principal option \<Rightarrow> string \<Rightarrow> tf_db \<Rightarrow> tf_answer" where
  "handle_list_consents before e auth trader d =
     (case principal_of auth [] of
        Inl no \<Rightarrow> no
      | Inr p \<Rightarrow>
          (case may_list p trader ''consents'' of
             Some no \<Rightarrow> no
           | None \<Rightarrow> (case list_consents before e trader d of
                        Inl err \<Rightarrow> store_problem err | Inr cs \<Rightarrow> Reply 200 (Consents_Body cs))))"

definition handle_consent_audit ::
  "(string \<Rightarrow> string) \<Rightarrow> tf_db env \<Rightarrow> tf_principal option \<Rightarrow> string \<Rightarrow> tf_db \<Rightarrow> tf_answer" where
  "handle_consent_audit sha e auth k d =
     (case principal_of auth [] of
        Inl no \<Rightarrow> no
      | Inr p \<Rightarrow>
          (case get_consent e k d of
             Inl err \<Rightarrow> store_problem err
           | Inr c \<Rightarrow>
               if \<not> consent_readable p c then Problem 403 ''consent audit is not readable by this principal''
               else case consent_audit e (cn_id c) d of
                      Inl err \<Rightarrow> store_problem err
                    | Inr es \<Rightarrow> (case verify_audit_chain sha es of
                                  Some err \<Rightarrow> Problem 500 ''consent audit chain verification failed''
                                | None \<Rightarrow> Reply 200 (Audit_Body es))))"

section \<open>Applications\<close>

text \<open>The body's fields and its assignments; a body without them leaves a map that is nil.\<close>

definition handle_submit_application ::
  "tf_db env \<Rightarrow> tf_principal option \<Rightarrow> (tf_application \<times> tf_assignments option) option \<Rightarrow> tf_db \<Rightarrow> tf_answer \<times> tf_db" where
  "handle_submit_application e auth body d =
     (case principal_of auth ''trader'' of
        Inl no \<Rightarrow> (no, d)
      | Inr p \<Rightarrow>
          (case body of
             None \<Rightarrow> (Problem 400 ''malformed application request'', d)
           | Some (a, as) \<Rightarrow>
               if ta_trader a \<noteq> tp_subject p then (Problem 403 ''trader_id must be the authenticated trader'', d)
               else case as of
                      None \<Rightarrow> (Panicked, d)
                    | Some m \<Rightarrow> answer 201 Application_Body
                        (submit_application e a (AList.update ''TRADER'' (tp_subject p) m) d)))"

definition application_readable :: "tf_db env \<Rightarrow> tf_principal \<Rightarrow> tf_application \<Rightarrow> tf_db \<Rightarrow> bool" where
  "application_readable e p a d \<longleftrightarrow>
     ta_trader a = tp_subject p \<or> has_role p ''auditor'' \<or> has_role p ''compliance-checker'' \<or> has_role p ''bank-officer'' \<or>
     (case tf_role_assignments e (ta_id a) d of Inl _ \<Rightarrow> False | Inr as \<Rightarrow> tp_subject p \<in> snd ` set as)"

definition handle_get_application ::
  "(string \<Rightarrow> string \<Rightarrow> bool) \<Rightarrow> tf_db env \<Rightarrow> tf_principal option \<Rightarrow> string \<Rightarrow> tf_db \<Rightarrow> tf_answer" where
  "handle_get_application before e auth k d =
     (case principal_of auth [] of
        Inl no \<Rightarrow> no
      | Inr p \<Rightarrow>
          (case get_application e k d of
             Inl err \<Rightarrow> store_problem err
           | Inr a \<Rightarrow>
               if \<not> application_readable e p a d then Problem 403 ''application is not readable by this principal''
               else case list_approvals_tf before e (ta_id a) d of
                      Inl err \<Rightarrow> store_problem err | Inr vs \<Rightarrow> Reply 200 (Approvals_Body a vs)))"

definition handle_list_applications ::
  "(string \<Rightarrow> string \<Rightarrow> bool) \<Rightarrow> tf_db env \<Rightarrow> tf_principal option \<Rightarrow> string \<Rightarrow> tf_db \<Rightarrow> tf_answer" where
  "handle_list_applications before e auth trader d =
     (case principal_of auth [] of
        Inl no \<Rightarrow> no
      | Inr p \<Rightarrow>
          (case may_list p trader ''applications'' of
             Some no \<Rightarrow> no
           | None \<Rightarrow> (case list_applications before e trader d of
                        Inl err \<Rightarrow> store_problem err | Inr xs \<Rightarrow> Reply 200 (Applications_Body xs))))"

definition handle_decision ::
  "tf_db env \<Rightarrow> tf_principal option \<Rightarrow> (int \<times> string) option \<Rightarrow> string \<Rightarrow> tf_db \<Rightarrow> tf_answer \<times> tf_db" where
  "handle_decision e auth body k d =
     (case principal_of auth [] of
        Inl no \<Rightarrow> (no, d)
      | Inr p \<Rightarrow>
          if \<not> has_role p ''trader'' \<and> \<not> has_role p ''bank-officer'' \<and> \<not> has_role p ''compliance-checker''
          then (Problem 403 ''a deciding role is required'', d)
          else case body of
                 None \<Rightarrow> (Problem 400 ''a positive version is required'', d)
               | Some (v, decision) \<Rightarrow>
                   if v \<le> 0 then (Problem 400 ''a positive version is required'', d)
                   else answer 200 (\<lambda>(a, w). Decision_Body a w) (record_decision_tf e k v (tp_subject p) decision d))"

section \<open>The bank surface\<close>

record bank_entry =
  be_bank :: string
  be_subjects :: "string list"
  be_names :: "string list"

record bank_registry =
  br_subjects :: "string \<rightharpoonup> string"
  br_names :: "string \<rightharpoonup> string"

definition put_all :: "string \<Rightarrow> string list \<Rightarrow> (string \<rightharpoonup> string) \<Rightarrow> string \<rightharpoonup> string" where
  "put_all bank ks m = fold (\<lambda>k m. m(k \<mapsto> bank)) ks m"

fun register_banks :: "bank_entry list \<Rightarrow> bank_registry \<Rightarrow> bank_registry option" where
  "register_banks [] r = Some r"
| "register_banks (b # bs) r =
     (if \<not> canonical_id (be_bank b) then None
      else if be_subjects b = [] \<and> be_names b = [] then None
      else if list_ex (\<lambda>s. trim_space s = []) (be_subjects b @ be_names b) then None
      else register_banks bs (r\<lparr>br_subjects := put_all (be_bank b) (be_subjects b) (br_subjects r),
             br_names := put_all (be_bank b) (be_names b) (br_names r)\<rparr>))"

text \<open>The JSON of the environment, trimmed and decoded by the parameter \<open>decode\<close>.\<close>

definition new_bank_registry :: "(string \<Rightarrow> bank_entry list option) \<Rightarrow> string \<Rightarrow> bank_registry option" where
  "new_bank_registry decode json =
     (if trim_space json = [] then None
      else case decode (trim_space json) of
             None \<Rightarrow> None
           | Some bs \<Rightarrow> if bs = [] then None else register_banks bs \<lparr>br_subjects = Map.empty, br_names = Map.empty\<rparr>)"

datatype bank_error = ErrBankUnauthenticated | ErrBankForbidden

text \<open>The name in a verified client certificate, and the subject behind a bearer token.\<close>

definition resolve_bank :: "bank_registry \<Rightarrow> string option \<Rightarrow> string option option \<Rightarrow> bank_error + string" where
  "resolve_bank r certificate bearer =
     (case certificate of
        Some cn \<Rightarrow> (case br_names r cn of Some bank \<Rightarrow> Inr bank | None \<Rightarrow> Inl ErrBankForbidden)
      | None \<Rightarrow>
          (case bearer of
             None \<Rightarrow> Inl ErrBankUnauthenticated
           | Some subject \<Rightarrow>
               (case subject of
                  None \<Rightarrow> Inl ErrBankUnauthenticated
                | Some s \<Rightarrow> if s = [] then Inl ErrBankUnauthenticated
                            else case br_subjects r s of Some bank \<Rightarrow> Inr bank | None \<Rightarrow> Inl ErrBankForbidden)))"

record dataset =
  ds_bank :: string
  ds_trader :: string
  ds_scope :: string
  ds_consent :: string
  ds_expires :: string
  ds_refs :: "string list"

definition handle_dataset ::
  "(string \<Rightarrow> dataset \<Rightarrow> int \<Rightarrow> string option) \<Rightarrow> tf_db env \<Rightarrow> bank_registry \<Rightarrow> string option \<Rightarrow> string option option \<Rightarrow> string
     \<Rightarrow> string \<Rightarrow> tf_db \<Rightarrow> tf_answer" where
  "handle_dataset seal e r certificate bearer trader scope d =
     (case resolve_bank r certificate bearer of
        Inl ErrBankUnauthenticated \<Rightarrow> Problem 401 ''bank client authentication required''
      | Inl ErrBankForbidden \<Rightarrow> Problem 403 ''bank client is not registered''
      | Inr bank \<Rightarrow>
          (case consented_dataset e bank trader scope (env_now e) d of
             Inl err \<Rightarrow> Problem 403 ''no active consent covers this dataset''
           | Inr (c, refs) \<Rightarrow>
               (case seal (cn_id c @ ''-'' @ scope)
                       \<lparr>ds_bank = cn_bank c, ds_trader = cn_trader c, ds_scope = scope, ds_consent = cn_id c,
                        ds_expires = rfc3339_nano (cn_expires c div 1000000000 * 1000000000), ds_refs = refs\<rparr> (env_now e) of
                  None \<Rightarrow> Problem 500 ''dataset envelope sealing failed''
                | Some bundle \<Rightarrow> Reply 200 (Dataset_Body bundle))))"

end
