(* ===== verification/Trade_Chain.thy ===== *)
theory Trade_Chain
  imports Trade_Http
begin

text \<open>
  The trade-finance service as a whole: the states its store calls can reach with other calls committing in between,
  and what holds in all of them. The properties of consents and applications rest on the invariant.
\<close>

section \<open>The service\<close>

datatype tf_call =
  Request_Consent consent int | Activate_Consent string int string | Reject_Consent string int string
| Request_Revocation string int string | Confirm_Revocation string int string | Reject_Revocation string int string
| Submit_Application tf_application tf_assignments | Decide_Application string int string string
| Review_Application string int string string string | Bind_Accounts string int string string
| Record_Legs string string u64 string | Complete_Disbursement string string | Complete_Settlement string string

fun trade_call :: "(string \<Rightarrow> string) \<Rightarrow> sealing \<Rightarrow> tf_db env \<Rightarrow> tf_call \<Rightarrow> tf_db \<Rightarrow> tf_db" where
  "trade_call sha sign e (Request_Consent c now) d = snd (request_consent sha e c now d)"
| "trade_call sha sign e (Activate_Consent k v who) d = snd (activate sha sign e k v who d)"
| "trade_call sha sign e (Reject_Consent k v who) d = snd (reject_consent sha e k v who d)"
| "trade_call sha sign e (Request_Revocation k v who) d = snd (request_revocation sha e k v who d)"
| "trade_call sha sign e (Confirm_Revocation k v who) d = snd (confirm_revocation sha e k v who d)"
| "trade_call sha sign e (Reject_Revocation k v who) d = snd (reject_revocation sha e k v who d)"
| "trade_call sha sign e (Submit_Application a as) d = snd (submit_application e a as d)"
| "trade_call sha sign e (Decide_Application k v who decision) d = snd (record_decision_tf e k v who decision d)"
| "trade_call sha sign e (Review_Application k v role who kind) d = snd (transition_application e k v role who begin_review kind d)"
| "trade_call sha sign e (Bind_Accounts k v f g) d = snd (bind_ledger_accounts e k v f g d)"
| "trade_call sha sign e (Record_Legs k reserve amount currency) d = snd (record_legs_tf e k reserve amount currency d)"
| "trade_call sha sign e (Complete_Disbursement k transfer) d = snd (complete_disbursement_leg e k transfer d)"
| "trade_call sha sign e (Complete_Settlement k transfer) d = snd (complete_settlement_leg e k transfer d)"

inductive trade_runs :: "(string \<Rightarrow> string) \<Rightarrow> sealing \<Rightarrow> tf_db \<Rightarrow> tf_db \<Rightarrow> bool" for sha sign where
  idle: "trade_runs sha sign d d"
| call: "trade_runs sha sign d0 d \<Longrightarrow> trade_runs sha sign d (env_other e d) \<Longrightarrow> trade_runs sha sign d0 (trade_call sha sign e c d)"

definition empty_tf_db :: tf_db where
  "empty_tf_db = \<lparr>tf_consents = [], tf_audit = [], tf_apps = [], tf_roles = [], tf_approvals = [], tf_transitions = [],
     tf_legs = [], tf_outbox = []\<rparr>"

abbreviation trade_reach :: "(string \<Rightarrow> string) \<Rightarrow> sealing \<Rightarrow> tf_db \<Rightarrow> bool" where
  "trade_reach sha sign d \<equiv> sha_hex sha \<and> trade_runs sha sign empty_tf_db d"

lemma trade_call_step:
  assumes "sha_hex sha" "trade_ok sha sign d" "tf_step sha sign d (env_other e d)"
  shows "tf_step sha sign d (trade_call sha sign e c d)"
  using assms request_consent_step transition_consent_step [OF assms activation_fair]
    transition_consent_step [OF assms moves_are_fair(1)] transition_consent_step [OF assms moves_are_fair(2)]
    transition_consent_step [OF assms moves_are_fair(3)] transition_consent_step [OF assms moves_are_fair(4)]
    tf_submit_step tf_decision_step review_step bind_step tf_legs_step
  by (cases c) (simp_all add: activate_def reject_consent_def request_revocation_def confirm_revocation_def reject_revocation_def
      complete_disbursement_leg_def complete_settlement_leg_def)

lemma trade_runs_step: "trade_runs sha sign d d' \<Longrightarrow> sha_hex sha \<Longrightarrow> trade_ok sha sign d \<Longrightarrow> tf_step sha sign d d'"
proof (induction rule: trade_runs.induct)
  case (call d0 d e c)
  then have "tf_step sha sign d0 d" by blast
  moreover from this have "trade_ok sha sign d" by (simp add: tf_step_def)
  moreover from this have "tf_step sha sign d (trade_call sha sign e c d)" using call by (blast intro: trade_call_step)
  ultimately show ?case by (blast intro: tf_step_trans)
qed (rule tf_step_refl)

lemma empty_trade_ok: "trade_ok sha sign empty_tf_db"
  by (simp add: trade_ok_def consents_ok_def applications_ok_def empty_tf_db_def open_pairs_def)

lemma reach_ok: "trade_reach sha sign d \<Longrightarrow> trade_ok sha sign d"
  using trade_runs_step [OF _ _ empty_trade_ok] by (blast intro: tf_step_def [THEN iffD1, THEN conjunct1])

lemma reach_step: "trade_reach sha sign d \<Longrightarrow> trade_runs sha sign d d' \<Longrightarrow> tf_step sha sign d d'"
  using trade_runs_step reach_ok by blast

section \<open>A run\<close>

text \<open>A digest for running the model: 64 hexadecimal digits that depend on the text.\<close>

definition demo_sha :: "string \<Rightarrow> string" where
  "demo_sha x = map (\<lambda>c. if c \<in> set ''0123456789'' then c else CHR ''a'') (take 4 (x @ ''zzzz'')) @ replicate 60 CHR ''0''"

definition demo_sealing :: sealing where
  "demo_sealing p now = Inr (cp_id p, cp_checker p)"

definition tf_env :: "nat \<Rightarrow> tf_db env" where
  "tf_env n = quiet_env (int n * 1000000000 - 62135596800000000000) (\<lambda>i. replicate n CHR ''u'' @ replicate i CHR ''v'')"

fun run_tf_calls :: "nat \<Rightarrow> tf_call list \<Rightarrow> tf_db \<Rightarrow> tf_db" where
  "run_tf_calls n [] d = d"
| "run_tf_calls n (c # cs) d = run_tf_calls (Suc n) cs (trade_call demo_sha demo_sealing (tf_env n) c d)"

definition demo_consent :: consent where
  "demo_consent = \<lparr>cn_id = ''c'', cn_trader = ''ada'', cn_bank = ''bank'', cn_scopes = [''TAX_STAMP_STATUS''],
     cn_refs = [(''TAX_STAMP_STATUS'', [replicate 64 CHR ''a''])], cn_state = ConsentPendingChecker, cn_expires = day_ns - 62135596800000000000, cn_maker = ''ada'',
     cn_checker = [], cn_jws = [], cn_bundle = [], cn_created = 0, cn_updated = 0, cn_version = 0\<rparr>"

definition demo_granted :: tf_db where
  "demo_granted = run_tf_calls 1 [Request_Consent demo_consent (- 62135596800000000000), Activate_Consent ''c'' 1 ''chk''] empty_tf_db"

lemma demo_sha_hex: "sha_hex demo_sha"
proof -
  have "list_all (\<lambda>c. is_digit c \<or> c \<in> set ''abcdef'') (CHR ''a'' # CHR ''0'' # ''0123456789'')" by code_simp
  then have hex: "is_digit c \<or> c \<in> set ''abcdef''" if "c = CHR ''a'' \<or> c = CHR ''0'' \<or> c \<in> set ''0123456789''" for c
    using that unfolding list_all_iff by auto
  have "list_all (\<lambda>c. is_digit c \<or> c \<in> set ''abcdef'') (demo_sha x)" for x
    unfolding list_all_iff demo_sha_def by (intro ballI hex) (auto simp del: list.set split: if_splits)
  moreover have "length (demo_sha x) = 64" for x unfolding demo_sha_def by simp
  ultimately show ?thesis unfolding sha_hex_def by blast
qed

lemma run_tf_runs: "trade_runs demo_sha demo_sealing d0 d \<Longrightarrow> trade_runs demo_sha demo_sealing d0 (run_tf_calls n cs d)"
proof (induction cs arbitrary: n d)
  case (Cons c cs)
  have "trade_runs demo_sha demo_sealing d (env_other (tf_env n) d)" by (simp add: tf_env_def trade_runs.idle)
  then show ?case using Cons trade_runs.call by simp
qed simp

lemma demo_granted_reach: "trade_reach demo_sha demo_sealing demo_granted"
  unfolding demo_granted_def using demo_sha_hex run_tf_runs [OF trade_runs.idle] by blast

definition demo_registry :: bank_registry where
  "demo_registry = \<lparr>br_subjects = [''svc'' \<mapsto> ''bank''], br_names = Map.empty\<rparr>"

definition demo_served :: "tf_db \<Rightarrow> tf_answer" where
  "demo_served d = handle_dataset (\<lambda>i ds now. Some (i @ concat (ds_refs ds))) (tf_env 5) demo_registry None (Some (Some ''svc'')) ''ada''
     ''TAX_STAMP_STATUS'' d"

definition demo_view :: "tf_db \<Rightarrow> (string \<times> string \<times> string \<times> string \<times> consent_state \<times> int) list \<times> (string \<times> string) list \<times> bool \<times> bool" where
  "demo_view d = (map (\<lambda>c. (cn_id c, cn_maker c, cn_trader c, cn_bank c, cn_state c, cn_version c)) (tf_consents d),
     map (\<lambda>x. (ae_action x, ae_actor x)) (audit_rows ''c'' d),
     (case demo_served d of Reply s b \<Rightarrow> True | _ \<Rightarrow> False),
     (case fst (request_revocation demo_sha (tf_env 6) ''c'' 2 ''ada'' d) of Inr c \<Rightarrow> True | Inl _ \<Rightarrow> False))"

lemma demo_granted_view:
  "demo_view demo_granted =
     ([(''c'', ''ada'', ''ada'', ''bank'', ConsentActive, 2)], [(''REQUESTED'', ''ada''), (''ACTIVATED'', ''chk'')], True, True)"
  by code_simp

lemma demo_granted_row:
  obtains c where "tf_consents demo_granted = [c]" "cn_id c = ''c''" "cn_maker c = ''ada''" "cn_trader c = ''ada''" "cn_bank c = ''bank''"
    "cn_state c = ConsentActive" "cn_version c = 2"
proof -
  have "map (\<lambda>c. (cn_id c, cn_maker c, cn_trader c, cn_bank c, cn_state c, cn_version c)) (tf_consents demo_granted) =
     [(''c'', ''ada'', ''ada'', ''bank'', ConsentActive, 2)]"
    using demo_granted_view by (simp add: demo_view_def)
  then show thesis by (auto simp: map_eq_Cons_conv intro: that)
qed

lemma demo_answers:
  "\<exists>s b. demo_served demo_granted = Reply s b"
  "\<exists>c. fst (request_revocation demo_sha (tf_env 6) ''c'' 2 ''ada'' demo_granted) = Inr c"
  using demo_granted_view by (auto simp: demo_view_def split: tf_answer.splits sum.splits)

section \<open>Consents\<close>

lemma sort_by_sorted: "sorted (map k xs) \<Longrightarrow> sort_by (\<lambda>a b. k a \<le> k b) xs = xs"
proof (induction xs)
  case (Cons x xs)
  then have "\<forall>y \<in> set xs. k x \<le> k y" "sort_by (\<lambda>a b. k a \<le> k b) xs = xs" by auto
  then show ?case by (cases xs) simp_all
qed simp

lemma verified_is_sorted:
  assumes "verify_audit_chain sha es = None" shows "sort_by (\<lambda>a b. ae_seq a \<le> ae_seq b) es = es"
proof (rule sort_by_sorted)
  have "map ae_seq es = map (\<lambda>i. int i + 1) [0..<length es]"
    using verify_seqs [OF assms [unfolded verify_audit_chain_def]] by simp
  then show "sorted (map ae_seq es)" by (simp add: sorted_map sorted_wrt_iff_nth_less)
qed

lemma reach_consent:
  "trade_reach sha sign d \<Longrightarrow> c \<in> set (tf_consents d) \<Longrightarrow> consent_ok sha sign d c"
  using reach_ok by (auto simp: trade_ok_def consents_ok_def)

text \<open>C22 The audit of a consent is its history. In every reachable state the audit rows read for a consent form a
  chain that verifies; it starts with the maker's request, each entry continues from the state the last one left, it
  ends in the consent's state with one entry per version, and every decision on the grant or on a revocation was taken by
  a checker who is not the maker.\<close>

theorem consent_audit_is_the_history:
  assumes "trade_reach sha sign d" and "c \<in> set (tf_consents d)" and "consent_audit e (cn_id c) d = Inr es"
  shows "verify_audit_chain sha es = None \<and> es \<noteq> [] \<and> ae_action (hd es) = ''REQUESTED'' \<and> ae_actor (hd es) = cn_maker c \<and>
    successively (\<lambda>a b. ae_from b = ae_to a) es \<and> ae_to (last es) = consent_text (cn_state c) \<and> int (length es) = cn_version c \<and>
    list_all (\<lambda>x. ae_action x \<in> {''REQUESTED'', ''REVOCATION_REQUESTED''} \<or> ae_actor x \<noteq> cn_maker c) es"
proof -
  have ok: "audit_ok sha c (audit_rows (cn_id c) d)" using reach_consent [OF assms(1,2)] by (simp add: consent_ok_def)
  then have es: "es = audit_rows (cn_id c) d"
    using assms(3) verified_is_sorted by (auto simp: consent_audit_def db_simps audit_ok_def)
  have fits: "entry_fits (cn_maker c) x" if "x \<in> set es" for x using ok that by (simp add: audit_ok_def es list_all_iff)
  then have "list_all (\<lambda>x. ae_action x \<in> {''REQUESTED'', ''REVOCATION_REQUESTED''} \<or> ae_actor x \<noteq> cn_maker c) es"
    by (auto simp: list_all_iff entry_fits_def split: if_splits)
  moreover have "ae_actor (hd es) = cn_maker c"
    using fits [of "hd es"] ok by (auto simp: entry_fits_def es audit_ok_def)
  ultimately show ?thesis using ok by (simp add: es audit_ok_def)
qed

lemma consent_audit_is_the_history_witness:
  "\<exists>es. consent_audit (tf_env 9) ''c'' demo_granted = Inr es \<and> verify_audit_chain demo_sha es = None \<and> length es = 2 \<and>
     ae_to (last es) = ''ACTIVE'' \<and> ae_actor (hd es) = ''ada''"
proof (rule demo_granted_row)
  fix c assume c: "tf_consents demo_granted = [c]" "cn_id c = ''c''" "cn_maker c = ''ada''" "cn_state c = ConsentActive" "cn_version c = 2"
  obtain es where es: "consent_audit (tf_env 9) (cn_id c) demo_granted = Inr es" by (simp add: consent_audit_def tf_env_def)
  have "c \<in> set (tf_consents demo_granted)" using c(1) by simp
  from consent_audit_is_the_history [OF demo_granted_reach this es] show ?thesis using es c by auto
qed

lemma active_consent_Inr:
  assumes "active_consent e trader bank now d = Inr c"
  shows "c \<in> set (tf_consents d) \<and> cn_trader c = trader \<and> cn_bank c = bank \<and> cn_state c = ConsentActive \<and> now < cn_expires c"
proof -
  let ?cs = "filter (\<lambda>c. cn_trader c = trader \<and> cn_bank c = bank \<and> cn_state c = ConsentActive) (tf_consents d)"
  have "c \<in> set (sort_by (\<lambda>a b. cn_created b \<le> cn_created a) ?cs)" and "now < cn_expires c"
    using assms by (auto simp: active_consent_def shareable_def db_simps simp del: set_sort_by split: list.splits if_splits)
  then show ?thesis by auto
qed

lemma is_digit_chars: "is_digit c \<Longrightarrow> c \<in> set ''0123456789''"
proof -
  assume "is_digit c"
  moreover obtain n :: nat where n: "n = of_char c" by blast
  ultimately have "48 \<le> n" "n < 58" by (simp_all add: is_digit_def Let_def)
  then have "n \<in> set [48..<58]" unfolding set_upt by simp
  moreover have "list_all (\<lambda>n. char_of n \<in> set ''0123456789'') [48..<58 :: nat]" by code_simp
  ultimately have "char_of n \<in> set ''0123456789''" unfolding list_all_iff by (rule bspec [rotated])
  then show ?thesis by (simp add: n)
qed

lemma digest_reference_hex:
  assumes "digest_reference s"
  shows "\<exists>hex. (s = hex \<or> s = ''sha256:'' @ hex) \<and> length hex = 64 \<and> set hex \<subseteq> set ''0123456789abcdef''"
proof -
  let ?hex = "if take 7 s = ''sha256:'' then drop 7 s else s"
  have "s = ?hex \<or> s = ''sha256:'' @ ?hex" by (metis append_take_drop_id)
  moreover have len: "length ?hex = 64" and chars: "\<And>c. c \<in> set ?hex \<Longrightarrow> is_digit c \<or> c \<in> set ''abcdef''"
    using assms unfolding digest_reference_def Let_def list_all_iff by blast+
  have "set ?hex \<subseteq> set ''0123456789'' \<union> set ''abcdef''" using chars is_digit_chars by blast
  moreover have "set ''0123456789'' \<union> set ''abcdef'' = set ''0123456789abcdef''" by auto
  ultimately show ?thesis using len by (intro exI [of _ ?hex]) auto
qed

text \<open>C18 A bank is served a dataset only under a consent, and no more than the consent covers. The bank is the registered
  one, the consent is active, unexpired and lasts at most 366 days, it is the trader's to this bank for this scope, and
  the grant was sealed on the activation of a checker other than its maker. What is answered, with status 200, is
  the envelope the signer makes of six fields: this bank, this trader, this scope, the consent and its expiry in whole
  seconds, and the references of this consent in this scope alone, at least one and each of them a digest.\<close>

theorem shared_data_is_consented:
  assumes "trade_reach sha sign d" and "handle_dataset seal e r certificate bearer trader scope d = Reply status body"
  shows "\<exists>c x refs envelope. c \<in> set (tf_consents d) \<and> resolve_bank r certificate bearer = Inr (cn_bank c) \<and> cn_trader c = trader \<and>
    cn_state c = ConsentActive \<and> env_now e < cn_expires c \<and> cn_expires c \<le> cn_created c + max_consent_lifetime \<and>
    scope \<in> set (cn_scopes c) \<and> map_of (cn_refs c) scope = Some refs \<and> refs \<noteq> [] \<and>
    (\<forall>ref \<in> set refs. \<exists>hex. (ref = hex \<or> ref = ''sha256:'' @ hex) \<and> length hex = 64 \<and> set hex \<subseteq> set ''0123456789abcdef'') \<and>
    x \<in> set (audit_rows (cn_id c) d) \<and> ae_action x = ''ACTIVATED'' \<and> ae_actor x \<noteq> cn_maker c \<and> sealed_by sign c (ae_actor x) \<and>
    status = 200 \<and> body = Dataset_Body envelope \<and>
    seal (cn_id c @ ''-'' @ scope)
      \<lparr>ds_bank = cn_bank c, ds_trader = trader, ds_scope = scope, ds_consent = cn_id c,
       ds_expires = rfc3339_nano (cn_expires c div 1000000000 * 1000000000), ds_refs = refs\<rparr>
      (env_now e) = Some envelope"
proof -
  obtain bank c refs envelope where r: "resolve_bank r certificate bearer = Inr bank" "consented_dataset e bank trader scope (env_now e) d = Inr (c, refs)"
    and b: "status = 200" "body = Dataset_Body envelope"
      "seal (cn_id c @ ''-'' @ scope)
         \<lparr>ds_bank = cn_bank c, ds_trader = cn_trader c, ds_scope = scope, ds_consent = cn_id c,
          ds_expires = rfc3339_nano (cn_expires c div 1000000000 * 1000000000), ds_refs = refs\<rparr> (env_now e) = Some envelope"
    using assms(2) by (auto simp: handle_dataset_def split: sum.splits bank_error.splits option.splits)
  then have act: "active_consent e trader bank (env_now e) d = Inr c" and s: "scope \<in> set (cn_scopes c)"
    and refs: "refs = refs_at (cn_refs c) scope" "refs \<noteq> []"
    by (auto simp: consented_dataset_def db_simps covers_scope_def split: if_splits)
  have m: "map_of (cn_refs c) scope = Some refs" using refs by (auto simp: refs_at_def split: option.splits)
  note c = active_consent_Inr [OF act]
  have ok: "consent_ok sha sign d c" using reach_consent [OF assms(1)] c by blast
  then obtain x where x: "x \<in> set (audit_rows (cn_id c) d)" "ae_action x = ''ACTIVATED''" "sealed_by sign c (ae_actor x)"
    using c by (auto simp: consent_ok_def)
  have "entry_fits (cn_maker c) x" using ok x(1) by (auto simp: consent_ok_def audit_ok_def list_all_iff)
  then have "ae_actor x \<noteq> cn_maker c" using x(2) by (simp add: entry_fits_def)
  moreover have g: "grant_ok c" using ok by (simp add: consent_ok_def)
  then have "list_all digest_reference refs" using s refs(1) by (simp add: grant_ok_def)
  then have "\<forall>ref \<in> set refs. \<exists>hex. (ref = hex \<or> ref = ''sha256:'' @ hex) \<and> length hex = 64 \<and> set hex \<subseteq> set ''0123456789abcdef''"
    using digest_reference_hex unfolding list_all_iff by blast
  moreover have "cn_expires c \<le> cn_created c + max_consent_lifetime" using g s by (auto simp: grant_ok_def)
  ultimately show ?thesis using c r(1) s x b refs(2) m by metis
qed

lemma shared_data_is_consented_witness:
  "\<exists>c x envelope. tf_consents demo_granted = [c] \<and> cn_state c = ConsentActive \<and> cn_bank c = ''bank'' \<and> x \<in> set (audit_rows ''c'' demo_granted) \<and>
     ae_actor x \<noteq> ''ada'' \<and> demo_served demo_granted = Reply 200 (Dataset_Body envelope)"
proof (rule demo_granted_row)
  fix c assume c: "tf_consents demo_granted = [c]" "cn_id c = ''c''" "cn_maker c = ''ada''" "cn_state c = ConsentActive" "cn_bank c = ''bank''"
  obtain s b where served: "demo_served demo_granted = Reply s b" using demo_answers(1) by blast
  from shared_data_is_consented [OF demo_granted_reach served [unfolded demo_served_def]]
  show ?thesis using c served by auto
qed

text \<open>C21 Revocation suspends sharing at once. When the maker's request to revoke has gone through, no dataset of the
  trader is available to the bank, whatever the scope and the instant: the pair has no other open consent.\<close>

theorem revocation_suspends_sharing:
  assumes "trade_reach sha sign d" and "trade_runs sha sign d (env_other e d)"
    and "request_revocation sha e k version maker d = (Inr c, d')"
  shows "\<exists>err. consented_dataset e' (cn_bank c) (cn_trader c) scope now d' = Inl err"
proof (cases "consented_dataset e' (cn_bank c) (cn_trader c) scope now d'")
  case (Inr p)
  have o: "tf_step sha sign d (env_other e d)" using reach_step [OF assms(1,2)] .
  have sha: "sha_hex sha" using assms(1) by blast
  have fair: "fair_move sign maker ''REVOCATION_REQUESTED'' a u" if "request_revocation_of a maker = Inr u" for a u
    using moves_are_fair(2) [OF that] .
  have c: "c \<in> set (tf_consents d')" "cn_state c = ConsentRevocationPending"
    using transition_consent_done [OF sha reach_ok [OF assms(1)] o fair assms(3) [unfolded request_revocation_def]]
    by (auto simp: request_revocation_of_def split: if_splits)
  have "tf_step sha sign d d'"
    using transition_consent_step [OF sha reach_ok [OF assms(1)] o fair] assms(3) by (metis request_revocation_def snd_conv)
  then have open_distinct: "distinct (open_pairs (tf_consents d'))" by (simp add: tf_step_def trade_ok_def consents_ok_def)
  obtain b where b: "active_consent e' (cn_trader c) (cn_bank c) now d' = Inr b"
    using Inr by (auto simp: consented_dataset_def db_simps split: if_splits)
  note b = active_consent_Inr [OF b]
  have "b = c"
  proof (rule distinct_key_unique [of "\<lambda>c. (cn_trader c, cn_bank c)" "filter open_consent (tf_consents d')"])
    show "distinct (map (\<lambda>c. (cn_trader c, cn_bank c)) (filter open_consent (tf_consents d')))"
      using open_distinct by (simp add: open_pairs_def)
  qed (use b c in \<open>simp_all add: open_consent_def\<close>)
  then show ?thesis using b c(2) by simp
qed blast

lemma revocation_suspends_sharing_witness:
  "\<exists>c d err. request_revocation demo_sha (tf_env 6) ''c'' 2 ''ada'' demo_granted = (Inr c, d) \<and>
     consented_dataset (tf_env 7) (cn_bank c) (cn_trader c) ''TAX_STAMP_STATUS'' 0 d = Inl err"
proof -
  obtain c d where r: "request_revocation demo_sha (tf_env 6) ''c'' 2 ''ada'' demo_granted = (Inr c, d)"
    using demo_answers(2) by (metis prod.collapse)
  have "trade_runs demo_sha demo_sealing demo_granted (env_other (tf_env 6) demo_granted)" by (simp add: tf_env_def trade_runs.idle)
  from revocation_suspends_sharing [OF demo_granted_reach this r] show ?thesis using r by blast
qed

end
