(* ===== verification/Trade_Props.thy ===== *)
theory Trade_Props
  imports Trade_Chain
begin

text \<open>
  What an auditor and a financing bank can rely on: the tamper evidence of the audit chain, the approvals behind the state
  of an application, and what the deployed routes do to an application.
\<close>

section \<open>Tamper evidence\<close>

definition bar_free :: "string \<Rightarrow> bool" where
  "bar_free s \<longleftrightarrow> CHR ''|'' \<notin> set s"

definition plain_entry :: "audit_entry \<Rightarrow> bool" where
  "plain_entry x \<longleftrightarrow> list_all bar_free [ae_consent x, ae_actor x, ae_action x, ae_from x, ae_to x]"

text \<open>What an entry claims; its row identifier is not among it.\<close>

definition entry_claims :: "audit_entry \<Rightarrow> string list \<times> int \<times> string" where
  "entry_claims x = ([ae_consent x, ae_actor x, ae_action x, ae_from x, ae_to x, ae_hash x, ae_prev x], ae_seq x, rfc3339_nano (ae_created x))"

lemma takeWhile_tail: "c \<notin> set a \<Longrightarrow> takeWhile (\<lambda>x. x \<noteq> c) (a @ c # x) = a"
  by (induction a) auto

lemma bar_prefix:
  assumes "bar_free a" "bar_free b" "a @ CHR ''|'' # x = b @ CHR ''|'' # y"
  shows "a = b \<and> x = y"
proof -
  have "takeWhile (\<lambda>c. c \<noteq> CHR ''|'') (a @ CHR ''|'' # x) = a" "takeWhile (\<lambda>c. c \<noteq> CHR ''|'') (b @ CHR ''|'' # y) = b"
    using assms(1,2) by (simp_all add: bar_free_def takeWhile_tail)
  then show ?thesis using assms(3) by auto
qed

lemma canonical_bar_free: "canonical_id s \<Longrightarrow> bar_free s"
proof -
  assume "canonical_id s"
  then have "list_all id_char s" using canonical_id_iff id_pattern_chars by blast
  moreover have "\<not> id_char CHR ''|''" by code_simp
  ultimately show ?thesis unfolding bar_free_def list_all_iff by metis
qed

lemma sha_bar_free: "sha_hex sha \<Longrightarrow> bar_free (sha x)"
proof -
  assume "sha_hex sha"
  then have "\<forall>c \<in> set (sha x). is_digit c \<or> c \<in> set ''abcdef''" by (simp add: sha_hex_def list_all_iff)
  moreover have "\<not> (is_digit CHR ''|'' \<or> CHR ''|'' \<in> set ''abcdef'')" by code_simp
  ultimately show ?thesis unfolding bar_free_def by metis
qed

lemma genesis_bar_free: "bar_free genesis_prev_hash"
  by (simp add: bar_free_def genesis_prev_hash_def)

lemma fits_plain:
  assumes "entry_fits maker x" "canonical_id (ae_consent x)" shows "plain_entry x"
proof -
  have "list_all (\<lambda>(a, b, c). bar_free a \<and> bar_free b \<and> bar_free c) audit_moves" by (simp add: audit_moves_def bar_free_def)
  then have "bar_free (ae_action x) \<and> bar_free (ae_from x) \<and> bar_free (ae_to x)"
    using assms(1) by (auto simp: entry_fits_def list_all_iff)
  then show ?thesis using assms canonical_bar_free by (simp add: plain_entry_def entry_fits_def)
qed

text \<open>The text an entry's hash is taken of. It determines the claims of an entry whose number is known.\<close>

definition entry_text :: "audit_entry \<Rightarrow> string" where
  "entry_text x = join_bars [ae_consent x, dec (ae_seq x), ae_actor x, ae_action x, ae_from x, ae_to x, ae_prev x, rfc3339_nano (ae_created x)]"

text \<open>The separators of a joined text: those of the fields and one between each two of them.\<close>

lemma bar_free_simps [simp]:
  "bar_free []" "bar_free (c # s) \<longleftrightarrow> c \<noteq> CHR ''|'' \<and> bar_free s" "bar_free (s @ t) \<longleftrightarrow> bar_free s \<and> bar_free t"
  "bar_free (rev s) \<longleftrightarrow> bar_free s" "c \<noteq> CHR ''|'' \<Longrightarrow> bar_free (replicate n c)"
  by (auto simp: bar_free_def)

lemma bar_free_dropWhile: "bar_free s \<Longrightarrow> bar_free (dropWhile P s)"
  unfolding bar_free_def by (metis set_dropWhileD)

lemma digit_bar_free: "k < 10 \<Longrightarrow> digit k \<noteq> CHR ''|''"
proof -
  assume "k < 10"
  then have "k \<in> set [0..<10]" by simp
  moreover have "list_all (\<lambda>k. digit k \<noteq> CHR ''|'') [0..<10]" by code_simp
  ultimately show ?thesis unfolding list_all_iff by (rule bspec [rotated])
qed

lemma nat_digits_bar_free: "bar_free (nat_digits n)"
proof (induction n rule: less_induct)
  case (less n)
  then show ?case using digit_bar_free by (subst nat_digits.simps) simp
qed

lemma numbers_bar_free: "bar_free (dec x)" "bar_free (padded k x)"
  by (simp_all add: dec_def padded_def Let_def nat_digits_bar_free)

lemma time_bar_free: "bar_free (rfc3339_nano t)"
proof -
  have "bar_free (nano_text x)" for x using numbers_bar_free bar_free_dropWhile by (simp add: nano_text_def)
  moreover have "bar_free (format_date x)" for x using numbers_bar_free by (simp add: format_date_def split: prod.split)
  moreover have "bar_free (clock_text x)" for x using numbers_bar_free by (simp add: clock_text_def)
  ultimately show ?thesis by (simp add: rfc3339_nano_def)
qed

lemma bars_of_join:
  "xs \<noteq> [] \<Longrightarrow> Suc (count_list (join_bars xs) CHR ''|'') = sum_list (map (\<lambda>s. count_list s CHR ''|'') xs) + length xs"
  by (induction xs rule: join_bars.induct) simp_all

text \<open>A text that one way of reading is joined of fields without a separator is joined of as many such fields only.\<close>

lemma same_join_bar_free:
  assumes "join_bars xs = join_bars ys" "length xs = length ys" "list_all bar_free ys"
  shows "list_all bar_free xs"
proof (cases "xs = []")
  case False
  have "ys \<noteq> []" using False assms(2) by auto
  have "map (\<lambda>s. count_list s CHR ''|'') ys = map (\<lambda>s. 0) ys"
    using assms(3) by (simp add: list_all_iff bar_free_def count_list_0_iff)
  then have "sum_list (map (\<lambda>s. count_list s CHR ''|'') ys) = 0" by (simp only: sum_list_0)
  then have "sum_list (map (\<lambda>s. count_list s CHR ''|'') xs) = 0"
    using bars_of_join [OF False, unfolded assms(1,2)] bars_of_join [OF \<open>ys \<noteq> []\<close>] by linarith
  then show ?thesis by (simp add: list_all_iff bar_free_def count_list_0_iff)
qed simp

lemma same_text_same_claims:
  assumes eq: "entry_text x = entry_text y"
    and y: "plain_entry y" "bar_free (ae_prev y)" and "ae_seq x = ae_seq y" "ae_hash x = ae_hash y"
  shows "entry_claims x = entry_claims y"
proof -
  have step: "u = v \<Longrightarrow> w = z" if "u @ CHR ''|'' # w = v @ CHR ''|'' # z" for u v w z :: string using that by simp
  have b: "bar_free (ae_consent y)" "bar_free (ae_actor y)" "bar_free (ae_action y)" "bar_free (ae_from y)" "bar_free (ae_to y)"
    using y(1) by (simp_all add: plain_entry_def)
  have "list_all bar_free [ae_consent x, dec (ae_seq x), ae_actor x, ae_action x, ae_from x, ae_to x, ae_prev x, rfc3339_nano (ae_created x)]"
    by (rule same_join_bar_free [OF eq [unfolded entry_text_def]]) (use b y(2) numbers_bar_free time_bar_free in simp_all)
  then have bx: "bar_free (ae_consent x)" "bar_free (ae_actor x)" "bar_free (ae_action x)" "bar_free (ae_from x)" "bar_free (ae_to x)"
    and px: "bar_free (ae_prev x)" by simp_all
  note 0 = eq [unfolded entry_text_def join_bars.simps assms(4)]
  note 1 = bar_prefix [OF bx(1) b(1) 0]
  note 2 = bar_prefix [OF bx(2) b(2) step [OF conjunct2 [OF 1] refl]]
  note 3 = bar_prefix [OF bx(3) b(3) conjunct2 [OF 2]]
  note 4 = bar_prefix [OF bx(4) b(4) conjunct2 [OF 3]]
  note 5 = bar_prefix [OF bx(5) b(5) conjunct2 [OF 4]]
  note 6 = bar_prefix [OF px y(2) conjunct2 [OF 5]]
  show ?thesis using 1 2 3 4 5 6 assms(4,5) by (simp add: entry_claims_def)
qed

text \<open>Two entries of the same place whose texts differ under one digest.\<close>

definition collides :: "(string \<Rightarrow> string) \<Rightarrow> audit_entry list \<Rightarrow> audit_entry list \<Rightarrow> bool" where
  "collides sha es fs \<longleftrightarrow> list_ex (\<lambda>(x, y). entry_text x \<noteq> entry_text y \<and> sha (entry_text x) = sha (entry_text y)) (zip es fs)"

lemma verify_one:
  "verify_entries sha n prev [x] = None \<longleftrightarrow> ae_seq x = int n + 1 \<and> ae_prev x = prev \<and> sha (entry_text x) = ae_hash x"
  by (simp add: chain_hash_def entry_text_def del: join_bars.simps)

lemma verified_last: "verify_entries sha n prev zs = None \<Longrightarrow> zs \<noteq> [] \<Longrightarrow> \<exists>m. ae_hash (last zs) = sha m"
proof (induction zs rule: rev_induct)
  case (snoc z zs)
  then have "sha (entry_text z) = ae_hash z" unfolding verify_entries_append verify_one by blast
  then show ?case by (metis last_snoc)
qed simp

lemma chains_agree:
  assumes "sha_hex sha" "\<not> collides sha es fs" "verify_entries sha n prev es = None" "verify_entries sha n prev fs = None" "length es = length fs"
    "es \<noteq> [] \<Longrightarrow> ae_hash (last es) = ae_hash (last fs)" "list_all plain_entry fs" "bar_free prev"
  shows "map entry_claims es = map entry_claims fs"
  using assms(2-7)
proof (induction es arbitrary: fs rule: rev_induct)
  case (snoc x es)
  obtain gs y where fs: "fs = gs @ [y]" using snoc.prems(4) by (cases fs rule: rev_cases) simp_all
  have len: "length es = length gs" using snoc.prems(4) by (simp add: fs)
  let ?p = "\<lambda>zs. if zs = [] then prev else ae_hash (last zs)"
  note vx = snoc.prems(2) [unfolded verify_entries_append verify_one]
  note vy = snoc.prems(3) [unfolded fs verify_entries_append verify_one]
  have free: "bar_free (?p zs)" if "verify_entries sha n prev zs = None" for zs
    using verified_last [OF that] sha_bar_free [OF assms(1)] assms(8) by metis
  have no: "\<not> collides sha es gs" "entry_text x \<noteq> entry_text y \<Longrightarrow> sha (entry_text x) \<noteq> sha (entry_text y)"
    using snoc.prems(1) len by (auto simp: fs collides_def)
  have same: "ae_hash x = ae_hash y" using snoc.prems(5) by (simp add: fs)
  have claims: "entry_claims x = entry_claims y"
  proof (rule same_text_same_claims)
    show "entry_text x = entry_text y" using no(2) vx vy same by metis
    show "plain_entry y" using snoc.prems(6) by (simp add: fs)
    show "bar_free (ae_prev y)" using vy free by metis
    show "ae_seq x = ae_seq y" using vx vy len by simp
  qed (rule same)
  have "ae_hash (last es) = ae_hash (last gs)" if "es \<noteq> []"
  proof -
    have "gs \<noteq> []" using that len by auto
    then have "ae_prev x = ae_hash (last es)" "ae_prev y = ae_hash (last gs)" using vx vy that by simp_all
    then show ?thesis using claims by (simp add: entry_claims_def)
  qed
  then show ?case using snoc.IH [OF no(1) _ _ len] vx vy snoc.prems(6) claims by (simp add: fs)
qed simp

text \<open>C20 The audit chain is tamper-evident. Whoever kept the version of a consent and the hash of its last audit entry can
  tell any other history from the stored one: any chain whatever of that length and last hash that verifies, separators
  inside its fields included, agrees with the stored entries in every field but the row identifiers (the time as it is printed), or the two chains
  exhibit a collision of the digest. Moving a separator between fields forges nothing: the hashed text of a
  stored entry has seven, so no reading of it as eight fields leaves one inside a field.\<close>

theorem audit_chain_is_tamper_evident:
  assumes "trade_reach sha sign d" and "c \<in> set (tf_consents d)" and "consent_audit e (cn_id c) d = Inr es"
    and "verify_audit_chain sha fs = None" and "int (length fs) = cn_version c"
    and "ae_hash (last fs) = ae_hash (last es)"
  shows "map entry_claims fs = map entry_claims es \<or> collides sha fs es"
proof (cases "collides sha fs es")
  case False
  have ok: "consent_ok sha sign d c" using reach_consent [OF assms(1,2)] .
  then have aok: "audit_ok sha c (audit_rows (cn_id c) d)" by (simp add: consent_ok_def)
  then have es: "es = audit_rows (cn_id c) d"
    using assms(3) verified_is_sorted by (auto simp: consent_audit_def db_simps audit_ok_def)
  have "canonical_id (cn_id c)" using ok by (simp add: consent_ok_def grant_ok_def consent_ids_ok_def)
  then have "plain_entry x" if "x \<in> set es" for x
    using that aok fits_plain [of "cn_maker c" x] by (auto simp: es audit_ok_def list_all_iff audit_rows_def)
  then have plain: "list_all plain_entry es" by (simp add: list_all_iff)
  have "verify_entries sha 0 genesis_prev_hash es = None" "length fs = length es"
    using aok assms(5) by (simp_all add: audit_ok_def es verify_audit_chain_def)
  then have "map entry_claims fs = map entry_claims es"
    using chains_agree [OF _ False _ _ _ _ plain genesis_bar_free] assms(1,4,6) by (simp add: verify_audit_chain_def)
  then show ?thesis by blast
qed simp

lemma audit_chain_is_tamper_evident_witness:
  "\<exists>es fs. consent_audit (tf_env 9) ''c'' demo_granted = Inr es \<and> map ae_id fs \<noteq> map ae_id es \<and>
     (map entry_claims fs = map entry_claims es \<or> collides demo_sha fs es)"
proof (rule demo_granted_row)
  fix c assume c: "tf_consents demo_granted = [c]" "cn_id c = ''c''" "cn_maker c = ''ada''"
  have mem: "c \<in> set (tf_consents demo_granted)" using c(1) by simp
  have aok: "audit_ok demo_sha c (audit_rows (cn_id c) demo_granted)" using reach_consent [OF demo_granted_reach mem] by (simp add: consent_ok_def)
  let ?es = "audit_rows (cn_id c) demo_granted"
  let ?fs = "map (\<lambda>x. x\<lparr>ae_id := CHR ''x'' # ae_id x\<rparr>) ?es"
  have "sort_by (\<lambda>a b. ae_seq a \<le> ae_seq b) ?es = ?es"
    using aok by (intro verified_is_sorted [of demo_sha]) (simp add: audit_ok_def)
  then have es: "consent_audit (tf_env 9) (cn_id c) demo_granted = Inr ?es" by (simp add: consent_audit_def tf_env_def)
  have copy: "verify_entries sha n p (map (\<lambda>x. x\<lparr>ae_id := CHR ''x'' # ae_id x\<rparr>) xs) = verify_entries sha n p xs" for sha n p xs
    by (induction xs arbitrary: n p) simp_all
  have fs: "verify_audit_chain demo_sha ?fs = None" "int (length ?fs) = cn_version c" "ae_hash (last ?fs) = ae_hash (last ?es)"
    using aok by (simp_all add: audit_ok_def verify_audit_chain_def copy last_map)
  have ids: "map ae_id ?fs \<noteq> map ae_id ?es" using aok by (cases ?es) (auto simp: audit_ok_def)
  have "consent_audit (tf_env 9) (cn_id c) demo_granted = Inr ?es \<and> map ae_id ?fs \<noteq> map ae_id ?es \<and>
      (map entry_claims ?fs = map entry_claims ?es \<or> collides demo_sha ?fs ?es)"
    using es ids audit_chain_is_tamper_evident [OF demo_granted_reach mem es fs] by (intro conjI)
  then show ?thesis unfolding c(2) by blast
qed

section \<open>The approvals behind an application\<close>

text \<open>The states an application was approved from on its way, and the chain behind them.\<close>

fun approved_from :: "tf_state \<Rightarrow> tf_state list" where
  "approved_from Tf_Application = []"
| "approved_from Tf_Consent_Check = []"
| "approved_from Tf_Bank_Review = [Tf_Consent_Check]"
| "approved_from Tf_Clearance = [Tf_Consent_Check, Tf_Bank_Review]"
| "approved_from Tf_Approved = [Tf_Consent_Check, Tf_Bank_Review, Tf_Clearance]"
| "approved_from Tf_Disbursement_Pending = [Tf_Consent_Check, Tf_Bank_Review, Tf_Clearance, Tf_Approved]"
| "approved_from Tf_Disbursed = [Tf_Consent_Check, Tf_Bank_Review, Tf_Clearance, Tf_Approved, Tf_Disbursement_Pending]"
| "approved_from Tf_Settled =
     [Tf_Consent_Check, Tf_Bank_Review, Tf_Clearance, Tf_Approved, Tf_Disbursement_Pending, Tf_Disbursed]"
| "approved_from Tf_Declined = []"

lemma approved_path:
  assumes "list_all (decision_fits as) vs" "successively (\<lambda>u v. tv_from v = tv_to u) vs" "vs \<noteq> []"
    "tv_from (hd vs) = Tf_Consent_Check" "tv_to (last vs) \<noteq> Tf_Declined"
  shows "map tv_from vs = approved_from (tv_to (last vs)) \<and> list_all (\<lambda>v. tv_decision v = ''APPROVE'') vs"
  using assms
proof (induction vs rule: rev_induct)
  case (snoc v vs)
  then have v: "decision_fits as v" "tv_to v \<noteq> Tf_Declined" by simp_all
  then have succ: "tf_successor (tv_from v) = Some (tv_to v)" "tv_decision v = ''APPROVE''" "tv_from v \<noteq> Tf_Declined"
    by (auto simp: decision_fits_def)
  show ?case
  proof (cases "vs = []")
    case True
    then show ?thesis using snoc.prems(4) succ by auto
  next
    case False
    then have from_eq: "tv_from v = tv_to (last vs)" using snoc.prems(2) by (simp add: successively_append_iff)
    have "map tv_from vs = approved_from (tv_from v) \<and> list_all (\<lambda>v. tv_decision v = ''APPROVE'') vs"
      using snoc.IH snoc.prems succ(3) False by (simp add: successively_append_iff from_eq)
    moreover have "approved_from (tv_from v) @ [tv_from v] = approved_from (tv_to v)"
      using succ(1) snoc.prems(1) False fits_from [of as "last vs"] from_eq
      by (cases "tv_from v") (auto simp: list_all_iff)
    ultimately show ?thesis using succ(2) by simp
  qed
qed simp

text \<open>C19 Financing follows the chain of responsibility. In every reachable state an application that was not declined
  carries exactly the approvals that lead to its state, in order, each by the holder of the role the state asks for; the
  five roles have five different holders; and from clearance on the two ledger accounts are bound.\<close>

theorem financing_follows_the_chain:
  assumes "trade_reach sha sign d" and "a \<in> set (tf_apps d)" and "ta_state a \<noteq> Tf_Declined"
  shows "map tv_from (decisions_on (ta_id a) d) = approved_from (ta_state a) \<and>
    list_all (\<lambda>v. tv_decision v = ''APPROVE'' \<and> required_role_tf (tv_from v) = Some (tv_role v) \<and>
      (tv_role v, tv_principal v) \<in> set (roles_on (ta_id a) d)) (decisions_on (ta_id a) d) \<and>
    map fst (roles_on (ta_id a) d) = tf_chain_roles \<and> distinct (map snd (roles_on (ta_id a) d)) \<and>
    (Tf_Bank_Review \<notin> set (approved_from (ta_state a)) \<or> ta_facility a \<noteq> [] \<and> ta_settlement a \<noteq> [])"
proof -
  let ?vs = "decisions_on (ta_id a) d" and ?as = "roles_on (ta_id a) d"
  have ok: "application_ok ?as ?vs a" using app_invariant [OF reach_ok [OF assms(1)] assms(2)] .
  have path: "map tv_from ?vs = approved_from (ta_state a) \<and> list_all (\<lambda>v. tv_decision v = ''APPROVE'') ?vs"
  proof (cases "?vs = []")
    case True
    then show ?thesis using ok by (auto simp: application_ok_def)
  next
    case False
    then show ?thesis using ok assms(3) approved_path [of ?as ?vs] by (simp add: application_ok_def)
  qed
  have fits: "list_all (decision_fits ?as) ?vs" and as: "map fst ?as = tf_chain_roles" "distinct (map snd ?as)"
    and acc: "ta_state a \<in> {Tf_Clearance, Tf_Approved, Tf_Disbursement_Pending, Tf_Disbursed, Tf_Settled} \<longrightarrow>
       ta_facility a \<noteq> [] \<and> ta_settlement a \<noteq> []"
    using ok by (simp_all add: application_ok_def)
  have "list_all (\<lambda>v. tv_decision v = ''APPROVE'' \<and> required_role_tf (tv_from v) = Some (tv_role v) \<and>
      (tv_role v, tv_principal v) \<in> set ?as) ?vs"
    using path fits by (auto simp: list_all_iff decision_fits_def)
  moreover have "Tf_Bank_Review \<notin> set (approved_from (ta_state a)) \<or> ta_facility a \<noteq> [] \<and> ta_settlement a \<noteq> []"
    using acc by (cases "ta_state a") auto
  ultimately show ?thesis using path as by blast
qed

definition demo_financing :: tf_application where
  "demo_financing = \<lparr>ta_id = ''app'', ta_ref = ''ref'', ta_trader = ''ada'', ta_bank = ''bank'', ta_consent = ''c'',
     ta_product = ''DUTY_DEFERRAL_GUARANTEE'', ta_amount = 7, ta_currency = ''NGN'', ta_state = Tf_Application, ta_facility = [],
     ta_settlement = [], ta_created = 0, ta_updated = 0, ta_version = 0\<rparr>"

definition demo_holders :: tf_assignments where
  "demo_holders = zip tf_chain_roles [''kyc'', ''credit'', ''customs'', ''cash'', ''ada'']"

definition demo_financed :: tf_db where
  "demo_financed = run_tf_calls 3 [Submit_Application demo_financing demo_holders, Review_Application ''app'' 1 ''BANK'' ''kyc'' ''tradefinance.application.decision_recorded'',
     Decide_Application ''app'' 2 ''kyc'' ''APPROVE'', Bind_Accounts ''app'' 3 ''fac'' ''set'',
     Decide_Application ''app'' 4 ''credit'' ''APPROVE''] demo_granted"

lemma demo_financed_reach: "trade_reach demo_sha demo_sealing demo_financed"
  unfolding demo_financed_def using demo_granted_reach run_tf_runs by blast

lemma demo_financed_rows: "map (\<lambda>a. (ta_id a, ta_state a)) (tf_apps demo_financed) = [(''app'', Tf_Clearance)]"
  by code_simp

lemma financing_follows_the_chain_witness:
  "\<exists>a. tf_apps demo_financed = [a] \<and> map tv_from (decisions_on ''app'' demo_financed) = [Tf_Consent_Check, Tf_Bank_Review] \<and>
     ta_facility a \<noteq> []"
proof -
  obtain a where a: "tf_apps demo_financed = [a]" "ta_id a = ''app''" "ta_state a = Tf_Clearance"
    using demo_financed_rows by (auto simp: map_eq_Cons_conv)
  then have "a \<in> set (tf_apps demo_financed)" by simp
  from financing_follows_the_chain [OF demo_financed_reach this] show ?thesis using a by simp
qed

section \<open>The deployed routes\<close>

text \<open>The calls the routes make; they change the tables through the store's calls alone.\<close>

datatype tf_request =
  Post_Consent "consent option" | Post_Activate "int option" string | Post_Reject "int option" string
| Post_Request_Revocation "int option" string | Post_Confirm_Revocation "int option" string | Post_Reject_Revocation "int option" string
| Post_Application "(tf_application \<times> tf_assignments option) option" | Post_Decision "(int \<times> string) option" string

fun serve :: "(string \<Rightarrow> string) \<Rightarrow> sealing \<Rightarrow> tf_db env \<Rightarrow> tf_principal option \<Rightarrow> tf_request \<Rightarrow> tf_db \<Rightarrow> tf_answer \<times> tf_db" where
  "serve sha sign e auth (Post_Consent b) d = handle_request_consent sha e auth b d"
| "serve sha sign e auth (Post_Activate v k) d = consent_move (activate sha sign e) auth v k d"
| "serve sha sign e auth (Post_Reject v k) d = consent_move (reject_consent sha e) auth v k d"
| "serve sha sign e auth (Post_Request_Revocation v k) d = consent_move (request_revocation sha e) auth v k d"
| "serve sha sign e auth (Post_Confirm_Revocation v k) d = consent_move (confirm_revocation sha e) auth v k d"
| "serve sha sign e auth (Post_Reject_Revocation v k) d = consent_move (reject_revocation sha e) auth v k d"
| "serve sha sign e auth (Post_Application b) d = handle_submit_application e auth b d"
| "serve sha sign e auth (Post_Decision b k) d = handle_decision e auth b k d"

inductive served :: "(string \<Rightarrow> string) \<Rightarrow> sealing \<Rightarrow> tf_db \<Rightarrow> tf_db \<Rightarrow> bool" for sha sign where
  idle: "served sha sign d d"
| request: "served sha sign d0 d \<Longrightarrow> served sha sign d (env_other e d) \<Longrightarrow> served sha sign d0 (snd (serve sha sign e auth r d))"

lemma snd_answer [simp]: "snd (answer s b r) = snd r"
  by (cases r; cases "fst r") (auto simp: answer_def)

text \<open>A request makes one call of the store or none, and never one that reviews, binds accounts or moves legs.\<close>

fun routed :: "tf_call \<Rightarrow> bool" where
  "routed (Review_Application k v role who kind) = False"
| "routed (Bind_Accounts k v f g) = False"
| "routed (Record_Legs k reserve amount currency) = False"
| "routed (Complete_Disbursement k transfer) = False"
| "routed (Complete_Settlement k transfer) = False"
| "routed _ = True"

definition by_call :: "(string \<Rightarrow> string) \<Rightarrow> sealing \<Rightarrow> tf_db env \<Rightarrow> tf_db \<Rightarrow> tf_db \<Rightarrow> bool" where
  "by_call sha sign e d d' \<longleftrightarrow> d' = d \<or> (\<exists>c. routed c \<and> d' = trade_call sha sign e c d)"

lemma by_call_refl: "by_call sha sign e d d"
  by (simp add: by_call_def)

lemma by_callI: "routed c \<Longrightarrow> trade_call sha sign e c d = d' \<Longrightarrow> by_call sha sign e d d'"
  by (auto simp: by_call_def)

lemma by_calls:
  "by_call sha sign e d (snd (request_consent sha e c now d))" "by_call sha sign e d (snd (activate sha sign e k v who d))"
  "by_call sha sign e d (snd (reject_consent sha e k v who d))" "by_call sha sign e d (snd (request_revocation sha e k v who d))"
  "by_call sha sign e d (snd (confirm_revocation sha e k v who d))" "by_call sha sign e d (snd (reject_revocation sha e k v who d))"
  "by_call sha sign e d (snd (submit_application e a as d))" "by_call sha sign e d (snd (record_decision_tf e k v who decision d))"
  by (rule by_callI [of "Request_Consent c now"], simp, simp) (rule by_callI [of "Activate_Consent k v who"], simp, simp,
    rule by_callI [of "Reject_Consent k v who"], simp, simp, rule by_callI [of "Request_Revocation k v who"], simp, simp,
    rule by_callI [of "Confirm_Revocation k v who"], simp, simp, rule by_callI [of "Reject_Revocation k v who"], simp, simp,
    rule by_callI [of "Submit_Application a as"], simp, simp, rule by_callI [of "Decide_Application k v who decision"], simp, simp)

lemma move_by_call:
  "(\<And>v who. by_call sha sign e d (snd (move k v who d))) \<Longrightarrow> by_call sha sign e d (snd (consent_move move auth version k d))"
  by (simp add: consent_move_def by_call_refl split: sum.splits option.splits)

lemma serve_by_call: "by_call sha sign e d (snd (serve sha sign e auth r d))"
  by (cases r) (simp_all add: move_by_call by_calls by_call_refl handle_request_consent_def handle_submit_application_def
      handle_decision_def split: sum.splits option.splits prod.splits)

lemma served_runs: "served sha sign d0 d \<Longrightarrow> trade_runs sha sign d0 d"
proof (induction rule: served.induct)
  case (request d0 d e auth r)
  then show ?case using serve_by_call [of sha sign e d auth r] trade_runs.call unfolding by_call_def by metis
qed (rule trade_runs.idle)

definition unreviewed :: "tf_db \<Rightarrow> bool" where
  "unreviewed d \<longleftrightarrow> (\<forall>a \<in> set (tf_apps d). ta_state a = Tf_Application)"

lemma append_audit_apps: "append_audit sha e n k actor action from to now d = Inr d' \<Longrightarrow> tf_apps d' = tf_apps d"
  by (erule append_audit_Inr) simp

lemma append_event_apps: "tf_append_event e n subject kind v now d = Inr d' \<Longrightarrow> tf_apps d' = tf_apps d"
  using tf_append_event_Inr by fastforce

lemma transition_body_apps: "transition_consent_body sha e cur upd actor action kind d = Inr (c, d') \<Longrightarrow> tf_apps d' = tf_apps d"
  unfolding transition_consent_body_def Let_def
  by (auto simp: db_simps dest!: append_audit_apps append_event_apps split: option.splits if_splits)

lemma waiting_tx:
  assumes "unreviewed (env_other e d)" "\<And>d1 a d2. unreviewed d1 \<Longrightarrow> body d1 = Inr (a, d2) \<Longrightarrow> unreviewed d2"
  shows "unreviewed (snd (run_tx e b c mk body d))"
  by (rule run_tx_inv [where P = unreviewed]) (use assms in blast)+

lemma waiting_cong: "tf_apps d' = tf_apps d \<Longrightarrow> unreviewed d' = unreviewed d"
  by (simp add: unreviewed_def)

lemma transition_waiting:
  assumes "unreviewed d" "unreviewed (env_other e d)"
  shows "unreviewed (snd (transition_consent sha e k v actor action kind move d))"
proof -
  have "unreviewed (snd (run_tx e b c mk (transition_consent_body sha e cur u actor action kind) d))" for b c mk cur u
    using transition_body_apps waiting_cong by (intro waiting_tx assms(2)) metis
  then show ?thesis using assms(1) by (simp add: transition_consent_def split: sum.splits)
qed

lemma request_waiting:
  assumes "unreviewed d" "unreviewed (env_other e d)"
  shows "unreviewed (snd (request_consent sha e c now d))"
proof -
  have body: "tf_apps d3 = tf_apps d0"
    if "insert_consent e r d0 = Inr d1" "append_audit sha e 0 k who act old new now d1 = Inr d2" "tf_append_event e m k kind v now d2 = Inr d3"
    for r d0 d1 d2 d3 k who act old new kind v m
  proof -
    have "tf_apps d1 = tf_apps d0" using that(1) by (auto simp: insert_consent_def db_simps split: if_splits)
    then show ?thesis using append_audit_apps [OF that(2)] append_event_apps [OF that(3)] by simp
  qed
  have "unreviewed (snd (run_tx e b c mk (\<lambda>d. and_then (insert_consent e r d) (\<lambda>d1.
      and_then (append_audit sha e 0 k who act old new now d1) (\<lambda>d2.
      and_then (tf_append_event e m k kind v now d2) (\<lambda>d3. Inr (r, d3))))) d))" for b c mk r act old new kind v k who m
  proof (rule waiting_tx [OF assms(2)])
    fix d1 a d2
    assume "unreviewed d1" "and_then (insert_consent e r d1) (\<lambda>d1. and_then (append_audit sha e 0 k who act old new now d1) (\<lambda>d2.
      and_then (tf_append_event e m k kind v now d2) (\<lambda>d3. Inr (r, d3)))) = Inr (a, d2)"
    then show "unreviewed d2" using body waiting_cong unfolding and_then_Inr_iff by blast
  qed
  then show ?thesis using assms(1) by (simp add: request_consent_def Let_def split: sum.splits)
qed

lemma submit_body_apps: "tf_submit_body e row as d = Inr (a, d') \<Longrightarrow> tf_apps d' = tf_apps d @ [row]"
  unfolding tf_submit_body_def
  by (auto simp: db_simps split: if_splits dest!: insert_roles_Inr tf_append_transition_Inr tf_append_event_Inr)

lemma submit_waiting:
  assumes "unreviewed d" "unreviewed (env_other e d)"
  shows "unreviewed (snd (submit_application e a as d))"
proof -
  have "unreviewed (snd (run_tx e b c mk (tf_submit_body e row as) d))" if "ta_state row = Tf_Application" for b c mk row
    using submit_body_apps that by (intro waiting_tx assms(2)) (auto simp: unreviewed_def)
  then show ?thesis using assms(1) by (simp add: submit_application_def split: sum.splits option.splits)
qed

lemma decide_waiting: "unreviewed d \<Longrightarrow> \<exists>err. record_decision_tf e k v who decision d = (Inl err, d)"
proof -
  assume w: "unreviewed d"
  have "\<exists>err. apply_decision_tf a as who decision = Inl err" if "ta_state a = Tf_Application" for a as
    using that by (simp add: apply_decision_tf_def)
  then show ?thesis
    using w unfolding record_decision_tf_def unreviewed_def
    by (auto split: sum.splits dest!: get_application_row) (metis Inl_Inr_False)+
qed

lemma routed_waiting: "routed c \<Longrightarrow> unreviewed d \<Longrightarrow> unreviewed (env_other e d) \<Longrightarrow> unreviewed (trade_call sha sign e c d)"
  using decide_waiting [of d e]
  by (cases c) (simp_all add: request_waiting transition_waiting submit_waiting activate_def reject_consent_def
      request_revocation_def confirm_revocation_def reject_revocation_def, metis snd_conv)

lemma served_waiting: "served sha sign d0 d \<Longrightarrow> unreviewed d0 \<Longrightarrow> unreviewed d"
proof (induction rule: served.induct)
  case (request d0 d e auth r)
  then show ?case using serve_by_call [of sha sign e d auth r] routed_waiting unfolding by_call_def by metis
qed

lemma store_problem_is: "\<exists>s t. store_problem err = Problem s t"
  by (cases err) simp_all

text \<open>C23 No deployed route starts the review. Whatever requests are served, by whom and in whatever interleaving, an
  application stays in the state it was submitted in, and every decision posted on it is answered with a problem and
  changes nothing.\<close>

theorem routes_never_begin_the_review:
  assumes "served sha sign empty_tf_db d" and "a \<in> set (tf_apps d)"
  shows "ta_state a = Tf_Application \<and> (\<exists>status detail. handle_decision e auth body (ta_id a) d = (Problem status detail, d))"
proof -
  have w: "unreviewed d" using served_waiting [OF assms(1)] by (simp add: unreviewed_def empty_tf_db_def)
  have "\<exists>s t. handle_decision e auth body (ta_id a) d = (Problem s t, d)"
  proof -
    have "\<exists>s t. answer n f (record_decision_tf e (ta_id a) v who decision d) = (Problem s t, d)" for n f v who decision
    proof -
      obtain err where "record_decision_tf e (ta_id a) v who decision d = (Inl err, d)" using decide_waiting [OF w] by blast
      then show ?thesis using store_problem_is [of err] by (auto simp: answer_def)
    qed
    then show ?thesis
      by (auto simp: handle_decision_def principal_of_def unauthenticated_def split: sum.splits option.splits if_splits)
  qed
  then show ?thesis using w assms(2) by (simp add: unreviewed_def)
qed

definition demo_trader :: "tf_principal option" where
  "demo_trader = Some \<lparr>tp_subject = ''ada'', tp_roles = [''trader'']\<rparr>"

definition demo_served_db :: tf_db where
  "demo_served_db =
     snd (serve demo_sha demo_sealing (tf_env 2) demo_trader (Post_Application (Some (demo_financing, Some demo_holders)))
       (snd (serve demo_sha demo_sealing (tf_env 1) demo_trader (Post_Consent (Some demo_consent)) empty_tf_db)))"

lemma demo_served_rows: "map (\<lambda>a. (ta_id a, ta_version a)) (tf_apps demo_served_db) = [(''app'', 1)]"
  by code_simp

lemma routes_never_begin_the_review_witness:
  "\<exists>a status detail. tf_apps demo_served_db = [a] \<and> ta_state a = Tf_Application \<and>
     handle_decision (tf_env 3) (Some \<lparr>tp_subject = ''kyc'', tp_roles = [''bank-officer'']\<rparr>) (Some (1, ''APPROVE'')) ''app'' demo_served_db =
       (Problem status detail, demo_served_db)"
proof -
  obtain a where a: "tf_apps demo_served_db = [a]" "ta_id a = ''app''" using demo_served_rows by (auto simp: map_eq_Cons_conv)
  have env: "served demo_sha demo_sealing d (env_other (tf_env n) d)" for n d by (simp add: tf_env_def served.idle)
  have "served demo_sha demo_sealing empty_tf_db demo_served_db"
    unfolding demo_served_db_def by (intro served.request served.idle env)
  moreover have "a \<in> set (tf_apps demo_served_db)" using a(1) by simp
  ultimately show ?thesis using routes_never_begin_the_review a by metis
qed

end
