(* ===== verification/Spec2Isabelle.thy ===== *)
theory Spec2Isabelle
  imports Intent_Props Fx_Store Ledger_Props Orchestrator_Props Reconciliation_Props Cvff_Chain Rail_Props Workflow_Props
    Tariff_Chain Settlement_Chain Revenue_Report Trade_Props
begin

text \<open>
  Verification library of the blue-economy financial controls (the Go services under \<open>src/internal\<close>). File names
  below are relative to \<open>src\<close>.

  \<^bold>\<open>The program.\<close> Several services share PostgreSQL databases and a TigerBeetle cluster. Financial intents are created,
  approved by a second officer and settled in two phases on the ledger (\<open>intent\<close>, \<open>orchestration\<close>, \<open>ledger\<close>). The CVFF
  disbursement runs an application through a chain of parties in a Temporal workflow and pays it through a rail that
  converts at the confirmed reference rate (\<open>cvff\<close>, \<open>workflow\<close>, \<open>fx\<close>). Statutory tariffs are assessed (\<open>tariff\<close>), billed
  as sealed debit notes, reconciled with bank statements and ledger settlements, split and reported (\<open>revenue\<close>); a poller
  mirrors the ledger into the revenue database (\<open>settlementsync\<close>). Traders consent to share data with banks and apply for
  financing (\<open>tradefinance\<close>). A statement is compared with the intents by \<open>reconciliation\<close>.

  \<^bold>\<open>Foundations.\<close>
  \<^item> \<open>Prelude\<close>: identifiers and white space of the Go library, results, machine integers, sorting by a comparison.
  \<^item> \<open>Database\<close>: tables as lists of rows, statements that can fail, transactions with rollback and lost
    acknowledgements, and the environment of a call: its clock, identifiers, failures, and what other transactions
    commit between its read and its transaction. \<open>Versioned\<close>: the locale of optimistic concurrency control, interpreted
    on both lifecycle stores.
  \<^item> \<open>Calendar\<close>, \<open>Go_Text\<close>: civil dates, and the decimal and date texts that are printed and parsed.

  \<^bold>\<open>Components\<close>, in the order in which they build on each other.
  \<^item> \<open>Intent_Model\<close> (\<open>intent/model.go\<close>), \<open>Intent_Store\<close> (\<open>intent/store.go\<close>), \<open>Intent_Inv\<close> and \<open>Intent_Props\<close>: dual control,
    the outbox as the history of an intent, and the linearization of every call that succeeds.
  \<^item> \<open>Fx\<close> (\<open>fx/fx.go\<close>) and \<open>Fx_Store\<close> (\<open>fx/store.go\<close>): rates under dual control, conversions rounded half up.
  \<^item> \<open>Ledger\<close> (\<open>ledger/ledger.go\<close>, \<open>ledger/fx.go\<close>) and \<open>Ledger_Props\<close>: the service over a cluster that meets the
    documented contract \<open>tb_contract\<close>; \<open>sim_client\<close> is a cluster that does and that can be run.
  \<^item> \<open>Intent_Port\<close>, \<open>Orchestrator\<close> (\<open>orchestration/orchestrator.go\<close>, \<open>resolver.go\<close>), \<open>Orchestrator_Inv\<close> and
    \<open>Orchestrator_Props\<close>: the lemmas are proved in the locale of the store port and interpreted on the PostgreSQL store.
  \<^item> \<open>Reconciliation\<close>, \<open>Reconciliation_Props\<close> (\<open>reconciliation/reconciliation.go\<close>): the report does not depend on Go's map
    order or on the unstable sort, and it is clean exactly when the books agree.
  \<^item> \<open>Cvff_Model\<close> (\<open>cvff/application.go\<close>), \<open>Cvff_Store\<close> (\<open>cvff/store.go\<close>, \<open>disbursement.go\<close>), \<open>Cvff_Inv\<close>, \<open>Cvff_Props\<close>,
    \<open>Cvff_Chain\<close>: the transition log, one entry of a late role assignment left out, is the history, decisions are separated by role, service levels terminate.
  \<^item> \<open>Rail\<close> (\<open>workflow/disburse.go\<close>), \<open>Rail_Port\<close>, \<open>Rail_Props\<close>: recorded legs are settled, a failure parks.
  \<^item> \<open>Workflow\<close> (\<open>workflow/activities.go\<close>, \<open>cvff.go\<close>) as a state machine over signals and timers, \<open>Workflow_Port\<close> (its locale),
    \<open>Workflow_Plant\<close>, \<open>Workflow_Runs\<close>, \<open>Workflow_Refusals\<close> (the production wiring), \<open>Workflow_Demo\<close>, \<open>Workflow_Props\<close>.
  \<^item> \<open>Tariff\<close> (\<open>tariff/model.go\<close>, \<open>engine.go\<close>), \<open>Tariff_Props\<close>, \<open>Tariff_Store\<close> (\<open>tariff/store.go\<close>), \<open>Tariff_Inv\<close>, \<open>Tariff_Chain\<close>:
    assessments are well formed, their totals are the sums of their lines, and they are replayed.
  \<^item> \<open>Revenue\<close> (\<open>revenue/model.go\<close>, \<open>split.go\<close>), \<open>Revenue_Split\<close>, \<open>Revenue_Recon\<close> and \<open>Revenue_Recon_Props\<close> (\<open>recon.go\<close>),
    \<open>Revenue_Store\<close> (\<open>store.go\<close>), \<open>Revenue_Batch\<close> (\<open>recon_store.go\<close>), \<open>Revenue_Advice\<close> (\<open>split_store.go\<close>), \<open>Revenue_Ingest\<close>
    (\<open>statement_store.go\<close>); the invariant and its preservation in \<open>Revenue_Inv\<close>, \<open>Revenue_Notes\<close>, \<open>Revenue_Batch_Inv\<close>,
    \<open>Revenue_Records_Inv\<close>; every call and the reachable databases in \<open>Revenue_Calls\<close>; the properties in \<open>Revenue_Chain\<close> and
    \<open>Revenue_Refusals\<close>; the reports in \<open>Revenue_Report\<close> (\<open>report.go\<close>).
  \<^item> \<open>Settlement_Config\<close>, \<open>Settlement_Sync\<close> (\<open>settlementsync/sync.go\<close>, \<open>loop.go\<close>), \<open>Settlement_Sync_Inv\<close>, \<open>Settlement_Sync_Props\<close>,
    \<open>Settlement_Chain\<close>: the cluster, the revenue service and the poller together.
  \<^item> \<open>Trade_Model\<close> (\<open>tradefinance/consent.go\<close>, \<open>product.go\<close>), \<open>Trade_Store\<close> and \<open>Trade_Applications\<close> (\<open>store.go\<close>), \<open>Trade_Inv\<close> with
    \<open>Trade_Consents\<close> and \<open>Trade_Decisions\<close> (the invariant and its preservation), \<open>Trade_Http\<close> (\<open>httpapi.go\<close>, \<open>bankapi.go\<close>),
    \<open>Trade_Chain\<close> and \<open>Trade_Props\<close>: shared data is consented, the audit chain is verified and tamper-evident, financing
    follows the chain of approvals, and no deployed route starts the review.

  \<^bold>\<open>How state and errors correspond.\<close> A struct is a record, a closed set of states a datatype, an error a constructor. A
  store call takes the environment and the database and returns the error or the value with the database after it. Amounts
  are 64- or 128-bit words where the source has unsigned integers; \<open>int64\<close> amounts are integers, with the wrap-around written
  out (\<open>i64\<close>) where the source can overflow. Instants are nanoseconds since the epoch. The reachable databases are inductive:
  any sequence of calls, in any environment whose other transactions are such calls or keep the invariant.

  \<^bold>\<open>Parameters.\<close> Digests (\<open>hashing\<close>, \<open>digest\<close>, \<open>sha\<close>), the sealing and the verification of envelopes (\<open>sign\<close>, \<open>verify\<close>), JSON
  decoding (\<open>decode\<close>), the collation of texts (\<open>before\<close>), the order of Go's maps, the printing of ledger identifiers (\<open>nm\<close>),
  the cluster (\<open>tb_client\<close> under \<open>tb_contract\<close>, and query answers that are \<open>honest\<close> about its history) and the delivery of
  activities by Temporal (any list of lost attempts, one after the other: attempts that timed out and still run while
  the next one starts are not modelled). Each property with such a hypothesis has a witness that instantiates
  it with a concrete function.

  \<^bold>\<open>Loops and bounds.\<close> Loops are structural, or functions with a measure (the service-level loop, the trimming of texts); no
  model needs fuel. The poller's loop runs over the list of the ticks it receives.

  \<^bold>\<open>Witnesses.\<close> The \<open>demo_\<close> definitions are concrete runs of the model, evaluated by the simplifier; the trade-finance runs
  take place in year 1, whose short numerals are cheap to print.

  \<^bold>\<open>Simplifications.\<close> Where Go would panic because a digest is no ledger identifier, the ledger call of the model reports
  an error, on which the rail parks. \<open>new_consent\<close> walks Go's maps in the order of its association lists, which decides only which
  of several errors is returned. \<open>render_ledgers\<close> is a printer of the specification, the code only parses.

  \<^bold>\<open>Not modelled.\<close> Connection pools, process start-up, telemetry and token verification have no effect on what is stored or
  come from outside. The HTTP layers other than that of trade finance only decode requests for the modelled stores. The
  publication of the outbox rows (canonical JSON, signatures, Kafka), the intake consumers, the GL export, the Mojaloop
  adapter, the beneficiary API with its object storage and scanners, and the floating-point risk scores are left out; what
  they read and write of the modelled tables is covered by the environments of the calls only as far as it keeps the
  invariants. \<open>tradefinance/disbursement.go\<close> is called by tests only.
\<close>

end
